(* ===== verification/Prelude.thy ===== *)
theory Prelude
  imports Main "HOL-Library.Word"
begin

text \<open>
  Shared vocabulary of the development: the machine integers of the Rust code with their checked
  and saturating operations, results as sums, UTF-8 strings with the few \<open>str\<close> operations
  of the Rust standard library that the modelled code calls, and JSON trees.

  A Rust \<open>String\<close> is modelled by its UTF-8 bytes (one HOL \<open>char\<close> per byte), so
  \<open>len\<close> is \<open>length\<close> and a slice index is a byte index, as in Rust.
\<close>

section \<open>Results\<close>

abbreviation Ok :: "'a \<Rightarrow> 'e + 'a" where
  "Ok \<equiv> Inr"

abbreviation Err :: "'e \<Rightarrow> 'e + 'a" where
  "Err \<equiv> Inl"

text \<open>The \<open>?\<close> operator: an error returns early, a value goes on.\<close>

fun and_then :: "'e + 'a \<Rightarrow> ('a \<Rightarrow> 'e + 'b) \<Rightarrow> 'e + 'b" where
  "and_then (Inl e) f = Inl e"
| "and_then (Inr x) f = f x"

definition ok_or :: "'a option \<Rightarrow> 'e \<Rightarrow> 'e + 'a" where
  "ok_or x e = (case x of None \<Rightarrow> Inl e | Some v \<Rightarrow> Inr v)"

definition map_err :: "('e \<Rightarrow> 'f) \<Rightarrow> 'e + 'a \<Rightarrow> 'f + 'a" where
  "map_err f r = (case r of Inl e \<Rightarrow> Inl (f e) | Inr v \<Rightarrow> Inr v)"

lemma and_then_Inr: "and_then r f = Inr y \<longleftrightarrow> (\<exists>x. r = Inr x \<and> f x = Inr y)"
  by (cases r) auto

lemma ok_or_Inr: "ok_or x e = Inr v \<longleftrightarrow> x = Some v"
  by (auto simp: ok_or_def split: option.splits)

lemma ok_or_simps [simp]: "ok_or None e = Inl e" "ok_or (Some v) e = Inr v"
  by (simp_all add: ok_or_def)

lemma map_err_Inr: "map_err f r = Inr v \<longleftrightarrow> r = Inr v"
  by (auto simp: map_err_def split: sum.splits)

lemma map_err_simps [simp]: "map_err f (Inl e) = Inl (f e)" "map_err f (Inr v) = Inr v"
  by (simp_all add: map_err_def)

lemmas result_simps = and_then_Inr ok_or_Inr map_err_Inr

section \<open>Machine integers\<close>

type_synonym u32 = "32 word"
type_synonym u64 = "64 word"
type_synonym usize = "64 word"

definition checked_add :: "'a::len word \<Rightarrow> 'a word \<Rightarrow> 'a word option" where
  "checked_add a b = (if unat a + unat b < 2 ^ LENGTH('a) then Some (a + b) else None)"

definition checked_mul :: "'a::len word \<Rightarrow> 'a word \<Rightarrow> 'a word option" where
  "checked_mul a b = (if unat a * unat b < 2 ^ LENGTH('a) then Some (a * b) else None)"

definition checked_sub :: "'a::len word \<Rightarrow> 'a word \<Rightarrow> 'a word option" where
  "checked_sub a b = (if b \<le> a then Some (a - b) else None)"

definition saturating_add :: "'a::len word \<Rightarrow> 'a word \<Rightarrow> 'a word" where
  "saturating_add a b = (if unat a + unat b < 2 ^ LENGTH('a) then a + b else - 1)"

definition saturating_sub :: "'a::len word \<Rightarrow> 'a word \<Rightarrow> 'a word" where
  "saturating_sub a b = (if a < b then 0 else a - b)"

lemma unat_less_2p: "unat (w :: 'a::len word) < 2 ^ LENGTH('a)"
  by (rule unsigned_less)

lemma unat_widen [simp]: "unat (ucast (r :: u32) :: u64) = unat r"
  using unat_less_2p [of r] by (simp add: unsigned_ucast_eq take_bit_nat_eq_self)

lemma narrow_widen [simp]: "ucast (ucast (r :: u32) :: u64) = r"
  by (simp add: word_unat_eq_iff unsigned_ucast_eq take_bit_word_eq_self take_bit_nat_eq_self)

named_theorems word_results "what a successful machine operation computes on naturals"

lemma checked_add_Some [word_results]:
  "checked_add a b = Some c \<Longrightarrow> unat c = unat a + unat b"
  by (auto simp: checked_add_def unat_word_ariths split: if_splits)

lemma checked_add_None:
  "checked_add (a :: 'a::len word) b = None \<longleftrightarrow> 2 ^ LENGTH('a) \<le> unat a + unat b"
  by (auto simp: checked_add_def)

lemma checked_mul_Some [word_results]:
  "checked_mul a b = Some c \<Longrightarrow> unat c = unat a * unat b"
  by (auto simp: checked_mul_def unat_word_ariths split: if_splits)

lemma checked_sub_Some [word_results]:
  "checked_sub a b = Some c \<Longrightarrow> unat b \<le> unat a \<and> unat c = unat a - unat b"
  by (auto simp: checked_sub_def unat_sub word_le_nat_alt split: if_splits)

lemma unat_saturating_add:
  "unat (saturating_add (a :: 'a::len word) b) = min (unat a + unat b) (2 ^ LENGTH('a) - 1)"
  by (auto simp: saturating_add_def unat_word_ariths unsigned_minus_1_eq_mask mask_eq_exp_minus_1)

lemma unat_saturating_sub: "unat (saturating_sub a b) = unat a - unat b"
  by (auto simp: saturating_sub_def word_less_nat_alt unat_sub_if_size)

lemma saturating_add_Some:
  "checked_add a b = Some c \<Longrightarrow> saturating_add a b = c"
  by (auto simp: checked_add_def saturating_add_def split: if_splits)

lemma checked_add_less:
  "checked_add a b = Some c \<Longrightarrow> 0 < b \<Longrightarrow> a < c"
  by (auto dest!: checked_add_Some simp: word_less_nat_alt)

text \<open>\<open>iter().try_fold(0, checked_add)\<close>\<close>

fun checked_fold :: "'a::len word \<Rightarrow> 'a word list \<Rightarrow> 'a word option" where
  "checked_fold acc [] = Some acc"
| "checked_fold acc (x # xs) =
     (case checked_add acc x of None \<Rightarrow> None | Some y \<Rightarrow> checked_fold y xs)"

lemma checked_fold_Some [word_results]:
  "checked_fold acc xs = Some t \<Longrightarrow> unat t = unat acc + sum_list (map unat xs)"
  by (induction acc xs rule: checked_fold.induct)
    (auto split: option.splits dest: checked_add_Some)

text \<open>\<open>usize::checked_add\<close> on a count that is kept as a natural number.\<close>

definition usize_add :: "nat \<Rightarrow> nat \<Rightarrow> nat option" where
  "usize_add a b = (if a + b < 2 ^ 64 then Some (a + b) else None)"

text \<open>The largest integer that JavaScript represents exactly (\<open>json_value.rs\<close>).\<close>

definition MAX_SAFE_INTEGER :: u64 where
  "MAX_SAFE_INTEGER = 9007199254740991"

lemma unat_MAX_SAFE_INTEGER: "unat MAX_SAFE_INTEGER = 9007199254740991"
  by (simp add: MAX_SAFE_INTEGER_def)

text \<open>\<open>checked_add(1).filter(|v| *v <= MAX_SAFE_INTEGER)\<close>\<close>

definition safe_successor :: "u64 \<Rightarrow> u64 option" where
  "safe_successor v = (case checked_add v 1 of
      None \<Rightarrow> None
    | Some n \<Rightarrow> if n \<le> MAX_SAFE_INTEGER then Some n else None)"

lemma safe_successor_Some [word_results]:
  "safe_successor v = Some n \<Longrightarrow> unat n = Suc (unat v) \<and> n \<le> MAX_SAFE_INTEGER"
  by (auto simp: safe_successor_def split: option.splits if_splits dest: checked_add_Some)

lemma safe_successor_value:
  "safe_successor v = Some n \<Longrightarrow> n = v + 1"
  by (auto simp: safe_successor_def checked_add_def split: option.splits if_splits)

lemma safe_successor_saturating:
  "safe_successor v = Some n \<Longrightarrow> saturating_add v 1 = n"
  by (auto simp: safe_successor_def split: option.splits if_splits intro: saturating_add_Some)

lemma safe_successor_less: "safe_successor v = Some n \<Longrightarrow> v < n"
  by (auto dest!: safe_successor_Some simp: word_less_nat_alt)

lemma safe_successor_None:
  "v < MAX_SAFE_INTEGER \<Longrightarrow> safe_successor v = Some (v + 1)"
proof -
  assume a: "v < MAX_SAFE_INTEGER"
  then have b: "unat v < 9007199254740991"
    by (simp add: word_less_nat_alt unat_MAX_SAFE_INTEGER)
  then have c: "checked_add v 1 = Some (v + 1)"
    by (simp add: checked_add_def)
  then have "unat (v + 1) = Suc (unat v)"
    by (auto dest: checked_add_Some)
  with a c show ?thesis
    by (simp add: safe_successor_def word_le_nat_alt word_less_nat_alt)
qed

section \<open>Strings\<close>

text \<open>Bytes written as numbers, for the multi-byte characters that appear in the code.\<close>

definition utf8_bytes :: "nat list \<Rightarrow> string" where
  "utf8_bytes ns = map char_of ns"

fun strip_prefix :: "'a list \<Rightarrow> 'a list \<Rightarrow> 'a list option" where
  "strip_prefix [] s = Some s"
| "strip_prefix (p # ps) [] = None"
| "strip_prefix (p # ps) (c # s) = (if p = c then strip_prefix ps s else None)"

lemma strip_prefix_Some: "strip_prefix p s = Some r \<longleftrightarrow> s = p @ r"
  by (induction p s rule: strip_prefix.induct) auto

lemma strip_prefix_append [simp]: "strip_prefix p (p @ r) = Some r"
  by (simp add: strip_prefix_Some)

definition starts_with :: "'a list \<Rightarrow> 'a list \<Rightarrow> bool" where
  "starts_with p s \<longleftrightarrow> strip_prefix p s \<noteq> None"

lemma starts_with_iff: "starts_with p s \<longleftrightarrow> (\<exists>r. s = p @ r)"
  by (auto simp: starts_with_def strip_prefix_Some)

fun first_some :: "('a \<Rightarrow> 'b option) \<Rightarrow> 'a list \<Rightarrow> 'b option" where
  "first_some f [] = None"
| "first_some f (x # xs) = (case f x of None \<Rightarrow> first_some f xs | Some y \<Rightarrow> Some y)"

lemma first_some_Some:
  "first_some f xs = Some y \<Longrightarrow> \<exists>x \<in> set xs. f x = Some y"
  by (induction xs) (auto split: option.splits)

lemma first_some_None: "first_some f xs = None \<longleftrightarrow> (\<forall>x \<in> set xs. f x = None)"
  by (induction xs) (auto split: option.splits)

text \<open>The UTF-8 encodings of the characters with Unicode property \<open>White_Space\<close>
  (\<open>char::is_whitespace\<close>).\<close>

definition whitespace_chars :: "string list" where
  "whitespace_chars = map utf8_bytes
     ([[9], [10], [11], [12], [13], [32], [194, 133], [194, 160], [225, 154, 128]]
      @ map (\<lambda>n. [226, 128, n]) ([128..<139] @ [168, 169, 175])
      @ [[226, 129, 159], [227, 128, 128]])"

definition strip_whitespace_char :: "string list \<Rightarrow> string \<Rightarrow> string option" where
  "strip_whitespace_char ws s = first_some (\<lambda>w. strip_prefix w s) ws"

definition starts_with_whitespace :: "string \<Rightarrow> bool" where
  "starts_with_whitespace s \<longleftrightarrow> strip_whitespace_char whitespace_chars s \<noteq> None"

text \<open>Removing the listed characters from the front while there is one. The length test only
  excludes an empty entry in \<open>ws\<close>, which \<open>whitespace_chars\<close> does not have.\<close>

function trim_front :: "string list \<Rightarrow> string \<Rightarrow> string" where
  "trim_front ws s = (case strip_whitespace_char ws s of
      None \<Rightarrow> s
    | Some r \<Rightarrow> if length r < length s then trim_front ws r else s)"
  by pat_completeness auto
termination
  by (relation "measure (\<lambda>(ws, s). length s)") auto

declare trim_front.simps [simp del]

definition trim_start :: "string \<Rightarrow> string" where
  "trim_start s = trim_front whitespace_chars s"

definition trim_end :: "string \<Rightarrow> string" where
  "trim_end s = rev (trim_front (map rev whitespace_chars) (rev s))"

text \<open>\<open>str::trim\<close>, the same as \<open>trim_matches(char::is_whitespace)\<close>.\<close>

definition trim :: "string \<Rightarrow> string" where
  "trim s = trim_end (trim_start s)"

lemma trim_front_length: "length (trim_front ws s) \<le> length s"
proof (induction ws s rule: trim_front.induct)
  case (1 ws s)
  then show ?case
    by (subst trim_front.simps) (fastforce split: option.splits)
qed

lemma trim_front_suffix: "\<exists>p. s = p @ trim_front ws s"
proof (induction ws s rule: trim_front.induct)
  case (1 ws s)
  show ?case
  proof (cases "strip_whitespace_char ws s")
    case None
    then show ?thesis by (subst trim_front.simps) simp
  next
    case (Some r)
    then obtain w where w: "s = w @ r"
      by (auto simp: strip_whitespace_char_def strip_prefix_Some dest!: first_some_Some)
    show ?thesis
    proof (cases "length r < length s")
      case True
      with 1 Some obtain p where "r = p @ trim_front ws r" by blast
      then have "s = (w @ p) @ trim_front ws s"
        using Some True w by (subst trim_front.simps) simp
      then show ?thesis by blast
    next
      case False
      with Some show ?thesis by (subst trim_front.simps) simp
    qed
  qed
qed

lemma trim_length: "length (trim s) \<le> length s"
proof -
  have "length (trim s) \<le> length (trim_start s)"
    unfolding trim_def trim_end_def by (metis trim_front_length length_rev)
  also have "\<dots> \<le> length s"
    by (simp add: trim_start_def trim_front_length)
  finally show ?thesis .
qed

lemma trim_infix: "\<exists>p q. s = p @ trim s @ q"
proof -
  obtain p where p: "s = p @ trim_start s"
    using trim_front_suffix unfolding trim_start_def by blast
  obtain q where "rev (trim_start s) = q @ trim_front (map rev whitespace_chars) (rev (trim_start s))"
    using trim_front_suffix by blast
  then have "trim_start s = trim s @ rev q"
    unfolding trim_def trim_end_def by (metis rev_append rev_rev_ident)
  with p show ?thesis by metis
qed

text \<open>A string that begins and ends with a graphic ASCII character is already trimmed.\<close>

definition is_ascii_graphic :: "char \<Rightarrow> bool" where
  "is_ascii_graphic c = (let n = (of_char c :: nat) in 32 < n \<and> n < 127)"

lemma whitespace_bytes:
  "list_all (\<lambda>w. w \<noteq> [] \<and> \<not> is_ascii_graphic (hd w) \<and> \<not> is_ascii_graphic (last w)) whitespace_chars"
  by code_simp

lemma strip_whitespace_graphic:
  assumes "list_all (\<lambda>w. w \<noteq> [] \<and> \<not> is_ascii_graphic (hd w)) ws"
    and "s = [] \<or> is_ascii_graphic (hd s)"
  shows "strip_whitespace_char ws s = None"
proof -
  have "strip_prefix w s = None" if "w \<in> set ws" for w
    using assms that by (cases w; cases s) (auto simp: list_all_iff)
  then show ?thesis by (simp add: strip_whitespace_char_def first_some_None)
qed

lemma trim_graphic:
  assumes "s \<noteq> []" and "is_ascii_graphic (hd s)" and "is_ascii_graphic (last s)"
  shows "trim s = s"
proof -
  have "strip_whitespace_char whitespace_chars s = None"
    using assms whitespace_bytes by (intro strip_whitespace_graphic) (auto simp: list_all_iff)
  then have start: "trim_start s = s"
    by (simp add: trim_start_def trim_front.simps)
  have "strip_whitespace_char (map rev whitespace_chars) (rev s) = None"
    using assms whitespace_bytes
    by (intro strip_whitespace_graphic) (auto simp: list_all_iff hd_rev)
  then have "trim_end s = s"
    by (simp add: trim_end_def trim_front.simps)
  with start show ?thesis by (simp add: trim_def)
qed

text \<open>A trimmed string neither begins nor ends with white space, so trimming is idempotent.\<close>

lemma trim_front_fix:
  assumes "\<forall>w \<in> set ws. w \<noteq> []"
  shows "strip_whitespace_char ws (trim_front ws s) = None"
  using assms
proof (induction ws s rule: trim_front.induct)
  case (1 ws s)
  show ?case
  proof (cases "strip_whitespace_char ws s")
    case None
    then show ?thesis by (simp add: trim_front.simps [of ws s])
  next
    case (Some r)
    then obtain w where "w \<in> set ws" "s = w @ r"
      by (auto simp: strip_whitespace_char_def strip_prefix_Some dest!: first_some_Some)
    with 1 have "length r < length s" by auto
    with 1 Some show ?thesis by (auto simp: trim_front.simps [of ws s])
  qed
qed

lemma trim_front_id: "strip_whitespace_char ws s = None \<Longrightarrow> trim_front ws s = s"
  by (simp add: trim_front.simps)

lemma strip_whitespace_prefix:
  "strip_whitespace_char ws (p @ q) = None \<Longrightarrow> strip_whitespace_char ws p = None"
proof -
  have "strip_prefix w (p @ q) = None \<Longrightarrow> strip_prefix w p = None" for w
    by (cases "strip_prefix w p") (auto simp: strip_prefix_Some)
  then show "strip_whitespace_char ws (p @ q) = None \<Longrightarrow> strip_whitespace_char ws p = None"
    by (auto simp: strip_whitespace_char_def first_some_None)
qed

lemma trim_idem: "trim (trim s) = trim s"
proof -
  have ne: "\<forall>w \<in> set whitespace_chars. w \<noteq> []"
    using whitespace_bytes by (auto simp: list_all_iff)
  obtain p where "rev (trim_start s) = p @ rev (trim s)"
    unfolding trim_def trim_end_def rev_rev_ident using trim_front_suffix by blast
  then have "trim_start s = trim s @ rev p" by (metis rev_append rev_rev_ident)
  moreover have "strip_whitespace_char whitespace_chars (trim_start s) = None"
    unfolding trim_start_def using ne by (rule trim_front_fix)
  ultimately have "strip_whitespace_char whitespace_chars (trim s) = None"
    by (metis strip_whitespace_prefix)
  then have start: "trim_start (trim s) = trim s"
    by (simp add: trim_start_def trim_front_id)
  have "strip_whitespace_char (map rev whitespace_chars) (rev (trim s)) = None"
    unfolding trim_def trim_end_def rev_rev_ident using ne by (intro trim_front_fix) auto
  then have "trim_end (trim s) = trim s"
    by (simp add: trim_end_def trim_front_id)
  with start show ?thesis by (simp add: trim_def)
qed

text \<open>ASCII case folding (\<open>eq_ignore_ascii_case\<close>) and classes of bytes.\<close>

definition to_ascii_lower :: "char \<Rightarrow> char" where
  "to_ascii_lower c = (let n = (of_char c :: nat) in
     if 65 \<le> n \<and> n \<le> 90 then char_of (n + 32) else c)"

definition eq_ignore_ascii_case :: "string \<Rightarrow> string \<Rightarrow> bool" where
  "eq_ignore_ascii_case a b \<longleftrightarrow> map to_ascii_lower a = map to_ascii_lower b"

definition is_ascii_lowercase :: "char \<Rightarrow> bool" where
  "is_ascii_lowercase c = (let n = (of_char c :: nat) in 97 \<le> n \<and> n \<le> 122)"

definition is_ascii_digit :: "char \<Rightarrow> bool" where
  "is_ascii_digit c = (let n = (of_char c :: nat) in 48 \<le> n \<and> n \<le> 57)"

text \<open>\<open>chars().any(char::is_control)\<close>: the C0 and C1 controls and DEL, in UTF-8.\<close>

fun has_control :: "string \<Rightarrow> bool" where
  "has_control [] = False"
| "has_control (c # s) =
     ((of_char c :: nat) < 32 \<or> (of_char c :: nat) = 127
      \<or> ((of_char c :: nat) = 194 \<and>
          (case s of [] \<Rightarrow> False | d # _ \<Rightarrow> 128 \<le> (of_char d :: nat) \<and> (of_char d :: nat) < 160))
      \<or> has_control s)"

text \<open>\<open>str::is_char_boundary\<close>: not inside a multi-byte character.\<close>

definition is_continuation :: "char \<Rightarrow> bool" where
  "is_continuation c = (let n = (of_char c :: nat) in 128 \<le> n \<and> n < 192)"

definition is_char_boundary :: "string \<Rightarrow> nat \<Rightarrow> bool" where
  "is_char_boundary s i \<longleftrightarrow>
     i = 0 \<or> i = length s \<or> (i < length s \<and> \<not> is_continuation (s ! i))"

text \<open>The largest character boundary up to an index: \<open>while !is_char_boundary(end) { end -= 1 }\<close>.\<close>

fun floor_char_boundary :: "string \<Rightarrow> nat \<Rightarrow> nat" where
  "floor_char_boundary s 0 = 0"
| "floor_char_boundary s (Suc n) =
     (if is_char_boundary s (Suc n) then Suc n else floor_char_boundary s n)"

text \<open>Decimal rendering (\<open>Display\<close> of unsigned integers).\<close>

fun show_nat :: "nat \<Rightarrow> string" where
  "show_nat n = (if n < 10 then [char_of (48 + n)] else show_nat (n div 10) @ [char_of (48 + n mod 10)])"

declare show_nat.simps [simp del]

section \<open>JSON trees\<close>

text \<open>
  \<open>serde_json::Value\<close>. A number is an integer or a float; the code modelled here only asks
  whether a number is an integer, so a float keeps its bit pattern. An object is the list of its
  fields; serde keeps one value per key.
\<close>

datatype json =
    JNull
  | JBool bool
  | JInt int
  | JFloat u64
  | JStr string
  | JArr "json list"
  | JObj "(string \<times> json) list"

fun as_str :: "json \<Rightarrow> string option" where
  "as_str (JStr s) = Some s"
| "as_str _ = None"

fun as_object :: "json \<Rightarrow> (string \<times> json) list option" where
  "as_object (JObj fs) = Some fs"
| "as_object _ = None"

fun as_array :: "json \<Rightarrow> json list option" where
  "as_array (JArr xs) = Some xs"
| "as_array _ = None"

fun as_bool :: "json \<Rightarrow> bool option" where
  "as_bool (JBool b) = Some b"
| "as_bool _ = None"

fun as_u64 :: "json \<Rightarrow> u64 option" where
  "as_u64 (JInt i) = (if 0 \<le> i \<and> i < 2 ^ 64 then Some (word_of_int i) else None)"
| "as_u64 _ = None"

text \<open>\<open>fields.get(key).and_then(Value::as_str)\<close> and its siblings.\<close>

definition get_str :: "(string \<times> json) list \<Rightarrow> string \<Rightarrow> string option" where
  "get_str fs k = Option.bind (map_of fs k) as_str"

definition get_u64 :: "(string \<times> json) list \<Rightarrow> string \<Rightarrow> u64 option" where
  "get_u64 fs k = Option.bind (map_of fs k) as_u64"

definition get_bool :: "(string \<times> json) list \<Rightarrow> string \<Rightarrow> bool option" where
  "get_bool fs k = Option.bind (map_of fs k) as_bool"

definition get_array :: "(string \<times> json) list \<Rightarrow> string \<Rightarrow> json list option" where
  "get_array fs k = Option.bind (map_of fs k) as_array"

section \<open>Runs\<close>

text \<open>Feeding a list of inputs to a step that may fail.\<close>

fun run :: "('s \<Rightarrow> 'i \<Rightarrow> 'e + 's) \<Rightarrow> 's \<Rightarrow> 'i list \<Rightarrow> 'e + 's" where
  "run f s [] = Inr s"
| "run f s (x # xs) = and_then (f s x) (\<lambda>s'. run f s' xs)"

lemma run_append:
  "run f s (xs @ ys) = and_then (run f s xs) (\<lambda>s'. run f s' ys)"
proof (induction xs arbitrary: s)
  case Nil
  then show ?case by simp
next
  case (Cons x xs)
  then show ?case by (cases "f s x") simp_all
qed

text \<open>A step that keeps an invariant keeps it along every run.\<close>

locale keeps =
  fixes step :: "'s \<Rightarrow> 'i \<Rightarrow> 'e + 's"
    and inv :: "'s \<Rightarrow> bool"
  assumes step_keeps: "inv s \<Longrightarrow> step s x = Inr s' \<Longrightarrow> inv s'"
begin

lemma run_keeps: "inv s \<Longrightarrow> run step s xs = Inr s' \<Longrightarrow> inv s'"
proof (induction xs arbitrary: s)
  case Nil
  then show ?case by simp
next
  case (Cons x xs)
  then show ?case by (auto simp: and_then_Inr intro: step_keeps)
qed

end

end
