(* ===== verification/Message.thy ===== *)
theory Message
  imports Prelude
begin

text \<open>
  Messages of the provider-neutral model (\<open>src/model/message.rs\<close>): content blocks, the
  provenance record of a message, their tolerant parsers over JSON trees, and the shape checks
  that session events demand of a message.

  Derived serde deserialisers are generated code; the parsers take them as a record of
  parameters (\<open>serde_parts\<close>).
\<close>

section \<open>Data\<close>

type_synonym call_id = string

datatype ImageMediaType = Png | Jpeg | Webp | Gif

record ImageAttachmentRef =
  attachment_id :: string
  media_type :: ImageMediaType
  image_bytes :: u64
  image_width :: u64
  image_height :: u64
  image_name :: "string option"

datatype ContentBlockKind =
    Text string
  | Reasoning string
  | Image ImageAttachmentRef
  | ToolCallBlock call_id string string
  | ToolResultBlock call_id "bool option"
  | OtherBlock "string option"

record ContentBlock =
  block_kind :: ContentBlockKind
  block_raw :: json

datatype MessageRole = System | User | Assistant

datatype ContextForm = Instructions | Catalog | Snapshot | Notice | Relay | Recall

record ContextSnapshotSection =
  section_name :: string
  section_text :: string

datatype MessageSourceKind =
    SourceUser
  | SourcePlugin string "ContextForm option" "ContextSnapshotSection list option" "string option"
  | SourceModel string string "json option"
  | SourceTool call_id
  | SourceOther string

record MessageSource =
  source_kind :: MessageSourceKind
  source_raw :: json

record Message =
  message_id :: string
  message_role :: MessageRole
  message_content :: "ContentBlock list"
  message_source :: MessageSource
  message_raw :: json
  message_surface_credit :: "usize option"

datatype ModelError =
    EmptyMessageId
  | EmptyProvider
  | EmptyModel
  | EmptyOptionalId string
  | InvalidAdapterDefault string
  | InvalidContextForm
  | InvalidToolResult
  | WrongMessageShape string
  | InvalidJsonNumber
  | InvalidShape string string
  | InvalidFailure string
  | TooManyContentBlocks usize usize
  | JsonError

record serde_parts =
  de_attachment :: "json \<Rightarrow> ImageAttachmentRef option"
  de_form :: "json \<Rightarrow> ContextForm option"
  de_sections :: "json \<Rightarrow> ContextSnapshotSection list option"
  admit_json :: "json \<Rightarrow> json option"

section \<open>Field access\<close>

definition object_fields :: "json \<Rightarrow> string \<Rightarrow> ModelError + (string \<times> json) list" where
  "object_fields v subject = ok_or (as_object v) (InvalidShape subject ''must be a JSON object'')"

definition required_string ::
    "(string \<times> json) list \<Rightarrow> string \<Rightarrow> string \<Rightarrow> ModelError + string" where
  "required_string fs k subject = ok_or (get_str fs k) (InvalidShape subject (k @ '' must be a string''))"

definition optional_string ::
    "(string \<times> json) list \<Rightarrow> string \<Rightarrow> string \<Rightarrow> ModelError + string option" where
  "optional_string fs k subject = (case map_of fs k of
      None \<Rightarrow> Ok None
    | Some (JStr s) \<Rightarrow> Ok (Some s)
    | Some _ \<Rightarrow> Err (InvalidShape subject (k @ '' must be a string when present'')))"

definition optional_typed ::
    "(json \<Rightarrow> 'a option) \<Rightarrow> (string \<times> json) list \<Rightarrow> string \<Rightarrow> string
      \<Rightarrow> ModelError + 'a option" where
  "optional_typed de fs k subject = (case map_of fs k of
      None \<Rightarrow> Ok None
    | Some v \<Rightarrow> (case de v of
          None \<Rightarrow> Err (InvalidShape subject (''invalid '' @ k))
        | Some x \<Rightarrow> Ok (Some x)))"

definition optional_json ::
    "(json \<Rightarrow> json option) \<Rightarrow> (string \<times> json) list \<Rightarrow> string \<Rightarrow> ModelError + json option" where
  "optional_json admit fs k = (case map_of fs k of
      None \<Rightarrow> Ok None
    | Some v \<Rightarrow> (case admit v of
          None \<Rightarrow> Err JsonError
        | Some x \<Rightarrow> Ok (Some x)))"

section \<open>Parsers\<close>

definition parse_tool_call :: "(string \<times> json) list \<Rightarrow> ContentBlockKind" where
  "parse_tool_call fs =
     (case (get_str fs ''id'', get_str fs ''name'', get_str fs ''arguments'') of
        (Some i, Some n, Some a) \<Rightarrow> ToolCallBlock i n a
      | _ \<Rightarrow> OtherBlock (Some ''tool-call''))"

definition parse_tool_result :: "(string \<times> json) list \<Rightarrow> ContentBlockKind" where
  "parse_tool_result fs =
     (case (get_str fs ''toolCallId'', get_array fs ''content'') of
        (Some i, Some _) \<Rightarrow> ToolResultBlock i (get_bool fs ''isError'')
      | _ \<Rightarrow> OtherBlock (Some ''tool-result''))"

definition parse_content_block :: "serde_parts \<Rightarrow> json \<Rightarrow> ContentBlockKind" where
  "parse_content_block sp v = (case as_object v of
      None \<Rightarrow> OtherBlock None
    | Some fs \<Rightarrow> (let t = get_str fs ''type'' in
        if t = Some ''text'' then
          (case get_str fs ''text'' of Some s \<Rightarrow> Text s | None \<Rightarrow> OtherBlock (Some ''text''))
        else if t = Some ''reasoning'' then
          (case get_str fs ''text'' of Some s \<Rightarrow> Reasoning s | None \<Rightarrow> OtherBlock (Some ''reasoning''))
        else if t = Some ''image'' then
          (case Option.bind (map_of fs ''attachment'') (de_attachment sp) of
             Some a \<Rightarrow> Image a | None \<Rightarrow> OtherBlock (Some ''image''))
        else if t = Some ''tool-call'' then parse_tool_call fs
        else if t = Some ''tool-result'' then parse_tool_result fs
        else OtherBlock t))"

fun context_form_valid ::
    "ContextForm option \<Rightarrow> ContextSnapshotSection list option \<Rightarrow> string option \<Rightarrow> bool" where
  "context_form_valid (Some Snapshot) sections summary = (sections \<noteq> None \<and> summary = None)"
| "context_form_valid (Some Notice) sections summary = (sections = None \<and> summary \<noteq> None)"
| "context_form_valid _ sections summary = (sections = None \<and> summary = None)"

definition parse_plugin_source ::
    "serde_parts \<Rightarrow> (string \<times> json) list \<Rightarrow> ModelError + MessageSourceKind" where
  "parse_plugin_source sp fs =
     and_then (required_string fs ''plugin'' ''message source'') (\<lambda>plugin.
     and_then (optional_typed (de_form sp) fs ''form'' ''message source'') (\<lambda>form.
     and_then (optional_typed (de_sections sp) fs ''sections'' ''message source'') (\<lambda>sections.
     and_then (optional_string fs ''summary'' ''message source'') (\<lambda>summary.
       if context_form_valid form sections summary
       then Ok (SourcePlugin plugin form sections summary)
       else Err InvalidContextForm))))"

definition parse_model_source ::
    "serde_parts \<Rightarrow> (string \<times> json) list \<Rightarrow> ModelError + MessageSourceKind" where
  "parse_model_source sp fs =
     and_then (required_string fs ''provider'' ''message source'') (\<lambda>provider.
     and_then (required_string fs ''model'' ''message source'') (\<lambda>model.
       if provider = [] then Err EmptyProvider
       else if model = [] then Err EmptyModel
       else and_then (optional_json (admit_json sp) fs ''replayState'') (\<lambda>replay.
         Ok (SourceModel provider model replay))))"

definition parse_tool_source :: "(string \<times> json) list \<Rightarrow> ModelError + MessageSourceKind" where
  "parse_tool_source fs =
     and_then (required_string fs ''callId'' ''message source'') (\<lambda>call_id.
       if call_id \<noteq> [] then Ok (SourceTool call_id) else Err InvalidToolResult)"

definition unwrap_or_other :: "string \<Rightarrow> ModelError + MessageSourceKind \<Rightarrow> MessageSourceKind" where
  "unwrap_or_other tag r = (case r of Inl _ \<Rightarrow> SourceOther tag | Inr k \<Rightarrow> k)"

definition parse_message_source :: "serde_parts \<Rightarrow> json \<Rightarrow> ModelError + MessageSourceKind" where
  "parse_message_source sp v =
     and_then (object_fields v ''message source'') (\<lambda>fs.
     and_then (required_string fs ''kind'' ''message source'') (\<lambda>tag.
       if tag = [] then Err (InvalidShape ''message source'' ''kind must not be empty'')
       else Ok (if tag = ''user'' then SourceUser
         else if tag = ''plugin'' then unwrap_or_other tag (parse_plugin_source sp fs)
         else if tag = ''model'' then unwrap_or_other tag (parse_model_source sp fs)
         else if tag = ''tool'' then unwrap_or_other tag (parse_tool_source fs)
         else SourceOther tag)))"

section \<open>Shapes demanded by session events\<close>

definition validate_tool_result :: "Message \<Rightarrow> ModelError + call_id" where
  "validate_tool_result m =
     (if message_role m \<noteq> User then Err InvalidToolResult
      else case source_kind (message_source m) of
        SourceTool call_id \<Rightarrow>
          (case message_content m of
             [block] \<Rightarrow>
               (case block_kind block of
                  ToolResultBlock tool_call_id _ \<Rightarrow>
                    if call_id = [] \<or> tool_call_id \<noteq> call_id then Err InvalidToolResult
                    else Ok call_id
                | _ \<Rightarrow> Err InvalidToolResult)
           | _ \<Rightarrow> Err InvalidToolResult)
      | _ \<Rightarrow> Err InvalidToolResult)"

definition tool_result_is_error :: "Message \<Rightarrow> bool" where
  "tool_result_is_error m = (case message_content m of
      [block] \<Rightarrow> (case block_kind block of ToolResultBlock _ (Some True) \<Rightarrow> True | _ \<Rightarrow> False)
    | _ \<Rightarrow> False)"

definition validate_user_event :: "Message \<Rightarrow> ModelError + unit" where
  "validate_user_event m =
     (if message_role m \<noteq> User then Err (WrongMessageShape ''user'') else Ok ())"

definition validate_assistant_event :: "Message \<Rightarrow> ModelError + unit" where
  "validate_assistant_event m = (case source_kind (message_source m) of
      SourceModel provider model _ \<Rightarrow>
        if message_role m \<noteq> Assistant then Err (WrongMessageShape ''assistant/model'')
        else if provider = [] then Err EmptyProvider
        else if model = [] then Err EmptyModel
        else Ok ()
    | _ \<Rightarrow> Err (WrongMessageShape ''assistant/model''))"

text \<open>The bytes charged for keeping this message on a surface: the size of its credit lease.\<close>

definition charged_surface_bytes :: "Message \<Rightarrow> usize option" where
  "charged_surface_bytes m = message_surface_credit m"

section \<open>Lemmas\<close>

lemma validate_tool_result_Inr:
  "validate_tool_result m = Inr c \<longleftrightarrow>
     message_role m = User \<and> c \<noteq> [] \<and> source_kind (message_source m) = SourceTool c
     \<and> (\<exists>b e. message_content m = [b] \<and> block_kind b = ToolResultBlock c e)"
  by (auto simp: validate_tool_result_def
      split: if_splits MessageSourceKind.splits list.splits ContentBlockKind.splits)

text \<open>A parsed \<open>tool\<close> source never carries an empty call id, and a parsed \<open>model\<close> source
  never an empty provider or model.\<close>

lemma parse_message_source_tool:
  "parse_message_source sp v = Inr (SourceTool c) \<Longrightarrow> c \<noteq> []"
  by (auto simp: parse_message_source_def parse_plugin_source_def parse_model_source_def
      parse_tool_source_def unwrap_or_other_def result_simps
      split: if_splits sum.splits)

lemma parse_message_source_model:
  "parse_message_source sp v = Inr (SourceModel p m r) \<Longrightarrow> p \<noteq> [] \<and> m \<noteq> []"
  by (auto simp: parse_message_source_def parse_plugin_source_def parse_model_source_def
      parse_tool_source_def unwrap_or_other_def result_simps
      split: if_splits sum.splits)

end
