(* ===== verification/Goal.thy ===== *)
theory Goal
  imports Message
begin

text \<open>
  The Goal of a session (\<open>src/goal.rs\<close>): the durable facts replayed from committed
  \<open>goal/change\<close> events (\<open>GoalReplayState\<close>), and the process-local runtime that prepares a
  change, hands it out under a token and installs it only after its event is committed
  (\<open>GoalRuntime\<close>, \<open>PreparedGoalMutation\<close>).

  The runtime's mutex is the explicit state argument: every operation of the code runs under the
  lock from start to end. The lock is taken to be unpoisoned. The clock, the generator of UUIDs
  and serde's string rendering are arguments.
\<close>

section \<open>Durable data\<close>

definition MAX_GOAL_OBJECTIVE_BYTES :: nat where
  "MAX_GOAL_OBJECTIVE_BYTES = 4 * 1024"

definition MAX_GOAL_ROUNDS :: u32 where
  "MAX_GOAL_ROUNDS = 32"

definition GOAL_CHANGE_VERSION :: "8 word" where
  "GOAL_CHANGE_VERSION = 1"

type_synonym UnixMillis = int

datatype GoalPhase = Active | Paused | Blocked | Complete

fun phase_as_str :: "GoalPhase \<Rightarrow> string" where
  "phase_as_str Active = ''active''"
| "phase_as_str Paused = ''paused''"
| "phase_as_str Blocked = ''blocked''"
| "phase_as_str Complete = ''complete''"

datatype GoalError =
    Missing
  | Unfinished
  | EmptyObjective
  | ObjectiveTooLarge
  | InvalidMaxRounds
  | InvalidEdit
  | InvalidBlockReason
  | StaleRevision
  | InvalidTransition
  | BlockThreshold
  | Busy
  | Unavailable
  | Commit string
  | InvalidEvent

record GoalBlockReason =
  reason_code :: string
  reason_message :: string

definition block_reason_repeated :: GoalBlockReason where
  "block_reason_repeated = \<lparr>reason_code = ''repeated-blocker'',
     reason_message = ''the same external blocker prevented progress for three rounds''\<rparr>"

definition block_reason_model_reported :: "string \<Rightarrow> GoalError + GoalBlockReason" where
  "block_reason_model_reported message =
     (let message = trim message in
      if message = [] \<or> length message > 4 * 1024 then Err InvalidBlockReason
      else Ok \<lparr>reason_code = ''model-reported'', reason_message = message\<rparr>)"

definition block_reason_validate :: "GoalBlockReason \<Rightarrow> GoalError + unit" where
  "block_reason_validate r =
     (let valid_code = (reason_code r \<noteq> [] \<and> length (reason_code r) \<le> 128
        \<and> list_all (\<lambda>c. is_ascii_lowercase c \<or> is_ascii_digit c \<or> c = CHR ''-'') (reason_code r))
      in if \<not> valid_code \<or> trim (reason_message r) = [] \<or> length (reason_message r) > 4 * 1024
         then Err InvalidEvent else Ok ())"

record GoalDurableSnapshot =
  goal_id :: string
  goal_revision :: u64
  goal_objective :: string
  goal_phase :: GoalPhase
  goal_blocked_reason :: "GoalBlockReason option"
  goal_max_rounds :: u32

definition validate_objective :: "string \<Rightarrow> GoalError + string" where
  "validate_objective objective =
     (let objective = trim objective in
      if objective = [] then Err EmptyObjective
      else if length objective > MAX_GOAL_OBJECTIVE_BYTES then Err ObjectiveTooLarge
      else Ok objective)"

definition validate_max_goal_rounds :: "u32 \<Rightarrow> GoalError + u32" where
  "validate_max_goal_rounds v = (if v = 0 then Err InvalidMaxRounds else Ok v)"

definition validate_goal_id :: "string \<Rightarrow> GoalError + unit" where
  "validate_goal_id i =
     (if i = [] \<or> length i > 256 \<or> has_control i then Err InvalidEvent else Ok ())"

definition snapshot_validate :: "GoalDurableSnapshot \<Rightarrow> GoalError + unit" where
  "snapshot_validate g =
     and_then (validate_goal_id (goal_id g)) (\<lambda>_.
     if goal_revision g = 0 \<or> goal_revision g > MAX_SAFE_INTEGER then Err InvalidEvent
     else and_then (validate_objective (goal_objective g)) (\<lambda>_.
     if goal_max_rounds g = 0 \<or> (ucast (goal_max_rounds g) :: u64) > MAX_SAFE_INTEGER
     then Err InvalidEvent
     else case (goal_phase g, goal_blocked_reason g) of
        (Blocked, Some reason) \<Rightarrow> block_reason_validate reason
      | (Blocked, None) \<Rightarrow> Err InvalidEvent
      | (_, Some _) \<Rightarrow> Err InvalidEvent
      | (_, None) \<Rightarrow> Ok ()))"

record GoalRef =
  ref_id :: string
  ref_revision :: u64

datatype GoalOperation =
  OpCreate | OpEdit | OpPause | OpResume | OpComplete | OpBlock | OpClear

record GoalChange =
  change_kind :: string
  change_version :: "8 word"
  change_operation :: GoalOperation
  change_goal :: "GoalDurableSnapshot option"
  change_rounds_started :: "u32 option"
  change_created_at :: "UnixMillis option"
  change_updated_at :: "UnixMillis option"
  change_cleared :: "GoalRef option"
  change_cleared_at :: "UnixMillis option"

definition change_mutation ::
    "GoalOperation \<Rightarrow> GoalDurableSnapshot \<Rightarrow> u32 \<Rightarrow> UnixMillis \<Rightarrow> UnixMillis \<Rightarrow> GoalChange" where
  "change_mutation operation g rounds created updated =
     \<lparr>change_kind = ''goal/change'', change_version = GOAL_CHANGE_VERSION,
      change_operation = operation, change_goal = Some g, change_rounds_started = Some rounds,
      change_created_at = Some created, change_updated_at = Some updated,
      change_cleared = None, change_cleared_at = None\<rparr>"

definition change_clear :: "GoalRef \<Rightarrow> UnixMillis \<Rightarrow> GoalChange" where
  "change_clear cleared cleared_at =
     \<lparr>change_kind = ''goal/change'', change_version = GOAL_CHANGE_VERSION,
      change_operation = OpClear, change_goal = None, change_rounds_started = None,
      change_created_at = None, change_updated_at = None,
      change_cleared = Some cleared, change_cleared_at = Some cleared_at\<rparr>"

definition change_validate_clear :: "GoalChange \<Rightarrow> GoalError + unit" where
  "change_validate_clear c =
     (if change_goal c \<noteq> None \<or> change_rounds_started c \<noteq> None \<or> change_created_at c \<noteq> None
         \<or> change_updated_at c \<noteq> None \<or> change_cleared_at c = None
      then Err InvalidEvent
      else and_then (ok_or (change_cleared c) InvalidEvent) (\<lambda>cleared.
           and_then (validate_goal_id (ref_id cleared)) (\<lambda>_.
           if ref_revision cleared = 0 \<or> ref_revision cleared > MAX_SAFE_INTEGER
           then Err InvalidEvent else Ok ())))"

definition change_validate_mutation :: "GoalChange \<Rightarrow> GoalError + unit" where
  "change_validate_mutation c =
     (if change_cleared c \<noteq> None \<or> change_cleared_at c \<noteq> None then Err InvalidEvent
      else and_then (ok_or (change_goal c) InvalidEvent) (\<lambda>g.
           and_then (snapshot_validate g) (\<lambda>_.
           and_then (ok_or (change_rounds_started c) InvalidEvent) (\<lambda>rounds.
           if rounds > goal_max_rounds g then Err InvalidEvent
           else and_then (ok_or (change_created_at c) InvalidEvent) (\<lambda>created.
                and_then (ok_or (change_updated_at c) InvalidEvent) (\<lambda>updated.
                if updated < created then Err InvalidEvent else Ok ()))))))"

definition change_validate :: "GoalChange \<Rightarrow> GoalError + unit" where
  "change_validate c =
     (if change_kind c \<noteq> ''goal/change'' \<or> change_version c \<noteq> GOAL_CHANGE_VERSION
      then Err InvalidEvent
      else if change_operation c = OpClear then change_validate_clear c
      else change_validate_mutation c)"

section \<open>Replay of committed events\<close>

record DurableGoalState =
  durable_goal :: GoalDurableSnapshot
  durable_rounds_started :: u32
  durable_created_at :: UnixMillis
  durable_updated_at :: UnixMillis

record GoalReplayState =
  replay_current :: "DurableGoalState option"
  replay_used_ids :: "string set"

definition replay_default :: GoalReplayState where
  "replay_default = \<lparr>replay_current = None, replay_used_ids = {}\<rparr>"

definition same_goal_definition :: "GoalDurableSnapshot \<Rightarrow> GoalDurableSnapshot \<Rightarrow> bool" where
  "same_goal_definition current next \<longleftrightarrow>
     goal_objective current = goal_objective next \<and> goal_max_rounds current = goal_max_rounds next"

definition durable_state :: "GoalChange \<Rightarrow> GoalError + DurableGoalState" where
  "durable_state c =
     and_then (ok_or (change_goal c) InvalidEvent) (\<lambda>g.
     and_then (ok_or (change_rounds_started c) InvalidEvent) (\<lambda>rounds.
     and_then (ok_or (change_created_at c) InvalidEvent) (\<lambda>created.
     and_then (ok_or (change_updated_at c) InvalidEvent) (\<lambda>updated.
       Ok \<lparr>durable_goal = g, durable_rounds_started = rounds,
           durable_created_at = created, durable_updated_at = updated\<rparr>))))"

definition apply_create :: "GoalReplayState \<Rightarrow> GoalChange \<Rightarrow> GoalError + GoalReplayState" where
  "apply_create s c =
     (if (case replay_current s of None \<Rightarrow> False
          | Some cur \<Rightarrow> goal_phase (durable_goal cur) \<noteq> Complete)
      then Err InvalidEvent
      else and_then (durable_state c) (\<lambda>next.
        if goal_revision (durable_goal next) \<noteq> 1
           \<or> goal_phase (durable_goal next) \<noteq> Active
           \<or> durable_rounds_started next \<noteq> 0
           \<or> goal_id (durable_goal next) \<in> replay_used_ids s
        then Err InvalidEvent
        else Ok (s\<lparr>replay_used_ids := insert (goal_id (durable_goal next)) (replay_used_ids s),
                   replay_current := Some next\<rparr>)))"

text \<open>The header checks of \<open>apply_update\<close>, and the table of valid transitions.\<close>

definition update_mismatch :: "GoalOperation \<Rightarrow> DurableGoalState \<Rightarrow> DurableGoalState \<Rightarrow> bool" where
  "update_mismatch operation current next \<longleftrightarrow>
     goal_id (durable_goal next) \<noteq> goal_id (durable_goal current)
     \<or> goal_revision (durable_goal next) \<noteq> saturating_add (goal_revision (durable_goal current)) 1
     \<or> (goal_objective (durable_goal next) \<noteq> goal_objective (durable_goal current)
        \<and> operation \<noteq> OpEdit)
     \<or> durable_rounds_started next \<noteq> durable_rounds_started current
     \<or> durable_created_at next \<noteq> durable_created_at current
     \<or> durable_updated_at next < durable_updated_at current"

fun valid_transition :: "GoalOperation \<Rightarrow> DurableGoalState \<Rightarrow> DurableGoalState \<Rightarrow> bool" where
  "valid_transition OpEdit cur nxt =
     (goal_phase (durable_goal nxt) = goal_phase (durable_goal cur)
      \<and> goal_blocked_reason (durable_goal nxt) = goal_blocked_reason (durable_goal cur))"
| "valid_transition OpPause cur nxt =
     (goal_phase (durable_goal cur) = Active \<and> goal_phase (durable_goal nxt) = Paused
      \<and> goal_blocked_reason (durable_goal nxt) = None
      \<and> same_goal_definition (durable_goal cur) (durable_goal nxt))"
| "valid_transition OpResume cur nxt =
     (goal_phase (durable_goal cur) \<in> {Active, Paused, Blocked}
      \<and> goal_phase (durable_goal nxt) = Active
      \<and> goal_blocked_reason (durable_goal nxt) = None
      \<and> durable_rounds_started nxt < goal_max_rounds (durable_goal nxt)
      \<and> same_goal_definition (durable_goal cur) (durable_goal nxt))"
| "valid_transition OpComplete cur nxt =
     (goal_phase (durable_goal cur) \<noteq> Complete \<and> goal_phase (durable_goal nxt) = Complete
      \<and> goal_blocked_reason (durable_goal nxt) = None
      \<and> same_goal_definition (durable_goal cur) (durable_goal nxt))"
| "valid_transition OpBlock cur nxt =
     (goal_phase (durable_goal cur) = Active \<and> goal_phase (durable_goal nxt) = Blocked
      \<and> goal_blocked_reason (durable_goal nxt) \<noteq> None
      \<and> same_goal_definition (durable_goal cur) (durable_goal nxt))"
| "valid_transition OpCreate cur nxt = False"
| "valid_transition OpClear cur nxt = False"

definition apply_update :: "GoalReplayState \<Rightarrow> GoalChange \<Rightarrow> GoalError + GoalReplayState" where
  "apply_update s c =
     and_then (ok_or (replay_current s) InvalidEvent) (\<lambda>current.
     and_then (durable_state c) (\<lambda>next.
       if update_mismatch (change_operation c) current next then Err InvalidEvent
       else if \<not> valid_transition (change_operation c) current next then Err InvalidEvent
       else Ok (s\<lparr>replay_current := Some next\<rparr>)))"

definition apply_clear :: "GoalReplayState \<Rightarrow> GoalChange \<Rightarrow> GoalError + GoalReplayState" where
  "apply_clear s c =
     and_then (ok_or (replay_current s) InvalidEvent) (\<lambda>current.
     and_then (ok_or (change_cleared c) InvalidEvent) (\<lambda>cleared.
       if ref_id cleared \<noteq> goal_id (durable_goal current)
          \<or> ref_revision cleared \<noteq> saturating_add (goal_revision (durable_goal current)) 1
          \<or> (case change_cleared_at c of None \<Rightarrow> False
             | Some time \<Rightarrow> time < durable_updated_at current)
       then Err InvalidEvent
       else Ok (s\<lparr>replay_current := None\<rparr>)))"

definition apply_change :: "GoalReplayState \<Rightarrow> GoalChange \<Rightarrow> GoalError + GoalReplayState" where
  "apply_change s c =
     and_then (change_validate c) (\<lambda>_.
       case change_operation c of
         OpCreate \<Rightarrow> apply_create s c
       | OpClear \<Rightarrow> apply_clear s c
       | _ \<Rightarrow> apply_update s c)"

text \<open>\<open>u32::try_from\<close> on a 64-bit value.\<close>

definition u32_try_from :: "u64 \<Rightarrow> u32 option" where
  "u32_try_from v = (if unat v < 2 ^ 32 then Some (ucast v) else None)"

definition goal_message_facts :: "json \<Rightarrow> GoalError + (string \<times> u64 \<times> u32)" where
  "goal_message_facts raw =
     and_then (ok_or (as_object raw) InvalidEvent) (\<lambda>source.
       if length source \<noteq> 4 \<or> get_str source ''kind'' \<noteq> Some ''goal'' then Err InvalidEvent
       else and_then (ok_or (get_str source ''goalId'') InvalidEvent) (\<lambda>gid.
            and_then (ok_or (get_u64 source ''revision'') InvalidEvent) (\<lambda>revision.
            and_then (ok_or (Option.bind (get_u64 source ''round'') u32_try_from) InvalidEvent)
              (\<lambda>round. Ok (gid, revision, round)))))"

definition apply_goal_message :: "GoalReplayState \<Rightarrow> Message \<Rightarrow> GoalError + GoalReplayState" where
  "apply_goal_message s m =
     (case source_kind (message_source m) of
        SourceOther kind \<Rightarrow>
          if kind \<noteq> ''goal'' then Ok s
          else and_then (goal_message_facts (source_raw (message_source m))) (\<lambda>(gid, revision, round).
               and_then (ok_or (replay_current s) InvalidEvent) (\<lambda>current.
                 if goal_phase (durable_goal current) \<noteq> Active
                    \<or> goal_id (durable_goal current) \<noteq> gid
                    \<or> goal_revision (durable_goal current) \<noteq> revision
                    \<or> round \<noteq> saturating_add (durable_rounds_started current) 1
                    \<or> round > goal_max_rounds (durable_goal current)
                 then Err InvalidEvent
                 else Ok (s\<lparr>replay_current := Some (current\<lparr>durable_rounds_started := round\<rparr>)\<rparr>)))
      | _ \<Rightarrow> Ok s)"

end
