(* ===== verification/Goal_Runtime.thy ===== *)
theory Goal_Runtime
  imports Goal
begin

text \<open>
  The process-local half of \<open>src/goal.rs\<close>: \<open>GoalRuntime\<close> holds the current Goal, whether it is
  armed for automatic rounds, and at most one prepared change; \<open>PreparedGoalMutation\<close> is the
  single-use change that is installed after its event commits or released when it is dropped.
\<close>

section \<open>State and prepared changes\<close>

record GoalState =
  state_current :: "DurableGoalState option"
  state_used_ids :: "string set"
  state_armed :: bool
  state_pending :: "u64 option"
  state_next_token :: u64

definition goal_state_default :: GoalState where
  "goal_state_default = \<lparr>state_current = None, state_used_ids = {}, state_armed = False,
     state_pending = None, state_next_token = 0\<rparr>"

definition from_replay :: "GoalReplayState \<Rightarrow> GoalState" where
  "from_replay r = \<lparr>state_current = replay_current r, state_used_ids = replay_used_ids r,
     state_armed = False, state_pending = None, state_next_token = 0\<rparr>"

record GoalSnapshot =
  snap_durable :: DurableGoalState
  snap_armed :: bool

definition snapshot :: "GoalState \<Rightarrow> GoalSnapshot option" where
  "snapshot st = map_option (\<lambda>d. \<lparr>snap_durable = d, snap_armed = state_armed st\<rparr>) (state_current st)"

definition require_snapshot :: "GoalState \<Rightarrow> GoalError + GoalSnapshot" where
  "require_snapshot st = ok_or (snapshot st) Missing"

definition is_armed :: "GoalState \<Rightarrow> bool" where
  "is_armed st \<longleftrightarrow> state_armed st \<and>
     (case state_current st of None \<Rightarrow> False | Some g \<Rightarrow> goal_phase (durable_goal g) = Active)"

text \<open>The separator \<open>" \<cdot> "\<close> of the notices.\<close>

definition dot :: string where
  "dot = '' '' @ utf8_bytes [194, 183] @ '' ''"

definition notice :: "GoalSnapshot \<Rightarrow> string" where
  "notice s = (let d = snap_durable s; g = durable_goal d in
     ''Goal'' @ dot @ phase_as_str (goal_phase g)
     @ dot @ (if snap_armed s then ''armed'' else ''disarmed'')
     @ dot @ ''round '' @ show_nat (unat (durable_rounds_started d)) @ ''/'' @ show_nat (unat (goal_max_rounds g))
     @ dot @ ''revision '' @ show_nat (unat (goal_revision g))
     @ dot @ goal_objective g)"

record PreparedGoalMutation =
  prep_token :: u64
  prep_change :: GoalChange
  prep_next :: "DurableGoalState option"
  prep_armed :: bool
  prep_settled :: bool

datatype GoalUpdate = UpEdit | UpPause | UpResume | UpComplete | UpBlocked

definition update_parse :: "string \<Rightarrow> GoalUpdate option" where
  "update_parse v =
     (if v = ''edit'' then Some UpEdit
      else if v = ''pause'' then Some UpPause
      else if v = ''resume'' then Some UpResume
      else if v = ''complete'' then Some UpComplete
      else if v = ''blocked'' then Some UpBlocked
      else None)"

section \<open>Preparing a change\<close>

definition ensure_not_pending :: "GoalState \<Rightarrow> GoalError + unit" where
  "ensure_not_pending st = (if state_pending st \<noteq> None then Err Busy else Ok ())"

definition prepare_locked ::
    "GoalState \<Rightarrow> DurableGoalState option \<Rightarrow> bool \<Rightarrow> GoalChange
      \<Rightarrow> GoalError + (PreparedGoalMutation \<times> GoalState)" where
  "prepare_locked st next armed change =
     and_then (change_validate change) (\<lambda>_.
     and_then (ok_or (checked_add (state_next_token st) 1) Unavailable) (\<lambda>token.
       Ok (\<lparr>prep_token = token, prep_change = change, prep_next = next,
            prep_armed = armed, prep_settled = False\<rparr>,
           st\<lparr>state_next_token := token, state_pending := Some token\<rparr>)))"

text \<open>
  \<open>uuid\<close> is the fresh UUID or a failure of the entropy source, \<open>now\<close> the clock reading or a
  failure of the clock.
\<close>

definition prepare_create_with_max ::
    "string option \<Rightarrow> UnixMillis option \<Rightarrow> string \<Rightarrow> u32 option \<Rightarrow> GoalState
      \<Rightarrow> GoalError + (PreparedGoalMutation \<times> GoalState)" where
  "prepare_create_with_max uuid now objective max_rounds st =
     and_then (validate_objective objective) (\<lambda>objective.
     and_then (validate_max_goal_rounds
                 (case max_rounds of None \<Rightarrow> MAX_GOAL_ROUNDS | Some m \<Rightarrow> m)) (\<lambda>max_rounds.
     and_then (ensure_not_pending st) (\<lambda>_.
       if (case state_current st of None \<Rightarrow> False
           | Some g \<Rightarrow> goal_phase (durable_goal g) \<noteq> Complete)
       then Err Unfinished
       else and_then (ok_or uuid Unavailable) (\<lambda>uuid.
         let gid = ''goal-'' @ uuid in
         if gid \<in> state_used_ids st then Err Unavailable
         else and_then (ok_or now Unavailable) (\<lambda>now.
           let next = \<lparr>durable_goal = \<lparr>goal_id = gid, goal_revision = 1, goal_objective = objective,
                         goal_phase = Active, goal_blocked_reason = None,
                         goal_max_rounds = max_rounds\<rparr>,
                       durable_rounds_started = 0, durable_created_at = now,
                       durable_updated_at = now\<rparr>
           in prepare_locked st (Some next) True
                (change_mutation OpCreate (durable_goal next) (durable_rounds_started next)
                   (durable_created_at next) (durable_updated_at next)))))))"

text \<open>\<open>objective.map(validate_objective).transpose()\<close>\<close>

definition transpose_map :: "('a \<Rightarrow> 'e + 'b) \<Rightarrow> 'a option \<Rightarrow> 'e + 'b option" where
  "transpose_map f x = (case x of None \<Rightarrow> Ok None | Some v \<Rightarrow> and_then (f v) (\<lambda>y. Ok (Some y)))"

fun update_arguments ::
    "GoalUpdate \<Rightarrow> string option \<Rightarrow> u32 option \<Rightarrow> GoalBlockReason option \<Rightarrow> GoalError + unit" where
  "update_arguments UpEdit objective max_rounds reason =
     (if objective = None \<and> max_rounds = None then Err InvalidEdit
      else if reason \<noteq> None then Err InvalidTransition
      else Ok ())"
| "update_arguments UpBlocked objective max_rounds reason =
     (if objective \<noteq> None \<or> max_rounds \<noteq> None then Err InvalidTransition else Ok ())"
| "update_arguments _ objective max_rounds reason =
     (if objective \<noteq> None \<or> max_rounds \<noteq> None \<or> reason \<noteq> None then Err InvalidTransition
      else Ok ())"

text \<open>The \<open>match operation\<close> of \<open>prepare_update_exact\<close>: the next goal, the durable operation and
  whether the Goal stays armed.\<close>

fun update_goal ::
    "GoalUpdate \<Rightarrow> bool \<Rightarrow> DurableGoalState \<Rightarrow> string option \<Rightarrow> u32 option \<Rightarrow> GoalBlockReason option
      \<Rightarrow> GoalError + (GoalDurableSnapshot \<times> GoalOperation \<times> bool)" where
  "update_goal UpEdit armed cur objective max_rounds reason =
     Ok ((durable_goal cur)
           \<lparr>goal_objective := (case objective of None \<Rightarrow> goal_objective (durable_goal cur) | Some s \<Rightarrow> s),
            goal_max_rounds := (case max_rounds of None \<Rightarrow> goal_max_rounds (durable_goal cur) | Some m \<Rightarrow> m)\<rparr>,
         OpEdit, armed)"
| "update_goal UpPause armed cur objective max_rounds reason =
     (if goal_phase (durable_goal cur) = Active
      then Ok ((durable_goal cur)\<lparr>goal_phase := Paused, goal_blocked_reason := None\<rparr>, OpPause, False)
      else Err InvalidTransition)"
| "update_goal UpResume armed cur objective max_rounds reason =
     (if goal_phase (durable_goal cur) \<in> {Active, Paused, Blocked}
         \<and> durable_rounds_started cur < goal_max_rounds (durable_goal cur)
      then Ok ((durable_goal cur)\<lparr>goal_phase := Active, goal_blocked_reason := None\<rparr>, OpResume, True)
      else Err InvalidTransition)"
| "update_goal UpComplete armed cur objective max_rounds reason =
     (if goal_phase (durable_goal cur) \<noteq> Complete
      then Ok ((durable_goal cur)\<lparr>goal_phase := Complete, goal_blocked_reason := None\<rparr>, OpComplete, False)
      else Err InvalidTransition)"
| "update_goal UpBlocked armed cur objective max_rounds reason =
     (if goal_phase (durable_goal cur) = Active
      then Ok ((durable_goal cur)\<lparr>goal_phase := Blocked,
                 goal_blocked_reason := Some (case reason of None \<Rightarrow> block_reason_repeated | Some r \<Rightarrow> r)\<rparr>,
               OpBlock, False)
      else Err InvalidTransition)"

definition prepare_update_exact ::
    "UnixMillis option \<Rightarrow> string option \<Rightarrow> u64 \<Rightarrow> GoalUpdate \<Rightarrow> string option \<Rightarrow> u32 option
      \<Rightarrow> GoalBlockReason option \<Rightarrow> GoalState \<Rightarrow> GoalError + (PreparedGoalMutation \<times> GoalState)" where
  "prepare_update_exact now expected_id expected_revision operation objective max_rounds reason st =
     and_then (transpose_map validate_objective objective) (\<lambda>objective.
     and_then (transpose_map validate_max_goal_rounds max_rounds) (\<lambda>max_rounds.
     and_then (update_arguments operation objective max_rounds reason) (\<lambda>_.
     and_then (ensure_not_pending st) (\<lambda>_.
     and_then (ok_or (state_current st) Missing) (\<lambda>current.
       if goal_revision (durable_goal current) \<noteq> expected_revision then Err StaleRevision
       else if (case expected_id of None \<Rightarrow> False | Some i \<Rightarrow> i \<noteq> goal_id (durable_goal current))
       then Err StaleRevision
       else and_then (update_goal operation (state_armed st) current objective max_rounds reason)
         (\<lambda>(g, goal_operation, armed).
       and_then (ok_or (safe_successor (goal_revision (durable_goal current))) Unavailable) (\<lambda>revision.
       and_then (ok_or now Unavailable) (\<lambda>now.
         let next = current\<lparr>durable_goal := g\<lparr>goal_revision := revision\<rparr>,
                            durable_updated_at := max now (durable_updated_at current)\<rparr>
         in prepare_locked st (Some next) armed
              (change_mutation goal_operation (durable_goal next) (durable_rounds_started next)
                 (durable_created_at next) (durable_updated_at next))))))))))"

definition prepare_update ::
    "UnixMillis option \<Rightarrow> u64 \<Rightarrow> GoalUpdate \<Rightarrow> string option \<Rightarrow> GoalState
      \<Rightarrow> GoalError + (PreparedGoalMutation \<times> GoalState)" where
  "prepare_update now expected_revision operation objective st =
     prepare_update_exact now None expected_revision operation objective None None st"

definition prepare_clear ::
    "UnixMillis option \<Rightarrow> GoalState \<Rightarrow> GoalError + (PreparedGoalMutation \<times> GoalState)" where
  "prepare_clear now st =
     and_then (ensure_not_pending st) (\<lambda>_.
     and_then (ok_or (state_current st) Missing) (\<lambda>current.
     and_then (ok_or (safe_successor (goal_revision (durable_goal current))) Unavailable) (\<lambda>revision.
     and_then (ok_or now Unavailable) (\<lambda>now.
       prepare_locked st None False
         (change_clear \<lparr>ref_id = goal_id (durable_goal current), ref_revision = revision\<rparr> now)))))"

section \<open>Installing or dropping a prepared change\<close>

definition install ::
    "PreparedGoalMutation \<Rightarrow> GoalState \<Rightarrow> (GoalError + unit) \<times> PreparedGoalMutation \<times> GoalState" where
  "install p st =
     (if state_pending st \<noteq> Some (prep_token p) then (Err Unavailable, p, st)
      else let st = st\<lparr>state_current := prep_next p\<rparr> in
        if change_operation (prep_change p) = OpCreate \<and> prep_next p = None
        then (Err Unavailable, p, st)
        else let st = (case prep_next p of
                 Some n \<Rightarrow> if change_operation (prep_change p) = OpCreate
                           then st\<lparr>state_used_ids := insert (goal_id (durable_goal n)) (state_used_ids st)\<rparr>
                           else st
               | None \<Rightarrow> st)
          in (Ok (), p\<lparr>prep_settled := True\<rparr>, st\<lparr>state_armed := prep_armed p, state_pending := None\<rparr>))"

definition drop_prepared :: "PreparedGoalMutation \<Rightarrow> GoalState \<Rightarrow> GoalState" where
  "drop_prepared p st =
     (if prep_settled p then st
      else if state_pending st = Some (prep_token p) then st\<lparr>state_pending := None\<rparr>
      else st)"

definition prepared_notice :: "PreparedGoalMutation \<Rightarrow> string" where
  "prepared_notice p = (case prep_next p of
      None \<Rightarrow> ''Goal'' @ dot @ ''cleared''
    | Some d \<Rightarrow> notice \<lparr>snap_durable = d, snap_armed = prep_armed p\<rparr>)"

text \<open>\<open>commit\<close> and \<open>commit_snapshot\<close> consume the prepared change, so its \<open>Drop\<close> runs after
  the installation, whether it succeeded or not.\<close>

definition commit :: "PreparedGoalMutation \<Rightarrow> GoalState \<Rightarrow> (GoalError + string) \<times> GoalState" where
  "commit p st = (let (r, p', st') = install p st in
     (and_then r (\<lambda>_. Ok (prepared_notice p)), drop_prepared p' st'))"

definition commit_snapshot ::
    "PreparedGoalMutation \<Rightarrow> GoalState \<Rightarrow> (GoalError + GoalSnapshot) \<times> GoalState" where
  "commit_snapshot p st = (case prep_next p of
      None \<Rightarrow> (Err Unavailable, drop_prepared p st)
    | Some d \<Rightarrow> (let (r, p', st') = install p st in
        (and_then r (\<lambda>_. Ok \<lparr>snap_durable = d, snap_armed = prep_armed p\<rparr>), drop_prepared p' st')))"

record GoalWrapup =
  wrapup_objective :: string
  wrapup_blocked_reason :: "string option"

definition wrapup :: "PreparedGoalMutation \<Rightarrow> GoalWrapup option" where
  "wrapup p = Option.bind (prep_next p) (\<lambda>next.
     case change_operation (prep_change p) of
       OpComplete \<Rightarrow> Some \<lparr>wrapup_objective = goal_objective (durable_goal next),
                           wrapup_blocked_reason = None\<rparr>
     | OpBlock \<Rightarrow> Some \<lparr>wrapup_objective = goal_objective (durable_goal next),
                        wrapup_blocked_reason =
                          map_option reason_message (goal_blocked_reason (durable_goal next))\<rparr>
     | _ \<Rightarrow> None)"

text \<open>\<open>bounded_goal_summary\<close>: at most 512 bytes, cut at a character boundary.\<close>

definition bounded_goal_summary :: "string \<Rightarrow> string" where
  "bounded_goal_summary v =
     (if length v \<le> 512 then v
      else take (floor_char_boundary v (512 - 3)) v @ ''...'')"

definition wrapup_summary :: "GoalWrapup \<Rightarrow> string" where
  "wrapup_summary w = bounded_goal_summary
     ((if wrapup_blocked_reason w \<noteq> None then ''blocked'' else ''complete'')
      @ '': '' @ wrapup_objective w)"

section \<open>Commands\<close>

datatype GoalCommand =
  CmdShow | CmdCreate string | CmdEdit string | CmdPause | CmdResume | CmdClear

text \<open>\<open>argument.find(char::is_whitespace)\<close> followed by \<open>split_at\<close>.\<close>

fun split_whitespace :: "string \<Rightarrow> (string \<times> string) option" where
  "split_whitespace [] = None"
| "split_whitespace (c # s) =
     (if starts_with_whitespace (c # s) then Some ([], c # s)
      else map_option (\<lambda>(h, t). (c # h, t)) (split_whitespace s))"

definition command_parse :: "string \<Rightarrow> (GoalError + GoalCommand) option" where
  "command_parse input = Option.bind (strip_prefix ''/goal'' (trim input)) (\<lambda>suffix.
     if suffix \<noteq> [] \<and> \<not> starts_with_whitespace suffix then None
     else let argument = trim suffix in
       Some (if argument = [] then Ok CmdShow
         else if eq_ignore_ascii_case argument ''pause'' then Ok CmdPause
         else if eq_ignore_ascii_case argument ''resume'' then Ok CmdResume
         else if eq_ignore_ascii_case argument ''clear'' then Ok CmdClear
         else if eq_ignore_ascii_case argument ''edit'' then Err EmptyObjective
         else case split_whitespace argument of
             Some (head, tail) \<Rightarrow>
               if eq_ignore_ascii_case head ''edit''
               then and_then (validate_objective tail) (\<lambda>s. Ok (CmdEdit s))
               else and_then (validate_objective argument) (\<lambda>s. Ok (CmdCreate s))
           | None \<Rightarrow> and_then (validate_objective argument) (\<lambda>s. Ok (CmdCreate s))))"

datatype GoalCommandPreparation = Show string | Mutation PreparedGoalMutation

definition lift_mutation ::
    "GoalError + (PreparedGoalMutation \<times> GoalState)
      \<Rightarrow> GoalError + (GoalCommandPreparation \<times> GoalState)" where
  "lift_mutation r = and_then r (\<lambda>(p, st). Ok (Mutation p, st))"

fun prepare_command ::
    "string option \<Rightarrow> UnixMillis option \<Rightarrow> GoalState \<Rightarrow> GoalCommand
      \<Rightarrow> GoalError + (GoalCommandPreparation \<times> GoalState)" where
  "prepare_command uuid now st CmdShow =
     Ok (Show (case snapshot st of None \<Rightarrow> ''Goal'' @ dot @ ''none'' | Some g \<Rightarrow> notice g), st)"
| "prepare_command uuid now st (CmdCreate objective) =
     lift_mutation (prepare_create_with_max uuid now objective None st)"
| "prepare_command uuid now st (CmdEdit objective) =
     and_then (require_snapshot st) (\<lambda>s. lift_mutation
       (prepare_update now (goal_revision (durable_goal (snap_durable s))) UpEdit (Some objective) st))"
| "prepare_command uuid now st CmdPause =
     and_then (require_snapshot st) (\<lambda>s. lift_mutation
       (prepare_update now (goal_revision (durable_goal (snap_durable s))) UpPause None st))"
| "prepare_command uuid now st CmdResume =
     and_then (require_snapshot st) (\<lambda>s. lift_mutation
       (prepare_update now (goal_revision (durable_goal (snap_durable s))) UpResume None st))"
| "prepare_command uuid now st CmdClear = lift_mutation (prepare_clear now st)"

definition apply_command ::
    "string option \<Rightarrow> UnixMillis option \<Rightarrow> GoalState \<Rightarrow> GoalCommand \<Rightarrow> (GoalError + string) \<times> GoalState" where
  "apply_command uuid now st c = (case prepare_command uuid now st c of
      Inl e \<Rightarrow> (Err e, st)
    | Inr (Show message, st') \<Rightarrow> (Ok message, st')
    | Inr (Mutation p, st') \<Rightarrow> commit p st')"

section \<open>Automatic rounds\<close>

record GoalRound =
  round_prompt :: string
  round_goal_id :: string
  round_revision :: u64
  round_number :: u32

definition newline :: string where
  "newline = utf8_bytes [10]"

definition goal_round_prompt ::
    "(string \<Rightarrow> string) \<Rightarrow> string \<Rightarrow> string \<Rightarrow> u64 \<Rightarrow> u32 \<Rightarrow> u32 \<Rightarrow> string" where
  "goal_round_prompt json_string objective gid revision number max_rounds =
     ''<goal_round>'' @ newline @ ''Objective: '' @ json_string objective @ newline
     @ ''Round: '' @ show_nat (unat number) @ ''/'' @ show_nat (unat max_rounds) @ newline
     @ ''Continue making concrete progress toward this objective. Verify the work that matters. Use get_goal for current state. Call update_goal with goal_id ''
     @ json_string gid @ '', revision '' @ show_nat (unat revision)
     @ '', and action complete only when the objective is actually achieved. If the same external blocker prevents progress for three consecutive rounds, call update_goal with action blocked and a concrete blocked_reason. Leave the Goal active when useful work remains.''
     @ newline @ ''</goal_round>''"

definition next_round ::
    "(string \<Rightarrow> string) \<Rightarrow> GoalState \<Rightarrow> GoalError + (GoalRound option \<times> GoalState)" where
  "next_round json_string st =
     and_then (ensure_not_pending st) (\<lambda>_.
       if \<not> state_armed st then Ok (None, st)
       else case state_current st of
         None \<Rightarrow> Ok (None, st)
       | Some d \<Rightarrow>
           if goal_phase (durable_goal d) \<noteq> Active
              \<or> durable_rounds_started d \<ge> goal_max_rounds (durable_goal d)
           then Ok (None, st\<lparr>state_armed := False\<rparr>)
           else let number = durable_rounds_started d + 1 in
             Ok (Some \<lparr>round_prompt = goal_round_prompt json_string (goal_objective (durable_goal d))
                         (goal_id (durable_goal d)) (goal_revision (durable_goal d)) number
                         (goal_max_rounds (durable_goal d)),
                       round_goal_id = goal_id (durable_goal d),
                       round_revision = goal_revision (durable_goal d),
                       round_number = number\<rparr>,
                 st\<lparr>state_current := Some (d\<lparr>durable_rounds_started := number\<rparr>)\<rparr>))"

definition rollback_uncommitted_round :: "u64 \<Rightarrow> u32 \<Rightarrow> GoalState \<Rightarrow> GoalState" where
  "rollback_uncommitted_round revision round st = (case state_current st of
      None \<Rightarrow> st
    | Some d \<Rightarrow>
        if goal_revision (durable_goal d) = revision \<and> durable_rounds_started d = round
        then st\<lparr>state_current := Some (d\<lparr>durable_rounds_started :=
                  saturating_sub (durable_rounds_started d) 1\<rparr>)\<rparr>
        else st)"

section \<open>Committing through the session\<close>

text \<open>
  \<open>commit_goal_mutation\<close> of the agent: append the change as an event, which the session accepts
  only if the replay does (and if storage takes it, \<open>stored\<close>), then install it. When the append
  fails the prepared change is dropped.
\<close>

datatype CommitError = AppendRefused GoalError | AppendFailed | NotInstallable

definition commit_goal_mutation ::
    "bool \<Rightarrow> PreparedGoalMutation \<Rightarrow> GoalState \<times> GoalReplayState
      \<Rightarrow> (CommitError + string) \<times> (GoalState \<times> GoalReplayState)" where
  "commit_goal_mutation stored p s = (case s of (l, d) \<Rightarrow>
     if \<not> stored then (Err AppendFailed, (drop_prepared p l, d))
     else case apply_change d (prep_change p) of
         Inl e \<Rightarrow> (Err (AppendRefused e), (drop_prepared p l, d))
       | Inr d' \<Rightarrow> (let (r, l') = commit p l in (map_err (\<lambda>_. NotInstallable) r, (l', d'))))"

text \<open>The provenance of the message that starts a round (\<open>prepare_turn\<close> in
  \<open>src/cli/identity.rs\<close>).\<close>

definition goal_round_source :: "GoalRound \<Rightarrow> json" where
  "goal_round_source r = JObj
     [(''kind'', JStr ''goal''), (''goalId'', JStr (round_goal_id r)),
      (''revision'', JInt (uint (round_revision r))), (''round'', JInt (uint (round_number r)))]"

end
