(* ===== verification/Journalled.thy ===== *)
theory Journalled
  imports Prelude
begin

text \<open>
  The contract between process-local state and the append-only journal. A component prepares a
  change on its live state, the session appends the change as an event (which the replay of the
  journal must accept, and which storage may refuse), and only then the component installs it; a
  prepared change whose append fails is discarded. The Goal and Plan Mode components follow this
  protocol (\<open>commit_goal_mutation\<close> and \<open>commit_plan_mode_mutation\<close> in \<open>src/agent/mod.rs\<close>).
\<close>

text \<open>Append the change, then install or discard it: the live state, the replayed state and
  whether the change took effect.\<close>

definition settle ::
    "('d \<Rightarrow> 'c \<Rightarrow> 'e + 'd) \<Rightarrow> ('p \<Rightarrow> 'c) \<Rightarrow> ('p \<Rightarrow> 'l \<Rightarrow> 'l) \<Rightarrow> ('p \<Rightarrow> 'l \<Rightarrow> 'l)
      \<Rightarrow> bool \<Rightarrow> 'p \<Rightarrow> 'l \<times> 'd \<Rightarrow> 'l \<times> 'd" where
  "settle accept change install discard stored p s = (case s of (l, d) \<Rightarrow>
     if \<not> stored then (discard p l, d)
     else case accept d (change p) of
         Inl _ \<Rightarrow> (discard p l, d)
       | Inr d' \<Rightarrow> (install p l, d'))"

locale journalled =
  fixes abs :: "'l \<Rightarrow> 'd"
    and accept :: "'d \<Rightarrow> 'c \<Rightarrow> 'e + 'd"
    and change :: "'p \<Rightarrow> 'c"
    and install :: "'p \<Rightarrow> 'l \<Rightarrow> 'l"
    and discard :: "'p \<Rightarrow> 'l \<Rightarrow> 'l"
    and prepared :: "'l \<Rightarrow> 'p \<Rightarrow> 'l \<Rightarrow> bool"
    and idle :: "'l \<Rightarrow> bool"
  assumes install_abs:
      "prepared l p l' \<Longrightarrow> accept (abs l) (change p) = Inr d \<Longrightarrow> abs (install p l') = d"
    and discard_abs: "prepared l p l' \<Longrightarrow> abs (discard p l') = abs l"
    and install_idle: "prepared l p l' \<Longrightarrow> idle (install p l')"
    and discard_idle: "prepared l p l' \<Longrightarrow> idle (discard p l')"
begin

lemma settle_synchronised:
  assumes "prepared l p l'" and "settle accept change install discard stored p (l', abs l) = (l2, d2)"
  shows "d2 = abs l2"
  using assms by (auto simp: settle_def install_abs discard_abs split: if_splits sum.splits)

lemma settle_idle:
  assumes "prepared l p l'" and "settle accept change install discard stored p (l', d) = (l2, d2)"
  shows "idle l2"
  using assms by (auto simp: settle_def install_idle discard_idle split: if_splits sum.splits)

text \<open>A whole run: each step prepares a change and settles it, or leaves the state alone.\<close>

inductive journal_run :: "'l \<times> 'd \<Rightarrow> 'l \<times> 'd \<Rightarrow> bool" where
  start: "journal_run s s"
| settled: "journal_run s (l, d) \<Longrightarrow> prepared l p l' \<Longrightarrow>
    journal_run s (settle accept change install discard stored p (l', d))"

lemma journal_run_synchronised:
  assumes "journal_run s s'"
  shows "snd s = abs (fst s) \<Longrightarrow> snd s' = abs (fst s')"
  using assms
proof (induction rule: journal_run.induct)
  case (start s)
  then show ?case by simp
next
  case (settled s l d p l' stored)
  then have "d = abs l" by simp
  with settled.hyps show ?case
    by (cases "settle accept change install discard stored p (l', d)")
      (auto dest: settle_synchronised)
qed

end

end
