(* ===== verification/Goal_Correct.thy ===== *)
theory Goal_Correct
  imports Goal_Runtime Journalled
begin

text \<open>
  Correctness of the Goal: the replay keeps its facts well formed, identities are never reused,
  the runtime and the replay of its journal never diverge, and automatic rounds are bounded.
\<close>

section \<open>The replayed facts stay well formed\<close>

definition durable_ok :: "DurableGoalState \<Rightarrow> bool" where
  "durable_ok d \<longleftrightarrow> snapshot_validate (durable_goal d) = Ok ()
     \<and> durable_rounds_started d \<le> goal_max_rounds (durable_goal d)
     \<and> durable_created_at d \<le> durable_updated_at d"

definition replay_ok :: "GoalReplayState \<Rightarrow> bool" where
  "replay_ok s \<longleftrightarrow> (case replay_current s of None \<Rightarrow> True
     | Some d \<Rightarrow> durable_ok d \<and> goal_id (durable_goal d) \<in> replay_used_ids s)"

lemma replay_ok_default: "replay_ok replay_default"
  by (simp add: replay_ok_def replay_default_def)

lemma durable_state_Inr:
  "durable_state c = Inr d \<longleftrightarrow>
     change_goal c = Some (durable_goal d) \<and> change_rounds_started c = Some (durable_rounds_started d)
     \<and> change_created_at c = Some (durable_created_at d)
     \<and> change_updated_at c = Some (durable_updated_at d)"
  by (cases d) (auto simp: durable_state_def result_simps)

lemma durable_state_ok:
  assumes "change_validate c = Inr u" and "change_operation c \<noteq> OpClear" and "durable_state c = Inr d"
  shows "durable_ok d"
  using assms
  by (auto simp: change_validate_def change_validate_mutation_def result_simps durable_state_Inr
      durable_ok_def split: if_splits)

lemma snapshot_validate_facts:
  assumes "snapshot_validate g = Inr u"
  shows "goal_id g \<noteq> []" and "0 < goal_revision g" and "goal_revision g \<le> MAX_SAFE_INTEGER"
    and "0 < goal_max_rounds g" and "\<exists>s. validate_objective (goal_objective g) = Inr s"
    and "goal_blocked_reason g \<noteq> None \<longleftrightarrow> goal_phase g = Blocked"
  using assms
  by (auto simp: snapshot_validate_def validate_goal_id_def result_simps word_neq_0_conv
      split: if_splits GoalPhase.splits option.splits)

lemma apply_create_Inr:
  "apply_create s c = Inr s' \<longleftrightarrow> (\<exists>d. durable_state c = Inr d
     \<and> (\<forall>cur. replay_current s = Some cur \<longrightarrow> goal_phase (durable_goal cur) = Complete)
     \<and> goal_revision (durable_goal d) = 1 \<and> goal_phase (durable_goal d) = Active
     \<and> durable_rounds_started d = 0 \<and> goal_id (durable_goal d) \<notin> replay_used_ids s
     \<and> s' = s\<lparr>replay_used_ids := insert (goal_id (durable_goal d)) (replay_used_ids s),
              replay_current := Some d\<rparr>)"
  by (auto simp: apply_create_def result_simps split: option.splits if_splits)

lemma apply_update_Inr:
  "apply_update s c = Inr s' \<longleftrightarrow> (\<exists>cur d. replay_current s = Some cur \<and> durable_state c = Inr d
     \<and> \<not> update_mismatch (change_operation c) cur d
     \<and> valid_transition (change_operation c) cur d
     \<and> s' = s\<lparr>replay_current := Some d\<rparr>)"
  by (auto simp: apply_update_def result_simps split: if_splits)

lemma apply_clear_Inr:
  "apply_clear s c = Inr s' \<longleftrightarrow> (\<exists>cur r. replay_current s = Some cur \<and> change_cleared c = Some r
     \<and> ref_id r = goal_id (durable_goal cur)
     \<and> ref_revision r = saturating_add (goal_revision (durable_goal cur)) 1
     \<and> (\<forall>t. change_cleared_at c = Some t \<longrightarrow> durable_updated_at cur \<le> t)
     \<and> s' = s\<lparr>replay_current := None\<rparr>)"
  unfolding apply_clear_def
  by (cases "replay_current s"; cases "change_cleared c"; cases "change_cleared_at c") auto

lemmas apply_Inr = apply_create_Inr apply_update_Inr apply_clear_Inr

lemma apply_change_Inr:
  "apply_change s c = Inr s' \<longleftrightarrow> change_validate c = Inr () \<and>
     (if change_operation c = OpCreate then apply_create s c = Inr s'
      else if change_operation c = OpClear then apply_clear s c = Inr s'
      else apply_update s c = Inr s')"
  by (cases "change_operation c") (auto simp: apply_change_def result_simps)

lemma apply_change_ok:
  assumes "replay_ok s" and "apply_change s c = Inr s'"
  shows "replay_ok s'"
proof (cases "change_operation c = OpClear")
  case True
  with assms(2) show ?thesis
    by (auto simp: apply_change_Inr apply_Inr replay_ok_def)
next
  case False
  with assms obtain d where d: "durable_state c = Inr d" "replay_current s' = Some d"
      "goal_id (durable_goal d) \<in> replay_used_ids s'"
    by (auto simp: apply_change_Inr apply_Inr replay_ok_def update_mismatch_def split: if_splits)
  with assms False show ?thesis
    by (auto simp: replay_ok_def apply_change_Inr intro: durable_state_ok)
qed

lemma apply_goal_message_Inr:
  "apply_goal_message s m = Inr s' \<Longrightarrow> s' = s \<or>
     (\<exists>cur round. replay_current s = Some cur \<and> goal_phase (durable_goal cur) = Active
        \<and> round = saturating_add (durable_rounds_started cur) 1
        \<and> round \<le> goal_max_rounds (durable_goal cur)
        \<and> s' = s\<lparr>replay_current := Some (cur\<lparr>durable_rounds_started := round\<rparr>)\<rparr>)"
  by (auto simp: apply_goal_message_def result_simps split: MessageSourceKind.splits if_splits)

lemma apply_goal_message_ok:
  assumes "replay_ok s" and "apply_goal_message s m = Inr s'"
  shows "replay_ok s'"
  using assms(1) apply_goal_message_Inr [OF assms(2)]
  by (auto simp: replay_ok_def durable_ok_def)

text \<open>One committed event, as \<open>apply_goal_transition\<close> of the session projection dispatches it.\<close>

datatype goal_event = GoalChanged GoalChange | UserMessage Message

fun goal_event_step :: "GoalReplayState \<Rightarrow> goal_event \<Rightarrow> GoalError + GoalReplayState" where
  "goal_event_step s (GoalChanged c) = apply_change s c"
| "goal_event_step s (UserMessage m) = apply_goal_message s m"

interpretation replay: keeps goal_event_step replay_ok
proof
  show "replay_ok s \<Longrightarrow> goal_event_step s e = Inr s' \<Longrightarrow> replay_ok s'" for s e s'
    by (cases e) (auto intro: apply_change_ok apply_goal_message_ok)
qed

section \<open>The runtime refines the replay of its journal\<close>

definition goal_abs :: "GoalState \<Rightarrow> GoalReplayState" where
  "goal_abs st = \<lparr>replay_current = state_current st, replay_used_ids = state_used_ids st\<rparr>"

lemma goal_abs_from_replay [simp]: "goal_abs (from_replay r) = r"
  by (simp add: goal_abs_def from_replay_def)

inductive goal_prepared :: "GoalState \<Rightarrow> PreparedGoalMutation \<Rightarrow> GoalState \<Rightarrow> bool" where
  create: "prepare_create_with_max uuid now objective max_rounds st = Inr (p, st') \<Longrightarrow>
    goal_prepared st p st'"
| update: "prepare_update_exact now expected_id revision operation objective max_rounds reason st
      = Inr (p, st') \<Longrightarrow> goal_prepared st p st'"
| clear: "prepare_clear now st = Inr (p, st') \<Longrightarrow> goal_prepared st p st'"

lemma prepare_locked_Inr:
  "prepare_locked st next armed c = Inr (p, st') \<longleftrightarrow>
     change_validate c = Inr () \<and> (\<exists>token. checked_add (state_next_token st) 1 = Some token
       \<and> p = \<lparr>prep_token = token, prep_change = c, prep_next = next, prep_armed = armed,
               prep_settled = False\<rparr>
       \<and> st' = st\<lparr>state_next_token := token, state_pending := Some token\<rparr>)"
  by (auto simp: prepare_locked_def result_simps)

lemma ensure_not_pending_Inr: "ensure_not_pending st = Inr u \<longleftrightarrow> state_pending st = None"
  by (simp add: ensure_not_pending_def)

lemma prepare_create_Inr:
  assumes "prepare_create_with_max uuid now objective max_rounds st = Inr (p, st')"
  shows "state_pending st = None \<and> (\<exists>d. prepare_locked st (Some d) True
        (change_mutation OpCreate (durable_goal d) (durable_rounds_started d)
           (durable_created_at d) (durable_updated_at d)) = Inr (p, st')
     \<and> (\<forall>cur. state_current st = Some cur \<longrightarrow> goal_phase (durable_goal cur) = Complete)
     \<and> goal_id (durable_goal d) \<notin> state_used_ids st \<and> goal_revision (durable_goal d) = 1
     \<and> goal_phase (durable_goal d) = Active \<and> durable_rounds_started d = 0)"
proof -
  from assms obtain u t ob m where
    "state_pending st = None" and
    "\<forall>cur. state_current st = Some cur \<longrightarrow> goal_phase (durable_goal cur) = Complete" and
    "''goal-'' @ u \<notin> state_used_ids st" and
    "prepare_locked st (Some \<lparr>durable_goal = \<lparr>goal_id = ''goal-'' @ u, goal_revision = 1,
        goal_objective = ob, goal_phase = Active, goal_blocked_reason = None, goal_max_rounds = m\<rparr>,
        durable_rounds_started = 0, durable_created_at = t, durable_updated_at = t\<rparr>) True
      (change_mutation OpCreate \<lparr>goal_id = ''goal-'' @ u, goal_revision = 1,
        goal_objective = ob, goal_phase = Active, goal_blocked_reason = None, goal_max_rounds = m\<rparr>
        0 t t) = Inr (p, st')"
    by (auto simp: prepare_create_with_max_def result_simps ensure_not_pending_Inr Let_def
        split: if_splits option.split_asm)
  then show ?thesis
    by (intro conjI exI [of _ "\<lparr>durable_goal = \<lparr>goal_id = ''goal-'' @ u, goal_revision = 1,
        goal_objective = ob, goal_phase = Active, goal_blocked_reason = None, goal_max_rounds = m\<rparr>,
        durable_rounds_started = 0, durable_created_at = t, durable_updated_at = t\<rparr>"]) simp_all
qed

lemma update_goal_Inr:
  assumes "update_goal operation armed cur objective max_rounds reason = Inr (g, goal_operation, armed')"
  shows "goal_operation \<noteq> OpCreate" and "goal_operation \<noteq> OpClear"
    and "goal_id g = goal_id (durable_goal cur)"
    and "goal_operation \<noteq> OpEdit \<Longrightarrow> goal_objective g = goal_objective (durable_goal cur)"
    and "valid_transition goal_operation cur
           (cur\<lparr>durable_goal := g\<lparr>goal_revision := r\<rparr>, durable_updated_at := t\<rparr>)"
  using assms
  by (cases operation; auto simp: same_goal_definition_def split: if_splits)+

lemma prepare_update_Inr:
  assumes "prepare_update_exact now expected_id revision operation objective max_rounds reason st
      = Inr (p, st')"
  shows "state_pending st = None \<and> (\<exists>cur d goal_operation armed. state_current st = Some cur
     \<and> goal_revision (durable_goal cur) = revision
     \<and> prepare_locked st (Some d) armed
        (change_mutation goal_operation (durable_goal d) (durable_rounds_started d)
           (durable_created_at d) (durable_updated_at d)) = Inr (p, st')
     \<and> goal_operation \<noteq> OpCreate \<and> goal_operation \<noteq> OpClear
     \<and> \<not> update_mismatch goal_operation cur d \<and> valid_transition goal_operation cur d)"
proof -
  from assms obtain cur o' m' g goal_operation armed rev t where
    cur: "state_pending st = None" "state_current st = Some cur"
      "goal_revision (durable_goal cur) = revision" and
    upd: "update_goal operation (state_armed st) cur o' m' reason = Inr (g, goal_operation, armed)" and
    rev: "safe_successor (goal_revision (durable_goal cur)) = Some rev" and
    lock: "prepare_locked st (Some (cur\<lparr>durable_goal := g\<lparr>goal_revision := rev\<rparr>,
        durable_updated_at := max t (durable_updated_at cur)\<rparr>)) armed
      (change_mutation goal_operation (g\<lparr>goal_revision := rev\<rparr>) (durable_rounds_started cur)
        (durable_created_at cur) (max t (durable_updated_at cur))) = Inr (p, st')"
    by (auto simp: prepare_update_exact_def result_simps ensure_not_pending_Inr Let_def
        split: option.splits if_splits)
  let ?d = "cur\<lparr>durable_goal := g\<lparr>goal_revision := rev\<rparr>,
    durable_updated_at := max t (durable_updated_at cur)\<rparr>"
  have "\<not> update_mismatch goal_operation cur ?d"
    using update_goal_Inr [OF upd] safe_successor_saturating [OF rev]
    by (auto simp: update_mismatch_def)
  then show ?thesis
    using cur lock update_goal_Inr [OF upd] by (intro conjI exI [of _ cur] exI [of _ ?d]) auto
qed

text \<open>What a prepared change is, whichever operation prepared it.\<close>

lemma goal_prepared_facts:
  assumes "goal_prepared st p st'"
  shows "state_pending st = None" and "state_pending st' = Some (prep_token p)"
    and "\<not> prep_settled p" and "state_current st' = state_current st"
    and "state_used_ids st' = state_used_ids st" and "state_armed st' = state_armed st"
    and "change_validate (prep_change p) = Inr ()"
  using assms
  by (auto elim!: goal_prepared.cases dest!: prepare_create_Inr prepare_update_Inr
      simp: prepare_locked_Inr prepare_clear_def result_simps ensure_not_pending_Inr)

lemma commit_pending:
  assumes "state_pending st = Some (prep_token p)"
    and "change_operation (prep_change p) = OpCreate \<longrightarrow> prep_next p \<noteq> None"
  shows "commit p st = (Ok (prepared_notice p), st\<lparr>state_current := prep_next p,
    state_used_ids := (case prep_next p of
        Some n \<Rightarrow> if change_operation (prep_change p) = OpCreate
                  then insert (goal_id (durable_goal n)) (state_used_ids st) else state_used_ids st
      | None \<Rightarrow> state_used_ids st),
    state_armed := prep_armed p, state_pending := None\<rparr>)"
  using assms by (auto simp: commit_def install_def drop_prepared_def Let_def split: option.splits)

lemma change_mutation_simps [simp]:
  "change_operation (change_mutation op g r c u) = op"
  "change_goal (change_mutation op g r c u) = Some g"
  "change_rounds_started (change_mutation op g r c u) = Some r"
  "change_created_at (change_mutation op g r c u) = Some c"
  "change_updated_at (change_mutation op g r c u) = Some u"
  by (simp_all add: change_mutation_def)

lemma change_clear_simps [simp]:
  "change_operation (change_clear r t) = OpClear"
  "change_cleared (change_clear r t) = Some r"
  "change_cleared_at (change_clear r t) = Some t"
  by (simp_all add: change_clear_def)

lemma create_accepted:
  assumes "prepare_create_with_max uuid now objective max_rounds st = Inr (p, st')"
  shows "apply_change (goal_abs st) (prep_change p) = Inr (goal_abs (snd (commit p st')))"
proof -
  from prepare_create_Inr [OF assms] obtain d where
    lock: "prepare_locked st (Some d) True (change_mutation OpCreate (durable_goal d)
      (durable_rounds_started d) (durable_created_at d) (durable_updated_at d)) = Inr (p, st')" and
    d: "\<forall>cur. state_current st = Some cur \<longrightarrow> goal_phase (durable_goal cur) = Complete"
      "goal_id (durable_goal d) \<notin> state_used_ids st" "goal_revision (durable_goal d) = 1"
      "goal_phase (durable_goal d) = Active" "durable_rounds_started d = 0" by blast
  have "commit p st' = (Ok (prepared_notice p), st'\<lparr>state_current := Some d,
      state_used_ids := insert (goal_id (durable_goal d)) (state_used_ids st),
      state_armed := True, state_pending := None\<rparr>)"
    using lock by (subst commit_pending) (auto simp: prepare_locked_Inr)
  with lock d show ?thesis
    by (auto simp: apply_change_Inr apply_Inr durable_state_Inr goal_abs_def prepare_locked_Inr)
qed

lemma update_accepted:
  assumes "prepare_update_exact now expected_id revision operation objective max_rounds reason st
      = Inr (p, st')"
  shows "apply_change (goal_abs st) (prep_change p) = Inr (goal_abs (snd (commit p st')))"
proof -
  from prepare_update_Inr [OF assms] obtain cur d goal_operation armed where
    cur: "state_current st = Some cur" and
    lock: "prepare_locked st (Some d) armed (change_mutation goal_operation (durable_goal d)
      (durable_rounds_started d) (durable_created_at d) (durable_updated_at d)) = Inr (p, st')" and
    d: "goal_operation \<noteq> OpCreate" "goal_operation \<noteq> OpClear"
      "\<not> update_mismatch goal_operation cur d" "valid_transition goal_operation cur d" by blast
  have "commit p st' = (Ok (prepared_notice p),
      st'\<lparr>state_current := Some d, state_armed := armed, state_pending := None\<rparr>)"
    using lock d by (subst commit_pending) (auto simp: prepare_locked_Inr)
  with lock d cur show ?thesis
    by (auto simp: apply_change_Inr apply_Inr durable_state_Inr goal_abs_def prepare_locked_Inr)
qed

lemma prepare_clear_Inr:
  assumes "prepare_clear now st = Inr (p, st')"
  obtains cur revision t where "state_current st = Some cur" and "now = Some t"
    and "safe_successor (goal_revision (durable_goal cur)) = Some revision"
    and "prepare_locked st None False
      (change_clear \<lparr>ref_id = goal_id (durable_goal cur), ref_revision = revision\<rparr> t) = Inr (p, st')"
  using assms by (auto simp: prepare_clear_def result_simps)

lemma clear_accepted:
  assumes "prepare_clear (Some t) st = Inr (p, st')" and "state_current st = Some cur"
  shows "apply_change (goal_abs st) (prep_change p) =
    (if durable_updated_at cur \<le> t then Inr (goal_abs (snd (commit p st'))) else Inl InvalidEvent)"
proof -
  from assms obtain revision where
    rev: "safe_successor (goal_revision (durable_goal cur)) = Some revision" and
    lock: "prepare_locked st None False
      (change_clear \<lparr>ref_id = goal_id (durable_goal cur), ref_revision = revision\<rparr> t) = Inr (p, st')"
    by (auto elim: prepare_clear_Inr)
  have "commit p st' = (Ok (prepared_notice p),
      st'\<lparr>state_current := None, state_armed := False, state_pending := None\<rparr>)"
    using lock by (subst commit_pending) (auto simp: prepare_locked_Inr)
  with lock assms(2) safe_successor_saturating [OF rev] show ?thesis
    by (auto simp: apply_change_def apply_clear_def goal_abs_def prepare_locked_Inr)
qed

lemma commit_prepared:
  assumes "goal_prepared st p st'"
  shows "fst (commit p st') = Ok (prepared_notice p)" and "state_pending (snd (commit p st')) = None"
    and "apply_change (goal_abs st) (prep_change p) = Inr d \<Longrightarrow> goal_abs (snd (commit p st')) = d"
proof -
  have create_next: "change_operation (prep_change p) = OpCreate \<longrightarrow> prep_next p \<noteq> None"
    using assms by (auto elim!: goal_prepared.cases prepare_clear_Inr
        dest!: prepare_create_Inr prepare_update_Inr simp: prepare_locked_Inr)
  note pending = commit_pending [OF goal_prepared_facts(2) [OF assms] create_next]
  show "fst (commit p st') = Ok (prepared_notice p)" and "state_pending (snd (commit p st')) = None"
    by (simp_all add: pending)
  show "goal_abs (snd (commit p st')) = d" if d: "apply_change (goal_abs st) (prep_change p) = Inr d"
    using assms
  proof cases
    case create
    then show ?thesis using d by (auto dest: create_accepted)
  next
    case update
    then show ?thesis using d by (auto dest: update_accepted)
  next
    case (clear now)
    then obtain cur t where "state_current st = Some cur" "now = Some t"
      by (auto elim: prepare_clear_Inr)
    with clear d show ?thesis by (auto dest!: clear_accepted split: if_splits)
  qed
qed

interpretation goal_journal: journalled goal_abs apply_change prep_change
    "\<lambda>p st. snd (commit p st)" drop_prepared goal_prepared "\<lambda>st. state_pending st = None"
proof
  fix st p st' d
  assume p: "goal_prepared st p st'"
  then show "apply_change (goal_abs st) (prep_change p) = Inr d \<Longrightarrow> goal_abs (snd (commit p st')) = d"
    by (rule commit_prepared)
  show "state_pending (snd (commit p st')) = None"
    using p by (rule commit_prepared)
  show "goal_abs (drop_prepared p st') = goal_abs st" and "state_pending (drop_prepared p st') = None"
    using goal_prepared_facts [OF p] by (simp_all add: drop_prepared_def goal_abs_def)
qed

lemma commit_goal_mutation_settle:
  "snd (commit_goal_mutation stored p s) =
     settle apply_change prep_change (\<lambda>p st. snd (commit p st)) drop_prepared stored p s"
  by (cases s) (auto simp: commit_goal_mutation_def settle_def split: sum.splits prod.splits)

section \<open>Sessions\<close>

text \<open>
  What the driver and the tools do with the Goal of a session: prepare a change and commit it
  (\<open>stored\<close> says whether the append reached the journal), or start an automatic round, whose
  prompt is appended as a message and whose count is rolled back when that append fails.
\<close>

datatype goal_action =
    ActCreate "string option" "UnixMillis option" string "u32 option" bool
  | ActUpdate "UnixMillis option" "string option" u64 GoalUpdate "string option" "u32 option"
      "GoalBlockReason option" bool
  | ActClear "UnixMillis option" bool
  | ActRound bool

definition commit_result ::
    "bool \<Rightarrow> GoalReplayState \<Rightarrow> GoalState \<Rightarrow> GoalError + (PreparedGoalMutation \<times> GoalState)
      \<Rightarrow> GoalState \<times> GoalReplayState" where
  "commit_result stored d l r = (case r of
      Inl _ \<Rightarrow> (l, d)
    | Inr (p, l') \<Rightarrow> snd (commit_goal_mutation stored p (l', d)))"

definition round_message :: "string \<Rightarrow> json \<Rightarrow> GoalRound \<Rightarrow> Message" where
  "round_message mid raw r = \<lparr>message_id = mid, message_role = User,
     message_content = [\<lparr>block_kind = Text (round_prompt r),
        block_raw = JObj [(''type'', JStr ''text''), (''text'', JStr (round_prompt r))]\<rparr>],
     message_source = \<lparr>source_kind = SourceOther ''goal'', source_raw = goal_round_source r\<rparr>,
     message_raw = raw, message_surface_credit = None\<rparr>"

fun goal_action_step ::
    "(string \<Rightarrow> string) \<Rightarrow> GoalState \<times> GoalReplayState \<Rightarrow> goal_action \<Rightarrow> GoalState \<times> GoalReplayState" where
  "goal_action_step js (l, d) (ActCreate uuid now objective max_rounds stored) =
     commit_result stored d l (prepare_create_with_max uuid now objective max_rounds l)"
| "goal_action_step js (l, d) (ActUpdate now gid revision operation objective max_rounds reason stored) =
     commit_result stored d l (prepare_update_exact now gid revision operation objective max_rounds reason l)"
| "goal_action_step js (l, d) (ActClear now stored) = commit_result stored d l (prepare_clear now l)"
| "goal_action_step js (l, d) (ActRound stored) = (case next_round js l of
      Inl _ \<Rightarrow> (l, d)
    | Inr (None, l') \<Rightarrow> (l', d)
    | Inr (Some r, l') \<Rightarrow>
        (case (if stored then apply_goal_message d (round_message [] JNull r) else Inl InvalidEvent) of
           Inl _ \<Rightarrow> (rollback_uncommitted_round (round_revision r) (round_number r) l', d)
         | Inr d' \<Rightarrow> (l', d')))"

definition goal_session_run ::
    "(string \<Rightarrow> string) \<Rightarrow> GoalReplayState \<Rightarrow> goal_action list \<Rightarrow> GoalState \<times> GoalReplayState" where
  "goal_session_run js d actions = fold (\<lambda>a s. goal_action_step js s a) actions (from_replay d, d)"

definition synchronised :: "GoalState \<times> GoalReplayState \<Rightarrow> bool" where
  "synchronised s \<longleftrightarrow> snd s = goal_abs (fst s) \<and> state_pending (fst s) = None"

text \<open>The round count never wraps: it is below a 32-bit maximum when it is incremented.\<close>

lemma round_increment:
  "a < (m :: u32) \<Longrightarrow> saturating_add a 1 = a + 1 \<and> a + 1 \<le> m \<and> saturating_sub (a + 1) 1 = a"
proof -
  assume "a < m"
  then have a: "unat a < unat m" by (simp add: word_less_nat_alt)
  have b: "unat m < 2 ^ 32" using unat_less_2p [of m] by simp
  with a have c: "checked_add a 1 = Some (a + 1)"
    by (simp add: checked_add_def)
  then have d: "unat (a + 1) = Suc (unat a)" by (auto dest: checked_add_Some)
  then have "saturating_sub (a + 1) 1 = a"
    by (auto simp: saturating_sub_def word_less_nat_alt)
  with saturating_add_Some [OF c] a d show ?thesis by (simp add: word_le_nat_alt)
qed

lemma next_round_Some:
  "next_round js l = Inr (Some r, l') \<longleftrightarrow> state_pending l = None \<and> state_armed l
     \<and> (\<exists>c. state_current l = Some c \<and> goal_phase (durable_goal c) = Active
          \<and> durable_rounds_started c < goal_max_rounds (durable_goal c)
          \<and> l' = l\<lparr>state_current := Some (c\<lparr>durable_rounds_started := durable_rounds_started c + 1\<rparr>)\<rparr>
          \<and> r = \<lparr>round_prompt = goal_round_prompt js (goal_objective (durable_goal c))
                   (goal_id (durable_goal c)) (goal_revision (durable_goal c))
                   (durable_rounds_started c + 1) (goal_max_rounds (durable_goal c)),
                 round_goal_id = goal_id (durable_goal c),
                 round_revision = goal_revision (durable_goal c),
                 round_number = durable_rounds_started c + 1\<rparr>)"
  by (auto simp: next_round_def result_simps ensure_not_pending_Inr Let_def not_le
      split: option.splits if_splits)

lemma goal_round_source_facts:
  "goal_message_facts (goal_round_source r) = Inr (round_goal_id r, round_revision r, round_number r)"
proof -
  have "uint (round_revision r) < 2 ^ 64" "uint (round_number r) < 2 ^ 64"
    using uint_lt2p [of "round_revision r"] uint_lt2p [of "round_number r"] by auto
  moreover have "unat (round_number r) < 2 ^ 32"
    using unat_less_2p [of "round_number r"] by simp
  ultimately show ?thesis
    by (auto simp: goal_message_facts_def goal_round_source_def get_str_def get_u64_def
        u32_try_from_def result_simps)
qed

lemma commit_result_synchronised:
  assumes "synchronised (l, d)" and "\<And>p l'. r = Inr (p, l') \<Longrightarrow> goal_prepared l p l'"
  shows "synchronised (commit_result stored d l r)"
proof (cases r)
  case (Inl e)
  with assms show ?thesis by (simp add: commit_result_def)
next
  case (Inr b)
  then obtain p l' where r: "r = Inr (p, l')" by (cases b) auto
  obtain l2 d2 where out: "settle apply_change prep_change (\<lambda>p st. snd (commit p st)) drop_prepared
      stored p (l', goal_abs l) = (l2, d2)" by (metis surj_pair)
  have d: "d = goal_abs l" using assms(1) by (simp add: synchronised_def)
  from assms(2) [OF r] out have "d2 = goal_abs l2" "state_pending l2 = None"
    by (rule goal_journal.settle_synchronised, rule goal_journal.settle_idle)
  with r d out show ?thesis
    by (simp add: commit_result_def commit_goal_mutation_settle synchronised_def)
qed

lemma round_rolled_back:
  assumes "next_round js l = Inr (Some r, l')"
  shows "rollback_uncommitted_round (round_revision r) (round_number r) l' = l"
  using assms round_increment
  by (cases l) (auto simp: next_round_Some rollback_uncommitted_round_def)

text \<open>The message of a round is accepted by the replay, and counts the same round.\<close>

lemma round_accepted:
  assumes "next_round js l = Inr (Some r, l')"
  shows "apply_goal_message (goal_abs l) (round_message mid raw r) = Inr (goal_abs l')"
proof -
  from assms obtain c where "state_current l = Some c" "goal_phase (durable_goal c) = Active"
    "round_goal_id r = goal_id (durable_goal c)" "round_revision r = goal_revision (durable_goal c)"
    "round_number r = durable_rounds_started c + 1"
    "durable_rounds_started c < goal_max_rounds (durable_goal c)"
    "l' = l\<lparr>state_current := Some (c\<lparr>durable_rounds_started := durable_rounds_started c + 1\<rparr>)\<rparr>"
    by (auto simp: next_round_Some)
  then show ?thesis
    using round_increment [of "durable_rounds_started c" "goal_max_rounds (durable_goal c)"]
    by (simp add: apply_goal_message_def round_message_def goal_round_source_facts goal_abs_def
        leD)
qed

lemma action_synchronised:
  assumes "synchronised s"
  shows "synchronised (goal_action_step js s a)"
proof -
  obtain l d where s: "s = (l, d)" by (cases s)
  with assms have sync: "synchronised (l, d)" by simp
  show ?thesis
  proof (cases a)
    case (ActRound stored)
    show ?thesis
    proof (cases "next_round js l")
      case (Inl e)
      with sync s ActRound show ?thesis by simp
    next
      case (Inr b)
      then obtain ro l' where n: "next_round js l = Inr (ro, l')" by (cases b) auto
      show ?thesis
      proof (cases ro)
        case None
        with n have "goal_abs l' = goal_abs l" "state_pending l' = state_pending l"
          by (auto simp: next_round_def result_simps goal_abs_def Let_def
              split: option.splits if_splits)
        with n None sync s ActRound show ?thesis by (simp add: synchronised_def)
      next
        case (Some r)
        with n have "state_pending l' = None" by (auto simp: next_round_Some)
        with n Some sync s ActRound round_accepted [of js l r l'] round_rolled_back [of js l r l']
        show ?thesis by (auto simp: synchronised_def split: sum.splits)
      qed
    qed
  qed (use s sync in \<open>auto intro!: commit_result_synchronised intro: goal_prepared.intros\<close>)
qed

text \<open>C13
  Live and durable Goal never diverge. Starting from any replayed state, after any sequence of
  Goal commands, tool updates, clears and automatic rounds, whether each append succeeded or
  failed, the replay of the journal holds exactly the runtime's current Goal and used identities,
  and no prepared change is left behind: a restart recovers the state the session had.\<close>

theorem goal_session_synchronised:
  "synchronised (goal_session_run js d actions)"
proof -
  have "synchronised s \<Longrightarrow> synchronised (fold (\<lambda>a s. goal_action_step js s a) actions s)" for s
    by (induction actions arbitrary: s) (simp_all del: split_paired_All add: action_synchronised)
  then show ?thesis
    by (simp add: goal_session_run_def synchronised_def from_replay_def goal_abs_def)
qed

text \<open>C14
  A change prepared by a create or by an update is never refused by the replay: applying the
  event to the durable state gives exactly the state the runtime installs, and the commit of the
  prepared change succeeds.\<close>

theorem prepared_update_accepted:
  assumes "prepare_update_exact now expected_id revision operation objective max_rounds reason st
      = Inr (p, st')"
  shows "apply_change (goal_abs st) (prep_change p) = Inr (goal_abs (snd (commit p st')))
    \<and> fst (commit p st') = Ok (prepared_notice p)"
  using update_accepted [OF assms] commit_prepared(1) [OF goal_prepared.update, OF assms] by simp

definition sample_goal :: GoalState where
  "sample_goal = \<lparr>state_current = Some \<lparr>durable_goal = \<lparr>goal_id = ''goal-1'', goal_revision = 4,
      goal_objective = ''ship'', goal_phase = Active, goal_blocked_reason = None, goal_max_rounds = 3\<rparr>,
      durable_rounds_started = 1, durable_created_at = 10, durable_updated_at = 20\<rparr>,
    state_used_ids = {''goal-1''}, state_armed = True, state_pending = None, state_next_token = 7\<rparr>"

lemma sample_pause:
  "prepare_update_exact (Some 15) None 4 UpPause None None None sample_goal =
     Inr (\<lparr>prep_token = 8,
       prep_change = change_mutation OpPause \<lparr>goal_id = ''goal-1'', goal_revision = 5,
         goal_objective = ''ship'', goal_phase = Paused, goal_blocked_reason = None,
         goal_max_rounds = 3\<rparr> 1 10 20,
       prep_next = Some \<lparr>durable_goal = \<lparr>goal_id = ''goal-1'', goal_revision = 5,
         goal_objective = ''ship'', goal_phase = Paused, goal_blocked_reason = None,
         goal_max_rounds = 3\<rparr>, durable_rounds_started = 1, durable_created_at = 10,
         durable_updated_at = 20\<rparr>,
       prep_armed = False, prep_settled = False\<rparr>,
      sample_goal\<lparr>state_next_token := 8, state_pending := Some 8\<rparr>)"
  by (simp add: prepare_update_exact_def transpose_map_def ensure_not_pending_def sample_goal_def
      safe_successor_def checked_add_def MAX_SAFE_INTEGER_def prepare_locked_def change_validate_def
      change_validate_mutation_def change_mutation_def GOAL_CHANGE_VERSION_def snapshot_validate_def
      validate_goal_id_def validate_objective_def MAX_GOAL_OBJECTIVE_BYTES_def trim_graphic
      is_ascii_graphic_def)

theorem prepared_update_accepted_witness:
  "\<exists>p st'. prepare_update_exact (Some 15) None 4 UpPause None None None sample_goal = Inr (p, st')
     \<and> apply_change (goal_abs sample_goal) (prep_change p) = Inr (goal_abs (snd (commit p st')))"
  using prepared_update_accepted [OF sample_pause] sample_pause by blast

section \<open>Histories\<close>

fun created_ids :: "goal_event list \<Rightarrow> string list" where
  "created_ids [] = []"
| "created_ids (GoalChanged c # es) =
     (case change_goal c of
        Some g \<Rightarrow> if change_operation c = OpCreate then goal_id g # created_ids es else created_ids es
      | None \<Rightarrow> created_ids es)"
| "created_ids (UserMessage m # es) = created_ids es"

lemma used_ids_step:
  assumes "goal_event_step s e = Inr s'"
  shows "replay_used_ids s' = replay_used_ids s \<union> set (created_ids [e])
    \<and> set (created_ids [e]) \<inter> replay_used_ids s = {}"
proof (cases e)
  case (GoalChanged c)
  with assms show ?thesis
    by (auto simp: apply_change_Inr apply_Inr durable_state_Inr split: if_splits option.splits)
next
  case (UserMessage m)
  with assms show ?thesis by (auto dest!: apply_goal_message_Inr)
qed

lemma created_ids_Cons: "created_ids (e # es) = created_ids [e] @ created_ids es"
  by (cases e) (auto split: option.splits)

lemma created_ids_single: "distinct (created_ids [e])"
  by (cases e) (auto split: option.splits)

text \<open>C15
  No two Goals of a session share an identity: in every history that replays, the identities of
  the create events are pairwise distinct, and the replay remembers exactly those, also after a
  Goal was completed or cleared.\<close>

theorem goal_ids_never_reused:
  assumes "run goal_event_step replay_default es = Inr s"
  shows "distinct (created_ids es) \<and> replay_used_ids s = set (created_ids es)"
proof -
  have "run goal_event_step s0 es = Inr s \<Longrightarrow>
      distinct (created_ids es) \<and> set (created_ids es) \<inter> replay_used_ids s0 = {}
      \<and> replay_used_ids s = replay_used_ids s0 \<union> set (created_ids es)" for s0
  proof (induction es arbitrary: s0)
    case Nil
    then show ?case by simp
  next
    case (Cons e es)
    then obtain s1 where s1: "goal_event_step s0 e = Inr s1" "run goal_event_step s1 es = Inr s"
      by (auto simp: and_then_Inr)
    with used_ids_step [OF s1(1)] Cons.IH [OF s1(2)] created_ids_single [of e] show ?case
      by (subst (1 2 3) created_ids_Cons) auto
  qed
  from this [OF assms] show ?thesis by (simp add: replay_default_def)
qed

definition sample_create :: GoalChange where
  "sample_create = change_mutation OpCreate \<lparr>goal_id = ''goal-1'', goal_revision = 1,
     goal_objective = ''ship'', goal_phase = Active, goal_blocked_reason = None, goal_max_rounds = 3\<rparr> 0 10 10"

definition sample_replay :: GoalReplayState where
  "sample_replay = \<lparr>replay_current = Some \<lparr>durable_goal = \<lparr>goal_id = ''goal-1'', goal_revision = 1,
      goal_objective = ''ship'', goal_phase = Active, goal_blocked_reason = None, goal_max_rounds = 3\<rparr>,
      durable_rounds_started = 0, durable_created_at = 10, durable_updated_at = 10\<rparr>,
    replay_used_ids = {''goal-1''}\<rparr>"

lemmas goal_validate_eval = change_validate_def change_validate_mutation_def change_mutation_def
  GOAL_CHANGE_VERSION_def snapshot_validate_def validate_goal_id_def validate_objective_def
  MAX_GOAL_OBJECTIVE_BYTES_def MAX_SAFE_INTEGER_def trim_graphic is_ascii_graphic_def

lemma sample_create_applies: "apply_change replay_default sample_create = Inr sample_replay"
  by (simp add: apply_change_def sample_create_def sample_replay_def apply_create_def
      durable_state_def replay_default_def goal_validate_eval)

theorem goal_ids_never_reused_witness:
  "run goal_event_step replay_default [GoalChanged sample_create] = Inr sample_replay
   \<and> replay_used_ids sample_replay = set (created_ids [GoalChanged sample_create])"
proof -
  have r: "run goal_event_step replay_default [GoalChanged sample_create] = Inr sample_replay"
    by (simp add: sample_create_applies)
  from goal_ids_never_reused [OF r] r show ?thesis by simp
qed

text \<open>C16
  The facts of the Goal stay well formed along every history: whenever events replay from the
  empty state, the current Goal has a valid snapshot (identity, revision, objective, round limit,
  a blocked reason exactly when blocked), has not started more rounds than its limit, was not
  updated before it was created, and its identity is recorded as used.\<close>

theorem goal_history_well_formed:
  assumes "run goal_event_step replay_default es = Inr s"
  shows "replay_ok s"
  using replay_ok_default assms by (rule replay.run_keeps)

theorem goal_history_well_formed_witness:
  "run goal_event_step replay_default [GoalChanged sample_create] = Inr sample_replay
   \<and> replay_ok sample_replay"
proof -
  have r: "run goal_event_step replay_default [GoalChanged sample_create] = Inr sample_replay"
    by (simp add: sample_create_applies)
  from goal_history_well_formed [OF r] r show ?thesis by simp
qed

text \<open>C17
  A completed Goal never runs again. A change that the replay accepts while the current Goal is
  complete is an edit that leaves it complete, a clear, or the creation of a Goal with an identity
  that was never used; and the runtime refuses every other update of it.\<close>

theorem complete_is_final:
  assumes "replay_current s = Some cur" and "goal_phase (durable_goal cur) = Complete"
    and "apply_change s c = Inr s'"
  shows "(change_operation c = OpClear \<and> replay_current s' = None)
    \<or> (change_operation c = OpEdit \<and> (\<exists>d. replay_current s' = Some d
         \<and> goal_phase (durable_goal d) = Complete \<and> goal_id (durable_goal d) = goal_id (durable_goal cur)))
    \<or> (change_operation c = OpCreate \<and> (\<exists>d. replay_current s' = Some d
         \<and> goal_id (durable_goal d) \<notin> replay_used_ids s))"
  using assms
  by (cases "change_operation c")
    (auto simp: apply_change_Inr apply_Inr update_mismatch_def split: if_splits)

theorem complete_is_final_witness:
  "\<exists>s'. apply_change (replay_default\<lparr>replay_current := Some \<lparr>durable_goal = \<lparr>goal_id = ''goal-0'',
       goal_revision = 2, goal_objective = ''done'', goal_phase = Complete, goal_blocked_reason = None,
       goal_max_rounds = 3\<rparr>, durable_rounds_started = 0, durable_created_at = 1, durable_updated_at = 2\<rparr>\<rparr>)
     sample_create = Inr s' \<and> replay_current s' \<noteq> None"
proof -
  let ?d = "\<lparr>durable_goal = \<lparr>goal_id = ''goal-0'',
       goal_revision = 2, goal_objective = ''done'', goal_phase = Complete, goal_blocked_reason = None,
       goal_max_rounds = 3\<rparr>, durable_rounds_started = 0, durable_created_at = 1, durable_updated_at = 2\<rparr>"
  let ?s = "replay_default\<lparr>replay_current := Some ?d\<rparr>"
  have r: "apply_change ?s sample_create = Inr sample_replay"
    by (simp add: apply_change_def sample_create_def sample_replay_def apply_create_def
        durable_state_def replay_default_def goal_validate_eval)
  have "replay_current sample_replay \<noteq> None"
    using complete_is_final [OF _ _ r, of ?d] by (auto simp: sample_create_def)
  with r show ?thesis by blast
qed

section \<open>Automatic rounds are bounded\<close>

text \<open>The driver's loop: take rounds until there is none.\<close>

fun drain_rounds :: "(string \<Rightarrow> string) \<Rightarrow> nat \<Rightarrow> GoalState \<Rightarrow> GoalRound list \<times> GoalState" where
  "drain_rounds js 0 st = ([], st)"
| "drain_rounds js (Suc n) st = (case next_round js st of
      Inr (Some r, st') \<Rightarrow> (let (rs, st'') = drain_rounds js n st' in (r # rs, st''))
    | Inr (None, st') \<Rightarrow> ([], st')
    | Inl _ \<Rightarrow> ([], st))"

lemma drain_rounds_armed:
  assumes "state_pending st = None" and "state_armed st" and "state_current st = Some d"
    and "goal_phase (durable_goal d) = Active"
    and "durable_rounds_started d \<le> goal_max_rounds (durable_goal d)"
    and "unat (goal_max_rounds (durable_goal d)) - unat (durable_rounds_started d) < n"
  shows "map (unat \<circ> round_number) (fst (drain_rounds js n st)) =
      [Suc (unat (durable_rounds_started d)) ..< Suc (unat (goal_max_rounds (durable_goal d)))]
    \<and> \<not> state_armed (snd (drain_rounds js n st)) \<and> state_pending (snd (drain_rounds js n st)) = None"
  using assms
proof (induction n arbitrary: st d)
  case 0
  then show ?case by simp
next
  case (Suc n)
  show ?case
  proof (cases "durable_rounds_started d < goal_max_rounds (durable_goal d)")
    case False
    with Suc.prems have "durable_rounds_started d = goal_max_rounds (durable_goal d)" by simp
    with Suc.prems show ?thesis
      by (simp add: next_round_def ensure_not_pending_def)
  next
    case True
    let ?d = "d\<lparr>durable_rounds_started := durable_rounds_started d + 1\<rparr>"
    let ?st = "st\<lparr>state_current := Some ?d\<rparr>"
    from True have inc: "durable_rounds_started d + 1 \<le> goal_max_rounds (durable_goal d)"
        "saturating_sub (durable_rounds_started d + 1) 1 = durable_rounds_started d"
      by (auto dest: round_increment)
    have less: "unat (durable_rounds_started d) < unat (goal_max_rounds (durable_goal d))"
      using True by (simp add: word_less_nat_alt)
    have suc: "unat (durable_rounds_started d + 1) = Suc (unat (durable_rounds_started d))"
      using less unat_less_2p [of "goal_max_rounds (durable_goal d)"]
      by (simp add: unat_word_ariths)
    have fuel: "unat (goal_max_rounds (durable_goal d)) - Suc (unat (durable_rounds_started d)) < n"
      using Suc.prems(6) less by arith
    obtain r where r: "next_round js st = Inr (Some r, ?st)"
        "round_number r = durable_rounds_started d + 1"
      using Suc.prems True less_imp_neq [OF True, symmetric]
      by (simp add: next_round_def ensure_not_pending_def Let_def)
    have "map (unat \<circ> round_number) (fst (drain_rounds js n ?st)) =
        [Suc (unat (durable_rounds_started ?d)) ..< Suc (unat (goal_max_rounds (durable_goal ?d)))]
      \<and> \<not> state_armed (snd (drain_rounds js n ?st)) \<and> state_pending (snd (drain_rounds js n ?st)) = None"
      by (rule Suc.IH) (use Suc.prems inc suc fuel in simp_all)
    moreover have "[Suc (unat (durable_rounds_started d)) ..< Suc (unat (goal_max_rounds (durable_goal d)))] =
        unat (durable_rounds_started d + 1) #
        [Suc (unat (durable_rounds_started d + 1)) ..< Suc (unat (goal_max_rounds (durable_goal d)))]"
      using less suc by (simp add: upt_conv_Cons del: upt_Suc)
    ultimately show ?thesis
      using r by (simp add: case_prod_beta Let_def comp_def del: upt_Suc)
  qed
qed

text \<open>C18
  Automatic rounds are bounded and always end. An armed, active Goal that has started \<open>r\<close> of at
  most \<open>m\<close> rounds hands out exactly the rounds \<open>r+1, ..., m\<close>, once each and in order, and then
  disarms itself; \<open>m - r + 1\<close> calls are enough to see it stop.\<close>

theorem rounds_exhausted:
  assumes "state_pending st = None" and "state_armed st" and "state_current st = Some d"
    and "goal_phase (durable_goal d) = Active"
    and "durable_rounds_started d \<le> goal_max_rounds (durable_goal d)"
    and "n > unat (goal_max_rounds (durable_goal d)) - unat (durable_rounds_started d)"
  shows "map (unat \<circ> round_number) (fst (drain_rounds js n st)) =
      [Suc (unat (durable_rounds_started d)) ..< Suc (unat (goal_max_rounds (durable_goal d)))]
    \<and> \<not> state_armed (snd (drain_rounds js n st))
    \<and> next_round js (snd (drain_rounds js n st)) = Ok (None, snd (drain_rounds js n st))"
  using drain_rounds_armed [OF assms(1-5), of n js] assms(6)
  by (simp add: next_round_def ensure_not_pending_def)

theorem rounds_exhausted_witness:
  "map (unat \<circ> round_number) (fst (drain_rounds (\<lambda>s. s) 3 sample_goal)) = [2, 3]"
proof -
  obtain d where d: "state_current sample_goal = Some d" "goal_phase (durable_goal d) = Active"
      "durable_rounds_started d = 1" "goal_max_rounds (durable_goal d) = 3"
    by (simp add: sample_goal_def)
  have "state_pending sample_goal = None" "state_armed sample_goal"
    by (simp_all add: sample_goal_def)
  from rounds_exhausted [OF this d(1,2), of 3 "\<lambda>s. s"] d(3,4) show ?thesis
    by (simp add: upt_rec)
qed

section \<open>One prepared change at a time\<close>

text \<open>At most one change is in flight. While a prepared change is outstanding every further create,
  update, clear or round is refused as busy (arguments that are invalid in themselves aside), and
  dropping it without committing releases the runtime unchanged.\<close>

theorem prepared_change_exclusive:
  assumes "goal_prepared st p st'"
  shows "(\<forall>q st''. \<not> goal_prepared st' q st'') \<and> next_round js st' = Err Busy
    \<and> prepare_clear now st' = Err Busy
    \<and> state_pending (drop_prepared p st') = None \<and> goal_abs (drop_prepared p st') = goal_abs st"
proof -
  have pending: "state_pending st' = Some (prep_token p)"
    using assms by (rule goal_prepared_facts)
  then have "\<not> goal_prepared st' q st''" for q st''
    using goal_prepared_facts(1) by fastforce
  then show ?thesis
    using pending goal_journal.discard_abs [OF assms] goal_journal.discard_idle [OF assms]
    by (simp add: next_round_def prepare_clear_def ensure_not_pending_def)
qed

theorem prepared_change_exclusive_witness:
  "\<exists>p st'. goal_prepared sample_goal p st' \<and> prepare_clear (Some 99) st' = Err Busy"
  using prepared_change_exclusive [OF goal_prepared.update, OF sample_pause]
    goal_prepared.update [OF sample_pause] by blast

section \<open>Clearing after the clock stepped back\<close>

text \<open>C19
  Clearing a Goal is the one operation whose acceptance depends on the clock: the runtime hands
  out the clear event unconditionally, but the replay accepts it exactly when the clock reading is
  not before the Goal's last update. (An update instead stamps the later of the two times.)\<close>

theorem clear_needs_monotonic_clock:
  assumes "prepare_clear (Some t) st = Inr (p, st')" and "state_current st = Some cur"
  shows "(fst (commit_goal_mutation True p (st', goal_abs st)) = Ok (prepared_notice p)
      \<longleftrightarrow> durable_updated_at cur \<le> t)
    \<and> (t < durable_updated_at cur \<longrightarrow>
        commit_goal_mutation True p (st', goal_abs st)
          = (Err (AppendRefused InvalidEvent), (drop_prepared p st', goal_abs st)))"
  using clear_accepted [OF assms] commit_prepared(1) [OF goal_prepared.clear, OF assms(1)]
  by (auto simp: commit_goal_mutation_def split: prod.splits)

lemma sample_clear:
  "prepare_clear (Some 15) sample_goal =
     Inr (\<lparr>prep_token = 8, prep_change = change_clear \<lparr>ref_id = ''goal-1'', ref_revision = 5\<rparr> 15,
           prep_next = None, prep_armed = False, prep_settled = False\<rparr>,
      sample_goal\<lparr>state_next_token := 8, state_pending := Some 8\<rparr>)"
  by (simp add: prepare_clear_def ensure_not_pending_def sample_goal_def safe_successor_def
      checked_add_def prepare_locked_def change_validate_clear_def change_clear_def goal_validate_eval)

theorem clear_needs_monotonic_clock_witness:
  "\<exists>p st'. prepare_clear (Some 15) sample_goal = Inr (p, st')
     \<and> fst (commit_goal_mutation True p (st', goal_abs sample_goal)) = Err (AppendRefused InvalidEvent)"
proof -
  obtain d where d: "state_current sample_goal = Some d" "15 < durable_updated_at d"
    by (simp add: sample_goal_def)
  show ?thesis
    by (rule exI, rule exI, rule conjI, rule sample_clear)
      (simp add: clear_needs_monotonic_clock [OF sample_clear d(1), THEN conjunct2, rule_format, OF d(2)])
qed

end
