(* ===== verification/Plan_Mode.thy ===== *)
theory Plan_Mode
  imports Journalled
begin

text \<open>
  Plan Mode (\<open>src/plan_mode.rs\<close>): the command, the process-local state with its pending
  next-step transition, and the prepared changes that are committed only if the state is still
  the one they were prepared on. The mutex is the explicit state argument, taken to be unpoisoned.
\<close>

section \<open>State and commands\<close>

definition MAX_PLAN_COMMAND_MESSAGE_BYTES :: nat where
  "MAX_PLAN_COMMAND_MESSAGE_BYTES = 1000"

record PlanModeChange =
  plan_change_active :: bool

datatype PlanModeCommand = Enter "string option" | Off

datatype PlanModeError = PlanUnavailable | MessageTooLarge | Inactive | Stale

definition plan_command_parse :: "string \<Rightarrow> (PlanModeError + PlanModeCommand) option" where
  "plan_command_parse input = Option.bind (strip_prefix ''/plan'' (trim input)) (\<lambda>suffix.
     if suffix \<noteq> [] \<and> \<not> starts_with_whitespace suffix then None
     else let argument = trim suffix in
       if argument = ''off'' then Some (Ok Off)
       else if length argument > MAX_PLAN_COMMAND_MESSAGE_BYTES then Some (Err MessageTooLarge)
       else Some (Ok (Enter (if argument \<noteq> [] then Some argument else None))))"

record PlanModeState =
  plan_active :: bool
  plan_pending :: "bool option"

definition plan_new :: "bool \<Rightarrow> PlanModeState" where
  "plan_new active = \<lparr>plan_active = active, plan_pending = None\<rparr>"

record PreparedPlanModeMutation =
  expected_active :: bool
  plan_target :: bool
  plan_boundary :: bool

definition prepared_plan_change :: "PreparedPlanModeMutation \<Rightarrow> PlanModeChange" where
  "prepared_plan_change p = \<lparr>plan_change_active = plan_target p\<rparr>"

section \<open>Operations\<close>

definition prepare_set :: "PlanModeState \<Rightarrow> bool \<Rightarrow> PlanModeError + PreparedPlanModeMutation option" where
  "prepare_set st active =
     (if plan_pending st \<noteq> None then Err Stale
      else if plan_active st = active then Ok None
      else Ok (Some \<lparr>expected_active = plan_active st, plan_target = active, plan_boundary = False\<rparr>))"

definition prepare_boundary :: "PlanModeState \<Rightarrow> PlanModeError + PreparedPlanModeMutation option" where
  "prepare_boundary st = (case plan_pending st of
      None \<Rightarrow> Ok None
    | Some target \<Rightarrow>
        if target = plan_active st then Err Stale
        else Ok (Some \<lparr>expected_active = plan_active st, plan_target = target, plan_boundary = True\<rparr>))"

text \<open>The prepared exit holds nothing but the runtime, so it is \<open>()\<close>.\<close>

definition prepare_approved_exit :: "PlanModeState \<Rightarrow> PlanModeError + unit" where
  "prepare_approved_exit st =
     (if \<not> plan_active st then Err Inactive
      else if plan_pending st \<noteq> None then Err Stale
      else Ok ())"

definition commit_plan_mutation ::
    "PreparedPlanModeMutation \<Rightarrow> PlanModeState \<Rightarrow> (PlanModeError + unit) \<times> PlanModeState" where
  "commit_plan_mutation p st =
     (let pending_matches = (if plan_boundary p then plan_pending st = Some (plan_target p)
                             else plan_pending st = None)
      in if plan_active st \<noteq> expected_active p \<or> \<not> pending_matches then (Err Stale, st)
         else let st = st\<lparr>plan_active := plan_target p\<rparr>
           in (Ok (), if plan_boundary p then st\<lparr>plan_pending := None\<rparr> else st))"

definition commit_plan_exit :: "PlanModeState \<Rightarrow> (PlanModeError + unit) \<times> PlanModeState" where
  "commit_plan_exit st =
     (if \<not> plan_active st \<or> plan_pending st \<noteq> None then (Err Stale, st)
      else (Ok (), st\<lparr>plan_pending := Some False\<rparr>))"

text \<open>The session's view (\<open>apply_transition\<close>): the last committed \<open>plan/mode\<close> event wins.\<close>

definition replay_plan_mode :: "bool \<Rightarrow> PlanModeChange \<Rightarrow> PlanModeError + bool" where
  "replay_plan_mode active change = Ok (plan_change_active change)"

section \<open>The invariant of the runtime\<close>

text \<open>A pending transition always leads out of Plan Mode.\<close>

definition plan_ok :: "PlanModeState \<Rightarrow> bool" where
  "plan_ok st \<longleftrightarrow> plan_pending st = None \<or> (plan_pending st = Some False \<and> plan_active st)"

text \<open>
  Every call of the runtime, also when a prepared change is committed on a later state than the
  one it was prepared on.
\<close>

inductive plan_step :: "PlanModeState \<Rightarrow> PlanModeState \<Rightarrow> bool" where
  set: "prepare_set st0 active = Ok (Some p) \<Longrightarrow> plan_step st (snd (commit_plan_mutation p st))"
| boundary: "prepare_boundary st0 = Ok (Some p) \<Longrightarrow> plan_step st (snd (commit_plan_mutation p st))"
| exit: "plan_step st (snd (commit_plan_exit st))"

inductive plan_reachable :: "PlanModeState \<Rightarrow> bool" where
  start: "plan_reachable (plan_new active)"
| step: "plan_reachable st \<Longrightarrow> plan_step st st' \<Longrightarrow> plan_reachable st'"

inductive_cases plan_step_cases: "plan_step st st'"

lemma commit_plan_mutation_ok:
  "plan_ok st \<Longrightarrow> plan_ok (snd (commit_plan_mutation p st))"
  by (auto simp: commit_plan_mutation_def plan_ok_def Let_def split: if_splits)

lemma commit_plan_exit_ok: "plan_ok st \<Longrightarrow> plan_ok (snd (commit_plan_exit st))"
  by (auto simp: commit_plan_exit_def plan_ok_def)

lemma plan_step_ok: "plan_step st st' \<Longrightarrow> plan_ok st \<Longrightarrow> plan_ok st'"
  by (erule plan_step_cases) (simp_all add: commit_plan_mutation_ok commit_plan_exit_ok)

lemma plan_reachable_ok: "plan_reachable st \<Longrightarrow> plan_ok st"
  by (induction rule: plan_reachable.induct) (simp add: plan_new_def plan_ok_def, rule plan_step_ok)

text \<open>C20
  However prepared changes interleave, a reachable Plan Mode runtime never has a transition
  pending that would enter Plan Mode or do nothing; so the step boundary never reports a stale
  transition, and it hands out a change exactly when an approved exit is pending.\<close>

theorem plan_boundary_never_stale:
  assumes "plan_reachable st"
  shows "prepare_boundary st = (if plan_pending st = None then Ok None
     else Ok (Some \<lparr>expected_active = True, plan_target = False, plan_boundary = True\<rparr>))"
  using plan_reachable_ok [OF assms] by (auto simp: plan_ok_def prepare_boundary_def)

lemma sample_plan_reachable: "plan_reachable \<lparr>plan_active = True, plan_pending = Some False\<rparr>"
  using plan_reachable.step [OF plan_reachable.start [of True] plan_step.exit]
  by (simp add: commit_plan_exit_def plan_new_def)

theorem plan_boundary_never_stale_witness:
  "prepare_boundary \<lparr>plan_active = True, plan_pending = Some False\<rparr> =
     Ok (Some \<lparr>expected_active = True, plan_target = False, plan_boundary = True\<rparr>)"
  using plan_boundary_never_stale [OF sample_plan_reachable] by simp

text \<open>C21
  An approved exit takes effect at the next step boundary and not before: committing it leaves
  Plan Mode active and blocks every other change, and the change that the next boundary hands out
  commits and leaves Plan Mode with nothing pending.\<close>

theorem approved_exit_at_boundary:
  assumes "prepare_approved_exit st = Ok ()"
  shows "\<exists>st' p. commit_plan_exit st = (Ok (), st') \<and> plan_active st'
     \<and> (\<forall>b. prepare_set st' b = Err Stale) \<and> prepare_approved_exit st' = Err Stale
     \<and> prepare_boundary st' = Ok (Some p)
     \<and> commit_plan_mutation p st' = (Ok (), plan_new False)"
proof -
  have st: "plan_active st" "plan_pending st = None"
    using assms by (auto simp: prepare_approved_exit_def split: if_splits)
  let ?p = "\<lparr>expected_active = True, plan_target = False, plan_boundary = True\<rparr>"
  show ?thesis
    using st by (intro exI [of _ "st\<lparr>plan_pending := Some False\<rparr>"] exI [of _ ?p])
      (auto simp: commit_plan_exit_def prepare_set_def prepare_approved_exit_def
        prepare_boundary_def commit_plan_mutation_def plan_new_def)
qed

theorem approved_exit_at_boundary_witness:
  "\<exists>st'. commit_plan_exit (plan_new True) = (Ok (), st') \<and> plan_active st'"
proof -
  have p: "prepare_approved_exit (plan_new True) = Ok ()"
    by (simp add: prepare_approved_exit_def plan_new_def)
  from approved_exit_at_boundary [OF p] show ?thesis by blast
qed

section \<open>Journalled commits\<close>

inductive plan_prepared ::
    "PlanModeState \<Rightarrow> PreparedPlanModeMutation \<Rightarrow> PlanModeState \<Rightarrow> bool" where
  set: "plan_ok st \<Longrightarrow> prepare_set st active = Ok (Some p) \<Longrightarrow> plan_prepared st p st"
| boundary: "plan_ok st \<Longrightarrow> prepare_boundary st = Ok (Some p) \<Longrightarrow> plan_prepared st p st"

inductive_cases plan_prepared_cases: "plan_prepared st p st'"

lemma plan_prepared_commit:
  "plan_prepared st p st' \<Longrightarrow>
     commit_plan_mutation p st' = (Ok (), \<lparr>plan_active = plan_target p, plan_pending = None\<rparr>)"
  by (cases st) (auto elim!: plan_prepared_cases simp: prepare_set_def prepare_boundary_def
      commit_plan_mutation_def split: if_splits option.splits)

interpretation plan_journal: journalled plan_active replay_plan_mode prepared_plan_change
    "\<lambda>p st. snd (commit_plan_mutation p st)" "\<lambda>p st. st" plan_prepared plan_ok
proof
  fix st p st' d
  assume p: "plan_prepared st p st'"
  note commit = plan_prepared_commit [OF p]
  show "replay_plan_mode (plan_active st) (prepared_plan_change p) = Inr d \<Longrightarrow>
      plan_active (snd (commit_plan_mutation p st')) = d"
    by (simp add: commit replay_plan_mode_def prepared_plan_change_def)
  show "plan_ok (snd (commit_plan_mutation p st'))"
    by (simp add: commit plan_ok_def)
  show "plan_active st' = plan_active st"
    using p by (auto elim: plan_prepared_cases)
  show "plan_ok st'"
    using p by (auto elim: plan_prepared_cases)
qed

text \<open>\<open>commit_plan_mode_mutation\<close> of the agent.\<close>

definition commit_plan_mode_mutation ::
    "bool \<Rightarrow> PreparedPlanModeMutation \<Rightarrow> PlanModeState \<times> bool \<Rightarrow> PlanModeState \<times> bool" where
  "commit_plan_mode_mutation stored p s =
     settle replay_plan_mode prepared_plan_change (\<lambda>p st. snd (commit_plan_mutation p st))
       (\<lambda>p st. st) stored p s"

text \<open>The Plan Mode that the journal replays is the Plan Mode of the running session: a prepared
  change that is committed through the session, whether its append succeeds or not, leaves the
  replayed flag equal to the runtime's flag, and when the append succeeds both are the target.\<close>

theorem plan_mode_journalled:
  assumes "plan_prepared st p st'"
  shows "(let (l, d) = commit_plan_mode_mutation stored p (st', plan_active st)
     in d = plan_active l \<and> (stored \<longrightarrow> plan_active l = plan_target p))"
proof -
  obtain l d where s: "settle replay_plan_mode prepared_plan_change
      (\<lambda>p st. snd (commit_plan_mutation p st)) (\<lambda>p st. st) stored p (st', plan_active st) = (l, d)"
    by (metis surj_pair)
  with plan_journal.settle_synchronised [OF assms s] plan_prepared_commit [OF assms] show ?thesis
    by (auto simp: commit_plan_mode_mutation_def settle_def replay_plan_mode_def split: if_splits)
qed

theorem plan_mode_journalled_witness:
  "commit_plan_mode_mutation True
     \<lparr>expected_active = False, plan_target = True, plan_boundary = False\<rparr> (plan_new False, False)
   = (plan_new True, True)"
proof -
  have p: "plan_prepared (plan_new False)
      \<lparr>expected_active = False, plan_target = True, plan_boundary = False\<rparr> (plan_new False)"
    by (rule plan_prepared.set [of _ True]) (simp_all add: prepare_set_def plan_new_def plan_ok_def)
  from plan_mode_journalled [OF p, of True] show ?thesis
    by (simp add: commit_plan_mode_mutation_def settle_def replay_plan_mode_def
        commit_plan_mutation_def prepared_plan_change_def plan_new_def)
qed

end
