(* ===== verification/Utf8.thy ===== *)
theory Utf8
  imports Prelude
begin

text \<open>
  UTF-8 as the Rust standard library decodes it: the well-formed sequences, and
  \<open>String::from_utf8_lossy\<close>, which replaces each maximal ill-formed subsequence by U+FFFD.
\<close>

text \<open>For a lead byte above ASCII: the length of its sequence and the range of the second byte.\<close>

definition utf8_lead :: "nat \<Rightarrow> (nat \<times> nat \<times> nat) option" where
  "utf8_lead n =
     (if 194 \<le> n \<and> n \<le> 223 then Some (2, 128, 191)
      else if n = 224 then Some (3, 160, 191)
      else if n = 237 then Some (3, 128, 159)
      else if 225 \<le> n \<and> n \<le> 239 then Some (3, 128, 191)
      else if n = 240 then Some (4, 144, 191)
      else if 241 \<le> n \<and> n \<le> 243 then Some (4, 128, 191)
      else if n = 244 then Some (4, 128, 143)
      else None)"

text \<open>The first character of a non-empty byte string: its length and whether it is well formed; an
  ill-formed one has the length of its maximal subsequence.\<close>

fun utf8_step :: "string \<Rightarrow> nat \<times> bool" where
  "utf8_step [] = (0, True)"
| "utf8_step (b # s) =
     (if (of_char b :: nat) < 128 then (1, True)
      else case utf8_lead (of_char b) of
        None \<Rightarrow> (1, False)
      | Some (w, lo, hi) \<Rightarrow> (case s of
          [] \<Rightarrow> (1, False)
        | c1 # s1 \<Rightarrow>
            if \<not> (lo \<le> of_char c1 \<and> of_char c1 \<le> hi) then (1, False)
            else if w = 2 then (2, True)
            else (case s1 of
                [] \<Rightarrow> (2, False)
              | c2 # s2 \<Rightarrow>
                  if \<not> is_continuation c2 then (2, False)
                  else if w = 3 then (3, True)
                  else (case s2 of
                      [] \<Rightarrow> (3, False)
                    | c3 # _ \<Rightarrow> if is_continuation c3 then (4, True) else (3, False)))))"

lemma utf8_step_pos: "s \<noteq> [] \<Longrightarrow> 0 < fst (utf8_step s)"
  by (cases s) (auto split: option.splits list.splits)

lemma utf8_step_le: "fst (utf8_step s) \<le> length s"
  by (cases s) (auto split: option.splits list.splits)

lemma utf8_step_decreases: "s \<noteq> [] \<Longrightarrow> length s - fst (utf8_step s) < length s"
  using utf8_step_pos [of s] by (simp add: diff_less)

definition replacement_character :: string where
  "replacement_character = utf8_bytes [239, 191, 189]"

function from_utf8_lossy :: "string \<Rightarrow> string" where
  "from_utf8_lossy s =
     (if s = [] then []
      else (if snd (utf8_step s) then take (fst (utf8_step s)) s else replacement_character)
           @ from_utf8_lossy (drop (fst (utf8_step s)) s))"
  by pat_completeness auto
termination
  by (relation "measure length") (simp_all add: utf8_step_decreases)

declare from_utf8_lossy.simps [simp del]

function utf8_valid :: "string \<Rightarrow> bool" where
  "utf8_valid s =
     (if s = [] then True
      else if snd (utf8_step s) then utf8_valid (drop (fst (utf8_step s)) s) else False)"
  by pat_completeness auto
termination
  by (relation "measure length") (simp_all add: utf8_step_decreases)

declare utf8_valid.simps [simp del]

lemma from_utf8_lossy_Nil [simp]: "from_utf8_lossy [] = []"
  by (subst from_utf8_lossy.simps) simp

lemma utf8_valid_Nil [simp]: "utf8_valid []"
  by (subst utf8_valid.simps) simp

lemma from_utf8_lossy_valid: "utf8_valid s \<Longrightarrow> from_utf8_lossy s = s"
proof (induction s rule: from_utf8_lossy.induct)
  case (1 s)
  show ?case
  proof (cases "s = []")
    case False
    with "1.prems" have "snd (utf8_step s)" "utf8_valid (drop (fst (utf8_step s)) s)"
      by (simp_all add: utf8_valid.simps [of s] split: if_splits)
    with 1 False show ?thesis by (simp add: from_utf8_lossy.simps [of s])
  qed simp
qed

text \<open>Lossy decoding at most triples the length.\<close>

lemma from_utf8_lossy_length: "length (from_utf8_lossy s) \<le> 3 * length s"
proof (induction s rule: from_utf8_lossy.induct)
  case (1 s)
  show ?case
  proof (cases "s = []")
    case False
    let ?n = "fst (utf8_step s)"
    have n: "0 < ?n" "?n \<le> length s"
      using False utf8_step_pos utf8_step_le by blast+
    have "length (from_utf8_lossy (drop ?n s)) \<le> 3 * (length s - ?n)"
      using 1 False by simp
    moreover have "length replacement_character = 3"
      by (simp add: replacement_character_def utf8_bytes_def)
    moreover have "?n \<le> 3 * ?n" and "3 \<le> 3 * ?n"
      using n(1) by simp_all
    moreover have "3 * (length s - ?n) + 3 * ?n = 3 * length s"
      using n(2) by simp
    ultimately show ?thesis
      using False n by (auto simp: from_utf8_lossy.simps [of s])
  qed simp
qed

text \<open>ASCII strings are well formed.\<close>

lemma utf8_valid_ascii: "list_all (\<lambda>c. (of_char c :: nat) < 128) s \<Longrightarrow> utf8_valid s"
proof (induction s)
  case (Cons c s)
  then show ?case by (simp add: utf8_valid.simps [of "c # s"])
qed simp

text \<open>A well-formed first character does not depend on what follows it.\<close>

lemma utf8_step_append:
  "snd (utf8_step s) \<Longrightarrow> s \<noteq> [] \<Longrightarrow> utf8_step (s @ r) = utf8_step s"
proof (induction s rule: utf8_step.induct)
  case (2 b s)
  show ?case
  proof (cases "utf8_lead (of_char b)")
    case None
    with 2 show ?thesis by (auto split: if_splits)
  next
    case (Some a)
    obtain w lo hi where a: "a = (w, lo, hi)" by (cases a)
    show ?thesis
    proof (cases s)
      case Nil
      with 2 Some a show ?thesis by (simp split: if_splits)
    next
      case s1: (Cons c1 t1)
      show ?thesis
      proof (cases t1)
        case Nil
        with 2 Some a s1 show ?thesis by (simp split: if_splits)
      next
        case (Cons c2 t2)
        with 2 Some a s1 show ?thesis by (cases t2) (simp_all split: if_splits)
      qed
    qed
  qed
qed simp

lemma utf8_lead_width: "utf8_lead n = Some (w, lo, hi) \<Longrightarrow> w \<in> {2, 3, 4} \<and> 128 \<le> lo \<and> hi < 192"
  by (auto simp: utf8_lead_def split: if_splits)

text \<open>A well-formed first character: a lead byte, then its continuation bytes.\<close>

lemma utf8_step_shape:
  assumes "utf8_step (b # s) = (n, True)"
  shows "n \<le> length (b # s) \<and> 0 < n \<and> list_all is_continuation (take (n - 1) s)
    \<and> utf8_step (b # take (n - 1) s) = (n, True)"
proof (cases "(of_char b :: nat) < 128")
  case True
  with assms show ?thesis by auto
next
  case False
  with assms obtain w lo hi where l: "utf8_lead (of_char b) = Some (w, lo, hi)"
    by (auto split: option.splits)
  note w = utf8_lead_width [OF l]
  from False assms l obtain c1 t1 where s: "s = c1 # t1" by (cases s) auto
  from False assms l s have c1: "lo \<le> of_char c1" "of_char c1 \<le> hi" by (auto split: if_splits)
  with w have cont1: "is_continuation c1" by (simp add: is_continuation_def)
  show ?thesis
  proof (cases "w = 2")
    case True
    with False assms l s c1 cont1 show ?thesis by simp
  next
    case w2: False
    with False assms l s c1 obtain c2 t2 where t1: "t1 = c2 # t2" by (cases t1) auto
    with False assms l s c1 w2 have c2: "is_continuation c2" by (auto split: if_splits)
    show ?thesis
    proof (cases "w = 3")
      case True
      with False assms l s c1 t1 c2 have "n = 3" by simp
      with True False assms l s c1 cont1 t1 c2 show ?thesis by simp
    next
      case w3: False
      with False assms l s c1 w2 t1 c2 obtain c3 t3 where t2: "t2 = c3 # t3" by (cases t2) auto
      with False assms l s c1 w2 w3 t1 c2 have "n = 4" "is_continuation c3"
        by (simp_all split: if_splits)
      with False assms l s c1 cont1 w2 w3 t1 t2 c2 show ?thesis by simp
    qed
  qed
qed

end
