(* ===== verification/Sse.thy ===== *)
theory Sse
  imports Utf8
begin

text \<open>
  The incremental Server-Sent Events decoder (\<open>src/provider/deepseek/sse.rs\<close>), byte by byte as
  the code reads, with its three size limits. An outcome is the decoder after the call, the items
  it produced and the error that stopped it, if any: the code returns the items of a failing call
  inside the failure. The last section gives the reading of a whole response and shows the decoder equal
  to it.
\<close>

section \<open>The decoder\<close>

definition MAX_DEEPSEEK_RESPONSE_BYTES :: nat where
  "MAX_DEEPSEEK_RESPONSE_BYTES = 8 * 1024 * 1024"

definition MAX_SSE_LINE_BYTES :: nat where
  "MAX_SSE_LINE_BYTES = 1024 * 1024"

definition MAX_SSE_EVENT_BYTES :: nat where
  "MAX_SSE_EVENT_BYTES = 1024 * 1024"

definition UTF8_BOM :: string where
  "UTF8_BOM = utf8_bytes [239, 187, 191]"

definition DONE :: string where
  "DONE = ''[DONE]''"

definition CR :: char where
  "CR = CHR 0x0D"

definition LF :: char where
  "LF = CHR 0x0A"

datatype SseItem = Data string | Comment

datatype SseError = ResponseSize nat | LineLength nat | EventData nat

record SseDecoder =
  bom_prefix :: string
  bom_decided :: bool
  sse_line :: string
  sse_data :: string
  has_data :: bool
  skip_lf_after_cr :: bool
  total_bytes :: usize
  sse_done :: bool

definition sse_default :: SseDecoder where
  "sse_default = \<lparr>bom_prefix = [], bom_decided = False, sse_line = [], sse_data = [],
     has_data = False, skip_lf_after_cr = False, total_bytes = 0, sse_done = False\<rparr>"

type_synonym sse_outcome = "SseDecoder \<times> SseItem list \<times> SseError option"

text \<open>The field name before the first colon and the raw value after it.\<close>

fun split_colon :: "string \<Rightarrow> string \<times> string" where
  "split_colon [] = ([], [])"
| "split_colon (c # s) = (if c = CHR '':'' then ([], s) else (case split_colon s of (f, v) \<Rightarrow> (c # f, v)))"

definition strip_space :: "string \<Rightarrow> string" where
  "strip_space s = (case strip_prefix '' '' s of None \<Rightarrow> s | Some r \<Rightarrow> r)"

text \<open>A data field joins the event's data. An overflow of the length and an oversized event are
  the same error.\<close>

definition process_data :: "SseDecoder \<Rightarrow> SseItem list \<Rightarrow> string \<Rightarrow> sse_outcome" where
  "process_data dec out raw_value =
     (let v = from_utf8_lossy (strip_space raw_value);
          separator = (if has_data dec then 1 else 0);
          next_len = length (sse_data dec) + separator + length v
      in if next_len > MAX_SSE_EVENT_BYTES then (dec, out, Some (EventData MAX_SSE_EVENT_BYTES))
         else (dec\<lparr>sse_data := sse_data dec @ (if has_data dec then [LF] else []) @ v,
                   has_data := True\<rparr>, out, None))"

definition process_line :: "SseDecoder \<Rightarrow> SseItem list \<Rightarrow> sse_outcome" where
  "process_line dec out =
     (let line = sse_line dec; dec = dec\<lparr>sse_line := []\<rparr>
      in if line = [] then
           (if has_data dec
            then (dec\<lparr>sse_data := [], has_data := False, sse_done := (sse_data dec = DONE)\<rparr>,
                  out @ [Data (sse_data dec)], None)
            else (dec, out, None))
         else if hd line = CHR '':'' then (dec, out @ [Comment], None)
         else (case split_colon line of (field, raw_value) \<Rightarrow>
           if field \<noteq> ''data'' then (dec, out, None)
           else process_data dec out raw_value))"

definition push_body_byte :: "SseDecoder \<Rightarrow> SseItem list \<Rightarrow> char \<Rightarrow> sse_outcome" where
  "push_body_byte dec out byte =
     (let skipping = skip_lf_after_cr dec; dec = dec\<lparr>skip_lf_after_cr := False\<rparr>
      in if skipping \<and> byte = LF then (dec, out, None)
         else if byte = CR then
           (case process_line dec out of
              (dec, out, None) \<Rightarrow> (dec\<lparr>skip_lf_after_cr := True\<rparr>, out, None)
            | failed \<Rightarrow> failed)
         else if byte = LF then process_line dec out
         else let dec = dec\<lparr>sse_line := sse_line dec @ [byte]\<rparr>
           in if length (sse_line dec) > MAX_SSE_LINE_BYTES
              then (dec, out, Some (LineLength MAX_SSE_LINE_BYTES))
              else (dec, out, None))"

fun push_body_bytes :: "SseDecoder \<Rightarrow> SseItem list \<Rightarrow> string \<Rightarrow> sse_outcome" where
  "push_body_bytes dec out [] = (dec, out, None)"
| "push_body_bytes dec out (b # bs) = (case push_body_byte dec out b of
      (dec', out', None) \<Rightarrow> push_body_bytes dec' out' bs
    | failed \<Rightarrow> failed)"

text \<open>One turn of the loop of \<open>push\<close>.\<close>

definition push_byte :: "SseDecoder \<Rightarrow> SseItem list \<Rightarrow> char \<Rightarrow> sse_outcome" where
  "push_byte dec out byte = (case checked_add (total_bytes dec) 1 of
      None \<Rightarrow> (dec, out, Some (ResponseSize MAX_DEEPSEEK_RESPONSE_BYTES))
    | Some n \<Rightarrow>
        let dec = dec\<lparr>total_bytes := n\<rparr>
        in if unat n > MAX_DEEPSEEK_RESPONSE_BYTES
           then (dec, out, Some (ResponseSize MAX_DEEPSEEK_RESPONSE_BYTES))
           else if bom_decided dec then push_body_byte dec out byte
           else let prefix = bom_prefix dec @ [byte]
             in if starts_with prefix UTF8_BOM \<and> length prefix < length UTF8_BOM
                then (dec\<lparr>bom_prefix := prefix\<rparr>, out, None)
                else if prefix = UTF8_BOM
                then (dec\<lparr>bom_decided := True, bom_prefix := []\<rparr>, out, None)
                else push_body_bytes (dec\<lparr>bom_decided := True, bom_prefix := []\<rparr>) out prefix)"

fun push_bytes :: "SseDecoder \<Rightarrow> SseItem list \<Rightarrow> string \<Rightarrow> sse_outcome" where
  "push_bytes dec out [] = (dec, out, None)"
| "push_bytes dec out (b # bs) =
     (if sse_done dec then (dec, out, None)
      else case push_byte dec out b of
          (dec', out', None) \<Rightarrow> push_bytes dec' out' bs
        | failed \<Rightarrow> failed)"

definition sse_push :: "SseDecoder \<Rightarrow> string \<Rightarrow> sse_outcome" where
  "sse_push dec bytes = push_bytes dec [] bytes"

definition sse_finish :: "SseDecoder \<Rightarrow> sse_outcome" where
  "sse_finish dec =
     (if \<not> bom_decided dec
      then push_body_bytes (dec\<lparr>bom_decided := True, bom_prefix := []\<rparr>) [] (bom_prefix dec)
      else (dec, [], None))"

text \<open>The adapter's read loop: push the chunks as they arrive, stop at the first failure.\<close>

fun sse_feed :: "SseDecoder \<Rightarrow> string list \<Rightarrow> sse_outcome" where
  "sse_feed dec [] = (dec, [], None)"
| "sse_feed dec (c # cs) = (case sse_push dec c of
      (dec', items, None) \<Rightarrow> (case sse_feed dec' cs of (dec'', items', e) \<Rightarrow> (dec'', items @ items', e))
    | failed \<Rightarrow> failed)"

section \<open>Chunk boundaries do not matter\<close>

text \<open>The output accumulator is only appended to.\<close>

definition prepend_items :: "SseItem list \<Rightarrow> sse_outcome \<Rightarrow> sse_outcome" where
  "prepend_items xs r = (case r of (dec, out, e) \<Rightarrow> (dec, xs @ out, e))"

lemma process_line_out: "process_line dec (xs @ out) = prepend_items xs (process_line dec out)"
  by (auto simp: process_line_def process_data_def prepend_items_def Let_def split: prod.splits)

lemma push_body_byte_out:
  "push_body_byte dec (xs @ out) b = prepend_items xs (push_body_byte dec out b)"
  by (auto simp: push_body_byte_def process_line_out Let_def prepend_items_def
      split: prod.splits option.splits)

lemma push_body_bytes_out:
  "push_body_bytes dec (xs @ out) bs = prepend_items xs (push_body_bytes dec out bs)"
  by (induction bs arbitrary: dec out)
    (auto simp: push_body_byte_out prepend_items_def split: prod.splits option.splits)

lemma push_byte_out: "push_byte dec (xs @ out) b = prepend_items xs (push_byte dec out b)"
  by (auto simp: push_byte_def push_body_byte_out push_body_bytes_out Let_def split: option.splits)
    (simp_all add: prepend_items_def)

lemma push_bytes_out: "push_bytes dec (xs @ out) bs = prepend_items xs (push_bytes dec out bs)"
  by (induction bs arbitrary: dec out)
    (auto simp: push_byte_out prepend_items_def split: prod.splits option.splits)

lemma push_bytes_append:
  "push_bytes dec out (a @ b) = (case push_bytes dec out a of
      (dec', out', None) \<Rightarrow> push_bytes dec' out' b
    | failed \<Rightarrow> failed)"
  by (induction a arbitrary: dec out) (auto split: prod.splits option.splits, (cases b; simp)+)

lemma push_bytes_done: "sse_done dec \<Longrightarrow> push_bytes dec out bs = (dec, out, None)"
  by (cases bs) simp_all

lemma sse_feed_concat: "sse_feed dec chunks = sse_push dec (concat chunks)"
proof (induction chunks arbitrary: dec)
  case Nil
  then show ?case by (simp add: sse_push_def)
next
  case (Cons c cs)
  obtain d o' e where c: "push_bytes dec [] c = (d, o', e)" by (metis prod_cases3)
  show ?case
    using push_bytes_out [of d o' "[]" "concat cs"]
    by (cases e) (simp_all add: Cons.IH sse_push_def c push_bytes_append prepend_items_def)
qed

text \<open>C22
  The decoder's output does not depend on how the network cuts the response: feeding any sequence
  of chunks gives the same items in the same order, the same decoder state and the same failure,
  if any, as one push of all the bytes.\<close>

theorem sse_chunk_independent: "sse_feed dec chunks = sse_push dec (concat chunks)"
  by (rule sse_feed_concat)

section \<open>Memory is bounded\<close>

definition sse_ok :: "SseDecoder \<Rightarrow> bool" where
  "sse_ok dec \<longleftrightarrow> length (sse_line dec) \<le> MAX_SSE_LINE_BYTES
     \<and> length (sse_data dec) \<le> MAX_SSE_EVENT_BYTES
     \<and> unat (total_bytes dec) \<le> MAX_DEEPSEEK_RESPONSE_BYTES
     \<and> length (bom_prefix dec) < length UTF8_BOM"

definition item_ok :: "SseItem \<Rightarrow> bool" where
  "item_ok i = (case i of Data d \<Rightarrow> length d \<le> MAX_SSE_EVENT_BYTES | Comment \<Rightarrow> True)"

text \<open>An outcome that respects the limits: a failure may leave one byte more than a line holds.\<close>

definition outcome_ok :: "sse_outcome \<Rightarrow> bool" where
  "outcome_ok r = (case r of (dec, out, e) \<Rightarrow> list_all item_ok out \<and> (e = None \<longrightarrow> sse_ok dec)
     \<and> length (sse_line dec) \<le> Suc MAX_SSE_LINE_BYTES
     \<and> length (sse_data dec) \<le> MAX_SSE_EVENT_BYTES)"

lemma outcome_okI: "sse_ok dec \<Longrightarrow> list_all item_ok out \<Longrightarrow> outcome_ok (dec, out, None)"
  by (simp add: outcome_ok_def sse_ok_def)

lemma process_line_ok:
  "sse_ok dec \<Longrightarrow> list_all item_ok out \<Longrightarrow> outcome_ok (process_line dec out)"
  by (auto simp: process_line_def process_data_def outcome_ok_def sse_ok_def item_ok_def Let_def
      split: prod.splits)

lemma push_body_byte_ok:
  assumes "sse_ok dec" and "list_all item_ok out"
  shows "outcome_ok (push_body_byte dec out b)"
proof -
  let ?dec = "dec\<lparr>skip_lf_after_cr := False\<rparr>"
  have "sse_ok ?dec" using assms(1) by (simp add: sse_ok_def)
  then have "outcome_ok (process_line ?dec out)" using assms(2) by (rule process_line_ok)
  with assms show ?thesis
    by (auto simp: push_body_byte_def Let_def outcome_ok_def sse_ok_def
        split: prod.splits option.splits)
qed

lemma push_body_bytes_ok:
  "sse_ok dec \<Longrightarrow> list_all item_ok out \<Longrightarrow> outcome_ok (push_body_bytes dec out bs)"
proof (induction bs arbitrary: dec out)
  case Nil
  then show ?case by (simp add: outcome_ok_def sse_ok_def)
next
  case (Cons b bs)
  obtain d o' e where r: "push_body_byte dec out b = (d, o', e)" by (metis prod_cases3)
  with push_body_byte_ok [OF Cons.prems, of b] Cons.IH [of d o'] show ?case
    by (cases e) (auto simp: outcome_ok_def)
qed

lemma push_byte_ok:
  assumes "sse_ok dec" and "list_all item_ok out"
  shows "outcome_ok (push_byte dec out b)"
proof (cases "checked_add (total_bytes dec) 1")
  case None
  with assms show ?thesis by (auto simp: push_byte_def outcome_ok_def sse_ok_def)
next
  case (Some n)
  show ?thesis
  proof (cases "unat n > MAX_DEEPSEEK_RESPONSE_BYTES")
    case True
    with Some assms show ?thesis by (auto simp: push_byte_def outcome_ok_def sse_ok_def)
  next
    case False
    let ?dec = "dec\<lparr>total_bytes := n\<rparr>"
    have ok: "sse_ok ?dec" "sse_ok (?dec\<lparr>bom_decided := True, bom_prefix := []\<rparr>)"
      using assms False by (auto simp: sse_ok_def UTF8_BOM_def utf8_bytes_def)
    have pre: "sse_ok (?dec\<lparr>bom_prefix := bom_prefix dec @ [b]\<rparr>)"
      if "length (bom_prefix dec @ [b]) < length UTF8_BOM"
      using ok(1) that by (simp add: sse_ok_def)
    show ?thesis
      using Some False ok pre push_body_byte_ok [OF ok(1) assms(2), of b] assms(2)
        push_body_bytes_ok [OF ok(2) assms(2), of "bom_prefix dec @ [b]"]
      by (simp add: push_byte_def Let_def outcome_okI)
  qed
qed

lemma push_bytes_ok:
  "sse_ok dec \<Longrightarrow> list_all item_ok out \<Longrightarrow> outcome_ok (push_bytes dec out bs)"
proof (induction bs arbitrary: dec out)
  case Nil
  then show ?case by (simp add: outcome_ok_def sse_ok_def)
next
  case (Cons b bs)
  obtain d o' e where r: "push_byte dec out b = (d, o', e)" by (metis prod_cases3)
  with push_byte_ok [OF Cons.prems, of b] Cons.IH [of d o'] Cons.prems show ?case
    by (cases e) (auto simp: outcome_ok_def sse_ok_def)
qed

lemma sse_default_ok: "sse_ok sse_default"
  by (simp add: sse_ok_def sse_default_def UTF8_BOM_def utf8_bytes_def)

text \<open>C23
  The decoder's memory is bounded for every response, well formed or not: whatever chunks are fed
  to a fresh decoder, no emitted event exceeds the event limit, the event under construction
  never does, the line buffer exceeds its limit by at most the byte that makes it fail, and after
  a success all limits hold, the total byte count included.\<close>

theorem sse_memory_bounded:
  "case sse_feed sse_default chunks of (dec, items, e) \<Rightarrow>
     (\<forall>d. Data d \<in> set items \<longrightarrow> length d \<le> MAX_SSE_EVENT_BYTES)
     \<and> length (sse_data dec) \<le> MAX_SSE_EVENT_BYTES
     \<and> length (sse_line dec) \<le> Suc MAX_SSE_LINE_BYTES
     \<and> (e = None \<longrightarrow> unat (total_bytes dec) \<le> MAX_DEEPSEEK_RESPONSE_BYTES
          \<and> length (sse_line dec) \<le> MAX_SSE_LINE_BYTES)"
proof -
  have "outcome_ok (sse_feed sse_default chunks)"
    by (simp add: sse_feed_concat sse_push_def push_bytes_ok sse_default_ok)
  then show ?thesis
    by (auto simp: outcome_ok_def sse_ok_def item_ok_def list_all_iff split: prod.splits)
qed

section \<open>Streams of events\<close>

text \<open>A data event as a server writes it.\<close>

definition event_frame :: "string \<Rightarrow> string" where
  "event_frame d = ''data: '' @ d @ [LF, LF]"

text \<open>The decoder between two events, after \<open>n\<close> bytes.\<close>

definition between_events :: "nat \<Rightarrow> SseDecoder" where
  "between_events n = sse_default\<lparr>bom_decided := True, total_bytes := of_nat n\<rparr>"

definition plain_line :: "string \<Rightarrow> bool" where
  "plain_line s \<longleftrightarrow> CR \<notin> set s \<and> LF \<notin> set s"

lemma response_bytes_small: "MAX_DEEPSEEK_RESPONSE_BYTES < 2 ^ 64 - 1"
  by (simp add: MAX_DEEPSEEK_RESPONSE_BYTES_def)

lemma unat_of_nat_small: "n < 2 ^ 64 \<Longrightarrow> unat (of_nat n :: usize) = n"
  by (simp only: unat_of_nat len_bit0 len_num1 mod_less num.simps mult_1_right mult_numeral_1_right
      numeral_times_numeral mult_num_simps)

lemma count_byte:
  assumes "n < MAX_DEEPSEEK_RESPONSE_BYTES"
  shows "checked_add (of_nat n :: usize) 1 = Some (of_nat (Suc n))"
    and "\<not> unat (of_nat (Suc n) :: usize) > MAX_DEEPSEEK_RESPONSE_BYTES"
proof -
  have b: "n < 2 ^ 64" "Suc n < 2 ^ 64"
    using assms response_bytes_small by linarith+
  have "unat (of_nat n :: usize) + unat (1 :: usize) < 2 ^ LENGTH(64)"
    using b(2) by (simp only: unat_of_nat_small [OF b(1)]) simp
  then show "checked_add (of_nat n :: usize) 1 = Some (of_nat (Suc n))"
    by (simp only: checked_add_def if_True of_nat_Suc add.commute)
  show "\<not> unat (of_nat (Suc n) :: usize) > MAX_DEEPSEEK_RESPONSE_BYTES"
    unfolding unat_of_nat_small [OF b(2)] using assms by (simp only: not_less Suc_le_eq)
qed

lemma push_byte_plain:
  assumes "x \<noteq> CR" and "x \<noteq> LF" and "n < MAX_DEEPSEEK_RESPONSE_BYTES"
    and "length (sse_line dec) < MAX_SSE_LINE_BYTES" and "bom_decided dec"
    and "total_bytes dec = of_nat n"
  shows "push_byte dec out x = (dec\<lparr>total_bytes := of_nat (Suc n), skip_lf_after_cr := False,
    sse_line := sse_line dec @ [x]\<rparr>, out, None)"
  unfolding push_byte_def push_body_byte_def assms(6) count_byte(1) [OF assms(3)] option.case Let_def
  using assms count_byte(2) [OF assms(3)] by simp

lemma push_plain:
  assumes "plain_line xs" and "length (sse_line dec) + length xs \<le> MAX_SSE_LINE_BYTES"
    and "n + length xs \<le> MAX_DEEPSEEK_RESPONSE_BYTES"
    and "bom_decided dec" and "\<not> sse_done dec" and "\<not> skip_lf_after_cr dec"
    and "total_bytes dec = of_nat n"
  shows "push_bytes dec out (xs @ ys) =
    push_bytes (dec\<lparr>total_bytes := of_nat (n + length xs), sse_line := sse_line dec @ xs\<rparr>) out ys"
  using assms
proof (induction xs arbitrary: n dec)
  case Nil
  then show ?case by (cases dec) simp
next
  case (Cons x xs)
  let ?d = "dec\<lparr>total_bytes := of_nat (Suc n), sse_line := sse_line dec @ [x]\<rparr>"
  from Cons.prems have "push_byte dec out x = (?d, out, None)"
    by (subst push_byte_plain [where n = n]) (cases dec; auto simp: plain_line_def)+
  moreover have "push_bytes ?d out (xs @ ys) = push_bytes (?d\<lparr>total_bytes := of_nat (Suc n + length xs),
      sse_line := sse_line ?d @ xs\<rparr>) out ys"
    using Cons.prems by (intro Cons.IH) (auto simp: plain_line_def simp del: of_nat_Suc)
  ultimately show ?case using Cons.prems(5) by (simp del: of_nat_Suc of_nat_add)
qed

lemma push_byte_LF:
  assumes "n < MAX_DEEPSEEK_RESPONSE_BYTES" and "bom_decided dec" and "\<not> skip_lf_after_cr dec"
    and "total_bytes dec = of_nat n"
  shows "push_byte dec out LF = process_line (dec\<lparr>total_bytes := of_nat (Suc n)\<rparr>) out"
proof -
  have "LF \<noteq> CR" by (simp add: LF_def CR_def)
  moreover have same: "dec\<lparr>total_bytes := w, skip_lf_after_cr := False\<rparr> = dec\<lparr>total_bytes := w\<rparr>" for w
    using assms(3) by (cases dec) simp
  ultimately show ?thesis
    unfolding push_byte_def push_body_byte_def assms(4) count_byte(1) [OF assms(1)] option.case Let_def same
    using assms count_byte(2) [OF assms(1)] by (simp del: of_nat_Suc)
qed

lemma split_colon_data: "split_colon (''data: '' @ d) = (''data'', '' '' @ d)"
  by simp

lemma process_data_line:
  assumes "sse_line dec = ''data: '' @ d" and "\<not> has_data dec" and "sse_data dec = []"
    and "utf8_valid d" and "length d \<le> MAX_SSE_EVENT_BYTES"
  shows "process_line dec out = (dec\<lparr>sse_line := [], sse_data := d, has_data := True\<rparr>, out, None)"
proof -
  have "process_line dec out = process_data (dec\<lparr>sse_line := []\<rparr>) out ('' '' @ d)"
    unfolding process_line_def assms(1) Let_def split_colon_data by simp
  also have "\<dots> = (dec\<lparr>sse_line := [], sse_data := d, has_data := True\<rparr>, out, None)"
    using assms by (simp add: process_data_def strip_space_def from_utf8_lossy_valid)
  finally show ?thesis .
qed

lemma push_frame:
  assumes "n + length (event_frame d) \<le> MAX_DEEPSEEK_RESPONSE_BYTES"
    and "utf8_valid d" and "plain_line d" and "length d + 6 \<le> MAX_SSE_LINE_BYTES"
  shows "push_bytes (between_events n) out (event_frame d @ rest) =
    push_bytes ((between_events (n + length (event_frame d)))\<lparr>sse_done := (d = DONE)\<rparr>)
      (out @ [Data d]) rest"
proof -
  let ?l = "''data: '' @ d" and ?b = "between_events n"
  let ?n1 = "n + length ?l"
  let ?d1 = "?b\<lparr>total_bytes := of_nat ?n1, sse_line := ?l\<rparr>"
  let ?d2 = "?b\<lparr>total_bytes := of_nat (Suc ?n1), sse_line := [], sse_data := d, has_data := True\<rparr>"
  let ?d3 = "?b\<lparr>total_bytes := of_nat (Suc (Suc ?n1)), sse_done := (d = DONE)\<rparr>"
  have small: "?n1 < MAX_DEEPSEEK_RESPONSE_BYTES" "Suc ?n1 < MAX_DEEPSEEK_RESPONSE_BYTES"
    using assms(1) by (simp_all add: event_frame_def)
  have "plain_line ?l" using assms(3) by (auto simp: plain_line_def CR_def LF_def)
  then have "push_bytes ?b out (?l @ LF # LF # rest) = push_bytes ?d1 out (LF # LF # rest)"
    using assms(4) small(1)
    by (subst push_plain [where n = n]) (auto simp: between_events_def sse_default_def)
  moreover have "push_byte ?d1 out LF = (?d2, out, None)"
    using assms(2,4) small(1)
    by (subst push_byte_LF [where n = ?n1])
      (simp_all add: between_events_def sse_default_def process_data_line
        MAX_SSE_EVENT_BYTES_def MAX_SSE_LINE_BYTES_def del: of_nat_Suc of_nat_add append.simps)
  moreover have "push_byte ?d2 out LF = (?d3, out @ [Data d], None)"
    using small(2)
    by (subst push_byte_LF [where n = "Suc ?n1"])
      (simp_all add: between_events_def sse_default_def process_line_def del: of_nat_Suc of_nat_add)
  ultimately show ?thesis
    by (simp add: event_frame_def between_events_def sse_default_def del: of_nat_Suc of_nat_add)
qed

text \<open>A payload that survives the trip unchanged: well-formed UTF-8 on one line that fits.\<close>

definition payload_ok :: "string \<Rightarrow> bool" where
  "payload_ok d \<longleftrightarrow> utf8_valid d \<and> plain_line d \<and> length d + 6 \<le> MAX_SSE_LINE_BYTES"

lemma push_frames:
  assumes "\<forall>d \<in> set ds. payload_ok d \<and> d \<noteq> DONE"
    and "n + length (concat (map event_frame ds)) \<le> MAX_DEEPSEEK_RESPONSE_BYTES"
  shows "push_bytes (between_events n) out (concat (map event_frame ds) @ rest) =
    push_bytes (between_events (n + length (concat (map event_frame ds)))) (out @ map Data ds) rest"
  using assms
proof (induction ds arbitrary: n out)
  case Nil
  then show ?case by simp
next
  case (Cons d ds)
  have ok: "payload_ok d" "d \<noteq> DONE" using Cons.prems by simp_all
  have "(between_events k)\<lparr>sse_done := (d = DONE)\<rparr> = between_events k" for k
    using ok(2) by (simp add: between_events_def sse_default_def)
  with ok Cons.prems Cons.IH [of "n + length (event_frame d)"] show ?case
    by (simp add: push_frame payload_ok_def add.assoc del: of_nat_add)
qed

lemma no_bom_prefix: "\<not> starts_with ''d'' UTF8_BOM" "''d'' \<noteq> UTF8_BOM"
  by code_simp+

lemma first_byte:
  "push_bytes sse_default out (CHR ''d'' # s) = push_bytes (between_events 0) out (CHR ''d'' # s)"
proof -
  have "checked_add (0 :: usize) 1 = Some 1" "\<not> unat (1 :: usize) > MAX_DEEPSEEK_RESPONSE_BYTES"
    by (simp_all add: checked_add_def MAX_DEEPSEEK_RESPONSE_BYTES_def)
  then have "push_byte sse_default out CHR ''d'' = push_byte (between_events 0) out CHR ''d''"
    using no_bom_prefix
    by (simp add: push_byte_def sse_default_def between_events_def Let_def
        split: option.splits prod.splits)
  then show ?thesis by (simp add: sse_default_def between_events_def)
qed

lemma frame_first: "\<exists>s. event_frame d = CHR ''d'' # s"
  by (simp add: event_frame_def)

lemma done_payload: "payload_ok DONE"
  by (simp add: payload_ok_def plain_line_def DONE_def CR_def LF_def utf8_valid_ascii
      MAX_SSE_LINE_BYTES_def)

text \<open>Decoding a well-behaved response: the payloads a server frames as single-line data events,
  followed by the terminating event, come out as they went in and in order, however the network
  cuts the bytes; the decoder is then done, and every byte after the terminator is ignored.\<close>

theorem sse_roundtrip:
  assumes "\<forall>d \<in> set ds. payload_ok d \<and> d \<noteq> DONE"
    and "length (concat (map event_frame (ds @ [DONE]))) \<le> MAX_DEEPSEEK_RESPONSE_BYTES"
    and "concat chunks = concat (map event_frame (ds @ [DONE])) @ rest"
  shows "\<exists>dec. sse_feed sse_default chunks = (dec, map Data ds @ [Data DONE], None) \<and> sse_done dec"
proof -
  let ?n = "length (concat (map event_frame ds))"
  obtain s where first: "concat (map event_frame (ds @ [DONE])) @ rest = CHR ''d'' # s"
  proof (cases ds)
    case Nil
    then show ?thesis using that frame_first [of DONE] by auto
  next
    case (Cons d es)
    then show ?thesis using that frame_first [of d] by auto
  qed
  have "push_bytes sse_default [] (concat chunks) =
      push_bytes (between_events 0) [] (concat (map event_frame ds) @ event_frame DONE @ rest)"
    using first_byte [of "[]" s] assms(3) first by simp
  also have "\<dots> = push_bytes (between_events ?n) (map Data ds) (event_frame DONE @ rest)"
    using assms(1,2) push_frames [of ds 0 "[]"] by simp
  also have "\<dots> = push_bytes ((between_events (?n + length (event_frame DONE)))\<lparr>sse_done := True\<rparr>)
      (map Data ds @ [Data DONE]) rest"
    using assms(2) done_payload by (subst push_frame) (simp_all add: payload_ok_def)
  finally show ?thesis
    by (simp add: sse_feed_concat sse_push_def push_bytes_done)
qed

theorem sse_roundtrip_witness:
  "\<exists>dec. sse_feed sse_default [''data: {}'', [LF] @ [LF] @ ''data: [DO'', ''NE]'' @ [LF, LF] @ ''x'']
     = (dec, [Data ''{}'', Data DONE], None) \<and> sse_done dec"
  using sse_roundtrip [of "[''{}'']"
      "[''data: {}'', [LF] @ [LF] @ ''data: [DO'', ''NE]'' @ [LF, LF] @ ''x'']" "''x''"]
  by (simp add: payload_ok_def plain_line_def DONE_def CR_def LF_def utf8_valid_ascii event_frame_def
      MAX_SSE_LINE_BYTES_def MAX_DEEPSEEK_RESPONSE_BYTES_def)

text \<open>Two chunks that end in the middle of a line.\<close>

theorem sse_memory_bounded_witness:
  "\<exists>dec. sse_feed sse_default [''da'', ''ta''] = (dec, [], None)
     \<and> unat (total_bytes dec) \<le> MAX_DEEPSEEK_RESPONSE_BYTES
     \<and> length (sse_line dec) \<le> MAX_SSE_LINE_BYTES"
proof -
  have plain: "plain_line ''data''" by (simp add: plain_line_def CR_def LF_def)
  have start: "bom_decided (between_events 0)" "\<not> sse_done (between_events 0)"
    "\<not> skip_lf_after_cr (between_events 0)" "total_bytes (between_events 0) = of_nat 0"
    "sse_line (between_events 0) = []"
    by (simp_all add: between_events_def sse_default_def)
  have "push_bytes (between_events 0) [] ''data'' =
      ((between_events 0)\<lparr>total_bytes := of_nat 4, sse_line := ''data''\<rparr>, [], None)"
    using push_plain [OF plain _ _ start(1-4), of "[]" "[]"]
    by (simp add: start(5) MAX_SSE_LINE_BYTES_def MAX_DEEPSEEK_RESPONSE_BYTES_def)
  then have "\<exists>dec. sse_feed sse_default [''da'', ''ta''] = (dec, [], None)"
    using first_byte [of "[]" "''ata''"] by (simp add: sse_feed_concat sse_push_def)
  with sse_memory_bounded [of "[''da'', ''ta'']"] show ?thesis by auto
qed

section \<open>The reading of a whole response\<close>

text \<open>What the standard says of a complete body, without a decoder state: lines end with CR LF, CR or
  LF; a line that starts with a colon is a comment; the value of a field is what follows its first
  colon and one space; an empty line dispatches the data lines before it, joined by line feeds. The
  limits and the end sentinel of the decoder are added: a line that grows too long and an event that
  grows too large end the reading, and so does the sentinel.\<close>

definition drop_lf :: "string \<Rightarrow> string" where
  "drop_lf s = (if s \<noteq> [] \<and> hd s = LF then tl s else s)"

lemma drop_lf_length: "length (drop_lf s) \<le> length s"
  by (simp add: drop_lf_def)

text \<open>The terminated lines, and whether a line that is too long comes after them.\<close>

function sse_lines :: "string \<Rightarrow> string \<Rightarrow> string list \<times> bool" where
  "sse_lines line [] = ([], False)"
| "sse_lines line (c # s) =
     (if c = CR then (case sse_lines [] (drop_lf s) of (ls, long) \<Rightarrow> (line # ls, long))
      else if c = LF then (case sse_lines [] s of (ls, long) \<Rightarrow> (line # ls, long))
      else if length line \<ge> MAX_SSE_LINE_BYTES then ([], True)
      else sse_lines (line @ [c]) s)"
  by pat_completeness auto
termination
  by (relation "measure (\<lambda>(_, s). length s)") (simp_all add: less_Suc_eq_le drop_lf_length)

text \<open>The value of a data field, none for a line with another field.\<close>

definition data_value :: "string \<Rightarrow> string option" where
  "data_value l = (let value = drop 1 (dropWhile (\<lambda>c. c \<noteq> CHR '':'') l) in
     if takeWhile (\<lambda>c. c \<noteq> CHR '':'') l = ''data''
     then Some (from_utf8_lossy (if value \<noteq> [] \<and> hd value = CHR '' '' then tl value else value)) else None)"

fun join_lines :: "string list \<Rightarrow> string" where
  "join_lines [] = []"
| "join_lines [v] = v"
| "join_lines (v # vs) = v @ LF # join_lines vs"

fun sse_events :: "string list \<Rightarrow> string list \<Rightarrow> SseItem list \<times> bool \<times> SseError option" where
  "sse_events vs [] = ([], False, None)"
| "sse_events vs (l # ls) =
     (if l = [] then
        (if vs = [] then sse_events [] ls
         else if join_lines vs = DONE then ([Data DONE], True, None)
         else (case sse_events [] ls of (items, r) \<Rightarrow> (Data (join_lines vs) # items, r)))
      else if hd l = CHR '':'' then (case sse_events vs ls of (items, r) \<Rightarrow> (Comment # items, r))
      else (case data_value l of
          None \<Rightarrow> sse_events vs ls
        | Some v \<Rightarrow> if length (join_lines (vs @ [v])) > MAX_SSE_EVENT_BYTES
            then ([], False, Some (EventData MAX_SSE_EVENT_BYTES)) else sse_events (vs @ [v]) ls))"

text \<open>The reading of the rest of a response: \<open>n\<close> bytes, the current line and the pending data lines
  precede it.\<close>

definition sse_end :: "bool \<Rightarrow> bool \<Rightarrow> SseItem list \<times> bool \<times> SseError option \<Rightarrow> SseItem list \<times> SseError option" where
  "sse_end long over = (\<lambda>(items, stopped, e). (items,
     if e \<noteq> None \<or> stopped then e
     else if long then Some (LineLength MAX_SSE_LINE_BYTES)
     else if over then Some (ResponseSize MAX_DEEPSEEK_RESPONSE_BYTES)
     else None))"

definition sse_body :: "string \<Rightarrow> string list \<Rightarrow> string \<Rightarrow> bool \<Rightarrow> SseItem list \<times> SseError option" where
  "sse_body line vs body over = (case sse_lines line body of (ls, long) \<Rightarrow> sse_end long over (sse_events vs ls))"

definition sse_rest :: "nat \<Rightarrow> bool \<Rightarrow> string \<Rightarrow> string list \<Rightarrow> string \<Rightarrow> SseItem list \<times> SseError option" where
  "sse_rest n after_cr line vs bytes =
     (let body = take (MAX_DEEPSEEK_RESPONSE_BYTES - n) bytes in
      sse_body line vs (if after_cr then drop_lf body else body) (length bytes > MAX_DEEPSEEK_RESPONSE_BYTES - n))"

text \<open>The whole response: a byte-order mark in front is not part of the body.\<close>

definition sse_response :: "string \<Rightarrow> SseItem list \<times> SseError option" where
  "sse_response bytes =
     (if starts_with UTF8_BOM bytes then sse_rest 3 False [] [] (drop 3 bytes) else sse_rest 0 False [] [] bytes)"

text \<open>The decoder in the middle of a body.\<close>

definition sse_mid :: "nat \<Rightarrow> bool \<Rightarrow> string \<Rightarrow> string list \<Rightarrow> SseDecoder \<Rightarrow> bool" where
  "sse_mid n after_cr line vs dec \<longleftrightarrow> bom_decided dec \<and> \<not> sse_done dec \<and> total_bytes dec = of_nat n
     \<and> skip_lf_after_cr dec = after_cr \<and> sse_line dec = line \<and> sse_data dec = join_lines vs
     \<and> has_data dec = (vs \<noteq> []) \<and> n \<le> MAX_DEEPSEEK_RESPONSE_BYTES \<and> length line \<le> MAX_SSE_LINE_BYTES"

lemma split_colon_while: "split_colon l = (takeWhile (\<lambda>c. c \<noteq> CHR '':'') l, drop 1 (dropWhile (\<lambda>c. c \<noteq> CHR '':'') l))"
  by (induction l) (auto split: prod.splits)

lemma join_lines_snoc: "join_lines (vs @ [v]) = join_lines vs @ (if vs = [] then [] else [LF]) @ v"
  by (induction vs rule: join_lines.induct) simp_all

lemma strip_space_tl: "strip_space s = (if s \<noteq> [] \<and> hd s = CHR '' '' then tl s else s)"
  by (cases s) (auto simp: strip_space_def)

text \<open>One complete line.\<close>

lemma process_line_data:
  assumes "sse_mid n k line vs dec" and "line \<noteq> []" and "hd line \<noteq> CHR '':''"
  shows "process_line dec out = (case data_value line of
      None \<Rightarrow> (dec\<lparr>sse_line := []\<rparr>, out, None)
    | Some v \<Rightarrow> if length (join_lines (vs @ [v])) > MAX_SSE_EVENT_BYTES
        then (dec\<lparr>sse_line := []\<rparr>, out, Some (EventData MAX_SSE_EVENT_BYTES))
        else (dec\<lparr>sse_line := [], sse_data := join_lines (vs @ [v]), has_data := True\<rparr>, out, None))"
  using assms
  by (auto simp: process_line_def process_data_def sse_mid_def data_value_def split_colon_while strip_space_tl
      join_lines_snoc Let_def)

text \<open>The reading, byte by byte.\<close>

definition add_items :: "SseItem list \<Rightarrow> SseItem list \<times> SseError option \<Rightarrow> SseItem list \<times> SseError option" where
  "add_items out r = (out @ fst r, snd r)"

lemma add_items_simps [simp]: "add_items out (items, e) = (out @ items, e)" "add_items [] r = r"
    "add_items xs (add_items ys r) = add_items (xs @ ys) r"
  by (simp_all add: add_items_def)

lemma rest_step:
  assumes "n < MAX_DEEPSEEK_RESPONSE_BYTES"
  shows "sse_rest n k line vs (b # bs) =
    (if k \<and> b = LF then sse_rest (Suc n) False line vs bs
     else sse_body line vs (b # take (MAX_DEEPSEEK_RESPONSE_BYTES - Suc n) bs) (length bs > MAX_DEEPSEEK_RESPONSE_BYTES - Suc n))"
proof -
  obtain m where "MAX_DEEPSEEK_RESPONSE_BYTES - n = Suc m" "MAX_DEEPSEEK_RESPONSE_BYTES - Suc n = m"
    using assms by (metis Suc_diff_Suc)
  then show ?thesis by (simp add: sse_rest_def drop_lf_def Let_def)
qed

lemma body_char: "b \<noteq> CR \<Longrightarrow> b \<noteq> LF \<Longrightarrow> length line < MAX_SSE_LINE_BYTES \<Longrightarrow>
    sse_body line vs (b # bs) over = sse_body (line @ [b]) vs bs over"
  by (simp add: sse_body_def not_le)

lemma body_long: "b \<noteq> CR \<Longrightarrow> b \<noteq> LF \<Longrightarrow> \<not> length line < MAX_SSE_LINE_BYTES \<Longrightarrow>
    sse_body line vs (b # bs) over = ([], Some (LineLength MAX_SSE_LINE_BYTES))"
  by (simp add: sse_body_def sse_end_def)

lemma sse_end_items: "sse_end long over (case r of (items, q) \<Rightarrow> (i # items, q)) = add_items [i] (sse_end long over r)"
  by (cases r) (simp add: sse_end_def)

text \<open>The effect of a complete line on the reading.\<close>

definition line_reading :: "string \<Rightarrow> string list \<Rightarrow> (string list \<Rightarrow> SseItem list \<times> SseError option)
    \<Rightarrow> SseItem list \<times> SseError option" where
  "line_reading line vs rest =
    (if line = [] then
       (if vs = [] then rest [] else if join_lines vs = DONE then ([Data DONE], None)
        else add_items [Data (join_lines vs)] (rest []))
     else if hd line = CHR '':'' then add_items [Comment] (rest vs)
     else (case data_value line of
         None \<Rightarrow> rest vs
       | Some v \<Rightarrow> if length (join_lines (vs @ [v])) > MAX_SSE_EVENT_BYTES
           then ([], Some (EventData MAX_SSE_EVENT_BYTES)) else rest (vs @ [v])))"

lemma body_line:
  assumes "b = CR \<or> b = LF"
  shows "sse_body line vs (b # bs) over = line_reading line vs (\<lambda>vs. sse_body [] vs (if b = CR then drop_lf bs else bs) over)"
proof -
  obtain ls long where ls: "sse_lines [] (if b = CR then drop_lf bs else bs) = (ls, long)" by fastforce
  then have "sse_lines line (b # bs) = (line # ls, long)" using assms by (auto split: if_splits)
  then have b: "sse_body line vs (b # bs) over = sse_end long over (sse_events vs (line # ls))"
    by (simp only: sse_body_def prod.case)
  have r: "sse_body [] ws (if b = CR then drop_lf bs else bs) over = sse_end long over (sse_events ws ls)" for ws
    by (simp only: sse_body_def ls prod.case)
  show ?thesis
    unfolding b r line_reading_def
    by (simp add: sse_end_items) (simp add: sse_end_def split: option.split)
qed

text \<open>The decoder against the reading.\<close>

definition sse_outputs :: "sse_outcome \<Rightarrow> SseItem list \<times> SseError option" where
  "sse_outputs r = (case r of (_, out, e) \<Rightarrow> (out, e))"

lemma mid_line:
  assumes mid: "sse_mid n k line vs dec" and n: "n < MAX_DEEPSEEK_RESPONSE_BYTES" and b: "b = CR \<or> b = LF"
    and skip: "\<not> (k \<and> b = LF)"
  shows "push_byte dec out b = (case process_line (dec\<lparr>total_bytes := of_nat (Suc n), skip_lf_after_cr := False\<rparr>) out of
      (dec, out, e) \<Rightarrow> (if e = None then dec\<lparr>skip_lf_after_cr := (b = CR)\<rparr> else dec, out, e))"
proof -
  have ne: "LF \<noteq> CR" by (simp add: LF_def CR_def)
  let ?d = "dec\<lparr>total_bytes := of_nat (Suc n)\<rparr>"
  have mids: "bom_decided dec" "total_bytes dec = of_nat n" "skip_lf_after_cr dec = k"
    using mid by (simp_all add: sse_mid_def)
  have "push_byte dec out b = push_body_byte ?d out b"
    unfolding push_byte_def mids count_byte(1) [OF n] option.case Let_def
    using count_byte(2) [OF n] mids by (simp del: of_nat_Suc)
  moreover obtain d o' e where p: "process_line (?d\<lparr>skip_lf_after_cr := False\<rparr>) out = (d, o', e)"
    by (metis prod_cases3)
  moreover have "skip_lf_after_cr d = False"
    using p by (auto simp: process_line_def process_data_def Let_def split: if_splits prod.splits)
  then have "d\<lparr>skip_lf_after_cr := False\<rparr> = d" by simp
  ultimately show ?thesis
    using b skip ne by (cases e) (auto simp: push_body_byte_def Let_def mids)
qed

lemma mid_skip:
  assumes mid: "sse_mid n True line vs dec" and n: "n < MAX_DEEPSEEK_RESPONSE_BYTES"
  shows "push_byte dec out LF = (dec\<lparr>total_bytes := of_nat (Suc n), skip_lf_after_cr := False\<rparr>, out, None)"
  using mid count_byte [OF n] by (simp add: push_byte_def push_body_byte_def sse_mid_def Let_def del: of_nat_Suc)

lemma mid_long:
  assumes mid: "sse_mid n k line vs dec" and n: "n < MAX_DEEPSEEK_RESPONSE_BYTES"
    and b: "b \<noteq> CR" "b \<noteq> LF" and long: "\<not> length line < MAX_SSE_LINE_BYTES"
  shows "sse_outputs (push_byte dec out b) = (out, Some (LineLength MAX_SSE_LINE_BYTES))"
  using mid count_byte [OF n] b long
  by (simp add: push_byte_def push_body_byte_def sse_mid_def sse_outputs_def Let_def del: of_nat_Suc)

lemma mid_full:
  assumes mid: "sse_mid MAX_DEEPSEEK_RESPONSE_BYTES k line vs dec"
  shows "sse_outputs (push_byte dec out b) = (out, Some (ResponseSize MAX_DEEPSEEK_RESPONSE_BYTES))"
proof -
  have "checked_add (of_nat MAX_DEEPSEEK_RESPONSE_BYTES :: usize) 1 = Some (of_nat (Suc MAX_DEEPSEEK_RESPONSE_BYTES))"
    and "unat (of_nat (Suc MAX_DEEPSEEK_RESPONSE_BYTES) :: usize) > MAX_DEEPSEEK_RESPONSE_BYTES"
    by (simp_all add: checked_add_def MAX_DEEPSEEK_RESPONSE_BYTES_def)
  with mid show ?thesis by (simp add: push_byte_def sse_mid_def sse_outputs_def Let_def del: of_nat_Suc)
qed

lemma rest_empty: "sse_rest n k line vs [] = ([], None)"
  by (simp add: sse_rest_def sse_body_def sse_end_def drop_lf_def)

lemma rest_full: "sse_rest MAX_DEEPSEEK_RESPONSE_BYTES k line vs (b # bs) = ([], Some (ResponseSize MAX_DEEPSEEK_RESPONSE_BYTES))"
  by (simp add: sse_rest_def sse_body_def sse_end_def drop_lf_def)

text \<open>After a failure nothing is read.\<close>

lemma push_bytes_failed:
  "\<not> sse_done dec \<Longrightarrow> sse_outputs (push_byte dec out b) = (out', Some e) \<Longrightarrow> sse_outputs (push_bytes dec out (b # bs)) = (out', Some e)"
  by (auto simp: sse_outputs_def split: prod.splits)

lemma push_bytes_next:
  "\<not> sse_done dec \<Longrightarrow> push_byte dec out b = (dec', out', None) \<Longrightarrow> push_bytes dec out (b # bs) = push_bytes dec' out' bs"
  by simp

lemma rest_body: "sse_body [] vs (if b = CR then drop_lf (take (MAX_DEEPSEEK_RESPONSE_BYTES - n) bs)
      else take (MAX_DEEPSEEK_RESPONSE_BYTES - n) bs) (length bs > MAX_DEEPSEEK_RESPONSE_BYTES - n)
    = sse_rest n (b = CR) [] vs bs"
  by (simp add: sse_rest_def)

text \<open>A complete line goes on, ends the stream or fails, in the decoder and in the reading.\<close>

lemma process_line_reading:
  assumes d: "sse_mid n False line vs d"
  obtains (go) items ws d' where "process_line d out = (d', out @ items, None)"
      and "\<And>k. sse_mid n k [] ws (d'\<lparr>skip_lf_after_cr := k\<rparr>)" and "\<And>rest. line_reading line vs rest = add_items items (rest ws)"
    | (stop) items d' where "process_line d out = (d', out @ items, None)" and "sse_done d'"
      and "\<And>rest. line_reading line vs rest = (items, None)"
    | (fail) d' e where "process_line d out = (d', out, Some e)" and "\<And>rest. line_reading line vs rest = ([], Some e)"
proof -
  consider (none) "line = []" "vs = []" | (final) "line = []" "vs \<noteq> []" "join_lines vs = DONE"
    | (data) "line = []" "vs \<noteq> []" "join_lines vs \<noteq> DONE" | (comment) "line \<noteq> []" "hd line = CHR '':''"
    | (field) "line \<noteq> []" "hd line \<noteq> CHR '':''" by blast
  then show thesis
  proof cases
    case none
    then show thesis using d
      by (intro go [of "d\<lparr>sse_line := []\<rparr>" "[]" "[]"]) (simp_all add: process_line_def sse_mid_def line_reading_def Let_def)
  next
    case final
    then show thesis using d
      by (intro stop [of "d\<lparr>sse_line := [], sse_data := [], has_data := False, sse_done := True\<rparr>" "[Data DONE]"])
        (simp_all add: process_line_def sse_mid_def line_reading_def Let_def)
  next
    case data
    then show thesis using d
      by (intro go [of "d\<lparr>sse_line := [], sse_data := [], has_data := False, sse_done := False\<rparr>" "[Data (join_lines vs)]" "[]"])
        (simp_all add: process_line_def sse_mid_def line_reading_def Let_def)
  next
    case comment
    then show thesis using d
      by (intro go [of "d\<lparr>sse_line := []\<rparr>" "[Comment]" vs]) (simp_all add: process_line_def sse_mid_def line_reading_def Let_def)
  next
    case field
    note p = process_line_data [OF d field, of out]
    show thesis
    proof (cases "data_value line")
      case None
      with p d field show thesis
        by (intro go [of "d\<lparr>sse_line := []\<rparr>" "[]" vs]) (simp_all add: sse_mid_def line_reading_def)
    next
      case (Some v)
      then show thesis
        using p d field
          go [of "d\<lparr>sse_line := [], sse_data := join_lines (vs @ [v]), has_data := True\<rparr>" "[]" "vs @ [v]"] fail
        by (cases "length (join_lines (vs @ [v])) > MAX_SSE_EVENT_BYTES") (simp_all add: sse_mid_def line_reading_def)
    qed
  qed
qed

lemma push_bytes_rest:
  "sse_mid n k line vs dec \<Longrightarrow> sse_outputs (push_bytes dec out bs) = add_items out (sse_rest n k line vs bs)"
proof (induction bs arbitrary: n k line vs dec out)
  case Nil
  then show ?case by (simp add: rest_empty sse_outputs_def)
next
  case (Cons b bs)
  note mid = Cons.prems
  have nd: "\<not> sse_done dec" and le: "n \<le> MAX_DEEPSEEK_RESPONSE_BYTES" using mid by (simp_all add: sse_mid_def)
  show ?case
  proof (cases "n = MAX_DEEPSEEK_RESPONSE_BYTES")
    case True
    with push_bytes_failed [OF nd mid_full [of k line vs dec out b]] mid show ?thesis
      by (simp add: rest_full del: push_bytes.simps)
  next
    case False
    with le have n: "n < MAX_DEEPSEEK_RESPONSE_BYTES" by simp
    consider (skip) "k" "b = LF" | (char) "b \<noteq> CR" "b \<noteq> LF" "length line < MAX_SSE_LINE_BYTES"
      | (long) "b \<noteq> CR" "b \<noteq> LF" "\<not> length line < MAX_SSE_LINE_BYTES" | (line) "b = CR \<or> b = LF" "\<not> (k \<and> b = LF)"
      by blast
    then show ?thesis
    proof cases
      case skip
      have "sse_mid (Suc n) False line vs (dec\<lparr>total_bytes := of_nat (Suc n), skip_lf_after_cr := False\<rparr>)"
        using mid n by (simp add: sse_mid_def)
      from Cons.IH [OF this] skip mid nd show ?thesis
        by (simp add: mid_skip [OF _ n] rest_step [OF n] del: of_nat_Suc)
    next
      case char
      let ?d = "dec\<lparr>total_bytes := of_nat (Suc n), skip_lf_after_cr := False, sse_line := line @ [b]\<rparr>"
      have "push_byte dec out b = (?d, out, None)"
        using push_byte_plain [OF char(1,2) n] mid char(3) by (simp add: sse_mid_def)
      moreover have "sse_mid (Suc n) False (line @ [b]) vs ?d" using mid n char(3) by (simp add: sse_mid_def)
      from Cons.IH [OF this] have "sse_outputs (push_bytes ?d out bs) = add_items out (sse_rest (Suc n) False (line @ [b]) vs bs)" .
      moreover have "sse_rest n k line vs (b # bs) = sse_rest (Suc n) False (line @ [b]) vs bs"
        by (simp add: rest_step [OF n] char body_char) (simp add: sse_rest_def)
      ultimately show ?thesis by (simp add: push_bytes_next [OF nd] del: push_bytes.simps of_nat_Suc)
    next
      case long
      with push_bytes_failed [OF nd mid_long [OF mid n long]] show ?thesis
        by (simp add: rest_step [OF n] body_long del: push_bytes.simps)
    next
      case line
      let ?d = "dec\<lparr>total_bytes := of_nat (Suc n), skip_lf_after_cr := False\<rparr>"
      note byte = mid_line [OF mid n line, of out]
      have step: "sse_rest n k line vs (b # bs) = line_reading line vs (\<lambda>vs. sse_rest (Suc n) (b = CR) [] vs bs)"
      proof -
        have "(k \<and> b = LF) = False" using line(2) by simp
        then show ?thesis by (simp only: rest_step [OF n] if_False body_line [OF line(1)] rest_body)
      qed
      have "sse_mid (Suc n) False line vs ?d" using mid n by (simp add: sse_mid_def)
      then show ?thesis
      proof (cases rule: process_line_reading [where out = out])
        case (go items ws d')
        with byte have "push_byte dec out b = (d'\<lparr>skip_lf_after_cr := (b = CR)\<rparr>, out @ items, None)" by simp
        from push_bytes_next [OF nd this] Cons.IH [OF go(2)] show ?thesis by (simp add: step go(3) del: push_bytes.simps)
      next
        case (stop items d')
        with byte have "push_byte dec out b = (d'\<lparr>skip_lf_after_cr := (b = CR)\<rparr>, out @ items, None)" by simp
        from push_bytes_next [OF nd this] stop show ?thesis
          by (simp add: step push_bytes_done sse_outputs_def del: push_bytes.simps)
      next
        case (fail d' e)
        with byte have "sse_outputs (push_byte dec out b) = (out, Some e)" by (simp add: sse_outputs_def)
        from push_bytes_failed [OF nd this] fail show ?thesis by (simp add: step del: push_bytes.simps)
      qed
    qed
  qed
qed

text \<open>The start: a byte-order mark is dropped, and anything else that begins like one is read after all.\<close>

lemma rest_char:
  assumes "n < MAX_DEEPSEEK_RESPONSE_BYTES" and "b \<noteq> CR" and "b \<noteq> LF" and "length line < MAX_SSE_LINE_BYTES"
  shows "sse_rest n False line vs (b # bs) = sse_rest (Suc n) False (line @ [b]) vs bs"
  by (simp add: rest_step [OF assms(1)] assms body_char) (simp add: sse_rest_def)

lemma push_byte_decided:
  "bom_decided dec \<Longrightarrow> total_bytes dec = of_nat n \<Longrightarrow> n < MAX_DEEPSEEK_RESPONSE_BYTES \<Longrightarrow>
     push_byte dec out b = push_body_byte (dec\<lparr>total_bytes := of_nat (Suc n)\<rparr>) out b"
  using count_byte [of n] by (simp add: push_byte_def Let_def del: of_nat_Suc)

lemma body_byte_char: "b \<noteq> CR \<Longrightarrow> b \<noteq> LF \<Longrightarrow> length (sse_line dec) < MAX_SSE_LINE_BYTES \<Longrightarrow>
    push_body_byte dec out b = (dec\<lparr>skip_lf_after_cr := False, sse_line := sse_line dec @ [b]\<rparr>, out, None)"
  by (simp add: push_body_byte_def Let_def)

definition bom_1 :: char where "bom_1 = char_of (239 :: nat)"
definition bom_2 :: char where "bom_2 = char_of (187 :: nat)"
definition bom_3 :: char where "bom_3 = char_of (191 :: nat)"

lemma bom_bytes: "UTF8_BOM = [bom_1, bom_2, bom_3]" "bom_1 \<noteq> CR" "bom_1 \<noteq> LF" "bom_2 \<noteq> CR" "bom_2 \<noteq> LF"
  by code_simp+

lemma bom_prefixes:
  "starts_with [b] UTF8_BOM \<longleftrightarrow> b = bom_1" "starts_with [bom_1, b] UTF8_BOM \<longleftrightarrow> b = bom_2"
  "starts_with UTF8_BOM s \<longleftrightarrow> (\<exists>r. s = bom_1 # bom_2 # bom_3 # r)"
  by (auto simp: starts_with_iff bom_bytes(1))

text \<open>The decoder after the bytes \<open>p\<close>, which may still be the start of a byte-order mark, and the same
  decoder once it has decided that they are not.\<close>

definition bom_pending :: "string \<Rightarrow> SseDecoder" where
  "bom_pending p = sse_default\<lparr>bom_prefix := p, total_bytes := of_nat (length p)\<rparr>"

definition bom_refused :: "string \<Rightarrow> SseDecoder" where
  "bom_refused p = (between_events (length p))\<lparr>sse_line := p\<rparr>"

lemma line_limits: "3 < MAX_SSE_LINE_BYTES" "3 < MAX_DEEPSEEK_RESPONSE_BYTES"
  by (simp_all add: MAX_SSE_LINE_BYTES_def MAX_DEEPSEEK_RESPONSE_BYTES_def)

lemma push_refused:
  assumes p: "p \<in> {[], [bom_1], [bom_1, bom_2]}" and no: "\<not> starts_with (p @ [b]) UTF8_BOM"
  shows "push_byte (bom_pending p) out b = push_byte (bom_refused p) out b"
proof -
  let ?n = "length p"
  have n: "?n < MAX_DEEPSEEK_RESPONSE_BYTES" using p line_limits by auto
  have "p @ [b] \<noteq> UTF8_BOM" using no by (metis append_Nil2 starts_with_iff)
  then have "push_byte (bom_pending p) out b
      = push_body_bytes ((bom_pending p)\<lparr>total_bytes := of_nat (Suc ?n), bom_decided := True, bom_prefix := []\<rparr>) out (p @ [b])"
    using no count_byte [OF n] by (simp add: push_byte_def bom_pending_def sse_default_def Let_def del: of_nat_Suc)
  also have "\<dots> = push_body_byte ((bom_refused p)\<lparr>total_bytes := of_nat (Suc ?n)\<rparr>) out b"
    using p line_limits(1)
    by (auto simp: body_byte_char bom_bytes bom_pending_def bom_refused_def between_events_def sse_default_def
        simp del: of_nat_Suc split: prod.splits option.splits)
  also have "\<dots> = push_byte (bom_refused p) out b"
    by (rule push_byte_decided [symmetric]) (simp_all add: bom_refused_def between_events_def n)
  finally show ?thesis .
qed

lemma push_pending:
  "push_byte (bom_pending []) out bom_1 = (bom_pending [bom_1], out, None)"
  "push_byte (bom_pending [bom_1]) out bom_2 = (bom_pending [bom_1, bom_2], out, None)"
  "push_byte (bom_pending [bom_1, bom_2]) out bom_3 = (between_events 3, out, None)"
  using count_byte [of 0] count_byte [of 1] count_byte [of 2] line_limits(2) bom_prefixes(3) [of "[bom_1, bom_2, bom_3]"]
  by (simp_all add: push_byte_def bom_pending_def sse_default_def between_events_def bom_bytes(1) bom_prefixes(1,2)
      [unfolded bom_bytes(1)] Let_def)

lemma refused_reading:
  assumes "p \<in> {[], [bom_1], [bom_1, bom_2]}"
  shows "sse_mid (length p) False p [] (bom_refused p)" and "sse_rest (length p) False p [] bs = sse_rest 0 False [] [] (p @ bs)"
  using assms line_limits
  by (auto simp: sse_mid_def bom_refused_def between_events_def sse_default_def rest_char bom_bytes numeral_2_eq_2)

lemma pending_reading:
  assumes p: "p \<in> {[], [bom_1], [bom_1, bom_2]}" and no: "\<And>b bs'. bs = b # bs' \<Longrightarrow> \<not> starts_with (p @ [b]) UTF8_BOM"
  shows "sse_outputs (push_bytes (bom_pending p) [] bs) = sse_rest 0 False [] [] (p @ bs)"
proof (cases bs)
  case Nil
  then show ?thesis
    using refused_reading(2) [OF p, of "[]"] by (simp add: rest_empty sse_outputs_def)
next
  case (Cons b bs')
  have "\<not> sse_done (bom_pending p)" "\<not> sse_done (bom_refused p)"
    by (simp_all add: bom_pending_def bom_refused_def between_events_def sse_default_def)
  then have "push_bytes (bom_pending p) [] bs = push_bytes (bom_refused p) [] bs"
    using push_refused [OF p no [OF Cons]] Cons by simp
  with push_bytes_rest [OF refused_reading(1) [OF p]] refused_reading(2) [OF p] show ?thesis by simp
qed

lemma push_bytes_response: "sse_outputs (push_bytes sse_default [] bs) = sse_response bs"
proof -
  have start: "sse_default = bom_pending []" by (simp add: bom_pending_def sse_default_def)
  have nd: "\<not> sse_done (bom_pending p)" for p by (simp add: bom_pending_def sse_default_def)
  have mid: "sse_mid 3 False [] [] (between_events 3)"
    using line_limits by (simp add: sse_mid_def between_events_def sse_default_def)
  consider (bom) r where "bs = bom_1 # bom_2 # bom_3 # r" | (two) r where "bs = bom_1 # bom_2 # r" "\<And>s. r \<noteq> bom_3 # s"
    | (one) r where "bs = bom_1 # r" "\<And>s. r \<noteq> bom_2 # s" | (zero) "\<And>s. bs \<noteq> bom_1 # s"
    by metis
  then show ?thesis
  proof cases
    case bom
    then have "push_bytes sse_default [] bs = push_bytes (between_events 3) [] r"
      by (simp add: start push_bytes_next [OF nd push_pending(1)] push_bytes_next [OF nd push_pending(2)]
          push_bytes_next [OF nd push_pending(3)] del: push_bytes.simps)
    with push_bytes_rest [OF mid, of "[]" r] bom show ?thesis by (simp add: sse_response_def bom_prefixes)
  next
    case two
    then have "push_bytes sse_default [] bs = push_bytes (bom_pending [bom_1, bom_2]) [] r"
      by (simp add: start push_bytes_next [OF nd push_pending(1)] push_bytes_next [OF nd push_pending(2)] del: push_bytes.simps)
    moreover have "sse_outputs (push_bytes (bom_pending [bom_1, bom_2]) [] r) = sse_rest 0 False [] [] ([bom_1, bom_2] @ r)"
      by (rule pending_reading) (use two in \<open>auto simp: starts_with_iff bom_bytes(1)\<close>)
    ultimately show ?thesis using two by (simp add: sse_response_def bom_prefixes)
  next
    case one
    then have "push_bytes sse_default [] bs = push_bytes (bom_pending [bom_1]) [] r"
      by (simp add: start push_bytes_next [OF nd push_pending(1)] del: push_bytes.simps)
    moreover have "sse_outputs (push_bytes (bom_pending [bom_1]) [] r) = sse_rest 0 False [] [] ([bom_1] @ r)"
      by (rule pending_reading) (use one in \<open>auto simp: bom_prefixes\<close>)
    ultimately show ?thesis using one by (simp add: sse_response_def bom_prefixes)
  next
    case zero
    have "sse_outputs (push_bytes (bom_pending []) [] bs) = sse_rest 0 False [] [] ([] @ bs)"
      by (rule pending_reading) (use zero in \<open>auto simp: bom_prefixes\<close>)
    with zero show ?thesis by (simp add: start sse_response_def bom_prefixes)
  qed
qed

text \<open>C24
  A response is decoded as the standard reads it, however the network cuts it: the items and the
  failure of the decoder are exactly those of the reading of the whole response, which splits it into
  lines at CR LF, CR and LF, drops a byte-order mark, reports comments, ignores other fields, joins the
  data lines of an event with line feeds, decodes them leniently, dispatches at empty lines only, stops
  at the end sentinel, and fails at the three limits on the sizes of a line, an event and the response.\<close>

theorem sse_decodes_standard:
  "(case sse_feed sse_default chunks of (_, items, e) \<Rightarrow> (items, e)) = sse_response (concat chunks)"
  using push_bytes_response [of "concat chunks"] by (simp add: sse_feed_concat sse_push_def sse_outputs_def)

lemma response_bom: "sse_response (UTF8_BOM @ s) = sse_rest 3 False [] [] s"
  by (simp add: sse_response_def starts_with_iff bom_bytes(1))

text \<open>A mark, a comment and an event of two lines, each line with another end.\<close>

lemma sse_response_sample:
  "sse_response (UTF8_BOM @ '':'' @ [CR, LF] @ ''data: a'' @ [CR] @ ''data:b'' @ [LF, LF] @ ''x'')
     = ([Comment, Data (''a'' @ [LF] @ ''b'')], None)"
proof -
  let ?s = "'':'' @ [CR, LF] @ ''data: a'' @ [CR] @ ''data:b'' @ [LF, LF] @ ''x''"
  have small: "\<not> MAX_SSE_LINE_BYTES \<le> n" "\<not> MAX_SSE_EVENT_BYTES < n" "\<not> MAX_DEEPSEEK_RESPONSE_BYTES - 3 < n" if "n < 100" for n
    using that by (simp_all add: MAX_SSE_LINE_BYTES_def MAX_SSE_EVENT_BYTES_def MAX_DEEPSEEK_RESPONSE_BYTES_def)
  have lines: "sse_lines [] ?s = ('':'' # ''data: a'' # ''data:b'' # [] # [], False)"
    using line_limits(1) by (simp add: CR_def LF_def small drop_lf_def)
  have vals: "data_value ''data: a'' = Some ''a''" "data_value ''data:b'' = Some ''b''"
    by (simp_all add: data_value_def from_utf8_lossy_valid utf8_valid_ascii)
  have events: "sse_events [] ('':'' # ''data: a'' # ''data:b'' # [] # []) = ([Comment, Data (''a'' @ [LF] @ ''b'')], False, None)"
    by (simp add: vals small DONE_def) (simp add: MAX_SSE_EVENT_BYTES_def)
  have fits: "take (MAX_DEEPSEEK_RESPONSE_BYTES - 3) s = s" "(MAX_DEEPSEEK_RESPONSE_BYTES - 3 < length s) = False" if "length s < 100" for s :: string
    using small(3) [OF that] by simp_all
  have "length ?s < 100" by simp
  then have "sse_rest 3 False [] [] ?s = ([Comment, Data (''a'' @ [LF] @ ''b'')], None)"
    unfolding sse_rest_def Let_def if_False fits [OF \<open>length ?s < 100\<close>] sse_body_def lines prod.case events
    by (simp add: sse_end_def)
  then show ?thesis by (simp only: response_bom)
qed

end
