(* ===== verification/Llm.thy ===== *)
theory Llm
  imports Message Complex_Main
begin

text \<open>
  The provider-neutral vocabulary of model calls (\<open>src/model/llm.rs\<close>): failures, usage, stream
  chunks, tool schemas and call configurations, with the equality and validation the session core
  uses. A finite \<open>f64\<close> is modelled by its exact value, a \<open>rat\<close>; NaN and the infinities cannot
  enter these types. Parsers and constructors are in \<open>Llm_Build\<close>; resident-byte accounting is not modelled.
\<close>

section \<open>Data\<close>

type_synonym FiniteNumber = rat
type_synonym NonNegativeSafeInteger = u64

definition MAX_MESSAGE_CONTENT_BLOCKS :: nat where
  "MAX_MESSAGE_CONTENT_BLOCKS = 4096"

datatype RequestPurpose = Conversation | SessionTitlePurpose | CompactionPurpose

record LlmFailure =
  failure_message :: string
  failure_code :: string
  failure_status :: "16 word option"
  failure_retry_after_ms :: "FiniteNumber option"
  failure_request_id :: "string option"
  failure_raw :: json

datatype FinishReasonKind =
    FinishStop
  | FinishToolCalls
  | FinishMaxTokens
  | FinishAborted LlmFailure
  | FinishError LlmFailure
  | FinishOther string

record FinishReason =
  finish_kind :: FinishReasonKind
  finish_raw :: json

record TokenUsage =
  input_tokens :: NonNegativeSafeInteger
  output_tokens :: NonNegativeSafeInteger
  cache_read_tokens :: "NonNegativeSafeInteger option"
  cache_write_tokens :: "NonNegativeSafeInteger option"
  reasoning_tokens :: "NonNegativeSafeInteger option"
  usage_raw :: json

datatype ContentBlockType =
    TypeText
  | TypeReasoning
  | TypeImage
  | TypeToolCall
  | TypeToolResult
  | TypeOther string

datatype StreamChunkKind =
    BlockStart u64 ContentBlockType
  | TextDelta u64 string
  | ReasoningDelta u64 string
  | ToolCallDelta u64 call_id "string option" string
  | BlockEnd u64 ContentBlock
  | UsageChunk TokenUsage
  | Finish FinishReason "json option"
  | OtherChunk string

record StreamChunk =
  chunk_kind :: StreamChunkKind
  chunk_raw :: json

record ToolSchema =
  tool_name :: string
  tool_description :: string
  tool_parameters :: json
  tool_raw :: json

record LlmCallConfig =
  config_provider :: string
  config_model :: string
  config_reasoning_effort :: "string option"
  config_temperature :: "FiniteNumber option"
  config_max_tokens :: "NonNegativeSafeInteger option"
  config_stop :: "string list option"
  config_raw :: json

record LlmCallConfigAdapterDefaults =
  default_reasoning_effort :: bool
  default_max_tokens :: bool

section \<open>Call configurations\<close>

definition config_validate :: "LlmCallConfig \<Rightarrow> ModelError + unit" where
  "config_validate c =
     (if config_provider c = [] then Err EmptyProvider
      else if config_model c = [] then Err EmptyModel
      else if config_reasoning_effort c = Some [] then Err (EmptyOptionalId ''reasoningEffort'')
      else Ok ())"

definition config_equivalent :: "LlmCallConfig \<Rightarrow> LlmCallConfig \<Rightarrow> bool" where
  "config_equivalent a b \<longleftrightarrow>
     config_provider a = config_provider b
     \<and> config_model a = config_model b
     \<and> config_reasoning_effort a = config_reasoning_effort b
     \<and> config_temperature a = config_temperature b
     \<and> config_max_tokens a = config_max_tokens b
     \<and> config_stop a = config_stop b"

text \<open>Adapter defaults must refer to values the configuration has
  (\<open>EpochHeader::validate\<close>, \<open>PreparedCompactionCallSnapshot::validate\<close>).\<close>

definition validate_adapter_defaults ::
    "LlmCallConfigAdapterDefaults \<Rightarrow> LlmCallConfig \<Rightarrow> ModelError + unit" where
  "validate_adapter_defaults d c =
     (if default_reasoning_effort d \<and> config_reasoning_effort c = None
      then Err (InvalidAdapterDefault ''reasoningEffort'')
      else if default_max_tokens d \<and> config_max_tokens c = None
      then Err (InvalidAdapterDefault ''maxTokens'')
      else Ok ())"

lemma config_equivalent_refl: "config_equivalent a a"
  by (simp add: config_equivalent_def)

lemma config_equivalent_sym: "config_equivalent a b \<Longrightarrow> config_equivalent b a"
  by (simp add: config_equivalent_def)

lemma config_equivalent_trans:
  "config_equivalent a b \<Longrightarrow> config_equivalent b c \<Longrightarrow> config_equivalent a c"
  by (simp add: config_equivalent_def)

end
