(* ===== verification/Stream.thy ===== *)
theory Stream
  imports Llm "HOL-Library.AList"
begin

text \<open>
  The grammar of one provider stream (\<open>src/model/stream.rs\<close>): \<open>StreamValidator\<close> prepares a
  transition for a chunk and commits it later; a run of accepted chunks is a sequence of both.
  Hash tables are association lists with one entry per key. Reserving memory is assumed to succeed.
\<close>

section \<open>The validator\<close>

definition MAX_PROVIDER_STREAM_CHUNKS :: nat where
  "MAX_PROVIDER_STREAM_CHUNKS = 4000"

datatype StreamProtocolError =
    ReusedBlockIndex u64
  | DeltaWithoutMatchingBlock u64 string string
  | BlockEndWithoutStart u64
  | BlockEndTypeMismatch u64 string string
  | DuplicateUsage
  | SuccessfulFinishWithOpenBlocks nat
  | UnknownLiveChunk string
  | ChunkAfterFinish string
  | MissingFinish
  | TooManyChunks nat

record StreamValidator =
  stream_open :: "(u64 \<times> ContentBlockType) list"
  stream_seen :: "u64 list"
  usage_seen :: bool
  stream_finished :: bool
  chunk_count :: nat

definition stream_default :: StreamValidator where
  "stream_default = \<lparr>stream_open = [], stream_seen = [], usage_seen = False,
     stream_finished = False, chunk_count = 0\<rparr>"

datatype PreparedStreamTransition =
    StreamContinue
  | StreamBlockStart u64 ContentBlockType
  | StreamBlockEnd u64
  | StreamUsage
  | StreamFinish

fun type_name :: "ContentBlockType \<Rightarrow> string" where
  "type_name TypeText = ''text''"
| "type_name TypeReasoning = ''reasoning''"
| "type_name TypeImage = ''image''"
| "type_name TypeToolCall = ''tool-call''"
| "type_name TypeToolResult = ''tool-result''"
| "type_name (TypeOther v) = v"

fun block_type :: "ContentBlockKind \<Rightarrow> ContentBlockType" where
  "block_type (Text _) = TypeText"
| "block_type (Reasoning _) = TypeReasoning"
| "block_type (Image _) = TypeImage"
| "block_type (ToolCallBlock _ _ _) = TypeToolCall"
| "block_type (ToolResultBlock _ _) = TypeToolResult"
| "block_type (OtherBlock t) = TypeOther (case t of None \<Rightarrow> [] | Some s \<Rightarrow> s)"

fun chunk_type :: "StreamChunkKind \<Rightarrow> string" where
  "chunk_type (BlockStart _ _) = ''block-start''"
| "chunk_type (TextDelta _ _) = ''text-delta''"
| "chunk_type (ReasoningDelta _ _) = ''reasoning-delta''"
| "chunk_type (ToolCallDelta _ _ _ _) = ''tool-call-delta''"
| "chunk_type (BlockEnd _ _) = ''block-end''"
| "chunk_type (UsageChunk _) = ''usage''"
| "chunk_type (Finish _ _) = ''finish''"
| "chunk_type (OtherChunk t) = t"

fun is_finish :: "StreamChunkKind \<Rightarrow> bool" where
  "is_finish (Finish _ _) = True"
| "is_finish _ = False"

fun is_failed_reason :: "FinishReasonKind \<Rightarrow> bool" where
  "is_failed_reason (FinishAborted _) = True"
| "is_failed_reason (FinishError _) = True"
| "is_failed_reason _ = False"

definition require_open ::
    "StreamValidator \<Rightarrow> u64 \<Rightarrow> ContentBlockType \<Rightarrow> StreamProtocolError + unit" where
  "require_open v i expected =
     (if map_of (stream_open v) i = Some expected then Ok ()
      else Err (DeltaWithoutMatchingBlock i (type_name expected)
        (case map_of (stream_open v) i of None \<Rightarrow> ''none'' | Some t \<Rightarrow> type_name t)))"

fun prepare_kind :: "StreamValidator \<Rightarrow> StreamChunkKind \<Rightarrow> StreamProtocolError + PreparedStreamTransition" where
  "prepare_kind v (BlockStart i t) =
     (if i \<in> set (stream_seen v) then Err (ReusedBlockIndex i) else Ok (StreamBlockStart i t))"
| "prepare_kind v (TextDelta i _) =
     and_then (require_open v i TypeText) (\<lambda>_. Ok StreamContinue)"
| "prepare_kind v (ReasoningDelta i _) =
     and_then (require_open v i TypeReasoning) (\<lambda>_. Ok StreamContinue)"
| "prepare_kind v (ToolCallDelta i _ _ _) =
     and_then (require_open v i TypeToolCall) (\<lambda>_. Ok StreamContinue)"
| "prepare_kind v (BlockEnd i b) =
     and_then (ok_or (map_of (stream_open v) i) (BlockEndWithoutStart i)) (\<lambda>expected.
       if expected \<noteq> block_type (block_kind b)
       then Err (BlockEndTypeMismatch i (type_name expected) (type_name (block_type (block_kind b))))
       else Ok (StreamBlockEnd i))"
| "prepare_kind v (UsageChunk _) =
     (if usage_seen v then Err DuplicateUsage else Ok StreamUsage)"
| "prepare_kind v (Finish r _) =
     (if \<not> is_failed_reason (finish_kind r) \<and> stream_open v \<noteq> []
      then Err (SuccessfulFinishWithOpenBlocks (length (stream_open v)))
      else Ok StreamFinish)"
| "prepare_kind v (OtherChunk t) = Err (UnknownLiveChunk t)"

definition stream_prepare ::
    "StreamValidator \<Rightarrow> StreamChunk \<Rightarrow> StreamProtocolError + PreparedStreamTransition" where
  "stream_prepare v c =
     (if stream_finished v then Err (ChunkAfterFinish (chunk_type (chunk_kind c)))
      else if chunk_count v = MAX_PROVIDER_STREAM_CHUNKS
        \<or> (chunk_count v + 1 = MAX_PROVIDER_STREAM_CHUNKS \<and> \<not> is_finish (chunk_kind c))
      then Err (TooManyChunks MAX_PROVIDER_STREAM_CHUNKS)
      else prepare_kind v (chunk_kind c))"

fun commit_kind :: "StreamValidator \<Rightarrow> PreparedStreamTransition \<Rightarrow> StreamValidator" where
  "commit_kind v StreamContinue = v"
| "commit_kind v (StreamBlockStart i t) =
     v\<lparr>stream_seen := List.insert i (stream_seen v),
       stream_open := AList.update i t (stream_open v)\<rparr>"
| "commit_kind v (StreamBlockEnd i) = v\<lparr>stream_open := AList.delete i (stream_open v)\<rparr>"
| "commit_kind v StreamUsage = v\<lparr>usage_seen := True\<rparr>"
| "commit_kind v StreamFinish = v\<lparr>stream_finished := True\<rparr>"

definition stream_commit :: "StreamValidator \<Rightarrow> PreparedStreamTransition \<Rightarrow> StreamValidator" where
  "stream_commit v p = (let w = commit_kind v p in w\<lparr>chunk_count := chunk_count w + 1\<rparr>)"

definition stream_accept :: "StreamValidator \<Rightarrow> StreamChunk \<Rightarrow> StreamProtocolError + StreamValidator" where
  "stream_accept v c = and_then (stream_prepare v c) (\<lambda>p. Ok (stream_commit v p))"

definition stream_complete :: "StreamValidator \<Rightarrow> StreamProtocolError + unit" where
  "stream_complete v = (if stream_finished v then Ok () else Err MissingFinish)"

section \<open>What an accepted stream looks like\<close>

fun is_usage :: "StreamChunkKind \<Rightarrow> bool" where
  "is_usage (UsageChunk _) = True"
| "is_usage _ = False"

text \<open>The reference reading of a prefix: which blocks are open after it.\<close>

fun open_after :: "StreamChunkKind list \<Rightarrow> u64 \<Rightarrow> ContentBlockType option" where
  "open_after [] i = None"
| "open_after (k # ks) i =
     (case k of
        BlockStart j t \<Rightarrow> if i = j then Some t else open_after ks i
      | BlockEnd j _ \<Rightarrow> if i = j then None else open_after ks i
      | _ \<Rightarrow> open_after ks i)"

text \<open>The grammar, newest chunk first.\<close>

fun chunk_allowed :: "StreamChunkKind list \<Rightarrow> StreamChunkKind \<Rightarrow> bool" where
  "chunk_allowed ks (BlockStart i _) = (\<forall>t. BlockStart i t \<notin> set ks)"
| "chunk_allowed ks (TextDelta i _) = (open_after ks i = Some TypeText)"
| "chunk_allowed ks (ReasoningDelta i _) = (open_after ks i = Some TypeReasoning)"
| "chunk_allowed ks (ToolCallDelta i _ _ _) = (open_after ks i = Some TypeToolCall)"
| "chunk_allowed ks (BlockEnd i b) = (open_after ks i = Some (block_type (block_kind b)))"
| "chunk_allowed ks (UsageChunk _) = (\<not> list_ex is_usage ks)"
| "chunk_allowed ks (Finish r _) = (is_failed_reason (finish_kind r) \<or> (\<forall>i. open_after ks i = None))"
| "chunk_allowed ks (OtherChunk _) = False"

fun stream_grammar :: "StreamChunkKind list \<Rightarrow> bool" where
  "stream_grammar [] = True"
| "stream_grammar (k # ks) =
     (stream_grammar ks \<and> \<not> list_ex is_finish ks \<and> chunk_allowed ks k
      \<and> length ks < MAX_PROVIDER_STREAM_CHUNKS
      \<and> (Suc (length ks) = MAX_PROVIDER_STREAM_CHUNKS \<longrightarrow> is_finish k))"

text \<open>The validator's state is determined by the chunks it accepted.\<close>

definition validator_reads :: "StreamValidator \<Rightarrow> StreamChunkKind list \<Rightarrow> bool" where
  "validator_reads v ks \<longleftrightarrow>
     map_of (stream_open v) = open_after ks
     \<and> (\<forall>i. i \<in> set (stream_seen v) \<longleftrightarrow> (\<exists>t. BlockStart i t \<in> set ks))
     \<and> usage_seen v = list_ex is_usage ks
     \<and> stream_finished v = list_ex is_finish ks
     \<and> chunk_count v = length ks"

lemma validator_reads_default: "validator_reads stream_default []"
  by (simp add: validator_reads_def stream_default_def fun_eq_iff)

lemma require_open_Inr: "require_open v i t = Inr u \<longleftrightarrow> map_of (stream_open v) i = Some t"
  by (auto simp: require_open_def)

lemma open_empty: "m = [] \<longleftrightarrow> (\<forall>i. map_of m i = None)"
  by (cases m) auto

lemma prepare_kind_allowed:
  assumes "validator_reads v ks"
  shows "(\<exists>p. prepare_kind v k = Inr p) \<longleftrightarrow> chunk_allowed ks k"
proof -
  have "stream_open v = [] \<longleftrightarrow> (\<forall>i. open_after ks i = None)"
    using assms by (simp add: open_empty [of "stream_open v"] validator_reads_def)
  with assms show ?thesis
    by (cases k) (auto simp: validator_reads_def result_simps require_open_Inr)
qed

lemma stream_accept_reads:
  assumes "validator_reads v ks" and "stream_accept v c = Inr w"
  shows "validator_reads w (chunk_kind c # ks)"
proof -
  from assms(2) obtain p where p: "prepare_kind v (chunk_kind c) = Inr p" and w: "w = stream_commit v p"
    by (auto simp: stream_accept_def stream_prepare_def result_simps split: if_splits)
  from assms(1) p show ?thesis
    unfolding w
    by (cases "chunk_kind c")
      (auto simp: validator_reads_def stream_commit_def result_simps require_open_Inr Let_def
        update_conv' delete_conv' fun_eq_iff split: if_splits)
qed

lemma stream_accept_iff:
  assumes "validator_reads v ks" and "stream_grammar ks"
  shows "(\<exists>w. stream_accept v c = Inr w) \<longleftrightarrow> stream_grammar (chunk_kind c # ks)"
proof -
  have "length ks \<le> MAX_PROVIDER_STREAM_CHUNKS"
    using assms(2) by (cases ks) simp_all
  then have "(\<exists>w. stream_accept v c = Inr w) \<longleftrightarrow> \<not> list_ex is_finish ks
      \<and> length ks < MAX_PROVIDER_STREAM_CHUNKS
      \<and> (Suc (length ks) = MAX_PROVIDER_STREAM_CHUNKS \<longrightarrow> is_finish (chunk_kind c))
      \<and> (\<exists>p. prepare_kind v (chunk_kind c) = Inr p)"
    using assms(1) by (auto simp: stream_accept_def stream_prepare_def result_simps validator_reads_def)
  with prepare_kind_allowed [OF assms(1)] assms(2) show ?thesis by auto
qed

lemma stream_grammar_tail: "stream_grammar (xs @ ks) \<Longrightarrow> stream_grammar ks"
  by (induction xs) simp_all

lemma run_stream_iff:
  assumes "validator_reads v ks" and "stream_grammar ks"
  shows "(\<exists>w. run stream_accept v cs = Inr w) \<longleftrightarrow> stream_grammar (rev (map chunk_kind cs) @ ks)"
  using assms
proof (induction cs arbitrary: v ks)
  case Nil
  then show ?case by simp
next
  case (Cons c cs)
  show ?case
  proof (cases "stream_accept v c")
    case (Inl e)
    then have "\<not> stream_grammar (chunk_kind c # ks)"
      using stream_accept_iff [OF Cons.prems, of c] by auto
    with Inl show ?thesis
      using stream_grammar_tail [of "rev (map chunk_kind cs)" "chunk_kind c # ks"]
      by (auto simp del: stream_grammar.simps)
  next
    case (Inr w)
    then have "stream_grammar (chunk_kind c # ks)"
      using stream_accept_iff [OF Cons.prems, of c] by blast
    with Cons.IH [OF stream_accept_reads [OF Cons.prems(1) Inr]] Inr show ?thesis by simp
  qed
qed

lemma run_stream_reads:
  assumes "validator_reads v ks" and "run stream_accept v cs = Inr w"
  shows "validator_reads w (rev (map chunk_kind cs) @ ks)"
  using assms
proof (induction cs arbitrary: v ks)
  case Nil
  then show ?case by simp
next
  case (Cons c cs)
  then obtain x where "stream_accept v c = Inr x" "run stream_accept x cs = Inr w"
    by (auto simp: result_simps)
  with Cons.IH [OF stream_accept_reads [OF Cons.prems(1)]] show ?case by simp
qed

text \<open>C25
  The incremental validator accepts exactly the provider streams of the grammar: no block index is
  used twice, every delta and every block end addresses an open block of its own type, usage comes
  at most once, nothing follows the finish, a successful finish leaves no block open, and at most
  4000 chunks are accepted, the last of them only if it is the finish. Such a stream is complete
  if and only if it contains a finish.\<close>

theorem stream_validator_exact:
  "(\<exists>v. run stream_accept stream_default cs = Ok v) \<longleftrightarrow> stream_grammar (rev (map chunk_kind cs))"
  using run_stream_iff [OF validator_reads_default, of cs] by simp

text \<open>The end of a stream is accepted exactly when the accepted chunks contain the finish: a stream
  that breaks off can never be taken for a complete one.\<close>

theorem stream_complete_iff:
  assumes "run stream_accept stream_default cs = Ok v"
  shows "stream_complete v = Ok () \<longleftrightarrow> cs \<noteq> [] \<and> is_finish (chunk_kind (last cs))"
proof -
  let ?ks = "rev (map chunk_kind cs)"
  have "stream_complete v = Ok () \<longleftrightarrow> list_ex is_finish ?ks"
    using run_stream_reads [OF validator_reads_default assms]
    by (simp add: stream_complete_def validator_reads_def)
  moreover have "stream_grammar ?ks"
    using assms run_stream_iff [OF validator_reads_default, of cs] by auto
  ultimately show ?thesis
    by (cases cs rule: rev_cases) simp_all
qed

theorem stream_complete_iff_witness:
  "\<exists>v. run stream_accept stream_default
        [\<lparr>chunk_kind = BlockStart 0 TypeText, chunk_raw = JNull\<rparr>,
         \<lparr>chunk_kind = TextDelta 0 ''hi'', chunk_raw = JNull\<rparr>] = Ok v \<and> stream_complete v \<noteq> Ok ()"
proof -
  let ?cs = "[\<lparr>chunk_kind = BlockStart 0 TypeText, chunk_raw = JNull\<rparr>,
         \<lparr>chunk_kind = TextDelta 0 ''hi'', chunk_raw = JNull\<rparr>]"
  have "\<exists>v. run stream_accept stream_default ?cs = Ok v"
    by (simp add: stream_accept_def stream_prepare_def stream_default_def stream_commit_def
        require_open_def MAX_PROVIDER_STREAM_CHUNKS_def)
  then obtain v where "run stream_accept stream_default ?cs = Ok v" ..
  with stream_complete_iff [OF this] show ?thesis by simp
qed

end
