(* ===== verification/Title.thy ===== *)
theory Title
  imports Utf8 Llm
begin

text \<open>
  Session titles (\<open>src/session/title.rs\<close>): the text captured from the first prompt, the
  normalisation that makes a title safe for logs and terminal rows, the fallback title, and the
  validation of the two title events. A \<open>char\<close> of Rust is modelled by its UTF-8 bytes, so an
  iterator over the characters of a string is a list of byte strings. Reserving memory is assumed
  to succeed.
\<close>

section \<open>Characters of a string\<close>

function utf8_chars :: "string \<Rightarrow> string list" where
  "utf8_chars s =
     (if s = [] then []
      else take (fst (utf8_step s)) s # utf8_chars (drop (fst (utf8_step s)) s))"
  by pat_completeness auto
termination
  by (relation "measure length") (simp_all add: utf8_step_decreases)

declare utf8_chars.simps [simp del]

definition is_utf8_char :: "string \<Rightarrow> bool" where
  "is_utf8_char c \<longleftrightarrow> c \<noteq> [] \<and> utf8_step c = (length c, True)"

definition SP :: string where
  "SP = '' ''"

definition ESC :: string where
  "ESC = utf8_bytes [27]"

definition CSI :: string where
  "CSI = utf8_bytes [194, 155]"

definition OSC :: string where
  "OSC = utf8_bytes [194, 157]"

definition is_whitespace_char :: "string \<Rightarrow> bool" where
  "is_whitespace_char c \<longleftrightarrow> c \<in> set whitespace_chars"

section \<open>Normalisation\<close>

definition FALLBACK_TITLE_MAX_WORDS :: nat where
  "FALLBACK_TITLE_MAX_WORDS = 5"

definition FALLBACK_TITLE_MAX_BYTES :: nat where
  "FALLBACK_TITLE_MAX_BYTES = 40"

definition PROVIDER_TITLE_MAX_BYTES :: nat where
  "PROVIDER_TITLE_MAX_BYTES = 80"

definition TITLE_INPUT_MAX_BYTES :: nat where
  "TITLE_INPUT_MAX_BYTES = 4096"

definition TITLE_OUTPUT_MAX_TOKENS :: u64 where
  "TITLE_OUTPUT_MAX_TOKENS = 64"

text \<open>The UTF-8 encodings of the characters that have no visible form.\<close>

definition invisible_chars :: "string list" where
  "invisible_chars = map utf8_bytes
     ([[194, 173], [205, 143], [216, 156], [225, 133, 159], [225, 133, 160], [225, 158, 180],
       [225, 158, 181], [225, 160, 142]]
      @ map (\<lambda>n. [226, 128, n]) ([139..<144] @ [170..<175])
      @ map (\<lambda>n. [226, 129, n]) [160..<176]
      @ [[227, 133, 164], [239, 187, 191], [239, 190, 160]])"

definition invisible :: "string \<Rightarrow> bool" where
  "invisible c \<longleftrightarrow> c \<in> set invisible_chars"

fun skip_csi :: "string list \<Rightarrow> string list" where
  "skip_csi [] = []"
| "skip_csi (c # cs) =
     (if (\<exists>b. c = [b] \<and> 64 \<le> (of_char b :: nat) \<and> (of_char b :: nat) \<le> 126) then cs else skip_csi cs)"

fun skip_osc :: "bool \<Rightarrow> string list \<Rightarrow> string list" where
  "skip_osc escaped [] = []"
| "skip_osc escaped (c # cs) =
     (if c = utf8_bytes [7] \<or> (escaped \<and> c = utf8_bytes [92]) then cs else skip_osc (c = ESC) cs)"

definition skip_sequence :: "string \<Rightarrow> string list \<Rightarrow> string list" where
  "skip_sequence kind cs =
     (if kind = ''['' \<or> kind = CSI then skip_csi cs
      else if kind = '']'' \<or> kind = OSC then skip_osc False cs
      else cs)"

definition skip_escape :: "string \<Rightarrow> string list \<Rightarrow> string list" where
  "skip_escape first cs =
     (if first = ESC then (case cs of [] \<Rightarrow> [] | kind # rest \<Rightarrow> skip_sequence kind rest)
      else skip_sequence first cs)"

definition starts_escape :: "string \<Rightarrow> bool" where
  "starts_escape c \<longleftrightarrow> c = ESC \<or> c = CSI \<or> c = OSC"

lemma skip_csi_length: "length (skip_csi cs) \<le> length cs"
  by (induction cs) auto

lemma skip_osc_length: "length (skip_osc e cs) \<le> length cs"
  by (induction cs arbitrary: e) (auto simp: le_Suc_eq)

lemma skip_sequence_length: "length (skip_sequence k cs) \<le> length cs"
  by (simp add: skip_sequence_def skip_csi_length skip_osc_length)

lemma skip_escape_length: "length (skip_escape c cs) \<le> length cs"
  by (auto simp: skip_escape_def skip_sequence_length le_SucI split: list.split)

text \<open>The loop over the characters: \<open>clean\<close> and \<open>pending_space\<close> are the loop's variables.\<close>

function clean_title :: "string list \<Rightarrow> string list \<Rightarrow> bool \<Rightarrow> string list" where
  "clean_title [] clean pending = clean"
| "clean_title (c # cs) clean pending =
     (if starts_escape c then clean_title (skip_escape c cs) clean pending
      else if invisible c \<or> (has_control c \<and> \<not> is_whitespace_char c) then clean_title cs clean pending
      else if is_whitespace_char c then clean_title cs clean (clean \<noteq> [])
      else clean_title cs (clean @ (if pending then [SP] else []) @ [c]) False)"
  by pat_completeness auto
termination
  by (relation "measure (length \<circ> fst)") (simp_all add: skip_escape_length le_imp_less_Suc)

definition pop_spaces :: "string \<Rightarrow> string" where
  "pop_spaces s = rev (dropWhile (\<lambda>c. c = CHR '' '') (rev s))"

definition normalize_title :: "string \<Rightarrow> nat \<Rightarrow> string option" where
  "normalize_title input maximum_bytes =
     (let clean = concat (clean_title (utf8_chars input) [] False);
          clean = (if length clean > maximum_bytes
                   then pop_spaces (take (floor_char_boundary clean (min maximum_bytes (length clean))) clean)
                   else clean)
      in if clean = [] then None else Some clean)"

text \<open>\<open>split_whitespace\<close>: the maximal runs of other characters.\<close>

fun split_whitespace :: "string list \<Rightarrow> string list \<Rightarrow> string list" where
  "split_whitespace [] word = (if word = [] then [] else [concat word])"
| "split_whitespace (c # cs) word =
     (if is_whitespace_char c
      then (if word = [] then [] else [concat word]) @ split_whitespace cs []
      else split_whitespace cs (word @ [c]))"

fun join_with :: "string \<Rightarrow> string list \<Rightarrow> string" where
  "join_with sep [] = []"
| "join_with sep [w] = w"
| "join_with sep (w # ws) = w @ sep @ join_with sep ws"

definition fallback_title :: "string \<Rightarrow> string option" where
  "fallback_title input = normalize_title
     (join_with SP (take FALLBACK_TITLE_MAX_WORDS (split_whitespace (utf8_chars input) [])))
     FALLBACK_TITLE_MAX_BYTES"

section \<open>The first prompt\<close>

text \<open>The loop over the message's blocks; a block past the limit ends it.\<close>

fun prompt_text :: "string \<Rightarrow> ContentBlock list \<Rightarrow> string" where
  "prompt_text acc [] = acc"
| "prompt_text acc (b # bs) = (case block_kind b of
      Text part \<Rightarrow>
        (let acc = (if acc \<noteq> [] \<and> length acc < TITLE_INPUT_MAX_BYTES then acc @ [CHR 0x0A] else acc);
             remaining = TITLE_INPUT_MAX_BYTES - length acc
         in if remaining = 0 then acc
            else let acc = acc @ take (floor_char_boundary part (min remaining (length part))) part
                 in if length acc = TITLE_INPUT_MAX_BYTES then acc else prompt_text acc bs)
    | _ \<Rightarrow> prompt_text acc bs)"

definition title_prompt_text :: "Message \<Rightarrow> string option" where
  "title_prompt_text m =
     (if source_kind (message_source m) \<noteq> SourceUser then None
      else let text = prompt_text [] (message_content m)
           in if trim text = [] then None else Some text)"

section \<open>Title events\<close>

type_synonym EventSeq = u64

definition MAX_SOURCE_EVENT_SEQS :: nat where
  "MAX_SOURCE_EVENT_SEQS = 4096"

datatype SessionTitleSource =
    TitleFallback
  | TitleProvider string "string option"
  | TitleUser

record SessionTitleEvent =
  title_text :: string
  title_message_seqs :: "EventSeq list"
  title_source :: SessionTitleSource

record SessionTitleRoute =
  title_route_provider :: string
  title_route_model :: string

record SessionTitleLlmRequestEvent =
  title_request_provider :: string
  title_request_seqs :: "EventSeq list"
  title_request_route :: SessionTitleRoute
  title_request_system :: string
  title_request_messages :: "Message list"
  title_request_max_tokens :: NonNegativeSafeInteger

text \<open>The error is the diagnostic text of \<open>InvalidTitleEvent\<close>.\<close>

fun strictly_increasing :: "EventSeq list \<Rightarrow> bool" where
  "strictly_increasing (a # b # xs) = (a < b \<and> strictly_increasing (b # xs))"
| "strictly_increasing _ = True"

definition valid_route_part :: "string \<Rightarrow> bool" where
  "valid_route_part v \<longleftrightarrow> v \<noteq> [] \<and> length v \<le> 1024 \<and> \<not> has_control v"

definition title_validate :: "SessionTitleEvent \<Rightarrow> string + unit" where
  "title_validate e =
     (if normalize_title (title_text e) PROVIDER_TITLE_MAX_BYTES \<noteq> Some (title_text e)
      then Err ''title must be canonical, non-empty, and at most 80 UTF-8 bytes''
      else if length (title_message_seqs e) > MAX_SOURCE_EVENT_SEQS
        \<or> \<not> strictly_increasing (title_message_seqs e)
      then Err ''messageSeqs must be a bounded strictly increasing sequence''
      else if title_source e \<noteq> TitleUser \<and> title_message_seqs e = []
      then Err ''automatic titles require at least one source message''
      else (case title_source e of
          TitleProvider provider model \<Rightarrow>
            if \<not> valid_route_part provider
              \<or> (case model of None \<Rightarrow> False | Some v \<Rightarrow> \<not> valid_route_part v)
            then Err ''provider title attribution is invalid'' else Ok ()
        | _ \<Rightarrow> Ok ()))"

definition title_route_new :: "string \<Rightarrow> string \<Rightarrow> string + SessionTitleRoute" where
  "title_route_new provider model =
     (if \<not> valid_route_part provider \<or> \<not> valid_route_part model then Err ''title route is invalid''
      else Ok \<lparr>title_route_provider = provider, title_route_model = model\<rparr>)"

definition title_request_validate :: "SessionTitleLlmRequestEvent \<Rightarrow> string + unit" where
  "title_request_validate e =
     (if \<not> valid_route_part (title_request_provider e) then Err ''title provider is invalid''
      else if title_request_seqs e = [] \<or> length (title_request_seqs e) > MAX_SOURCE_EVENT_SEQS
        \<or> \<not> strictly_increasing (title_request_seqs e)
      then Err ''title request sources are invalid''
      else if title_request_system e = [] \<or> length (title_request_system e) > 8 * 1024
        \<or> length (title_request_messages e) \<noteq> 1
      then Err ''title request shape is invalid''
      else if validate_user_event (hd (title_request_messages e)) \<noteq> Ok ()
        \<or> title_request_max_tokens e = 0 \<or> title_request_max_tokens e > TITLE_OUTPUT_MAX_TOKENS
      then Err ''title request payload is invalid''
      else Ok ())"

section \<open>Characters: lemmas\<close>

lemma utf8_step_take:
  assumes "snd (utf8_step s)"
  shows "utf8_step (take (fst (utf8_step s)) s) = utf8_step s"
proof (cases s)
  case (Cons b s')
  obtain n where n: "utf8_step (b # s') = (n, True)"
    using assms Cons by (cases "utf8_step s") simp
  have "0 < n" "utf8_step (b # take (n - 1) s') = (n, True)"
    using utf8_step_shape [OF n] by simp_all
  then show ?thesis unfolding Cons n by (cases n) simp_all
qed simp

lemma utf8_chars_Nil [simp]: "utf8_chars [] = []"
  by (simp add: utf8_chars.simps)

lemma utf8_chars_char:
  assumes "utf8_valid s" and "c \<in> set (utf8_chars s)"
  shows "is_utf8_char c"
  using assms
proof (induction s rule: utf8_chars.induct)
  case (1 s)
  show ?case
  proof (cases "s = []")
    case False
    with "1.prems"(1) have v: "snd (utf8_step s)" "utf8_valid (drop (fst (utf8_step s)) s)"
      by (simp_all add: utf8_valid.simps [of s] split: if_splits)
    have "is_utf8_char (take (fst (utf8_step s)) s)"
      using False v(1) utf8_step_pos [of s] utf8_step_le [of s] utf8_step_take [OF v(1)]
      by (simp add: is_utf8_char_def prod_eq_iff)
    with 1 False v show ?thesis by (auto simp: utf8_chars.simps [of s])
  qed (use 1 in simp)
qed

lemma utf8_chars_append:
  assumes "is_utf8_char c"
  shows "utf8_chars (c @ s) = c # utf8_chars s"
proof -
  have "utf8_step (c @ s) = (length c, True)"
    using assms utf8_step_append [of c s] by (simp add: is_utf8_char_def)
  with assms show ?thesis
    by (subst utf8_chars.simps) (simp add: is_utf8_char_def)
qed

lemma utf8_chars_concat: "list_all is_utf8_char cs \<Longrightarrow> utf8_chars (concat cs) = cs"
  by (induction cs) (simp_all add: utf8_chars_append)

lemma is_utf8_char_SP: "is_utf8_char SP"
  by (simp add: is_utf8_char_def SP_def)

text \<open>Only the first byte of a character is not a continuation byte.\<close>

lemma utf8_char_continuation:
  assumes "is_utf8_char (b # t)"
  shows "list_all is_continuation t"
proof -
  have "utf8_step (b # t) = (Suc (length t), True)"
    using assms by (simp add: is_utf8_char_def)
  from utf8_step_shape [OF this] show ?thesis by simp
qed

lemma utf8_lead_not_continuation: "utf8_lead n = Some a \<Longrightarrow> n < 128 \<or> 192 \<le> n"
  by (cases a) (auto simp: utf8_lead_def split: if_splits)

lemma utf8_char_head:
  assumes "is_utf8_char (b # t)"
  shows "\<not> is_continuation b"
proof (cases "utf8_lead (of_char b)")
  case None
  with assms have "(of_char b :: nat) < 128" by (simp add: is_utf8_char_def split: if_splits)
  then show ?thesis by (simp add: is_continuation_def)
next
  case (Some a)
  from utf8_lead_not_continuation [OF this] show ?thesis by (auto simp: is_continuation_def)
qed

lemma boundary_between_chars:
  assumes "list_all is_utf8_char cs" and "is_char_boundary (concat cs) i"
  shows "\<exists>k. i = length (concat (take k cs))"
  using assms
proof (induction cs arbitrary: i)
  case Nil
  then show ?case by (auto simp: is_char_boundary_def)
next
  case (Cons c cs)
  obtain b t where c: "c = b # t" using Cons.prems(1) by (cases c) (simp_all add: is_utf8_char_def)
  consider "i = 0" | "0 < i" "i < length c" | "length c \<le> i" by linarith
  then show ?case
  proof cases
    case 1
    then have "i = length (concat (take 0 (c # cs)))" by simp
    then show ?thesis ..
  next
    case 2
    have "list_all is_continuation t"
      using Cons.prems(1) c by (intro utf8_char_continuation [of b]) simp
    then have "is_continuation (c ! i)"
      using 2 c by (cases i) (simp_all add: list_all_length)
    with 2 Cons.prems(2) have False by (auto simp: is_char_boundary_def nth_append)
    then show ?thesis ..
  next
    case 3
    then have "is_char_boundary (concat cs) (i - length c)"
      using Cons.prems(2) by (auto simp: is_char_boundary_def nth_append)
    then obtain k where "i - length c = length (concat (take k cs))"
      using Cons by auto
    with 3 have "i = length (concat (take (Suc k) (c # cs)))" by simp
    then show ?thesis ..
  qed
qed

lemma floor_char_boundary_boundary: "is_char_boundary s (floor_char_boundary s n)"
  by (induction n) (simp_all add: is_char_boundary_def)

lemma floor_char_boundary_le: "floor_char_boundary s n \<le> n"
  by (induction n) (simp_all add: le_SucI)

lemma take_floor_char_boundary:
  assumes "list_all is_utf8_char cs"
  shows "\<exists>k. take (floor_char_boundary (concat cs) n) (concat cs) = concat (take k cs)"
proof -
  obtain k where "floor_char_boundary (concat cs) n = length (concat (take k cs))"
    using boundary_between_chars [OF assms floor_char_boundary_boundary] by blast
  moreover have "concat cs = concat (take k cs) @ concat (drop k cs)"
    by (metis append_take_drop_id concat_append)
  ultimately have "take (floor_char_boundary (concat cs) n) (concat cs) = concat (take k cs)"
    by (metis append_eq_conv_conj)
  then show ?thesis ..
qed

section \<open>Normalised titles are fixed points\<close>

definition title_char :: "string \<Rightarrow> bool" where
  "title_char c \<longleftrightarrow> is_utf8_char c \<and> \<not> starts_escape c \<and> \<not> invisible c \<and> \<not> has_control c
     \<and> \<not> is_whitespace_char c"

definition title_clean :: "string list \<Rightarrow> bool" where
  "title_clean cs \<longleftrightarrow> list_all (\<lambda>c. title_char c \<or> c = SP) cs \<and> (cs \<noteq> [] \<longrightarrow> hd cs \<noteq> SP)
     \<and> successively (\<lambda>a b. a \<noteq> SP \<or> b \<noteq> SP) cs"

definition title_normal :: "string list \<Rightarrow> bool" where
  "title_normal cs \<longleftrightarrow> title_clean cs \<and> (cs \<noteq> [] \<longrightarrow> last cs \<noteq> SP)"

lemma SP_facts: "is_whitespace_char SP" "\<not> starts_escape SP" "\<not> invisible SP" "\<not> has_control SP"
proof -
  have SP: "SP = utf8_bytes [32]" by code_simp
  then show "is_whitespace_char SP"
    unfolding is_whitespace_char_def whitespace_chars_def by simp
  show "\<not> starts_escape SP" by code_simp
  have "list_all (\<lambda>c. 2 \<le> length c) invisible_chars"
    by (simp add: invisible_chars_def utf8_bytes_def)
  then show "\<not> invisible SP" by (auto simp: invisible_def SP_def list_all_iff)
  show "\<not> has_control SP" by (simp add: SP_def)
qed

lemma title_char_not_SP: "title_char c \<Longrightarrow> c \<noteq> SP"
  using SP_facts(1) by (auto simp: title_char_def)

lemma title_clean_chars: "title_clean cs \<Longrightarrow> list_all is_utf8_char cs"
  by (auto simp: title_clean_def list_all_iff title_char_def is_utf8_char_SP)

lemma title_normal_Nil [simp]: "title_normal []"
  by (simp add: title_normal_def title_clean_def)

lemma title_normal_snoc:
  assumes "title_normal clean" and "pending \<longrightarrow> clean \<noteq> []" and "title_char c"
  shows "title_normal (clean @ (if pending then [SP] else []) @ [c])"
  using assms title_char_not_SP [OF assms(3)]
  by (auto simp: title_normal_def title_clean_def successively_append_iff hd_append)

lemma skip_csi_set: "set (skip_csi cs) \<subseteq> set cs"
  by (induction cs) auto

lemma skip_osc_set: "set (skip_osc e cs) \<subseteq> set cs"
  by (induction cs arbitrary: e) auto

lemma skip_sequence_set: "set (skip_sequence k cs) \<subseteq> set cs"
  by (simp add: skip_sequence_def skip_csi_set skip_osc_set)

lemma skip_escape_set: "set (skip_escape c cs) \<subseteq> set cs"
proof (cases "c = ESC")
  case True
  then show ?thesis
    using skip_sequence_set [of "hd cs" "tl cs"] by (cases cs) (auto simp: skip_escape_def)
next
  case False
  then show ?thesis by (simp add: skip_escape_def skip_sequence_set)
qed

lemma clean_title_normal:
  assumes "title_normal clean" and "pending \<longrightarrow> clean \<noteq> []" and "\<forall>c \<in> set cs. is_utf8_char c"
  shows "title_normal (clean_title cs clean pending)"
  using assms
proof (induction cs clean pending rule: clean_title.induct)
  case (1 clean pending)
  then show ?case by simp
next
  case (2 c cs clean pending)
  consider "starts_escape c"
    | "\<not> starts_escape c" "invisible c \<or> (has_control c \<and> \<not> is_whitespace_char c)"
    | "\<not> starts_escape c" "\<not> (invisible c \<or> (has_control c \<and> \<not> is_whitespace_char c))"
      "is_whitespace_char c"
    | "title_char c"
    using 2 by (auto simp: title_char_def)
  then show ?case
  proof cases
    case 1
    with 2 skip_escape_set [of c cs] show ?thesis by auto
  next
    case 2
    with "2.IH"(2) "2.prems" show ?thesis by simp
  next
    case 3
    with "2.IH"(3) "2.prems" show ?thesis by simp
  next
    case 4
    then have "\<not> starts_escape c" "\<not> (invisible c \<or> (has_control c \<and> \<not> is_whitespace_char c))"
        "\<not> is_whitespace_char c"
      by (simp_all add: title_char_def)
    with "2.IH"(4) "2.prems" title_normal_snoc [OF _ _ 4, of clean pending] show ?thesis by simp
  qed
qed

text \<open>Running the loop on a normal title gives it back.\<close>

lemma clean_title_fixed:
  assumes "title_normal (clean @ (if pending then [SP] else []) @ cs)" and "pending \<longrightarrow> clean \<noteq> []"
  shows "clean_title cs clean pending = clean @ (if pending then [SP] else []) @ cs"
  using assms
proof (induction cs arbitrary: clean pending)
  case Nil
  then show ?case by (cases pending) (simp_all add: title_normal_def)
next
  case (Cons c cs)
  show ?case
  proof (cases "c = SP")
    case True
    with Cons.prems have "\<not> pending" "clean \<noteq> []"
      by (auto simp: title_normal_def title_clean_def successively_append_iff)
    with True Cons SP_facts show ?thesis by simp
  next
    case False
    with Cons.prems have "title_char c"
      by (auto simp: title_normal_def title_clean_def)
    then have "clean_title (c # cs) clean pending =
        clean_title cs (clean @ (if pending then [SP] else []) @ [c]) False"
      by (simp add: title_char_def)
    also have "\<dots> = clean @ (if pending then [SP] else []) @ c # cs"
      using Cons.IH [of "clean @ (if pending then [SP] else []) @ [c]" False] Cons.prems by simp
    finally show ?thesis .
  qed
qed

lemma title_char_last:
  assumes "title_char c"
  shows "c \<noteq> [] \<and> last c \<noteq> CHR '' ''"
proof -
  obtain b t where c: "c = b # t" and u: "is_utf8_char (b # t)"
    using assms by (cases c) (simp_all add: title_char_def is_utf8_char_def)
  have "last t \<noteq> CHR '' ''" if "t \<noteq> []"
  proof -
    have "is_continuation (last t)"
      using utf8_char_continuation [OF u] that by (simp add: list_all_iff)
    moreover have "\<not> is_continuation CHR '' ''" by (simp add: is_continuation_def)
    ultimately show ?thesis by metis
  qed
  moreover have "t = [] \<Longrightarrow> b \<noteq> CHR '' ''"
    using title_char_not_SP [OF assms] c by (auto simp: SP_def)
  ultimately show ?thesis using c by auto
qed

lemma pop_spaces_id: "s = [] \<or> last s \<noteq> CHR '' '' \<Longrightarrow> pop_spaces s = s"
  by (cases s rule: rev_cases) (simp_all add: pop_spaces_def)

lemma pop_spaces_snoc: "pop_spaces (s @ SP) = pop_spaces s"
  by (simp add: pop_spaces_def SP_def)

lemma title_normal_last:
  assumes "title_normal cs"
  shows "concat cs = [] \<or> last (concat cs) \<noteq> CHR '' ''"
proof (cases cs rule: rev_cases)
  case (snoc xs c)
  with assms have "title_char c" by (auto simp: title_normal_def title_clean_def)
  from title_char_last [OF this] snoc show ?thesis by simp
qed simp

lemma title_clean_take: "title_clean cs \<Longrightarrow> title_clean (take k cs)"
  using successively_append_iff [of _ "take k cs" "drop k cs"]
  by (auto simp: title_clean_def list_all_iff dest: in_set_takeD)

lemma pop_spaces_clean:
  assumes "title_clean cs"
  shows "\<exists>ds. pop_spaces (concat cs) = concat ds \<and> title_normal ds"
proof (cases cs rule: rev_cases)
  case Nil
  then show ?thesis by (intro exI [of _ "[]"]) (simp add: pop_spaces_def)
next
  case (snoc xs c)
  show ?thesis
  proof (cases "c = SP")
    case False
    with snoc assms have "title_normal cs" by (simp add: title_normal_def)
    with title_normal_last [OF this] show ?thesis by (auto simp: pop_spaces_id)
  next
    case True
    have "title_normal xs"
      using assms snoc True title_clean_take [of cs "length xs"]
      by (auto simp: title_normal_def title_clean_def successively_append_iff)
    with title_normal_last [OF this] snoc True show ?thesis
      by (auto simp: pop_spaces_snoc pop_spaces_id)
  qed
qed

lemma pop_spaces_length: "length (pop_spaces s) \<le> length s"
  using length_dropWhile_le [of _ "rev s"] by (simp add: pop_spaces_def)

lemma normalize_title_normal:
  assumes "utf8_valid s" and "normalize_title s n = Some t"
  shows "\<exists>cs. t = concat cs \<and> title_normal cs \<and> length t \<le> n \<and> t \<noteq> []"
proof -
  let ?cs = "clean_title (utf8_chars s) [] False"
  have normal: "title_normal ?cs"
    using assms(1) by (intro clean_title_normal) (auto intro: utf8_chars_char)
  then have clean: "title_clean ?cs" by (simp add: title_normal_def)
  show ?thesis
  proof (cases "length (concat ?cs) > n")
    case False
    with assms(2) have "t = concat ?cs" "t \<noteq> []" "length t \<le> n"
      by (auto simp: normalize_title_def Let_def simp del: concat_eq_Nil_conv split: if_splits)
    with normal show ?thesis by blast
  next
    case True
    let ?cut = "take (floor_char_boundary (concat ?cs) n) (concat ?cs)"
    obtain k where k: "?cut = concat (take k ?cs)"
      using take_floor_char_boundary [OF title_clean_chars [OF clean]] by blast
    obtain ds where ds: "pop_spaces ?cut = concat ds" "title_normal ds"
      using pop_spaces_clean [OF title_clean_take [OF clean]] k by metis
    have t: "t = pop_spaces ?cut" "t \<noteq> []"
      using assms(2) True by (auto simp: normalize_title_def Let_def min_def split: if_splits)
    have "length t \<le> n"
      using pop_spaces_length [of ?cut] floor_char_boundary_le [of "concat ?cs" n] t(1) by simp
    with t ds show ?thesis by auto
  qed
qed

lemma normalize_title_fixed:
  assumes "title_normal cs" and "concat cs \<noteq> []" and "length (concat cs) \<le> n"
  shows "normalize_title (concat cs) n = Some (concat cs)"
proof -
  have "utf8_chars (concat cs) = cs"
    using assms(1) by (simp add: utf8_chars_concat title_clean_chars title_normal_def)
  moreover have "clean_title cs [] False = cs"
    using clean_title_fixed [of "[]" False cs] assms(1) by simp
  ultimately show ?thesis
    using assms(2,3) by (simp add: normalize_title_def)
qed

lemma has_control_append:
  "a = [] \<or> (of_char (last a) :: nat) \<noteq> 194 \<Longrightarrow> has_control (a @ b) \<longleftrightarrow> has_control a \<or> has_control b"
proof (induction a)
  case (Cons c a)
  then show ?case by (cases a) (auto split: list.splits)
qed simp

lemma utf8_char_last:
  assumes "is_utf8_char c"
  shows "(of_char (last c) :: nat) \<noteq> 194"
proof -
  obtain b t where c: "c = b # t" using assms by (cases c) (simp_all add: is_utf8_char_def)
  show ?thesis
  proof (cases "t = []")
    case True
    with assms c show ?thesis
      by (auto simp: is_utf8_char_def utf8_lead_def split: if_splits option.splits)
  next
    case False
    then have "is_continuation (last c)"
      using utf8_char_continuation [of b t] assms c by (simp add: list_all_iff)
    then show ?thesis by (simp add: is_continuation_def Let_def)
  qed
qed

lemma has_control_concat:
  "list_all is_utf8_char cs \<Longrightarrow> has_control (concat cs) \<longleftrightarrow> list_ex has_control cs"
  by (induction cs) (simp_all add: has_control_append utf8_char_last)

lemma title_normal_no_control:
  assumes "title_normal cs"
  shows "\<not> has_control (concat cs)"
proof -
  have clean: "title_clean cs" using assms by (simp add: title_normal_def)
  then have "list_all is_utf8_char cs" by (rule title_clean_chars)
  moreover have "\<not> list_ex has_control cs"
    using clean SP_facts(4) by (auto simp: list_ex_iff title_clean_def title_char_def list_all_iff)
  ultimately show ?thesis by (simp add: has_control_concat)
qed

text \<open>Graphic ASCII characters stay.\<close>

lemma title_char_graphic:
  assumes "is_ascii_graphic b"
  shows "title_char [b]"
proof -
  have n: "32 < (of_char b :: nat)" "(of_char b :: nat) < 127"
    using assms by (simp_all add: is_ascii_graphic_def Let_def)
  have "list_all (\<lambda>c. 2 \<le> length c) invisible_chars"
    by (simp add: invisible_chars_def utf8_bytes_def)
  then have "\<not> invisible [b]" by (auto simp: invisible_def list_all_iff)
  moreover have "\<not> is_whitespace_char [b]"
    using whitespace_bytes assms by (auto simp: is_whitespace_char_def list_all_iff)
  moreover have "\<not> starts_escape [b]"
    using n by (auto simp: starts_escape_def ESC_def CSI_def OSC_def utf8_bytes_def)
  moreover have "\<not> has_control [b]" "is_utf8_char [b]"
    using n by (simp_all add: is_utf8_char_def)
  ultimately show ?thesis by (simp add: title_char_def)
qed

lemma utf8_valid_concat: "list_all is_utf8_char cs \<Longrightarrow> utf8_valid (concat cs)"
proof (induction cs)
  case (Cons c cs)
  then have "utf8_step (c @ concat cs) = (length c, True)"
    using utf8_step_append [of c "concat cs"] by (simp add: is_utf8_char_def)
  with Cons show ?case by (simp add: utf8_valid.simps [of "c @ concat cs"] is_utf8_char_def)
qed simp

text \<open>C26
  Normalising a title is a projection: for every well-formed input the result is a fixed point of
  the same normalisation under any limit at least as large, it is never empty, it fits the limit
  it was cut to, and it contains no control character, so neither a log line nor a terminal row
  can be broken by it.\<close>

theorem normalize_title_canonical:
  assumes "utf8_valid input" and "normalize_title input n = Some t" and "n \<le> m"
  shows "normalize_title t m = Some t \<and> t \<noteq> [] \<and> length t \<le> n \<and> \<not> has_control t"
proof -
  obtain cs where cs: "t = concat cs" "title_normal cs" "length t \<le> n" "t \<noteq> []"
    using normalize_title_normal [OF assms(1,2)] by blast
  with assms(3) show ?thesis
    using normalize_title_fixed [of cs m] title_normal_no_control [of cs] by simp
qed

theorem normalize_title_canonical_witness:
  "\<exists>t. normalize_title ''Fix it'' 40 = Some t \<and> normalize_title t 80 = Some t \<and> length t \<le> 40"
proof -
  have "title_normal [''F'', ''i'', ''x'', SP, ''i'', ''t'']"
    using title_char_not_SP
    by (simp add: title_normal_def title_clean_def title_char_graphic is_ascii_graphic_def SP_def)
  from normalize_title_fixed [OF this, of 40]
  have 1: "normalize_title ''Fix it'' 40 = Some ''Fix it''" by (simp add: SP_def)
  have 2: "utf8_valid ''Fix it''" by (simp add: utf8_valid_ascii)
  from normalize_title_canonical [OF 2 1, of 80] 1 show ?thesis by simp
qed

section \<open>The fallback title\<close>

lemma split_whitespace_chars:
  assumes "list_all is_utf8_char cs" and "list_all is_utf8_char word"
    and "w \<in> set (split_whitespace cs word)"
  shows "\<exists>ds. w = concat ds \<and> list_all is_utf8_char ds"
  using assms
proof (induction cs word rule: split_whitespace.induct)
  case (1 word)
  then show ?case by (auto split: if_splits)
next
  case (2 c cs word)
  then show ?case by (auto split: if_splits)
qed

lemma join_with_chars:
  assumes "\<forall>w \<in> set ws. \<exists>ds. w = concat ds \<and> list_all is_utf8_char ds"
  shows "\<exists>ds. join_with SP ws = concat ds \<and> list_all is_utf8_char ds"
  using assms
proof (induction SP ws rule: join_with.induct)
  case 1
  show ?case by (intro exI [of _ "[]"]) simp
next
  case (2 w)
  then show ?case by simp
next
  case (3 w v vs)
  then obtain ds es where "w = concat ds" "list_all is_utf8_char ds"
      "join_with SP (v # vs) = concat es" "list_all is_utf8_char es"
    by auto
  then have "join_with SP (w # v # vs) = concat (ds @ SP # es)" "list_all is_utf8_char (ds @ SP # es)"
    by (simp_all add: is_utf8_char_SP)
  then show ?case by blast
qed

text \<open>The fallback title always passes the validation of the event it is written into: for every
  well-formed prompt, if a fallback title exists at all, the title event with a bounded strictly
  increasing non-empty list of source messages validates.\<close>

theorem fallback_title_valid:
  assumes "utf8_valid input" and "fallback_title input = Some t"
    and "seqs \<noteq> []" and "length seqs \<le> MAX_SOURCE_EVENT_SEQS" and "strictly_increasing seqs"
  shows "title_validate \<lparr>title_text = t, title_message_seqs = seqs, title_source = TitleFallback\<rparr> = Ok ()"
proof -
  let ?ws = "take FALLBACK_TITLE_MAX_WORDS (split_whitespace (utf8_chars input) [])"
  have "list_all is_utf8_char (utf8_chars input)"
    using utf8_chars_char [OF assms(1)] by (simp add: list_all_iff)
  then obtain ds where ds: "join_with SP ?ws = concat ds" "list_all is_utf8_char ds"
    using join_with_chars [of ?ws] split_whitespace_chars [of "utf8_chars input" "[]"]
    by (auto dest: in_set_takeD)
  then have "utf8_valid (join_with SP ?ws)" by (simp add: utf8_valid_concat)
  moreover have "normalize_title (join_with SP ?ws) FALLBACK_TITLE_MAX_BYTES = Some t"
    using assms(2) by (simp add: fallback_title_def)
  ultimately obtain cs where "t = concat cs" "title_normal cs" "t \<noteq> []" "length t \<le> FALLBACK_TITLE_MAX_BYTES"
    using normalize_title_normal by blast
  then have "normalize_title t PROVIDER_TITLE_MAX_BYTES = Some t"
    using normalize_title_fixed [of cs PROVIDER_TITLE_MAX_BYTES]
    by (simp add: FALLBACK_TITLE_MAX_BYTES_def PROVIDER_TITLE_MAX_BYTES_def)
  with assms(3-5) show ?thesis by (simp add: title_validate_def)
qed

theorem fallback_title_valid_witness:
  "\<exists>t. fallback_title ''Fix'' = Some t
     \<and> title_validate \<lparr>title_text = t, title_message_seqs = [3], title_source = TitleFallback\<rparr> = Ok ()"
proof -
  have normal: "title_normal [''F'', ''i'', ''x'']"
    by (simp add: title_normal_def title_clean_def title_char_graphic is_ascii_graphic_def SP_def)
  then have chars: "utf8_chars ''Fix'' = [''F'', ''i'', ''x'']"
    using utf8_chars_concat [OF title_clean_chars, of "[''F'', ''i'', ''x'']"]
    by (simp add: title_normal_def)
  have "\<not> is_whitespace_char c" if "title_char c" for c
    using that by (simp add: title_char_def)
  then have "split_whitespace [''F'', ''i'', ''x''] [] = [''Fix'']"
    by (simp add: title_char_graphic is_ascii_graphic_def)
  then have 1: "fallback_title ''Fix'' = Some ''Fix''"
    using normalize_title_fixed [OF normal, of FALLBACK_TITLE_MAX_BYTES]
    by (simp add: fallback_title_def chars FALLBACK_TITLE_MAX_WORDS_def FALLBACK_TITLE_MAX_BYTES_def)
  have 2: "utf8_valid ''Fix''" by (simp add: utf8_valid_ascii)
  have 3: "[3 :: EventSeq] \<noteq> []" "length [3 :: EventSeq] \<le> MAX_SOURCE_EVENT_SEQS" "strictly_increasing [3]"
    by (simp_all add: MAX_SOURCE_EVENT_SEQS_def)
  from fallback_title_valid [OF 2 1 3] 1 show ?thesis by blast
qed

end
