(* ===== verification/Session_Ids.thy ===== *)
theory Session_Ids
  imports Title Goal
begin

text \<open>
  The identifiers of the session log (\<open>src/session/event.rs\<close>).
\<close>

section \<open>Identifiers\<close>

text \<open>\<open>nonzero_id!\<close>: a positive safe integer. \<open>successor\<close> is \<open>safe_successor\<close>.\<close>

type_synonym TurnId = u64
type_synonym StepId = u64
type_synonym RetryNumber = u64
type_synonym RetryId = string
type_synonym ApprovalRequestId = string
type_synonym SessionId = string
type_synonym CompactionId = string

datatype NumberError =
    NotNonNegativeSafe string
  | NotPositiveSafe string
  | NotSignedSafe string

definition event_seq_new :: "u64 \<Rightarrow> NumberError + EventSeq" where
  "event_seq_new v = (if v > MAX_SAFE_INTEGER then Err (NotNonNegativeSafe ''seq'') else Ok v)"

definition event_seq_from_index :: "usize \<Rightarrow> EventSeq option" where
  "event_seq_from_index i = (if i \<le> MAX_SAFE_INTEGER then Some i else None)"

definition first_id :: u64 where
  "first_id = 1"

definition nonzero_id_new :: "string \<Rightarrow> u64 \<Rightarrow> NumberError + u64" where
  "nonzero_id_new field v =
     (if v = 0 \<or> v > MAX_SAFE_INTEGER then Err (NotPositiveSafe field) else Ok v)"

definition unix_millis_new :: "int \<Rightarrow> NumberError + UnixMillis" where
  "unix_millis_new v =
     (if v < - uint MAX_SAFE_INTEGER \<or> v > uint MAX_SAFE_INTEGER then Err (NotSignedSafe ''time'')
      else Ok v)"

end
