(* ===== verification/Session_Data.thy ===== *)
theory Session_Data
  imports Session_Ids Plan_Mode
begin

text \<open>
  The data of the session log (\<open>src/session/event.rs\<close>, \<open>src/session/compaction.rs\<close>): event
  payloads and the envelope. A record field \<open>Option<TrueMarker>\<close> is a \<open>bool\<close>.
\<close>

section \<open>Payloads\<close>

datatype TurnEndCancelCause =
    CancelUser | CancelParent | CancelHook string | CancelDisposed | CancelLegacy

datatype TurnEndReason =
    TurnCompleted
  | TurnAborted TurnEndCancelCause
  | TurnBlocked
  | TurnError LlmFailure
  | TurnMaxTokens
  | TurnInterrupted
  | TurnOther "string option" json

datatype TodoStatus = TodoPending | TodoInProgress | TodoCompleted

record TodoItem =
  todo_content :: string
  todo_status :: TodoStatus

record EpochHeader =
  header_config :: LlmCallConfig
  header_adapter_defaults :: "LlmCallConfigAdapterDefaults option"
  header_system :: "string option"
  header_tools :: "ToolSchema list option"

datatype RequestHeaderReason = ReasonInitial | ReasonResume | ReasonChange | ReasonOther string

record RequestContext =
  context_provider :: "string option"
  context_model :: "string option"
  context_window :: "NonNegativeSafeInteger option"
  context_raw :: json

record ToolFailure =
  tool_failure_name :: string
  tool_failure_code :: string

datatype LlmRetryMode = RetryNormal | RetryAlways

record LlmRetryEvent =
  retry_id :: RetryId
  retry_turn :: TurnId
  retry_step :: StepId
  retry_provider :: string
  retry_mode :: LlmRetryMode
  retry_policy_key :: string
  retry_number :: RetryNumber
  retry_max_retries :: "RetryNumber option"
  retry_delay_ms :: FiniteNumber
  retry_failure :: LlmFailure

record LlmRetryStartedEvent =
  started_retry_id :: RetryId
  started_turn :: TurnId
  started_step :: StepId
  started_retry :: RetryNumber

datatype PermissionPreset = PresetAsk | PresetAutoEdit

datatype ApprovalOutcome =
  OutcomeAllowedOnce | OutcomeRejected | OutcomeCancelled | OutcomeUnavailable

record ApprovalAskedEvent =
  asked_id :: ApprovalRequestId
  asked_tool_name :: string
  asked_call_id :: "call_id option"
  asked_reason :: "string option"

record ApprovalDecidedEvent =
  decided_id :: ApprovalRequestId
  decided_outcome :: ApprovalOutcome

section \<open>Compaction payloads\<close>

datatype CompactionTrigger = TriggerPressure | TriggerContextOverflow | TriggerHardLimit | TriggerManual

record CompactionRange =
  range_start :: EventSeq
  range_end :: EventSeq

datatype PreparedRetryModeSnapshot = SnapshotNormal | SnapshotAlways

record PreparedRetryBackoffSnapshot =
  backoff_initial_delay_ms :: FiniteNumber
  backoff_max_delay_ms :: FiniteNumber
  backoff_jitter_ratio :: FiniteNumber

record PreparedRetryPolicySnapshot =
  policy_mode :: PreparedRetryModeSnapshot
  policy_max_retries :: "NonNegativeSafeInteger option"
  policy_retryable_codes :: "string list"
  policy_backoff :: PreparedRetryBackoffSnapshot

record PreparedCompactionCallSnapshot =
  call_config :: LlmCallConfig
  call_adapter_defaults :: LlmCallConfigAdapterDefaults
  call_context_window :: "NonNegativeSafeInteger option"
  call_retry_policy :: PreparedRetryPolicySnapshot

record ModelVisibleDispatchSnapshot =
  dispatch_trigger :: CompactionTrigger
  dispatch_surface_generation :: NonNegativeSafeInteger
  dispatch_shadowed_range :: CompactionRange
  dispatch_shadowed_seqs :: "EventSeq list"
  dispatch_prepared_call :: PreparedCompactionCallSnapshot
  dispatch_request_header_seq :: "EventSeq option"
  dispatch_request_context_seq :: "EventSeq option"
  dispatch_system :: "string option"
  dispatch_tools :: "ToolSchema list"
  dispatch_session_id :: SessionId
  dispatch_purpose :: RequestPurpose
  dispatch_instruction :: Message
  dispatch_format_version :: NonNegativeSafeInteger

record CompactionStartEvent =
  start_compaction_id :: CompactionId
  start_source_command_id :: "string option"
  start_turn :: "TurnId option"
  start_dispatch :: "ModelVisibleDispatchSnapshot option"

record CompactionSummaryEvent =
  summary_compaction_id :: CompactionId
  summary_source_command_id :: "string option"
  summary_blocks :: "ContentBlock list"
  summary_raw_output :: "ContentBlock list option"
  summary_llm_stream_call :: bool
  summary_shadowed_range :: CompactionRange
  summary_shadowed_seqs :: "EventSeq list"
  summary_shadowed_token_count :: NonNegativeSafeInteger
  summary_provider :: string
  summary_model :: string
  summary_max_tokens :: "NonNegativeSafeInteger option"
  summary_usage :: "TokenUsage option"

datatype CompactionEndError = EndFailure LlmFailure | EndLegacyString string

record CompactionEndEvent =
  end_compaction_id :: CompactionId
  end_source_command_id :: "string option"
  end_turn :: "TurnId option"
  end_error :: "CompactionEndError option"

record CompactionPruneEvent =
  prune_shadowed_range :: CompactionRange
  prune_shadowed_seqs :: "EventSeq list"
  prune_shadowed_token_count :: NonNegativeSafeInteger

section \<open>Events\<close>

datatype (plugins only: code size) EventKind =
    TurnStart TurnId
  | TurnEnd TurnId TurnEndReason
  | StepStart TurnId StepId
  | StepEnd TurnId StepId
  | UserMessage Message
  | AssistantChunk TurnId StepId StreamChunk
  | AssistantMessage TurnId StepId Message "TokenUsage option"
  | ToolCall TurnId StepId call_id string string
  | ToolResult TurnId StepId Message "ToolFailure option" "json option"
  | TodoWrite "TodoItem list"
  | GoalChangeEvent GoalChange
  | PlanMode PlanModeChange
  | PermissionPresetSet PermissionPreset
  | SessionTitle SessionTitleEvent
  | SessionTitleLlmRequest SessionTitleLlmRequestEvent
  | RequestHeader EpochHeader RequestHeaderReason
  | RequestContextSet RequestContext
  | LlmRetry LlmRetryEvent
  | LlmRetryStarted LlmRetryStartedEvent
  | ApprovalAsked ApprovalAskedEvent
  | ApprovalDecided ApprovalDecidedEvent
  | CompactionStart CompactionStartEvent
  | CompactionSummary CompactionSummaryEvent
  | CompactionEnd CompactionEndEvent
  | CompactionPrune CompactionPruneEvent
  | EndSeed
  | Unknown string json

datatype SurfaceOp = SurfaceAppend | SurfaceReplace EventSeq EventSeq

record SurfaceIntent =
  intent_operation :: SurfaceOp
  intent_sources :: "EventSeq list option"

record NewEvent =
  new_kind :: EventKind
  new_surface :: "SurfaceIntent option"

record SessionEvent =
  event_seq :: EventSeq
  event_time :: UnixMillis
  event_kind :: EventKind
  event_surface_op :: "SurfaceOp option"
  event_sources :: "EventSeq list option"
  event_ignorable :: bool
  event_data :: json

definition event_from_new :: "EventSeq \<Rightarrow> UnixMillis \<Rightarrow> NewEvent \<Rightarrow> json \<Rightarrow> SessionEvent" where
  "event_from_new seq time e data = \<lparr>event_seq = seq, event_time = time, event_kind = new_kind e,
     event_surface_op = map_option intent_operation (new_surface e),
     event_sources = Option.bind (new_surface e) intent_sources,
     event_ignorable = False, event_data = data\<rparr>"

definition event_into_new :: "SessionEvent \<Rightarrow> NewEvent \<times> json" where
  "event_into_new e =
     (\<lparr>new_kind = event_kind e,
       new_surface = map_option (\<lambda>op. \<lparr>intent_operation = op, intent_sources = event_sources e\<rparr>)
         (event_surface_op e)\<rparr>, event_data e)"

fun event_type :: "EventKind \<Rightarrow> string" where
  "event_type (TurnStart _) = ''turn/start''"
| "event_type (TurnEnd _ _) = ''turn/end''"
| "event_type (StepStart _ _) = ''step/start''"
| "event_type (StepEnd _ _) = ''step/end''"
| "event_type (UserMessage _) = ''user/message''"
| "event_type (AssistantChunk _ _ _) = ''assistant/chunk''"
| "event_type (AssistantMessage _ _ _ _) = ''assistant/message''"
| "event_type (ToolCall _ _ _ _ _) = ''tool/call''"
| "event_type (ToolResult _ _ _ _ _) = ''tool/result''"
| "event_type (TodoWrite _) = ''todo/write''"
| "event_type (GoalChangeEvent _) = ''goal/change''"
| "event_type (PlanMode _) = ''plan/mode''"
| "event_type (PermissionPresetSet _) = ''permission/preset''"
| "event_type (SessionTitle _) = ''session/title''"
| "event_type (SessionTitleLlmRequest _) = ''session/title-llm-request''"
| "event_type (RequestHeader _ _) = ''request/header''"
| "event_type (RequestContextSet _) = ''request/context''"
| "event_type (LlmRetry _) = ''llm/retry''"
| "event_type (LlmRetryStarted _) = ''llm/retry-started''"
| "event_type (ApprovalAsked _) = ''approval/asked''"
| "event_type (ApprovalDecided _) = ''approval/decided''"
| "event_type (CompactionStart _) = ''compaction/start''"
| "event_type (CompactionSummary _) = ''compaction/summary''"
| "event_type (CompactionEnd _) = ''compaction/end''"
| "event_type (CompactionPrune _) = ''compaction/prune''"
| "event_type EndSeed = ''session/end-seed''"
| "event_type (Unknown t _) = t"

fun is_surface_eligible :: "EventKind \<Rightarrow> bool" where
  "is_surface_eligible (UserMessage _) = True"
| "is_surface_eligible (AssistantMessage _ _ _ _) = True"
| "is_surface_eligible (ToolResult _ _ _ _ _) = True"
| "is_surface_eligible _ = False"

lemma event_new_roundtrip:
  "event_into_new (event_from_new seq time e data) = (e, data)"
  by (cases e; cases "new_surface e")
    (auto simp: event_into_new_def event_from_new_def)

end
