(* ===== verification/Session_Error.thy ===== *)
theory Session_Error
  imports Session_Ids Stream
begin

text \<open>
  The errors of event validation and of the session projection (\<open>src/session/error.rs\<close>). The
  text of a \<open>detail\<close> or \<open>event_type\<close> field is kept, messages for display are not.
\<close>

datatype (plugins only: code size) TransitionError =
    TurnAlreadyOpen TurnId TurnId
  | WrongNextTurn TurnId TurnId
  | WrongTurnEnd "TurnId option" TurnId
  | TurnEndWhileStepOpen TurnId StepId
  | StepOutsideTurn "TurnId option" TurnId
  | StepAlreadyOpen StepId StepId
  | WrongNextStep TurnId StepId StepId
  | WrongOpenStep string "TurnId option" "StepId option" TurnId StepId
  | EventOutsideTurn string
  | InvalidTodoSnapshot
  | MissingToolCall call_id
  | RetryProviderMismatch string string
  | WrongRetryNumber RetryNumber RetryNumber
  | RetryChainIdMismatch RetryId RetryId
  | RetryIdAlreadyOwned RetryId
  | RetryStartedWithoutSchedule RetryId RetryNumber
  | RetryStartedTwice RetryId RetryNumber
  | ApprovalIdAlreadyPending ApprovalRequestId
  | ApprovalIdAlreadyOwned ApprovalRequestId
  | ApprovalDecisionWithoutRequest ApprovalRequestId
  | ApprovalStillPending string ApprovalRequestId
  | InvalidDurableToolCallIdentity call_id
  | TooManyDurableToolCalls nat
  | DuplicateDurableToolCall call_id
  | DurableToolCallWithoutDeclaration call_id
  | DurableToolCallMismatch call_id call_id
  | DurableApprovalWithoutCall
  | DurableApprovalCallMismatch call_id
  | DurableApprovalToolMismatch string string
  | DurableApprovalRepeated call_id
  | MultipleDurableApprovals ApprovalRequestId
  | DurableApprovalDecisionMismatch ApprovalRequestId
  | DurableToolResultMismatch call_id
  | DuplicateDurableToolResult call_id
  | DurableToolResultBeforeDecision call_id
  | DurableToolResultWrongSource call_id
  | DurableToolResultWithoutIntent call_id
  | DurableRecoveryEventNotAllowed string
  | DurablePruneEventNotAllowed string
  | DurableAttemptEventNotAllowed string
  | DurableApprovalResultMismatch ApprovalRequestId call_id
  | DurableCallStillPending string call_id
  | CompactionAlreadyOpen CompactionId
  | CompactionWithoutStart string
  | CompactionIdMismatch string CompactionId CompactionId
  | CompactionSourceCommandMismatch string
  | CompactionOwnerMismatch string
  | CompactionBoundaryCrossed string
  | CompactionBodyOutOfOrder string
  | CompactionSuccessWithoutReplacement
  | DurableCompactionDispatchRequired
  | ManualCompactionEnvelopeInvalid
  | DurableLegacyCompactionError
  | CompactionDispatchMismatch string
  | IdentifierExhausted

datatype (plugins only: code size) SurfaceError =
    MissingOperation string
  | MetadataOnIneligibleEvent string
  | EmptySources
  | TooManySources nat nat
  | DuplicateSource EventSeq
  | SourceNotEarlier EventSeq EventSeq
  | StartNotFound EventSeq
  | EndNotFound EventSeq
  | ReversedRange EventSeq EventSeq
  | MissingShadowedSource EventSeq
  | ToolResultMultipleTargets
  | ToolResultWrongTarget
  | ToolResultChangedIdentity
  | TokenAccountingOverflow
  | ResidentAccountingOverflow
  | UnbalancedToolSurface
  | ShadowedTokenCountMismatch u64 u64
  | CompactionDoesNotShrink u64 u64
  | CompactionReplacementMismatch
  | PruneTargetNotToolResult
  | PruneReplacementWithoutMarker
  | PruneReplacementMismatch
  | InvalidTimeContext

text \<open>\<open>AttemptError\<close> of \<open>src/session/attempt_anchor.rs\<close>.\<close>

datatype (plugins only: code size) AttemptError =
    AttemptCapacity
  | AttemptBoundary string string
  | MissingRoute
  | AttemptStream StreamProtocolError
  | EmittedBytes nat nat
  | UsageOverflow
  | TokenEstimateOverflow
  | SourceMismatch
  | ContentMismatch
  | UsageMismatch
  | RouteMismatch
  | FailureMismatch
  | AttemptDigest
  | OwnershipChanged

datatype (plugins only: code size) EventValidationError =
    EvModel ModelError
  | EvTransition TransitionError
  | EvSurface SurfaceError
  | EvAttempt AttemptError
  | UnknownLiveEvent
  | NonContiguousSequence EventSeq EventSeq
  | UnknownRequiredEvent
  | LegacyRequestHeaderReason
  | NonCanonicalRequestHeaderReason string
  | InconsistentTurnEndReason
  | InvalidRetryEvent string
  | InvalidApprovalEvent string
  | InvalidCompactionEvent string
  | InvalidGoalEvent GoalError
  | InvalidTitleEvent string
  | TooManyEvents nat nat

end
