(* ===== verification/Session_Check.thy ===== *)
theory Session_Check
  imports Session_Data Session_Error
begin

text \<open>
  The validation of one event on its own (\<open>EventKind::validate\<close> and the payload validators it
  calls, \<open>src/session/event.rs\<close> and \<open>src/session/compaction.rs\<close>), before any session state is
  looked at.

  Code outside the repository is a field of \<open>session_env\<close>: serde's derived deserialisers, the
  number formatting and the digests of third-party crates, and the normalisation of a raw JSON
  value into a \<open>JsonValue\<close>.
\<close>

section \<open>Parameters\<close>

record session_env =
  env_admit :: "json \<Rightarrow> json option"
  env_number :: "json \<Rightarrow> rat"
  env_number_length :: "json \<Rightarrow> nat"
  env_encoded_len :: "json \<Rightarrow> nat"
  env_cancel_cause :: "json \<Rightarrow> TurnEndCancelCause option"
  env_failure :: "json \<Rightarrow> LlmFailure option"
  env_encode :: "json \<Rightarrow> string option"
  env_sha256 :: "string \<Rightarrow> string"

text \<open>\<open>json_values_equal\<close>: numbers are compared by the double they denote (\<open>env_number\<close>), and
  a tree deeper than the limit is not equal to anything. Objects have one field per key.\<close>

definition MAX_JSON_DEPTH :: nat where
  "MAX_JSON_DEPTH = 128"

fun is_number :: "json \<Rightarrow> bool" where
  "is_number (JInt _) = True"
| "is_number (JFloat _) = True"
| "is_number _ = False"

fun json_equal_within :: "session_env \<Rightarrow> nat \<Rightarrow> json \<Rightarrow> json \<Rightarrow> bool" where
  "json_equal_within env 0 a b = False"
| "json_equal_within env (Suc fuel) a b =
     (case (a, b) of
        (JNull, JNull) \<Rightarrow> True
      | (JBool x, JBool y) \<Rightarrow> x = y
      | (JStr x, JStr y) \<Rightarrow> x = y
      | (JArr xs, JArr ys) \<Rightarrow> list_all2 (json_equal_within env fuel) xs ys
      | (JObj fs, JObj gs) \<Rightarrow> length fs = length gs
          \<and> list_all (\<lambda>(k, v). case map_of gs k of
               None \<Rightarrow> False | Some w \<Rightarrow> json_equal_within env fuel v w) fs
      | _ \<Rightarrow> is_number a \<and> is_number b \<and> env_number env a = env_number env b)"

definition json_values_equal :: "session_env \<Rightarrow> json \<Rightarrow> json \<Rightarrow> bool" where
  "json_values_equal env a b = json_equal_within env (Suc MAX_JSON_DEPTH) a b"

section \<open>Turn ends\<close>

definition turn_end_known :: "session_env \<Rightarrow> (string \<times> json) list \<Rightarrow> TurnEndReason option" where
  "turn_end_known env fs =
     (let kind = get_str fs ''kind''; n = length fs
      in if kind = Some ''completed'' \<and> n = 1 then Some TurnCompleted
         else if kind = Some ''blocked'' \<and> n = 1 then Some TurnBlocked
         else if kind = Some ''max-tokens'' \<and> n = 1 then Some TurnMaxTokens
         else if kind = Some ''interrupted'' \<and> n = 1 then Some TurnInterrupted
         else if kind = Some ''aborted'' \<and> n = 2 then
           map_option TurnAborted (Option.bind (map_of fs ''reason'') (env_cancel_cause env))
         else if kind = Some ''error'' \<and> n = 2 then
           map_option TurnError (Option.bind (map_of fs ''error'') (env_failure env))
         else None)"

definition turn_end_from_value :: "session_env \<Rightarrow> json \<Rightarrow> ModelError + TurnEndReason" where
  "turn_end_from_value env v =
     and_then (ok_or (env_admit env v) JsonError) (\<lambda>raw.
       case as_object raw of
         None \<Rightarrow> Ok (TurnOther None raw)
       | Some fs \<Rightarrow> Ok (case turn_end_known env fs of
             Some r \<Rightarrow> r | None \<Rightarrow> TurnOther (get_str fs ''kind'') raw))"

fun turn_end_kind :: "TurnEndReason \<Rightarrow> string option" where
  "turn_end_kind TurnCompleted = Some ''completed''"
| "turn_end_kind (TurnAborted _) = Some ''aborted''"
| "turn_end_kind TurnBlocked = Some ''blocked''"
| "turn_end_kind (TurnError _) = Some ''error''"
| "turn_end_kind TurnMaxTokens = Some ''max-tokens''"
| "turn_end_kind TurnInterrupted = Some ''interrupted''"
| "turn_end_kind (TurnOther k _) = k"

definition turn_end_validate :: "session_env \<Rightarrow> TurnEndReason \<Rightarrow> EventValidationError + unit" where
  "turn_end_validate env r = (case r of
      TurnOther k raw \<Rightarrow>
        and_then (map_err EvModel (turn_end_from_value env raw)) (\<lambda>reparsed.
          case reparsed of
            TurnOther k' raw' \<Rightarrow>
              if k' = k \<and> json_values_equal env raw' raw then Ok () else Err InconsistentTurnEndReason
          | _ \<Rightarrow> Err InconsistentTurnEndReason)
    | _ \<Rightarrow> Ok ())"

section \<open>Request headers\<close>

definition defaults_present :: "LlmCallConfigAdapterDefaults \<Rightarrow> LlmCallConfigAdapterDefaults option" where
  "defaults_present d = (if default_reasoning_effort d \<or> default_max_tokens d then Some d else None)"

definition header_canonicalized :: "EpochHeader \<Rightarrow> EpochHeader" where
  "header_canonicalized h = \<lparr>header_config = header_config h,
     header_adapter_defaults = Option.bind (header_adapter_defaults h) defaults_present,
     header_system = (if header_system h = Some [] then None else header_system h),
     header_tools = (if header_tools h = Some [] then None else header_tools h)\<rparr>"

definition header_equivalent :: "EpochHeader \<Rightarrow> EpochHeader \<Rightarrow> bool" where
  "header_equivalent a b \<longleftrightarrow> (let x = header_canonicalized a; y = header_canonicalized b in
     config_equivalent (header_config x) (header_config y)
     \<and> header_adapter_defaults x = header_adapter_defaults y
     \<and> header_system x = header_system y
     \<and> header_tools x = header_tools y)"

definition header_validate :: "EpochHeader \<Rightarrow> EventValidationError + unit" where
  "header_validate h = map_err EvModel
     (and_then (config_validate (header_config h)) (\<lambda>_.
        case header_adapter_defaults h of
          None \<Rightarrow> Ok ()
        | Some d \<Rightarrow> validate_adapter_defaults d (header_config h)))"

fun header_reason_validate :: "RequestHeaderReason \<Rightarrow> EventValidationError + unit" where
  "header_reason_validate (ReasonOther v) =
     (if v = ''fallback'' then Err LegacyRequestHeaderReason
      else if v = ''initial'' \<or> v = ''resume'' \<or> v = ''change''
      then Err (NonCanonicalRequestHeaderReason v)
      else Ok ())"
| "header_reason_validate _ = Ok ()"

definition context_equivalent :: "RequestContext \<Rightarrow> RequestContext \<Rightarrow> bool" where
  "context_equivalent a b \<longleftrightarrow> context_provider a = context_provider b
     \<and> context_model a = context_model b \<and> context_window a = context_window b"

section \<open>Retries and approvals\<close>

definition retry_validate :: "LlmRetryEvent \<Rightarrow> EventValidationError + unit" where
  "retry_validate r =
     (if retry_id r = [] then Err (InvalidRetryEvent ''retryId must not be empty'')
      else if retry_provider r = [] then Err (InvalidRetryEvent ''provider must not be empty'')
      else if retry_policy_key r = [] then Err (InvalidRetryEvent ''policyKey must not be empty'')
      else if \<not> (0 \<le> retry_delay_ms r \<and> retry_delay_ms r \<le> 2147483647)
      then Err (InvalidRetryEvent ''delayMs must be inside the runtime timer range'')
      else case (retry_mode r, retry_max_retries r) of
        (RetryNormal, Some maximum) \<Rightarrow>
          if retry_number r \<le> maximum then Ok ()
          else Err (InvalidRetryEvent ''normal retry must not exceed a positive maxRetries'')
      | (RetryNormal, None) \<Rightarrow>
          Err (InvalidRetryEvent ''normal retry must not exceed a positive maxRetries'')
      | (RetryAlways, None) \<Rightarrow> Ok ()
      | (RetryAlways, Some _) \<Rightarrow> Err (InvalidRetryEvent ''always retry must omit maxRetries''))"

text \<open>One to a maximum of bytes without control characters.\<close>

definition bounded_identity :: "string \<Rightarrow> nat \<Rightarrow> bool" where
  "bounded_identity s maximum \<longleftrightarrow> s \<noteq> [] \<and> length s \<le> maximum \<and> \<not> has_control s"

definition validate_approval_id :: "ApprovalRequestId \<Rightarrow> EventValidationError + unit" where
  "validate_approval_id i =
     (if \<not> bounded_identity i 1024
      then Err (InvalidApprovalEvent ''approval id must be 1 to 1024 non-control UTF-8 bytes'')
      else Ok ())"

text \<open>A control character other than line feed and tab.\<close>

definition has_unsafe_control :: "string \<Rightarrow> bool" where
  "has_unsafe_control s = list_ex (\<lambda>c. has_control c \<and> c \<noteq> [CHR 0x0A] \<and> c \<noteq> [CHR 0x09]) (utf8_chars s)"

definition asked_validate :: "ApprovalAskedEvent \<Rightarrow> EventValidationError + unit" where
  "asked_validate a =
     and_then (validate_approval_id (asked_id a)) (\<lambda>_.
       if \<not> bounded_identity (asked_tool_name a) 256
       then Err (InvalidApprovalEvent ''toolName must be 1 to 256 non-control UTF-8 bytes'')
       else if (case asked_call_id a of None \<Rightarrow> False | Some c \<Rightarrow> \<not> bounded_identity c 1024)
       then Err (InvalidApprovalEvent ''callId must be 1 to 1024 non-control UTF-8 bytes when present'')
       else if (case asked_reason a of None \<Rightarrow> False
                | Some r \<Rightarrow> length r > 4 * 1024 \<or> has_unsafe_control r)
       then Err (InvalidApprovalEvent ''reason must be at most 4096 UTF-8 bytes without unsafe controls'')
       else Ok ())"

section \<open>Compaction payloads\<close>

definition MAX_COMPACTION_SHADOWED_SEQS :: nat where
  "MAX_COMPACTION_SHADOWED_SEQS = MAX_SOURCE_EVENT_SEQS - 2"

definition COMPACTION_INSTRUCTION_SOURCE :: string where
  "COMPACTION_INSTRUCTION_SOURCE = ''dsh.compaction''"

definition validate_bounded_identity :: "string \<Rightarrow> nat \<Rightarrow> string \<Rightarrow> EventValidationError + unit" where
  "validate_bounded_identity v maximum detail =
     (if \<not> bounded_identity v maximum then Err (InvalidCompactionEvent detail) else Ok ())"

definition compaction_id_validate :: "CompactionId \<Rightarrow> EventValidationError + unit" where
  "compaction_id_validate i = validate_bounded_identity i 1024
     ''compactionId must be 1 to 1024 non-control UTF-8 bytes''"

definition validate_source_command_id :: "string option \<Rightarrow> EventValidationError + unit" where
  "validate_source_command_id v = (case v of
      None \<Rightarrow> Ok ()
    | Some s \<Rightarrow> validate_bounded_identity s 1024
        ''sourceCommandId must be 1 to 1024 non-control UTF-8 bytes'')"

definition validate_route :: "string \<Rightarrow> string \<Rightarrow> EventValidationError + unit" where
  "validate_route v detail = validate_bounded_identity v 1024 detail"

definition visible_ascii :: "string \<Rightarrow> bool" where
  "visible_ascii s = list_all is_ascii_graphic s"

definition validate_session_id :: "SessionId \<Rightarrow> EventValidationError + unit" where
  "validate_session_id s =
     (if s = [] \<or> length s > 1024 \<or> \<not> visible_ascii s
      then Err (InvalidCompactionEvent ''compaction sessionId is invalid'') else Ok ())"

definition validate_shadowed ::
    "CompactionRange \<Rightarrow> EventSeq list \<Rightarrow> nat \<Rightarrow> EventValidationError + unit" where
  "validate_shadowed r seqs maximum =
     (if seqs = [] \<or> length seqs > maximum
      then Err (InvalidCompactionEvent ''compaction shadowedSeqs length is invalid'')
      else if hd seqs \<noteq> range_start r \<or> last seqs \<noteq> range_end r
      then Err (InvalidCompactionEvent ''compaction range must match the first and last shadowed seq'')
      else if \<not> distinct seqs
      then Err (InvalidCompactionEvent ''compaction shadowedSeqs contains a duplicate'')
      else Ok ())"

definition backoff_validate :: "PreparedRetryBackoffSnapshot \<Rightarrow> EventValidationError + unit" where
  "backoff_validate b =
     (if backoff_initial_delay_ms b > 2147483647 \<or> backoff_max_delay_ms b > 2147483647
        \<or> backoff_initial_delay_ms b > backoff_max_delay_ms b
        \<or> \<not> (0 \<le> backoff_jitter_ratio b \<and> backoff_jitter_ratio b \<le> 1)
      then Err (InvalidCompactionEvent ''retry backoff is invalid'') else Ok ())"

fun retry_codes_validate :: "string list \<Rightarrow> string list \<Rightarrow> EventValidationError + unit" where
  "retry_codes_validate seen [] = Ok ()"
| "retry_codes_validate seen (c # cs) =
     and_then (validate_bounded_identity c 256 ''retry code must be 1 to 256 non-control UTF-8 bytes'')
       (\<lambda>_. if c \<in> set seen then Err (InvalidCompactionEvent ''retry policy contains a duplicate code'')
            else retry_codes_validate (c # seen) cs)"

definition retry_policy_validate :: "PreparedRetryPolicySnapshot \<Rightarrow> EventValidationError + unit" where
  "retry_policy_validate p =
     and_then (backoff_validate (policy_backoff p)) (\<lambda>_.
       if length (policy_retryable_codes p) > 256
       then Err (InvalidCompactionEvent ''retry policy has too many codes'')
       else and_then (retry_codes_validate [] (policy_retryable_codes p)) (\<lambda>_.
         case policy_mode p of
           SnapshotNormal \<Rightarrow>
             if policy_max_retries p = None \<or> policy_retryable_codes p = []
             then Err (InvalidCompactionEvent
               ''normal retry policy requires maxRetries and retryableCodes'')
             else Ok ()
         | SnapshotAlways \<Rightarrow>
             if policy_max_retries p \<noteq> None \<or> policy_retryable_codes p \<noteq> []
             then Err (InvalidCompactionEvent
               ''always retry policy must omit maxRetries and retryableCodes'')
             else Ok ()))"

definition prepared_call_validate :: "PreparedCompactionCallSnapshot \<Rightarrow> EventValidationError + unit" where
  "prepared_call_validate c =
     and_then (map_err EvModel (config_validate (call_config c))) (\<lambda>_.
     and_then (validate_route (config_provider (call_config c)) ''prepared call provider is invalid'') (\<lambda>_.
     and_then (validate_route (config_model (call_config c)) ''prepared call model is invalid'') (\<lambda>_.
     and_then (map_err EvModel (validate_adapter_defaults (call_adapter_defaults c) (call_config c))) (\<lambda>_.
       if config_max_tokens (call_config c) = Some 0
       then Err (InvalidCompactionEvent
         ''prepared compaction maxTokens must be positive when present'')
       else retry_policy_validate (call_retry_policy c)))))"

definition is_exact_instruction_source :: "MessageSource \<Rightarrow> bool" where
  "is_exact_instruction_source s = (case as_object (source_raw s) of
      None \<Rightarrow> False
    | Some fs \<Rightarrow> length fs = 2 \<and> get_str fs ''kind'' = Some ''plugin''
        \<and> get_str fs ''plugin'' = Some COMPACTION_INSTRUCTION_SOURCE)"

fun is_plugin_source :: "string \<Rightarrow> MessageSourceKind \<Rightarrow> bool" where
  "is_plugin_source name (SourcePlugin plugin _ _ _) = (plugin = name)"
| "is_plugin_source name _ = False"

definition dispatch_validate :: "ModelVisibleDispatchSnapshot \<Rightarrow> EventValidationError + unit" where
  "dispatch_validate d =
     and_then (validate_shadowed (dispatch_shadowed_range d) (dispatch_shadowed_seqs d)
       MAX_COMPACTION_SHADOWED_SEQS) (\<lambda>_.
     and_then (prepared_call_validate (dispatch_prepared_call d)) (\<lambda>_.
       if (case dispatch_system d of None \<Rightarrow> False | Some s \<Rightarrow> length s > 4 * 1024 * 1024)
       then Err (InvalidCompactionEvent ''compaction system text is too large'')
       else if length (dispatch_tools d) > 256
       then Err (InvalidCompactionEvent ''compaction has too many tool schemas'')
       else and_then (validate_session_id (dispatch_session_id d)) (\<lambda>_.
         if dispatch_purpose d \<noteq> CompactionPurpose
         then Err (InvalidCompactionEvent ''compaction dispatch purpose must be compaction'')
         else if dispatch_format_version d \<noteq> 1
         then Err (InvalidCompactionEvent ''unsupported compaction instruction format version'')
         else if message_role (dispatch_instruction d) \<noteq> User
           \<or> \<not> is_plugin_source COMPACTION_INSTRUCTION_SOURCE
               (source_kind (message_source (dispatch_instruction d)))
           \<or> \<not> is_exact_instruction_source (message_source (dispatch_instruction d))
         then Err (InvalidCompactionEvent
           ''compaction instruction must be a dsh.compaction user message'')
         else if message_id (dispatch_instruction d) = []
           \<or> length (message_id (dispatch_instruction d)) > 1024
           \<or> \<not> visible_ascii (message_id (dispatch_instruction d))
         then Err (InvalidCompactionEvent
           ''compaction instruction ID must be 1 to 1024 visible ASCII bytes'')
         else Ok ())))"

definition start_validate :: "CompactionStartEvent \<Rightarrow> EventValidationError + unit" where
  "start_validate s =
     and_then (compaction_id_validate (start_compaction_id s)) (\<lambda>_.
     and_then (validate_source_command_id (start_source_command_id s)) (\<lambda>_.
       case start_dispatch s of None \<Rightarrow> Ok () | Some d \<Rightarrow> dispatch_validate d))"

fun is_text :: "ContentBlockKind \<Rightarrow> bool" where
  "is_text (Text _) = True"
| "is_text _ = False"

fun is_reasoning :: "ContentBlockKind \<Rightarrow> bool" where
  "is_reasoning (Reasoning _) = True"
| "is_reasoning _ = False"

fun is_nonblank_text :: "ContentBlockKind \<Rightarrow> bool" where
  "is_nonblank_text (Text t) = (trim t \<noteq> [])"
| "is_nonblank_text _ = False"

text \<open>Derived equality of content blocks: the parsed kind and the raw JSON. A parsed image
  attachment is part of the kind.\<close>

definition block_equal :: "session_env \<Rightarrow> ContentBlock \<Rightarrow> ContentBlock \<Rightarrow> bool" where
  "block_equal env a b \<longleftrightarrow> block_kind a = block_kind b \<and> json_values_equal env (block_raw a) (block_raw b)"

definition raw_output_validate ::
    "session_env \<Rightarrow> ContentBlock list \<Rightarrow> ContentBlock list \<Rightarrow> EventValidationError + unit" where
  "raw_output_validate env summary raw_output =
     (if list_ex (\<lambda>b. \<not> is_text (block_kind b) \<and> \<not> is_reasoning (block_kind b)) raw_output
      then Err (InvalidCompactionEvent ''compaction rawOutput may contain only reasoning and text blocks'')
      else if \<not> list_all2 (\<lambda>t s. block_equal env t s) (filter (is_text \<circ> block_kind) raw_output) summary
      then Err (InvalidCompactionEvent ''compaction summary must exactly preserve rawOutput text blocks'')
      else Ok ())"

definition summary_validate :: "session_env \<Rightarrow> CompactionSummaryEvent \<Rightarrow> EventValidationError + unit" where
  "summary_validate env s =
     and_then (compaction_id_validate (summary_compaction_id s)) (\<lambda>_.
     and_then (validate_source_command_id (summary_source_command_id s)) (\<lambda>_.
       if summary_blocks s = [] \<or> length (summary_blocks s) > MAX_MESSAGE_CONTENT_BLOCKS
       then Err (InvalidCompactionEvent ''compaction summary block count is invalid'')
       else if \<not> list_all (is_text \<circ> block_kind) (summary_blocks s)
         \<or> \<not> list_ex (is_nonblank_text \<circ> block_kind) (summary_blocks s)
       then Err (InvalidCompactionEvent ''compaction summary must contain nonempty text blocks only'')
       else if (case summary_raw_output s of None \<Rightarrow> False
                | Some out \<Rightarrow> length out > MAX_MESSAGE_CONTENT_BLOCKS)
       then Err (InvalidCompactionEvent ''compaction raw output has too many blocks'')
       else and_then
         (if \<not> summary_llm_stream_call s then Ok ()
          else case summary_raw_output s of
            None \<Rightarrow> Err (InvalidCompactionEvent ''llmStreamCall requires complete rawOutput'')
          | Some out \<Rightarrow> raw_output_validate env (summary_blocks s) out) (\<lambda>_.
       and_then (validate_shadowed (summary_shadowed_range s) (summary_shadowed_seqs s)
         MAX_COMPACTION_SHADOWED_SEQS) (\<lambda>_.
       and_then (validate_route (summary_provider s) ''compaction summary provider is invalid'') (\<lambda>_.
       and_then (validate_route (summary_model s) ''compaction summary model is invalid'') (\<lambda>_.
         if summary_max_tokens s = Some 0
         then Err (InvalidCompactionEvent ''compaction summary maxTokens must be positive when present'')
         else Ok ()))))))"

fun is_legacy_error :: "CompactionEndError \<Rightarrow> bool" where
  "is_legacy_error (EndLegacyString _) = True"
| "is_legacy_error (EndFailure _) = False"

fun end_error_validate :: "session_env \<Rightarrow> CompactionEndError \<Rightarrow> EventValidationError + unit" where
  "end_error_validate env (EndLegacyString m) =
     (if length m \<le> 32 * 1024 then Ok ()
      else Err (InvalidCompactionEvent ''legacy compaction error exceeds the compatibility byte limit''))"
| "end_error_validate env (EndFailure f) =
     and_then (validate_bounded_identity (failure_code f) 256 ''compaction failure code is invalid'') (\<lambda>_.
       if failure_message f = [] \<or> length (failure_message f) > 32 * 1024
       then Err (InvalidCompactionEvent ''compaction failure message is invalid'')
       else if (case failure_request_id f of None \<Rightarrow> False | Some r \<Rightarrow> \<not> bounded_identity r 1024)
       then Err (InvalidCompactionEvent ''compaction failure requestId is invalid'')
       else if env_encoded_len env (failure_raw f) > 48 * 1024
       then Err (InvalidCompactionEvent ''compaction failure JSON is too large'')
       else Ok ())"

definition end_validate :: "session_env \<Rightarrow> CompactionEndEvent \<Rightarrow> EventValidationError + unit" where
  "end_validate env e =
     and_then (compaction_id_validate (end_compaction_id e)) (\<lambda>_.
     and_then (validate_source_command_id (end_source_command_id e)) (\<lambda>_.
       case end_error e of None \<Rightarrow> Ok () | Some err \<Rightarrow> end_error_validate env err))"

definition prune_validate :: "CompactionPruneEvent \<Rightarrow> EventValidationError + unit" where
  "prune_validate p =
     and_then (validate_shadowed (prune_shadowed_range p) (prune_shadowed_seqs p) 1) (\<lambda>_.
       if length (prune_shadowed_seqs p) \<noteq> 1
         \<or> range_start (prune_shadowed_range p) \<noteq> range_end (prune_shadowed_range p)
       then Err (InvalidCompactionEvent ''compaction/prune must name one singleton surface node'')
       else Ok ())"

section \<open>Events\<close>

fun event_validate :: "session_env \<Rightarrow> EventKind \<Rightarrow> EventValidationError + unit" where
  "event_validate env (TurnEnd _ reason) = turn_end_validate env reason"
| "event_validate env (UserMessage m) = map_err EvModel (validate_user_event m)"
| "event_validate env (AssistantMessage _ _ m _) = map_err EvModel (validate_assistant_event m)"
| "event_validate env (ToolResult _ _ m _ _) =
     and_then (map_err EvModel (validate_tool_result m)) (\<lambda>_. Ok ())"
| "event_validate env (RequestHeader h reason) =
     and_then (header_validate h) (\<lambda>_. header_reason_validate reason)"
| "event_validate env (LlmRetry r) = retry_validate r"
| "event_validate env (LlmRetryStarted s) =
     (if started_retry_id s = [] then Err (InvalidRetryEvent ''retryId must not be empty'') else Ok ())"
| "event_validate env (ApprovalAsked a) = asked_validate a"
| "event_validate env (ApprovalDecided d) = validate_approval_id (decided_id d)"
| "event_validate env (GoalChangeEvent c) = map_err InvalidGoalEvent (change_validate c)"
| "event_validate env (SessionTitle t) = map_err InvalidTitleEvent (title_validate t)"
| "event_validate env (SessionTitleLlmRequest r) = map_err InvalidTitleEvent (title_request_validate r)"
| "event_validate env (CompactionStart s) = start_validate s"
| "event_validate env (CompactionSummary s) = summary_validate env s"
| "event_validate env (CompactionEnd e) = end_validate env e"
| "event_validate env (CompactionPrune p) = prune_validate p"
| "event_validate env _ = Ok ()"

end
