(* ===== verification/Context_Budget.thy ===== *)
theory Context_Budget
  imports Session_Check
begin

text \<open>
  The fixed token estimator and the selection of the surface prefix a compaction may summarise
  (\<open>src/session/context_budget.rs\<close>). Token counts are 64-bit with checked additions; the tool
  balance is an \<open>i64\<close>, modelled as an \<open>int\<close> with its range checked. Lengths in UTF-16 code
  units are counted on the UTF-8 characters: four bytes make a surrogate pair.
\<close>

section \<open>Estimation\<close>

datatype ContextBudgetError = TokenOverflow | UnbalancedSurface

definition CHARS_PER_TOKEN :: u64 where
  "CHARS_PER_TOKEN = 4"

definition BLOCK_OVERHEAD :: u64 where
  "BLOCK_OVERHEAD = 4"

definition ROLE_OVERHEAD :: u64 where
  "ROLE_OVERHEAD = 4"

definition budget_add :: "u64 \<Rightarrow> u64 \<Rightarrow> ContextBudgetError + u64" where
  "budget_add a b = ok_or (checked_add a b) TokenOverflow"

definition usize_to_u64 :: "nat \<Rightarrow> ContextBudgetError + u64" where
  "usize_to_u64 n = (if n < 2 ^ 64 then Ok (of_nat n) else Err TokenOverflow)"

definition div_ceil :: "u64 \<Rightarrow> u64 \<Rightarrow> u64" where
  "div_ceil a b = (if a mod b = 0 then a div b else a div b + 1)"

fun try_fold :: "('b \<Rightarrow> 'a \<Rightarrow> 'e + 'b) \<Rightarrow> 'b \<Rightarrow> 'a list \<Rightarrow> 'e + 'b" where
  "try_fold f acc [] = Ok acc"
| "try_fold f acc (x # xs) = and_then (f acc x) (\<lambda>acc'. try_fold f acc' xs)"

lemma try_fold_cong [fundef_cong]:
  assumes "xs = ys" and "acc = acc'" and "\<And>b x. x \<in> set ys \<Longrightarrow> f b x = g b x"
  shows "try_fold f acc xs = try_fold g acc' ys"
  unfolding assms(1,2) using assms(3)
proof (induction ys arbitrary: acc')
  case (Cons y ys)
  then show ?case by (cases "g acc' y") simp_all
qed simp

definition utf16_length :: "string \<Rightarrow> nat" where
  "utf16_length s = sum_list (map (\<lambda>c. if length c = 4 then 2 else 1) (utf8_chars s))"

definition estimated_text_tokens :: "string \<Rightarrow> ContextBudgetError + u64" where
  "estimated_text_tokens s =
     and_then (usize_to_u64 (utf16_length s)) (\<lambda>units. Ok (div_ceil units CHARS_PER_TOKEN))"

definition estimate_text_block :: "string \<Rightarrow> ContextBudgetError + u64" where
  "estimate_text_block s = and_then (estimated_text_tokens s) (\<lambda>t. budget_add t BLOCK_OVERHEAD)"

text \<open>The length of \<open>JSON.stringify\<close>'s output for one character of a string.\<close>

definition javascript_char_length :: "string \<Rightarrow> nat" where
  "javascript_char_length c =
     (if c \<in> {[CHR 0x22], [CHR 0x5C], [CHR 0x08], [CHR 0x09], [CHR 0x0A], [CHR 0x0C], [CHR 0x0D]} then 2
      else if length c = 1 \<and> (of_char (hd c) :: nat) < 32 then 6
      else if length c = 4 then 2 else 1)"

definition javascript_string_utf16_len :: "string \<Rightarrow> ContextBudgetError + u64" where
  "javascript_string_utf16_len s =
     try_fold (\<lambda>acc c. and_then (usize_to_u64 (javascript_char_length c)) (budget_add acc)) 2 (utf8_chars s)"

definition number_text_length :: "session_env \<Rightarrow> json \<Rightarrow> nat" where
  "number_text_length env v = (case v of
      JInt i \<Rightarrow> if 0 \<le> i then length (show_nat (nat i)) else Suc (length (show_nat (nat (- i))))
    | _ \<Rightarrow> env_number_length env v)"

text \<open>An array's items and an object's fields are separated by one comma each.\<close>

fun javascript_json_utf16_len :: "session_env \<Rightarrow> json \<Rightarrow> ContextBudgetError + u64"
  and javascript_items_len :: "session_env \<Rightarrow> bool \<Rightarrow> u64 \<Rightarrow> json list \<Rightarrow> ContextBudgetError + u64"
  and javascript_fields_len ::
    "session_env \<Rightarrow> bool \<Rightarrow> u64 \<Rightarrow> (string \<times> json) list \<Rightarrow> ContextBudgetError + u64" where
  "javascript_json_utf16_len env JNull = Ok 4"
| "javascript_json_utf16_len env (JBool b) = Ok (if b then 4 else 5)"
| "javascript_json_utf16_len env (JInt i) = usize_to_u64 (number_text_length env (JInt i))"
| "javascript_json_utf16_len env (JFloat f) = usize_to_u64 (number_text_length env (JFloat f))"
| "javascript_json_utf16_len env (JStr s) = javascript_string_utf16_len s"
| "javascript_json_utf16_len env (JArr xs) = javascript_items_len env True 2 xs"
| "javascript_json_utf16_len env (JObj fs) = javascript_fields_len env True 2 fs"
| "javascript_items_len env first acc [] = Ok acc"
| "javascript_items_len env first acc (x # xs) =
     and_then (if first then Ok acc else budget_add acc 1) (\<lambda>acc.
     and_then (javascript_json_utf16_len env x) (\<lambda>n.
     and_then (budget_add acc n) (\<lambda>acc. javascript_items_len env False acc xs)))"
| "javascript_fields_len env first acc [] = Ok acc"
| "javascript_fields_len env first acc ((k, v) # fs) =
     and_then (if first then Ok acc else budget_add acc 1) (\<lambda>acc.
     and_then (javascript_string_utf16_len k) (\<lambda>n.
     and_then (budget_add acc n) (\<lambda>acc.
     and_then (budget_add acc 1) (\<lambda>acc.
     and_then (javascript_json_utf16_len env v) (\<lambda>n.
     and_then (budget_add acc n) (\<lambda>acc. javascript_fields_len env False acc fs))))))"

definition estimate_unknown_block :: "session_env \<Rightarrow> json \<Rightarrow> ContextBudgetError + u64" where
  "estimate_unknown_block env v =
     and_then (javascript_json_utf16_len env v) (\<lambda>units.
       budget_add (div_ceil units CHARS_PER_TOKEN) BLOCK_OVERHEAD)"

definition estimate_call :: "string \<Rightarrow> string \<Rightarrow> ContextBudgetError + u64" where
  "estimate_call name arguments =
     and_then (estimated_text_tokens name) (\<lambda>n.
     and_then (estimated_text_tokens arguments) (\<lambda>a.
     and_then (budget_add n a) (\<lambda>t. budget_add t BLOCK_OVERHEAD)))"

lemma get_array_size:
  assumes "get_array fs k = Some xs" and "x \<in> set xs"
  shows "size x < Suc (size_list (size_prod (\<lambda>_. 0) size) fs)"
proof -
  from assms(1) obtain v where v: "map_of fs k = Some v" "as_array v = Some xs"
    by (auto simp: get_array_def bind_eq_Some_conv)
  then have "v = JArr xs" by (cases v) simp_all
  moreover have "(k, v) \<in> set fs" using v(1) by (rule map_of_SomeD)
  then have "size v < Suc (size_list (size_prod (\<lambda>_. 0) size) fs)"
    by (induction fs) auto
  moreover have "size x < size (JArr xs)"
    using assms(2) by (induction xs) auto
  ultimately show ?thesis by simp
qed

function estimate_content_value :: "session_env \<Rightarrow> json \<Rightarrow> ContextBudgetError + u64" where
  "estimate_content_value env v = (case v of
      JObj fs \<Rightarrow>
        (let t = get_str fs ''type'' in
         if t = Some ''text'' \<or> t = Some ''reasoning'' then
           (case get_str fs ''text'' of
              Some s \<Rightarrow> estimate_text_block s | None \<Rightarrow> estimate_unknown_block env v)
         else if t = Some ''tool-call'' then
           (case (get_str fs ''name'', get_str fs ''arguments'') of
              (Some n, Some a) \<Rightarrow> estimate_call n a | _ \<Rightarrow> estimate_unknown_block env v)
         else if t = Some ''tool-result'' then
           (case get_array fs ''content'' of
              Some items \<Rightarrow>
                and_then (try_fold (\<lambda>acc nested.
                    and_then (estimate_content_value env nested) (budget_add acc)) 0 items)
                  (\<lambda>n. budget_add n BLOCK_OVERHEAD)
            | None \<Rightarrow> estimate_unknown_block env v)
         else estimate_unknown_block env v)
    | _ \<Rightarrow> estimate_unknown_block env v)"
  by pat_completeness auto
termination
  by (relation "measure (size \<circ> snd)")
    (auto dest!: get_array_size simp: case_prod_unfold comp_def)

declare estimate_content_value.simps [simp del]

text \<open>\<open>tool_result_content\<close>: the array under \<open>content\<close> in the block's JSON.\<close>

definition tool_result_content :: "ContentBlock \<Rightarrow> json list option" where
  "tool_result_content b = (case block_kind b of
      ToolResultBlock _ _ \<Rightarrow> Option.bind (as_object (block_raw b)) (\<lambda>fs. get_array fs ''content'')
    | _ \<Rightarrow> None)"

definition estimate_content_block :: "session_env \<Rightarrow> ContentBlock \<Rightarrow> ContextBudgetError + u64" where
  "estimate_content_block env b = (case block_kind b of
      Text s \<Rightarrow> estimate_text_block s
    | Reasoning s \<Rightarrow> estimate_text_block s
    | ToolCallBlock _ name arguments \<Rightarrow> estimate_call name arguments
    | ToolResultBlock _ _ \<Rightarrow>
        and_then (ok_or (tool_result_content b) TokenOverflow) (\<lambda>content.
        and_then (try_fold (\<lambda>acc nested.
            and_then (estimate_content_value env nested) (budget_add acc)) 0 content) (\<lambda>nested.
          budget_add nested BLOCK_OVERHEAD))
    | _ \<Rightarrow> estimate_unknown_block env (block_raw b))"

definition estimate_message :: "session_env \<Rightarrow> Message \<Rightarrow> ContextBudgetError + u64" where
  "estimate_message env m =
     try_fold (\<lambda>acc b. and_then (estimate_content_block env b) (budget_add acc))
       ROLE_OVERHEAD (message_content m)"

definition estimate_provider_assistant ::
    "session_env \<Rightarrow> ContentBlock list \<Rightarrow> ContextBudgetError + u64" where
  "estimate_provider_assistant env blocks =
     and_then (try_fold (\<lambda>acc b. and_then (estimate_content_block env b) (budget_add acc)) 0 blocks)
       (\<lambda>tokens. if blocks \<noteq> [] then budget_add tokens ROLE_OVERHEAD else Ok 0)"

definition estimate_request_header ::
    "session_env \<Rightarrow> string option \<Rightarrow> ToolSchema list \<Rightarrow> ContextBudgetError + u64" where
  "estimate_request_header env system tools =
     and_then (case system of
         None \<Rightarrow> Ok 0
       | Some s \<Rightarrow> and_then (estimated_text_tokens s) (\<lambda>t. budget_add t ROLE_OVERHEAD)) (\<lambda>system_tokens.
     and_then (if tools = [] then Ok 0
       else and_then (javascript_items_len env True 2 (map tool_raw tools)) (\<lambda>units.
         budget_add (div_ceil units CHARS_PER_TOKEN) BLOCK_OVERHEAD)) (\<lambda>tool_tokens.
       budget_add system_tokens tool_tokens))"

section \<open>Selecting a prefix\<close>

record SurfacePriceFacts =
  price_tokens :: u64
  price_tool_delta :: int

record CompactablePrefix =
  end_exclusive :: nat
  shadowed_token_count :: u64

definition checked_add_i64 :: "int \<Rightarrow> int \<Rightarrow> int option" where
  "checked_add_i64 a b = (if - (2 ^ 63) \<le> a + b \<and> a + b < 2 ^ 63 then Some (a + b) else None)"

text \<open>The whole surface must be balanced: no result before its call.\<close>

fun validate_balance :: "('n \<Rightarrow> SurfacePriceFacts) \<Rightarrow> int \<Rightarrow> 'n list \<Rightarrow> ContextBudgetError + unit" where
  "validate_balance f balance [] = Ok ()"
| "validate_balance f balance (n # ns) =
     and_then (ok_or (checked_add_i64 balance (price_tool_delta (f n))) TokenOverflow) (\<lambda>b.
       if b < 0 then Err UnbalancedSurface else validate_balance f b ns)"

text \<open>Walk from the newest node until enough tokens are retained.\<close>

fun keep_from :: "('n \<Rightarrow> SurfacePriceFacts) \<Rightarrow> 'n list \<Rightarrow> u64 \<Rightarrow> u64 \<Rightarrow> nat
    \<Rightarrow> ContextBudgetError + nat" where
  "keep_from f nodes retain retained 0 = Ok 0"
| "keep_from f nodes retain retained (Suc i) =
     and_then (budget_add retained (price_tokens (f (nodes ! i)))) (\<lambda>r.
       if r \<ge> retain then Ok i else keep_from f nodes retain r i)"

fun latest_balanced_cut :: "('n \<Rightarrow> SurfacePriceFacts) \<Rightarrow> int \<Rightarrow> nat \<Rightarrow> nat \<Rightarrow> 'n list
    \<Rightarrow> ContextBudgetError + nat" where
  "latest_balanced_cut f balance index latest [] = Ok latest"
| "latest_balanced_cut f balance index latest (n # ns) =
     and_then (ok_or (checked_add_i64 balance (price_tool_delta (f n))) TokenOverflow) (\<lambda>b.
       latest_balanced_cut f b (Suc index) (if b = 0 then Suc index else latest) ns)"

definition sum_tokens :: "('n \<Rightarrow> SurfacePriceFacts) \<Rightarrow> 'n list \<Rightarrow> ContextBudgetError + u64" where
  "sum_tokens f nodes = try_fold (\<lambda>acc n. budget_add acc (price_tokens (f n))) 0 nodes"

definition select_compactable_prefix ::
    "'n list \<Rightarrow> u64 \<Rightarrow> nat \<Rightarrow> ('n \<Rightarrow> SurfacePriceFacts) \<Rightarrow> ContextBudgetError + CompactablePrefix option" where
  "select_compactable_prefix nodes retain_tokens maximum f =
     (if nodes = [] \<or> maximum = 0 then Ok None
      else and_then (validate_balance f 0 nodes) (\<lambda>_.
        and_then (keep_from f nodes retain_tokens 0 (length nodes)) (\<lambda>keep.
          if keep = 0 then Ok None
          else and_then (latest_balanced_cut f 0 0 0 (take (min keep maximum) nodes)) (\<lambda>cut.
            if cut = 0 then Ok None
            else and_then (sum_tokens f (take cut nodes)) (\<lambda>count.
              Ok (Some \<lparr>end_exclusive = cut, shadowed_token_count = count\<rparr>))))))"

section \<open>The selected prefix is the largest safe one\<close>

lemma budget_add_Inr: "budget_add a b = Inr c \<Longrightarrow> unat c = unat a + unat b"
  by (auto simp: budget_add_def ok_or_Inr dest: checked_add_Some)

lemma sum_tokens_Inr:
  assumes "try_fold (\<lambda>acc n. budget_add acc (price_tokens (f n))) acc nodes = Inr t"
  shows "unat t = unat acc + (\<Sum>n\<leftarrow>nodes. unat (price_tokens (f n)))"
  using assms
  by (induction nodes arbitrary: acc) (auto simp: and_then_Inr dest!: budget_add_Inr)

abbreviation retained_tokens :: "('n \<Rightarrow> SurfacePriceFacts) \<Rightarrow> 'n list \<Rightarrow> nat" where
  "retained_tokens f nodes \<equiv> (\<Sum>n\<leftarrow>nodes. unat (price_tokens (f n)))"

abbreviation tool_balance :: "('n \<Rightarrow> SurfacePriceFacts) \<Rightarrow> 'n list \<Rightarrow> int" where
  "tool_balance f nodes \<equiv> (\<Sum>n\<leftarrow>nodes. price_tool_delta (f n))"

text \<open>A cut a compaction may make: it keeps the newest node and enough tokens, it shadows at most
  the allowed number of nodes, and it separates no tool call from its result.\<close>

definition valid_cut :: "('n \<Rightarrow> SurfacePriceFacts) \<Rightarrow> 'n list \<Rightarrow> u64 \<Rightarrow> nat \<Rightarrow> nat \<Rightarrow> bool" where
  "valid_cut f nodes retain maximum k \<longleftrightarrow> 0 < k \<and> k < length nodes \<and> k \<le> maximum
     \<and> tool_balance f (take k nodes) = 0 \<and> unat retain \<le> retained_tokens f (drop k nodes)"

lemma keep_from_less: "keep_from f nodes retain acc i = Inr k \<Longrightarrow> 0 < i \<Longrightarrow> k < i"
proof (induction i arbitrary: acc)
  case (Suc i)
  then show ?case by (cases i) (fastforce simp: and_then_Inr split: if_splits)+
qed simp

lemma retained_tokens_drop:
  assumes "i \<le> j"
  shows "retained_tokens f (drop j nodes) \<le> retained_tokens f (drop i nodes)"
proof -
  have "drop i nodes = take (j - i) (drop i nodes) @ drop j nodes"
    using assms by (metis append_take_drop_id drop_drop le_add_diff_inverse2)
  then have "retained_tokens f (drop i nodes) =
      retained_tokens f (take (j - i) (drop i nodes)) + retained_tokens f (drop j nodes)"
    by (metis map_append sum_list_append)
  then show ?thesis by simp
qed

lemma keep_from_Inr:
  assumes "keep_from f nodes retain acc i = Inr k" and "i \<le> length nodes"
    and "unat acc = retained_tokens f (drop i nodes)" and "0 < j" and "j < i"
  shows "j \<le> k \<longleftrightarrow> unat retain \<le> retained_tokens f (drop j nodes)"
  using assms
proof (induction i arbitrary: acc)
  case (Suc i)
  from Suc.prems(1) obtain r where r: "budget_add acc (price_tokens (f (nodes ! i))) = Inr r"
    and k: "(if r \<ge> retain then Inr i else keep_from f nodes retain r i) = Inr k"
    by (auto simp: and_then_Inr)
  have "drop i nodes = nodes ! i # drop (Suc i) nodes"
    using Suc.prems(2) by (simp add: Cons_nth_drop_Suc)
  with budget_add_Inr [OF r] Suc.prems(3) have sum: "unat r = retained_tokens f (drop i nodes)"
    by simp
  show ?case
  proof (cases "r \<ge> retain")
    case True
    with k sum have "k = i" "unat retain \<le> retained_tokens f (drop i nodes)"
      by (simp_all add: word_le_nat_alt)
    moreover have "retained_tokens f (drop i nodes) \<le> retained_tokens f (drop j nodes)"
      using Suc.prems(5) by (intro retained_tokens_drop) simp
    ultimately show ?thesis using Suc.prems(5) by simp
  next
    case False
    with k have k': "keep_from f nodes retain r i = Inr k" by simp
    show ?thesis
    proof (cases "j = i")
      case True
      with False sum keep_from_less [OF k'] Suc.prems(4) show ?thesis
        by (simp add: word_le_nat_alt)
    next
      case j: False
      with Suc.IH [OF k' _ sum] Suc.prems show ?thesis by simp
    qed
  qed
qed simp

definition balanced_cuts :: "('n \<Rightarrow> SurfacePriceFacts) \<Rightarrow> int \<Rightarrow> 'n list \<Rightarrow> nat set" where
  "balanced_cuts f b ns = {j. 0 < j \<and> j \<le> length ns \<and> b + tool_balance f (take j ns) = 0}"

lemma balanced_cuts_finite [simp]: "finite (balanced_cuts f b ns)"
  by (rule finite_subset [of _ "{..length ns}"]) (auto simp: balanced_cuts_def)

lemma balanced_cuts_Nil: "balanced_cuts f b [] = {}"
  by (auto simp: balanced_cuts_def)

lemma balanced_cuts_Cons:
  "balanced_cuts f b (n # ns) = (if b + price_tool_delta (f n) = 0 then {1} else {})
     \<union> Suc ` balanced_cuts f (b + price_tool_delta (f n)) ns"
proof -
  have "j \<in> balanced_cuts f b (n # ns) \<longleftrightarrow> (j = 1 \<and> b + price_tool_delta (f n) = 0)
      \<or> (\<exists>i. j = Suc i \<and> i \<in> balanced_cuts f (b + price_tool_delta (f n)) ns)" for j
  proof (cases j)
    case (Suc i)
    then show ?thesis by (cases i) (auto simp: balanced_cuts_def add.assoc)
  qed (simp add: balanced_cuts_def)
  then show ?thesis by auto
qed

lemma Max_Suc_image:
  assumes "finite Z" and "Z \<noteq> {}"
  shows "Max ((if p then {1} else {}) \<union> Suc ` Z) = Suc (Max Z)"
proof -
  have "Max (Suc ` Z) = Suc (Max Z)"
    using mono_Max_commute [of Suc Z] assms by (simp add: mono_def)
  with assms show ?thesis by (cases p) simp_all
qed

lemma latest_balanced_cut_Inr:
  assumes "latest_balanced_cut f b index latest ns = Inr c"
  shows "c = (if balanced_cuts f b ns = {} then latest else index + Max (balanced_cuts f b ns))"
  using assms
proof (induction ns arbitrary: b index latest)
  case Nil
  then show ?case by (simp add: balanced_cuts_Nil)
next
  case (Cons n ns)
  let ?b = "b + price_tool_delta (f n)"
  let ?Z = "balanced_cuts f ?b ns"
  have "latest_balanced_cut f ?b (Suc index) (if ?b = 0 then Suc index else latest) ns = Inr c"
    using Cons.prems by (auto simp: and_then_Inr ok_or_Inr checked_add_i64_def split: if_splits)
  from Cons.IH [OF this]
  have c: "c = (if ?Z = {} then if ?b = 0 then Suc index else latest else Suc index + Max ?Z)" .
  show ?case
  proof (cases "?Z = {}")
    case True
    then show ?thesis unfolding c balanced_cuts_Cons by simp
  next
    case False
    with Max_Suc_image [OF balanced_cuts_finite this] show ?thesis
      unfolding c balanced_cuts_Cons by simp
  qed
qed

text \<open>What a selection that returns has found.\<close>

lemma select_prefix_spec:
  assumes "select_compactable_prefix nodes retain maximum f = Ok r"
  shows "case r of
      None \<Rightarrow> \<forall>k. \<not> valid_cut f nodes retain maximum k
    | Some p \<Rightarrow> valid_cut f nodes retain maximum (end_exclusive p)
        \<and> (\<forall>k. valid_cut f nodes retain maximum k \<longrightarrow> k \<le> end_exclusive p)
        \<and> unat (shadowed_token_count p) = retained_tokens f (take (end_exclusive p) nodes)"
proof (cases "nodes = [] \<or> maximum = 0")
  case True
  with assms show ?thesis by (auto simp: select_compactable_prefix_def valid_cut_def)
next
  case False
  then obtain keep where keep: "keep_from f nodes retain 0 (length nodes) = Inr keep"
    using assms by (auto simp: select_compactable_prefix_def and_then_Inr)
  have below: "j \<le> keep \<longleftrightarrow> unat retain \<le> retained_tokens f (drop j nodes)"
    if "0 < j" "j < length nodes" for j
    using keep_from_Inr [OF keep _ _ that] by simp
  have keep_less: "keep < length nodes" using keep_from_less [OF keep] False by simp
  let ?ns = "take (min keep maximum) nodes"
  have len: "length ?ns = min keep maximum" using keep_less by simp
  have valid: "valid_cut f nodes retain maximum k \<longleftrightarrow> k \<in> balanced_cuts f 0 ?ns" for k
    using below [of k] keep_less len
    by (auto simp: valid_cut_def balanced_cuts_def min_def)
  show ?thesis
  proof (cases "balanced_cuts f 0 ?ns = {}")
    case True
    have "r = None"
    proof (cases "keep = 0")
      case True
      with assms False keep show ?thesis
        by (auto simp: select_compactable_prefix_def and_then_Inr)
    next
      case k: False
      with assms False keep obtain c where "latest_balanced_cut f 0 0 0 ?ns = Inr c"
          "if c = 0 then r = None else True"
        by (auto simp: select_compactable_prefix_def and_then_Inr split: if_splits)
      with latest_balanced_cut_Inr [OF this(1)] True show ?thesis by simp
    qed
    with True valid show ?thesis by simp
  next
    case ne: False
    then have "keep \<noteq> 0" using len by (auto simp: balanced_cuts_def)
    with assms False keep obtain c where c: "latest_balanced_cut f 0 0 0 ?ns = Inr c"
      and r: "if c = 0 then r = None
        else \<exists>t. sum_tokens f (take c nodes) = Inr t \<and> r = Some \<lparr>end_exclusive = c, shadowed_token_count = t\<rparr>"
      by (auto simp: select_compactable_prefix_def and_then_Inr split: if_splits)
    have c_max: "c = Max (balanced_cuts f 0 ?ns)"
      using latest_balanced_cut_Inr [OF c] ne by simp
    have "c \<in> balanced_cuts f 0 ?ns" "\<forall>k \<in> balanced_cuts f 0 ?ns. k \<le> c"
      unfolding c_max using ne by simp_all
    moreover from this have "c \<noteq> 0" by (auto simp: balanced_cuts_def)
    ultimately show ?thesis
      using r valid sum_tokens_Inr [of f 0 "take c nodes"] by (auto simp: sum_tokens_def)
  qed
qed

text \<open>C27
  The prefix a compaction may summarise is exactly the largest safe one: whenever the selection
  returns, it returns the greatest cut that keeps the newest node and at least the wanted number
  of tokens, shadows at most the allowed number of nodes and leaves every tool call together with
  its result, with the exact token count of the shadowed nodes; and it returns nothing only if no
  such cut exists.\<close>

theorem select_compactable_prefix_exact:
  assumes "select_compactable_prefix nodes retain maximum f = Ok r"
  shows "case r of
      None \<Rightarrow> \<forall>k. \<not> valid_cut f nodes retain maximum k
    | Some p \<Rightarrow> valid_cut f nodes retain maximum (end_exclusive p)
        \<and> (\<forall>k. valid_cut f nodes retain maximum k \<longrightarrow> k \<le> end_exclusive p)
        \<and> unat (shadowed_token_count p) = retained_tokens f (take (end_exclusive p) nodes)"
  using assms by (rule select_prefix_spec)

text \<open>A message, a call with its result, and a message: the largest cut that does not part the pair
  leaves the last message.\<close>

theorem select_compactable_prefix_exact_witness:
  "\<exists>p. select_compactable_prefix [(10, 0), (10, 1), (10, -1), (10 :: u64, 0 :: int)] 5 9
       (\<lambda>(t, d). \<lparr>price_tokens = t, price_tool_delta = d\<rparr>) = Ok (Some p)
     \<and> valid_cut (\<lambda>(t, d). \<lparr>price_tokens = t, price_tool_delta = d\<rparr>)
       [(10, 0), (10, 1), (10, -1), (10, 0)] 5 9 (end_exclusive p)"
proof -
  let ?f = "\<lambda>(t, d). \<lparr>price_tokens = t, price_tool_delta = d\<rparr>"
  let ?ns = "[(10, 0), (10, 1), (10, -1), (10 :: u64, 0 :: int)]"
  have balance: "validate_balance ?f 0 ?ns = Inr ()"
    by (simp add: checked_add_i64_def)
  have keep: "keep_from ?f ?ns 5 0 (length ?ns) = Inr 3"
    by (simp add: budget_add_def checked_add_def)
  have cut: "latest_balanced_cut ?f 0 0 0 (take (min 3 9) ?ns) = Inr 3"
    by (simp add: checked_add_i64_def)
  have count: "sum_tokens ?f (take 3 ?ns) = Inr 30"
    by (simp add: sum_tokens_def budget_add_def checked_add_def)
  have "select_compactable_prefix ?ns 5 9 ?f =
      Ok (Some \<lparr>end_exclusive = 3, shadowed_token_count = 30\<rparr>)"
    unfolding select_compactable_prefix_def balance keep and_then.simps
    by (subst if_not_P, simp, subst if_not_P, simp) (simp only: cut count and_then.simps, simp)
  from select_compactable_prefix_exact [OF this] this show ?thesis by auto
qed

end
