(* ===== verification/Projection_State.thy ===== *)
theory Projection_State
  imports Context_Budget
begin

text \<open>
  The state of the session projection (\<open>src/session/projection.rs\<close>): the open turn and step with
  their tool calls, the model-visible surface, the retry and approval indices, and the compaction
  bracket. Ordered maps are association lists with one entry per key. The fold of the current
  provider attempt and the token anchor it installs are not part of this record; \<open>Attempt\<close> and
  \<open>Live_Projection\<close> extend it with them.
\<close>

section \<open>Policies\<close>

datatype (plugins only: code size) ValidationPolicy = MemoryCompatible | DurableStrict

datatype (plugins only: code size) ValidationAdmission =
    Ordinary | CompatibilityReplay | ColdScan | OwnedAttempt | OwnedPrune | OwnedOverflowPrune
  | HistoricalScan

definition is_unprivileged_durable :: "ValidationAdmission \<Rightarrow> bool" where
  "is_unprivileged_durable a \<longleftrightarrow> a = Ordinary \<or> a = ColdScan"

definition MAX_DURABLE_TOOL_CALLS_PER_STEP :: nat where
  "MAX_DURABLE_TOOL_CALLS_PER_STEP = 64"

definition TOOL_NOT_STARTED :: string where
  "TOOL_NOT_STARTED = ''TOOL_NOT_STARTED''"

definition RECOVERY_TOOL_RESULT_ID_PREFIX :: string where
  "RECOVERY_TOOL_RESULT_ID_PREFIX = ''dsh-recovery-tool-result-v1-''"

section \<open>Turns, steps and tool calls\<close>

datatype (plugins only: code size) DurableApproval =
    ApprovalPending ApprovalRequestId
  | ApprovalResolved ApprovalRequestId ApprovalOutcome

record DurableDeclaredCall =
  declared_id :: call_id
  declared_name :: string
  declared_message :: Message
  declared_block_index :: nat
  declared_intent_seq :: "EventSeq option"
  declared_approval :: "DurableApproval option"
  declared_result_seen :: bool

definition declared_arguments :: "DurableDeclaredCall \<Rightarrow> string option" where
  "declared_arguments c =
     (if declared_block_index c < length (message_content (declared_message c))
      then (case block_kind (message_content (declared_message c) ! declared_block_index c) of
          ToolCallBlock _ _ arguments \<Rightarrow> Some arguments
        | _ \<Rightarrow> None)
      else None)"

record OpenStep =
  step_turn :: TurnId
  step_id :: StepId
  step_start_surface_tokens :: u64
  step_pending_calls :: "call_id list"
  step_declared_calls :: "DurableDeclaredCall list"

datatype (plugins only: code size) Boundary =
    BoundaryIdle
  | BoundaryTurn TurnId StepId
  | BoundaryStep OpenStep

section \<open>Compaction\<close>

record CompactionRecipe =
  recipe_trigger :: CompactionTrigger
  recipe_range :: CompactionRange
  recipe_shadowed_seqs :: "EventSeq list"
  recipe_shadowed_token_count :: u64
  recipe_provider :: string
  recipe_model :: string
  recipe_max_tokens :: "NonNegativeSafeInteger option"

record SummarizedCompaction =
  summarized_seq :: EventSeq
  summarized_range :: CompactionRange
  summarized_shadowed_seqs :: "EventSeq list"
  summarized_blocks :: "json list"
  summarized_token_count :: NonNegativeSafeInteger

datatype (plugins only: code size) CompactionPhase =
    PhaseStarted
  | PhaseSummarized SummarizedCompaction
  | PhaseReplaced EventSeq EventSeq

record OpenCompaction =
  open_compaction_id :: CompactionId
  open_source_command_id :: "string option"
  open_owner :: "TurnId option"
  open_start_seq :: EventSeq
  open_recipe :: "CompactionRecipe option"
  open_phase :: CompactionPhase

record CompactionState =
  surface_generation :: u64
  replacement_generation :: u64
  open_compaction :: "OpenCompaction option"
  prune_claim :: "EventSeq option"
  orphan_prune_count :: u64

definition compaction_default :: CompactionState where
  "compaction_default = \<lparr>surface_generation = 0, replacement_generation = 0,
     open_compaction = None, prune_claim = None, orphan_prune_count = 0\<rparr>"

section \<open>Surface\<close>

text \<open>The digests of \<open>MaskedToolResultDigest\<close> and \<open>RawRowDigest\<close> are byte strings.\<close>

record JournalRowLocator =
  row_seq :: EventSeq
  row_offset :: u64
  row_length :: u32
  row_sha256 :: string

datatype (plugins only: code size) ToolResultOrigin =
    OriginMemory string
  | OriginPendingDurable string
  | OriginDurable string JournalRowLocator

datatype (plugins only: code size) SurfaceRowBinding = BindMemory | BindPendingDurable | BindDurable JournalRowLocator

datatype (plugins only: code size) SurfaceNodeKind = NodeUser | NodeAssistant | NodeToolResult

record SurfaceNode =
  node_seq :: EventSeq
  node_kind :: SurfaceNodeKind
  node_message :: "Message option"
  node_estimated_tokens :: u64
  node_tool_delta :: int
  node_tool_result :: "ToolResultOrigin option"

section \<open>The projection\<close>

record TimeContextProjection =
  preceding_message :: "UnixMillis option"
  open_turn_reading :: "UnixMillis option"

type_synonym RetryChainKey = "TurnId \<times> StepId \<times> string \<times> string"

record RetryChainState =
  chain_retry_id :: RetryId
  chain_latest :: RetryNumber

record RetryScheduleState =
  schedule_turn :: TurnId
  schedule_step :: StepId
  schedule_started :: bool

record Projection =
  policy :: ValidationPolicy
  session_id :: "SessionId option"
  next_turn :: TurnId
  boundary :: Boundary
  surface_nodes :: "SurfaceNode list"
  surface_tokens :: u64
  surface_resident_bytes :: usize
  request_header :: "EpochHeader option"
  request_header_seq :: "EventSeq option"
  request_context :: "RequestContext option"
  request_context_seq :: "EventSeq option"
  goal_replay :: GoalReplayState
  plan_mode_active :: bool
  permission_preset :: "PermissionPreset option"
  standing_todos :: "TodoItem list option"
  session_title :: "SessionTitleEvent option"
  session_title_llm_requested :: bool
  session_title_first_prompt :: "(EventSeq \<times> string) option"
  compaction :: CompactionState
  pending_approvals :: "ApprovalRequestId list"
  owned_approval_ids :: "ApprovalRequestId list"
  retry_chains :: "(RetryChainKey \<times> RetryChainState) list"
  retry_schedules :: "((RetryId \<times> RetryNumber) \<times> RetryScheduleState) list"
  time_context :: TimeContextProjection

definition projection_empty :: "ValidationPolicy \<Rightarrow> Projection" where
  "projection_empty p = \<lparr>policy = p, session_id = None, next_turn = first_id,
     boundary = BoundaryIdle, surface_nodes = [], surface_tokens = 0, surface_resident_bytes = 0,
     request_header = None, request_header_seq = None, request_context = None,
     request_context_seq = None, goal_replay = replay_default, plan_mode_active = False,
     permission_preset = None, standing_todos = None, session_title = None,
     session_title_llm_requested = False, session_title_first_prompt = None,
     compaction = compaction_default, pending_approvals = [], owned_approval_ids = [],
     retry_chains = [], retry_schedules = [],
     time_context = \<lparr>preceding_message = None, open_turn_reading = None\<rparr>\<rparr>"

definition projection_for_session :: "ValidationPolicy \<Rightarrow> SessionId \<Rightarrow> Projection" where
  "projection_for_session p sid = (projection_empty p)\<lparr>session_id := Some sid\<rparr>"

section \<open>Reading the state\<close>

definition open_turn :: "'a Projection_scheme \<Rightarrow> TurnId option" where
  "open_turn p = (case boundary p of
      BoundaryIdle \<Rightarrow> None
    | BoundaryTurn turn _ \<Rightarrow> Some turn
    | BoundaryStep s \<Rightarrow> Some (step_turn s))"

definition open_step :: "'a Projection_scheme \<Rightarrow> StepId option" where
  "open_step p = (case boundary p of BoundaryStep s \<Rightarrow> Some (step_id s) | _ \<Rightarrow> None)"

definition wrong_open_step :: "'a Projection_scheme \<Rightarrow> string \<Rightarrow> TurnId \<Rightarrow> StepId \<Rightarrow> TransitionError" where
  "wrong_open_step p ety turn step = WrongOpenStep ety (open_turn p) (open_step p) turn step"

definition require_open_step ::
    "'a Projection_scheme \<Rightarrow> string \<Rightarrow> TurnId \<Rightarrow> StepId \<Rightarrow> TransitionError + unit" where
  "require_open_step p ety turn step =
     (if open_turn p \<noteq> Some turn \<or> open_step p \<noteq> Some step
      then Err (wrong_open_step p ety turn step) else Ok ())"

definition require_open_turn :: "'a Projection_scheme \<Rightarrow> string \<Rightarrow> TransitionError + unit" where
  "require_open_turn p ety =
     (if open_turn p = None then Err (EventOutsideTurn ety) else Ok ())"

definition has_pending_durable_call :: "'a Projection_scheme \<Rightarrow> bool" where
  "has_pending_durable_call p = (case boundary p of
      BoundaryStep s \<Rightarrow> step_pending_calls s \<noteq> []
        \<or> list_ex (\<lambda>c. \<not> declared_result_seen c) (step_declared_calls s)
    | _ \<Rightarrow> False)"

fun is_replace :: "SurfaceOp option \<Rightarrow> bool" where
  "is_replace (Some (SurfaceReplace _ _)) = True"
| "is_replace _ = False"

definition surface_price_facts :: "SurfaceNode \<Rightarrow> SurfacePriceFacts" where
  "surface_price_facts n = \<lparr>price_tokens = node_estimated_tokens n, price_tool_delta = node_tool_delta n\<rparr>"

fun context_budget_surface_error :: "ContextBudgetError \<Rightarrow> SurfaceError" where
  "context_budget_surface_error TokenOverflow = TokenAccountingOverflow"
| "context_budget_surface_error UnbalancedSurface = UnbalancedToolSurface"

text \<open>The first element with a property, updated (\<open>iter_mut().find(p)\<close>).\<close>

fun update_first :: "('a \<Rightarrow> bool) \<Rightarrow> ('a \<Rightarrow> 'a) \<Rightarrow> 'a list \<Rightarrow> 'a list" where
  "update_first p f [] = []"
| "update_first p f (x # xs) = (if p x then f x # xs else x # update_first p f xs)"

lemma require_open_step_Inr:
  "require_open_step p e turn step = Inr u \<longleftrightarrow>
     (\<exists>s. boundary p = BoundaryStep s \<and> step_turn s = turn \<and> step_id s = step)"
  by (auto simp: require_open_step_def open_turn_def open_step_def split: Boundary.splits)

lemma require_open_turn_Inr: "require_open_turn p e = Inr u \<longleftrightarrow> boundary p \<noteq> BoundaryIdle"
  by (auto simp: require_open_turn_def open_turn_def split: Boundary.splits)

lemma update_first_map:
  "(\<And>x. g (f x) = g x) \<Longrightarrow> map g (update_first p f xs) = map g xs"
  by (induction xs) auto

lemma update_first_set: "set (update_first p f xs) \<subseteq> set xs \<union> f ` {x \<in> set xs. p x}"
  by (induction xs) auto

end
