(* ===== verification/Projection_Turns.thy ===== *)
theory Projection_Turns
  imports Projection_State "HOL-Library.AList"
begin

text \<open>
  \<open>Projection::apply_transition\<close> (\<open>src/session/projection.rs\<close>): turns, steps, tool calls,
  approvals and provider retries, one definition per event arm. A transition that fails leaves the
  committed projection as it was (the code works on a clone, or discards the whole candidate), so
  a failure is only its error. Every definition works on extensions of the record too.
\<close>

section \<open>Validation of payloads against limits\<close>

definition validate_durable_call_identity :: "call_id \<Rightarrow> string \<Rightarrow> TransitionError + unit" where
  "validate_durable_call_identity i name =
     (if i = [] \<or> length i > 1024 \<or> has_control i \<or> name = [] \<or> length name > 256 \<or> has_control name
      then Err (InvalidDurableToolCallIdentity i) else Ok ())"

text \<open>Every failing entry gives the same error, so the loop is a conjunction.\<close>

definition validate_todo_snapshot :: "TodoItem list \<Rightarrow> TransitionError + unit" where
  "validate_todo_snapshot todos =
     (if list_all (\<lambda>t. todo_content t \<noteq> [] \<and> trim (todo_content t) = todo_content t) todos
         \<and> distinct (map todo_content todos)
      then Ok () else Err InvalidTodoSnapshot)"

section \<open>Turns and steps\<close>

definition apply_turn_start :: "'a Projection_scheme \<Rightarrow> TurnId \<Rightarrow> TransitionError + 'a Projection_scheme" where
  "apply_turn_start p turn = (case open_turn p of
      Some opened \<Rightarrow> Err (TurnAlreadyOpen opened turn)
    | None \<Rightarrow>
        if turn \<noteq> next_turn p then Err (WrongNextTurn (next_turn p) turn)
        else Ok (p\<lparr>boundary := BoundaryTurn turn first_id,
                   time_context := (time_context p)\<lparr>open_turn_reading := None\<rparr>,
                   standing_todos := None\<rparr>))"

definition apply_turn_end :: "'a Projection_scheme \<Rightarrow> TurnId \<Rightarrow> TransitionError + 'a Projection_scheme" where
  "apply_turn_end p turn =
     (if open_turn p \<noteq> Some turn then Err (WrongTurnEnd (open_turn p) turn)
      else case open_step p of
        Some s \<Rightarrow> Err (TurnEndWhileStepOpen turn s)
      | None \<Rightarrow> (case pending_approvals p of
            a # _ \<Rightarrow> Err (ApprovalStillPending ''turn/end'' a)
          | [] \<Rightarrow>
              and_then (ok_or (safe_successor turn) IdentifierExhausted) (\<lambda>next.
                Ok (p\<lparr>next_turn := next, boundary := BoundaryIdle,
                      time_context := (time_context p)\<lparr>open_turn_reading := None\<rparr>\<rparr>))))"

definition apply_step_start ::
    "'a Projection_scheme \<Rightarrow> TurnId \<Rightarrow> StepId \<Rightarrow> TransitionError + 'a Projection_scheme" where
  "apply_step_start p turn step = (case boundary p of
      BoundaryIdle \<Rightarrow> Err (StepOutsideTurn None turn)
    | BoundaryStep s \<Rightarrow>
        if step_turn s \<noteq> turn then Err (StepOutsideTurn (Some (step_turn s)) turn)
        else Err (StepAlreadyOpen (step_id s) step)
    | BoundaryTurn opened next_step \<Rightarrow>
        if opened \<noteq> turn then Err (StepOutsideTurn (Some opened) turn)
        else if next_step \<noteq> step then Err (WrongNextStep turn next_step step)
        else Ok (p\<lparr>boundary := BoundaryStep \<lparr>step_turn = turn, step_id = step,
          step_start_surface_tokens = surface_tokens p, step_pending_calls = [],
          step_declared_calls = []\<rparr>\<rparr>))"

definition unresolved_declaration :: "'a Projection_scheme \<Rightarrow> DurableDeclaredCall option" where
  "unresolved_declaration p = (case boundary p of
      BoundaryStep s \<Rightarrow> List.find (\<lambda>c. \<not> declared_result_seen c) (step_declared_calls s)
    | _ \<Rightarrow> None)"

definition apply_step_end ::
    "'a Projection_scheme \<Rightarrow> TurnId \<Rightarrow> StepId \<Rightarrow> TransitionError + 'a Projection_scheme" where
  "apply_step_end p turn step =
     and_then (require_open_step p ''step/end'' turn step) (\<lambda>_.
     and_then (case if policy p = DurableStrict then unresolved_declaration p else None of
         Some c \<Rightarrow> Err (DurableCallStillPending ''step/end'' (declared_id c))
       | None \<Rightarrow> Ok ()) (\<lambda>_.
       case pending_approvals p of
         a # _ \<Rightarrow> Err (ApprovalStillPending ''step/end'' a)
       | [] \<Rightarrow>
           and_then (ok_or (safe_successor step) IdentifierExhausted) (\<lambda>next.
             Ok (p\<lparr>boundary := BoundaryTurn turn next\<rparr>))))"

section \<open>Tool calls\<close>

text \<open>The loop over the blocks of an assistant message.\<close>

fun register_declarations :: "Message \<Rightarrow> nat \<Rightarrow> ContentBlock list \<Rightarrow> DurableDeclaredCall list
    \<Rightarrow> TransitionError + DurableDeclaredCall list" where
  "register_declarations m index [] declared = Ok declared"
| "register_declarations m index (b # bs) declared = (case block_kind b of
      ToolCallBlock i name _ \<Rightarrow>
        and_then (validate_durable_call_identity i name) (\<lambda>_.
          if length declared \<ge> MAX_DURABLE_TOOL_CALLS_PER_STEP
          then Err (TooManyDurableToolCalls MAX_DURABLE_TOOL_CALLS_PER_STEP)
          else if list_ex (\<lambda>c. declared_id c = i) declared then Err (DuplicateDurableToolCall i)
          else register_declarations m (Suc index) bs (declared @
            [\<lparr>declared_id = i, declared_name = name, declared_message = m,
              declared_block_index = index, declared_intent_seq = None, declared_approval = None,
              declared_result_seen = False\<rparr>]))
    | _ \<Rightarrow> register_declarations m (Suc index) bs declared)"

definition register_durable_declarations ::
    "'a Projection_scheme \<Rightarrow> Message \<Rightarrow> TransitionError + 'a Projection_scheme" where
  "register_durable_declarations p m =
     (if policy p \<noteq> DurableStrict then Ok p
      else case boundary p of
        BoundaryStep s \<Rightarrow>
          and_then (register_declarations m 0 (message_content m) (step_declared_calls s)) (\<lambda>declared.
            Ok (p\<lparr>boundary := BoundaryStep (s\<lparr>step_declared_calls := declared\<rparr>)\<rparr>))
      | _ \<Rightarrow> Ok p)"

definition apply_assistant_message ::
    "'a Projection_scheme \<Rightarrow> TurnId \<Rightarrow> StepId \<Rightarrow> Message \<Rightarrow> TransitionError + 'a Projection_scheme" where
  "apply_assistant_message p turn step m =
     and_then (require_open_step p ''assistant/message'' turn step) (\<lambda>_.
       register_durable_declarations p m)"

definition awaits_intent :: "DurableDeclaredCall \<Rightarrow> bool" where
  "awaits_intent c \<longleftrightarrow> declared_intent_seq c = None \<and> \<not> declared_result_seen c"

definition promote_durable_call :: "'a Projection_scheme \<Rightarrow> EventSeq \<Rightarrow> call_id \<Rightarrow> string \<Rightarrow> string
    \<Rightarrow> TransitionError + 'a Projection_scheme" where
  "promote_durable_call p seq call_id name arguments =
     (if policy p \<noteq> DurableStrict then Ok p
      else and_then (validate_durable_call_identity call_id name) (\<lambda>_.
        case boundary p of
          BoundaryStep s \<Rightarrow> (case List.find awaits_intent (step_declared_calls s) of
              None \<Rightarrow> Err (DurableToolCallWithoutDeclaration call_id)
            | Some c \<Rightarrow>
                if declared_id c \<noteq> call_id \<or> declared_name c \<noteq> name
                  \<or> declared_arguments c \<noteq> Some arguments
                then Err (DurableToolCallMismatch (declared_id c) call_id)
                else Ok (p\<lparr>boundary := BoundaryStep (s\<lparr>step_declared_calls :=
                  update_first awaits_intent (\<lambda>c. c\<lparr>declared_intent_seq := Some seq\<rparr>)
                    (step_declared_calls s)\<rparr>)\<rparr>))
        | _ \<Rightarrow> Ok p))"

definition push_pending_call :: "'a Projection_scheme \<Rightarrow> call_id \<Rightarrow> 'a Projection_scheme" where
  "push_pending_call p call_id = (case boundary p of
      BoundaryStep s \<Rightarrow>
        if call_id \<in> set (step_pending_calls s) then p
        else p\<lparr>boundary := BoundaryStep (s\<lparr>step_pending_calls := step_pending_calls s @ [call_id]\<rparr>)\<rparr>
    | _ \<Rightarrow> p)"

definition apply_tool_call :: "'a Projection_scheme \<Rightarrow> EventSeq \<Rightarrow> TurnId \<Rightarrow> StepId \<Rightarrow> call_id \<Rightarrow> string
    \<Rightarrow> string \<Rightarrow> TransitionError + 'a Projection_scheme" where
  "apply_tool_call p seq turn step call_id name arguments =
     and_then (require_open_step p ''tool/call'' turn step) (\<lambda>_.
     and_then (promote_durable_call p seq call_id name arguments) (\<lambda>p.
       Ok (push_pending_call p call_id)))"

definition failure_code_is :: "string \<Rightarrow> ToolFailure option \<Rightarrow> bool" where
  "failure_code_is code error = (case error of None \<Rightarrow> False | Some f \<Rightarrow> tool_failure_code f = code)"

fun approval_failure_code :: "ApprovalOutcome \<Rightarrow> string option" where
  "approval_failure_code OutcomeAllowedOnce = None"
| "approval_failure_code OutcomeRejected = Some ''APPROVAL_REJECTED''"
| "approval_failure_code OutcomeCancelled = Some ''APPROVAL_CANCELLED''"
| "approval_failure_code OutcomeUnavailable = Some ''APPROVAL_UNAVAILABLE''"

text \<open>The checks of \<open>resolve_durable_call\<close> on the declared call: its intent, then its decision.\<close>

definition check_result_intent :: "SessionEvent \<Rightarrow> Message \<Rightarrow> ToolFailure option \<Rightarrow> ValidationAdmission
    \<Rightarrow> DurableDeclaredCall \<Rightarrow> TransitionError + unit" where
  "check_result_intent e m error admission c = (case declared_intent_seq c of
      Some intent \<Rightarrow>
        if event_sources e \<noteq> Some [intent] then Err (DurableToolResultWrongSource (declared_id c))
        else Ok ()
    | None \<Rightarrow>
        (let canonical_not_started = event_sources e = None \<and> tool_result_is_error m
               \<and> failure_code_is TOOL_NOT_STARTED error
         in if is_unprivileged_durable admission \<and> canonical_not_started
            then Err (DurableRecoveryEventNotAllowed ''tool/result'')
            else if \<not> canonical_not_started then Err (DurableToolResultWithoutIntent (declared_id c))
            else Ok ()))"

definition check_result_decision :: "Message \<Rightarrow> ToolFailure option \<Rightarrow> DurableDeclaredCall
    \<Rightarrow> TransitionError + unit" where
  "check_result_decision m error c = (case declared_approval c of
      Some (ApprovalResolved i outcome) \<Rightarrow> (case approval_failure_code outcome of
          Some expected \<Rightarrow>
            if \<not> tool_result_is_error m \<or> \<not> failure_code_is expected error
            then Err (DurableApprovalResultMismatch i (declared_id c)) else Ok ()
        | None \<Rightarrow> Ok ())
    | _ \<Rightarrow> Ok ())"

fun approval_is_pending :: "DurableApproval option \<Rightarrow> bool" where
  "approval_is_pending (Some (ApprovalPending _)) = True"
| "approval_is_pending _ = False"

definition resolve_durable_call :: "'a Projection_scheme \<Rightarrow> SessionEvent \<Rightarrow> Message \<Rightarrow> ToolFailure option
    \<Rightarrow> ValidationAdmission \<Rightarrow> TransitionError + 'a Projection_scheme" where
  "resolve_durable_call p e m error admission =
     (if policy p \<noteq> DurableStrict then Ok p
      else and_then (map_err (\<lambda>_. DurableToolResultMismatch ''invalid'') (validate_tool_result m)) (\<lambda>call_id.
        case boundary p of
          BoundaryStep s \<Rightarrow> (case List.find (\<lambda>c. declared_id c = call_id) (step_declared_calls s) of
              None \<Rightarrow> Err (DurableToolResultMismatch call_id)
            | Some c \<Rightarrow>
                if declared_result_seen c then Err (DuplicateDurableToolResult call_id)
                else if approval_is_pending (declared_approval c)
                then Err (DurableToolResultBeforeDecision call_id)
                else and_then (check_result_intent e m error admission c) (\<lambda>_.
                  and_then (check_result_decision m error c) (\<lambda>_.
                    Ok (p\<lparr>boundary := BoundaryStep (s\<lparr>step_declared_calls :=
                      update_first (\<lambda>c. declared_id c = call_id)
                        (\<lambda>c. c\<lparr>declared_result_seen := True\<rparr>) (step_declared_calls s)\<rparr>)\<rparr>))))
        | _ \<Rightarrow> Err (DurableToolResultMismatch call_id)))"

definition remove_pending_call :: "'a Projection_scheme \<Rightarrow> TurnId \<Rightarrow> StepId \<Rightarrow> call_id \<Rightarrow> bool
    \<Rightarrow> TransitionError + 'a Projection_scheme" where
  "remove_pending_call p turn step call_id synthetic_not_started = (case boundary p of
      BoundaryStep s \<Rightarrow>
        if call_id \<in> set (step_pending_calls s)
        then Ok (p\<lparr>boundary := BoundaryStep (s\<lparr>step_pending_calls :=
          remove1 call_id (step_pending_calls s)\<rparr>)\<rparr>)
        else if synthetic_not_started then Ok p
        else Err (MissingToolCall call_id)
    | _ \<Rightarrow> Err (wrong_open_step p ''tool/result'' turn step))"

definition apply_tool_result :: "'a Projection_scheme \<Rightarrow> SessionEvent \<Rightarrow> TurnId \<Rightarrow> StepId \<Rightarrow> Message
    \<Rightarrow> ToolFailure option \<Rightarrow> ValidationAdmission \<Rightarrow> TransitionError + 'a Projection_scheme" where
  "apply_tool_result p e turn step m error admission =
     (if is_replace (event_surface_op e)
      then and_then (require_open_turn p ''tool/result replacement'') (\<lambda>_. Ok p)
      else and_then (require_open_step p ''tool/result'' turn step) (\<lambda>_.
        and_then (resolve_durable_call p e m error admission) (\<lambda>p.
        and_then (map_err (\<lambda>_. MissingToolCall ''invalid'') (validate_tool_result m)) (\<lambda>call_id.
          remove_pending_call p turn step call_id
            (tool_result_is_error m \<and> failure_code_is TOOL_NOT_STARTED error)))))"

section \<open>Approvals\<close>

definition ask_durable_approval ::
    "'a Projection_scheme \<Rightarrow> ApprovalAskedEvent \<Rightarrow> TransitionError + 'a Projection_scheme" where
  "ask_durable_approval p asked =
     (if policy p \<noteq> DurableStrict then Ok p
      else case pending_approvals p of
        pending # _ \<Rightarrow> Err (MultipleDurableApprovals pending)
      | [] \<Rightarrow> (case asked_call_id asked of
          None \<Rightarrow> Err DurableApprovalWithoutCall
        | Some call_id \<Rightarrow> (case boundary p of
            BoundaryStep s \<Rightarrow>
              (let eligible = (\<lambda>c. declared_id c = call_id \<and> declared_intent_seq c \<noteq> None
                     \<and> \<not> declared_result_seen c)
               in case List.find eligible (step_declared_calls s) of
                 None \<Rightarrow> Err (DurableApprovalCallMismatch call_id)
               | Some c \<Rightarrow>
                   if declared_name c \<noteq> asked_tool_name asked
                   then Err (DurableApprovalToolMismatch (declared_name c) (asked_tool_name asked))
                   else if declared_approval c \<noteq> None then Err (DurableApprovalRepeated call_id)
                   else Ok (p\<lparr>boundary := BoundaryStep (s\<lparr>step_declared_calls :=
                     update_first eligible
                       (\<lambda>c. c\<lparr>declared_approval := Some (ApprovalPending (asked_id asked))\<rparr>)
                       (step_declared_calls s)\<rparr>)\<rparr>))
          | _ \<Rightarrow> Err (DurableApprovalCallMismatch call_id))))"

definition decide_durable_approval ::
    "'a Projection_scheme \<Rightarrow> ApprovalDecidedEvent \<Rightarrow> TransitionError + 'a Projection_scheme" where
  "decide_durable_approval p decided =
     (if policy p \<noteq> DurableStrict then Ok p
      else case boundary p of
        BoundaryStep s \<Rightarrow>
          (let waiting = (\<lambda>c. declared_approval c = Some (ApprovalPending (decided_id decided)))
           in case List.find waiting (step_declared_calls s) of
             None \<Rightarrow> Err (DurableApprovalDecisionMismatch (decided_id decided))
           | Some _ \<Rightarrow> Ok (p\<lparr>boundary := BoundaryStep (s\<lparr>step_declared_calls :=
               update_first waiting (\<lambda>c. c\<lparr>declared_approval :=
                 Some (ApprovalResolved (decided_id decided) (decided_outcome decided))\<rparr>)
                 (step_declared_calls s)\<rparr>)\<rparr>))
      | _ \<Rightarrow> Err (DurableApprovalDecisionMismatch (decided_id decided)))"

definition apply_approval_asked ::
    "'a Projection_scheme \<Rightarrow> ApprovalAskedEvent \<Rightarrow> TransitionError + 'a Projection_scheme" where
  "apply_approval_asked p asked =
     and_then (require_open_turn p ''approval/asked'') (\<lambda>_.
       if asked_id asked \<in> set (pending_approvals p) then Err (ApprovalIdAlreadyPending (asked_id asked))
       else if asked_id asked \<in> set (owned_approval_ids p)
       then Err (ApprovalIdAlreadyOwned (asked_id asked))
       else and_then (ask_durable_approval p asked) (\<lambda>p.
         Ok (p\<lparr>owned_approval_ids := List.insert (asked_id asked) (owned_approval_ids p),
               pending_approvals := pending_approvals p @ [asked_id asked]\<rparr>)))"

definition apply_approval_decided ::
    "'a Projection_scheme \<Rightarrow> ApprovalDecidedEvent \<Rightarrow> TransitionError + 'a Projection_scheme" where
  "apply_approval_decided p decided =
     and_then (require_open_turn p ''approval/decided'') (\<lambda>_.
       if decided_id decided \<notin> set (pending_approvals p)
       then Err (ApprovalDecisionWithoutRequest (decided_id decided))
       else and_then (decide_durable_approval p decided) (\<lambda>p.
         Ok (p\<lparr>pending_approvals := remove1 (decided_id decided) (pending_approvals p)\<rparr>)))"

section \<open>Provider retries\<close>

definition expected_provider :: "'a Projection_scheme \<Rightarrow> string" where
  "expected_provider p = (case request_header p of None \<Rightarrow> [] | Some h \<Rightarrow> config_provider (header_config h))"

definition retry_chain_key :: "LlmRetryEvent \<Rightarrow> RetryChainKey" where
  "retry_chain_key r = (retry_turn r, retry_step r, retry_provider r, retry_policy_key r)"

definition retry_id_owned :: "'a Projection_scheme \<Rightarrow> RetryId \<Rightarrow> bool" where
  "retry_id_owned p i = list_ex (\<lambda>((j, _), _). j = i) (retry_schedules p)"

definition apply_retry :: "'a Projection_scheme \<Rightarrow> LlmRetryEvent \<Rightarrow> TransitionError + 'a Projection_scheme" where
  "apply_retry p r =
     and_then (require_open_step p ''llm/retry'' (retry_turn r) (retry_step r)) (\<lambda>_.
       if retry_provider r \<noteq> expected_provider p
       then Err (RetryProviderMismatch (expected_provider p) (retry_provider r))
       else (let prior = map_of (retry_chains p) (retry_chain_key r) in
         and_then (case prior of
             Some c \<Rightarrow> ok_or (safe_successor (chain_latest c)) IdentifierExhausted
           | None \<Rightarrow> Ok first_id) (\<lambda>expected.
           if retry_number r \<noteq> expected then Err (WrongRetryNumber expected (retry_number r))
           else and_then (case prior of
               Some c \<Rightarrow> if chain_retry_id c \<noteq> retry_id r
                         then Err (RetryChainIdMismatch (chain_retry_id c) (retry_id r)) else Ok ()
             | None \<Rightarrow> if retry_id_owned p (retry_id r) then Err (RetryIdAlreadyOwned (retry_id r)) else Ok ())
             (\<lambda>_. Ok (p\<lparr>
               retry_chains := AList.update (retry_chain_key r)
                 \<lparr>chain_retry_id = retry_id r, chain_latest = retry_number r\<rparr> (retry_chains p),
               retry_schedules := AList.update (retry_id r, retry_number r)
                 \<lparr>schedule_turn = retry_turn r, schedule_step = retry_step r, schedule_started = False\<rparr>
                 (retry_schedules p)\<rparr>)))))"

definition apply_retry_started ::
    "'a Projection_scheme \<Rightarrow> LlmRetryStartedEvent \<Rightarrow> TransitionError + 'a Projection_scheme" where
  "apply_retry_started p s =
     (let key = (started_retry_id s, started_retry s) in
      case map_of (retry_schedules p) key of
        None \<Rightarrow> Err (RetryStartedWithoutSchedule (started_retry_id s) (started_retry s))
      | Some schedule \<Rightarrow>
          if schedule_turn schedule \<noteq> started_turn s \<or> schedule_step schedule \<noteq> started_step s
          then Err (RetryStartedWithoutSchedule (started_retry_id s) (started_retry s))
          else if schedule_started schedule
          then Err (RetryStartedTwice (started_retry_id s) (started_retry s))
          else Ok (p\<lparr>retry_schedules := AList.update key (schedule\<lparr>schedule_started := True\<rparr>)
            (retry_schedules p)\<rparr>))"

section \<open>The transition\<close>

text \<open>Events only the recovery lifecycle may append to a strict session.\<close>

fun is_recovery_boundary :: "EventKind \<Rightarrow> bool" where
  "is_recovery_boundary EndSeed = True"
| "is_recovery_boundary (TurnEnd _ TurnInterrupted) = True"
| "is_recovery_boundary _ = False"

fun is_recovery_result :: "EventKind \<Rightarrow> bool" where
  "is_recovery_result (ToolResult _ _ m _ _) = starts_with RECOVERY_TOOL_RESULT_ID_PREFIX (message_id m)"
| "is_recovery_result _ = False"

definition capture_first_prompt :: "SessionEvent \<Rightarrow> 'a Projection_scheme \<Rightarrow> 'a Projection_scheme" where
  "capture_first_prompt e p =
     (if session_title_first_prompt p = None then
        (case event_kind e of
           UserMessage m \<Rightarrow> (case title_prompt_text m of
               Some text \<Rightarrow> p\<lparr>session_title_first_prompt := Some (event_seq e, text)\<rparr>
             | None \<Rightarrow> p)
         | _ \<Rightarrow> p)
      else p)"

definition apply_kind :: "'a Projection_scheme \<Rightarrow> SessionEvent \<Rightarrow> ValidationAdmission
    \<Rightarrow> TransitionError + 'a Projection_scheme" where
  "apply_kind p e admission = (case event_kind e of
      TurnStart turn \<Rightarrow> apply_turn_start p turn
    | TurnEnd turn _ \<Rightarrow> apply_turn_end p turn
    | StepStart turn step \<Rightarrow> apply_step_start p turn step
    | StepEnd turn step \<Rightarrow> apply_step_end p turn step
    | AssistantChunk turn step _ \<Rightarrow>
        and_then (require_open_step p ''assistant/chunk'' turn step) (\<lambda>_. Ok p)
    | AssistantMessage turn step m _ \<Rightarrow> apply_assistant_message p turn step m
    | ToolCall turn step call_id name arguments \<Rightarrow>
        apply_tool_call p (event_seq e) turn step call_id name arguments
    | ToolResult turn step m error _ \<Rightarrow> apply_tool_result p e turn step m error admission
    | RequestHeader header _ \<Rightarrow>
        and_then (require_open_turn p ''request/header'') (\<lambda>_.
          Ok (p\<lparr>request_header := Some (header_canonicalized header),
                request_header_seq := Some (event_seq e)\<rparr>))
    | PlanMode change \<Rightarrow> Ok (p\<lparr>plan_mode_active := plan_change_active change\<rparr>)
    | PermissionPresetSet preset \<Rightarrow> Ok (p\<lparr>permission_preset := Some preset\<rparr>)
    | SessionTitle title \<Rightarrow> Ok (p\<lparr>session_title := Some title\<rparr>)
    | SessionTitleLlmRequest _ \<Rightarrow> Ok (p\<lparr>session_title_llm_requested := True\<rparr>)
    | RequestContextSet context \<Rightarrow>
        and_then (require_open_turn p ''request/context'') (\<lambda>_.
          Ok (p\<lparr>request_context := Some context, request_context_seq := Some (event_seq e)\<rparr>))
    | LlmRetry retry \<Rightarrow> apply_retry p retry
    | LlmRetryStarted started \<Rightarrow> apply_retry_started p started
    | ApprovalAsked asked \<Rightarrow> apply_approval_asked p asked
    | ApprovalDecided decided \<Rightarrow> apply_approval_decided p decided
    | TodoWrite todos \<Rightarrow>
        and_then (require_open_turn p ''todo/write'') (\<lambda>_.
        and_then (validate_todo_snapshot todos) (\<lambda>_. Ok (p\<lparr>standing_todos := Some todos\<rparr>)))
    | _ \<Rightarrow> Ok p)"

definition apply_transition :: "'a Projection_scheme \<Rightarrow> SessionEvent \<Rightarrow> ValidationAdmission
    \<Rightarrow> TransitionError + 'a Projection_scheme" where
  "apply_transition p e admission =
     (if policy p = DurableStrict \<and> is_unprivileged_durable admission \<and> is_recovery_boundary (event_kind e)
      then Err (DurableRecoveryEventNotAllowed (event_type (event_kind e)))
      else if policy p = DurableStrict \<and> is_unprivileged_durable admission
        \<and> is_recovery_result (event_kind e)
      then Err (DurableRecoveryEventNotAllowed ''tool/result'')
      else and_then (apply_kind p e admission) (\<lambda>p. Ok (capture_first_prompt e p)))"

end
