(* ===== verification/Tool_Result_Pruner.thy ===== *)
theory Tool_Result_Pruner
  imports Projection_State "HOL-Library.AList"
begin

text \<open>
  Pruning a tool result without a model (\<open>src/session/tool_result_pruner.rs\<close>): the middle of the
  text of one result is replaced by a marker, and a digest over everything else proves that
  nothing but the content array changed. A \<open>usize\<close> count is a \<open>nat\<close> whose additions are checked
  against the word size. SHA-256 and the JSON encoder are third-party code, fields of
  \<open>session_env\<close>.
\<close>

section \<open>The masked digest\<close>

definition MASKED_DATA_DIGEST_DOMAIN :: string where
  "MASKED_DATA_DIGEST_DOMAIN = ''dsh.tool-result.masked-data.v1'' @ [CHR 0x00]"

text \<open>Serialising a masked object writes its entries in order, one of them with another value.\<close>

definition mask_entry :: "string \<Rightarrow> json \<Rightarrow> (string \<times> json) list \<Rightarrow> (string \<times> json) list" where
  "mask_entry k v fs = map (\<lambda>(k', w). (k', if k' = k then v else w)) fs"

definition masked_result :: "(string \<times> json) list \<Rightarrow> json" where
  "masked_result result = JObj (mask_entry ''content'' JNull result)"

definition masked_message :: "(string \<times> json) list \<Rightarrow> (string \<times> json) list \<Rightarrow> json" where
  "masked_message message result = JObj (mask_entry ''content'' (JArr [masked_result result]) message)"

definition masked_data :: "(string \<times> json) list \<Rightarrow> (string \<times> json) list \<Rightarrow> (string \<times> json) list \<Rightarrow> json" where
  "masked_data data message result = JObj (mask_entry ''message'' (masked_message message result) data)"

text \<open>The three nested objects of a tool result, the last one with a content entry.\<close>

definition tool_result_objects :: "json
    \<Rightarrow> ((string \<times> json) list \<times> (string \<times> json) list \<times> (string \<times> json) list) option" where
  "tool_result_objects v =
     Option.bind (as_object v) (\<lambda>data.
     Option.bind (Option.bind (map_of data ''message'') as_object) (\<lambda>message.
     Option.bind (get_array message ''content'') (\<lambda>content.
       case content of
         [r] \<Rightarrow> Option.bind (as_object r) (\<lambda>result.
           if map_of result ''content'' = None then None else Some (data, message, result))
       | _ \<Rightarrow> None)))"

definition masked_data_sha256 :: "session_env \<Rightarrow> json \<Rightarrow> string option" where
  "masked_data_sha256 env v = Option.bind (tool_result_objects v) (\<lambda>(data, message, result).
     map_option (\<lambda>bytes. env_sha256 env (MASKED_DATA_DIGEST_DOMAIN @ bytes))
       (env_encode env (masked_data data message result)))"

section \<open>Configuration\<close>

definition char_count :: "string \<Rightarrow> nat" where
  "char_count s = length (utf8_chars s)"

definition PRUNED_MIDDLE_MARKER :: string where
  "PRUNED_MIDDLE_MARKER = [CHR 0x0A, CHR 0x0A] @ ''[... tool result middle pruned ...]'' @ [CHR 0x0A, CHR 0x0A]"

record ToolResultPruneConfig =
  threshold_code_points :: nat
  head_code_points :: nat
  tail_code_points :: nat

definition prune_config_default :: ToolResultPruneConfig where
  "prune_config_default = \<lparr>threshold_code_points = 8192, head_code_points = 4096, tail_code_points = 1024\<rparr>"

datatype ToolResultPruneError = InvalidConfig | PruneInvalidShape | Capacity

record ToolResultPruneOutcome =
  original_code_points :: nat
  pruned_code_points :: nat

definition retained_points :: "nat \<Rightarrow> nat \<Rightarrow> nat option" where
  "retained_points head_points tail_points =
     Option.bind (usize_add head_points (char_count PRUNED_MIDDLE_MARKER)) (\<lambda>v. usize_add v tail_points)"

definition prune_config_new :: "nat \<Rightarrow> nat \<Rightarrow> nat \<Rightarrow> ToolResultPruneError + ToolResultPruneConfig" where
  "prune_config_new threshold head_points tail_points =
     and_then (ok_or (retained_points head_points tail_points) InvalidConfig) (\<lambda>retained.
       if threshold = 0 \<or> retained > threshold then Err InvalidConfig
       else Ok \<lparr>threshold_code_points = threshold, head_code_points = head_points,
                tail_code_points = tail_points\<rparr>)"

section \<open>The edit plan\<close>

datatype BlockEdit = EditKeep | EditReplace string | EditDrop

text \<open>\<open>Ok None\<close>: not a text block; a text block without text is malformed.\<close>

definition text_block :: "json \<Rightarrow> ToolResultPruneError + string option" where
  "text_block b = (case as_object b of
      None \<Rightarrow> Ok None
    | Some fs \<Rightarrow>
        if get_str fs ''type'' \<noteq> Some ''text'' then Ok None
        else case get_str fs ''text'' of None \<Rightarrow> Err PruneInvalidShape | Some t \<Rightarrow> Ok (Some t))"

definition byte_index_at_char :: "string \<Rightarrow> nat \<Rightarrow> nat" where
  "byte_index_at_char text n =
     (if n < length (utf8_chars text) then length (concat (take n (utf8_chars text))) else length text)"

definition count_block :: "nat \<Rightarrow> json \<Rightarrow> ToolResultPruneError + nat" where
  "count_block acc b = and_then (text_block b) (\<lambda>t. case t of
      None \<Rightarrow> Ok acc
    | Some text \<Rightarrow> ok_or (usize_add acc (char_count text)) Capacity)"

definition count_code_points :: "json list \<Rightarrow> ToolResultPruneError + nat" where
  "count_code_points content = try_fold count_block 0 content"

text \<open>The replacement of a block that meets the removed span.\<close>

definition edit_text :: "nat \<Rightarrow> nat \<Rightarrow> nat \<Rightarrow> bool \<Rightarrow> string \<Rightarrow> ToolResultPruneError + BlockEdit" where
  "edit_text removed_start removed_end pos marker_written text =
     (let block_points = char_count text;
          prefix_end = byte_index_at_char text (min (removed_start - pos) block_points);
          suffix_start = byte_index_at_char text (min (removed_end - pos) block_points);
          marker = (if marker_written then [] else PRUNED_MIDDLE_MARKER)
      in and_then (ok_or (Option.bind (usize_add prefix_end (length marker))
             (\<lambda>v. usize_add v (length text - suffix_start))) Capacity) (\<lambda>capacity.
           Ok (if capacity = 0 then EditDrop
               else EditReplace (take prefix_end text @ marker @ drop suffix_start text))))"

fun plan_edits :: "nat \<Rightarrow> nat \<Rightarrow> nat \<Rightarrow> bool \<Rightarrow> json list
    \<Rightarrow> ToolResultPruneError + (BlockEdit list \<times> bool)" where
  "plan_edits rs re pos marker_written [] = Ok ([], marker_written)"
| "plan_edits rs re pos marker_written (b # bs) =
     and_then (text_block b) (\<lambda>t. case t of
       None \<Rightarrow> and_then (plan_edits rs re pos marker_written bs) (\<lambda>(es, m). Ok (EditKeep # es, m))
     | Some text \<Rightarrow>
         and_then (ok_or (usize_add pos (char_count text)) Capacity) (\<lambda>block_end.
           if \<not> (pos < re \<and> block_end > rs)
           then and_then (plan_edits rs re block_end marker_written bs) (\<lambda>(es, m).
             Ok ((if char_count text = 0 then EditDrop else EditKeep) # es, m))
           else and_then (edit_text rs re pos marker_written text) (\<lambda>edit.
             and_then (plan_edits rs re block_end True bs) (\<lambda>(es, m). Ok (edit # es, m)))))"

section \<open>Applying the plan\<close>

text \<open>\<open>retain_mut\<close>; replacing a value keeps the position of its entry.\<close>

definition json_set :: "string \<Rightarrow> json \<Rightarrow> (string \<times> json) list \<Rightarrow> (string \<times> json) list" where
  "json_set k v fs = AList.update k v fs"

definition apply_edit :: "BlockEdit \<Rightarrow> json \<Rightarrow> json option" where
  "apply_edit e b = (case e of
      EditKeep \<Rightarrow> Some b
    | EditReplace text \<Rightarrow> (case as_object b of
        None \<Rightarrow> None
      | Some fs \<Rightarrow> if map_of fs ''text'' = None then None else Some (JObj (json_set ''text'' (JStr text) fs)))
    | EditDrop \<Rightarrow> None)"

fun apply_edits :: "BlockEdit list \<Rightarrow> json list \<Rightarrow> json list" where
  "apply_edits es [] = []"
| "apply_edits [] (b # bs) = apply_edits [] bs"
| "apply_edits (e # es) (b # bs) = (case apply_edit e b of None \<Rightarrow> apply_edits es bs
    | Some b' \<Rightarrow> b' # apply_edits es bs)"

definition raw_result_content :: "json \<Rightarrow> json list option" where
  "raw_result_content v =
     Option.bind (as_object v) (\<lambda>data.
     Option.bind (Option.bind (map_of data ''message'') as_object) (\<lambda>message.
     Option.bind (get_array message ''content'') (\<lambda>content.
       case content of
         [] \<Rightarrow> None
       | r # _ \<Rightarrow> Option.bind (as_object r) (\<lambda>result. get_array result ''content''))))"

text \<open>Writing through \<open>tool_result_content_mut\<close>.\<close>

definition set_raw_result_content :: "json list \<Rightarrow> json \<Rightarrow> json option" where
  "set_raw_result_content new v =
     Option.bind (as_object v) (\<lambda>data.
     Option.bind (Option.bind (map_of data ''message'') as_object) (\<lambda>message.
     Option.bind (get_array message ''content'') (\<lambda>content.
       case content of
         [] \<Rightarrow> None
       | r # rest \<Rightarrow> Option.bind (as_object r) (\<lambda>result.
           if get_array result ''content'' = None then None
           else Some (JObj (json_set ''message'' (JObj (json_set ''content''
             (JArr (JObj (json_set ''content'' (JArr new) result) # rest)) message)) data))))))"

text \<open>The new data and the outcome; a failure leaves the data untouched, so it is only its error.\<close>

definition prune_raw_tool_result_data :: "json \<Rightarrow> ToolResultPruneConfig
    \<Rightarrow> ToolResultPruneError + (json \<times> ToolResultPruneOutcome) option" where
  "prune_raw_tool_result_data data config =
     and_then (prune_config_new (threshold_code_points config) (head_code_points config)
       (tail_code_points config)) (\<lambda>config.
     and_then (ok_or (raw_result_content data) PruneInvalidShape) (\<lambda>content.
     and_then (count_code_points content) (\<lambda>original.
       if original \<le> threshold_code_points config then Ok None
       else and_then (if tail_code_points config \<le> original then Ok (original - tail_code_points config)
                      else Err InvalidConfig) (\<lambda>removed_end.
         and_then (plan_edits (head_code_points config) removed_end 0 False content) (\<lambda>(edits, written).
           if \<not> written then Err PruneInvalidShape
           else and_then (ok_or (set_raw_result_content (apply_edits edits content) data) PruneInvalidShape)
             (\<lambda>data'. and_then (ok_or (retained_points (head_code_points config)
               (tail_code_points config)) Capacity) (\<lambda>points.
               Ok (Some (data', \<lparr>original_code_points = original, pruned_code_points = points\<rparr>)))))))))"

record ToolResultSnapshot =
  snapshot_seq :: EventSeq
  snapshot_message :: Message
  snapshot_estimated_tokens :: u64
  snapshot_row :: JournalRowLocator
  snapshot_masked :: string

text \<open>\<open>ValidatedRawRow::prune\<close>: the digest of the new data must be the one recorded.\<close>

definition prune_validated_row :: "session_env \<Rightarrow> ToolResultSnapshot \<Rightarrow> json \<Rightarrow> ToolResultPruneConfig
    \<Rightarrow> ToolResultPruneError + (json \<times> ToolResultPruneOutcome) option" where
  "prune_validated_row env snap data config =
     and_then (prune_raw_tool_result_data data config) (\<lambda>r. case r of
       None \<Rightarrow> Ok None
     | Some (data', outcome) \<Rightarrow>
         and_then (ok_or (masked_data_sha256 env data') PruneInvalidShape) (\<lambda>digest.
           if digest \<noteq> snapshot_masked snap then Err PruneInvalidShape else Ok (Some (data', outcome))))"


section \<open>Characters\<close>

lemma concat_utf8_chars: "concat (utf8_chars s) = s"
proof (induction s rule: utf8_chars.induct)
  case (1 s)
  then show ?case by (subst utf8_chars.simps) simp
qed

lemma byte_index_take: "take (byte_index_at_char t n) t = concat (take n (utf8_chars t))"
  and byte_index_drop: "drop (byte_index_at_char t n) t = concat (drop n (utf8_chars t))"
proof -
  have t: "t = concat (take n (utf8_chars t)) @ concat (drop n (utf8_chars t))"
    by (metis append_take_drop_id concat_append concat_utf8_chars)
  have "take (length (concat (take n (utf8_chars t)))) t = concat (take n (utf8_chars t))"
    by (subst (2) t) simp
  moreover have "drop (length (concat (take n (utf8_chars t)))) t = concat (drop n (utf8_chars t))"
    by (subst (2) t) simp
  ultimately show "take (byte_index_at_char t n) t = concat (take n (utf8_chars t))"
    and "drop (byte_index_at_char t n) t = concat (drop n (utf8_chars t))"
    by (simp_all add: byte_index_at_char_def concat_utf8_chars)
qed

lemma marker_chars: "list_all is_utf8_char (utf8_chars PRUNED_MIDDLE_MARKER)"
proof -
  have "utf8_valid PRUNED_MIDDLE_MARKER"
    by (rule utf8_valid_ascii) (simp add: PRUNED_MIDDLE_MARKER_def)
  then show ?thesis by (auto simp: list_all_iff intro: utf8_chars_char)
qed

definition block_chars :: "json \<Rightarrow> string list" where
  "block_chars b = (case text_block b of Inr (Some t) \<Rightarrow> utf8_chars t | _ \<Rightarrow> [])"

definition content_chars :: "json list \<Rightarrow> string list" where
  "content_chars content = concat (map block_chars content)"

definition is_text_value :: "json \<Rightarrow> bool" where
  "is_text_value b \<longleftrightarrow> (\<exists>t. text_block b = Inr (Some t))"

text \<open>Rust strings are well-formed UTF-8.\<close>

definition valid_texts :: "json list \<Rightarrow> bool" where
  "valid_texts content = list_all (\<lambda>b. case text_block b of Inr (Some t) \<Rightarrow> utf8_valid t | _ \<Rightarrow> True) content"

lemma content_chars_simps [simp]:
  "content_chars [] = []" "content_chars (b # bs) = block_chars b @ content_chars bs"
  by (simp_all add: content_chars_def)

lemma valid_texts_Cons:
  "valid_texts (b # bs) \<longleftrightarrow>
     (\<forall>t. text_block b = Inr (Some t) \<longrightarrow> utf8_valid t) \<and> valid_texts bs"
  by (auto simp: valid_texts_def split: sum.splits option.splits)

lemma text_block_set:
  assumes "text_block b = Inr (Some t)" and "as_object b = Some fs"
  shows "text_block (JObj (json_set ''text'' (JStr r) fs)) = Inr (Some r)"
  using assms by (auto simp: text_block_def get_str_def json_set_def AList.update_conv split: if_splits)

lemma block_chars_text: "text_block b = Inr (Some t) \<Longrightarrow> block_chars b = utf8_chars t"
  by (simp add: block_chars_def)

lemma count_block_Inr:
  "count_block acc b = Inr n \<Longrightarrow> n = acc + length (block_chars b) \<and> (\<exists>t. text_block b = Inr t)"
  by (auto simp: count_block_def and_then_Inr ok_or_Inr usize_add_def char_count_def block_chars_def
      split: option.splits if_splits)

lemma count_code_points_from:
  "try_fold count_block acc content = Inr n \<Longrightarrow>
     n = acc + length (content_chars content) \<and> (\<forall>b \<in> set content. \<exists>t. text_block b = Inr t)"
proof (induction content arbitrary: acc)
  case Nil
  then show ?case by simp
next
  case (Cons b bs)
  then obtain m where "count_block acc b = Inr m" and "try_fold count_block m bs = Inr n"
    by (auto simp: and_then_Inr)
  with Cons.IH [of m] count_block_Inr [of acc b m] show ?case by auto
qed

lemma count_code_points_Inr:
  assumes "count_code_points content = Inr n"
  shows "n = length (content_chars content)" and "\<forall>b \<in> set content. \<exists>t. text_block b = Inr t"
  using count_code_points_from [of 0 content n] assms by (simp_all add: count_code_points_def)

section \<open>The effect of the plan\<close>

text \<open>The characters kept of a text that begins at \<open>pos\<close>, the marker where the removed span starts.\<close>

definition splice :: "nat \<Rightarrow> nat \<Rightarrow> nat \<Rightarrow> string list \<Rightarrow> string list" where
  "splice rs re pos cs = take (rs - pos) cs
     @ (if pos \<le> rs \<and> rs < pos + length cs then utf8_chars PRUNED_MIDDLE_MARKER else [])
     @ drop (re - pos) cs"

lemma splice_append:
  assumes "rs < re"
  shows "splice rs re pos (xs @ ys) = splice rs re pos xs @ splice rs re (pos + length xs) ys"
proof (cases "rs < pos + length xs")
  case True
  then show ?thesis by (simp add: splice_def diff_diff_left)
next
  case False
  with assms show ?thesis by (simp add: splice_def diff_diff_left)
qed

lemma splice_Nil [simp]: "splice rs re pos [] = []"
  by (auto simp: splice_def)

lemma splice_outside:
  assumes "rs < re" and "\<not> (pos < re \<and> pos + length cs > rs)"
  shows "splice rs re pos cs = cs"
  using assms by (cases "pos < re") (simp_all add: splice_def)

lemma edit_text_chars:
  assumes edit: "edit_text rs re pos (rs < pos) text = Inr e" and b: "text_block b = Inr (Some text)"
    and "utf8_valid text" and "rs < re" and "pos + char_count text > rs"
  shows "case apply_edit e b of
      None \<Rightarrow> splice rs re pos (utf8_chars text) = []
    | Some b' \<Rightarrow> block_chars b' = splice rs re pos (utf8_chars text) \<and> is_text_value b'"
proof -
  let ?cs = "utf8_chars text"
  let ?i = "byte_index_at_char text (min (rs - pos) (char_count text))"
  let ?j = "byte_index_at_char text (min (re - pos) (char_count text))"
  let ?m = "if rs < pos then [] else PRUNED_MIDDLE_MARKER"
  let ?r = "take ?i text @ ?m @ drop ?j text"
  have "take (min (rs - pos) (char_count text)) ?cs = take (rs - pos) ?cs"
    "drop (min (re - pos) (char_count text)) ?cs = drop (re - pos) ?cs"
    by (simp_all add: char_count_def min_def)
  then have r: "?r = concat (splice rs re pos ?cs)"
    using assms(5) by (simp add: byte_index_take byte_index_drop splice_def char_count_def
        concat_utf8_chars not_less)
  have "list_all is_utf8_char (splice rs re pos ?cs)"
    using marker_chars utf8_chars_char [OF assms(3)]
    by (auto simp: splice_def list_all_iff dest: in_set_takeD in_set_dropD)
  then have chars: "utf8_chars ?r = splice rs re pos ?cs"
    unfolding r by (rule utf8_chars_concat)
  obtain fs where fs: "as_object b = Some fs" "map_of fs ''text'' \<noteq> None"
    using b by (cases "as_object b")
      (auto simp: text_block_def get_str_def bind_eq_Some_conv split: option.splits if_splits)
  from edit have e: "e = (if ?i + length ?m + (length text - ?j) = 0 then EditDrop else EditReplace ?r)"
    by (auto simp: edit_text_def Let_def and_then_Inr ok_or_Inr usize_add_def split: if_splits)
  show ?thesis
  proof (cases "?i + length ?m + (length text - ?j) = 0")
    case True
    then have "?r = []" by simp
    with chars have "splice rs re pos ?cs = []" by simp
    with e True show ?thesis by (simp add: apply_edit_def)
  next
    case False
    with e have "apply_edit e b = Some (JObj (json_set ''text'' (JStr ?r) fs))"
      using fs by (simp add: apply_edit_def)
    then show ?thesis
      using text_block_set [OF b fs(1), of ?r] chars
      by (simp add: block_chars_text is_text_value_def)
  qed
qed


lemma plan_edits_chars:
  assumes "plan_edits rs re pos (rs < pos) content = Inr (es, m)" and "rs < re"
    and "valid_texts content"
  shows "content_chars (apply_edits es content) = splice rs re pos (content_chars content)"
    and "m \<longleftrightarrow> rs < pos + length (content_chars content)"
    and "filter (\<lambda>b. \<not> is_text_value b) (apply_edits es content) = filter (\<lambda>b. \<not> is_text_value b) content"
proof -
  have "content_chars (apply_edits es content) = splice rs re pos (content_chars content)
      \<and> m = (rs < pos + length (content_chars content))
      \<and> filter (\<lambda>b. \<not> is_text_value b) (apply_edits es content) = filter (\<lambda>b. \<not> is_text_value b) content"
    using assms(1,3)
  proof (induction content arbitrary: pos es)
    case Nil
    then show ?case by simp
  next
    case (Cons b bs)
    from Cons.prems(1) obtain t where t: "text_block b = Inr t" by (auto simp: and_then_Inr)
    show ?case
    proof (cases t)
      case None
      with Cons.prems t obtain es' where "plan_edits rs re pos (rs < pos) bs = Inr (es', m)"
        "es = EditKeep # es'"
        by (auto simp: and_then_Inr)
      with Cons t None show ?thesis
        by (auto simp: apply_edit_def block_chars_def is_text_value_def valid_texts_Cons)
    next
      case (Some s)
      let ?stop = "pos + char_count s"
      have b: "text_block b = Inr (Some s)" using t Some by simp
      have chars: "block_chars b = utf8_chars s" "length (utf8_chars s) = char_count s"
        "is_text_value b"
        using b by (auto simp: block_chars_text char_count_def is_text_value_def)
      note split = splice_append [OF assms(2), of pos "utf8_chars s" "content_chars bs"]
      have valid: "utf8_valid s" "valid_texts bs"
        using Cons.prems(2) b by (auto simp: valid_texts_Cons)
      show ?thesis
      proof (cases "pos < re \<and> ?stop > rs")
        case False
        with Cons.prems(1) b obtain es' where p: "plan_edits rs re ?stop (rs < pos) bs = Inr (es', m)"
          and es: "es = (if char_count s = 0 then EditDrop else EditKeep) # es'"
          by (auto simp: and_then_Inr ok_or_Inr usize_add_def split: if_splits)
        have "(rs < pos) = (rs < ?stop)" using False assms(2) by auto
        with Cons.IH [of ?stop es'] p valid(2)
        have IH: "content_chars (apply_edits es' bs) = splice rs re ?stop (content_chars bs)"
          "m = (rs < ?stop + length (content_chars bs))"
          "filter (\<lambda>b. \<not> is_text_value b) (apply_edits es' bs) = filter (\<lambda>b. \<not> is_text_value b) bs"
          by simp_all
        have "splice rs re pos (utf8_chars s) = utf8_chars s"
          using False assms(2) chars(2) by (simp add: splice_outside)
        with IH es chars split show ?thesis
          by (auto simp: apply_edit_def)
      next
        case True
        with Cons.prems(1) b obtain e es' where p: "plan_edits rs re ?stop True bs = Inr (es', m)"
          and e: "edit_text rs re pos (rs < pos) s = Inr e" and es: "es = e # es'"
          by (auto simp: and_then_Inr ok_or_Inr usize_add_def split: if_splits)
        from p True Cons.IH [of ?stop es'] valid(2)
        have IH: "content_chars (apply_edits es' bs) = splice rs re ?stop (content_chars bs)"
          "m = (rs < ?stop + length (content_chars bs))"
          "filter (\<lambda>b. \<not> is_text_value b) (apply_edits es' bs) = filter (\<lambda>b. \<not> is_text_value b) bs"
          by simp_all
        from edit_text_chars [OF e b valid(1) assms(2)] True IH es chars split show ?thesis
          by (auto split: option.splits)
      qed
    qed
  qed
  then show "content_chars (apply_edits es content) = splice rs re pos (content_chars content)"
    and "m \<longleftrightarrow> rs < pos + length (content_chars content)"
    and "filter (\<lambda>b. \<not> is_text_value b) (apply_edits es content) = filter (\<lambda>b. \<not> is_text_value b) content"
    by auto
qed

section \<open>Properties\<close>

lemma as_object_Some: "as_object v = Some fs \<longleftrightarrow> v = JObj fs"
  by (cases v) auto

lemma as_array_Some: "as_array v = Some xs \<longleftrightarrow> v = JArr xs"
  by (cases v) auto

lemma get_array_Some: "get_array fs k = Some xs \<longleftrightarrow> map_of fs k = Some (JArr xs)"
  by (auto simp: get_array_def bind_eq_Some_conv as_array_Some)

lemma map_of_json_set: "map_of (json_set k v fs) = (map_of fs)(k \<mapsto> v)"
  by (rule ext) (simp add: json_set_def AList.update_conv)

lemma list_case_Some:
  "(case xs of [] \<Rightarrow> None | x # rest \<Rightarrow> f x rest) = Some v \<longleftrightarrow> (\<exists>x rest. xs = x # rest \<and> f x rest = Some v)"
  by (cases xs) auto

lemma if_present_Some: "(if x = None then None else Some y) = Some z \<longleftrightarrow> (\<exists>w. x = Some w) \<and> z = y"
  by auto

lemma raw_content_Some:
  "raw_result_content v = Some content \<longleftrightarrow> (\<exists>data message result rest. v = JObj data
     \<and> map_of data ''message'' = Some (JObj message)
     \<and> map_of message ''content'' = Some (JArr (JObj result # rest))
     \<and> map_of result ''content'' = Some (JArr content))"
  unfolding raw_result_content_def bind_eq_Some_conv as_object_Some get_array_Some
    list_case_Some
  by auto

lemma set_raw_content_Some:
  "set_raw_result_content new v = Some v' \<longleftrightarrow> (\<exists>data message result rest content. v = JObj data
     \<and> map_of data ''message'' = Some (JObj message)
     \<and> map_of message ''content'' = Some (JArr (JObj result # rest))
     \<and> map_of result ''content'' = Some (JArr content)
     \<and> v' = JObj (json_set ''message'' (JObj (json_set ''content''
         (JArr (JObj (json_set ''content'' (JArr new) result) # rest)) message)) data))"
  unfolding set_raw_result_content_def bind_eq_Some_conv as_object_Some
    get_array_Some list_case_Some if_present_Some
  by auto

lemma raw_content_set:
  "set_raw_result_content new data = Some data' \<Longrightarrow> raw_result_content data' = Some new"
  by (auto simp: set_raw_content_Some raw_content_Some map_of_json_set)

lemma raw_content_settable:
  "raw_result_content data = Some content \<Longrightarrow> \<exists>data'. set_raw_result_content new data = Some data'"
  by (auto simp: set_raw_content_Some raw_content_Some)

lemma retained_points_Some:
  "retained_points a b = Some n \<Longrightarrow> n = a + char_count PRUNED_MIDDLE_MARKER + b"
  by (auto simp: retained_points_def usize_add_def bind_eq_Some_conv split: if_splits)

lemma prune_config_new_Inr:
  assumes "prune_config_new (threshold_code_points c) (head_code_points c) (tail_code_points c) = Inr c'"
  shows "c' = c"
    and "retained_points (head_code_points c) (tail_code_points c)
       = Some (head_code_points c + char_count PRUNED_MIDDLE_MARKER + tail_code_points c)"
    and "head_code_points c + char_count PRUNED_MIDDLE_MARKER + tail_code_points c \<le> threshold_code_points c"
  using assms
  by (auto simp: prune_config_new_def and_then_Inr ok_or_Inr dest: retained_points_Some split: if_splits)

definition prune_config_ok :: "ToolResultPruneConfig \<Rightarrow> bool" where
  "prune_config_ok c \<longleftrightarrow>
     prune_config_new (threshold_code_points c) (head_code_points c) (tail_code_points c) = Inr c"

text \<open>What a successful pruning went through.\<close>

lemma prune_cases:
  assumes "prune_raw_tool_result_data data c = Inr (Some (data', out))"
  obtains content edits where "prune_config_ok c" and "raw_result_content data = Some content"
    and "count_code_points content = Inr (original_code_points out)"
    and "threshold_code_points c < original_code_points out"
    and "plan_edits (head_code_points c) (original_code_points out - tail_code_points c) 0 False content
           = Inr (edits, True)"
    and "set_raw_result_content (apply_edits edits content) data = Some data'"
    and "pruned_code_points out = head_code_points c + char_count PRUNED_MIDDLE_MARKER + tail_code_points c"
proof -
  from assms obtain c' where c': "prune_config_new (threshold_code_points c) (head_code_points c)
      (tail_code_points c) = Inr c'"
    by (auto simp: prune_raw_tool_result_data_def and_then_Inr)
  note cfg = prune_config_new_Inr [OF c']
  from assms cfg that show thesis
    by (auto simp: prune_raw_tool_result_data_def and_then_Inr ok_or_Inr prune_config_ok_def c'
        split: if_splits)
qed

lemma prune_config_ok_bound:
  "prune_config_ok c \<Longrightarrow>
     head_code_points c + char_count PRUNED_MIDDLE_MARKER + tail_code_points c \<le> threshold_code_points c"
  unfolding prune_config_ok_def by (rule prune_config_new_Inr(3))

lemma splice_whole:
  assumes "h + t < length cs"
  shows "splice h (length cs - t) 0 cs = take h cs @ utf8_chars PRUNED_MIDDLE_MARKER @ drop (length cs - t) cs"
  using assms by (simp add: splice_def)

text \<open>C28
  Pruning a tool result keeps the head and the tail of its text and nothing else: the characters of
  the new text blocks, in order, are the configured head, the marker, and the configured tail;
  blocks that are not text are all kept in their order, and the two counts reported are those of the old
  and the new text.\<close>

theorem prune_keeps_head_and_tail:
  assumes "prune_raw_tool_result_data data c = Inr (Some (data', out))"
    and "raw_result_content data = Some content" and "valid_texts content"
  shows "\<exists>content'. raw_result_content data' = Some content'
     \<and> content_chars content' = take (head_code_points c) (content_chars content)
         @ utf8_chars PRUNED_MIDDLE_MARKER
         @ drop (length (content_chars content) - tail_code_points c) (content_chars content)
     \<and> filter (\<lambda>b. \<not> is_text_value b) content' = filter (\<lambda>b. \<not> is_text_value b) content
     \<and> original_code_points out = length (content_chars content)
     \<and> pruned_code_points out = length (content_chars content')"
proof -
  obtain content0 edits where facts: "prune_config_ok c" "raw_result_content data = Some content0"
      "count_code_points content0 = Inr (original_code_points out)"
    and gt: "threshold_code_points c < original_code_points out"
    and p: "plan_edits (head_code_points c) (original_code_points out - tail_code_points c) 0 False
        content0 = Inr (edits, True)"
    and s: "set_raw_result_content (apply_edits edits content0) data = Some data'"
    and out: "pruned_code_points out
        = head_code_points c + char_count PRUNED_MIDDLE_MARKER + tail_code_points c"
    using assms(1) by (rule prune_cases)
  have content0: "content0 = content" using facts(2) assms(2) by simp
  note ok = facts(1) and n = count_code_points_Inr(1) [OF facts(3) [unfolded content0]]
  have plan: "plan_edits (head_code_points c) (original_code_points out - tail_code_points c) 0
      (head_code_points c < 0) content = Inr (edits, True)"
    using p content0 by simp
  note set_raw = s [unfolded content0]
  let ?new = "apply_edits edits content"
  have less: "head_code_points c + tail_code_points c < length (content_chars content)"
    using gt n prune_config_ok_bound [OF ok] by linarith
  then have rs: "head_code_points c < original_code_points out - tail_code_points c" using n by simp
  note eff = plan_edits_chars [OF plan rs assms(3)]
  have "content_chars ?new = take (head_code_points c) (content_chars content)
      @ utf8_chars PRUNED_MIDDLE_MARKER
      @ drop (length (content_chars content) - tail_code_points c) (content_chars content)"
    using eff(1) n splice_whole [OF less] by simp
  with eff(3) n out less raw_content_set [OF set_raw] show ?thesis
    by (simp add: char_count_def min_def)
qed

section \<open>Nothing else changes\<close>

lemma mask_entry_set:
  "mask_entry k v (json_set k w fs) = mask_entry k v fs" if "map_of fs k = Some u"
  using that by (induction fs) (auto simp: mask_entry_def json_set_def split: if_splits)

lemma tool_result_objects_Some:
  "tool_result_objects v = Some (data, message, result) \<longleftrightarrow> v = JObj data
     \<and> map_of data ''message'' = Some (JObj message)
     \<and> map_of message ''content'' = Some (JArr [JObj result])
     \<and> (\<exists>c. map_of result ''content'' = Some c)"
proof -
  have single: "(case xs of [r] \<Rightarrow> f r | _ \<Rightarrow> None) = Some z \<longleftrightarrow> (\<exists>r. xs = [r] \<and> f r = Some z)"
    for f :: "json \<Rightarrow> 'x option" and xs z
    by (cases xs rule: remdups_adj.cases) auto
  show ?thesis
    unfolding tool_result_objects_def bind_eq_Some_conv as_object_Some get_array_Some single
      if_present_Some
    by auto
qed

lemma masked_data_sha256_Some:
  "masked_data_sha256 env v = Some d \<longleftrightarrow> (\<exists>data message result bytes.
     tool_result_objects v = Some (data, message, result)
     \<and> env_encode env (masked_data data message result) = Some bytes
     \<and> d = env_sha256 env (MASKED_DATA_DIGEST_DOMAIN @ bytes))"
  by (auto simp: masked_data_sha256_def bind_eq_Some_conv)

text \<open>Replacing the content keeps the digest.\<close>

lemma masked_digest_set:
  assumes "masked_data_sha256 env data = Some d" and "set_raw_result_content new data = Some data'"
  shows "masked_data_sha256 env data' = Some d"
proof -
  obtain fs message result bytes where v: "tool_result_objects data = Some (fs, message, result)"
    and e: "env_encode env (masked_data fs message result) = Some bytes"
    and d: "d = env_sha256 env (MASKED_DATA_DIGEST_DOMAIN @ bytes)"
    using assms(1) by (auto simp: masked_data_sha256_Some)
  let ?result = "json_set ''content'' (JArr new) result"
  let ?message = "json_set ''content'' (JArr [JObj ?result]) message"
  let ?fs = "json_set ''message'' (JObj ?message) fs"
  have "data' = JObj ?fs"
    using v assms(2) by (auto simp: tool_result_objects_Some set_raw_content_Some)
  then have v': "tool_result_objects data' = Some (?fs, ?message, ?result)"
    using v by (simp add: tool_result_objects_Some map_of_json_set)
  have "masked_data ?fs ?message ?result = masked_data fs message result"
    using v by (auto simp: masked_data_def masked_message_def masked_result_def mask_entry_set
        tool_result_objects_Some)
  with v' e d show ?thesis by (auto simp: masked_data_sha256_Some)
qed

text \<open>C29
  The digest check on a pruned row is one the transform always passes: when the snapshot's digest
  is the digest of the stored data, checking the pruned data against it changes nothing, for every
  encoder and hash function. Pruning never touches what the digest covers.\<close>

theorem prune_keeps_identity:
  assumes "masked_data_sha256 env data = Some (snapshot_masked snap)"
  shows "prune_validated_row env snap data c = prune_raw_tool_result_data data c"
proof (cases "prune_raw_tool_result_data data c")
  case (Inl e)
  then show ?thesis by (simp add: prune_validated_row_def)
next
  case (Inr r)
  show ?thesis
  proof (cases r)
    case None
    with Inr show ?thesis by (simp add: prune_validated_row_def)
  next
    case (Some p)
    obtain data' out where p: "p = (data', out)" by (cases p)
    from Inr Some p have "prune_raw_tool_result_data data c = Inr (Some (data', out))" by simp
    then obtain content edits where "set_raw_result_content (apply_edits edits content) data = Some data'"
      by (rule prune_cases)
    with assms have "masked_data_sha256 env data' = Some (snapshot_masked snap)"
      by (rule masked_digest_set)
    with Inr Some p show ?thesis by (simp add: prune_validated_row_def)
  qed
qed

section \<open>Pruning succeeds, once\<close>

lemma byte_index_length: "byte_index_at_char t n = length (concat (take n (utf8_chars t)))"
  by (simp add: byte_index_at_char_def concat_utf8_chars)

lemma byte_index_mono: "i \<le> j \<Longrightarrow> byte_index_at_char t i \<le> byte_index_at_char t j"
proof -
  assume "i \<le> j"
  then have "take j (utf8_chars t) = take i (utf8_chars t) @ take (j - i) (drop i (utf8_chars t))"
    by (metis le_add_diff_inverse take_add)
  then show ?thesis by (simp add: byte_index_length)
qed

lemma byte_index_le: "byte_index_at_char t n \<le> length t"
proof -
  have "byte_index_at_char t n \<le> byte_index_at_char t (max n (length (utf8_chars t)))"
    by (rule byte_index_mono) simp
  then show ?thesis by (simp add: byte_index_length concat_utf8_chars)
qed

text \<open>A text and the marker together fit the address space.\<close>

definition texts_fit :: "json list \<Rightarrow> bool" where
  "texts_fit content = list_all (\<lambda>b. case text_block b of
      Inr (Some t) \<Rightarrow> length t + length PRUNED_MIDDLE_MARKER < 2 ^ 64 | _ \<Rightarrow> True) content"

lemma edit_text_total:
  assumes "length t + length PRUNED_MIDDLE_MARKER < 2 ^ 64" and "rs \<le> re"
  shows "\<exists>e. edit_text rs re pos w t = Inr e"
proof -
  let ?i = "byte_index_at_char t (min (rs - pos) (char_count t))"
  let ?j = "byte_index_at_char t (min (re - pos) (char_count t))"
  have "?i \<le> ?j" using assms(2) by (intro byte_index_mono) (auto simp: min_def)
  moreover have "?j \<le> length t" by (rule byte_index_le)
  ultimately have "?i + length PRUNED_MIDDLE_MARKER + (length t - ?j) < 2 ^ 64"
    using assms(1) by linarith
  then have adds: "usize_add ?i (length m) = Some (?i + length m)"
    "usize_add (?i + length m) (length t - ?j) = Some (?i + length m + (length t - ?j))"
    if "length m \<le> length PRUNED_MIDDLE_MARKER" for m :: string
    using that by (simp_all add: usize_add_def)
  from adds [of "[]"] adds [of PRUNED_MIDDLE_MARKER] show ?thesis
    by (cases w) (simp_all add: edit_text_def Let_def)
qed

lemma plan_edits_total:
  assumes "\<forall>b \<in> set content. \<exists>t. text_block b = Inr t" and "texts_fit content"
    and "pos + length (content_chars content) < 2 ^ 64" and "rs \<le> re"
  shows "\<exists>r. plan_edits rs re pos w content = Inr r"
  using assms
proof (induction content arbitrary: pos w)
  case Nil
  then show ?case by simp
next
  case (Cons b bs)
  then obtain t where t: "text_block b = Inr t" by auto
  show ?case
  proof (cases t)
    case None
    with Cons.prems t obtain r where "plan_edits rs re pos w bs = Inr r"
      using Cons.IH [of pos w] by (fastforce simp: texts_fit_def block_chars_def)
    with t None show ?thesis by (cases r) simp
  next
    case (Some s)
    have fit: "length s + length PRUNED_MIDDLE_MARKER < 2 ^ 64" "texts_fit bs"
      using Cons.prems(2) t Some by (auto simp: texts_fit_def)
    have chars: "length (block_chars b) = char_count s"
      using t Some by (simp add: block_chars_text char_count_def)
    then have stop: "pos + char_count s + length (content_chars bs) < 2 ^ 64"
      using Cons.prems(3) by simp
    then have "usize_add pos (char_count s) = Some (pos + char_count s)"
      by (simp add: usize_add_def)
    moreover obtain e where "edit_text rs re pos w s = Inr e"
      using edit_text_total [OF fit(1) assms(4)] by blast
    moreover have rest: "\<exists>r. plan_edits rs re (pos + char_count s) w' bs = Inr r" for w'
      using Cons.IH [OF _ fit(2) stop assms(4)] Cons.prems(1) by simp
    moreover obtain r1 r2 where "plan_edits rs re (pos + char_count s) w bs = Inr r1"
      and "plan_edits rs re (pos + char_count s) True bs = Inr r2"
      using rest by blast
    ultimately show ?thesis using t Some by (cases r1; cases r2) simp
  qed
qed


lemma prune_succeeds:
  assumes "prune_config_ok c" and "raw_result_content data = Some content"
    and "count_code_points content = Inr n" and "texts_fit content" and "valid_texts content"
    and "n < 2 ^ 64"
  shows "\<exists>r. prune_raw_tool_result_data data c = Inr r \<and> (r = None \<longleftrightarrow> n \<le> threshold_code_points c)"
proof (cases "n \<le> threshold_code_points c")
  case True
  with assms(1-3) show ?thesis
    by (simp add: prune_raw_tool_result_data_def prune_config_ok_def)
next
  case False
  note n = count_code_points_Inr [OF assms(3)]
  have less: "head_code_points c + tail_code_points c < n"
    using False prune_config_ok_bound [OF assms(1)] by linarith
  then have rs: "head_code_points c < n - tail_code_points c" "tail_code_points c \<le> n" by linarith+
  obtain edits m where p: "plan_edits (head_code_points c) (n - tail_code_points c) 0 False content
      = Inr (edits, m)"
    using plan_edits_total [OF n(2) assms(4), of 0 "head_code_points c" "n - tail_code_points c" False]
      rs n(1) assms(6) by auto
  then have m
    using plan_edits_chars(2) [of "head_code_points c" "n - tail_code_points c" 0 content edits m]
      rs n(1) assms(5) less by simp
  moreover obtain data' where "set_raw_result_content (apply_edits edits content) data = Some data'"
    using raw_content_settable [OF assms(2)] by blast
  moreover have "retained_points (head_code_points c) (tail_code_points c) \<noteq> None"
    using assms(1) prune_config_new_Inr(2) [of c c] by (simp add: prune_config_ok_def)
  ultimately show ?thesis
    using assms(1-3) False p rs(2)
    by (auto simp: prune_raw_tool_result_data_def prune_config_ok_def)
qed

lemma count_code_points_total:
  assumes "\<forall>b \<in> set content. \<exists>t. text_block b = Inr t"
    and "acc + length (content_chars content) < 2 ^ 64"
  shows "try_fold count_block acc content = Inr (acc + length (content_chars content))"
  using assms
proof (induction content arbitrary: acc)
  case Nil
  then show ?case by simp
next
  case (Cons b bs)
  then obtain t where "text_block b = Inr t" by auto
  with Cons show ?case
    by (cases t) (auto simp: count_block_def block_chars_def usize_add_def char_count_def add.assoc)
qed

lemma apply_edit_text_block:
  assumes "apply_edit e b = Some b'" and "text_block b = Inr t"
  shows "\<exists>t'. text_block b' = Inr t'"
  using assms
  by (auto simp: apply_edit_def text_block_def get_str_def map_of_json_set
      split: BlockEdit.splits option.splits if_splits)

lemma apply_edits_text_block:
  "\<forall>b \<in> set content. \<exists>t. text_block b = Inr t \<Longrightarrow>
     \<forall>b \<in> set (apply_edits es content). \<exists>t. text_block b = Inr t"
  by (induction es content rule: apply_edits.induct)
    (auto split: option.splits dest: apply_edit_text_block)

text \<open>Pruning never fails on a well-formed result: with a valid configuration and text blocks that all
  carry text, every byte index and count stays in range, the marker is always written, and the
  call returns; it leaves the result alone exactly when its text is within the threshold.\<close>

theorem prune_total:
  assumes "prune_config_ok c" and "raw_result_content data = Some content"
    and "\<forall>b \<in> set content. \<exists>t. text_block b = Inr t" and "texts_fit content"
    and "valid_texts content" and "length (content_chars content) < 2 ^ 64"
  shows "\<exists>r. prune_raw_tool_result_data data c = Inr r
    \<and> (r = None \<longleftrightarrow> length (content_chars content) \<le> threshold_code_points c)"
  using assms count_code_points_total [OF assms(3), of 0]
  by (intro prune_succeeds) (simp_all add: count_code_points_def)

text \<open>Pruning is done once: the pruned data is within the threshold, so pruning it again with the same
  configuration succeeds and changes nothing.\<close>

theorem prune_once:
  assumes "prune_raw_tool_result_data data c = Inr (Some (data', out))"
    and "raw_result_content data = Some content" and "valid_texts content"
  shows "prune_raw_tool_result_data data' c = Inr None"
proof -
  obtain content0 edits where facts: "prune_config_ok c" "raw_result_content data = Some content0"
      "count_code_points content0 = Inr (original_code_points out)"
    and gt: "threshold_code_points c < original_code_points out"
    and p: "plan_edits (head_code_points c) (original_code_points out - tail_code_points c) 0 False
        content0 = Inr (edits, True)"
    and s: "set_raw_result_content (apply_edits edits content0) data = Some data'"
    using assms(1) by (rule prune_cases)
  have content0: "content0 = content" using facts(2) assms(2) by simp
  note n = count_code_points_Inr [OF facts(3) [unfolded content0]]
  note bound = prune_config_ok_bound [OF facts(1)]
  have less: "head_code_points c + tail_code_points c < length (content_chars content)"
    using gt n(1) bound by linarith
  have "content_chars (apply_edits edits content)
      = splice (head_code_points c) (length (content_chars content) - tail_code_points c) 0 (content_chars content)"
    using plan_edits_chars(1) [of "head_code_points c" "original_code_points out - tail_code_points c" 0
        content edits True] p less n(1) assms(3) content0 by simp
  then have len: "length (content_chars (apply_edits edits content))
      = head_code_points c + char_count PRUNED_MIDDLE_MARKER + tail_code_points c"
    using less by (simp add: splice_whole char_count_def)
  moreover have "retained_points (head_code_points c) (tail_code_points c)
      = Some (head_code_points c + char_count PRUNED_MIDDLE_MARKER + tail_code_points c)"
    using facts(1) prune_config_new_Inr(2) [of c c] by (simp add: prune_config_ok_def)
  ultimately have "length (content_chars (apply_edits edits content)) < 2 ^ 64"
    by (auto simp: retained_points_def usize_add_def bind_eq_Some_conv split: if_splits)
  then have "count_code_points (apply_edits edits content)
      = Inr (length (content_chars (apply_edits edits content)))"
    using count_code_points_total [OF apply_edits_text_block [OF n(2)], of 0]
    by (simp add: count_code_points_def)
  with raw_content_set [OF s] content0 len bound facts(1) show ?thesis
    by (simp add: prune_raw_tool_result_data_def prune_config_ok_def)
qed

section \<open>A pruned result\<close>

lemma utf8_chars_ascii: "list_all (\<lambda>c. (of_char c :: nat) < 128) s \<Longrightarrow> utf8_chars s = map (\<lambda>c. [c]) s"
proof (induction s)
  case (Cons c s)
  then have "is_utf8_char [c]" by (simp add: is_utf8_char_def)
  with Cons utf8_chars_append [of "[c]" s] show ?case by simp
qed simp

text \<open>A result of one hundred letters, pruned to one letter before and two after the marker.\<close>

definition sample_text :: "nat \<Rightarrow> json" where
  "sample_text n = JObj [(''type'', JStr ''text''), (''text'', JStr (replicate n CHR ''a''))]"

definition sample_data :: json where
  "sample_data = JObj [(''message'', JObj [(''content'', JArr [JObj [
     (''type'', JStr ''tool-result''), (''content'', JArr [sample_text 100])]])])]"

definition sample_config :: ToolResultPruneConfig where
  "sample_config = \<lparr>threshold_code_points = 50, head_code_points = 1, tail_code_points = 2\<rparr>"

lemma sample_facts:
  "raw_result_content sample_data = Some [sample_text 100]"
  "text_block (sample_text 100) = Inr (Some (replicate 100 CHR ''a''))"
  "utf8_chars (replicate 100 CHR ''a'') = replicate 100 ''a''"
  "utf8_valid (replicate 100 CHR ''a'')"
  by (simp_all add: sample_data_def sample_text_def raw_content_Some text_block_def get_str_def
      utf8_chars_ascii utf8_valid_ascii list_all_iff)

lemma marker_count: "char_count PRUNED_MIDDLE_MARKER = 39"
  unfolding char_count_def by (subst utf8_chars_ascii) (simp_all add: PRUNED_MIDDLE_MARKER_def)

lemma sample_config_ok: "prune_config_ok sample_config"
  by (simp add: prune_config_ok_def prune_config_new_def sample_config_def retained_points_def
      marker_count usize_add_def)

lemma sample_content:
  "content_chars [sample_text 100] = replicate 100 ''a''"
  "valid_texts [sample_text 100]" "texts_fit [sample_text 100]"
  by (simp_all add: content_chars_def block_chars_def sample_facts valid_texts_def texts_fit_def
      PRUNED_MIDDLE_MARKER_def)

lemma sample_block: "block_chars (sample_text 100) = replicate 100 ''a''"
  by (simp add: block_chars_def sample_facts)

lemma sample_pruned: "\<exists>data' out. prune_raw_tool_result_data sample_data sample_config = Inr (Some (data', out))"
proof -
  have "\<exists>r. prune_raw_tool_result_data sample_data sample_config = Inr r
      \<and> (r = None \<longleftrightarrow> 100 \<le> threshold_code_points sample_config)"
    using sample_facts(2) sample_content
    by (intro prune_succeeds [OF sample_config_ok sample_facts(1)])
      (simp_all add: count_code_points_def count_block_def char_count_def sample_facts usize_add_def
       )
  then show ?thesis by (auto simp: sample_config_def)
qed

theorem prune_keeps_head_and_tail_witness:
  "\<exists>data' out content'. prune_raw_tool_result_data sample_data sample_config = Inr (Some (data', out))
     \<and> raw_result_content data' = Some content'
     \<and> content_chars content' = [''a''] @ utf8_chars PRUNED_MIDDLE_MARKER @ [''a'', ''a'']
     \<and> pruned_code_points out = 42"
proof -
  obtain data' out where p: "prune_raw_tool_result_data sample_data sample_config = Inr (Some (data', out))"
    using sample_pruned by blast
  from prune_keeps_head_and_tail [OF p sample_facts(1) sample_content(2)] p show ?thesis
    using marker_count
    by (auto simp: sample_block sample_config_def char_count_def numeral_2_eq_2)
qed

theorem prune_once_witness:
  "\<exists>data' out. prune_raw_tool_result_data sample_data sample_config = Inr (Some (data', out))
     \<and> prune_raw_tool_result_data data' sample_config = Inr None"
  using sample_pruned prune_once [OF _ sample_facts(1) sample_content(2)] by blast

theorem prune_total_witness:
  "\<exists>r. prune_raw_tool_result_data sample_data sample_config = Inr r \<and> r \<noteq> None"
  using prune_total [OF sample_config_ok sample_facts(1) _ sample_content(3,2)] sample_facts(2)
  by (auto simp: sample_block sample_config_def)

text \<open>An encoder and a hash for the example: any will do.\<close>

definition sample_env :: session_env where
  "sample_env = \<lparr>env_admit = Some, env_number = (\<lambda>_. 0), env_number_length = (\<lambda>_. 1),
     env_encoded_len = (\<lambda>_. 0), env_cancel_cause = (\<lambda>_. None), env_failure = (\<lambda>_. None),
     env_encode = (\<lambda>_. Some ''{}''), env_sha256 = rev\<rparr>"

theorem prune_keeps_identity_witness:
  "\<exists>snap data' out. masked_data_sha256 sample_env sample_data = Some (snapshot_masked snap)
     \<and> prune_validated_row sample_env snap sample_data sample_config = Inr (Some (data', out))"
proof -
  let ?objects = "tool_result_objects sample_data"
  have "?objects \<noteq> None"
    by (simp add: sample_data_def tool_result_objects_def get_array_def)
  then obtain d where d: "masked_data_sha256 sample_env sample_data = Some d"
    by (auto simp: masked_data_sha256_def sample_env_def)
  let ?snap = "\<lparr>snapshot_seq = 1, snapshot_message = undefined, snapshot_estimated_tokens = 0,
    snapshot_row = undefined, snapshot_masked = d\<rparr>"
  have "prune_validated_row sample_env ?snap sample_data sample_config
      = prune_raw_tool_result_data sample_data sample_config"
    using d by (intro prune_keeps_identity) simp
  with d sample_pruned show ?thesis
    by (metis ToolResultSnapshot.select_convs(5))
qed

end
