(* ===== verification/Projection_Surface.thy ===== *)
theory Projection_Surface
  imports Projection_Turns Tool_Result_Pruner
begin

text \<open>
  The model-visible surface of the session projection (\<open>src/session/projection.rs\<close>): the checks
  on a message-producing event, the node it makes, appending it or letting it replace a range of
  nodes, and the running totals of tokens and resident bytes.
\<close>

section \<open>Sources\<close>

fun first_duplicate :: "EventSeq list \<Rightarrow> EventSeq list \<Rightarrow> EventSeq option" where
  "first_duplicate seen [] = None"
| "first_duplicate seen (s # ss) = (if s \<in> set seen then Some s else first_duplicate (s # seen) ss)"

fun is_assistant :: "EventKind \<Rightarrow> bool" where
  "is_assistant (AssistantMessage _ _ _ _) = True"
| "is_assistant _ = False"

fun is_tool_result :: "EventKind \<Rightarrow> bool" where
  "is_tool_result (ToolResult _ _ _ _ _) = True"
| "is_tool_result _ = False"

definition validate_sources :: "SessionEvent \<Rightarrow> SurfaceError + unit" where
  "validate_sources e = (case event_sources e of
      None \<Rightarrow> Ok ()
    | Some sources \<Rightarrow>
        if length sources > MAX_SOURCE_EVENT_SEQS
        then Err (TooManySources MAX_SOURCE_EVENT_SEQS (length sources))
        else if sources = [] \<and> \<not> is_assistant (event_kind e) then Err EmptySources
        else (case first_duplicate [] sources of
            Some s \<Rightarrow> Err (DuplicateSource s)
          | None \<Rightarrow> (case List.find (\<lambda>s. s \<ge> event_seq e) sources of
              Some s \<Rightarrow> Err (SourceNotEarlier s (event_seq e))
            | None \<Rightarrow> Ok ())))"

fun origin_masked :: "ToolResultOrigin \<Rightarrow> string" where
  "origin_masked (OriginMemory masked) = masked"
| "origin_masked (OriginPendingDurable masked) = masked"
| "origin_masked (OriginDurable masked _) = masked"

definition validate_tool_result_rewrite ::
    "session_env \<Rightarrow> SessionEvent \<Rightarrow> SurfaceNode list \<Rightarrow> SurfaceError + unit" where
  "validate_tool_result_rewrite env e shadowed = (case shadowed of
      [node] \<Rightarrow> (case node_tool_result node of
          None \<Rightarrow> Err ToolResultWrongTarget
        | Some origin \<Rightarrow>
            if \<not> is_tool_result (event_kind e) then Err ToolResultWrongTarget
            else and_then (ok_or (masked_data_sha256 env (event_data e)) ToolResultChangedIdentity) (\<lambda>identity.
              if origin_masked origin \<noteq> identity then Err ToolResultChangedIdentity else Ok ()))
    | _ \<Rightarrow> Err ToolResultMultipleTargets)"

section \<open>Time context\<close>

definition TIME_CONTEXT_SOURCE :: string where
  "TIME_CONTEXT_SOURCE = ''time-context''"

fun split_on :: "char \<Rightarrow> string \<Rightarrow> string list" where
  "split_on c [] = [[]]"
| "split_on c (x # xs) =
     (if x = c then [] # split_on c xs
      else case split_on c xs of [] \<Rightarrow> [[x]] | l # ls \<Rightarrow> (x # l) # ls)"

definition ends_with_char :: "char \<Rightarrow> string \<Rightarrow> bool" where
  "ends_with_char c s \<longleftrightarrow> s \<noteq> [] \<and> last s = c"

definition time_context_lines_ok :: "TurnId \<Rightarrow> StepId \<Rightarrow> string \<Rightarrow> bool" where
  "time_context_lines_ok turn step s =
     (let expected_prefix = ''Time sampled while preparing turn '' @ show_nat (unat turn) @ '', step ''
            @ show_nat (unat step) @ '': '';
          expected_elapsed = (if step = first_id
            then ''Elapsed since the preceding model-visible message: ''
            else ''Elapsed since the preceding step context: '')
      in case split_on (CHR 0x0A) s of
        [l0, l1, l2] \<Rightarrow>
          starts_with expected_prefix l0 \<and> length l0 \<noteq> length expected_prefix
          \<and> (starts_with ''Browser time zone for this request: '' l1
             \<or> starts_with ''Terminal time zone for this request: '' l1)
          \<and> starts_with expected_elapsed l2 \<and> ends_with_char (CHR ''.'') l2
      | _ \<Rightarrow> False)"

definition time_context_message_ok :: "Message \<Rightarrow> TurnId \<Rightarrow> StepId \<Rightarrow> ContextForm option
    \<Rightarrow> ContextSnapshotSection list option \<Rightarrow> bool" where
  "time_context_message_ok m turn step form sections =
     (case (sections, message_content m) of
        (Some [sec], [b]) \<Rightarrow> form = Some Snapshot \<and> (case block_kind b of
            Text s \<Rightarrow> (case as_object (source_raw (message_source m)) of
                None \<Rightarrow> False
              | Some fs \<Rightarrow> length fs = 4) \<and> section_name sec = TIME_CONTEXT_SOURCE
              \<and> section_text sec = s \<and> time_context_lines_ok turn step s
          | _ \<Rightarrow> False)
      | _ \<Rightarrow> False)"

definition validate_time_context_surface :: "'a Projection_scheme \<Rightarrow> SessionEvent \<Rightarrow> SurfaceError + bool" where
  "validate_time_context_surface p e = (case event_kind e of
      UserMessage m \<Rightarrow> (case source_kind (message_source m) of
          SourcePlugin plugin form sections _ \<Rightarrow>
            if plugin \<noteq> TIME_CONTEXT_SOURCE then Ok False
            else (case (open_turn p, open_step p) of
                (Some turn, Some step) \<Rightarrow>
                  if time_context_message_ok m turn step form sections then Ok True
                  else Err InvalidTimeContext
              | _ \<Rightarrow> Err InvalidTimeContext)
        | _ \<Rightarrow> Ok False)
    | _ \<Rightarrow> Ok False)"

definition observe_message_time :: "SessionEvent \<Rightarrow> bool \<Rightarrow> 'a Projection_scheme \<Rightarrow> 'a Projection_scheme" where
  "observe_message_time e reading p =
     (let t = time_context p;
          t = (if is_surface_eligible (event_kind e) then t\<lparr>preceding_message := Some (event_time e)\<rparr> else t);
          t = (if reading then t\<lparr>open_turn_reading := Some (event_time e)\<rparr> else t)
      in p\<lparr>time_context := t\<rparr>)"

text \<open>\<open>set_committed_event_time\<close>: after an append the event's time may differ from the prepared one.\<close>

definition is_time_context_event :: "EventKind \<Rightarrow> bool" where
  "is_time_context_event k = (case k of
      UserMessage m \<Rightarrow> is_plugin_source TIME_CONTEXT_SOURCE (source_kind (message_source m))
    | _ \<Rightarrow> False)"

definition set_committed_event_time :: "SessionEvent \<Rightarrow> 'a Projection_scheme \<Rightarrow> 'a Projection_scheme" where
  "set_committed_event_time e p = observe_message_time e (is_time_context_event (event_kind e)) p"

section \<open>Nodes\<close>

fun is_tool_call_block :: "ContentBlockKind \<Rightarrow> bool" where
  "is_tool_call_block (ToolCallBlock _ _ _) = True"
| "is_tool_call_block _ = False"

definition count_tool_calls :: "Message \<Rightarrow> nat" where
  "count_tool_calls m = length (filter (\<lambda>b. is_tool_call_block (block_kind b)) (message_content m))"

definition node_facts :: "EventKind \<Rightarrow> SurfaceError + (SurfaceNodeKind \<times> Message option \<times> int)" where
  "node_facts k = (case k of
      UserMessage m \<Rightarrow> Ok (NodeUser, Some m, 0)
    | ToolResult _ _ m _ _ \<Rightarrow> Ok (NodeToolResult, Some m, -1)
    | AssistantMessage _ _ m _ \<Rightarrow>
        if message_content m = [] then Ok (NodeAssistant, None, 0)
        else if count_tool_calls m < 2 ^ 63 then Ok (NodeAssistant, Some m, int (count_tool_calls m))
        else Err TokenAccountingOverflow
    | _ \<Rightarrow> Err ToolResultWrongTarget)"

definition node_origin :: "session_env \<Rightarrow> SessionEvent \<Rightarrow> SurfaceRowBinding
    \<Rightarrow> SurfaceError + ToolResultOrigin option" where
  "node_origin env e binding =
     (if is_tool_result (event_kind e)
      then and_then (ok_or (masked_data_sha256 env (event_data e)) ToolResultChangedIdentity) (\<lambda>masked.
        case binding of
          BindMemory \<Rightarrow> Ok (Some (OriginMemory masked))
        | BindPendingDurable \<Rightarrow> Ok (Some (OriginPendingDurable masked))
        | BindDurable row \<Rightarrow>
            if row_seq row \<noteq> event_seq e then Err ToolResultChangedIdentity
            else Ok (Some (OriginDurable masked row)))
      else Ok None)"

definition surface_node :: "session_env \<Rightarrow> SessionEvent \<Rightarrow> SurfaceRowBinding \<Rightarrow> SurfaceError + SurfaceNode" where
  "surface_node env e binding =
     and_then (node_facts (event_kind e)) (\<lambda>(kind, message, delta).
     and_then (case message of
         None \<Rightarrow> Ok 0
       | Some m \<Rightarrow> map_err context_budget_surface_error (estimate_message env m)) (\<lambda>tokens.
     and_then (node_origin env e binding) (\<lambda>origin.
       Ok \<lparr>node_seq = event_seq e, node_kind = kind, node_message = message,
           node_estimated_tokens = tokens, node_tool_delta = delta, node_tool_result = origin\<rparr>)))"

definition node_resident_bytes :: "SurfaceNode \<Rightarrow> usize" where
  "node_resident_bytes n = (case Option.bind (node_message n) charged_surface_bytes of
      None \<Rightarrow> 0 | Some b \<Rightarrow> b)"

fun bind_origin :: "JournalRowLocator \<Rightarrow> ToolResultOrigin option \<Rightarrow> ToolResultOrigin option" where
  "bind_origin row (Some (OriginPendingDurable masked)) = Some (OriginDurable masked row)"
| "bind_origin row origin = origin"

fun is_pending_origin :: "ToolResultOrigin option \<Rightarrow> bool" where
  "is_pending_origin (Some (OriginPendingDurable _)) = True"
| "is_pending_origin _ = False"

text \<open>\<open>bind_tool_result_row\<close>: the list is assumed not to be shared, as in the code. None is \<open>false\<close>.\<close>

definition bind_tool_result_row ::
    "'a Projection_scheme \<Rightarrow> EventSeq \<Rightarrow> JournalRowLocator \<Rightarrow> 'a Projection_scheme option" where
  "bind_tool_result_row p seq row = (case List.find (\<lambda>n. node_seq n = seq) (surface_nodes p) of
      None \<Rightarrow> None
    | Some node \<Rightarrow>
        if \<not> is_pending_origin (node_tool_result node) then None
        else Some (p\<lparr>surface_nodes := update_first (\<lambda>n. node_seq n = seq)
          (\<lambda>n. n\<lparr>node_tool_result := bind_origin row (node_tool_result n)\<rparr>) (surface_nodes p)\<rparr>))"

fun bind_recovery_tool_result_rows ::
    "'a Projection_scheme \<Rightarrow> JournalRowLocator list \<Rightarrow> 'a Projection_scheme option" where
  "bind_recovery_tool_result_rows p [] = Some p"
| "bind_recovery_tool_result_rows p (row # rows) =
     (case List.find (\<lambda>n. node_seq n = row_seq row) (surface_nodes p) of
        None \<Rightarrow> bind_recovery_tool_result_rows p rows
      | Some node \<Rightarrow>
          if node_kind node = NodeToolResult
          then (case bind_tool_result_row p (row_seq row) row of
              None \<Rightarrow> None
            | Some p' \<Rightarrow> bind_recovery_tool_result_rows p' rows)
          else bind_recovery_tool_result_rows p rows)"

section \<open>Applying an event to the surface\<close>

text \<open>Index of the first element with a property.\<close>

fun position :: "('a \<Rightarrow> bool) \<Rightarrow> 'a list \<Rightarrow> nat option" where
  "position P [] = None"
| "position P (x # xs) = (if P x then Some 0 else map_option Suc (position P xs))"

definition node_position :: "'a Projection_scheme \<Rightarrow> EventSeq \<Rightarrow> nat option" where
  "node_position p seq = position (\<lambda>n. node_seq n = seq) (surface_nodes p)"

text \<open>\<open>[i..=j]\<close> of a list.\<close>

definition slice :: "nat \<Rightarrow> nat \<Rightarrow> 'a list \<Rightarrow> 'a list" where
  "slice i j xs = take (Suc j - i) (drop i xs)"

definition apply_append :: "'a Projection_scheme \<Rightarrow> SurfaceNode \<Rightarrow> SurfaceError + 'a Projection_scheme" where
  "apply_append p node =
     and_then (ok_or (checked_add (surface_tokens p) (node_estimated_tokens node)) TokenAccountingOverflow) (\<lambda>tokens.
     and_then (ok_or (checked_add (surface_resident_bytes p) (node_resident_bytes node)) ResidentAccountingOverflow) (\<lambda>bytes.
       Ok (p\<lparr>surface_nodes := surface_nodes p @ [node], surface_tokens := tokens,
             surface_resident_bytes := bytes\<rparr>)))"

text \<open>Total minus what was removed plus what was added.\<close>

definition swap_total :: "'e \<Rightarrow> 'w::len word \<Rightarrow> 'w word list \<Rightarrow> 'w word \<Rightarrow> 'e + 'w word" where
  "swap_total overflow current removed added =
     and_then (ok_or (checked_fold 0 removed) overflow) (\<lambda>gone.
       ok_or (Option.bind (checked_sub current gone) (\<lambda>t. checked_add t added)) overflow)"

definition apply_replace :: "session_env \<Rightarrow> 'a Projection_scheme \<Rightarrow> SessionEvent \<Rightarrow> SurfaceRowBinding
    \<Rightarrow> EventSeq \<Rightarrow> EventSeq \<Rightarrow> SurfaceError + 'a Projection_scheme" where
  "apply_replace env p e binding start_seq end_seq =
     and_then (ok_or (node_position p start_seq) (StartNotFound start_seq)) (\<lambda>i.
     and_then (ok_or (node_position p end_seq) (EndNotFound end_seq)) (\<lambda>j.
       if i > j then Err (ReversedRange start_seq end_seq)
       else (let shadowed = slice i j (surface_nodes p);
                 sources = (case event_sources e of None \<Rightarrow> [] | Some s \<Rightarrow> s)
         in case List.find (\<lambda>n. node_seq n \<notin> set sources) shadowed of
           Some n \<Rightarrow> Err (MissingShadowedSource (node_seq n))
         | None \<Rightarrow>
             and_then (if is_tool_result (event_kind e) then validate_tool_result_rewrite env e shadowed
                       else Ok ()) (\<lambda>_.
             and_then (surface_node env e binding) (\<lambda>node.
             and_then (swap_total TokenAccountingOverflow (surface_tokens p)
               (map node_estimated_tokens shadowed) (node_estimated_tokens node)) (\<lambda>tokens.
             and_then (swap_total ResidentAccountingOverflow (surface_resident_bytes p)
               (map node_resident_bytes shadowed) (node_resident_bytes node)) (\<lambda>bytes.
               Ok (p\<lparr>surface_nodes := take i (surface_nodes p) @ [node] @ drop (Suc j) (surface_nodes p),
                     surface_tokens := tokens, surface_resident_bytes := bytes\<rparr>))))))))"

definition apply_surface :: "session_env \<Rightarrow> 'a Projection_scheme \<Rightarrow> SessionEvent \<Rightarrow> SurfaceRowBinding
    \<Rightarrow> SurfaceError + 'a Projection_scheme" where
  "apply_surface env p e binding =
     (if \<not> is_surface_eligible (event_kind e)
      then (if event_surface_op e \<noteq> None \<or> event_sources e \<noteq> None
            then Err (MetadataOnIneligibleEvent (event_type (event_kind e))) else Ok p)
      else and_then (validate_time_context_surface p e) (\<lambda>reading.
        and_then (ok_or (event_surface_op e) (MissingOperation (event_type (event_kind e)))) (\<lambda>operation.
        and_then (validate_sources e) (\<lambda>_.
        and_then (case operation of
            SurfaceAppend \<Rightarrow> and_then (surface_node env e binding) (apply_append p)
          | SurfaceReplace start_seq end_seq \<Rightarrow> apply_replace env p e binding start_seq end_seq) (\<lambda>p.
          Ok (observe_message_time e reading p))))))"

section \<open>Reading the surface\<close>

definition surface_messages :: "'a Projection_scheme \<Rightarrow> Message list" where
  "surface_messages p = List.map_filter node_message (surface_nodes p)"

definition try_messages_with :: "'a Projection_scheme \<Rightarrow> Message list \<Rightarrow> Message list option" where
  "try_messages_with p pending =
     (if length (filter (\<lambda>n. node_message n \<noteq> None) (surface_nodes p)) + length pending < 2 ^ 64
      then Some (surface_messages p @ pending) else None)"

definition current_surface_contains :: "'a Projection_scheme \<Rightarrow> EventSeq \<Rightarrow> bool" where
  "current_surface_contains p seq = list_ex (\<lambda>n. node_seq n = seq) (surface_nodes p)"

definition durable_tool_result_snapshot :: "'a Projection_scheme \<Rightarrow> EventSeq \<Rightarrow> ToolResultSnapshot option" where
  "durable_tool_result_snapshot p seq =
     Option.bind (List.find (\<lambda>n. node_seq n = seq) (surface_nodes p)) (\<lambda>node.
       case node_tool_result node of
         Some (OriginDurable masked row) \<Rightarrow> map_option (\<lambda>m. \<lparr>snapshot_seq = seq, snapshot_message = m,
           snapshot_estimated_tokens = node_estimated_tokens node, snapshot_row = row,
           snapshot_masked = masked\<rparr>) (node_message node)
       | _ \<Rightarrow> None)"

fun is_durable_origin :: "ToolResultOrigin option \<Rightarrow> bool" where
  "is_durable_origin (Some (OriginDurable _ _)) = True"
| "is_durable_origin _ = False"

definition durable_tool_result_seqs :: "'a Projection_scheme \<Rightarrow> EventSeq list" where
  "durable_tool_result_seqs p =
     map node_seq (filter (\<lambda>n. is_durable_origin (node_tool_result n)) (surface_nodes p))"

text \<open>Tool calls on the surface that have no result yet, with how often each is called.\<close>

fun add_calls :: "ContentBlock list \<Rightarrow> (call_id \<times> nat) list \<Rightarrow> (call_id \<times> nat) list" where
  "add_calls [] u = u"
| "add_calls (b # bs) u = add_calls bs (case block_kind b of
      ToolCallBlock i _ _ \<Rightarrow> AList.update i (case map_of u i of None \<Rightarrow> 1 | Some n \<Rightarrow> Suc n) u
    | _ \<Rightarrow> u)"

definition remove_call :: "call_id \<Rightarrow> (call_id \<times> nat) list \<Rightarrow> (call_id \<times> nat) list" where
  "remove_call i u = (case map_of u i of
      None \<Rightarrow> u
    | Some n \<Rightarrow> if n - 1 = 0 then AList.delete i u else AList.update i (n - 1) u)"

fun unresolved_calls :: "SurfaceNode list \<Rightarrow> (call_id \<times> nat) list \<Rightarrow> (call_id \<times> nat) list option" where
  "unresolved_calls [] u = Some u"
| "unresolved_calls (n # ns) u = (case node_message n of
      None \<Rightarrow> unresolved_calls ns u
    | Some m \<Rightarrow> (case node_kind n of
        NodeAssistant \<Rightarrow> unresolved_calls ns (add_calls (message_content m) u)
      | NodeToolResult \<Rightarrow> (case validate_tool_result m of
          Inl _ \<Rightarrow> None
        | Inr i \<Rightarrow> unresolved_calls ns (remove_call i u))
      | NodeUser \<Rightarrow> unresolved_calls ns u))"

definition has_unresolved_surface_tool_calls :: "'a Projection_scheme \<Rightarrow> bool" where
  "has_unresolved_surface_tool_calls p = (case unresolved_calls (surface_nodes p) [] of
      None \<Rightarrow> True | Some u \<Rightarrow> u \<noteq> [])"

end
