(* ===== verification/Projection_Compaction.thy ===== *)
theory Projection_Compaction
  imports Projection_Surface
begin

text \<open>
  The compaction bracket of the session projection (\<open>src/session/projection.rs\<close>): start, summary,
  checkpoint and end must follow each other without a gap, the start must select the canonical
  prefix of the surface, the checkpoint must shadow exactly that prefix and shrink it; a prune
  marker claims the tool result that the next event may rewrite. \<open>next_compaction_state\<close> computes
  the new bracket from the state before the event.
\<close>

section \<open>Sources of checkpoints\<close>

definition COMPACTION_CHECKPOINT_SOURCE :: string where
  "COMPACTION_CHECKPOINT_SOURCE = ''compact''"

definition COMPACTION_CHECKPOINT_PREFIX :: string where
  "COMPACTION_CHECKPOINT_PREFIX = ''This is an automatically generated checkpoint condensing an earlier span of the conversation to free up context. Treat the captured context as established background and build on it without restating it. Continue the task directly from the messages that follow, without acknowledging this checkpoint.'' @ [CHR 0x0A, CHR 0x0A] @ ''<compacted-summary>''"

definition COMPACTION_CHECKPOINT_SUFFIX :: string where
  "COMPACTION_CHECKPOINT_SUFFIX = ''</compacted-summary>''"

definition event_is_immediately_after :: "EventSeq \<Rightarrow> EventSeq \<Rightarrow> bool" where
  "event_is_immediately_after current previous \<longleftrightarrow> checked_add previous 1 = Some current"

definition checkpoint_source_matches :: "Message \<Rightarrow> OpenCompaction \<Rightarrow> bool" where
  "checkpoint_source_matches m opened = (case as_object (source_raw (message_source m)) of
      None \<Rightarrow> False
    | Some fs \<Rightarrow>
        length fs = (if open_source_command_id opened \<noteq> None then 4 else 3)
        \<and> get_str fs ''kind'' = Some ''plugin''
        \<and> get_str fs ''plugin'' = Some COMPACTION_CHECKPOINT_SOURCE
        \<and> get_str fs ''compactionId'' = Some (open_compaction_id opened)
        \<and> (case open_source_command_id opened of
            Some expected \<Rightarrow> get_str fs ''sourceCommandId'' = Some expected
          | None \<Rightarrow> map_of fs ''sourceCommandId'' = None))"

definition is_compaction_checkpoint_source :: "Message \<Rightarrow> bool" where
  "is_compaction_checkpoint_source m \<longleftrightarrow>
     is_plugin_source COMPACTION_CHECKPOINT_SOURCE (source_kind (message_source m))
     \<and> (case as_object (source_raw (message_source m)) of
          None \<Rightarrow> False | Some fs \<Rightarrow> get_str fs ''compactionId'' \<noteq> None)"

definition canonical_text_block_matches :: "ContentBlock \<Rightarrow> string \<Rightarrow> bool" where
  "canonical_text_block_matches b expected = (case as_object (block_raw b) of
      None \<Rightarrow> False
    | Some fs \<Rightarrow> length fs = 2 \<and> get_str fs ''type'' = Some ''text''
        \<and> get_str fs ''text'' = Some expected)"

section \<open>Ranges of the surface\<close>

definition surface_range_indices ::
    "'a Projection_scheme \<Rightarrow> CompactionRange \<Rightarrow> EventSeq list \<Rightarrow> (nat \<times> nat) option" where
  "surface_range_indices p r expected =
     Option.bind (node_position p (range_start r)) (\<lambda>i.
     Option.bind (node_position p (range_end r)) (\<lambda>j.
       if i \<le> j \<and> map node_seq (slice i j (surface_nodes p)) = expected then Some (i, j) else None))"

definition surface_range_matches :: "'a Projection_scheme \<Rightarrow> CompactionRange \<Rightarrow> EventSeq list \<Rightarrow> bool" where
  "surface_range_matches p r expected \<longleftrightarrow> surface_range_indices p r expected \<noteq> None"

section \<open>Starting a compaction\<close>

definition dispatch_mismatch :: "string \<Rightarrow> EventValidationError" where
  "dispatch_mismatch detail = EvTransition (CompactionDispatchMismatch detail)"

definition token_sum :: "SurfaceNode list \<Rightarrow> EventValidationError + u64" where
  "token_sum nodes = ok_or (checked_fold 0 (map node_estimated_tokens nodes)) (EvSurface TokenAccountingOverflow)"

fun trigger_matches :: "CompactionTrigger \<Rightarrow> Boundary \<Rightarrow> EventValidationError + unit" where
  "trigger_matches TriggerPressure (BoundaryTurn _ _) = Ok ()"
| "trigger_matches TriggerHardLimit (BoundaryTurn _ _) = Ok ()"
| "trigger_matches TriggerContextOverflow (BoundaryStep _) = Ok ()"
| "trigger_matches TriggerManual BoundaryIdle = Ok ()"
| "trigger_matches TriggerPressure _ = Err (dispatch_mismatch
     ''pressure and hard-limit compaction require an open turn without a step'')"
| "trigger_matches TriggerHardLimit _ = Err (dispatch_mismatch
     ''pressure and hard-limit compaction require an open turn without a step'')"
| "trigger_matches TriggerContextOverflow _ =
     Err (dispatch_mismatch ''context-overflow compaction requires an open step'')"
| "trigger_matches TriggerManual _ = Err (dispatch_mismatch ''manual compaction requires an idle Session'')"

definition dispatch_matches_header :: "'a Projection_scheme \<Rightarrow> ModelVisibleDispatchSnapshot \<Rightarrow> bool" where
  "dispatch_matches_header p d = (case request_header p of
      None \<Rightarrow> True
    | Some h \<Rightarrow> (let c = header_canonicalized h in
        dispatch_system d = header_system c
        \<and> dispatch_tools d = (case header_tools c of None \<Rightarrow> [] | Some ts \<Rightarrow> ts)))"

definition require_dispatch :: "bool \<Rightarrow> string \<Rightarrow> EventValidationError + unit" where
  "require_dispatch ok detail = (if ok then Ok () else Err (dispatch_mismatch detail))"

text \<open>The range must be the canonical balanced prefix; its end index and token count.\<close>

definition dispatch_prefix :: "'a Projection_scheme \<Rightarrow> EventSeq \<Rightarrow> ModelVisibleDispatchSnapshot
    \<Rightarrow> EventValidationError + u64" where
  "dispatch_prefix p start_seq d =
     and_then (ok_or (surface_range_indices p (dispatch_shadowed_range d) (dispatch_shadowed_seqs d))
       (dispatch_mismatch ''shadowed range is not the selected current surface'')) (\<lambda>(first, final).
     and_then (require_dispatch (first = 0 \<and> \<not> list_ex (\<lambda>s. s \<ge> start_seq) (dispatch_shadowed_seqs d)
         \<and> length (dispatch_shadowed_seqs d) \<le> MAX_SOURCE_EVENT_SEQS - 2)
       ''shadowed range is not a bounded oldest surface prefix'') (\<lambda>_.
     and_then (token_sum (drop (Suc final) (surface_nodes p))) (\<lambda>retained.
     and_then (map_err (\<lambda>e. EvSurface (context_budget_surface_error e))
       (select_compactable_prefix (surface_nodes p) retained (MAX_SOURCE_EVENT_SEQS - 2)
         surface_price_facts)) (\<lambda>selected.
     and_then (require_dispatch (map_option end_exclusive selected = Some (Suc final))
       ''shadowed range is not the canonical balanced prefix'') (\<lambda>_.
       token_sum (take (Suc final) (surface_nodes p)))))))"

definition validate_compaction_dispatch :: "session_env \<Rightarrow> 'a Projection_scheme \<Rightarrow> EventSeq
    \<Rightarrow> ModelVisibleDispatchSnapshot \<Rightarrow> EventValidationError + CompactionRecipe" where
  "validate_compaction_dispatch env p start_seq d =
     and_then (require_dispatch (dispatch_surface_generation d = surface_generation (compaction p))
       ''surface generation changed before compaction/start'') (\<lambda>_.
     and_then (require_dispatch (pending_approvals p = [] \<and> \<not> has_pending_durable_call p)
       ''compaction cannot start with unresolved approval or tool work'') (\<lambda>_.
     and_then (dispatch_prefix p start_seq d) (\<lambda>shadowed_tokens.
     and_then (require_dispatch (case session_id p of None \<Rightarrow> True | Some s \<Rightarrow> s = dispatch_session_id d)
       ''sessionId does not match the active Session'') (\<lambda>_.
     and_then (require_dispatch (dispatch_request_header_seq d = request_header_seq p)
       ''requestHeaderSeq is not the latest header'') (\<lambda>_.
     and_then (require_dispatch (dispatch_request_context_seq d = request_context_seq p)
       ''requestContextSeq is not the latest context'') (\<lambda>_.
     and_then (require_dispatch (dispatch_matches_header p d)
       ''system or tools differ from the referenced request header'') (\<lambda>_.
     and_then (map_err (\<lambda>e. EvSurface (context_budget_surface_error e))
       (estimate_request_header env (dispatch_system d) (dispatch_tools d))) (\<lambda>_.
     and_then (trigger_matches (dispatch_trigger d) (boundary p)) (\<lambda>_.
       Ok (let config = call_config (dispatch_prepared_call d) in
         \<lparr>recipe_trigger = dispatch_trigger d, recipe_range = dispatch_shadowed_range d,
          recipe_shadowed_seqs = dispatch_shadowed_seqs d, recipe_shadowed_token_count = shadowed_tokens,
          recipe_provider = config_provider config, recipe_model = config_model config,
          recipe_max_tokens = config_max_tokens config\<rparr>))))))))))"

text \<open>The recipe a start carries, by owner, source command, dispatch and admission.\<close>

definition start_recipe :: "session_env \<Rightarrow> 'a Projection_scheme \<Rightarrow> EventSeq \<Rightarrow> CompactionStartEvent
    \<Rightarrow> ValidationAdmission \<Rightarrow> EventValidationError + CompactionRecipe option" where
  "start_recipe env p seq s admission =
     (case (start_turn s, start_dispatch s) of
        (None, dispatch) \<Rightarrow> (case (start_source_command_id s, dispatch, boundary p) of
            (Some _, Some d, BoundaryIdle) \<Rightarrow>
              and_then (validate_compaction_dispatch env p seq d) (\<lambda>r. Ok (Some r))
          | _ \<Rightarrow> if admission \<noteq> CompatibilityReplay then Err (EvTransition ManualCompactionEnvelopeInvalid)
                 else Ok None)
      | (Some _, Some d) \<Rightarrow> and_then (validate_compaction_dispatch env p seq d) (\<lambda>r. Ok (Some r))
      | (Some _, None) \<Rightarrow>
          if admission \<noteq> CompatibilityReplay then Err (EvTransition DurableCompactionDispatchRequired)
          else Ok None)"

definition validate_compaction_start :: "session_env \<Rightarrow> 'a Projection_scheme \<Rightarrow> EventSeq
    \<Rightarrow> CompactionStartEvent \<Rightarrow> ValidationAdmission \<Rightarrow> EventValidationError + OpenCompaction" where
  "validate_compaction_start env p seq s admission =
     (if start_turn s \<noteq> open_turn p then Err (EvTransition (CompactionOwnerMismatch ''compaction/start''))
      else and_then (start_recipe env p seq s admission) (\<lambda>recipe.
        Ok \<lparr>open_compaction_id = start_compaction_id s,
            open_source_command_id = start_source_command_id s, open_owner = start_turn s,
            open_start_seq = seq, open_recipe = recipe, open_phase = PhaseStarted\<rparr>))"

section \<open>Advancing an open compaction\<close>

definition event_type_static :: "EventKind \<Rightarrow> string" where
  "event_type_static k = (case k of Unknown _ _ \<Rightarrow> ''unknown'' | _ \<Rightarrow> event_type k)"

definition validate_compaction_identity :: "string \<Rightarrow> OpenCompaction \<Rightarrow> CompactionId \<Rightarrow> string option
    \<Rightarrow> EventValidationError + unit" where
  "validate_compaction_identity ety opened i command =
     (if open_compaction_id opened \<noteq> i
      then Err (EvTransition (CompactionIdMismatch ety (open_compaction_id opened) i))
      else if open_source_command_id opened \<noteq> command
      then Err (EvTransition (CompactionSourceCommandMismatch ety)) else Ok ())"

definition checkpoint_content_matches :: "session_env \<Rightarrow> ContentBlock list \<Rightarrow> json list \<Rightarrow> bool" where
  "checkpoint_content_matches env content blocks \<longleftrightarrow>
     length content = length blocks + 2
     \<and> canonical_text_block_matches (hd content) COMPACTION_CHECKPOINT_PREFIX
     \<and> canonical_text_block_matches (last content) COMPACTION_CHECKPOINT_SUFFIX
     \<and> list_all2 (\<lambda>actual expected. json_values_equal env (block_raw actual) expected)
         (butlast (tl content)) blocks"

definition validate_checkpoint_replacement :: "session_env \<Rightarrow> SessionEvent \<Rightarrow> Message \<Rightarrow> OpenCompaction
    \<Rightarrow> SummarizedCompaction \<Rightarrow> bool" where
  "validate_checkpoint_replacement env e m opened s = (case event_surface_op e of
      Some (SurfaceReplace start_seq end_seq) \<Rightarrow>
        start_seq = range_start (summarized_range s) \<and> end_seq = range_end (summarized_range s)
        \<and> event_sources e = Some (open_start_seq opened # summarized_seq s # summarized_shadowed_seqs s)
        \<and> is_plugin_source COMPACTION_CHECKPOINT_SOURCE (source_kind (message_source m))
        \<and> checkpoint_source_matches m opened
        \<and> checkpoint_content_matches env (message_content m) (summarized_blocks s)
    | _ \<Rightarrow> False)"

definition summary_matches_recipe :: "ValidationPolicy \<Rightarrow> CompactionSummaryEvent \<Rightarrow> CompactionRecipe
    \<Rightarrow> EventValidationError + unit" where
  "summary_matches_recipe pol s r =
     (if pol = DurableStrict \<and> summary_shadowed_token_count s \<noteq> recipe_shadowed_token_count r
      then Err (EvSurface (ShadowedTokenCountMismatch (recipe_shadowed_token_count r)
        (summary_shadowed_token_count s)))
      else require_dispatch (summary_shadowed_range s = recipe_range r
          \<and> summary_shadowed_seqs s = recipe_shadowed_seqs r \<and> summary_provider s = recipe_provider r
          \<and> summary_model s = recipe_model r \<and> summary_max_tokens s = recipe_max_tokens r
          \<and> (pol = DurableStrict \<longrightarrow> summary_llm_stream_call s))
        ''summary differs from the prepared compaction call'')"

definition advance_summary :: "'a Projection_scheme \<Rightarrow> EventSeq \<Rightarrow> OpenCompaction \<Rightarrow> CompactionSummaryEvent
    \<Rightarrow> EventValidationError + OpenCompaction option" where
  "advance_summary p seq opened s =
     and_then (validate_compaction_identity ''compaction/summary'' opened (summary_compaction_id s)
       (summary_source_command_id s)) (\<lambda>_.
       if open_phase opened \<noteq> PhaseStarted \<or> \<not> event_is_immediately_after seq (open_start_seq opened)
       then Err (EvTransition (CompactionBodyOutOfOrder ''compaction/summary''))
       else and_then (require_dispatch (open_turn p = open_owner opened
           \<and> surface_range_matches p (summary_shadowed_range s) (summary_shadowed_seqs s))
         ''summary does not match its owner or selected surface'') (\<lambda>_.
       and_then (case open_recipe opened of
           None \<Rightarrow> Ok () | Some r \<Rightarrow> summary_matches_recipe (policy p) s r) (\<lambda>_.
         Ok (Some (opened\<lparr>open_phase := PhaseSummarized \<lparr>summarized_seq = seq,
           summarized_range = summary_shadowed_range s,
           summarized_shadowed_seqs = summary_shadowed_seqs s,
           summarized_blocks = map block_raw (summary_blocks s),
           summarized_token_count = summary_shadowed_token_count s\<rparr>\<rparr>)))))"

definition advance_checkpoint :: "session_env \<Rightarrow> 'a Projection_scheme \<Rightarrow> SessionEvent \<Rightarrow> Message
    \<Rightarrow> OpenCompaction \<Rightarrow> EventValidationError + OpenCompaction option" where
  "advance_checkpoint env p e m opened = (case open_phase opened of
      PhaseSummarized s \<Rightarrow>
        if \<not> event_is_immediately_after (event_seq e) (summarized_seq s)
          \<or> \<not> validate_checkpoint_replacement env e m opened s
        then Err (EvSurface CompactionReplacementMismatch)
        else and_then
          (if policy p = DurableStrict
           then and_then (map_err (\<lambda>x. EvSurface (context_budget_surface_error x)) (estimate_message env m))
             (\<lambda>tokens. if tokens \<ge> summarized_token_count s
               then Err (EvSurface (CompactionDoesNotShrink (summarized_token_count s) tokens)) else Ok ())
           else Ok ()) (\<lambda>_.
          Ok (Some (opened\<lparr>open_phase := PhaseReplaced (summarized_seq s) (event_seq e),
            open_recipe := None\<rparr>)))
    | _ \<Rightarrow> Err (EvTransition (CompactionBodyOutOfOrder ''user/message replacement'')))"

fun phase_seq :: "EventSeq \<Rightarrow> CompactionPhase \<Rightarrow> EventSeq" where
  "phase_seq start_seq PhaseStarted = start_seq"
| "phase_seq start_seq (PhaseSummarized s) = summarized_seq s"
| "phase_seq start_seq (PhaseReplaced _ checkpoint) = checkpoint"

fun is_replaced :: "CompactionPhase \<Rightarrow> bool" where
  "is_replaced (PhaseReplaced _ _) = True"
| "is_replaced _ = False"

definition advance_end :: "'a Projection_scheme \<Rightarrow> EventSeq \<Rightarrow> OpenCompaction \<Rightarrow> CompactionEndEvent
    \<Rightarrow> ValidationAdmission \<Rightarrow> EventValidationError + OpenCompaction option" where
  "advance_end p seq opened x admission =
     and_then (validate_compaction_identity ''compaction/end'' opened (end_compaction_id x)
       (end_source_command_id x)) (\<lambda>_.
       if end_turn x \<noteq> open_owner opened \<or> open_turn p \<noteq> open_owner opened
       then Err (EvTransition (CompactionOwnerMismatch ''compaction/end''))
       else if admission \<noteq> CompatibilityReplay
         \<and> (case end_error x of None \<Rightarrow> False | Some err \<Rightarrow> is_legacy_error err)
       then Err (EvTransition DurableLegacyCompactionError)
       else if \<not> event_is_immediately_after seq (phase_seq (open_start_seq opened) (open_phase opened))
       then Err (EvTransition (CompactionBodyOutOfOrder ''compaction/end''))
       else if end_error x = None \<and> \<not> is_replaced (open_phase opened)
       then Err (EvTransition CompactionSuccessWithoutReplacement)
       else Ok None)"

definition advance_open_compaction :: "session_env \<Rightarrow> 'a Projection_scheme \<Rightarrow> SessionEvent \<Rightarrow> OpenCompaction
    \<Rightarrow> ValidationAdmission \<Rightarrow> EventValidationError + OpenCompaction option" where
  "advance_open_compaction env p e opened admission =
     (let crossed = Err (EvTransition (CompactionBoundaryCrossed (event_type_static (event_kind e)))) in
      case event_kind e of
        CompactionStart _ \<Rightarrow> Err (EvTransition (CompactionAlreadyOpen (open_compaction_id opened)))
      | CompactionSummary s \<Rightarrow> advance_summary p (event_seq e) opened s
      | UserMessage m \<Rightarrow>
          if is_replace (event_surface_op e) then advance_checkpoint env p e m opened else crossed
      | CompactionEnd x \<Rightarrow> advance_end p (event_seq e) opened x admission
      | _ \<Rightarrow> crossed)"

section \<open>The next bracket\<close>

definition advance_generation :: "u64 \<Rightarrow> EventValidationError + u64" where
  "advance_generation g = ok_or (safe_successor g) (EvTransition IdentifierExhausted)"

definition advance_surface_generation ::
    "CompactionState \<Rightarrow> SessionEvent \<Rightarrow> EventValidationError + CompactionState" where
  "advance_surface_generation c e =
     (if is_surface_eligible (event_kind e)
      then and_then (advance_generation (surface_generation c)) (\<lambda>g. Ok (c\<lparr>surface_generation := g\<rparr>))
      else Ok c)"

text \<open>The claim is taken; the result says whether the event is the claimed rewrite.\<close>

definition apply_prune_adjacency ::
    "CompactionState \<Rightarrow> SessionEvent \<Rightarrow> EventValidationError + (CompactionState \<times> bool)" where
  "apply_prune_adjacency c e = (case prune_claim c of
      None \<Rightarrow> Ok (c, False)
    | Some target \<Rightarrow> (let c = c\<lparr>prune_claim := None\<rparr> in
        case event_surface_op e of
          Some (SurfaceReplace start_seq end_seq) \<Rightarrow>
            if is_tool_result (event_kind e) \<and> start_seq = target \<and> end_seq = target
              \<and> event_sources e = Some [target]
            then Ok (c, True) else Err (EvSurface PruneReplacementMismatch)
        | _ \<Rightarrow> and_then (ok_or (checked_add (orphan_prune_count c) 1) (EvTransition IdentifierExhausted))
            (\<lambda>n. Ok (c\<lparr>orphan_prune_count := n\<rparr>, False))))"

text \<open>The payload was validated, so it names exactly one node.\<close>

definition claim_prune :: "'a Projection_scheme \<Rightarrow> CompactionPruneEvent \<Rightarrow> EventValidationError + EventSeq" where
  "claim_prune p x =
     (case prune_shadowed_seqs x of
        [] \<Rightarrow> Err (EvSurface PruneTargetNotToolResult)
      | target # _ \<Rightarrow> (case List.find (\<lambda>n. node_seq n = target) (surface_nodes p) of
          None \<Rightarrow> Err (EvSurface PruneTargetNotToolResult)
        | Some n \<Rightarrow>
            if node_kind n \<noteq> NodeToolResult then Err (EvSurface PruneTargetNotToolResult)
            else if policy p = DurableStrict \<and> prune_shadowed_token_count x \<noteq> node_estimated_tokens n
            then Err (EvSurface (ShadowedTokenCountMismatch (node_estimated_tokens n)
              (prune_shadowed_token_count x)))
            else Ok target))"

text \<open>The event with no compaction open; \<open>consumed_prune\<close> tells that it is a claimed rewrite.\<close>

definition outside_compaction :: "session_env \<Rightarrow> 'a Projection_scheme \<Rightarrow> SessionEvent \<Rightarrow> ValidationAdmission
    \<Rightarrow> bool \<Rightarrow> CompactionState \<Rightarrow> EventValidationError + CompactionState" where
  "outside_compaction env p e admission consumed_prune c = (case event_kind e of
      CompactionStart s \<Rightarrow> and_then (validate_compaction_start env p (event_seq e) s admission) (\<lambda>opened.
        Ok (c\<lparr>open_compaction := Some opened\<rparr>))
    | CompactionSummary _ \<Rightarrow> Err (EvTransition (CompactionWithoutStart ''compaction/summary''))
    | CompactionEnd _ \<Rightarrow> Err (EvTransition (CompactionWithoutStart ''compaction/end''))
    | CompactionPrune x \<Rightarrow> and_then (claim_prune p x) (\<lambda>target. Ok (c\<lparr>prune_claim := Some target\<rparr>))
    | UserMessage m \<Rightarrow>
        if is_replace (event_surface_op e) \<and> is_compaction_checkpoint_source m
        then Err (EvTransition (CompactionWithoutStart ''user/message replacement'')) else Ok c
    | ToolResult _ _ _ _ _ \<Rightarrow>
        if policy p = DurableStrict \<and> is_replace (event_surface_op e) \<and> \<not> consumed_prune
        then Err (EvSurface PruneReplacementWithoutMarker) else Ok c
    | _ \<Rightarrow> Ok c)"

definition is_checkpoint_event :: "SessionEvent \<Rightarrow> bool" where
  "is_checkpoint_event e = (case event_kind e of
      UserMessage m \<Rightarrow> is_replace (event_surface_op e) \<and> is_compaction_checkpoint_source m
    | _ \<Rightarrow> False)"

definition compaction_closed :: "CompactionState \<Rightarrow> CompactionState" where
  "compaction_closed c = c\<lparr>open_compaction := None, prune_claim := None, orphan_prune_count := 0\<rparr>"

fun is_prune :: "EventKind \<Rightarrow> bool" where
  "is_prune (CompactionPrune _) = True"
| "is_prune _ = False"

fun is_step_end :: "EventKind \<Rightarrow> bool" where
  "is_step_end (StepEnd _ _) = True"
| "is_step_end _ = False"

text \<open>The ordinary case, after the admissions that bypass the bracket.\<close>

definition advance_compaction :: "session_env \<Rightarrow> 'a Projection_scheme \<Rightarrow> SessionEvent \<Rightarrow> ValidationAdmission
    \<Rightarrow> EventValidationError + CompactionState" where
  "advance_compaction env p e admission =
     and_then (apply_prune_adjacency (compaction p) e) (\<lambda>(c, consumed_prune).
     and_then (case open_compaction c of
         Some opened \<Rightarrow> and_then (advance_open_compaction env p e opened admission) (\<lambda>next.
           Ok (c\<lparr>open_compaction := next\<rparr>))
       | None \<Rightarrow> outside_compaction env p e admission consumed_prune c) (\<lambda>c.
     and_then (advance_surface_generation c e) (\<lambda>c.
       if consumed_prune \<or> is_checkpoint_event e
       then and_then (advance_generation (replacement_generation c)) (\<lambda>g.
         Ok (c\<lparr>replacement_generation := g\<rparr>))
       else Ok c)))"

definition next_compaction_state :: "session_env \<Rightarrow> 'a Projection_scheme \<Rightarrow> SessionEvent
    \<Rightarrow> ValidationAdmission \<Rightarrow> EventValidationError + CompactionState" where
  "next_compaction_state env p e admission =
     (let k = event_kind e; strict = (policy p = DurableStrict) in
      if strict \<and> admission = Ordinary
        \<and> (is_prune k \<or> is_tool_result k \<and> is_replace (event_surface_op e))
      then Err (EvTransition (DurablePruneEventNotAllowed (event_type_static k)))
      else if strict \<and> is_unprivileged_durable admission \<and> open_compaction (compaction p) \<noteq> None
        \<and> is_step_end k
      then Err (EvTransition (DurableRecoveryEventNotAllowed ''step/end''))
      else if strict \<and> is_unprivileged_durable admission
        \<and> (is_recovery_boundary k \<or> is_recovery_result k)
      then Ok (compaction p)
      else if admission = HistoricalScan
      then advance_surface_generation
        (if k = EndSeed then compaction_closed (compaction p) else compaction p) e
      else if policy p = MemoryCompatible \<and> k = EndSeed then Ok (compaction_closed (compaction p))
      else advance_compaction env p e admission)"

section \<open>Reading the bracket\<close>

datatype RecoveryCompactionStage = StageStarted | StageSummarized | StageReplaced

definition interrupted_compaction_stage :: "'a Projection_scheme \<Rightarrow> RecoveryCompactionStage option" where
  "interrupted_compaction_stage p = map_option (\<lambda>opened. case open_phase opened of
      PhaseStarted \<Rightarrow> StageStarted
    | PhaseSummarized _ \<Rightarrow> StageSummarized
    | PhaseReplaced _ _ \<Rightarrow> StageReplaced) (open_compaction (compaction p))"

definition orphan_prune_markers :: "'a Projection_scheme \<Rightarrow> u64" where
  "orphan_prune_markers p = saturating_add (orphan_prune_count (compaction p))
     (if prune_claim (compaction p) = None then 0 else 1)"

definition compaction_recovery_is_consistent :: "'a Projection_scheme \<Rightarrow> bool" where
  "compaction_recovery_is_consistent p \<longleftrightarrow> open_compaction (compaction p) = None
     \<or> (pending_approvals p = [] \<and> \<not> has_pending_durable_call p)"

record CompactionCandidate =
  candidate_generation :: u64
  candidate_range :: CompactionRange
  candidate_shadowed_seqs :: "EventSeq list"
  candidate_token_count :: u64
  candidate_messages :: "Message list"
  candidate_request_header_seq :: "EventSeq option"
  candidate_request_context_seq :: "EventSeq option"

definition compaction_candidate :: "'a Projection_scheme \<Rightarrow> u64 \<Rightarrow> SurfaceError + CompactionCandidate option" where
  "compaction_candidate p retain =
     and_then (map_err context_budget_surface_error
       (select_compactable_prefix (surface_nodes p) retain (MAX_SOURCE_EVENT_SEQS - 2) surface_price_facts))
       (\<lambda>selected. case selected of
         None \<Rightarrow> Ok None
       | Some s \<Rightarrow> (let shadowed = take (end_exclusive s) (surface_nodes p) in
           if shadowed = [] then Ok None
           else Ok (Some \<lparr>candidate_generation = surface_generation (compaction p),
             candidate_range = \<lparr>range_start = node_seq (hd shadowed), range_end = node_seq (last shadowed)\<rparr>,
             candidate_shadowed_seqs = map node_seq shadowed,
             candidate_token_count = shadowed_token_count s,
             candidate_messages = List.map_filter node_message shadowed,
             candidate_request_header_seq = request_header_seq p,
             candidate_request_context_seq = request_context_seq p\<rparr>)))"

end
