(* ===== verification/Projection.thy ===== *)
theory Projection
  imports Projection_Compaction
begin

text \<open>
  The fold of whole events (\<open>src/session/projection.rs\<close>) and the replay of a stored event list
  (\<open>replay_projection\<close> in \<open>src/session/mod.rs\<close>): an event is validated, offered to the Goal, the
  compaction bracket, the turn state and the surface in the order of the code, and leaves a new
  projection only if all accept it. The entry points that involve the
  provider attempt are in \<open>Live_Projection\<close>.
\<close>

section \<open>One event\<close>

definition apply_goal_transition ::
    "'a Projection_scheme \<Rightarrow> SessionEvent \<Rightarrow> EventValidationError + 'a Projection_scheme" where
  "apply_goal_transition p e =
     map_err InvalidGoalEvent (case event_kind e of
         GoalChangeEvent c \<Rightarrow> and_then (apply_change (goal_replay p) c) (\<lambda>g. Ok (p\<lparr>goal_replay := g\<rparr>))
       | UserMessage m \<Rightarrow> and_then (apply_goal_message (goal_replay p) m) (\<lambda>g. Ok (p\<lparr>goal_replay := g\<rparr>))
       | _ \<Rightarrow> Ok p)"

text \<open>The tail that every entry point shares: the bracket is computed on the state before the
  event and installed at the end.\<close>

definition apply_event :: "session_env \<Rightarrow> ValidationAdmission \<Rightarrow> SurfaceRowBinding \<Rightarrow> 'a Projection_scheme
    \<Rightarrow> SessionEvent \<Rightarrow> EventValidationError + 'a Projection_scheme" where
  "apply_event env admission binding p e =
     and_then (next_compaction_state env p e admission) (\<lambda>c.
     and_then (map_err EvTransition (apply_transition p e admission)) (\<lambda>p.
     and_then (map_err EvSurface (apply_surface env p e binding)) (\<lambda>p.
       Ok (p\<lparr>compaction := c\<rparr>))))"

definition with_compatible_event ::
    "session_env \<Rightarrow> 'a Projection_scheme \<Rightarrow> SessionEvent \<Rightarrow> EventValidationError + 'a Projection_scheme" where
  "with_compatible_event env p e =
     and_then (event_validate env (event_kind e)) (\<lambda>_.
     and_then (apply_goal_transition p e) (\<lambda>p.
       apply_event env CompatibilityReplay BindMemory p e))"

text \<open>A prepared durable projection: the new state and the tool result whose row is not written yet.\<close>

definition pending_tool_result :: "SessionEvent \<Rightarrow> EventSeq option" where
  "pending_tool_result e = (if is_tool_result (event_kind e) then Some (event_seq e) else None)"

definition prepare_owned_prune_event :: "session_env \<Rightarrow> 'a Projection_scheme \<Rightarrow> SessionEvent
    \<Rightarrow> EventValidationError + ('a Projection_scheme \<times> EventSeq option)" where
  "prepare_owned_prune_event env p e =
     and_then (event_validate env (event_kind e)) (\<lambda>_.
     and_then (apply_event env OwnedPrune BindPendingDurable p e) (\<lambda>p'.
       Ok (p', pending_tool_result e)))"

text \<open>\<open>PreparedDurableProjection::commit\<close> and \<open>commit_memory\<close> for a replaced projection; None is a
  refusal, which leaves the current projection.\<close>

definition commit_replace :: "'a Projection_scheme \<times> EventSeq option \<Rightarrow> JournalRowLocator
    \<Rightarrow> 'a Projection_scheme option" where
  "commit_replace prepared row = (case prepared of
      (p, None) \<Rightarrow> Some p
    | (p, Some seq) \<Rightarrow> if seq \<noteq> row_seq row then None else bind_tool_result_row p seq row)"

definition commit_memory :: "'a Projection_scheme \<times> EventSeq option \<Rightarrow> 'a Projection_scheme option" where
  "commit_memory prepared = (case prepared of (p, None) \<Rightarrow> Some p | (_, Some _) \<Rightarrow> None)"

section \<open>Replay\<close>

definition MAX_SESSION_EVENTS :: nat where
  "MAX_SESSION_EVENTS = 4096"

fun is_unknown :: "EventKind \<Rightarrow> bool" where
  "is_unknown (Unknown _ _) = True"
| "is_unknown _ = False"

text \<open>An error carries the index of the event it concerns.\<close>

definition replay_step :: "session_env \<Rightarrow> 'a Projection_scheme \<Rightarrow> nat \<Rightarrow> SessionEvent
    \<Rightarrow> (nat \<times> EventValidationError) + 'a Projection_scheme" where
  "replay_step env p index e =
     and_then (ok_or (event_seq_from_index (of_nat index))
       (index, NonContiguousSequence (event_seq e) (event_seq e))) (\<lambda>expected.
       if event_seq e \<noteq> expected then Err (index, NonContiguousSequence expected (event_seq e))
       else if is_unknown (event_kind e) \<and> \<not> event_ignorable e then Err (index, UnknownRequiredEvent)
       else map_err (Pair index) (with_compatible_event env p e))"

fun replay_from :: "session_env \<Rightarrow> 'a Projection_scheme \<Rightarrow> nat \<Rightarrow> SessionEvent list
    \<Rightarrow> (nat \<times> EventValidationError) + 'a Projection_scheme" where
  "replay_from env p index [] = Ok p"
| "replay_from env p index (e # es) =
     and_then (replay_step env p index e) (\<lambda>p'. replay_from env p' (Suc index) es)"

definition replay_projection :: "session_env \<Rightarrow> SessionEvent list \<Rightarrow> SessionId option
    \<Rightarrow> (nat \<times> EventValidationError) + Projection" where
  "replay_projection env es sid =
     (if length es > MAX_SESSION_EVENTS
      then Err (MAX_SESSION_EVENTS, TooManyEvents MAX_SESSION_EVENTS (length es))
      else replay_from env (case sid of
          None \<Rightarrow> projection_empty MemoryCompatible
        | Some s \<Rightarrow> projection_for_session MemoryCompatible s) 0 es)"

section \<open>Views\<close>

record SessionState =
  state_open_turn :: "TurnId option"
  state_open_step :: "StepId option"
  state_next_turn :: TurnId
  state_pending_calls :: "call_id list"
  state_pending_approvals :: "ApprovalRequestId list"
  state_surface_nodes :: "EventSeq list"
  state_request_header :: "EpochHeader option"
  state_request_context :: "RequestContext option"
  state_goal :: GoalReplayState
  state_plan_mode_active :: bool
  state_permission_preset :: "PermissionPreset option"
  state_standing_todos :: "TodoItem list option"
  state_session_title :: "SessionTitleEvent option"
  state_session_title_llm_requested :: bool
  state_session_title_first_prompt :: "(EventSeq \<times> string) option"

definition projection_state :: "'a Projection_scheme \<Rightarrow> SessionState" where
  "projection_state p = \<lparr>state_open_turn = open_turn p, state_open_step = open_step p,
     state_next_turn = next_turn p,
     state_pending_calls = (case boundary p of BoundaryStep s \<Rightarrow> step_pending_calls s | _ \<Rightarrow> []),
     state_pending_approvals = pending_approvals p,
     state_surface_nodes = map node_seq (surface_nodes p),
     state_request_header = request_header p, state_request_context = request_context p,
     state_goal = goal_replay p, state_plan_mode_active = plan_mode_active p,
     state_permission_preset = permission_preset p, state_standing_todos = standing_todos p,
     state_session_title = session_title p,
     state_session_title_llm_requested = session_title_llm_requested p,
     state_session_title_first_prompt = session_title_first_prompt p\<rparr>"

definition time_context_baseline :: "'a Projection_scheme \<Rightarrow> StepId \<Rightarrow> UnixMillis option" where
  "time_context_baseline p step =
     (if step = first_id then preceding_message (time_context p) else open_turn_reading (time_context p))"

end
