(* ===== verification/Projection_Correct.thy ===== *)
theory Projection_Correct
  imports Projection
begin

text \<open>
  What a replayed session guarantees: turns and steps are numbered consecutively, approvals and
  retries have one owner, the surface shows exactly logged messages and its totals are exact, and a
  compaction is an unbroken bracket. Each invariant relates the events so far with the projection.
\<close>

section \<open>Runs with a history\<close>

text \<open>A step that gets the number of the input, and an invariant over the inputs so far.\<close>

locale history_keeps =
  fixes step :: "'s \<Rightarrow> nat \<Rightarrow> 'i \<Rightarrow> 'e + 's"
    and go :: "'s \<Rightarrow> nat \<Rightarrow> 'i list \<Rightarrow> 'e + 's"
    and inv :: "'i list \<Rightarrow> 's \<Rightarrow> bool"
  assumes go_Nil: "go s n [] = Inr s"
    and go_Cons: "go s n (x # xs) = and_then (step s n x) (\<lambda>s'. go s' (Suc n) xs)"
    and step_keeps: "inv h s \<Longrightarrow> step s (length h) x = Inr s' \<Longrightarrow> inv (h @ [x]) s'"
begin

lemma run_keeps: "inv h s \<Longrightarrow> go s (length h) xs = Inr s' \<Longrightarrow> inv (h @ xs) s'"
proof (induction xs arbitrary: h s)
  case Nil
  then show ?case by (simp add: go_Nil)
next
  case (Cons x xs)
  then obtain s1 where "step s (length h) x = Inr s1" "go s1 (Suc (length h)) xs = Inr s'"
    by (auto simp: go_Cons and_then_Inr)
  with Cons.prems(1) Cons.IH [of "h @ [x]" s1] step_keeps show ?case by simp
qed

lemma from_start: "inv [] s \<Longrightarrow> go s 0 xs = Inr s' \<Longrightarrow> inv xs s'"
  using run_keeps [of "[]" s xs s'] by simp

end

section \<open>What each operation leaves alone\<close>

text \<open>Two projections that agree on the surface, the bracket and the identity of the session.\<close>

definition same_surface :: "'a Projection_scheme \<Rightarrow> 'a Projection_scheme \<Rightarrow> bool" where
  "same_surface p q \<longleftrightarrow> surface_nodes q = surface_nodes p \<and> surface_tokens q = surface_tokens p
     \<and> surface_resident_bytes q = surface_resident_bytes p \<and> compaction q = compaction p
     \<and> policy q = policy p \<and> session_id q = session_id p \<and> goal_replay q = goal_replay p"

definition same_turns :: "'a Projection_scheme \<Rightarrow> 'a Projection_scheme \<Rightarrow> bool" where
  "same_turns p q \<longleftrightarrow> boundary q = boundary p \<and> next_turn q = next_turn p
     \<and> pending_approvals q = pending_approvals p \<and> owned_approval_ids q = owned_approval_ids p
     \<and> retry_chains q = retry_chains p \<and> retry_schedules q = retry_schedules p
     \<and> policy q = policy p"

lemmas turn_ops = apply_turn_start_def apply_turn_end_def apply_step_start_def apply_step_end_def
lemmas call_ops = apply_assistant_message_def register_durable_declarations_def apply_tool_call_def
  promote_durable_call_def push_pending_call_def apply_tool_result_def resolve_durable_call_def
  remove_pending_call_def
lemmas approval_ops = apply_approval_asked_def apply_approval_decided_def ask_durable_approval_def
  decide_durable_approval_def
lemmas retry_ops = apply_retry_def apply_retry_started_def

lemma same_surface_refl [simp]: "same_surface p p"
  by (simp add: same_surface_def)

lemma same_surface_trans: "same_surface p q \<Longrightarrow> same_surface q r \<Longrightarrow> same_surface p r"
  by (simp add: same_surface_def)

lemma turn_ops_same_surface:
  "apply_turn_start p t = Inr p' \<Longrightarrow> same_surface p p'"
  "apply_turn_end p t = Inr p' \<Longrightarrow> same_surface p p'"
  "apply_step_start p t s = Inr p' \<Longrightarrow> same_surface p p'"
  "apply_step_end p t s = Inr p' \<Longrightarrow> same_surface p p'"
  by (auto simp: turn_ops result_simps same_surface_def
      split: option.splits if_splits list.splits Boundary.splits)

lemma resolve_durable_call_cases:
  assumes "resolve_durable_call p e m err a = Inr p'"
  obtains "policy p \<noteq> DurableStrict" and "p' = p"
  | i s c where "policy p = DurableStrict" and "validate_tool_result m = Inr i"
      and "boundary p = BoundaryStep s"
      and "List.find (\<lambda>c. declared_id c = i) (step_declared_calls s) = Some c"
      and "\<not> declared_result_seen c" and "\<not> approval_is_pending (declared_approval c)"
      and "check_result_intent e m err a c = Inr ()" and "check_result_decision m err c = Inr ()"
      and "p' = p\<lparr>boundary := BoundaryStep (s\<lparr>step_declared_calls :=
             update_first (\<lambda>c. declared_id c = i) (\<lambda>c. c\<lparr>declared_result_seen := True\<rparr>)
               (step_declared_calls s)\<rparr>)\<rparr>"
proof (cases "policy p = DurableStrict")
  case False
  moreover from assms False have "p' = p" by (simp add: resolve_durable_call_def)
  ultimately show ?thesis by (rule that(1))
next
  case True
  with assms obtain i where i: "validate_tool_result m = Inr i"
    by (cases "validate_tool_result m") (simp_all add: resolve_durable_call_def)
  show ?thesis
  proof (cases "boundary p")
    case (BoundaryStep s)
    with True assms i obtain c where "List.find (\<lambda>c. declared_id c = i) (step_declared_calls s) = Some c"
      by (cases "List.find (\<lambda>c. declared_id c = i) (step_declared_calls s)")
        (simp_all add: resolve_durable_call_def)
    with True assms i BoundaryStep show ?thesis
      by (intro that(2)) (auto simp: resolve_durable_call_def and_then_Inr split: if_splits)
  qed (use True assms i in \<open>simp_all add: resolve_durable_call_def\<close>)
qed

lemma remove_pending_call_cases:
  assumes "remove_pending_call p t st i synthetic = Inr p'"
  obtains s where "boundary p = BoundaryStep s" and "i \<in> set (step_pending_calls s)"
      and "p' = p\<lparr>boundary := BoundaryStep (s\<lparr>step_pending_calls := remove1 i (step_pending_calls s)\<rparr>)\<rparr>"
  | s where "boundary p = BoundaryStep s" and "i \<notin> set (step_pending_calls s)" and synthetic and "p' = p"
  using assms that by (cases "boundary p") (auto simp: remove_pending_call_def split: if_splits)

lemma promote_durable_call_cases:
  assumes "promote_durable_call p seq i name arguments = Inr p'"
  obtains "p' = p" and "policy p \<noteq> DurableStrict \<or> (\<forall>s. boundary p \<noteq> BoundaryStep s)"
  | s c where "policy p = DurableStrict" and "boundary p = BoundaryStep s"
      and "List.find awaits_intent (step_declared_calls s) = Some c"
      and "declared_id c = i" and "declared_name c = name" and "declared_arguments c = Some arguments"
      and "p' = p\<lparr>boundary := BoundaryStep (s\<lparr>step_declared_calls :=
             update_first awaits_intent (\<lambda>c. c\<lparr>declared_intent_seq := Some seq\<rparr>)
               (step_declared_calls s)\<rparr>)\<rparr>"
proof (cases "policy p = DurableStrict")
  case False
  from assms False have "p' = p" by (simp add: promote_durable_call_def)
  then show ?thesis by (rule that(1)) (use False in simp)
next
  case True
  show ?thesis
  proof (cases "boundary p")
    case (BoundaryStep s)
    with True assms obtain c where c: "List.find awaits_intent (step_declared_calls s) = Some c"
      by (cases "List.find awaits_intent (step_declared_calls s)")
        (auto simp: promote_durable_call_def and_then_Inr)
    with True assms BoundaryStep show ?thesis
      by (intro that(2) [OF _ BoundaryStep c]) (auto simp: promote_durable_call_def and_then_Inr split: if_splits)
  next
    case BoundaryIdle
    with True assms have "p' = p" by (auto simp: promote_durable_call_def and_then_Inr)
    then show ?thesis by (rule that(1)) (use BoundaryIdle in simp)
  next
    case (BoundaryTurn t st)
    with True assms have "p' = p" by (auto simp: promote_durable_call_def and_then_Inr)
    then show ?thesis by (rule that(1)) (use BoundaryTurn in simp)
  qed
qed

lemma call_ops_same_surface:
  "register_durable_declarations p m = Inr p' \<Longrightarrow> same_surface p p'"
  "promote_durable_call p seq i name arguments = Inr p' \<Longrightarrow> same_surface p p'"
  "same_surface p (push_pending_call p i)"
  "resolve_durable_call p e m err a = Inr p' \<Longrightarrow> same_surface p p'"
  "remove_pending_call p t st i synthetic = Inr p' \<Longrightarrow> same_surface p p'"
  by (auto simp: register_durable_declarations_def push_pending_call_def and_then_Inr same_surface_def
      split: if_splits Boundary.splits
      elim!: promote_durable_call_cases resolve_durable_call_cases remove_pending_call_cases)

lemma apply_tool_call_same_surface: "apply_tool_call p seq t s i name arguments = Inr p' \<Longrightarrow> same_surface p p'"
  by (auto simp: apply_tool_call_def result_simps
      intro: same_surface_trans call_ops_same_surface)

lemma apply_tool_result_same_surface: "apply_tool_result p e t s m err a = Inr p' \<Longrightarrow> same_surface p p'"
  by (auto simp: apply_tool_result_def result_simps split: if_splits
      intro: same_surface_trans call_ops_same_surface)

lemma approval_ops_same_surface:
  "ask_durable_approval p x = Inr p' \<Longrightarrow> same_surface p p'"
  "decide_durable_approval p y = Inr p' \<Longrightarrow> same_surface p p'"
  by (auto simp: approval_ops result_simps same_surface_def Let_def
      split: option.splits if_splits list.splits Boundary.splits)

lemma apply_approval_same_surface:
  "apply_approval_asked p x = Inr p' \<Longrightarrow> same_surface p p'"
  "apply_approval_decided p y = Inr p' \<Longrightarrow> same_surface p p'"
  by (auto simp: apply_approval_asked_def apply_approval_decided_def result_simps split: if_splits
      dest!: approval_ops_same_surface simp: same_surface_def)

lemma retry_ops_same_surface:
  "apply_retry p r = Inr p' \<Longrightarrow> same_surface p p'"
  "apply_retry_started p x = Inr p' \<Longrightarrow> same_surface p p'"
  by (auto simp: retry_ops result_simps same_surface_def Let_def split: option.splits if_splits)

lemma same_surface_updates [simp]:
  "same_surface p (p\<lparr>standing_todos := t\<rparr>)" "same_surface p (p\<lparr>plan_mode_active := b\<rparr>)"
  "same_surface p (p\<lparr>permission_preset := x\<rparr>)" "same_surface p (p\<lparr>session_title := y\<rparr>)"
  "same_surface p (p\<lparr>session_title_llm_requested := b\<rparr>)"
  "same_surface p (p\<lparr>request_header := h, request_header_seq := n\<rparr>)"
  "same_surface p (p\<lparr>request_context := c, request_context_seq := n\<rparr>)"
  by (simp_all add: same_surface_def)

lemma apply_kind_same_surface: "apply_kind p e a = Inr p' \<Longrightarrow> same_surface p p'"
  by (cases "event_kind e")
    (auto simp: apply_kind_def result_simps apply_assistant_message_def
      intro: turn_ops_same_surface call_ops_same_surface apply_tool_call_same_surface
        apply_tool_result_same_surface apply_approval_same_surface retry_ops_same_surface)

lemma capture_first_prompt_same: "same_surface p (capture_first_prompt e p)" "same_turns p (capture_first_prompt e p)"
  by (auto simp: capture_first_prompt_def same_surface_def same_turns_def
      split: EventKind.splits option.splits)

lemma apply_transition_same_surface: "apply_transition p e a = Inr p' \<Longrightarrow> same_surface p p'"
  by (auto simp: apply_transition_def result_simps split: if_splits
      intro: same_surface_trans apply_kind_same_surface capture_first_prompt_same)

lemma swap_total_Inr:
  assumes "swap_total x current removed added = Inr t"
  shows "unat t + sum_list (map unat removed) = unat current + unat added"
  using assms
  by (auto simp: swap_total_def result_simps bind_eq_Some_conv dest!: word_results)

lemma apply_append_Inr:
  assumes "apply_append p node = Inr p'"
  shows "surface_nodes p' = surface_nodes p @ [node]"
    and "unat (surface_tokens p') = unat (surface_tokens p) + unat (node_estimated_tokens node)"
    and "unat (surface_resident_bytes p') = unat (surface_resident_bytes p) + unat (node_resident_bytes node)"
    and "same_turns p p'" and "compaction p' = compaction p" and "session_id p' = session_id p"
  using assms by (auto simp: apply_append_def result_simps same_turns_def dest!: word_results)

lemma apply_replace_cases:
  assumes "apply_replace env p e binding a b = Inr p'"
  obtains i j node where "node_position p a = Some i" and "node_position p b = Some j" and "i \<le> j"
    and "\<forall>n \<in> set (slice i j (surface_nodes p)). \<exists>ss. event_sources e = Some ss \<and> node_seq n \<in> set ss"
    and "is_tool_result (event_kind e) \<Longrightarrow>
      validate_tool_result_rewrite env e (slice i j (surface_nodes p)) = Inr ()"
    and "surface_node env e binding = Inr node"
    and "surface_nodes p' = take i (surface_nodes p) @ [node] @ drop (Suc j) (surface_nodes p)"
    and "unat (surface_tokens p') + (\<Sum>n\<leftarrow>slice i j (surface_nodes p). unat (node_estimated_tokens n))
      = unat (surface_tokens p) + unat (node_estimated_tokens node)"
    and "unat (surface_resident_bytes p') + (\<Sum>n\<leftarrow>slice i j (surface_nodes p). unat (node_resident_bytes n))
      = unat (surface_resident_bytes p) + unat (node_resident_bytes node)"
    and "same_turns p p'" and "compaction p' = compaction p" and "session_id p' = session_id p"
proof -
  from assms obtain i j where ij: "node_position p a = Some i" "node_position p b = Some j" "i \<le> j"
    by (auto simp: apply_replace_def result_simps not_less split: if_splits)
  let ?s = "slice i j (surface_nodes p)"
  let ?ss = "case event_sources e of None \<Rightarrow> [] | Some s \<Rightarrow> s"
  have found: "List.find (\<lambda>n. node_seq n \<notin> set ?ss) ?s = None"
    using assms ij by (cases "List.find (\<lambda>n. node_seq n \<notin> set ?ss) ?s")
      (simp_all add: apply_replace_def Let_def)
  with assms ij have rw: "is_tool_result (event_kind e) \<Longrightarrow> validate_tool_result_rewrite env e ?s = Inr ()"
    by (auto simp: apply_replace_def Let_def and_then_Inr)
  from assms ij found obtain node tokens bytes where node: "surface_node env e binding = Inr node"
    and tokens: "swap_total TokenAccountingOverflow (surface_tokens p) (map node_estimated_tokens ?s)
      (node_estimated_tokens node) = Inr tokens"
    and bytes: "swap_total ResidentAccountingOverflow (surface_resident_bytes p)
      (map node_resident_bytes ?s) (node_resident_bytes node) = Inr bytes"
    and p': "p' = p\<lparr>surface_nodes := take i (surface_nodes p) @ [node] @ drop (Suc j) (surface_nodes p),
      surface_tokens := tokens, surface_resident_bytes := bytes\<rparr>"
    by (auto simp: apply_replace_def Let_def and_then_Inr)
  have "\<forall>n \<in> set ?s. \<exists>ss. event_sources e = Some ss \<and> node_seq n \<in> set ss"
    using found by (cases "event_sources e") (auto simp: find_None_iff)
  with ij rw node swap_total_Inr [OF tokens] swap_total_Inr [OF bytes] show thesis
    by (intro that [of i j node]) (simp_all add: p' same_turns_def comp_def)
qed

lemma apply_surface_cases:
  assumes "apply_surface env p e binding = Inr p'"
  obtains "\<not> is_surface_eligible (event_kind e)" and "event_surface_op e = None" and "p' = p"
  | node q reading where "is_surface_eligible (event_kind e)" and "event_surface_op e = Some SurfaceAppend"
      and "validate_sources e = Inr ()" and "surface_node env e binding = Inr node"
      and "apply_append p node = Inr q" and "p' = observe_message_time e reading q"
  | a b q reading where "is_surface_eligible (event_kind e)" and "event_surface_op e = Some (SurfaceReplace a b)"
      and "validate_sources e = Inr ()" and "apply_replace env p e binding a b = Inr q"
      and "p' = observe_message_time e reading q"
proof (cases "is_surface_eligible (event_kind e)")
  case False
  with assms have "event_surface_op e = None" "p' = p"
    by (auto simp: apply_surface_def split: if_splits)
  with False show ?thesis by (rule that(1))
next
  case True
  with assms obtain reading operation where op: "event_surface_op e = Some operation"
    and v: "validate_sources e = Inr ()"
    and r: "and_then (case operation of
            SurfaceAppend \<Rightarrow> and_then (surface_node env e binding) (apply_append p)
          | SurfaceReplace a b \<Rightarrow> apply_replace env p e binding a b)
          (\<lambda>p. Inr (observe_message_time e reading p)) = Inr p'"
    by (auto simp: apply_surface_def result_simps)
  show ?thesis
  proof (cases operation)
    case SurfaceAppend
    with r obtain node q where "surface_node env e binding = Inr node" "apply_append p node = Inr q"
      "p' = observe_message_time e reading q"
      by (auto simp: and_then_Inr)
    with True v op SurfaceAppend show ?thesis by (intro that(2)) simp_all
  next
    case (SurfaceReplace a b)
    with r obtain q where "apply_replace env p e binding a b = Inr q"
      "p' = observe_message_time e reading q"
      by (auto simp: and_then_Inr)
    with True v op SurfaceReplace show ?thesis by (intro that(3)) simp_all
  qed
qed

lemma observe_message_time_fields [simp]:
  "surface_nodes (observe_message_time e r p) = surface_nodes p"
  "surface_tokens (observe_message_time e r p) = surface_tokens p"
  "surface_resident_bytes (observe_message_time e r p) = surface_resident_bytes p"
  "compaction (observe_message_time e r p) = compaction p"
  "session_id (observe_message_time e r p) = session_id p"
  "same_turns q (observe_message_time e r p) = same_turns q p"
  by (simp_all add: observe_message_time_def same_turns_def Let_def)

lemma apply_surface_same:
  assumes "apply_surface env p e binding = Inr p'"
  shows "same_turns p p'" and "compaction p' = compaction p" and "session_id p' = session_id p"
  using assms
  by (auto elim!: apply_surface_cases apply_replace_cases simp: apply_append_Inr same_turns_def [of p p])

lemma apply_goal_transition_same:
  assumes "apply_goal_transition p e = Inr p'"
  shows "same_turns p p'" and "surface_nodes p' = surface_nodes p"
    and "surface_tokens p' = surface_tokens p" and "surface_resident_bytes p' = surface_resident_bytes p"
    and "compaction p' = compaction p" and "session_id p' = session_id p"
  using assms
  by (auto simp: apply_goal_transition_def result_simps same_turns_def split: EventKind.splits)

text \<open>An accepted event: the turn state comes from the transition, the surface from \<open>apply_surface\<close>.\<close>

lemma apply_event_cases:
  assumes "apply_event env a binding p e = Inr p'"
  obtains c q r where "next_compaction_state env p e a = Inr c" and "apply_transition p e a = Inr q"
    and "same_surface p q" and "apply_surface env q e binding = Inr r" and "p' = r\<lparr>compaction := c\<rparr>"
    and "same_turns q p'"
proof -
  from assms obtain c q r where h: "next_compaction_state env p e a = Inr c" "apply_transition p e a = Inr q"
    "apply_surface env q e binding = Inr r" "p' = r\<lparr>compaction := c\<rparr>"
    by (auto simp: apply_event_def result_simps)
  with apply_surface_same(1) [of env q e binding r] apply_transition_same_surface [of p e a q]
  show thesis by (intro that [of c q r]) (auto simp: same_turns_def)
qed

lemma replay_step_cases:
  assumes "replay_step env p n e = Inr p'"
  obtains q where "event_seq e = of_nat n" and "(of_nat n :: u64) \<le> MAX_SAFE_INTEGER"
    and "apply_goal_transition p e = Inr q" and "apply_event env CompatibilityReplay BindMemory q e = Inr p'"
  using assms
  by (auto simp: replay_step_def result_simps with_compatible_event_def event_seq_from_index_def
      split: if_splits)

section \<open>Turns and steps\<close>

text \<open>Where the session stands: between turns, in a turn before a step, or in a step.\<close>

definition place :: "'a Projection_scheme \<Rightarrow> (TurnId \<times> bool \<times> StepId) option" where
  "place p = (case boundary p of
      BoundaryIdle \<Rightarrow> None
    | BoundaryTurn t s \<Rightarrow> Some (t, False, s)
    | BoundaryStep s \<Rightarrow> Some (step_turn s, True, step_id s))"

definition same_place :: "'a Projection_scheme \<Rightarrow> 'a Projection_scheme \<Rightarrow> bool" where
  "same_place p q \<longleftrightarrow> place q = place p \<and> next_turn q = next_turn p"

lemma same_place_refl [simp]: "same_place p p"
  by (simp add: same_place_def)

lemma same_place_trans: "same_place p q \<Longrightarrow> same_place q r \<Longrightarrow> same_place p r"
  by (simp add: same_place_def)

lemma same_turns_place: "same_turns p q \<Longrightarrow> same_place p q"
  by (simp add: same_turns_def same_place_def place_def)

lemma same_place_updates [simp]:
  "same_place p (p\<lparr>standing_todos := t\<rparr>)" "same_place p (p\<lparr>plan_mode_active := b\<rparr>)"
  "same_place p (p\<lparr>permission_preset := x\<rparr>)" "same_place p (p\<lparr>session_title := y\<rparr>)"
  "same_place p (p\<lparr>session_title_llm_requested := b\<rparr>)"
  "same_place p (p\<lparr>request_header := h, request_header_seq := n\<rparr>)"
  "same_place p (p\<lparr>request_context := c, request_context_seq := n\<rparr>)"
  by (simp_all add: same_place_def place_def)

lemma call_ops_same_place:
  "register_durable_declarations p m = Inr p' \<Longrightarrow> same_place p p'"
  "promote_durable_call p seq i name arguments = Inr p' \<Longrightarrow> same_place p p'"
  "same_place p (push_pending_call p i)"
  "resolve_durable_call p e m err a = Inr p' \<Longrightarrow> same_place p p'"
  "remove_pending_call p t st i synthetic = Inr p' \<Longrightarrow> same_place p p'"
  by (auto simp: register_durable_declarations_def push_pending_call_def and_then_Inr same_place_def place_def
      split: if_splits Boundary.splits
      elim!: promote_durable_call_cases resolve_durable_call_cases remove_pending_call_cases)

lemma apply_call_same_place:
  "apply_tool_call p seq t s i name arguments = Inr p' \<Longrightarrow> same_place p p'"
  "apply_tool_result p e t s m err a = Inr p' \<Longrightarrow> same_place p p'"
  by (auto simp: apply_tool_call_def apply_tool_result_def result_simps split: if_splits
      intro: same_place_trans call_ops_same_place)

lemma approval_ops_same_place:
  "ask_durable_approval p x = Inr p' \<Longrightarrow> same_place p p'"
  "decide_durable_approval p y = Inr p' \<Longrightarrow> same_place p p'"
  by (auto simp: approval_ops result_simps same_place_def place_def Let_def
      split: option.splits if_splits list.splits Boundary.splits)

lemma apply_approval_same_place:
  "apply_approval_asked p x = Inr p' \<Longrightarrow> same_place p p'"
  "apply_approval_decided p y = Inr p' \<Longrightarrow> same_place p p'"
  by (auto simp: apply_approval_asked_def apply_approval_decided_def result_simps split: if_splits
      dest!: approval_ops_same_place simp: same_place_def place_def)

lemma retry_ops_same_place:
  "apply_retry p r = Inr p' \<Longrightarrow> same_place p p'"
  "apply_retry_started p x = Inr p' \<Longrightarrow> same_place p p'"
  by (auto simp: retry_ops result_simps same_place_def place_def Let_def split: option.splits if_splits)

text \<open>The events that move the session.\<close>

datatype move = MoveTurnStart TurnId | MoveTurnEnd TurnId | MoveStepStart TurnId StepId
  | MoveStepEnd TurnId StepId

fun move_of :: "EventKind \<Rightarrow> move option" where
  "move_of (TurnStart t) = Some (MoveTurnStart t)"
| "move_of (TurnEnd t _) = Some (MoveTurnEnd t)"
| "move_of (StepStart t s) = Some (MoveStepStart t s)"
| "move_of (StepEnd t s) = Some (MoveStepEnd t s)"
| "move_of _ = None"

fun moves :: "'a Projection_scheme \<Rightarrow> move option \<Rightarrow> 'a Projection_scheme \<Rightarrow> bool" where
  "moves p None q = same_place p q"
| "moves p (Some (MoveTurnStart t)) q =
     (place p = None \<and> t = next_turn p \<and> place q = Some (t, False, 1) \<and> next_turn q = t)"
| "moves p (Some (MoveTurnEnd t)) q = (\<exists>s. place p = Some (t, False, s) \<and> place q = None
     \<and> safe_successor t = Some (next_turn q))"
| "moves p (Some (MoveStepStart t s)) q =
     (place p = Some (t, False, s) \<and> place q = Some (t, True, s) \<and> next_turn q = next_turn p)"
| "moves p (Some (MoveStepEnd t s)) q = (\<exists>s'. place p = Some (t, True, s)
     \<and> place q = Some (t, False, s') \<and> safe_successor s = Some s' \<and> next_turn q = next_turn p)"

lemma turn_ops_move:
  "apply_turn_start p t = Inr q \<Longrightarrow> moves p (Some (MoveTurnStart t)) q"
  "apply_turn_end p t = Inr q \<Longrightarrow> moves p (Some (MoveTurnEnd t)) q"
  "apply_step_start p t s = Inr q \<Longrightarrow> moves p (Some (MoveStepStart t s)) q"
  "apply_step_end p t s = Inr q \<Longrightarrow> moves p (Some (MoveStepEnd t s)) q"
  by (auto simp: turn_ops result_simps place_def open_turn_def open_step_def first_id_def
      require_open_step_Inr split: option.splits if_splits list.splits Boundary.splits)

lemma apply_kind_moves: "apply_kind p e a = Inr q \<Longrightarrow> moves p (move_of (event_kind e)) q"
  by (cases "event_kind e")
    (auto simp: apply_kind_def result_simps apply_assistant_message_def
      intro: turn_ops_move [unfolded moves.simps] call_ops_same_place apply_call_same_place
        apply_approval_same_place retry_ops_same_place
      dest!: turn_ops_move)

lemma moves_same_place: "moves p m q \<Longrightarrow> same_place q r \<Longrightarrow> moves p m r"
  by (cases "(p, m, q)" rule: moves.cases) (auto simp: same_place_def)

lemma moves_from_place: "same_place p p0 \<Longrightarrow> moves p0 m q \<Longrightarrow> moves p m q"
  by (cases "(p0, m, q)" rule: moves.cases) (auto simp: same_place_def)

lemma apply_transition_cases:
  assumes "apply_transition p e a = Inr q"
  obtains q0 where "apply_kind p e a = Inr q0" and "q = capture_first_prompt e q0" and "same_turns q0 q"
  using assms capture_first_prompt_same(2)
  by (auto simp: apply_transition_def and_then_Inr split: if_splits)

lemma apply_transition_moves: "apply_transition p e a = Inr q \<Longrightarrow> moves p (move_of (event_kind e)) q"
  by (erule apply_transition_cases) (blast intro: moves_same_place apply_kind_moves same_turns_place)

lemma apply_event_moves: "apply_event env a binding p e = Inr q \<Longrightarrow> moves p (move_of (event_kind e)) q"
  by (erule apply_event_cases) (blast intro: moves_same_place apply_transition_moves same_turns_place)

lemma replay_step_moves: "replay_step env p n e = Inr q \<Longrightarrow> moves p (move_of (event_kind e)) q"
  by (erule replay_step_cases)
    (blast intro: moves_from_place apply_event_moves same_turns_place apply_goal_transition_same)

text \<open>What a history says of turns and steps.\<close>

definition select_moves :: "(move \<Rightarrow> 'b option) \<Rightarrow> SessionEvent list \<Rightarrow> 'b list" where
  "select_moves f h = List.map_filter (\<lambda>e. Option.bind (move_of (event_kind e)) f) h"

definition turn_starts :: "SessionEvent list \<Rightarrow> TurnId list" where
  "turn_starts = select_moves (\<lambda>m. case m of MoveTurnStart t \<Rightarrow> Some t | _ \<Rightarrow> None)"

definition turn_ends :: "SessionEvent list \<Rightarrow> TurnId list" where
  "turn_ends = select_moves (\<lambda>m. case m of MoveTurnEnd t \<Rightarrow> Some t | _ \<Rightarrow> None)"

definition step_starts :: "TurnId \<Rightarrow> SessionEvent list \<Rightarrow> StepId list" where
  "step_starts turn = select_moves (\<lambda>m. case m of MoveStepStart t s \<Rightarrow> if t = turn then Some s else None | _ \<Rightarrow> None)"

definition step_ends :: "TurnId \<Rightarrow> SessionEvent list \<Rightarrow> StepId list" where
  "step_ends turn = select_moves (\<lambda>m. case m of MoveStepEnd t s \<Rightarrow> if t = turn then Some s else None | _ \<Rightarrow> None)"

lemma map_filter_snoc:
  "List.map_filter f (xs @ [x]) = List.map_filter f xs @ (case f x of None \<Rightarrow> [] | Some y \<Rightarrow> [y])"
  by (simp add: List.map_filter_def split: option.splits)

lemma select_moves_snoc:
  "select_moves f (h @ [e]) = select_moves f h @
     (case Option.bind (move_of (event_kind e)) f of None \<Rightarrow> [] | Some y \<Rightarrow> [y])"
  by (simp add: select_moves_def map_filter_snoc)

lemmas listings_snoc = turn_starts_def turn_ends_def step_starts_def step_ends_def select_moves_snoc

text \<open>One, two, three and so on.\<close>

definition numbered :: "u64 list \<Rightarrow> bool" where
  "numbered ns \<longleftrightarrow> map unat ns = [1..<Suc (length ns)]"

lemma numbered_Nil [simp]: "numbered []"
  by (simp add: numbered_def)

lemma numbered_snoc: "numbered ns \<Longrightarrow> unat n = Suc (length ns) \<Longrightarrow> numbered (ns @ [n])"
  by (simp add: numbered_def)

lemma numbered_fresh: "numbered ns \<Longrightarrow> unat n = Suc (length ns) \<Longrightarrow> n \<notin> set ns"
proof
  assume "numbered ns" "unat n = Suc (length ns)" "n \<in> set ns"
  then have "Suc (length ns) \<in> set [1..<Suc (length ns)]"
    by (metis numbered_def image_eqI set_map)
  then show False by simp
qed

definition in_step :: "TurnId \<Rightarrow> 'a Projection_scheme \<Rightarrow> nat" where
  "in_step t p = (case place p of Some (t', True, _) \<Rightarrow> if t' = t then 1 else 0 | _ \<Rightarrow> 0)"

definition turns_numbered :: "SessionEvent list \<Rightarrow> 'a Projection_scheme \<Rightarrow> bool" where
  "turns_numbered h p \<longleftrightarrow> numbered (turn_ends h) \<and> numbered (turn_starts h)
     \<and> unat (next_turn p) = Suc (length (turn_ends h))
     \<and> length (turn_starts h) = length (turn_ends h) + (if place p = None then 0 else 1)
     \<and> (\<forall>t b s. place p = Some (t, b, s) \<longrightarrow> t = next_turn p \<and> t \<in> set (turn_starts h))"

definition steps_numbered :: "SessionEvent list \<Rightarrow> 'a Projection_scheme \<Rightarrow> bool" where
  "steps_numbered h p \<longleftrightarrow> (\<forall>t. numbered (step_ends t h) \<and> numbered (step_starts t h)
     \<and> (t \<notin> set (turn_starts h) \<longrightarrow> step_starts t h = [])
     \<and> length (step_starts t h) = length (step_ends t h) + in_step t p
     \<and> (\<forall>b s. place p = Some (t, b, s) \<longrightarrow> unat s = Suc (length (step_ends t h))))"

lemma turns_numbered_step:
  assumes "turns_numbered h p" and "moves p (move_of (event_kind e)) q"
  shows "turns_numbered (h @ [e]) q"
proof (cases "move_of (event_kind e)")
  case None
  with assms show ?thesis by (simp add: turns_numbered_def listings_snoc same_place_def)
next
  case (Some m)
  with assms show ?thesis
    by (cases m) (auto simp: turns_numbered_def listings_snoc intro!: numbered_snoc dest!: safe_successor_Some)
qed

lemma steps_numbered_step:
  assumes steps: "steps_numbered h p" and turns: "turns_numbered h p"
    and "moves p (move_of (event_kind e)) q"
  shows "steps_numbered (h @ [e]) q"
proof (cases "move_of (event_kind e)")
  case None
  with assms show ?thesis by (simp add: steps_numbered_def listings_snoc same_place_def in_step_def)
next
  case (Some m)
  show ?thesis
  proof (cases m)
    case (MoveTurnStart t)
    with Some assms(3) have p: "place p = None" "t = next_turn p" and q: "place q = Some (t, False, 1)"
      by simp_all
    from p turns have "unat t = Suc (length (turn_starts h))" "numbered (turn_starts h)"
      by (simp_all add: turns_numbered_def)
    then have "t \<notin> set (turn_starts h)" by (intro numbered_fresh)
    with steps have "step_starts t h = []" "step_ends t h = []"
      by (auto simp: steps_numbered_def)
    with steps Some MoveTurnStart p(1) q show ?thesis
      by (auto simp: steps_numbered_def listings_snoc in_step_def)
  next
    case (MoveTurnEnd t)
    with Some assms show ?thesis by (auto simp: steps_numbered_def listings_snoc in_step_def)
  next
    case (MoveStepStart t s)
    with Some assms(3) have p: "place p = Some (t, False, s)" and q: "place q = Some (t, True, s)"
      by simp_all
    from turns p have "t \<in> set (turn_starts h)" by (auto simp: turns_numbered_def)
    with steps Some MoveStepStart p q show ?thesis
      by (auto simp: steps_numbered_def listings_snoc in_step_def intro!: numbered_snoc)
  next
    case (MoveStepEnd t s)
    with Some assms(3) obtain s' where p: "place p = Some (t, True, s)" and q: "place q = Some (t, False, s')"
      and "unat s' = Suc (unat s)"
      by (auto dest!: safe_successor_Some)
    with steps Some MoveStepEnd show ?thesis
      by (auto simp: steps_numbered_def listings_snoc in_step_def intro!: numbered_snoc)
  qed
qed

interpretation numbering: history_keeps "replay_step env" "replay_from env"
  "\<lambda>h p. turns_numbered h p \<and> steps_numbered h p" for env
  by unfold_locales (auto dest: replay_step_moves intro: turns_numbered_step steps_numbered_step)

lemma replay_projection_cases:
  assumes "replay_projection env es sid = Inr p"
  obtains p0 where "p0 = projection_empty MemoryCompatible\<lparr>session_id := sid\<rparr>"
    and "replay_from env p0 0 es = Inr p" and "length es \<le> MAX_SESSION_EVENTS"
  using assms
  by (auto simp: replay_projection_def projection_for_session_def projection_empty_def
      split: if_splits option.splits)

text \<open>C30
  A session that replays has numbered its turns 1, 2, 3 and so on, and within every turn its steps
  likewise: starts and ends are listed in order, at most one turn and one step is open, the state
  shows which, and the next turn number follows the last ended turn.\<close>

theorem replay_numbers_turns_and_steps:
  assumes "replay_projection env es sid = Inr p"
  shows "numbered (turn_starts es) \<and> numbered (turn_ends es)
    \<and> length (turn_starts es) = length (turn_ends es) + (if open_turn p = None then 0 else 1)
    \<and> unat (next_turn p) = Suc (length (turn_ends es))
    \<and> (\<forall>t. numbered (step_starts t es) \<and> numbered (step_ends t es)
      \<and> length (step_starts t es) = length (step_ends t es)
          + (if open_turn p = Some t \<and> open_step p \<noteq> None then 1 else 0))"
proof -
  obtain p0 where p0: "p0 = projection_empty MemoryCompatible\<lparr>session_id := sid\<rparr>"
    and run: "replay_from env p0 0 es = Inr p"
    using assms by (rule replay_projection_cases)
  have "turns_numbered [] p0 \<and> steps_numbered [] p0"
    by (simp add: p0 projection_empty_def turns_numbered_def steps_numbered_def place_def
        listings_snoc select_moves_def List.map_filter_def in_step_def first_id_def)
  from numbering.from_start [OF this run] show ?thesis
    by (auto simp: turns_numbered_def steps_numbered_def in_step_def place_def open_turn_def open_step_def
        split: Boundary.splits)
qed


text \<open>An environment and events for the witnesses.\<close>

definition replay_env :: session_env where
  "replay_env = \<lparr>env_admit = Some, env_number = (\<lambda>v. case v of JInt i \<Rightarrow> of_int i | _ \<Rightarrow> 0),
     env_number_length = (\<lambda>_. 1), env_encoded_len = (\<lambda>_. 2), env_cancel_cause = (\<lambda>_. None),
     env_failure = (\<lambda>_. None), env_encode = (\<lambda>_. Some ''{}''), env_sha256 = (\<lambda>s. s)\<rparr>"

definition plain_event :: "EventSeq \<Rightarrow> EventKind \<Rightarrow> SessionEvent" where
  "plain_event seq k = \<lparr>event_seq = seq, event_time = 1000, event_kind = k, event_surface_op = None,
     event_sources = None, event_ignorable = False, event_data = JObj []\<rparr>"

fun plain_events :: "EventSeq \<Rightarrow> EventKind list \<Rightarrow> SessionEvent list" where
  "plain_events n [] = []"
| "plain_events n (k # ks) = plain_event n k # plain_events (n + 1) ks"

definition sample_turns :: "SessionEvent list" where
  "sample_turns = plain_events 0 [TurnStart 1, StepStart 1 1, StepEnd 1 1, StepStart 1 2, StepEnd 1 2,
     TurnEnd 1 TurnCompleted, TurnStart 2]"

lemmas replay_eval = plain_event_def replay_projection_def MAX_SESSION_EVENTS_def replay_step_def
  with_compatible_event_def event_seq_from_index_def MAX_SAFE_INTEGER_def apply_goal_transition_def
  apply_event_def next_compaction_state_def advance_compaction_def apply_prune_adjacency_def
  outside_compaction_def advance_surface_generation_def is_checkpoint_event_def compaction_default_def
  projection_empty_def apply_transition_def apply_kind_def turn_ops open_turn_def open_step_def first_id_def
  require_open_step_def require_open_turn_def capture_first_prompt_def apply_surface_def
  safe_successor_def checked_add_def turn_end_validate_def

lemma sample_replay: "\<exists>p. replay_projection replay_env sample_turns None = Inr p \<and> next_turn p = 2"
  by (simp add: sample_turns_def replay_eval)

theorem replay_numbers_turns_and_steps_witness:
  "\<exists>p. replay_projection replay_env sample_turns None = Inr p \<and> numbered (turn_starts sample_turns)
     \<and> numbered (step_starts 1 sample_turns) \<and> length (turn_ends sample_turns) = 1"
proof -
  obtain p where p: "replay_projection replay_env sample_turns None = Inr p" and "next_turn p = 2"
    using sample_replay by blast
  with replay_numbers_turns_and_steps [OF p] show ?thesis by auto
qed

end
