(* ===== verification/Replay_Owners.thy ===== *)
theory Replay_Owners
  imports Projection_Correct
begin

text \<open>
  Approvals and provider retries of a replayed session (\<open>src/session/projection.rs\<close>): every approval
  has one request and at most one decision after it, and every retry belongs to one chain, whose
  retries are numbered without a gap and started at most once.
\<close>

section \<open>What each operation leaves alone\<close>

definition same_approvals :: "'a Projection_scheme \<Rightarrow> 'a Projection_scheme \<Rightarrow> bool" where
  "same_approvals p q \<longleftrightarrow> pending_approvals q = pending_approvals p
     \<and> owned_approval_ids q = owned_approval_ids p"

definition same_retries :: "'a Projection_scheme \<Rightarrow> 'a Projection_scheme \<Rightarrow> bool" where
  "same_retries p q \<longleftrightarrow> retry_chains q = retry_chains p \<and> retry_schedules q = retry_schedules p"

definition same_owners :: "'a Projection_scheme \<Rightarrow> 'a Projection_scheme \<Rightarrow> bool" where
  "same_owners p q \<longleftrightarrow> same_approvals p q \<and> same_retries p q"

lemmas same_owners_defs = same_owners_def same_approvals_def same_retries_def

lemma same_owners_refl [simp]: "same_owners p p"
  by (simp add: same_owners_defs)

lemma same_owners_trans: "same_owners p q \<Longrightarrow> same_owners q r \<Longrightarrow> same_owners p r"
  by (simp add: same_owners_defs)

lemma same_turns_owners: "same_turns p q \<Longrightarrow> same_owners p q"
  by (simp add: same_turns_def same_owners_defs)

lemma same_owners_updates [simp]:
  "same_owners p (p\<lparr>standing_todos := t\<rparr>)" "same_owners p (p\<lparr>plan_mode_active := b\<rparr>)"
  "same_owners p (p\<lparr>permission_preset := x\<rparr>)" "same_owners p (p\<lparr>session_title := y\<rparr>)"
  "same_owners p (p\<lparr>session_title_llm_requested := b\<rparr>)"
  "same_owners p (p\<lparr>request_header := h, request_header_seq := n\<rparr>)"
  "same_owners p (p\<lparr>request_context := c, request_context_seq := n\<rparr>)"
  by (simp_all add: same_owners_defs)

lemma turn_ops_same_owners:
  "apply_turn_start p t = Inr p' \<Longrightarrow> same_owners p p'"
  "apply_turn_end p t = Inr p' \<Longrightarrow> same_owners p p'"
  "apply_step_start p t s = Inr p' \<Longrightarrow> same_owners p p'"
  "apply_step_end p t s = Inr p' \<Longrightarrow> same_owners p p'"
  by (auto simp: turn_ops result_simps same_owners_defs
      split: option.splits if_splits list.splits Boundary.splits)

lemma call_ops_same_owners:
  "register_durable_declarations p m = Inr p' \<Longrightarrow> same_owners p p'"
  "promote_durable_call p seq i name arguments = Inr p' \<Longrightarrow> same_owners p p'"
  "same_owners p (push_pending_call p i)"
  "resolve_durable_call p e m err a = Inr p' \<Longrightarrow> same_owners p p'"
  "remove_pending_call p t st i synthetic = Inr p' \<Longrightarrow> same_owners p p'"
  by (auto simp: register_durable_declarations_def push_pending_call_def and_then_Inr same_owners_defs
      split: if_splits Boundary.splits
      elim!: promote_durable_call_cases resolve_durable_call_cases remove_pending_call_cases)

lemma apply_call_same_owners:
  "apply_tool_call p seq t s i name arguments = Inr p' \<Longrightarrow> same_owners p p'"
  "apply_tool_result p e t s m err a = Inr p' \<Longrightarrow> same_owners p p'"
  by (auto simp: apply_tool_call_def apply_tool_result_def result_simps split: if_splits
      intro: same_owners_trans call_ops_same_owners)

lemma durable_approval_same_owners:
  "ask_durable_approval p x = Inr p' \<Longrightarrow> same_owners p p'"
  "decide_durable_approval p y = Inr p' \<Longrightarrow> same_owners p p'"
  by (auto simp: ask_durable_approval_def decide_durable_approval_def result_simps same_owners_defs Let_def
      split: option.splits if_splits list.splits Boundary.splits)

section \<open>What an event changes\<close>

text \<open>The effect of an event on approvals and on retries.\<close>

fun approval_effect :: "'a Projection_scheme \<Rightarrow> EventKind \<Rightarrow> 'a Projection_scheme \<Rightarrow> bool" where
  "approval_effect p (ApprovalAsked a) q =
     (place p \<noteq> None \<and> asked_id a \<notin> set (pending_approvals p) \<and> asked_id a \<notin> set (owned_approval_ids p)
      \<and> pending_approvals q = pending_approvals p @ [asked_id a]
      \<and> set (owned_approval_ids q) = insert (asked_id a) (set (owned_approval_ids p)))"
| "approval_effect p (ApprovalDecided d) q =
     (place p \<noteq> None \<and> decided_id d \<in> set (pending_approvals p)
      \<and> pending_approvals q = remove1 (decided_id d) (pending_approvals p)
      \<and> owned_approval_ids q = owned_approval_ids p)"
| "approval_effect p (TurnEnd _ _) q = (pending_approvals p = [] \<and> same_approvals p q)"
| "approval_effect p _ q = same_approvals p q"

fun retry_effect :: "'a Projection_scheme \<Rightarrow> EventKind \<Rightarrow> 'a Projection_scheme \<Rightarrow> bool" where
  "retry_effect p (LlmRetry r) q =
     ((case map_of (retry_chains p) (retry_chain_key r) of
         None \<Rightarrow> retry_number r = 1 \<and> (\<forall>n. map_of (retry_schedules p) (retry_id r, n) = None)
       | Some c \<Rightarrow> unat (retry_number r) = Suc (unat (chain_latest c)) \<and> chain_retry_id c = retry_id r)
      \<and> map_of (retry_chains q) = (map_of (retry_chains p))
          (retry_chain_key r \<mapsto> \<lparr>chain_retry_id = retry_id r, chain_latest = retry_number r\<rparr>)
      \<and> map_of (retry_schedules q) = (map_of (retry_schedules p)) ((retry_id r, retry_number r) \<mapsto>
          \<lparr>schedule_turn = retry_turn r, schedule_step = retry_step r, schedule_started = False\<rparr>))"
| "retry_effect p (LlmRetryStarted s) q =
     (retry_chains q = retry_chains p
      \<and> (\<exists>c. map_of (retry_schedules p) (started_retry_id s, started_retry s) = Some c
          \<and> \<not> schedule_started c \<and> schedule_turn c = started_turn s \<and> schedule_step c = started_step s
          \<and> map_of (retry_schedules q) = (map_of (retry_schedules p))
              ((started_retry_id s, started_retry s) \<mapsto> c\<lparr>schedule_started := True\<rparr>)))"
| "retry_effect p _ q = same_retries p q"

lemma retry_id_owned_iff:
  "retry_id_owned p i \<longleftrightarrow> (\<exists>n. map_of (retry_schedules p) (i, n) \<noteq> None)"
proof -
  have "retry_id_owned p i \<longleftrightarrow> (\<exists>n. (i, n) \<in> fst ` set (retry_schedules p))"
    by (force simp: retry_id_owned_def list_ex_iff)
  then show ?thesis by (simp add: map_of_eq_None_iff)
qed

lemma apply_approval_effect:
  "apply_approval_asked p a = Inr q \<Longrightarrow> approval_effect p (ApprovalAsked a) q \<and> same_retries p q"
  "apply_approval_decided p d = Inr q \<Longrightarrow> approval_effect p (ApprovalDecided d) q \<and> same_retries p q"
  by (auto simp: apply_approval_asked_def apply_approval_decided_def result_simps require_open_turn_Inr
      place_def same_owners_defs split: if_splits Boundary.splits
      dest!: durable_approval_same_owners)

lemma apply_retry_effect:
  assumes "apply_retry p r = Inr q"
  shows "retry_effect p (LlmRetry r) q" and "same_approvals p q"
proof -
  from assms have "retry_effect p (LlmRetry r) q \<and> same_approvals p q"
  proof (cases "map_of (retry_chains p) (retry_chain_key r)")
    case None
    with assms show ?thesis
      by (auto simp: apply_retry_def result_simps first_id_def update_conv' same_approvals_def
          retry_id_owned_iff split: if_splits)
  next
    case (Some c)
    with assms show ?thesis
      by (auto simp: apply_retry_def result_simps update_conv' same_approvals_def
          split: if_splits dest!: safe_successor_Some)
  qed
  then show "retry_effect p (LlmRetry r) q" and "same_approvals p q" by simp_all
qed

lemma apply_retry_started_effect:
  assumes "apply_retry_started p s = Inr q"
  shows "retry_effect p (LlmRetryStarted s) q" and "same_approvals p q"
  using assms
  by (auto simp: apply_retry_started_def Let_def update_conv' same_approvals_def
      split: option.splits if_splits)

lemma apply_turn_end_pending: "apply_turn_end p t = Inr q \<Longrightarrow> pending_approvals p = []"
  by (auto simp: apply_turn_end_def split: if_splits option.splits list.splits)

lemma apply_kind_same_owners:
  assumes "apply_kind p e a = Inr q"
    and "\<And>a. event_kind e \<noteq> ApprovalAsked a" and "\<And>d. event_kind e \<noteq> ApprovalDecided d"
    and "\<And>r. event_kind e \<noteq> LlmRetry r" and "\<And>s. event_kind e \<noteq> LlmRetryStarted s"
  shows "same_owners p q"
  using assms
  by (cases "event_kind e")
    (auto simp: apply_kind_def result_simps apply_assistant_message_def
      intro: turn_ops_same_owners call_ops_same_owners apply_call_same_owners)

lemma apply_kind_effects:
  assumes "apply_kind p e a = Inr q"
  shows "approval_effect p (event_kind e) q \<and> retry_effect p (event_kind e) q"
proof (cases "event_kind e")
  case (TurnEnd t r)
  with assms have "apply_turn_end p t = Inr q" by (simp add: apply_kind_def)
  with TurnEnd show ?thesis
    using turn_ops_same_owners(2) apply_turn_end_pending by (auto simp: same_owners_def)
next
  case (ApprovalAsked x)
  with assms show ?thesis using apply_approval_effect(1) [of p x q]
    by (simp add: apply_kind_def same_retries_def)
next
  case (ApprovalDecided x)
  with assms show ?thesis using apply_approval_effect(2) [of p x q]
    by (simp add: apply_kind_def same_retries_def)
next
  case (LlmRetry r)
  with assms show ?thesis using apply_retry_effect [of p r q] by (simp add: apply_kind_def)
next
  case (LlmRetryStarted s)
  with assms show ?thesis using apply_retry_started_effect [of p s q] by (simp add: apply_kind_def)
qed (use apply_kind_same_owners [OF assms] in \<open>simp_all add: same_owners_def\<close>)

lemma effects_same_owners:
  "approval_effect p k q \<Longrightarrow> same_turns q r \<Longrightarrow> approval_effect p k r"
  "retry_effect p k q \<Longrightarrow> same_turns q r \<Longrightarrow> retry_effect p k r"
  by (cases k; simp add: same_turns_def same_owners_defs)+

lemma effects_from_same_owners:
  assumes "same_turns p0 p"
  shows "approval_effect p k q \<Longrightarrow> approval_effect p0 k q" and "retry_effect p k q \<Longrightarrow> retry_effect p0 k q"
proof -
  have eq: "place p = place p0" "pending_approvals p = pending_approvals p0"
    "owned_approval_ids p = owned_approval_ids p0" "retry_chains p = retry_chains p0"
    "retry_schedules p = retry_schedules p0"
    using assms by (simp_all add: same_turns_def place_def)
  show "approval_effect p k q \<Longrightarrow> approval_effect p0 k q"
    by (cases k) (simp_all add: eq same_approvals_def)
  show "retry_effect p k q \<Longrightarrow> retry_effect p0 k q"
    by (cases k) (simp_all add: eq same_retries_def cong: option.case_cong)
qed

lemma apply_event_effects:
  assumes "apply_event env a binding p e = Inr q"
  shows "approval_effect p (event_kind e) q \<and> retry_effect p (event_kind e) q"
proof -
  from assms obtain r where r: "apply_transition p e a = Inr r" "same_turns r q"
    by (rule apply_event_cases)
  from r(1) obtain q0 where "apply_kind p e a = Inr q0" "same_turns q0 r"
    by (rule apply_transition_cases)
  with r(2) show ?thesis
    by (blast dest: apply_kind_effects effects_same_owners)
qed

lemma replay_step_effects:
  assumes "replay_step env p n e = Inr q"
  shows "approval_effect p (event_kind e) q" and "retry_effect p (event_kind e) q"
proof -
  from assms obtain p0 where "apply_goal_transition p e = Inr p0"
    and "apply_event env CompatibilityReplay BindMemory p0 e = Inr q"
    by (rule replay_step_cases)
  then show "approval_effect p (event_kind e) q" and "retry_effect p (event_kind e) q"
    using apply_goal_transition_same(1) apply_event_effects effects_from_same_owners by metis+
qed

section \<open>Approvals\<close>

fun asked_of :: "EventKind \<Rightarrow> ApprovalRequestId option" where
  "asked_of (ApprovalAsked a) = Some (asked_id a)"
| "asked_of _ = None"

fun decided_of :: "EventKind \<Rightarrow> ApprovalRequestId option" where
  "decided_of (ApprovalDecided d) = Some (decided_id d)"
| "decided_of _ = None"

definition asked_ids :: "SessionEvent list \<Rightarrow> ApprovalRequestId list" where
  "asked_ids h = List.map_filter (\<lambda>e. asked_of (event_kind e)) h"

definition decided_ids :: "SessionEvent list \<Rightarrow> ApprovalRequestId list" where
  "decided_ids h = List.map_filter (\<lambda>e. decided_of (event_kind e)) h"

definition approvals_owned :: "SessionEvent list \<Rightarrow> 'a Projection_scheme \<Rightarrow> bool" where
  "approvals_owned h p \<longleftrightarrow> distinct (asked_ids h) \<and> distinct (decided_ids h)
     \<and> set (decided_ids h) \<subseteq> set (asked_ids h) \<and> set (owned_approval_ids p) = set (asked_ids h)
     \<and> pending_approvals p = filter (\<lambda>i. i \<notin> set (decided_ids h)) (asked_ids h)
     \<and> (place p = None \<longrightarrow> pending_approvals p = [])"

lemma remove1_filter:
  "distinct xs \<Longrightarrow> remove1 x (filter (\<lambda>y. y \<notin> A) xs) = filter (\<lambda>y. y \<notin> insert x A) xs"
  by (auto simp: distinct_remove1_removeAll removeAll_filter_not_eq intro: filter_cong)

lemma approvals_owned_step:
  assumes inv: "approvals_owned h p" and effect: "approval_effect p (event_kind e) q"
    and move: "moves p (move_of (event_kind e)) q"
  shows "approvals_owned (h @ [e]) q"
proof (cases "event_kind e")
  case (ApprovalAsked a)
  with assms show ?thesis
    by (auto simp: approvals_owned_def asked_ids_def decided_ids_def map_filter_snoc same_place_def)
next
  case (ApprovalDecided d)
  with assms show ?thesis
    by (auto simp: approvals_owned_def asked_ids_def decided_ids_def map_filter_snoc same_place_def remove1_filter)
qed (use assms in \<open>auto simp: approvals_owned_def asked_ids_def decided_ids_def map_filter_snoc same_place_def
  same_approvals_def\<close>)

interpretation approvals: history_keeps "replay_step env" "replay_from env" approvals_owned for env
  by unfold_locales (auto dest: replay_step_effects replay_step_moves intro: approvals_owned_step)

lemma replay_from_append:
  "replay_from env p n (xs @ ys) =
     and_then (replay_from env p n xs) (\<lambda>q. replay_from env q (n + length xs) ys)"
proof (induction xs arbitrary: p n)
  case Nil
  then show ?case by simp
next
  case (Cons x xs)
  then show ?case by (cases "replay_step env p n x") simp_all
qed

text \<open>Every prefix of a session that replays does so too.\<close>

lemma replay_prefix:
  assumes "replay_projection env es sid = Inr p"
  obtains q where "replay_projection env (take n es) sid = Inr q"
proof -
  have "es = take n es @ drop n es" by simp
  with assms obtain q where "replay_from env (case sid of None \<Rightarrow> projection_empty MemoryCompatible
      | Some s \<Rightarrow> projection_for_session MemoryCompatible s) 0 (take n es) = Inr q"
    by (metis (no_types, lifting) and_then_Inr replay_from_append replay_projection_def Inl_Inr_False)
  with assms have "replay_projection env (take n es) sid = Inr q"
    by (auto simp: replay_projection_def split: if_splits)
  then show thesis by (rule that)
qed

lemma replay_approvals_owned:
  assumes "replay_projection env es sid = Inr p"
  shows "approvals_owned es p"
proof -
  obtain p0 where p0: "p0 = projection_empty MemoryCompatible\<lparr>session_id := sid\<rparr>"
    and run: "replay_from env p0 0 es = Inr p"
    using assms by (rule replay_projection_cases)
  have "approvals_owned [] p0"
    by (simp add: p0 projection_empty_def approvals_owned_def asked_ids_def decided_ids_def List.map_filter_def)
  from approvals.from_start [OF this run] show ?thesis .
qed

text \<open>C31
  In a session that replays every approval id is asked once and decided at most once, never before
  it was asked; the pending approvals are the asked ones without a decision, in the order of the
  requests; and none is left when no turn is open.\<close>

theorem replay_owns_approvals:
  assumes "replay_projection env es sid = Inr p"
  shows "distinct (asked_ids es) \<and> distinct (decided_ids es)
    \<and> (\<forall>n. set (decided_ids (take n es)) \<subseteq> set (asked_ids (take n es)))
    \<and> pending_approvals p = filter (\<lambda>i. i \<notin> set (decided_ids es)) (asked_ids es)
    \<and> (open_turn p = None \<longrightarrow> pending_approvals p = [])"
proof -
  have "set (decided_ids (take n es)) \<subseteq> set (asked_ids (take n es))" for n
    using assms by (rule replay_prefix [where n = n])
      (auto dest!: replay_approvals_owned simp: approvals_owned_def)
  with replay_approvals_owned [OF assms] show ?thesis
    by (auto simp: approvals_owned_def place_def open_turn_def split: Boundary.splits)
qed

definition sample_approvals :: "SessionEvent list" where
  "sample_approvals = plain_events 0 [TurnStart 1,
     ApprovalAsked \<lparr>asked_id = ''a'', asked_tool_name = ''bash'', asked_call_id = None, asked_reason = None\<rparr>,
     ApprovalAsked \<lparr>asked_id = ''b'', asked_tool_name = ''bash'', asked_call_id = None, asked_reason = None\<rparr>,
     ApprovalDecided \<lparr>decided_id = ''a'', decided_outcome = OutcomeRejected\<rparr>]"

theorem replay_owns_approvals_witness:
  "\<exists>p. replay_projection replay_env sample_approvals None = Inr p \<and> pending_approvals p = [''b'']
     \<and> distinct (asked_ids sample_approvals)"
proof -
  obtain p where p: "replay_projection replay_env sample_approvals None = Inr p"
    by (simp add: sample_approvals_def replay_eval asked_validate_def validate_approval_id_def bounded_identity_def
        approval_ops)
  from replay_owns_approvals [OF p] p show ?thesis
    by (auto simp: sample_approvals_def plain_event_def asked_ids_def decided_ids_def List.map_filter_def)
qed

section \<open>Retries\<close>

fun retry_of :: "EventKind \<Rightarrow> LlmRetryEvent option" where
  "retry_of (LlmRetry r) = Some r"
| "retry_of _ = None"

fun started_of :: "EventKind \<Rightarrow> (RetryId \<times> RetryNumber) option" where
  "started_of (LlmRetryStarted s) = Some (started_retry_id s, started_retry s)"
| "started_of _ = None"

definition retries :: "SessionEvent list \<Rightarrow> LlmRetryEvent list" where
  "retries h = List.map_filter (\<lambda>e. retry_of (event_kind e)) h"

definition retry_starts :: "SessionEvent list \<Rightarrow> (RetryId \<times> RetryNumber) list" where
  "retry_starts h = List.map_filter (\<lambda>e. started_of (event_kind e)) h"

text \<open>The retries of one chain, and the one that was announced under an id and a number.\<close>

definition chain :: "RetryChainKey \<Rightarrow> SessionEvent list \<Rightarrow> LlmRetryEvent list" where
  "chain key h = filter (\<lambda>r. retry_chain_key r = key) (retries h)"

definition chain_matches :: "SessionEvent list \<Rightarrow> 'a Projection_scheme \<Rightarrow> RetryChainKey \<Rightarrow> bool" where
  "chain_matches h p key \<longleftrightarrow> numbered (map retry_number (chain key h))
     \<and> (case map_of (retry_chains p) key of
          None \<Rightarrow> chain key h = []
        | Some c \<Rightarrow> unat (chain_latest c) = length (chain key h)
            \<and> (\<forall>r \<in> set (chain key h). retry_id r = chain_retry_id c)
            \<and> chain key h \<noteq> [])"

definition chains_match :: "SessionEvent list \<Rightarrow> 'a Projection_scheme \<Rightarrow> bool" where
  "chains_match h p \<longleftrightarrow> All (chain_matches h p)"

definition schedule_matches ::
    "SessionEvent list \<Rightarrow> 'a Projection_scheme \<Rightarrow> RetryId \<Rightarrow> RetryNumber \<Rightarrow> bool" where
  "schedule_matches h p i n \<longleftrightarrow> (case map_of (retry_schedules p) (i, n) of
       None \<Rightarrow> \<forall>r \<in> set (retries h). retry_id r = i \<longrightarrow> retry_number r \<noteq> n
     | Some c \<Rightarrow> (\<exists>r \<in> set (retries h). retry_id r = i \<and> retry_number r = n)
         \<and> (schedule_started c \<longleftrightarrow> (i, n) \<in> set (retry_starts h)))"

definition starts_scheduled :: "SessionEvent list \<Rightarrow> bool" where
  "starts_scheduled h \<longleftrightarrow> distinct (retry_starts h)
     \<and> (\<forall>s \<in> set (retry_starts h). \<exists>r \<in> set (retries h). s = (retry_id r, retry_number r))"

definition schedules_match :: "SessionEvent list \<Rightarrow> 'a Projection_scheme \<Rightarrow> bool" where
  "schedules_match h p \<longleftrightarrow> (\<forall>i n. schedule_matches h p i n) \<and> starts_scheduled h"

definition one_chain_per_id :: "SessionEvent list \<Rightarrow> bool" where
  "one_chain_per_id h \<longleftrightarrow> (\<forall>r \<in> set (retries h). \<forall>r' \<in> set (retries h).
     retry_id r = retry_id r' \<longleftrightarrow> retry_chain_key r = retry_chain_key r')"

definition retries_owned :: "SessionEvent list \<Rightarrow> 'a Projection_scheme \<Rightarrow> bool" where
  "retries_owned h p \<longleftrightarrow> chains_match h p \<and> schedules_match h p \<and> one_chain_per_id h"

lemma retries_snoc:
  "retries (h @ [e]) = retries h @ (case retry_of (event_kind e) of None \<Rightarrow> [] | Some r \<Rightarrow> [r])"
  "retry_starts (h @ [e]) = retry_starts h @ (case started_of (event_kind e) of None \<Rightarrow> [] | Some s \<Rightarrow> [s])"
  by (simp_all add: retries_def retry_starts_def map_filter_snoc)

lemma chain_snoc:
  "chain key (h @ [e]) = chain key h @ (case retry_of (event_kind e) of
     None \<Rightarrow> [] | Some r \<Rightarrow> if retry_chain_key r = key then [r] else [])"
  by (simp add: chain_def retries_snoc split: option.splits)

lemma chain_set: "r \<in> set (retries h) \<longleftrightarrow> r \<in> set (chain (retry_chain_key r) h)"
  by (simp add: chain_def)

lemma chains_matchD: "chains_match h p \<Longrightarrow> chain_matches h p key"
  by (simp only: chains_match_def)

lemma retry_keeps_chains:
  assumes "chains_match h p" and "event_kind e = LlmRetry r" and "retry_effect p (LlmRetry r) q"
  shows "chains_match (h @ [e]) q"
proof -
  have "chain_matches (h @ [e]) q key" for key
  proof (cases "key = retry_chain_key r")
    case True
    then have "unat (retry_number r) = Suc (length (chain key h))"
      using assms(3) chains_matchD [OF assms(1), of key]
      by (cases "map_of (retry_chains p) key") (auto simp: chain_matches_def)
    with True show ?thesis
      using assms(2,3) chains_matchD [OF assms(1), of key]
      by (cases "map_of (retry_chains p) key") (auto simp: chain_matches_def chain_snoc numbered_def)
  next
    case False
    with assms(2,3) chains_matchD [OF assms(1), of key] show ?thesis
      by (auto simp: chain_matches_def chain_snoc split: option.splits)
  qed
  then show ?thesis by (simp only: chains_match_def) blast
qed

text \<open>A new chain takes an unused id, and a chain that goes on keeps its own.\<close>

lemma retry_keeps_ids:
  assumes "chains_match h p" and "schedules_match h p" and "one_chain_per_id h"
    and "event_kind e = LlmRetry r" and "retry_effect p (LlmRetry r) q"
  shows "one_chain_per_id (h @ [e])"
proof -
  have new: "retry_id r' = retry_id r \<longleftrightarrow> retry_chain_key r' = retry_chain_key r"
    if "r' \<in> set (retries h)" for r'
  proof (cases "map_of (retry_chains p) (retry_chain_key r)")
    case None
    with chains_matchD [OF assms(1)] have "chain (retry_chain_key r) h = []"
      by (fastforce simp: chain_matches_def split: option.splits)
    with that have "retry_chain_key r' \<noteq> retry_chain_key r" by (simp add: chain_def filter_empty_conv)
    moreover have "map_of (retry_schedules p) (retry_id r, retry_number r') = None"
      using None assms(5) by simp
    with assms(2) that have "retry_id r' \<noteq> retry_id r"
      by (auto simp: schedules_match_def schedule_matches_def
          dest!: spec [of _ "retry_id r"] spec [of _ "retry_number r'"])
    ultimately show ?thesis by simp
  next
    case (Some c)
    with assms(5) have c: "chain_retry_id c = retry_id r" by simp
    from Some chains_matchD [OF assms(1), of "retry_chain_key r"]
    have inv: "chain (retry_chain_key r) h \<noteq> []"
      "\<forall>x \<in> set (chain (retry_chain_key r) h). retry_id x = chain_retry_id c"
      by (auto simp: chain_matches_def)
    then obtain x where x: "x \<in> set (chain (retry_chain_key r) h)" by (meson list.set_sel(1))
    with inv(2) c have "retry_id x = retry_id r" "retry_chain_key x = retry_chain_key r" "x \<in> set (retries h)"
      by (auto simp: chain_def)
    with assms(3) that show ?thesis by (metis one_chain_per_id_def)
  qed
  have "set (retries (h @ [e])) = insert r (set (retries h))"
    using assms(4) by (simp add: retries_snoc)
  with assms(3) new show ?thesis unfolding one_chain_per_id_def by (metis insert_iff)
qed

lemma retry_fresh:
  assumes "chains_match h p" and "one_chain_per_id (h @ [e])" and "event_kind e = LlmRetry r"
    and "retry_effect p (LlmRetry r) q" and x: "x \<in> set (retries h)"
  shows "(retry_id x, retry_number x) \<noteq> (retry_id r, retry_number r)"
proof
  assume "(retry_id x, retry_number x) = (retry_id r, retry_number r)"
  then have same: "retry_id x = retry_id r" "retry_number x = retry_number r" by simp_all
  with assms(2,3) x have "retry_chain_key x = retry_chain_key r"
    by (auto simp: one_chain_per_id_def retries_snoc)
  with x have x: "x \<in> set (chain (retry_chain_key r) h)" by (simp add: chain_def)
  then have "unat (retry_number r) = Suc (length (chain (retry_chain_key r) h))"
    using assms(4) chains_matchD [OF assms(1), of "retry_chain_key r"]
    by (cases "map_of (retry_chains p) (retry_chain_key r)") (auto simp: chain_matches_def)
  moreover have "numbered (map retry_number (chain (retry_chain_key r) h))"
    using chains_matchD [OF assms(1)] by (simp add: chain_matches_def)
  ultimately have "retry_number r \<notin> set (map retry_number (chain (retry_chain_key r) h))"
    by (intro numbered_fresh) simp_all
  with x same(2) show False by (metis image_eqI set_map)
qed

lemma retry_keeps_schedules:
  assumes inv: "schedules_match h p" and e: "event_kind e = LlmRetry r"
    and effect: "retry_effect p (LlmRetry r) q"
    and fresh: "\<And>x. x \<in> set (retries h) \<Longrightarrow> (retry_id x, retry_number x) \<noteq> (retry_id r, retry_number r)"
  shows "schedules_match (h @ [e]) q"
proof -
  have unstarted: "(retry_id r, retry_number r) \<notin> set (retry_starts h)"
    using fresh inv unfolding schedules_match_def starts_scheduled_def by metis
  have q: "map_of (retry_schedules q) = (map_of (retry_schedules p)) ((retry_id r, retry_number r) \<mapsto>
      \<lparr>schedule_turn = retry_turn r, schedule_step = retry_step r, schedule_started = False\<rparr>)"
    using effect by simp
  have "schedule_matches (h @ [e]) q i n" for i n
  proof (cases "(i, n) = (retry_id r, retry_number r)")
    case True
    with unstarted q e show ?thesis by (simp add: schedule_matches_def retries_snoc)
  next
    case False
    moreover from inv have "schedule_matches h p i n" by (simp add: schedules_match_def)
    ultimately show ?thesis
      using q e by (auto simp: schedule_matches_def retries_snoc split: option.splits)
  qed
  with inv e show ?thesis by (auto simp: schedules_match_def starts_scheduled_def retries_snoc)
qed

lemma retry_started_keeps_schedules:
  assumes inv: "schedules_match h p" and e: "event_kind e = LlmRetryStarted s"
    and effect: "retry_effect p (LlmRetryStarted s) q"
  shows "schedules_match (h @ [e]) q"
proof -
  let ?key = "(started_retry_id s, started_retry s)"
  from effect obtain c where c: "map_of (retry_schedules p) ?key = Some c" "\<not> schedule_started c"
    and q: "map_of (retry_schedules q) = (map_of (retry_schedules p)) (?key \<mapsto> c\<lparr>schedule_started := True\<rparr>)"
    by auto
  from inv have "schedule_matches h p (started_retry_id s) (started_retry s)" by (simp add: schedules_match_def)
  with c obtain x where x: "x \<in> set (retries h)" "retry_id x = started_retry_id s"
    "retry_number x = started_retry s" and new: "?key \<notin> set (retry_starts h)"
    by (auto simp: schedule_matches_def)
  have "schedule_matches (h @ [e]) q i n" for i n
  proof (cases "(i, n) = ?key")
    case True
    with x q e show ?thesis by (auto simp: schedule_matches_def retries_snoc)
  next
    case False
    moreover from inv have "schedule_matches h p i n" by (simp add: schedules_match_def)
    ultimately show ?thesis
      using q e by (auto simp: schedule_matches_def retries_snoc split: option.splits)
  qed
  moreover from inv x new e have "starts_scheduled (h @ [e])"
    by (auto simp: schedules_match_def starts_scheduled_def retries_snoc intro!: bexI [of _ x])
  ultimately show ?thesis by (simp add: schedules_match_def)
qed

text \<open>An event that is neither announces nothing.\<close>

lemma other_keeps_retries:
  assumes "retries_owned h p" and "same_retries p q" and "retries (h @ [e]) = retries h"
    and "retry_starts (h @ [e]) = retry_starts h"
  shows "retries_owned (h @ [e]) q"
proof -
  have "chain_matches (h @ [e]) q = chain_matches h p"
    using assms by (intro ext) (simp add: chain_matches_def chain_def same_retries_def cong: option.case_cong)
  moreover have "schedule_matches (h @ [e]) q = schedule_matches h p"
    using assms by (intro ext) (simp add: schedule_matches_def same_retries_def cong: option.case_cong)
  ultimately show ?thesis
    using assms by (simp add: retries_owned_def chains_match_def schedules_match_def starts_scheduled_def
        one_chain_per_id_def)
qed

lemma started_keeps_chains:
  assumes "chains_match h p" and "retries (h @ [e]) = retries h" and "retry_chains q = retry_chains p"
  shows "chains_match (h @ [e]) q"
proof -
  have "chain_matches (h @ [e]) q = chain_matches h p"
    using assms by (intro ext) (simp add: chain_matches_def chain_def cong: option.case_cong)
  with assms(1) show ?thesis by (simp add: chains_match_def)
qed

lemma retries_owned_step:
  assumes inv: "retries_owned h p" and effect: "retry_effect p (event_kind e) q"
  shows "retries_owned (h @ [e]) q"
proof (cases "event_kind e")
  case (LlmRetry r)
  with assms have p: "chains_match h p" "schedules_match h p" "one_chain_per_id h"
    and r: "retry_effect p (LlmRetry r) q" by (simp_all add: retries_owned_def)
  from retry_keeps_ids [OF p LlmRetry r] have ids: "one_chain_per_id (h @ [e])" .
  from retry_keeps_schedules [OF p(2) LlmRetry r retry_fresh [OF p(1) ids LlmRetry r]]
    retry_keeps_chains [OF p(1) LlmRetry r] ids
  show ?thesis by (simp add: retries_owned_def)
next
  case (LlmRetryStarted s)
  with assms have p: "chains_match h p" "schedules_match h p" "one_chain_per_id h"
    and s: "retry_effect p (LlmRetryStarted s) q" by (simp_all add: retries_owned_def)
  have same: "retries (h @ [e]) = retries h" by (simp add: retries_snoc LlmRetryStarted)
  from s have "retry_chains q = retry_chains p" by simp
  from started_keeps_chains [OF p(1) same this] retry_started_keeps_schedules [OF p(2) LlmRetryStarted s] p(3) same
  show ?thesis by (simp add: retries_owned_def one_chain_per_id_def)
qed (use assms in \<open>auto intro!: other_keeps_retries simp: retries_snoc\<close>)

interpretation retrying: history_keeps "replay_step env" "replay_from env" retries_owned for env
  by unfold_locales (auto dest: replay_step_effects intro: retries_owned_step)

text \<open>C32
  In a session that replays, the retries of a turn, step, provider and policy are numbered 1, 2, 3
  and so on under one retry id that no other chain uses, and a retry is started at most once and
  only after it was announced.\<close>

theorem replay_chains_retries:
  assumes "replay_projection env es sid = Inr p"
  shows "(\<forall>key. numbered (map retry_number (chain key es))) \<and> one_chain_per_id es
    \<and> distinct (retry_starts es)
    \<and> (\<forall>n. \<forall>s \<in> set (retry_starts (take n es)). \<exists>r \<in> set (retries (take n es)).
         s = (retry_id r, retry_number r))"
proof -
  have owned: "retries_owned es' p'" if replayed: "replay_projection env es' sid = Inr p'" for es' p'
  proof -
    obtain p0 where p0: "p0 = projection_empty MemoryCompatible\<lparr>session_id := sid\<rparr>"
      and run: "replay_from env p0 0 es' = Inr p'"
      using replayed by (rule replay_projection_cases)
    have "chain_matches [] p0 key" "schedule_matches [] p0 i n" for key i n
      by (simp_all add: p0 projection_empty_def chain_matches_def schedule_matches_def chain_def retries_def
          List.map_filter_def)
    then have "retries_owned [] p0"
      by (simp add: retries_owned_def chains_match_def schedules_match_def starts_scheduled_def
          one_chain_per_id_def retries_def retry_starts_def List.map_filter_def)
    from retrying.from_start [OF this run] show ?thesis .
  qed
  have "starts_scheduled (take n es)" for n
    using assms by (rule replay_prefix [where n = n])
      (auto dest!: owned simp: retries_owned_def schedules_match_def)
  moreover have "numbered (map retry_number (chain key es))" for key
    using owned [OF assms] chains_matchD [of es p key] by (simp add: retries_owned_def chain_matches_def)
  ultimately show ?thesis
    using owned [OF assms] by (simp add: retries_owned_def schedules_match_def starts_scheduled_def)
qed

definition sample_retry :: "u64 \<Rightarrow> LlmRetryEvent" where
  "sample_retry n = \<lparr>retry_id = ''r'', retry_turn = 1, retry_step = 1, retry_provider = ''p'',
     retry_mode = RetryAlways, retry_policy_key = ''k'', retry_number = n, retry_max_retries = None,
     retry_delay_ms = 100, retry_failure = \<lparr>failure_message = ''m'', failure_code = ''c'',
       failure_status = None, failure_retry_after_ms = None, failure_request_id = None,
       failure_raw = JNull\<rparr>\<rparr>"

definition sample_start :: "u64 \<Rightarrow> LlmRetryStartedEvent" where
  "sample_start n = \<lparr>started_retry_id = ''r'', started_turn = 1, started_step = 1, started_retry = n\<rparr>"

definition sample_header :: EpochHeader where
  "sample_header = \<lparr>header_config = \<lparr>config_provider = ''p'', config_model = ''m'',
     config_reasoning_effort = None, config_temperature = None, config_max_tokens = None,
     config_stop = None, config_raw = JNull\<rparr>, header_adapter_defaults = None, header_system = None,
     header_tools = None\<rparr>"

definition sample_retries :: "SessionEvent list" where
  "sample_retries = plain_events 0 [TurnStart 1, RequestHeader sample_header ReasonInitial,
     StepStart 1 1, LlmRetry (sample_retry 1), LlmRetryStarted (sample_start 1),
     LlmRetry (sample_retry 2)]"

lemmas retry_eval = sample_retries_def sample_retry_def sample_start_def sample_header_def
  header_validate_def config_validate_def retry_validate_def retry_ops expected_provider_def
  header_canonicalized_def retry_chain_key_def retry_id_owned_def

theorem replay_chains_retries_witness:
  "\<exists>p. replay_projection replay_env sample_retries None = Inr p
     \<and> retry_starts sample_retries = [(''r'', 1)] \<and> one_chain_per_id sample_retries
     \<and> numbered (map retry_number (chain (1, 1, ''p'', ''k'') sample_retries))"
proof -
  obtain p where p: "replay_projection replay_env sample_retries None = Inr p"
    by (simp add: retry_eval replay_eval)
  moreover have "retry_starts sample_retries = [(''r'', 1)]"
    by (simp add: sample_retries_def sample_start_def plain_event_def retry_starts_def List.map_filter_def)
  ultimately show ?thesis using replay_chains_retries [OF p] by blast
qed

end
