(* ===== verification/Replay_Surface.thy ===== *)
theory Replay_Surface
  imports Projection_Correct
begin

text \<open>
  The surface of a replayed session (\<open>src/session/projection.rs\<close>): its totals are the sums over its
  nodes, each node is made from one logged event, and a message leaves the surface only when a later
  event that cites it takes its place.
\<close>

section \<open>Positions and slices\<close>

lemma position_Some: "position P xs = Some i \<Longrightarrow> i < length xs \<and> P (xs ! i)"
  by (induction xs arbitrary: i) (auto split: if_splits)

lemma split_at_slice: "i \<le> j \<Longrightarrow> xs = take i xs @ slice i j xs @ drop (Suc j) xs"
  by (simp add: slice_def) (metis Suc_diff_le append_take_drop_id drop_drop le_SucI le_add_diff_inverse2)

section \<open>Effects\<close>

definition totals_exact :: "'a Projection_scheme \<Rightarrow> bool" where
  "totals_exact p \<longleftrightarrow>
     unat (surface_tokens p) = (\<Sum>n\<leftarrow>surface_nodes p. unat (node_estimated_tokens n))
   \<and> unat (surface_resident_bytes p) = (\<Sum>n\<leftarrow>surface_nodes p. unat (node_resident_bytes n))"

text \<open>An event leaves the surface alone, adds its node at the end, or puts it in place of nodes that
  it cites.\<close>

definition surface_put :: "session_env \<Rightarrow> SurfaceNode list \<Rightarrow> SessionEvent \<Rightarrow> SurfaceRowBinding
    \<Rightarrow> SurfaceNode list \<Rightarrow> bool" where
  "surface_put env ns e binding ns' \<longleftrightarrow> (\<exists>pre old post node. ns = pre @ old @ post
     \<and> ns' = pre @ [node] @ post \<and> surface_node env e binding = Inr node
     \<and> (if old = [] then post = [] \<and> event_surface_op e = Some SurfaceAppend
        else is_replace (event_surface_op e)
          \<and> (\<forall>n \<in> set old. \<exists>ss. event_sources e = Some ss \<and> node_seq n \<in> set ss)))"

definition surface_moves :: "session_env \<Rightarrow> 'a Projection_scheme \<Rightarrow> SessionEvent \<Rightarrow> SurfaceRowBinding
    \<Rightarrow> 'a Projection_scheme \<Rightarrow> bool" where
  "surface_moves env p e binding q \<longleftrightarrow>
     (if is_surface_eligible (event_kind e)
      then surface_put env (surface_nodes p) e binding (surface_nodes q)
      else surface_nodes q = surface_nodes p)
   \<and> (totals_exact p \<longrightarrow> totals_exact q)"

lemma surface_moves_cong:
  assumes "surface_moves env p e binding q"
    and "surface_nodes p' = surface_nodes p" "surface_tokens p' = surface_tokens p"
    and "surface_resident_bytes p' = surface_resident_bytes p"
    and "surface_nodes q' = surface_nodes q" "surface_tokens q' = surface_tokens q"
    and "surface_resident_bytes q' = surface_resident_bytes q"
  shows "surface_moves env p' e binding q'"
  using assms by (simp add: surface_moves_def totals_exact_def)

lemma swapped_sum:
  fixes f :: "'a \<Rightarrow> nat"
  assumes "t' + sum_list (map f old) = t + f new" and "t = sum_list (map f (pre @ old @ post))"
  shows "t' = sum_list (map f (pre @ [new] @ post))"
  using assms by simp

lemma apply_replace_moves:
  assumes "apply_replace env p e binding a b = Inr q" and "event_surface_op e = Some (SurfaceReplace a b)"
    and "is_surface_eligible (event_kind e)"
  shows "surface_moves env p e binding q"
  using assms(1)
proof (rule apply_replace_cases)
  fix i j node
  assume pos: "node_position p a = Some i" "node_position p b = Some j" and le: "i \<le> j"
    and cited: "\<forall>n \<in> set (slice i j (surface_nodes p)). \<exists>ss. event_sources e = Some ss \<and> node_seq n \<in> set ss"
    and node: "surface_node env e binding = Inr node"
    and nodes: "surface_nodes q = take i (surface_nodes p) @ [node] @ drop (Suc j) (surface_nodes p)"
    and tokens: "unat (surface_tokens q) + (\<Sum>n\<leftarrow>slice i j (surface_nodes p). unat (node_estimated_tokens n))
      = unat (surface_tokens p) + unat (node_estimated_tokens node)"
    and bytes: "unat (surface_resident_bytes q) + (\<Sum>n\<leftarrow>slice i j (surface_nodes p). unat (node_resident_bytes n))
      = unat (surface_resident_bytes p) + unat (node_resident_bytes node)"
  note split = split_at_slice [OF le, of "surface_nodes p"]
  have "slice i j (surface_nodes p) \<noteq> []"
    using pos(2) le by (auto simp: slice_def node_position_def dest!: position_Some)
  with split nodes node cited assms(2) have "surface_put env (surface_nodes p) e binding (surface_nodes q)"
    unfolding surface_put_def by (metis is_replace.simps(1))
  moreover have "totals_exact q" if "totals_exact p"
    using that split unfolding totals_exact_def nodes
    by (metis swapped_sum [OF tokens] swapped_sum [OF bytes])
  ultimately show ?thesis using assms(3) by (simp add: surface_moves_def)
qed

lemma apply_surface_moves:
  assumes "apply_surface env p e binding = Inr q"
  shows "surface_moves env p e binding q"
  using assms
proof (cases rule: apply_surface_cases)
  case 1
  then show ?thesis by (simp add: surface_moves_def)
next
  case (2 node r reading)
  then show ?thesis using apply_append_Inr [of p node r]
    by (auto simp: surface_moves_def surface_put_def totals_exact_def)
next
  case (3 a b r reading)
  then have "surface_moves env p e binding r" by (intro apply_replace_moves)
  with 3(5) show ?thesis by (simp add: surface_moves_def totals_exact_def)
qed

text \<open>The same for every entry point of the fold.\<close>

lemma apply_event_surface:
  assumes "apply_event env a binding p e = Inr q"
  shows "surface_moves env p e binding q"
proof -
  from assms obtain c p0 r where h: "same_surface p p0" "apply_surface env p0 e binding = Inr r"
    "q = r\<lparr>compaction := c\<rparr>"
    by (rule apply_event_cases)
  from apply_surface_moves [OF h(2)] show ?thesis
    by (rule surface_moves_cong) (use h(1,3) in \<open>simp_all add: same_surface_def\<close>)
qed

lemma replay_step_surface:
  assumes "replay_step env p n e = Inr q"
  shows "surface_moves env p e BindMemory q" and "event_seq e = of_nat n"
proof -
  from assms obtain p0 where seq: "event_seq e = of_nat n" and goal: "apply_goal_transition p e = Inr p0"
    and ev: "apply_event env CompatibilityReplay BindMemory p0 e = Inr q"
    by (rule replay_step_cases)
  from apply_event_surface [OF ev] show "surface_moves env p e BindMemory q"
    by (rule surface_moves_cong) (simp_all add: apply_goal_transition_same [OF goal])
  from seq show "event_seq e = of_nat n" .
qed

section \<open>Nodes and logged events\<close>

lemma surface_node_seq: "surface_node env e binding = Inr n \<Longrightarrow> node_seq n = event_seq e"
  by (auto simp: surface_node_def result_simps)

text \<open>The event a node stands for, by its sequence number.\<close>

definition node_logged :: "session_env \<Rightarrow> SessionEvent list \<Rightarrow> SurfaceNode \<Rightarrow> bool" where
  "node_logged env h n \<longleftrightarrow> unat (node_seq n) < length h
     \<and> surface_node env (h ! unat (node_seq n)) BindMemory = Inr n"

text \<open>The message of event \<open>i\<close> is on the surface, or a later event cites it and took its place.\<close>

definition shown_or_cited :: "SessionEvent list \<Rightarrow> SurfaceNode list \<Rightarrow> nat \<Rightarrow> bool" where
  "shown_or_cited h ns i \<longleftrightarrow> of_nat i \<in> node_seq ` set ns
     \<or> (\<exists>j ss. i < j \<and> j < length h \<and> is_replace (event_surface_op (h ! j))
          \<and> event_sources (h ! j) = Some ss \<and> of_nat i \<in> set ss)"

definition surface_sound :: "session_env \<Rightarrow> SessionEvent list \<Rightarrow> 'a Projection_scheme \<Rightarrow> bool" where
  "surface_sound env h p \<longleftrightarrow> totals_exact p \<and> distinct (map node_seq (surface_nodes p))
     \<and> (\<forall>n \<in> set (surface_nodes p). node_logged env h n)
     \<and> (\<forall>i < length h. is_surface_eligible (event_kind (h ! i)) \<longrightarrow> shown_or_cited h (surface_nodes p) i)"

lemma node_logged_snoc: "node_logged env h n \<Longrightarrow> node_logged env (h @ [e]) n"
  by (simp add: node_logged_def nth_append)

lemma shown_or_cited_snoc:
  assumes "shown_or_cited h ns i" and "node_seq ` set ns \<subseteq> node_seq ` set ns'"
  shows "shown_or_cited (h @ [e]) ns' i"
  using assms unfolding shown_or_cited_def by (fastforce simp: nth_append)

lemma small_index: "n \<le> MAX_SESSION_EVENTS \<Longrightarrow> unat (of_nat n :: u64) = n"
  by (simp add: MAX_SESSION_EVENTS_def unat_of_nat take_bit_nat_eq_self)

lemma surface_put_nodes:
  assumes put: "surface_put env ns e BindMemory ns'" and seq: "event_seq e = of_nat (length h)"
    and small: "length h \<le> MAX_SESSION_EVENTS"
    and old: "distinct (map node_seq ns)" "\<forall>n \<in> set ns. node_logged env h n"
  shows "distinct (map node_seq ns')" and "\<forall>n \<in> set ns'. node_logged env (h @ [e]) n"
    and "of_nat (length h) \<in> node_seq ` set ns'"
proof -
  from put obtain pre gone post node where split: "ns = pre @ gone @ post" "ns' = pre @ [node] @ post"
    and node: "surface_node env e BindMemory = Inr node"
    by (auto simp: surface_put_def)
  have new: "node_seq node = of_nat (length h)" "unat (node_seq node) = length h"
    using surface_node_seq [OF node] seq small_index [OF small] by simp_all
  have "node_seq node \<notin> node_seq ` set ns"
    using old(2) new(2) by (auto simp: node_logged_def)
  with old(1) split show "distinct (map node_seq ns')" by auto
  have "node_logged env (h @ [e]) node" using new node by (simp add: node_logged_def nth_append)
  with split old(2) show "\<forall>n \<in> set ns'. node_logged env (h @ [e]) n"
    by (auto intro: node_logged_snoc)
  from split new(1) show "of_nat (length h) \<in> node_seq ` set ns'" by (metis UnCI image_eqI list.set_intros(1) set_append)
qed

lemma surface_put_shown:
  assumes put: "surface_put env ns e BindMemory ns'" and "shown_or_cited h ns i" and "i < length h"
  shows "shown_or_cited (h @ [e]) ns' i"
proof (cases "of_nat i \<in> node_seq ` set ns - node_seq ` set ns'")
  case True
  with put have "is_replace (event_surface_op e) \<and> (\<exists>ss. event_sources e = Some ss \<and> of_nat i \<in> set ss)"
    by (auto simp: surface_put_def split: if_splits)
  with assms(3) show ?thesis unfolding shown_or_cited_def
    by (intro disjI2 exI [of _ "length h"]) auto
next
  case False
  with assms(2) show ?thesis unfolding shown_or_cited_def by (fastforce simp: nth_append)
qed

lemma surface_sound_step:
  assumes inv: "surface_sound env h p" and small: "length h \<le> MAX_SESSION_EVENTS"
    and moves: "surface_moves env p e BindMemory q" and seq: "event_seq e = of_nat (length h)"
  shows "surface_sound env (h @ [e]) q"
proof (cases "is_surface_eligible (event_kind e)")
  case True
  with moves have put: "surface_put env (surface_nodes p) e BindMemory (surface_nodes q)"
    by (simp add: surface_moves_def)
  from inv have "distinct (map node_seq (surface_nodes p))" "\<forall>n \<in> set (surface_nodes p). node_logged env h n"
    by (simp_all add: surface_sound_def)
  note nodes = surface_put_nodes [OF put seq small this]
  have "shown_or_cited (h @ [e]) (surface_nodes q) i"
    if "i < length (h @ [e])" "is_surface_eligible (event_kind ((h @ [e]) ! i))" for i
  proof (cases "i = length h")
    case True
    with nodes(3) show ?thesis by (simp add: shown_or_cited_def)
  next
    case False
    with that inv show ?thesis
      by (intro surface_put_shown [OF put]) (simp_all add: surface_sound_def nth_append)
  qed
  with nodes inv moves show ?thesis by (simp add: surface_sound_def surface_moves_def)
next
  case False
  with moves have "surface_nodes q = surface_nodes p" by (simp add: surface_moves_def)
  with inv moves False show ?thesis
    by (auto simp: surface_sound_def surface_moves_def nth_append less_Suc_eq
        intro: node_logged_snoc shown_or_cited_snoc)
qed

text \<open>The invariant is stated for sessions within the limit, where sequence numbers do not wrap.\<close>

interpretation showing: history_keeps "replay_step env" "replay_from env"
  "\<lambda>h p. length h \<le> MAX_SESSION_EVENTS \<longrightarrow> surface_sound env h p" for env
  by unfold_locales (auto dest: replay_step_surface intro: surface_sound_step)

lemma replay_surface_sound:
  assumes "replay_projection env es sid = Inr p"
  shows "surface_sound env es p"
proof -
  obtain p0 where p0: "p0 = projection_empty MemoryCompatible\<lparr>session_id := sid\<rparr>"
    and run: "replay_from env p0 0 es = Inr p" and len: "length es \<le> MAX_SESSION_EVENTS"
    using assms by (rule replay_projection_cases)
  have "length ([] :: SessionEvent list) \<le> MAX_SESSION_EVENTS \<longrightarrow> surface_sound env [] p0"
    by (simp add: p0 projection_empty_def surface_sound_def totals_exact_def)
  from showing.from_start [OF this run] len show ?thesis by simp
qed

text \<open>C33
  The model-visible surface of a replayed session consists of logged events only: every node is the
  node of the event with its sequence number, no event appears twice, and the token and byte totals
  are the exact sums over the nodes, without overflow.\<close>

theorem replay_surface_exact:
  assumes "replay_projection env es sid = Inr p"
  shows "distinct (map node_seq (surface_nodes p))
    \<and> (\<forall>n \<in> set (surface_nodes p). unat (node_seq n) < length es
         \<and> surface_node env (es ! unat (node_seq n)) BindMemory = Inr n)
    \<and> unat (surface_tokens p) = (\<Sum>n\<leftarrow>surface_nodes p. unat (node_estimated_tokens n))
    \<and> unat (surface_resident_bytes p) = (\<Sum>n\<leftarrow>surface_nodes p. unat (node_resident_bytes n))"
  using replay_surface_sound [OF assms]
  by (simp add: surface_sound_def totals_exact_def node_logged_def)

text \<open>C34
  No message is lost from a replayed session without a trace: every user message, assistant message
  and tool result is still on the surface, or a later replacement lists its sequence number among
  its sources.\<close>

theorem replay_hides_only_cited:
  assumes "replay_projection env es sid = Inr p" and "i < length es"
    and "is_surface_eligible (event_kind (es ! i))"
  shows "of_nat i \<in> node_seq ` set (surface_nodes p)
    \<or> (\<exists>j ss. i < j \<and> j < length es \<and> is_replace (event_surface_op (es ! j))
         \<and> event_sources (es ! j) = Some ss \<and> of_nat i \<in> set ss)"
  using replay_surface_sound [OF assms(1)] assms(2,3)
  by (simp add: surface_sound_def shown_or_cited_def)

text \<open>Events for the witnesses.\<close>

definition sample_message :: "string \<Rightarrow> Message" where
  "sample_message s = \<lparr>message_id = s, message_role = User,
     message_content = [\<lparr>block_kind = Text s, block_raw = JStr s\<rparr>],
     message_source = \<lparr>source_kind = SourcePlugin ''notes'' None None None, source_raw = JNull\<rparr>,
     message_raw = JStr s, message_surface_credit = Some 10\<rparr>"

definition shown_event :: "EventSeq \<Rightarrow> string \<Rightarrow> SurfaceOp \<Rightarrow> EventSeq list option \<Rightarrow> SessionEvent" where
  "shown_event seq s op ss = (plain_event seq (UserMessage (sample_message s)))
     \<lparr>event_surface_op := Some op, event_sources := ss\<rparr>"

definition sample_surface :: "SessionEvent list" where
  "sample_surface = [shown_event 0 ''a'' SurfaceAppend None, shown_event 1 ''b'' SurfaceAppend None,
     shown_event 2 ''c'' (SurfaceReplace 0 0) (Some [0])]"

lemma sample_estimate:
  "estimate_message replay_env (sample_message ''a'') = Inr 9"
  "estimate_message replay_env (sample_message ''b'') = Inr 9"
  "estimate_message replay_env (sample_message ''c'') = Inr 9"
proof -
  have "list_all (\<lambda>s. utf8_chars s = [s]) [''a'', ''b'', ''c'']" by code_simp
  then show "estimate_message replay_env (sample_message ''a'') = Inr 9"
    "estimate_message replay_env (sample_message ''b'') = Inr 9"
    "estimate_message replay_env (sample_message ''c'') = Inr 9"
    by (simp_all add: estimate_message_def sample_message_def estimate_content_block_def estimate_text_block_def
        estimated_text_tokens_def utf16_length_def usize_to_u64_def div_ceil_def CHARS_PER_TOKEN_def
        budget_add_def checked_add_def ROLE_OVERHEAD_def BLOCK_OVERHEAD_def)
qed

lemma sample_message_fields:
  "message_role (sample_message s) = User" "message_content (sample_message s) \<noteq> []"
  "source_kind (message_source (sample_message s)) = SourcePlugin ''notes'' None None None"
  "message_surface_credit (sample_message s) = Some 10"
  by (simp_all add: sample_message_def)

lemmas surface_eval = sample_surface_def shown_event_def validate_user_event_def sample_message_fields
  apply_goal_message_def validate_time_context_surface_def validate_sources_def MAX_SOURCE_EVENT_SEQS_def
  surface_node_def node_facts_def node_origin_def apply_append_def apply_replace_def node_position_def
  swap_total_def checked_sub_def slice_def node_resident_bytes_def charged_surface_bytes_def
  sample_estimate observe_message_time_def is_compaction_checkpoint_source_def TIME_CONTEXT_SOURCE_def
  COMPACTION_CHECKPOINT_SOURCE_def title_prompt_text_def advance_generation_def

lemma sample_surface_replays:
  "\<exists>p. replay_projection replay_env sample_surface None = Inr p \<and> map node_seq (surface_nodes p) = [2, 1]
     \<and> surface_tokens p = 18"
  by (simp add: surface_eval replay_eval)

theorem replay_surface_exact_witness:
  "\<exists>p. replay_projection replay_env sample_surface None = Inr p \<and> distinct (map node_seq (surface_nodes p))
     \<and> map node_seq (surface_nodes p) = [2, 1] \<and> surface_tokens p = 18"
proof -
  obtain p where p: "replay_projection replay_env sample_surface None = Inr p"
    and v: "map node_seq (surface_nodes p) = [2, 1]" "surface_tokens p = 18"
    using sample_surface_replays by (elim exE conjE)
  from replay_surface_exact [OF p] have "distinct (map node_seq (surface_nodes p))" by (rule conjunct1)
  with p v show ?thesis by (intro exI conjI)
qed

theorem replay_hides_only_cited_witness:
  "\<exists>p. replay_projection replay_env sample_surface None = Inr p
     \<and> (of_nat 0 \<in> node_seq ` set (surface_nodes p)
        \<or> (\<exists>j ss. 0 < j \<and> j < length sample_surface \<and> is_replace (event_surface_op (sample_surface ! j))
             \<and> event_sources (sample_surface ! j) = Some ss \<and> of_nat 0 \<in> set ss))"
proof -
  obtain p where p: "replay_projection replay_env sample_surface None = Inr p"
    using sample_surface_replays by (elim exE conjE)
  have "0 < length sample_surface" "is_surface_eligible (event_kind (sample_surface ! 0))"
    by (simp_all add: sample_surface_def shown_event_def plain_event_def)
  from p replay_hides_only_cited [OF p this] show ?thesis by (intro exI conjI)
qed

end
