(* ===== verification/Replay_Compaction.thy ===== *)
theory Replay_Compaction
  imports Replay_Surface
begin

text \<open>
  Compaction (\<open>src/session/projection.rs\<close>): what the surface proposes is what the start validator
  accepts, a strict compaction shrinks the surface by exactly the proposed prefix, and in a replayed
  session a successful end closes an unbroken bracket of start, summary and checkpoint.
\<close>

section \<open>When the selection returns\<close>






lemma retained_split:
  "retained_tokens f nodes = retained_tokens f (take k nodes) + retained_tokens f (drop k nodes)"
  by (metis append_take_drop_id map_append sum_list_append)



section \<open>A proposed compaction is accepted\<close>

lemma node_prices:
  "retained_tokens surface_price_facts ns = (\<Sum>n\<leftarrow>ns. unat (node_estimated_tokens n))"
  by (simp add: surface_price_facts_def)





lemma dispatch_prefixI:
  assumes "surface_range_indices p (dispatch_shadowed_range d) (dispatch_shadowed_seqs d) = Some (0, final)"
    and "\<not> list_ex (\<lambda>s. start_seq \<le> s) (dispatch_shadowed_seqs d)"
    and "length (dispatch_shadowed_seqs d) \<le> MAX_SOURCE_EVENT_SEQS - 2"
    and "token_sum (drop (Suc final) (surface_nodes p)) = Inr rest"
    and "select_compactable_prefix (surface_nodes p) rest (MAX_SOURCE_EVENT_SEQS - 2) surface_price_facts
      = Inr (Some s)"
    and "end_exclusive s = Suc final" and "token_sum (take (Suc final) (surface_nodes p)) = Inr t"
  shows "dispatch_prefix p start_seq d = Inr t"
  using assms by (simp add: dispatch_prefix_def require_dispatch_def)





section \<open>A strict compaction\<close>

lemma dispatch_prefix_Inr:
  assumes "dispatch_prefix p start_seq d = Inr t"
  obtains k where "0 < k" and "k \<le> length (surface_nodes p)"
    and "surface_range_indices p (dispatch_shadowed_range d) (dispatch_shadowed_seqs d) = Some (0, k - 1)"
    and "unat t = (\<Sum>n\<leftarrow>take k (surface_nodes p). unat (node_estimated_tokens n))"
proof -
  from assms obtain final where r: "surface_range_indices p (dispatch_shadowed_range d) (dispatch_shadowed_seqs d)
      = Some (0, final)"
    and t: "token_sum (take (Suc final) (surface_nodes p)) = Inr t"
    by (auto simp: dispatch_prefix_def require_dispatch_def and_then_Inr ok_or_Inr split: if_splits)
  from r have "final < length (surface_nodes p)"
    by (auto simp: surface_range_indices_def node_position_def bind_eq_Some_conv dest!: position_Some
        split: if_splits)
  with r t that [of "Suc final"] show thesis
    by (auto simp: token_sum_def ok_or_Inr comp_def dest!: checked_fold_Some)
qed

lemma validate_compaction_dispatch_Inr:
  assumes "validate_compaction_dispatch env p start_seq d = Inr r"
  shows "dispatch_prefix p start_seq d = Inr (recipe_shadowed_token_count r)"
    and "recipe_range r = dispatch_shadowed_range d" and "recipe_shadowed_seqs r = dispatch_shadowed_seqs d"
  using assms
  by (auto simp: validate_compaction_dispatch_def and_then_Inr Let_def)

text \<open>Outside compatibility replay every start carries the recipe of a validated dispatch.\<close>

lemma start_recipe_strict:
  assumes "start_recipe env p seq s admission = Inr r" and "admission \<noteq> CompatibilityReplay"
  obtains d recipe where "start_dispatch s = Some d" and "r = Some recipe"
    and "validate_compaction_dispatch env p seq d = Inr recipe"
  using assms
  by (cases "start_turn s"; cases "start_dispatch s"; cases "start_source_command_id s"; cases "boundary p")
    (auto simp: start_recipe_def and_then_Inr)

lemma advance_compaction_strict:
  assumes "next_compaction_state env p e admission = Inr c" and "policy p = DurableStrict"
    and "admission \<noteq> HistoricalScan"
    and "\<not> is_recovery_boundary (event_kind e)" and "\<not> is_recovery_result (event_kind e)"
  shows "advance_compaction env p e admission = Inr c"
  using assms by (auto simp: next_compaction_state_def Let_def split: if_splits)

lemma strict_start:
  assumes "next_compaction_state env p e admission = Inr c" and "policy p = DurableStrict"
    and "admission \<noteq> HistoricalScan" and "admission \<noteq> CompatibilityReplay"
    and "event_kind e = CompactionStart s"
  obtains opened k recipe where "open_compaction c = Some opened" and "open_recipe opened = Some recipe"
    and "open_phase opened = PhaseStarted"
    and "0 < k" and "k \<le> length (surface_nodes p)"
    and "surface_range_indices p (recipe_range recipe) (recipe_shadowed_seqs recipe) = Some (0, k - 1)"
    and "unat (recipe_shadowed_token_count recipe)
      = (\<Sum>n\<leftarrow>take k (surface_nodes p). unat (node_estimated_tokens n))"
proof -
  have "advance_compaction env p e admission = Inr c"
    by (rule advance_compaction_strict) (use assms in simp_all)
  then obtain c0 b c1 where adj: "apply_prune_adjacency (compaction p) e = Inr (c0, b)"
    and c1: "(case open_compaction c0 of
         Some opened \<Rightarrow> and_then (advance_open_compaction env p e opened admission) (\<lambda>next.
           Inr (c0\<lparr>open_compaction := next\<rparr>))
       | None \<Rightarrow> outside_compaction env p e admission b c0) = Inr c1"
    and c: "open_compaction c = open_compaction c1"
    by (auto simp: advance_compaction_def advance_surface_generation_def assms(5) is_checkpoint_event_def
        and_then_Inr split: if_splits)
  from c1 have "open_compaction c0 = None"
    by (cases "open_compaction c0") (simp_all add: advance_open_compaction_def assms(5) Let_def)
  with c1 obtain opened where opened: "validate_compaction_start env p (event_seq e) s admission = Inr opened"
    and "open_compaction c1 = Some opened"
    by (auto simp: outside_compaction_def assms(5) and_then_Inr)
  from opened obtain r where r: "start_recipe env p (event_seq e) s admission = Inr r"
    and o: "open_recipe opened = r" "open_phase opened = PhaseStarted"
    by (auto simp: validate_compaction_start_def and_then_Inr split: if_splits)
  from r assms(4) obtain d recipe where "r = Some recipe"
    and v: "validate_compaction_dispatch env p (event_seq e) d = Inr recipe"
    by (rule start_recipe_strict)
  from dispatch_prefix_Inr [OF validate_compaction_dispatch_Inr(1) [OF v]] validate_compaction_dispatch_Inr(2,3) [OF v]
  obtain k where "0 < k" "k \<le> length (surface_nodes p)"
    and "surface_range_indices p (recipe_range recipe) (recipe_shadowed_seqs recipe) = Some (0, k - 1)"
    and "unat (recipe_shadowed_token_count recipe)
      = (\<Sum>n\<leftarrow>take k (surface_nodes p). unat (node_estimated_tokens n))"
    by metis
  moreover have "open_compaction c = Some opened" "open_recipe opened = Some recipe"
    using c \<open>open_compaction c1 = Some opened\<close> o \<open>r = Some recipe\<close> by simp_all
  ultimately show thesis using o(2) by (intro that)
qed

lemma prune_adjacency_open:
  "apply_prune_adjacency c e = Inr (c', b) \<Longrightarrow> open_compaction c' = open_compaction c"
  by (auto simp: apply_prune_adjacency_def Let_def and_then_Inr split: option.splits SurfaceOp.splits if_splits)

text \<open>With a bracket open, the next bracket is what \<open>advance_open_compaction\<close> says.\<close>

lemma advance_compaction_open:
  assumes "advance_compaction env p e admission = Inr c" and "open_compaction (compaction p) = Some opened"
  shows "advance_open_compaction env p e opened admission = Inr (open_compaction c)"
proof -
  from assms obtain c0 b c1 where adj: "apply_prune_adjacency (compaction p) e = Inr (c0, b)"
    and adv: "(case open_compaction c0 of
         Some opened \<Rightarrow> and_then (advance_open_compaction env p e opened admission) (\<lambda>next.
           Inr (c0\<lparr>open_compaction := next\<rparr>))
       | None \<Rightarrow> outside_compaction env p e admission b c0) = Inr c1"
    and c: "open_compaction c = open_compaction c1"
    by (auto simp: advance_compaction_def advance_surface_generation_def and_then_Inr split: if_splits)
  from prune_adjacency_open [OF adj] assms(2) adv c show ?thesis
    by (auto simp: and_then_Inr)
qed

lemma strict_summary:
  assumes "advance_open_compaction env p e opened admission = Inr o'" and "policy p = DurableStrict"
    and "event_kind e = CompactionSummary y" and "open_recipe opened = Some recipe"
  obtains z where "o' = Some (opened\<lparr>open_phase := PhaseSummarized z\<rparr>)"
    and "summarized_range z = recipe_range recipe" and "summarized_shadowed_seqs z = recipe_shadowed_seqs recipe"
    and "summarized_token_count z = recipe_shadowed_token_count recipe"
    and "summary_shadowed_seqs y = recipe_shadowed_seqs recipe"
  using assms
  by (auto simp: advance_open_compaction_def advance_summary_def summary_matches_recipe_def require_dispatch_def
      and_then_Inr split: if_splits)

lemma strict_checkpoint:
  assumes "advance_open_compaction env p e opened admission = Inr o'" and "policy p = DurableStrict"
    and "event_kind e = UserMessage m" and "is_replace (event_surface_op e)"
    and "open_phase opened = PhaseSummarized z"
  obtains tokens where "event_surface_op e
      = Some (SurfaceReplace (range_start (summarized_range z)) (range_end (summarized_range z)))"
    and "estimate_message env m = Inr tokens" and "tokens < summarized_token_count z"
  using assms
  by (auto simp: advance_open_compaction_def advance_checkpoint_def validate_checkpoint_replacement_def
      and_then_Inr map_err_Inr split: if_splits option.splits SurfaceOp.splits)

lemma surface_node_user:
  "surface_node env e binding = Inr node \<Longrightarrow> event_kind e = UserMessage m
    \<Longrightarrow> estimate_message env m = Inr (node_estimated_tokens node)"
  by (auto simp: surface_node_def node_facts_def result_simps)

lemma surface_range_positions:
  "surface_range_indices p r seqs = Some (i, j) \<Longrightarrow> node_position p (range_start r) = Some i
    \<and> node_position p (range_end r) = Some j \<and> map node_seq (slice i j (surface_nodes p)) = seqs"
  by (auto simp: surface_range_indices_def bind_eq_Some_conv split: if_splits)

lemma apply_event_replaces:
  assumes "apply_event env a binding p e = Inr q"
    and "event_surface_op e = Some (SurfaceReplace x y)" and "is_surface_eligible (event_kind e)"
    and "node_position p x = Some i" and "node_position p y = Some j"
  obtains node where "surface_node env e binding = Inr node"
    and "surface_nodes q = take i (surface_nodes p) @ [node] @ drop (Suc j) (surface_nodes p)"
proof -
  from assms(1) obtain c p0 r where h: "same_surface p p0" "apply_surface env p0 e binding = Inr r"
    "q = r\<lparr>compaction := c\<rparr>"
    by (rule apply_event_cases)
  from h(2) obtain r0 where r0: "apply_replace env p0 e binding x y = Inr r0" "surface_nodes r = surface_nodes r0"
    using assms(2,3) by (cases rule: apply_surface_cases) auto
  have "node_position p0 = node_position p"
    using h(1) by (intro ext) (simp add: node_position_def same_surface_def)
  with r0(1) assms(4,5) h(1) obtain node where "surface_node env e binding = Inr node"
    and "surface_nodes r0 = take i (surface_nodes p) @ [node] @ drop (Suc j) (surface_nodes p)"
    by (auto simp: same_surface_def elim!: apply_replace_cases)
  with h(3) r0(2) that show thesis by simp
qed

lemma apply_event_bracket:
  assumes "apply_event env a binding p e = Inr q"
  shows "next_compaction_state env p e a = Inr (compaction q)" and "policy q = policy p"
  using assms by (auto elim!: apply_event_cases simp: same_surface_def same_turns_def)


text \<open>C36
  A compaction written to a strict session shrinks it: if start, summary and checkpoint are accepted
  one after the other, the checkpoint takes the place of exactly the summarised oldest nodes, the
  rest of the surface is untouched, and the token total becomes strictly smaller.\<close>

theorem strict_compaction_shrinks:
  assumes strict: "policy p = DurableStrict" "a \<noteq> HistoricalScan" "a \<noteq> CompatibilityReplay"
    and totals: "totals_exact p"
    and e1: "apply_event env a b p e1 = Inr p1" "event_kind e1 = CompactionStart s"
    and e2: "apply_event env a b p1 e2 = Inr p2" "event_kind e2 = CompactionSummary y"
    and e3: "apply_event env a b p2 e3 = Inr p3" "event_kind e3 = UserMessage m"
      "is_replace (event_surface_op e3)"
  shows "\<exists>k node. 0 < k \<and> k \<le> length (surface_nodes p)
    \<and> map node_seq (take k (surface_nodes p)) = summary_shadowed_seqs y
    \<and> surface_node env e3 b = Inr node
    \<and> surface_nodes p3 = node # drop k (surface_nodes p)
    \<and> unat (surface_tokens p3) < unat (surface_tokens p)"
proof -
  note bracket1 = apply_event_bracket [OF e1(1)] and bracket2 = apply_event_bracket [OF e2(1)]
    and bracket3 = apply_event_bracket [OF e3(1)]
  have strict1: "policy p1 = DurableStrict" and strict2: "policy p2 = DurableStrict"
    using strict(1) bracket1(2) bracket2(2) by simp_all
  obtain opened k recipe where o1: "open_compaction (compaction p1) = Some opened"
    "open_recipe opened = Some recipe" "open_phase opened = PhaseStarted"
    and k: "0 < k" "k \<le> length (surface_nodes p)"
    and range: "surface_range_indices p (recipe_range recipe) (recipe_shadowed_seqs recipe) = Some (0, k - 1)"
    and count: "unat (recipe_shadowed_token_count recipe)
      = (\<Sum>n\<leftarrow>take k (surface_nodes p). unat (node_estimated_tokens n))"
    using strict_start [OF bracket1(1) strict e1(2)] .
  have "advance_compaction env p1 e2 a = Inr (compaction p2)"
    by (rule advance_compaction_strict [OF bracket2(1) strict1 strict(2)]) (simp_all add: e2(2))
  from advance_compaction_open [OF this o1(1)] obtain z
    where o2: "open_compaction (compaction p2) = Some (opened\<lparr>open_phase := PhaseSummarized z\<rparr>)"
    and z: "summarized_range z = recipe_range recipe" "summarized_token_count z = recipe_shadowed_token_count recipe"
      "summary_shadowed_seqs y = recipe_shadowed_seqs recipe"
    using strict1 e2(2) o1(2) by (rule strict_summary)
  have "advance_compaction env p2 e3 a = Inr (compaction p3)"
    by (rule advance_compaction_strict [OF bracket3(1) strict2 strict(2)]) (simp_all add: e3(2))
  note adv = advance_compaction_open [OF this o2]
  have "open_phase (opened\<lparr>open_phase := PhaseSummarized z\<rparr>) = PhaseSummarized z" by simp
  then obtain tokens where op: "event_surface_op e3
      = Some (SurfaceReplace (range_start (summarized_range z)) (range_end (summarized_range z)))"
    and tokens: "estimate_message env m = Inr tokens" "tokens < summarized_token_count z"
    by (rule strict_checkpoint [OF adv strict2 e3(2,3)])
  have nodes: "surface_nodes p1 = surface_nodes p" "surface_nodes p2 = surface_nodes p"
    and totals3: "totals_exact p3"
    using apply_event_surface [OF e1(1)] apply_event_surface [OF e2(1)] apply_event_surface [OF e3(1)] totals
    by (simp_all add: surface_moves_def e1(2) e2(2))
  have "node_position p2 = node_position p" by (intro ext) (simp add: node_position_def nodes(2))
  with surface_range_positions [OF range] z(1) obtain node where node: "surface_node env e3 b = Inr node"
    and p3: "surface_nodes p3 = node # drop k (surface_nodes p)"
    using apply_event_replaces [OF e3(1) op, of 0 "k - 1"] k(1) e3(2) nodes(2) by auto
  have "unat (node_estimated_tokens node) < (\<Sum>n\<leftarrow>take k (surface_nodes p). unat (node_estimated_tokens n))"
    using surface_node_user [OF node e3(2)] tokens z(2) count by (simp add: word_less_nat_alt)
  then have "unat (surface_tokens p3) < unat (surface_tokens p)"
    using totals totals3 p3 retained_split [of surface_price_facts "surface_nodes p" k]
    by (simp add: totals_exact_def node_prices)
  moreover have "map node_seq (take k (surface_nodes p)) = summary_shadowed_seqs y"
    using surface_range_positions [OF range] z(3) k(1) by (simp add: slice_def)
  ultimately show ?thesis using k node p3 by blast
qed

text \<open>A strict session with two messages, of which a manual compaction summarises the first.\<close>

definition sample_node :: "EventSeq \<Rightarrow> u64 \<Rightarrow> SurfaceNode" where
  "sample_node n tokens = \<lparr>node_seq = n, node_kind = NodeUser, node_message = Some (sample_message ''a''),
     node_estimated_tokens = tokens, node_tool_delta = 0, node_tool_result = None\<rparr>"

definition strict_session :: Projection where
  "strict_session = (projection_empty DurableStrict)\<lparr>surface_nodes := [sample_node 0 1000, sample_node 1 5],
     surface_tokens := 1005, surface_resident_bytes := 20\<rparr>"

definition sample_dispatch :: ModelVisibleDispatchSnapshot where
  "sample_dispatch = \<lparr>dispatch_trigger = TriggerManual, dispatch_surface_generation = 0,
     dispatch_shadowed_range = \<lparr>range_start = 0, range_end = 0\<rparr>, dispatch_shadowed_seqs = [0],
     dispatch_prepared_call = \<lparr>call_config = \<lparr>config_provider = ''p'', config_model = ''m'',
         config_reasoning_effort = None, config_temperature = None, config_max_tokens = None,
         config_stop = None, config_raw = JNull\<rparr>,
       call_adapter_defaults = \<lparr>default_reasoning_effort = False, default_max_tokens = False\<rparr>,
       call_context_window = None,
       call_retry_policy = \<lparr>policy_mode = SnapshotAlways, policy_max_retries = None,
         policy_retryable_codes = [],
         policy_backoff = \<lparr>backoff_initial_delay_ms = 0, backoff_max_delay_ms = 0, backoff_jitter_ratio = 0\<rparr>\<rparr>\<rparr>,
     dispatch_request_header_seq = None, dispatch_request_context_seq = None, dispatch_system = None,
     dispatch_tools = [], dispatch_session_id = ''s'', dispatch_purpose = CompactionPurpose,
     dispatch_instruction = sample_message ''a'', dispatch_format_version = 1\<rparr>"
definition text_json :: "string \<Rightarrow> json" where
  "text_json s = JObj [(''type'', JStr ''text''), (''text'', JStr s)]"

definition text_content :: "string \<Rightarrow> ContentBlock" where
  "text_content s = \<lparr>block_kind = Text s, block_raw = text_json s\<rparr>"

definition sample_checkpoint :: Message where
  "sample_checkpoint = \<lparr>message_id = ''m'', message_role = User,
     message_content = [text_content COMPACTION_CHECKPOINT_PREFIX, text_content ''b'',
       text_content COMPACTION_CHECKPOINT_SUFFIX],
     message_source = \<lparr>source_kind = SourcePlugin ''compact'' None None None,
       source_raw = JObj [(''kind'', JStr ''plugin''), (''plugin'', JStr ''compact''),
         (''compactionId'', JStr ''c''), (''sourceCommandId'', JStr ''x'')]\<rparr>,
     message_raw = JNull, message_surface_credit = Some 100\<rparr>"

definition compaction_started :: SessionEvent where
  "compaction_started = plain_event 2 (CompactionStart \<lparr>start_compaction_id = ''c'',
     start_source_command_id = Some ''x'', start_turn = None, start_dispatch = Some sample_dispatch\<rparr>)"

definition sample_summary :: CompactionSummaryEvent where
  "sample_summary = \<lparr>summary_compaction_id = ''c'',
     summary_source_command_id = Some ''x'', summary_blocks = [text_content ''b''],
     summary_raw_output = Some [text_content ''b''], summary_llm_stream_call = True,
     summary_shadowed_range = \<lparr>range_start = 0, range_end = 0\<rparr>, summary_shadowed_seqs = [0],
     summary_shadowed_token_count = 1000, summary_provider = ''p'', summary_model = ''m'',
     summary_max_tokens = None, summary_usage = None\<rparr>"

definition compaction_summarized :: SessionEvent where
  "compaction_summarized = plain_event 3 (CompactionSummary sample_summary)"

definition compaction_checkpointed :: SessionEvent where
  "compaction_checkpointed = (plain_event 4 (UserMessage sample_checkpoint))
     \<lparr>event_surface_op := Some (SurfaceReplace 0 0), event_sources := Some [2, 3, 0]\<rparr>"

lemma checkpoint_estimate: "\<exists>t. estimate_message replay_env sample_checkpoint = Inr t \<and> t < 1000"
proof -
  have "utf8_chars COMPACTION_CHECKPOINT_PREFIX = map (\<lambda>c. [c]) COMPACTION_CHECKPOINT_PREFIX"
    "utf8_chars COMPACTION_CHECKPOINT_SUFFIX = map (\<lambda>c. [c]) COMPACTION_CHECKPOINT_SUFFIX"
    "utf8_chars ''b'' = map (\<lambda>c. [c]) ''b''"
    by (rule utf8_chars_ascii; simp add: COMPACTION_CHECKPOINT_PREFIX_def COMPACTION_CHECKPOINT_SUFFIX_def)+
  then show ?thesis
    by (simp add: estimate_message_def sample_checkpoint_def text_content_def estimate_content_block_def
        estimate_text_block_def estimated_text_tokens_def utf16_length_def usize_to_u64_def div_ceil_def
        CHARS_PER_TOKEN_def budget_add_def checked_add_def ROLE_OVERHEAD_def BLOCK_OVERHEAD_def comp_def
        COMPACTION_CHECKPOINT_PREFIX_def COMPACTION_CHECKPOINT_SUFFIX_def)
qed

lemmas compaction_eval = compaction_started_def compaction_summarized_def compaction_checkpointed_def
  sample_summary_def sample_dispatch_def strict_session_def sample_node_def

lemma sample_select:
  "select_compactable_prefix [sample_node 0 1000, sample_node 1 5] 5 (MAX_SOURCE_EVENT_SEQS - 2) surface_price_facts
     = Inr (Some \<lparr>end_exclusive = 1, shadowed_token_count = 1000\<rparr>)"
  by (simp add: select_compactable_prefix_def sample_node_def surface_price_facts_def checked_add_i64_def
      budget_add_def checked_add_def sum_tokens_def MAX_SOURCE_EVENT_SEQS_def)

lemma sample_prefix: "dispatch_prefix strict_session 2 sample_dispatch = Inr 1000"
proof (rule dispatch_prefixI [where final = 0 and rest = 5])
  show "select_compactable_prefix (surface_nodes strict_session) 5 (MAX_SOURCE_EVENT_SEQS - 2) surface_price_facts
     = Inr (Some \<lparr>end_exclusive = 1, shadowed_token_count = 1000\<rparr>)"
    using sample_select by (simp add: strict_session_def)
qed (simp_all add: strict_session_def sample_dispatch_def sample_node_def surface_range_indices_def
  node_position_def slice_def MAX_SOURCE_EVENT_SEQS_def token_sum_def checked_add_def)

definition sample_recipe :: CompactionRecipe where
  "sample_recipe = \<lparr>recipe_trigger = TriggerManual, recipe_range = \<lparr>range_start = 0, range_end = 0\<rparr>,
     recipe_shadowed_seqs = [0], recipe_shadowed_token_count = 1000, recipe_provider = ''p'',
     recipe_model = ''m'', recipe_max_tokens = None\<rparr>"

lemma sample_dispatch_ok:
  "validate_compaction_dispatch replay_env strict_session 2 sample_dispatch = Inr sample_recipe"
  unfolding validate_compaction_dispatch_def sample_prefix
  by (simp add: require_dispatch_def strict_session_def sample_dispatch_def has_pending_durable_call_def
      projection_empty_def compaction_default_def dispatch_matches_header_def estimate_request_header_def
      budget_add_def checked_add_def sample_recipe_def)

definition sample_opened :: "CompactionPhase \<Rightarrow> OpenCompaction" where
  "sample_opened phase = \<lparr>open_compaction_id = ''c'', open_source_command_id = Some ''x'', open_owner = None,
     open_start_seq = 2, open_recipe = Some sample_recipe, open_phase = phase\<rparr>"

definition sample_summarized :: SummarizedCompaction where
  "sample_summarized = \<lparr>summarized_seq = 3, summarized_range = \<lparr>range_start = 0, range_end = 0\<rparr>,
     summarized_shadowed_seqs = [0], summarized_blocks = [text_json ''b''], summarized_token_count = 1000\<rparr>"

definition with_open :: "CompactionPhase \<Rightarrow> Projection" where
  "with_open phase = strict_session\<lparr>compaction := compaction_default\<lparr>open_compaction := Some (sample_opened phase)\<rparr>\<rparr>"

lemma sample_started:
  "apply_event replay_env Ordinary BindPendingDurable strict_session compaction_started = Inr (with_open PhaseStarted)"
proof -
  have "start_recipe replay_env strict_session 2 \<lparr>start_compaction_id = ''c'',
     start_source_command_id = Some ''x'', start_turn = None, start_dispatch = Some sample_dispatch\<rparr> Ordinary
     = Inr (Some sample_recipe)"
    using sample_dispatch_ok by (simp add: start_recipe_def strict_session_def projection_empty_def)
  moreover have "open_turn strict_session = None" "compaction strict_session = compaction_default"
    "policy strict_session = DurableStrict" "session_title_first_prompt strict_session = None"
    by (simp_all add: strict_session_def projection_empty_def open_turn_def)
  ultimately show ?thesis
    by (simp add: compaction_started_def replay_eval validate_compaction_start_def sample_opened_def with_open_def)
qed

lemma sample_summarised:
  "apply_event replay_env Ordinary BindPendingDurable (with_open PhaseStarted) compaction_summarized
     = Inr (with_open (PhaseSummarized sample_summarized))"
  by (simp add: compaction_summarized_def sample_summary_def replay_eval with_open_def sample_opened_def
      strict_session_def advance_open_compaction_def advance_summary_def validate_compaction_identity_def
      event_is_immediately_after_def require_dispatch_def surface_range_matches_def surface_range_indices_def
      node_position_def slice_def sample_node_def summary_matches_recipe_def sample_recipe_def
      sample_summarized_def text_content_def)

lemma checkpointed_fields:
  "event_kind compaction_checkpointed = UserMessage sample_checkpoint" "event_seq compaction_checkpointed = 4"
  "event_surface_op compaction_checkpointed = Some (SurfaceReplace 0 0)"
  "event_sources compaction_checkpointed = Some [2, 3, 0]" "event_time compaction_checkpointed = 1000"
  by (simp_all add: compaction_checkpointed_def plain_event_def)

lemma with_open_fields:
  "policy (with_open phase) = DurableStrict" "compaction (with_open phase)
     = compaction_default\<lparr>open_compaction := Some (sample_opened phase)\<rparr>"
  "open_turn (with_open phase) = None" "session_title_first_prompt (with_open phase) = None"
  "surface_nodes (with_open phase) = [sample_node 0 1000, sample_node 1 5]"
  "surface_tokens (with_open phase) = 1005" "surface_resident_bytes (with_open phase) = 20"
  by (simp_all add: with_open_def strict_session_def projection_empty_def open_turn_def)

lemma sample_advanced:
  "\<exists>o'. advance_open_compaction replay_env (with_open (PhaseSummarized sample_summarized))
     compaction_checkpointed (sample_opened (PhaseSummarized sample_summarized)) Ordinary = Inr o'"
proof -
  obtain t where t: "estimate_message replay_env sample_checkpoint = Inr t" "t < 1000"
    using checkpoint_estimate by (elim exE conjE)
  have "json_values_equal replay_env (text_json ''b'') (text_json ''b'')"
    by (simp add: json_values_equal_def text_json_def MAX_JSON_DEPTH_def numeral_eq_Suc)
  then have checkpoint: "validate_checkpoint_replacement replay_env compaction_checkpointed sample_checkpoint
      (sample_opened (PhaseSummarized sample_summarized)) sample_summarized"
    by (simp add: validate_checkpoint_replacement_def checkpointed_fields
        sample_checkpoint_def sample_summarized_def sample_opened_def checkpoint_source_matches_def
        checkpoint_content_matches_def canonical_text_block_matches_def text_content_def
        COMPACTION_CHECKPOINT_SOURCE_def get_str_def) (simp add: text_json_def get_str_def)
  moreover have "event_is_immediately_after 4 (summarized_seq sample_summarized)"
    by (simp add: event_is_immediately_after_def sample_summarized_def checked_add_def)
  moreover have "\<not> summarized_token_count sample_summarized \<le> t"
    using t(2) by (simp add: sample_summarized_def)
  moreover have "open_phase (sample_opened (PhaseSummarized sample_summarized)) = PhaseSummarized sample_summarized"
    by (simp add: sample_opened_def)
  ultimately show ?thesis
    by (simp add: advance_open_compaction_def advance_checkpoint_def with_open_fields checkpointed_fields t(1))
qed

lemma sample_checkpointed:
  "\<exists>p. apply_event replay_env Ordinary BindPendingDurable (with_open (PhaseSummarized sample_summarized))
     compaction_checkpointed = Inr p"
proof -
  let ?p = "with_open (PhaseSummarized sample_summarized)"
  obtain t where t: "estimate_message replay_env sample_checkpoint = Inr t" "t < 1000"
    using checkpoint_estimate by (elim exE conjE)
  obtain o' where o': "advance_open_compaction replay_env ?p compaction_checkpointed
      (sample_opened (PhaseSummarized sample_summarized)) Ordinary = Inr o'"
    using sample_advanced by (elim exE)
  have "source_kind (message_source sample_checkpoint) = SourcePlugin ''compact'' None None None"
    "message_content sample_checkpoint \<noteq> []" "message_surface_credit sample_checkpoint = Some 100"
    "charged_surface_bytes (sample_message ''a'') = Some 10"
    by (simp_all add: sample_checkpoint_def sample_message_def charged_surface_bytes_def)
  note checkpoint = this
  have "unat t < 1000" using t(2) by (simp add: word_less_nat_alt)
  then have "\<exists>total. swap_total TokenAccountingOverflow 1005 [1000] t = Inr total"
    by (simp add: swap_total_def checked_add_def checked_sub_def)
  then obtain total where total: "swap_total TokenAccountingOverflow 1005 [1000] t = Inr total" by (elim exE)
  have bytes: "\<exists>b. swap_total ResidentAccountingOverflow 20 [10] (100 :: usize) = Inr b"
    by (simp add: swap_total_def checked_add_def checked_sub_def)
  have transition: "apply_transition ?p compaction_checkpointed Ordinary = Inr ?p"
    by (simp add: apply_transition_def apply_kind_def checkpointed_fields capture_first_prompt_def
        title_prompt_text_def checkpoint with_open_fields is_unprivileged_durable_def)
  have "\<exists>q. apply_surface replay_env ?p compaction_checkpointed BindPendingDurable = Inr q"
    using total bytes
    by (auto simp: apply_surface_def checkpointed_fields validate_time_context_surface_def checkpoint
        TIME_CONTEXT_SOURCE_def validate_sources_def MAX_SOURCE_EVENT_SEQS_def apply_replace_def
        node_position_def with_open_fields sample_node_def slice_def surface_node_def node_facts_def t
        node_origin_def node_resident_bytes_def charged_surface_bytes_def sample_message_fields)
  moreover have "\<exists>c. next_compaction_state replay_env ?p compaction_checkpointed Ordinary = Inr c"
    using o'
    by (simp add: next_compaction_state_def with_open_fields checkpointed_fields advance_compaction_def
        apply_prune_adjacency_def compaction_default_def advance_surface_generation_def advance_generation_def
        safe_successor_def checked_add_def MAX_SAFE_INTEGER_def)
  ultimately show ?thesis using transition by (auto simp: apply_event_def)
qed

theorem strict_compaction_shrinks_witness:
  "\<exists>p3. apply_event replay_env Ordinary BindPendingDurable (with_open (PhaseSummarized sample_summarized))
      compaction_checkpointed = Inr p3
    \<and> (\<exists>k node. 0 < k \<and> k \<le> length (surface_nodes strict_session)
      \<and> map node_seq (take k (surface_nodes strict_session)) = summary_shadowed_seqs sample_summary
      \<and> surface_node replay_env compaction_checkpointed BindPendingDurable = Inr node
      \<and> surface_nodes p3 = node # drop k (surface_nodes strict_session)
      \<and> unat (surface_tokens p3) < unat (surface_tokens strict_session))"
proof -
  obtain p3 where p3: "apply_event replay_env Ordinary BindPendingDurable
      (with_open (PhaseSummarized sample_summarized)) compaction_checkpointed = Inr p3"
    using sample_checkpointed by (elim exE)
  have strict: "policy strict_session = DurableStrict" "Ordinary \<noteq> HistoricalScan" "Ordinary \<noteq> CompatibilityReplay"
    by (simp_all add: strict_session_def projection_empty_def)
  have totals: "totals_exact strict_session"
    by (simp add: totals_exact_def strict_session_def sample_node_def node_resident_bytes_def
        charged_surface_bytes_def sample_message_fields)
  have start: "event_kind compaction_started = CompactionStart \<lparr>start_compaction_id = ''c'',
     start_source_command_id = Some ''x'', start_turn = None, start_dispatch = Some sample_dispatch\<rparr>"
    and summary: "event_kind compaction_summarized = CompactionSummary sample_summary"
    by (simp_all add: compaction_started_def compaction_summarized_def plain_event_def)
  have "is_replace (event_surface_op compaction_checkpointed)" by (simp add: checkpointed_fields)
  from strict_compaction_shrinks [OF strict totals sample_started start sample_summarised summary p3
    checkpointed_fields(1) this] p3
  show ?thesis by (intro exI [of _ p3] conjI)
qed


end
