(* ===== verification/Replay_Bracket.thy ===== *)
theory Replay_Bracket
  imports Replay_Compaction
begin

text \<open>
  The bracket of a compaction in a replayed session (\<open>src/session/projection.rs\<close>): the invariant
  says which logged events an open bracket stands for, so a successful end is preceded by its start,
  its summary and its checkpoint without a gap.
\<close>

section \<open>One step of an open bracket\<close>

lemma advance_open_cases:
  assumes "advance_open_compaction env p e opened a = Inr o'"
  obtains (summary) y z where "event_kind e = CompactionSummary y" and "open_phase opened = PhaseStarted"
      and "event_is_immediately_after (event_seq e) (open_start_seq opened)"
      and "summary_compaction_id y = open_compaction_id opened"
      and "summary_source_command_id y = open_source_command_id opened"
      and "o' = Some (opened\<lparr>open_phase := PhaseSummarized z\<rparr>)" and "summarized_seq z = event_seq e"
      and "summarized_range z = summary_shadowed_range y"
      and "summarized_shadowed_seqs z = summary_shadowed_seqs y"
  | (checkpoint) m z where "event_kind e = UserMessage m" and "open_phase opened = PhaseSummarized z"
      and "event_is_immediately_after (event_seq e) (summarized_seq z)"
      and "event_surface_op e = Some (SurfaceReplace (range_start (summarized_range z)) (range_end (summarized_range z)))"
      and "event_sources e = Some (open_start_seq opened # summarized_seq z # summarized_shadowed_seqs z)"
      and "o' = Some (opened\<lparr>open_phase := PhaseReplaced (summarized_seq z) (event_seq e), open_recipe := None\<rparr>)"
  | (finish) x where "event_kind e = CompactionEnd x" and "o' = None"
      and "end_compaction_id x = open_compaction_id opened"
      and "end_source_command_id x = open_source_command_id opened" and "end_turn x = open_owner opened"
      and "event_is_immediately_after (event_seq e) (phase_seq (open_start_seq opened) (open_phase opened))"
      and "end_error x = None \<Longrightarrow> is_replaced (open_phase opened)"
proof (cases "event_kind e")
  case (CompactionSummary y)
  with assms show ?thesis
    by (auto simp: advance_open_compaction_def advance_summary_def validate_compaction_identity_def
        and_then_Inr split: if_splits intro: summary)
next
  case (UserMessage m)
  with assms have adv: "advance_checkpoint env p e m opened = Inr o'"
    by (simp add: advance_open_compaction_def Let_def split: if_splits)
  then obtain z where z: "open_phase opened = PhaseSummarized z"
    by (cases "open_phase opened") (simp_all add: advance_checkpoint_def)
  with adv have "event_is_immediately_after (event_seq e) (summarized_seq z)"
    and v: "validate_checkpoint_replacement env e m opened z"
    and "o' = Some (opened\<lparr>open_phase := PhaseReplaced (summarized_seq z) (event_seq e), open_recipe := None\<rparr>)"
    by (auto simp: advance_checkpoint_def and_then_Inr split: if_splits)
  moreover from v have "event_surface_op e
        = Some (SurfaceReplace (range_start (summarized_range z)) (range_end (summarized_range z)))"
    and "event_sources e = Some (open_start_seq opened # summarized_seq z # summarized_shadowed_seqs z)"
    by (auto simp: validate_checkpoint_replacement_def split: option.splits SurfaceOp.splits)
  ultimately show ?thesis using UserMessage z by (intro checkpoint)
next
  case (CompactionEnd x)
  with assms show ?thesis
    by (auto simp: advance_open_compaction_def advance_end_def validate_compaction_identity_def and_then_Inr
        Let_def split: if_splits intro: finish)
qed (use assms in \<open>simp_all add: advance_open_compaction_def Let_def\<close>)

text \<open>With no bracket open only a start opens one.\<close>

lemma outside_compaction_open:
  assumes "outside_compaction env p e a b c = Inr c'" and "open_compaction c = None"
  shows "(open_compaction c' = None \<and> (\<forall>x. event_kind e \<noteq> CompactionEnd x))
    \<or> (\<exists>s opened. event_kind e = CompactionStart s \<and> open_compaction c' = Some opened
         \<and> open_compaction_id opened = start_compaction_id s
         \<and> open_source_command_id opened = start_source_command_id s \<and> open_owner opened = start_turn s
         \<and> open_start_seq opened = event_seq e \<and> open_phase opened = PhaseStarted)"
  using assms
  by (cases "event_kind e")
    (auto simp: outside_compaction_def validate_compaction_start_def and_then_Inr split: if_splits)

text \<open>The bracket after an event, in replay.\<close>

definition bracket_step :: "CompactionState \<Rightarrow> SessionEvent \<Rightarrow> CompactionState \<Rightarrow> session_env
    \<Rightarrow> 'a Projection_scheme \<Rightarrow> bool" where
  "bracket_step c e c' env p \<longleftrightarrow>
     (event_kind e = EndSeed \<and> open_compaction c' = None)
   \<or> (\<exists>opened. open_compaction c = Some opened
        \<and> advance_open_compaction env p e opened CompatibilityReplay = Inr (open_compaction c'))
   \<or> (open_compaction c = None \<and> open_compaction c' = None \<and> (\<forall>x. event_kind e \<noteq> CompactionEnd x))
   \<or> (open_compaction c = None \<and> (\<exists>s opened. event_kind e = CompactionStart s
         \<and> open_compaction c' = Some opened \<and> open_compaction_id opened = start_compaction_id s
         \<and> open_source_command_id opened = start_source_command_id s \<and> open_owner opened = start_turn s
         \<and> open_start_seq opened = event_seq e \<and> open_phase opened = PhaseStarted))"

lemma next_compaction_step:
  assumes "next_compaction_state env p e CompatibilityReplay = Inr c'"
  shows "bracket_step (compaction p) e c' env p"
proof (cases "policy p = MemoryCompatible \<and> event_kind e = EndSeed")
  case True
  with assms show ?thesis
    by (auto simp: next_compaction_state_def is_unprivileged_durable_def compaction_closed_def bracket_step_def)
next
  case False
  with assms have adv: "advance_compaction env p e CompatibilityReplay = Inr c'"
    by (auto simp: next_compaction_state_def is_unprivileged_durable_def Let_def split: if_splits)
  show ?thesis
  proof (cases "open_compaction (compaction p)")
    case (Some opened)
    with advance_compaction_open [OF adv this] show ?thesis by (simp add: bracket_step_def)
  next
    case None
    from adv obtain c0 b c1 where adj: "apply_prune_adjacency (compaction p) e = Inr (c0, b)"
      and out: "(case open_compaction c0 of
         Some opened \<Rightarrow> and_then (advance_open_compaction env p e opened CompatibilityReplay) (\<lambda>next.
           Inr (c0\<lparr>open_compaction := next\<rparr>))
       | None \<Rightarrow> outside_compaction env p e CompatibilityReplay b c0) = Inr c1"
      and c': "open_compaction c' = open_compaction c1"
      by (auto simp: advance_compaction_def advance_surface_generation_def and_then_Inr split: if_splits)
    from prune_adjacency_open [OF adj] None have "open_compaction c0 = None" by simp
    with out outside_compaction_open [of env p e CompatibilityReplay b c0 c1] c' None show ?thesis
      by (auto simp: bracket_step_def)
  qed
qed

section \<open>The events of a bracket\<close>

definition logged_start :: "SessionEvent list \<Rightarrow> nat \<Rightarrow> CompactionId \<Rightarrow> string option \<Rightarrow> TurnId option \<Rightarrow> bool" where
  "logged_start h k i command owner \<longleftrightarrow> k < length h \<and> (\<exists>s. event_kind (h ! k) = CompactionStart s
     \<and> start_compaction_id s = i \<and> start_source_command_id s = command \<and> start_turn s = owner)"

definition logged_summary :: "SessionEvent list \<Rightarrow> nat \<Rightarrow> CompactionId \<Rightarrow> string option \<Rightarrow> CompactionRange
    \<Rightarrow> EventSeq list \<Rightarrow> bool" where
  "logged_summary h k i command rg seqs \<longleftrightarrow> k < length h \<and> (\<exists>y. event_kind (h ! k) = CompactionSummary y
     \<and> summary_compaction_id y = i \<and> summary_source_command_id y = command
     \<and> summary_shadowed_range y = rg \<and> summary_shadowed_seqs y = seqs)"

text \<open>The checkpoint after the start at \<open>k\<close> and the summary at \<open>k + 1\<close> replaces the range and cites
  both events and every node it hides.\<close>

definition logged_checkpoint :: "SessionEvent list \<Rightarrow> nat \<Rightarrow> CompactionRange \<Rightarrow> EventSeq list \<Rightarrow> bool" where
  "logged_checkpoint h k rg seqs \<longleftrightarrow> k + 2 < length h
     \<and> (\<exists>m. event_kind (h ! (k + 2)) = UserMessage m)
     \<and> event_surface_op (h ! (k + 2)) = Some (SurfaceReplace (range_start rg) (range_end rg))
     \<and> event_sources (h ! (k + 2)) = Some (of_nat k # of_nat (k + 1) # seqs)"

definition whole_bracket :: "SessionEvent list \<Rightarrow> nat \<Rightarrow> CompactionId \<Rightarrow> string option \<Rightarrow> TurnId option \<Rightarrow> bool" where
  "whole_bracket h k i command owner \<longleftrightarrow> logged_start h k i command owner
     \<and> (\<exists>rg seqs. logged_summary h (k + 1) i command rg seqs \<and> logged_checkpoint h k rg seqs)"

definition phase_logged :: "SessionEvent list \<Rightarrow> nat \<Rightarrow> OpenCompaction \<Rightarrow> bool" where
  "phase_logged h k opened \<longleftrightarrow> (case open_phase opened of
       PhaseStarted \<Rightarrow> True
     | PhaseSummarized z \<Rightarrow> summarized_seq z = of_nat (k + 1)
         \<and> logged_summary h (k + 1) (open_compaction_id opened) (open_source_command_id opened)
             (summarized_range z) (summarized_shadowed_seqs z)
     | PhaseReplaced _ checkpoint \<Rightarrow> checkpoint = of_nat (k + 2)
         \<and> whole_bracket h k (open_compaction_id opened) (open_source_command_id opened) (open_owner opened))"

definition bracket_logged :: "SessionEvent list \<Rightarrow> OpenCompaction \<Rightarrow> bool" where
  "bracket_logged h opened \<longleftrightarrow> (\<exists>k. open_start_seq opened = of_nat k
     \<and> logged_start h k (open_compaction_id opened) (open_source_command_id opened) (open_owner opened)
     \<and> phase_logged h k opened)"

definition ends_closed :: "SessionEvent list \<Rightarrow> bool" where
  "ends_closed h \<longleftrightarrow> (\<forall>n x. n < length h \<longrightarrow> event_kind (h ! n) = CompactionEnd x \<longrightarrow> end_error x = None \<longrightarrow>
     3 \<le> n \<and> whole_bracket h (n - 3) (end_compaction_id x) (end_source_command_id x) (end_turn x))"

definition brackets_sound :: "SessionEvent list \<Rightarrow> 'a Projection_scheme \<Rightarrow> bool" where
  "brackets_sound h p \<longleftrightarrow> ends_closed h
     \<and> (\<forall>opened. open_compaction (compaction p) = Some opened \<longrightarrow> bracket_logged h opened)"

lemma logged_snoc:
  "logged_start h k i command owner \<Longrightarrow> logged_start (h @ [e]) k i command owner"
  "logged_summary h k i command rg seqs \<Longrightarrow> logged_summary (h @ [e]) k i command rg seqs"
  "logged_checkpoint h k rg seqs \<Longrightarrow> logged_checkpoint (h @ [e]) k rg seqs"
  by (simp_all add: logged_start_def logged_summary_def logged_checkpoint_def nth_append)

lemma whole_bracket_snoc:
  "whole_bracket h k i command owner \<Longrightarrow> whole_bracket (h @ [e]) k i command owner"
  by (auto simp: whole_bracket_def intro: logged_snoc)

lemma immediately_after:
  assumes "event_is_immediately_after (of_nat n) (of_nat j)" and "n \<le> MAX_SESSION_EVENTS" and "j \<le> n"
  shows "n = Suc j"
proof -
  from assms(1) have "unat (of_nat n :: u64) = unat (of_nat j :: u64) + 1"
    by (auto simp: event_is_immediately_after_def dest!: checked_add_Some)
  with assms(2,3) small_index [of n] small_index [of j] show ?thesis by simp
qed

text \<open>An end that is not successful, or another event, closes nothing.\<close>

lemma ends_closed_snoc:
  assumes "ends_closed h"
    and "\<And>x. event_kind e = CompactionEnd x \<Longrightarrow> end_error x = None \<Longrightarrow> 3 \<le> length h
      \<and> whole_bracket h (length h - 3) (end_compaction_id x) (end_source_command_id x) (end_turn x)"
  shows "ends_closed (h @ [e])"
  using assms unfolding ends_closed_def
  by (auto simp: nth_append less_Suc_eq intro: whole_bracket_snoc)

lemma advance_bracket_logged:
  assumes inv: "bracket_logged h opened" and adv: "advance_open_compaction env p e opened a = Inr o'"
    and seq: "event_seq e = of_nat (length h)" and small: "length h \<le> MAX_SESSION_EVENTS"
  shows "(\<forall>opened'. o' = Some opened' \<longrightarrow> bracket_logged (h @ [e]) opened')
    \<and> (\<forall>x. event_kind e = CompactionEnd x \<longrightarrow> end_error x = None \<longrightarrow> 3 \<le> length h
      \<and> whole_bracket h (length h - 3) (end_compaction_id x) (end_source_command_id x) (end_turn x))"
proof -
  from inv obtain k where k: "open_start_seq opened = of_nat k"
    and start: "logged_start h k (open_compaction_id opened) (open_source_command_id opened) (open_owner opened)"
    and phase: "phase_logged h k opened"
    by (auto simp: bracket_logged_def)
  from start have less: "k < length h" by (simp add: logged_start_def)
  note after = immediately_after [OF _ small]
  from adv show ?thesis
  proof (cases rule: advance_open_cases)
    case (summary y z)
    with k seq have "length h = Suc k" using after [of k] less by simp
    then have "event_kind ((h @ [e]) ! Suc k) = CompactionSummary y"
      using summary(1) by (metis nth_append_length)
    with \<open>length h = Suc k\<close> summary seq start k
    have "bracket_logged (h @ [e]) (opened\<lparr>open_phase := PhaseSummarized z\<rparr>)"
      by (auto simp: bracket_logged_def phase_logged_def logged_summary_def
          intro!: exI [of _ k] logged_snoc(1))
    with summary show ?thesis by simp
  next
    case (checkpoint m z)
    with phase have z: "summarized_seq z = of_nat (k + 1)"
      and y: "logged_summary h (k + 1) (open_compaction_id opened) (open_source_command_id opened)
             (summarized_range z) (summarized_shadowed_seqs z)"
      by (simp_all add: phase_logged_def)
    from checkpoint(3) z seq y have len: "length h = k + 2"
      using after [of "k + 1"] by (simp add: logged_summary_def)
    have "(h @ [e]) ! (k + 2) = e" using len by (metis nth_append_length)
    with len have "logged_checkpoint (h @ [e]) k (summarized_range z) (summarized_shadowed_seqs z)"
      using checkpoint k z unfolding logged_checkpoint_def by simp
    with logged_snoc(2) [OF y] logged_snoc(1) [OF start]
    have "whole_bracket (h @ [e]) k (open_compaction_id opened) (open_source_command_id opened) (open_owner opened)"
      by (auto simp: whole_bracket_def)
    with logged_snoc(1) [OF start] have "bracket_logged (h @ [e])
        (opened\<lparr>open_phase := PhaseReplaced (summarized_seq z) (event_seq e), open_recipe := None\<rparr>)"
      using k seq len by (auto simp: bracket_logged_def phase_logged_def intro!: exI [of _ k])
    with checkpoint show ?thesis by simp
  next
    case (finish x)
    have "3 \<le> length h \<and> whole_bracket h (length h - 3) (end_compaction_id x) (end_source_command_id x) (end_turn x)"
      if "end_error x = None"
    proof -
      from finish(7) [OF that] obtain a' b' where r: "open_phase opened = PhaseReplaced a' b'"
        by (cases "open_phase opened") simp_all
      with phase have b': "b' = of_nat (k + 2)" and whole: "whole_bracket h k (open_compaction_id opened)
          (open_source_command_id opened) (open_owner opened)"
        by (simp_all add: phase_logged_def)
      from whole have "k + 2 < length h" by (auto simp: whole_bracket_def logged_checkpoint_def)
      then have "length h = k + 3" using finish(6) r b' seq after [of "k + 2"] by simp
      with whole finish show ?thesis by simp
    qed
    with finish show ?thesis by simp
  qed
qed

lemma brackets_sound_step:
  assumes inv: "brackets_sound h p" and step: "bracket_step (compaction p) e (compaction q) env p'"
    and seq: "event_seq e = of_nat (length h)" and small: "length h \<le> MAX_SESSION_EVENTS"
  shows "brackets_sound (h @ [e]) q"
  using step unfolding bracket_step_def
proof (elim disjE)
  assume "event_kind e = EndSeed \<and> open_compaction (compaction q) = None"
  with inv show ?thesis by (auto simp: brackets_sound_def intro!: ends_closed_snoc)
next
  assume "\<exists>opened. open_compaction (compaction p) = Some opened
        \<and> advance_open_compaction env p' e opened CompatibilityReplay = Inr (open_compaction (compaction q))"
  with inv advance_bracket_logged [OF _ _ seq small] show ?thesis
    unfolding brackets_sound_def by (metis ends_closed_snoc)
next
  assume "open_compaction (compaction p) = None \<and> open_compaction (compaction q) = None
     \<and> (\<forall>x. event_kind e \<noteq> CompactionEnd x)"
  with inv show ?thesis by (auto simp: brackets_sound_def intro!: ends_closed_snoc)
next
  assume "open_compaction (compaction p) = None \<and> (\<exists>s opened. event_kind e = CompactionStart s
         \<and> open_compaction (compaction q) = Some opened \<and> open_compaction_id opened = start_compaction_id s
         \<and> open_source_command_id opened = start_source_command_id s \<and> open_owner opened = start_turn s
         \<and> open_start_seq opened = event_seq e \<and> open_phase opened = PhaseStarted)"
  then obtain s opened where o': "open_compaction (compaction q) = Some opened"
    and e: "event_kind e = CompactionStart s" and "open_compaction_id opened = start_compaction_id s"
         "open_source_command_id opened = start_source_command_id s" "open_owner opened = start_turn s"
         "open_start_seq opened = event_seq e" "open_phase opened = PhaseStarted"
    by blast
  then have "bracket_logged (h @ [e]) opened"
    using seq by (auto simp: bracket_logged_def logged_start_def phase_logged_def intro!: exI [of _ "length h"])
  with inv o' e show ?thesis by (auto simp: brackets_sound_def intro!: ends_closed_snoc)
qed

lemma replay_step_bracket:
  fixes p :: "'a Projection_scheme"
  assumes "replay_step env p n e = Inr q"
  obtains p0 :: "'a Projection_scheme" where "bracket_step (compaction p) e (compaction q) env p0" and "event_seq e = of_nat n"
proof -
  from assms obtain p0 where seq: "event_seq e = of_nat n" and goal: "apply_goal_transition p e = Inr p0"
    and ev: "apply_event env CompatibilityReplay BindMemory p0 e = Inr q"
    by (rule replay_step_cases)
  from next_compaction_step [OF apply_event_bracket(1) [OF ev]] apply_goal_transition_same(5) [OF goal]
  have "bracket_step (compaction p) e (compaction q) env p0" by simp
  with seq that show thesis by blast
qed

interpretation bracketing: history_keeps "replay_step env" "replay_from env"
  "\<lambda>h p. length h \<le> MAX_SESSION_EVENTS \<longrightarrow> brackets_sound h p" for env
  by unfold_locales (auto elim!: replay_step_bracket intro: brackets_sound_step)

text \<open>C37
  In a session that replays, a compaction that ends without an error is an unbroken bracket: the
  three events before the end are its start, its summary and its checkpoint, under the same id,
  source command and owning turn, and the checkpoint replaces the summarised range and cites the
  start, the summary and every node it hides.\<close>

theorem replay_brackets_closed:
  assumes "replay_projection env es sid = Inr p" and "n < length es"
    and "event_kind (es ! n) = CompactionEnd x" and "end_error x = None"
  shows "3 \<le> n \<and> whole_bracket es (n - 3) (end_compaction_id x) (end_source_command_id x) (end_turn x)"
proof -
  obtain p0 where p0: "p0 = projection_empty MemoryCompatible\<lparr>session_id := sid\<rparr>"
    and run: "replay_from env p0 0 es = Inr p" and len: "length es \<le> MAX_SESSION_EVENTS"
    using assms(1) by (rule replay_projection_cases)
  have "length ([] :: SessionEvent list) \<le> MAX_SESSION_EVENTS \<longrightarrow> brackets_sound [] p0"
    by (simp add: p0 projection_empty_def brackets_sound_def ends_closed_def compaction_default_def)
  from bracketing.from_start [OF this run] len have "ends_closed es" by (simp add: brackets_sound_def)
  with assms(2-4) show ?thesis by (simp add: ends_closed_def)
qed

text \<open>A message, and a compaction of it.\<close>

definition bracket_checkpoint :: Message where
  "bracket_checkpoint = sample_checkpoint\<lparr>message_source := \<lparr>source_kind = SourcePlugin ''compact'' None None None,
     source_raw = JObj [(''kind'', JStr ''plugin''), (''plugin'', JStr ''compact''),
       (''compactionId'', JStr ''c'')]\<rparr>\<rparr>"

definition bracket_summary :: CompactionSummaryEvent where
  "bracket_summary = sample_summary\<lparr>summary_source_command_id := None\<rparr>"

definition bracket_end :: CompactionEndEvent where
  "bracket_end = \<lparr>end_compaction_id = ''c'', end_source_command_id = None, end_turn = None, end_error = None\<rparr>"

definition sample_bracket :: "SessionEvent list" where
  "sample_bracket = [shown_event 0 ''a'' SurfaceAppend None,
     plain_event 1 (CompactionStart \<lparr>start_compaction_id = ''c'', start_source_command_id = None,
       start_turn = None, start_dispatch = None\<rparr>),
     plain_event 2 (CompactionSummary bracket_summary),
     (plain_event 3 (UserMessage bracket_checkpoint))
       \<lparr>event_surface_op := Some (SurfaceReplace 0 0), event_sources := Some [1, 2, 0]\<rparr>,
     plain_event 4 (CompactionEnd bracket_end)]"

lemma bracket_estimate: "\<exists>t. estimate_message replay_env bracket_checkpoint = Inr t \<and> t < 1000"
  using checkpoint_estimate by (simp add: bracket_checkpoint_def estimate_message_def)

lemma bracket_summary_valid: "summary_validate replay_env bracket_summary = Inr ()"
proof -
  have "trim ''b'' = ''b''" by (rule trim_graphic) (simp_all add: is_ascii_graphic_def)
  moreover have "json_values_equal replay_env (text_json ''b'') (text_json ''b'')"
    by (simp add: json_values_equal_def text_json_def MAX_JSON_DEPTH_def numeral_eq_Suc)
  ultimately show ?thesis
    by (simp add: summary_validate_def bracket_summary_def sample_summary_def compaction_id_validate_def
        validate_bounded_identity_def bounded_identity_def validate_source_command_id_def text_content_def
        MAX_MESSAGE_CONTENT_BLOCKS_def raw_output_validate_def block_equal_def validate_shadowed_def
        MAX_COMPACTION_SHADOWED_SEQS_def MAX_SOURCE_EVENT_SEQS_def validate_route_def)
qed

lemma sample_bracket_replays: "\<exists>p. replay_projection replay_env sample_bracket None = Inr p"
proof -
  obtain t where t: "estimate_message replay_env bracket_checkpoint = Inr t" "unat t < 1000"
    using bracket_estimate by (auto simp: word_less_nat_alt)
  have "json_values_equal replay_env (text_json ''b'') (text_json ''b'')"
    by (simp add: json_values_equal_def text_json_def MAX_JSON_DEPTH_def numeral_eq_Suc)
  then have content: "checkpoint_content_matches replay_env (message_content bracket_checkpoint) [text_json ''b'']"
    by (simp add: bracket_checkpoint_def sample_checkpoint_def
        checkpoint_content_matches_def canonical_text_block_matches_def text_content_def
        get_str_def) (simp add: text_json_def get_str_def)
  have fields: "source_kind (message_source bracket_checkpoint) = SourcePlugin ''compact'' None None None"
    "message_content bracket_checkpoint \<noteq> []" "message_surface_credit bracket_checkpoint = Some 100"
    "message_role bracket_checkpoint = User"
    "source_raw (message_source bracket_checkpoint) = JObj [(''kind'', JStr ''plugin''),
       (''plugin'', JStr ''compact''), (''compactionId'', JStr ''c'')]"
    by (simp_all add: bracket_checkpoint_def sample_checkpoint_def)
  have summary: "summary_compaction_id bracket_summary = ''c''" "summary_source_command_id bracket_summary = None"
    "summary_shadowed_range bracket_summary = \<lparr>range_start = 0, range_end = 0\<rparr>"
    "summary_shadowed_seqs bracket_summary = [0]" "map block_raw (summary_blocks bracket_summary) = [text_json ''b'']"
    by (simp_all add: bracket_summary_def sample_summary_def text_content_def)
  show ?thesis
    using t content
    by (simp add: sample_bracket_def replay_eval surface_eval summary bracket_summary_valid fields start_validate_def
        compaction_id_validate_def validate_bounded_identity_def bounded_identity_def validate_source_command_id_def
        validate_compaction_start_def start_recipe_def advance_open_compaction_def advance_summary_def
        validate_compaction_identity_def event_is_immediately_after_def require_dispatch_def
        surface_range_matches_def surface_range_indices_def advance_checkpoint_def
        validate_checkpoint_replacement_def checkpoint_source_matches_def get_str_def end_validate_def
        advance_end_def bracket_end_def) (simp add: word_le_nat_alt)
qed

theorem replay_brackets_closed_witness:
  "\<exists>p. replay_projection replay_env sample_bracket None = Inr p \<and> whole_bracket sample_bracket 1 ''c'' None None"
proof -
  obtain p where p: "replay_projection replay_env sample_bracket None = Inr p"
    using sample_bracket_replays by (elim exE)
  have "4 < length sample_bracket" "event_kind (sample_bracket ! 4) = CompactionEnd bracket_end"
    "end_error bracket_end = None"
    by (simp_all add: sample_bracket_def plain_event_def bracket_end_def)
  from replay_brackets_closed [OF p this] p show ?thesis by (simp add: bracket_end_def)
qed

end
