(* ===== verification/Durable_Steps.thy ===== *)
theory Durable_Steps
  imports Replay_Surface
begin

text \<open>
  The tool calls of a strict session (\<open>src/session/projection.rs\<close>): the calls that an assistant
  message declares, their intents, approvals and results, as an invariant of every accepted event;
  and the rewriting of a tool result, which keeps its identity.
\<close>

section \<open>The invariant\<close>

definition running :: "DurableDeclaredCall \<Rightarrow> bool" where
  "running c \<longleftrightarrow> declared_intent_seq c \<noteq> None \<and> \<not> declared_result_seen c"

fun waiting_for :: "DurableApproval option \<Rightarrow> ApprovalRequestId option" where
  "waiting_for (Some (ApprovalPending i)) = Some i"
| "waiting_for _ = None"

text \<open>Intents are given in the order of declaration.\<close>

definition intents_in_order :: "DurableDeclaredCall list \<Rightarrow> bool" where
  "intents_in_order = sorted_wrt (\<lambda>c d. awaits_intent c \<longrightarrow> declared_intent_seq d = None)"

definition calls_ok :: "DurableDeclaredCall list \<Rightarrow> call_id list \<Rightarrow> ApprovalRequestId list \<Rightarrow> bool" where
  "calls_ok calls pending approvals \<longleftrightarrow> distinct (map declared_id calls)
     \<and> length calls \<le> MAX_DURABLE_TOOL_CALLS_PER_STEP \<and> intents_in_order calls
     \<and> pending = map declared_id (filter running calls)
     \<and> approvals = List.map_filter (\<lambda>c. waiting_for (declared_approval c)) calls \<and> length approvals \<le> 1
     \<and> (\<forall>c \<in> set calls. declared_approval c \<noteq> None \<longrightarrow> declared_intent_seq c \<noteq> None)
     \<and> (\<forall>c \<in> set calls. waiting_for (declared_approval c) \<noteq> None \<longrightarrow> \<not> declared_result_seen c)"

lemma calls_okD:
  assumes "calls_ok calls pending approvals"
  shows "distinct (map declared_id calls)" and "length calls \<le> MAX_DURABLE_TOOL_CALLS_PER_STEP"
    and "intents_in_order calls" and "pending = map declared_id (filter running calls)"
    and "approvals = List.map_filter (\<lambda>c. waiting_for (declared_approval c)) calls" and "length approvals \<le> 1"
    and "\<And>c. c \<in> set calls \<Longrightarrow> declared_approval c \<noteq> None \<Longrightarrow> declared_intent_seq c \<noteq> None"
    and "\<And>c. c \<in> set calls \<Longrightarrow> waiting_for (declared_approval c) \<noteq> None \<Longrightarrow> \<not> declared_result_seen c"
  using assms unfolding calls_ok_def by blast+

lemma calls_okI:
  assumes "distinct (map declared_id calls)" and "length calls \<le> MAX_DURABLE_TOOL_CALLS_PER_STEP"
    and "intents_in_order calls" and "map declared_id (filter running calls) = pending"
    and "List.map_filter (\<lambda>c. waiting_for (declared_approval c)) calls = approvals" and "length approvals \<le> 1"
    and "\<And>c. c \<in> set calls \<Longrightarrow> declared_approval c \<noteq> None \<Longrightarrow> declared_intent_seq c \<noteq> None"
    and "\<And>c. c \<in> set calls \<Longrightarrow> waiting_for (declared_approval c) \<noteq> None \<Longrightarrow> \<not> declared_result_seen c"
  shows "calls_ok calls pending approvals"
  using assms unfolding calls_ok_def by blast

definition strict_ok :: "'a Projection_scheme \<Rightarrow> bool" where
  "strict_ok p \<longleftrightarrow> (policy p = DurableStrict \<longrightarrow> (case boundary p of
       BoundaryStep s \<Rightarrow> calls_ok (step_declared_calls s) (step_pending_calls s) (pending_approvals p)
     | _ \<Rightarrow> pending_approvals p = []))"

lemma strict_ok_same_turns: "same_turns p q \<Longrightarrow> strict_ok p \<Longrightarrow> strict_ok q"
  by (simp add: strict_ok_def same_turns_def cong: Boundary.case_cong)

section \<open>Updating one call\<close>

lemma update_first_split:
  assumes "List.find P xs = Some x"
  obtains as bs where "xs = as @ x # bs" and "update_first P f xs = as @ f x # bs" and "P x"
    and "\<forall>y \<in> set as. \<not> P y"
  using assms
proof (induction xs arbitrary: thesis)
  case (Cons y ys)
  show ?case
  proof (cases "P y")
    case True
    with Cons.prems show ?thesis by (intro Cons.prems(1) [of "[]" ys]) auto
  next
    case False
    with Cons.prems(2) obtain as bs where "ys = as @ x # bs" "update_first P f ys = as @ f x # bs" "P x"
      "\<forall>z \<in> set as. \<not> P z"
      using Cons.IH by auto
    with False show ?thesis by (intro Cons.prems(1) [of "y # as" bs]) auto
  qed
qed simp

lemma map_filter_append: "List.map_filter f (xs @ ys) = List.map_filter f xs @ List.map_filter f ys"
  by (simp add: List.map_filter_def)

lemma map_filter_Cons: "List.map_filter f (x # xs)
    = (case f x of None \<Rightarrow> List.map_filter f xs | Some y \<Rightarrow> y # List.map_filter f xs)"
  by (simp add: List.map_filter_def split: option.splits)

lemma map_filter_Nil_iff: "List.map_filter f xs = [] \<longleftrightarrow> (\<forall>x \<in> set xs. f x = None)"
  by (auto simp: List.map_filter_def filter_empty_conv)

lemma intents_in_order_update:
  "intents_in_order (as @ c # bs) \<Longrightarrow> (awaits_intent c' \<Longrightarrow> awaits_intent c)
    \<Longrightarrow> declared_intent_seq c' = declared_intent_seq c \<Longrightarrow> intents_in_order (as @ c' # bs)"
  by (auto simp: intents_in_order_def sorted_wrt_append)

text \<open>Declaring a call.\<close>

lemma calls_ok_declare:
  assumes "calls_ok calls pending approvals" and "\<not> list_ex (\<lambda>c. declared_id c = declared_id d) calls"
    and "length calls < MAX_DURABLE_TOOL_CALLS_PER_STEP"
    and "declared_intent_seq d = None" and "declared_approval d = None"
  shows "calls_ok (calls @ [d]) pending approvals"
  using assms
  by (auto simp: calls_ok_def intents_in_order_def sorted_wrt_append list_ex_iff running_def
      map_filter_append map_filter_Cons)

lemma register_declarations_ok:
  "register_declarations m index bs calls = Inr calls' \<Longrightarrow> calls_ok calls pending approvals
    \<Longrightarrow> calls_ok calls' pending approvals"
proof (induction m index bs calls rule: register_declarations.induct)
  case (2 m index b bs declared)
  show ?case
  proof (cases "block_kind b")
    case (ToolCallBlock i name arguments)
    with 2 show ?thesis
      by (fastforce simp: and_then_Inr not_le split: if_splits intro: calls_ok_declare)
  qed (use 2 in auto)
qed simp

text \<open>An intent goes to the first call that awaits one.\<close>

lemma calls_ok_intent:
  assumes ok: "calls_ok calls pending approvals" and "List.find awaits_intent calls = Some c"
  shows "calls_ok (update_first awaits_intent (\<lambda>c. c\<lparr>declared_intent_seq := Some n\<rparr>) calls)
      (if declared_id c \<in> set pending then pending else pending @ [declared_id c]) approvals"
proof -
  let ?f = "\<lambda>c. c\<lparr>declared_intent_seq := Some n\<rparr>"
  obtain as bs where split: "calls = as @ c # bs" "update_first awaits_intent ?f calls = as @ ?f c # bs"
    and c: "awaits_intent c" and before: "\<forall>d \<in> set as. \<not> awaits_intent d"
    using assms(2) by (rule update_first_split [where f = ?f])
  from ok split(1) c have after: "\<forall>d \<in> set bs. declared_intent_seq d = None"
    by (auto simp: calls_ok_def intents_in_order_def sorted_wrt_append)
  then have none: "filter running bs = []" by (auto simp: running_def filter_empty_conv)
  from ok split(1) c none have pending: "pending = map declared_id (filter running as)"
    by (simp add: calls_ok_def running_def awaits_intent_def)
  have "declared_id c \<notin> set pending"
    using ok split(1) pending by (auto simp: calls_ok_def)
  with ok split c before none pending after show ?thesis
    by (auto simp: calls_ok_def intents_in_order_def sorted_wrt_append awaits_intent_def running_def
        map_filter_append map_filter_Cons split: option.splits)
qed

text \<open>A result marks its call and takes it off the pending list if it was running.\<close>

lemma calls_ok_result:
  assumes ok: "calls_ok calls pending approvals" and "List.find (\<lambda>c. declared_id c = i) calls = Some c"
    and "\<not> approval_is_pending (declared_approval c)" and "\<not> declared_result_seen c"
  shows "calls_ok (update_first (\<lambda>c. declared_id c = i) (\<lambda>c. c\<lparr>declared_result_seen := True\<rparr>) calls)
      (remove1 i pending) approvals"
proof -
  let ?f = "\<lambda>c. c\<lparr>declared_result_seen := True\<rparr>"
  obtain as bs where split: "calls = as @ c # bs"
    "update_first (\<lambda>c. declared_id c = i) ?f calls = as @ ?f c # bs" and c: "declared_id c = i"
    using assms(2) by (rule update_first_split [where f = ?f])
  from ok split(1) c have fresh: "i \<notin> declared_id ` set as" "i \<notin> declared_id ` set bs"
    by (auto simp: calls_ok_def)
  then have "i \<notin> set (map declared_id (filter running as))" "i \<notin> set (map declared_id (filter running bs))"
    by auto
  moreover from ok have "pending = map declared_id (filter running calls)" by (simp add: calls_ok_def)
  ultimately have pending: "remove1 i pending = map declared_id (filter running (as @ ?f c # bs))"
    using split(1) c by (simp add: running_def remove1_append remove1_idem)
  have waiting: "waiting_for (declared_approval c) = None"
    using assms(3) by (cases "declared_approval c" rule: waiting_for.cases) simp_all
  note okD = calls_okD [OF ok, unfolded split(1)]
  show ?thesis unfolding split(2)
  proof (rule calls_okI)
    show "intents_in_order (as @ ?f c # bs)"
      by (rule intents_in_order_update [OF okD(3)]) (simp_all add: awaits_intent_def)
    show "List.map_filter (\<lambda>c. waiting_for (declared_approval c)) (as @ ?f c # bs) = approvals"
      unfolding okD(5) by (simp add: map_filter_append map_filter_Cons)
  next
    fix d assume "d \<in> set (as @ ?f c # bs)" "waiting_for (declared_approval d) \<noteq> None"
    then show "\<not> declared_result_seen d" using okD(8) [of d] waiting by auto
  next
    fix d assume "d \<in> set (as @ ?f c # bs)" "declared_approval d \<noteq> None"
    then show "declared_intent_seq d \<noteq> None" using okD(7) [of d] okD(7) [of c] by auto
  qed (use okD(1,2,6) pending in simp_all)
qed

text \<open>Only a running call may ask for an approval, and only one may wait.\<close>

lemma calls_ok_ask:
  assumes ok: "calls_ok calls pending []" and "List.find P calls = Some c"
    and "P c \<Longrightarrow> declared_intent_seq c \<noteq> None \<and> \<not> declared_result_seen c"
  shows "calls_ok (update_first P (\<lambda>c. c\<lparr>declared_approval := Some (ApprovalPending i)\<rparr>) calls) pending [i]"
proof -
  let ?f = "\<lambda>c. c\<lparr>declared_approval := Some (ApprovalPending i)\<rparr>"
  let ?w = "List.map_filter (\<lambda>c. waiting_for (declared_approval c))"
  obtain as bs where split: "calls = as @ c # bs" "update_first P ?f calls = as @ ?f c # bs" and c: "P c"
    using assms(2) by (rule update_first_split [where f = ?f])
  note okD = calls_okD [OF ok, unfolded split(1)]
  from okD(5) [symmetric] have "?w as = []" "?w bs = []"
    by (simp_all add: map_filter_append map_filter_Cons split: option.splits)
  then have waits: "?w (as @ ?f c # bs) = [i]" by (simp add: map_filter_append map_filter_Cons)
  show ?thesis unfolding split(2)
  proof (rule calls_okI)
    show "intents_in_order (as @ ?f c # bs)"
      by (rule intents_in_order_update [OF okD(3)]) (simp_all add: awaits_intent_def)
    show "map declared_id (filter running (as @ ?f c # bs)) = pending"
      unfolding okD(4) by (simp add: running_def)
  next
    fix d assume "d \<in> set (as @ ?f c # bs)" "waiting_for (declared_approval d) \<noteq> None"
    then show "\<not> declared_result_seen d" using okD(8) [of d] assms(3) [OF c] by auto
  next
    fix d assume "d \<in> set (as @ ?f c # bs)" "declared_approval d \<noteq> None"
    then show "declared_intent_seq d \<noteq> None" using okD(7) [of d] assms(3) [OF c] by auto
  qed (use okD(1,2) waits in simp_all)
qed

lemma calls_ok_decide:
  assumes ok: "calls_ok calls pending approvals"
    and "List.find (\<lambda>c. declared_approval c = Some (ApprovalPending i)) calls = Some c"
  shows "calls_ok (update_first (\<lambda>c. declared_approval c = Some (ApprovalPending i))
      (\<lambda>c. c\<lparr>declared_approval := Some (ApprovalResolved i outcome)\<rparr>) calls) pending (remove1 i approvals)"
proof -
  let ?f = "\<lambda>c. c\<lparr>declared_approval := Some (ApprovalResolved i outcome)\<rparr>"
  let ?w = "List.map_filter (\<lambda>c. waiting_for (declared_approval c))"
  obtain as bs where split: "calls = as @ c # bs"
    "update_first (\<lambda>c. declared_approval c = Some (ApprovalPending i)) ?f calls = as @ ?f c # bs"
    and c: "declared_approval c = Some (ApprovalPending i)"
    using assms(2) by (rule update_first_split [where f = ?f])
  note okD = calls_okD [OF ok, unfolded split(1)]
  from okD(5) c have all: "approvals = ?w as @ [i] @ ?w bs" by (simp add: map_filter_append map_filter_Cons)
  with okD(6) have "length (?w as @ [i] @ ?w bs) \<le> 1" by simp
  then have empty: "?w as = []" "?w bs = []" by simp_all
  then have waits: "?w (as @ ?f c # bs) = []" by (simp add: map_filter_append map_filter_Cons)
  from all empty have "remove1 i approvals = []" by simp
  then show ?thesis unfolding split(2)
  proof (elim ssubst, intro calls_okI)
    show "intents_in_order (as @ ?f c # bs)"
      by (rule intents_in_order_update [OF okD(3)]) (simp_all add: awaits_intent_def)
    show "map declared_id (filter running (as @ ?f c # bs)) = pending"
      unfolding okD(4) by (simp add: running_def)
  next
    fix d assume "d \<in> set (as @ ?f c # bs)" "waiting_for (declared_approval d) \<noteq> None"
    then show "\<not> declared_result_seen d" using okD(8) [of d] by auto
  next
    fix d assume "d \<in> set (as @ ?f c # bs)" "declared_approval d \<noteq> None"
    then show "declared_intent_seq d \<noteq> None" using okD(7) [of d] okD(7) [of c] c by auto
  qed (use okD(1,2) waits in simp_all)
qed

section \<open>Every operation keeps the invariant\<close>

lemma strict_ok_step: "boundary p = BoundaryStep s \<Longrightarrow> policy p = DurableStrict \<Longrightarrow>
    strict_ok p = calls_ok (step_declared_calls s) (step_pending_calls s) (pending_approvals p)"
  by (simp add: strict_ok_def)

lemma turn_ops_strict_ok:
  "strict_ok p \<Longrightarrow> apply_turn_start p t = Inr q \<Longrightarrow> strict_ok q"
  "apply_turn_end p t = Inr q \<Longrightarrow> strict_ok q"
  "strict_ok p \<Longrightarrow> apply_step_start p t s = Inr q \<Longrightarrow> strict_ok q"
  "apply_step_end p t s = Inr q \<Longrightarrow> strict_ok q"
  by (auto simp: turn_ops result_simps strict_ok_def open_turn_def calls_ok_def intents_in_order_def
      List.map_filter_def split: option.splits if_splits list.splits Boundary.splits)

lemma declarations_strict_ok:
  assumes ok: "strict_ok p" and "register_durable_declarations p m = Inr q"
  shows "strict_ok q"
proof (cases "policy p = DurableStrict")
  case True
  show ?thesis
  proof (cases "boundary p")
    case (BoundaryStep s)
    with True assms(2) obtain calls where r: "register_declarations m 0 (message_content m) (step_declared_calls s) = Inr calls"
      and q: "q = p\<lparr>boundary := BoundaryStep (s\<lparr>step_declared_calls := calls\<rparr>)\<rparr>"
      by (auto simp: register_durable_declarations_def and_then_Inr)
    from ok True BoundaryStep have "calls_ok (step_declared_calls s) (step_pending_calls s) (pending_approvals p)"
      by (simp add: strict_ok_def)
    with register_declarations_ok [OF r] show ?thesis by (simp add: q strict_ok_def)
  qed (use assms True in \<open>simp_all add: register_durable_declarations_def\<close>)
qed (use assms in \<open>simp add: register_durable_declarations_def\<close>)

lemma tool_call_strict_ok:
  assumes ok: "strict_ok p" and "apply_tool_call p seq t st i name arguments = Inr q"
  shows "strict_ok q"
proof -
  from assms(2) obtain p1 where "require_open_step p ''tool/call'' t st = Inr ()"
    and promote: "promote_durable_call p seq i name arguments = Inr p1" and q: "q = push_pending_call p1 i"
    by (auto simp: apply_tool_call_def and_then_Inr)
  then obtain s where s: "boundary p = BoundaryStep s" by (auto simp: require_open_step_Inr)
  from promote show ?thesis
  proof (cases rule: promote_durable_call_cases)
    case 1
    with s have "policy p1 \<noteq> DurableStrict" by simp
    then have "policy q \<noteq> DurableStrict"
      unfolding q by (auto simp: push_pending_call_def split: Boundary.splits)
    then show ?thesis by (simp add: strict_ok_def)
  next
    case (2 s' c)
    with s have [simp]: "s' = s" by simp
    from ok 2 have "calls_ok (step_declared_calls s) (step_pending_calls s) (pending_approvals p)"
      by (simp add: strict_ok_def)
    from calls_ok_intent [OF this, of c seq] 2 show ?thesis
      by (cases "i \<in> set (step_pending_calls s)") (simp_all add: q push_pending_call_def strict_ok_def)
  qed
qed

lemma tool_result_strict_ok:
  assumes ok: "strict_ok p" and r: "apply_tool_result p e t st m err a = Inr q"
  shows "strict_ok q"
proof (cases "is_replace (event_surface_op e)")
  case True
  with ok r show ?thesis by (auto simp: apply_tool_result_def and_then_Inr)
next
  case False
  with r obtain p1 i b where resolve: "resolve_durable_call p e m err a = Inr p1"
    and i: "validate_tool_result m = Inr i" and remove: "remove_pending_call p1 t st i b = Inr q"
    by (auto simp: apply_tool_result_def and_then_Inr map_err_Inr)
  from remove have policy: "policy q = policy p1" by (cases rule: remove_pending_call_cases) auto
  from resolve show ?thesis
  proof (cases rule: resolve_durable_call_cases)
    case 1
    with policy show ?thesis by (simp add: strict_ok_def)
  next
    case (2 i' s c)
    with i have [simp]: "i' = i" by simp
    from ok 2 have "calls_ok (step_declared_calls s) (step_pending_calls s) (pending_approvals p)"
      by (simp add: strict_ok_def)
    from calls_ok_result [OF this, of i c] 2
    have kept: "calls_ok (update_first (\<lambda>c. declared_id c = i) (\<lambda>c. c\<lparr>declared_result_seen := True\<rparr>)
        (step_declared_calls s)) (remove1 i (step_pending_calls s)) (pending_approvals p)"
      by simp
    from remove show ?thesis
    proof (cases rule: remove_pending_call_cases)
      case (1 s1)
      with 2 kept show ?thesis by (auto simp: strict_ok_def)
    next
      case (2 s1)
      with \<open>p1 = _\<close> kept show ?thesis by (auto simp: strict_ok_def remove1_idem)
    qed
  qed
qed

lemma approval_asked_strict_ok:
  assumes ok: "strict_ok p" and r: "apply_approval_asked p x = Inr q"
  shows "strict_ok q"
proof (cases "policy p = DurableStrict")
  case False
  with r have "policy q \<noteq> DurableStrict"
    by (auto simp: apply_approval_asked_def ask_durable_approval_def and_then_Inr split: if_splits)
  then show ?thesis by (simp add: strict_ok_def)
next
  case True
  let ?P = "\<lambda>i c. declared_id c = i \<and> declared_intent_seq c \<noteq> None \<and> \<not> declared_result_seen c"
  from r obtain p1 where ask: "ask_durable_approval p x = Inr p1"
    and q: "q = p1\<lparr>owned_approval_ids := List.insert (asked_id x) (owned_approval_ids p1),
        pending_approvals := pending_approvals p1 @ [asked_id x]\<rparr>"
    by (auto simp: apply_approval_asked_def and_then_Inr split: if_splits)
  from True ask obtain i s c where none: "pending_approvals p = []" and s: "boundary p = BoundaryStep s"
    and c: "List.find (?P i) (step_declared_calls s) = Some c"
    and p1: "p1 = p\<lparr>boundary := BoundaryStep (s\<lparr>step_declared_calls := update_first (?P i)
        (\<lambda>c. c\<lparr>declared_approval := Some (ApprovalPending (asked_id x))\<rparr>) (step_declared_calls s)\<rparr>)\<rparr>"
    by (auto simp: ask_durable_approval_def Let_def split: list.splits option.splits Boundary.splits if_splits)
  from ok True s none have "calls_ok (step_declared_calls s) (step_pending_calls s) []"
    by (simp add: strict_ok_def)
  from calls_ok_ask [OF this c, of "asked_id x"] show ?thesis
    by (simp add: q p1 strict_ok_def none)
qed

lemma approval_decided_strict_ok:
  assumes ok: "strict_ok p" and r: "apply_approval_decided p x = Inr q"
  shows "strict_ok q"
proof (cases "policy p = DurableStrict")
  case False
  with r have "policy q \<noteq> DurableStrict"
    by (auto simp: apply_approval_decided_def decide_durable_approval_def and_then_Inr split: if_splits)
  then show ?thesis by (simp add: strict_ok_def)
next
  case True
  let ?P = "\<lambda>c. declared_approval c = Some (ApprovalPending (decided_id x))"
  from r obtain p1 where decide: "decide_durable_approval p x = Inr p1"
    and q: "q = p1\<lparr>pending_approvals := remove1 (decided_id x) (pending_approvals p1)\<rparr>"
    by (auto simp: apply_approval_decided_def and_then_Inr split: if_splits)
  from True decide obtain s c where s: "boundary p = BoundaryStep s"
    and c: "List.find ?P (step_declared_calls s) = Some c"
    and p1: "p1 = p\<lparr>boundary := BoundaryStep (s\<lparr>step_declared_calls := update_first ?P
        (\<lambda>c. c\<lparr>declared_approval := Some (ApprovalResolved (decided_id x) (decided_outcome x))\<rparr>)
        (step_declared_calls s)\<rparr>)\<rparr>"
    by (auto simp: decide_durable_approval_def Let_def split: option.splits Boundary.splits if_splits)
  from ok True s have "calls_ok (step_declared_calls s) (step_pending_calls s) (pending_approvals p)"
    by (simp add: strict_ok_def)
  from calls_ok_decide [OF this c, of "decided_outcome x"] show ?thesis
    by (simp add: q p1 strict_ok_def)
qed

lemma retry_ops_strict_ok:
  "strict_ok p \<Longrightarrow> apply_retry p r = Inr q \<Longrightarrow> strict_ok q"
  "strict_ok p \<Longrightarrow> apply_retry_started p x = Inr q \<Longrightarrow> strict_ok q"
  by (auto simp: retry_ops result_simps strict_ok_def Let_def cong: Boundary.case_cong
      split: option.splits if_splits)

lemma strict_ok_updates:
  "strict_ok (p\<lparr>standing_todos := t\<rparr>) = strict_ok p" "strict_ok (p\<lparr>plan_mode_active := b\<rparr>) = strict_ok p"
  "strict_ok (p\<lparr>permission_preset := x\<rparr>) = strict_ok p" "strict_ok (p\<lparr>session_title := y\<rparr>) = strict_ok p"
  "strict_ok (p\<lparr>session_title_llm_requested := b\<rparr>) = strict_ok p"
  "strict_ok (p\<lparr>request_header := h, request_header_seq := n\<rparr>) = strict_ok p"
  "strict_ok (p\<lparr>request_context := c, request_context_seq := n\<rparr>) = strict_ok p"
  by (simp_all add: strict_ok_def cong: Boundary.case_cong)

lemmas ops_strict_ok = turn_ops_strict_ok declarations_strict_ok tool_call_strict_ok tool_result_strict_ok
  approval_asked_strict_ok approval_decided_strict_ok retry_ops_strict_ok

lemma apply_kind_strict_ok:
  assumes "strict_ok p" and "apply_kind p e a = Inr q"
  shows "strict_ok q"
  using assms
  by (cases "event_kind e")
    (auto simp: apply_kind_def result_simps apply_assistant_message_def strict_ok_updates
      dest!: ops_strict_ok(2,4) ops_strict_ok(1,3,5-) [OF assms(1)])

lemma apply_event_strict_ok:
  assumes "strict_ok p" and "apply_event env a binding p e = Inr q"
  shows "strict_ok q"
proof -
  from assms(2) obtain r where r: "apply_transition p e a = Inr r" "same_turns r q"
    by (rule apply_event_cases)
  from r(1) obtain q0 where "apply_kind p e a = Inr q0" "same_turns q0 r"
    by (rule apply_transition_cases)
  with assms(1) r(2) show ?thesis by (blast intro: apply_kind_strict_ok strict_ok_same_turns)
qed


section \<open>Strict sessions\<close>

text \<open>A strict session as a sequence of accepted events, each with its admission and row binding.\<close>

definition append_event :: "session_env \<Rightarrow> 'a Projection_scheme
    \<Rightarrow> SessionEvent \<times> ValidationAdmission \<times> SurfaceRowBinding \<Rightarrow> EventValidationError + 'a Projection_scheme" where
  "append_event env p x = (case x of (e, a, b) \<Rightarrow> apply_event env a b p e)"

interpretation strict: keeps "append_event env" strict_ok for env
  by unfold_locales (auto simp: append_event_def intro: apply_event_strict_ok)

lemma apply_event_policy: "apply_event env a b p e = Inr q \<Longrightarrow> policy q = policy p"
  by (auto elim!: apply_event_cases simp: same_surface_def same_turns_def)

interpretation policies: keeps "append_event env" "\<lambda>p. policy p = DurableStrict" for env
  by unfold_locales (auto simp: append_event_def dest: apply_event_policy)

lemma strict_run_step:
  assumes "run (append_event env) (projection_for_session DurableStrict sid) xs = Inr p"
    and "boundary p = BoundaryStep s"
  shows "calls_ok (step_declared_calls s) (step_pending_calls s) (pending_approvals p)"
proof -
  have "strict_ok (projection_for_session DurableStrict sid)"
    "policy (projection_for_session DurableStrict sid) = DurableStrict"
    by (simp_all add: strict_ok_def projection_for_session_def projection_empty_def)
  from strict.run_keeps [OF this(1) assms(1)] policies.run_keeps [OF this(2) assms(1)] assms(2)
  show ?thesis by (simp add: strict_ok_def)
qed

text \<open>C38
  In every strict session the open step knows each declared tool call once and at most sixty-four of
  them; intents follow the order of declaration; the pending calls are exactly those with an intent
  and no result, in that order; an approval belongs to a call with an intent, at most one is
  undecided, and its call has no result yet.\<close>

theorem strict_tool_calls:
  assumes "run (append_event env) (projection_for_session DurableStrict sid) xs = Inr p"
    and "boundary p = BoundaryStep s"
  shows "distinct (map declared_id (step_declared_calls s)) \<and> length (step_declared_calls s) \<le> 64
    \<and> sorted_wrt (\<lambda>c d. awaits_intent c \<longrightarrow> declared_intent_seq d = None) (step_declared_calls s)
    \<and> step_pending_calls s = map declared_id (filter running (step_declared_calls s))
    \<and> pending_approvals p = List.map_filter (\<lambda>c. waiting_for (declared_approval c)) (step_declared_calls s)
    \<and> length (pending_approvals p) \<le> 1
    \<and> (\<forall>c \<in> set (step_declared_calls s). (declared_approval c \<noteq> None \<longrightarrow> declared_intent_seq c \<noteq> None)
         \<and> (waiting_for (declared_approval c) \<noteq> None \<longrightarrow> \<not> declared_result_seen c))"
  using calls_okD [OF strict_run_step [OF assms]]
  unfolding intents_in_order_def MAX_DURABLE_TOOL_CALLS_PER_STEP_def by blast

lemma strict_step_end:
  assumes "apply_event env a b p e = Inr q" and "policy p = DurableStrict"
    and "event_kind e = StepEnd t st"
  obtains s where "boundary p = BoundaryStep s" and "\<forall>c \<in> set (step_declared_calls s). declared_result_seen c"
    and "pending_approvals p = []"
proof -
  from assms(1) obtain r where "apply_transition p e a = Inr r" by (rule apply_event_cases)
  then obtain q0 where step: "apply_step_end p t st = Inr q0"
    using assms(3) by (auto simp: apply_transition_def apply_kind_def and_then_Inr split: if_splits)
  then obtain s where s: "boundary p = BoundaryStep s"
    by (auto simp: apply_step_end_def and_then_Inr require_open_step_Inr)
  with step assms(2) have "List.find (\<lambda>c. \<not> declared_result_seen c) (step_declared_calls s) = None"
    "pending_approvals p = []"
    by (auto simp: apply_step_end_def and_then_Inr unresolved_declaration_def split: option.splits list.splits)
  with s that show thesis by (simp add: find_None_iff)
qed

text \<open>C39
  No tool call outlives its step: when a strict session accepts the end of a step, every call that
  the step declared has its result, no call is pending and no approval is undecided.\<close>

theorem strict_step_ends_resolved:
  assumes "run (append_event env) (projection_for_session DurableStrict sid) xs = Inr p"
    and "apply_event env a b p e = Inr q" and "event_kind e = StepEnd t st"
  shows "\<exists>s. boundary p = BoundaryStep s \<and> (\<forall>c \<in> set (step_declared_calls s). declared_result_seen c)
    \<and> step_pending_calls s = [] \<and> pending_approvals p = []"
proof -
  have "policy (projection_for_session DurableStrict sid) = DurableStrict"
    by (simp add: projection_for_session_def projection_empty_def)
  from policies.run_keeps [OF this assms(1)] have "policy p = DurableStrict" .
  with assms(2) obtain s where s: "boundary p = BoundaryStep s"
    "\<forall>c \<in> set (step_declared_calls s). declared_result_seen c" "pending_approvals p = []"
    using assms(3) by (rule strict_step_end)
  have "filter running (step_declared_calls s) = []" using s(2) by (auto simp: running_def filter_empty_conv)
  with calls_okD(4) [OF strict_run_step [OF assms(1) s(1)]] s show ?thesis by simp
qed

section \<open>An example\<close>

definition declaring_message :: Message where
  "declaring_message = \<lparr>message_id = ''m'', message_role = Assistant,
     message_content = [\<lparr>block_kind = ToolCallBlock ''c1'' ''bash'' ''{}'', block_raw = JNull\<rparr>],
     message_source = \<lparr>source_kind = SourceModel ''p'' ''m'' None, source_raw = JNull\<rparr>,
     message_raw = JNull, message_surface_credit = Some 10\<rparr>"

definition answering_message :: Message where
  "answering_message = \<lparr>message_id = ''r'', message_role = User,
     message_content = [\<lparr>block_kind = ToolResultBlock ''c1'' None,
       block_raw = JObj [(''type'', JStr ''tool-result''), (''content'', JArr [])]\<rparr>],
     message_source = \<lparr>source_kind = SourceTool ''c1'', source_raw = JNull\<rparr>,
     message_raw = JNull, message_surface_credit = Some 10\<rparr>"

definition strict_prefix :: "(SessionEvent \<times> ValidationAdmission \<times> SurfaceRowBinding) list" where
  "strict_prefix = map (\<lambda>e. (e, Ordinary, BindPendingDurable))
     [plain_event 0 (TurnStart 1), plain_event 1 (StepStart 1 1),
      (plain_event 2 (AssistantMessage 1 1 declaring_message None))\<lparr>event_surface_op := Some SurfaceAppend\<rparr>,
      plain_event 3 (ToolCall 1 1 ''c1'' ''bash'' ''{}'')]"

definition answered_data :: json where
  "answered_data = JObj [(''message'', JObj [(''content'', JArr [JObj [(''content'', JArr [])]])])]"

lemma answered_digest: "\<exists>d. masked_data_sha256 replay_env answered_data = Some d"
  by (simp add: answered_data_def masked_data_sha256_def tool_result_objects_def get_array_def replay_env_def)

definition strict_result :: "SessionEvent \<times> ValidationAdmission \<times> SurfaceRowBinding" where
  "strict_result = ((plain_event 4 (ToolResult 1 1 answering_message None None))
      \<lparr>event_surface_op := Some SurfaceAppend, event_sources := Some [3],
       event_data := answered_data\<rparr>, Ordinary, BindPendingDurable)"

lemma declaring_estimate: "\<exists>t. estimate_message replay_env declaring_message = Inr t \<and> unat t < 1000"
proof -
  have "list_all (\<lambda>s. utf8_chars s = map (\<lambda>c. [c]) s) [''bash'', ''{}'']" by code_simp
  then show ?thesis
    by (simp add: estimate_message_def declaring_message_def estimate_content_block_def estimate_call_def
        estimated_text_tokens_def utf16_length_def usize_to_u64_def div_ceil_def CHARS_PER_TOKEN_def
        budget_add_def checked_add_def ROLE_OVERHEAD_def BLOCK_OVERHEAD_def comp_def)
qed

lemma answering_estimate: "estimate_message replay_env answering_message = Inr 8"
  by (simp add: estimate_message_def answering_message_def estimate_content_block_def tool_result_content_def
      get_array_def budget_add_def checked_add_def ROLE_OVERHEAD_def BLOCK_OVERHEAD_def)

lemmas strict_eval = append_event_def surface_eval apply_assistant_message_def register_durable_declarations_def
  declaring_message_def validate_durable_call_identity_def MAX_DURABLE_TOOL_CALLS_PER_STEP_def
  call_ops declared_arguments_def awaits_intent_def is_unprivileged_durable_def projection_for_session_def
  count_tool_calls_def

lemma strict_prefix_runs:
  "\<exists>p s. run (append_event replay_env) (projection_for_session DurableStrict ''s'') strict_prefix = Inr p
     \<and> boundary p = BoundaryStep s \<and> step_pending_calls s = [''c1'']"
proof -
  obtain t where t: "estimate_message replay_env declaring_message = Inr t" "unat t < 1000"
    using declaring_estimate by (elim exE conjE)
  note t' = t(1) [unfolded declaring_message_def]
  show ?thesis using t(2)
    by (simp add: strict_prefix_def replay_eval strict_eval t')
qed

lemma strict_run_resolves:
  "\<exists>p q. run (append_event replay_env) (projection_for_session DurableStrict ''s'') (strict_prefix @ [strict_result]) = Inr p
     \<and> apply_event replay_env Ordinary BindMemory p (plain_event 5 (StepEnd 1 1)) = Inr q"
proof -
  obtain t where t: "estimate_message replay_env declaring_message = Inr t" "unat t < 1000"
    using declaring_estimate by (elim exE conjE)
  note t' = t(1) [unfolded declaring_message_def]
  note a' = answering_estimate [unfolded answering_message_def]
  obtain d where d: "masked_data_sha256 replay_env answered_data = Some d" using answered_digest by (elim exE)
  show ?thesis using t(2)
    by (simp add: strict_prefix_def strict_result_def replay_eval strict_eval t' a' answering_message_def
        validate_tool_result_def RECOVERY_TOOL_RESULT_ID_PREFIX_def check_result_intent_def
        check_result_decision_def d unresolved_declaration_def starts_with_def)
qed

theorem strict_tool_calls_witness:
  "\<exists>p s. run (append_event replay_env) (projection_for_session DurableStrict ''s'') strict_prefix = Inr p
     \<and> boundary p = BoundaryStep s \<and> step_pending_calls s = [''c1'']
     \<and> step_pending_calls s = map declared_id (filter running (step_declared_calls s))"
proof -
  obtain p s where p: "run (append_event replay_env) (projection_for_session DurableStrict ''s'') strict_prefix = Inr p"
    and s: "boundary p = BoundaryStep s" "step_pending_calls s = [''c1'']"
    using strict_prefix_runs by (elim exE conjE)
  from strict_tool_calls [OF p s(1)] p s show ?thesis by (intro exI [of _ p] exI [of _ s]) simp
qed

theorem strict_step_ends_resolved_witness:
  "\<exists>p s. run (append_event replay_env) (projection_for_session DurableStrict ''s'') (strict_prefix @ [strict_result]) = Inr p
     \<and> boundary p = BoundaryStep s \<and> step_pending_calls s = []"
proof -
  obtain p q where p: "run (append_event replay_env) (projection_for_session DurableStrict ''s'')
      (strict_prefix @ [strict_result]) = Inr p"
    and q: "apply_event replay_env Ordinary BindMemory p (plain_event 5 (StepEnd 1 1)) = Inr q"
    using strict_run_resolves by (elim exE conjE)
  from strict_step_ends_resolved [OF p q, of 1 1] p show ?thesis
    by (auto simp: plain_event_def)
qed

section \<open>Rewriting a tool result\<close>

lemma surface_node_result:
  assumes "surface_node env e binding = Inr node" and "is_tool_result (event_kind e)"
  shows "node_kind node = NodeToolResult \<and> (\<exists>origin. node_tool_result node = Some origin
    \<and> masked_data_sha256 env (event_data e) = Some (origin_masked origin))"
  using assms
  by (cases "event_kind e"; cases binding)
    (auto simp: surface_node_def node_facts_def node_origin_def result_simps split: if_splits)

text \<open>C40
  A tool result may only be rewritten into a version of itself: when an event replaces nodes by a
  tool result, it replaces exactly one node, that node is a tool result, and both have the same
  identity digest, which covers the message and the event but for the result's content.\<close>

theorem rewrite_keeps_identity:
  assumes "apply_event env a binding p e = Inr q" and "is_tool_result (event_kind e)"
    and "event_surface_op e = Some (SurfaceReplace x y)"
  shows "\<exists>pre old post new orig1 orig2. surface_nodes p = pre @ [old] @ post \<and> surface_nodes q = pre @ [new] @ post
    \<and> node_tool_result old = Some orig1 \<and> node_kind new = NodeToolResult \<and> node_tool_result new = Some orig2
    \<and> origin_masked orig2 = origin_masked orig1"
proof -
  from assms(1) obtain c p0 r where h: "same_surface p p0" "apply_surface env p0 e binding = Inr r"
    "q = r\<lparr>compaction := c\<rparr>"
    by (rule apply_event_cases)
  from h(2) obtain r0 where r0: "apply_replace env p0 e binding x y = Inr r0" "surface_nodes r = surface_nodes r0"
    using assms(2,3) by (cases rule: apply_surface_cases) auto
  from r0(1) obtain i j node where le: "i \<le> j"
    and rewrite: "validate_tool_result_rewrite env e (slice i j (surface_nodes p0)) = Inr ()"
    and node: "surface_node env e binding = Inr node"
    and nodes: "surface_nodes r0 = take i (surface_nodes p0) @ [node] @ drop (Suc j) (surface_nodes p0)"
    by (rule apply_replace_cases) (use assms(2) in simp)
  from rewrite obtain old orig1 where old: "slice i j (surface_nodes p0) = [old]" "node_tool_result old = Some orig1"
    "masked_data_sha256 env (event_data e) = Some (origin_masked orig1)"
    by (auto simp: validate_tool_result_rewrite_def and_then_Inr ok_or_Inr split: list.splits option.splits if_splits)
  from node assms(2) obtain orig2 where new: "node_kind node = NodeToolResult" "node_tool_result node = Some orig2"
    "masked_data_sha256 env (event_data e) = Some (origin_masked orig2)"
    using surface_node_result by blast
  have "surface_nodes p = take i (surface_nodes p0) @ [old] @ drop (Suc j) (surface_nodes p0)"
    using split_at_slice [OF le, of "surface_nodes p0"] old(1) h(1) by (simp add: same_surface_def)
  moreover have "surface_nodes q = take i (surface_nodes p0) @ [node] @ drop (Suc j) (surface_nodes p0)"
    using nodes r0(2) h(3) by simp
  ultimately show ?thesis using old(2,3) new by (metis option.inject)
qed

text \<open>A session with one tool result, rewritten in place.\<close>

definition rewriting_event :: SessionEvent where
  "rewriting_event = (plain_event 1 (ToolResult 1 1 answering_message None None))
     \<lparr>event_surface_op := Some (SurfaceReplace 0 0), event_sources := Some [0], event_data := answered_data\<rparr>"

definition answered_session :: "string \<Rightarrow> Projection" where
  "answered_session digest = (projection_empty MemoryCompatible)\<lparr>boundary := BoundaryTurn 1 1,
     surface_nodes := [\<lparr>node_seq = 0, node_kind = NodeToolResult, node_message = Some answering_message,
       node_estimated_tokens = 8, node_tool_delta = -1, node_tool_result = Some (OriginMemory digest)\<rparr>],
     surface_tokens := 8, surface_resident_bytes := 10\<rparr>"

theorem rewrite_keeps_identity_witness:
  "\<exists>digest q pre old post new orig1 orig2.
     apply_event replay_env Ordinary BindMemory (answered_session digest) rewriting_event = Inr q
     \<and> surface_nodes (answered_session digest) = pre @ [old] @ post \<and> surface_nodes q = pre @ [new] @ post
     \<and> node_tool_result old = Some orig1 \<and> node_tool_result new = Some orig2
     \<and> origin_masked orig2 = origin_masked orig1"
proof -
  obtain d where d: "masked_data_sha256 replay_env answered_data = Some d" using answered_digest by (elim exE)
  have message: "message_content answering_message \<noteq> []" "message_surface_credit answering_message = Some 10"
    by (simp_all add: answering_message_def)
  have "\<exists>q. apply_event replay_env Ordinary BindMemory (answered_session d) rewriting_event = Inr q"
    by (simp add: answered_session_def rewriting_event_def replay_eval surface_eval apply_tool_result_def
        is_unprivileged_durable_def validate_tool_result_rewrite_def d answering_estimate message)
  then obtain q where q: "apply_event replay_env Ordinary BindMemory (answered_session d) rewriting_event = Inr q"
    by (elim exE)
  have "is_tool_result (event_kind rewriting_event)"
    "event_surface_op rewriting_event = Some (SurfaceReplace 0 0)"
    by (simp_all add: rewriting_event_def plain_event_def)
  from rewrite_keeps_identity [OF q this] q show ?thesis by blast
qed

end
