(* ===== verification/Attempt.thy ===== *)
theory Attempt
  imports Context_Budget "HOL-Library.AList"
begin

text \<open>
  The fold of one provider attempt (\<open>src/session/attempt_anchor.rs\<close>): the chunks of a stream are
  folded into blocks, usage and a finish, and exactly one later event closes the attempt: the
  assistant message that cites all its chunks, a retry, the end of the step, or the start of a
  compaction that answers a context overflow.

  Hash tables are association lists with one entry per key. Reserving memory is assumed to succeed.
  The charges for resident memory are left out: they depend on the capacities of allocations, which
  a value of the model does not have, and decide nothing but whether memory may be used.
\<close>

section \<open>Usage\<close>

definition MAX_ATTEMPT_EMITTED_BYTES :: nat where
  "MAX_ATTEMPT_EMITTED_BYTES = 10 * 1024 * 1024"

definition CONTENT_DIGEST_DOMAIN :: string where
  "CONTENT_DIGEST_DOMAIN = ''dsh.attempt-content.v1'' @ [CHR 0x00]"

definition SOURCE_DIGEST_DOMAIN :: string where
  "SOURCE_DIGEST_DOMAIN = ''dsh.attempt-sources.v1'' @ [CHR 0x00]"

definition REPLAY_DIGEST_DOMAIN :: string where
  "REPLAY_DIGEST_DOMAIN = ''dsh.attempt-replay.v1'' @ [CHR 0x00]"

datatype AttemptDisposition =
    DispositionCommitted | DispositionRetry | DispositionContextOverflow
  | DispositionFailed | DispositionCancelled | DispositionInterrupted

record UsageTotals =
  total_uncached_input :: u64
  total_output :: u64
  total_cache_read :: u64
  total_cache_write :: u64
  total_reasoning :: u64

definition totals_zero :: UsageTotals where
  "totals_zero = \<lparr>total_uncached_input = 0, total_output = 0, total_cache_read = 0,
     total_cache_write = 0, total_reasoning = 0\<rparr>"

record UsageSample =
  sample_turn :: TurnId
  sample_step :: StepId
  sample_buckets :: UsageTotals

record UsageProjection =
  usage_totals :: UsageTotals
  usage_last :: "UsageSample option"

definition usage_projection_default :: UsageProjection where
  "usage_projection_default = \<lparr>usage_totals = totals_zero, usage_last = None\<rparr>"

definition usage_buckets :: "TokenUsage \<Rightarrow> UsageTotals" where
  "usage_buckets u = \<lparr>total_uncached_input = input_tokens u, total_output = output_tokens u,
     total_cache_read = (case cache_read_tokens u of None \<Rightarrow> 0 | Some n \<Rightarrow> n),
     total_cache_write = (case cache_write_tokens u of None \<Rightarrow> 0 | Some n \<Rightarrow> n),
     total_reasoning = (case reasoning_tokens u of None \<Rightarrow> 0 | Some n \<Rightarrow> n)\<rparr>"

definition replace_bucket :: "u64 \<Rightarrow> u64 \<Rightarrow> u64 \<Rightarrow> AttemptError + u64" where
  "replace_bucket current previous nxt =
     ok_or (Option.bind (checked_sub current previous) (\<lambda>v. checked_add v nxt)) UsageOverflow"

definition with_sample :: "UsageProjection \<Rightarrow> TurnId \<Rightarrow> StepId \<Rightarrow> TokenUsage
    \<Rightarrow> AttemptError + UsageProjection" where
  "with_sample u turn step usage =
     (let buckets = usage_buckets usage;
          previous = (case usage_last u of
              Some s \<Rightarrow> if sample_turn s = turn \<and> sample_step s = step then sample_buckets s else totals_zero
            | None \<Rightarrow> totals_zero);
          totals = usage_totals u;
          replaced = (\<lambda>f. replace_bucket (f totals) (f previous) (f buckets)) in
      and_then (replaced total_uncached_input) (\<lambda>input.
      and_then (replaced total_output) (\<lambda>output.
      and_then (replaced total_cache_read) (\<lambda>cache_read.
      and_then (replaced total_cache_write) (\<lambda>cache_write.
      and_then (replaced total_reasoning) (\<lambda>reasoning.
        Ok \<lparr>usage_totals = \<lparr>total_uncached_input = input, total_output = output,
              total_cache_read = cache_read, total_cache_write = cache_write,
              total_reasoning = reasoning\<rparr>,
            usage_last = Some \<lparr>sample_turn = turn, sample_step = step, sample_buckets = buckets\<rparr>\<rparr>))))))"

section \<open>State\<close>

record AttemptRoute =
  route_config :: LlmCallConfig

definition route_from_header :: "EpochHeader option \<Rightarrow> AttemptError + AttemptRoute" where
  "route_from_header h = and_then (ok_or h MissingRoute) (\<lambda>h. Ok \<lparr>route_config = header_config h\<rparr>)"

definition route_provider :: "AttemptRoute \<Rightarrow> string" where
  "route_provider r = config_provider (route_config r)"

definition route_model :: "AttemptRoute \<Rightarrow> string" where
  "route_model r = config_model (route_config r)"

record OpenAttempt =
  att_generation :: u64
  att_turn :: TurnId
  att_step :: StepId
  att_route :: AttemptRoute
  att_validator :: StreamValidator
  att_order :: "u64 list"
  att_blocks :: "(u64 \<times> ContentBlock option) list"
  att_sources :: "EventSeq list"
  att_emitted_bytes :: nat
  att_token_usage :: "TokenUsage option"

definition open_attempt :: "u64 \<Rightarrow> TurnId \<Rightarrow> StepId \<Rightarrow> AttemptRoute \<Rightarrow> OpenAttempt" where
  "open_attempt generation turn step route = \<lparr>att_generation = generation, att_turn = turn,
     att_step = step, att_route = route, att_validator = stream_default, att_order = [],
     att_blocks = [], att_sources = [], att_emitted_bytes = 0, att_token_usage = None\<rparr>"

record FinishedAttempt =
  fin_generation :: u64
  fin_turn :: TurnId
  fin_step :: StepId
  fin_route :: AttemptRoute
  fin_sources :: "EventSeq list"
  fin_token_usage :: "TokenUsage option"
  fin_reason :: FinishReason
  fin_replay_state :: "json option"
  fin_content :: "ContentBlock list option"
  fin_digest :: "string option"
  fin_assistant_tokens :: "u64 option"

record SealedAttempt =
  sea_generation :: u64
  sea_turn :: TurnId
  sea_step :: StepId
  sea_route :: AttemptRoute
  sea_source_count :: nat
  sea_source_digest :: string
  sea_token_usage :: "TokenUsage option"
  sea_reason :: FinishReason
  sea_replay_digest :: "string option"
  sea_digest :: "string option"
  sea_assistant_tokens :: "u64 option"

datatype (plugins only: code size) AttemptState =
    AttemptOutside
  | AttemptReady TurnId StepId
  | AttemptStreaming OpenAttempt
  | AttemptFinished FinishedAttempt
  | AttemptSealed SealedAttempt
  | AttemptRetryScheduled TurnId StepId
  | AttemptCommitted TurnId StepId

record AttemptProjection =
  attempt_state :: AttemptState
  attempt_usage :: UsageProjection
  next_generation :: u64
  overflow_used :: bool
  overflow_start_used :: bool
  overflow_generation :: "u64 option"

definition attempt_default :: AttemptProjection where
  "attempt_default = \<lparr>attempt_state = AttemptOutside, attempt_usage = usage_projection_default,
     next_generation = 1, overflow_used = False, overflow_start_used = False,
     overflow_generation = None\<rparr>"

definition attempt_outside :: "AttemptProjection \<Rightarrow> bool" where
  "attempt_outside a \<longleftrightarrow> attempt_state a = AttemptOutside"

definition has_open_attempt :: "AttemptProjection \<Rightarrow> bool" where
  "has_open_attempt a = (case attempt_state a of
      AttemptStreaming _ \<Rightarrow> True | AttemptFinished _ \<Rightarrow> True | AttemptSealed _ \<Rightarrow> True | _ \<Rightarrow> False)"

section \<open>Digests and equality\<close>

text \<open>\<open>u64::to_be_bytes\<close>\<close>

definition be_bytes :: "u64 \<Rightarrow> string" where
  "be_bytes w = map (\<lambda>k. char_of (unat w div 256 ^ k)) [7, 6, 5, 4, 3, 2, 1, 0]"

definition source_digest :: "session_env \<Rightarrow> EventSeq list \<Rightarrow> string" where
  "source_digest env seqs = env_sha256 env (SOURCE_DIGEST_DOMAIN @ concat (map be_bytes seqs))"

definition json_digest :: "session_env \<Rightarrow> json \<Rightarrow> AttemptError + string" where
  "json_digest env v =
     ok_or (map_option (\<lambda>b. env_sha256 env (REPLAY_DIGEST_DOMAIN @ b)) (env_encode env v)) AttemptDigest"

definition optional_json_digest :: "session_env \<Rightarrow> json option \<Rightarrow> AttemptError + string option" where
  "optional_json_digest env v = (case v of
      None \<Rightarrow> Ok None | Some v \<Rightarrow> and_then (json_digest env v) (\<lambda>d. Ok (Some d)))"

text \<open>The serialised sequence of blocks is the JSON array of their trees.\<close>

definition content_digest :: "session_env \<Rightarrow> ContentBlock list \<Rightarrow> AttemptError + string" where
  "content_digest env blocks =
     ok_or (map_option (\<lambda>b. env_sha256 env (CONTENT_DIGEST_DOMAIN @ b))
       (env_encode env (JArr (map block_raw blocks)))) AttemptDigest"

definition usage_equal :: "session_env \<Rightarrow> TokenUsage \<Rightarrow> TokenUsage \<Rightarrow> bool" where
  "usage_equal env a b \<longleftrightarrow> input_tokens a = input_tokens b \<and> output_tokens a = output_tokens b
     \<and> cache_read_tokens a = cache_read_tokens b \<and> cache_write_tokens a = cache_write_tokens b
     \<and> reasoning_tokens a = reasoning_tokens b \<and> json_values_equal env (usage_raw a) (usage_raw b)"

definition failure_equal :: "session_env \<Rightarrow> LlmFailure \<Rightarrow> LlmFailure \<Rightarrow> bool" where
  "failure_equal env a b \<longleftrightarrow> failure_message a = failure_message b \<and> failure_code a = failure_code b
     \<and> failure_status a = failure_status b \<and> failure_retry_after_ms a = failure_retry_after_ms b
     \<and> failure_request_id a = failure_request_id b \<and> json_values_equal env (failure_raw a) (failure_raw b)"

section \<open>One chunk\<close>

datatype (plugins only: code size) PreparedChunkOperation =
    ChunkContinue
  | ChunkBlockStart u64
  | ChunkBlockEnd u64 ContentBlock
  | ChunkUsage TokenUsage
  | ChunkFinish FinishReason "json option" "ContentBlock list option" "string option" "u64 option"

record PreparedExistingChunk =
  chunk_seq :: EventSeq
  chunk_stream :: PreparedStreamTransition
  chunk_generation :: u64
  chunk_source_count :: nat
  chunk_emitted_bytes :: nat
  chunk_operation :: PreparedChunkOperation
  chunk_next_usage :: "UsageProjection option"

definition attempt_block :: "OpenAttempt \<Rightarrow> u64 \<Rightarrow> ContentBlock option" where
  "attempt_block a i = Option.bind (map_of (att_blocks a) i) (\<lambda>b. b)"

definition attempt_content :: "OpenAttempt \<Rightarrow> ContentBlock list" where
  "attempt_content a = List.map_filter (attempt_block a) (att_order a)"

definition is_call_block :: "ContentBlock \<Rightarrow> bool" where
  "is_call_block b = (case block_kind b of ToolCallBlock _ _ _ \<Rightarrow> True | _ \<Rightarrow> False)"

text \<open>A stream cut off by the token limit loses its tool calls.\<close>

definition normalized_content :: "FinishReason \<Rightarrow> ContentBlock list \<Rightarrow> ContentBlock list" where
  "normalized_content reason blocks =
     (if finish_kind reason = FinishMaxTokens then filter (\<lambda>b. \<not> is_call_block b) blocks else blocks)"

definition normalized_content_digest :: "session_env \<Rightarrow> OpenAttempt \<Rightarrow> FinishReason
    \<Rightarrow> AttemptError + string" where
  "normalized_content_digest env a reason = content_digest env (normalized_content reason (attempt_content a))"

definition provider_assistant_tokens :: "session_env \<Rightarrow> OpenAttempt \<Rightarrow> FinishReason
    \<Rightarrow> AttemptError + u64" where
  "provider_assistant_tokens env a reason =
     map_err (\<lambda>_. TokenEstimateOverflow)
       (estimate_provider_assistant env (normalized_content reason (attempt_content a)))"

definition prepare_finish :: "session_env \<Rightarrow> OpenAttempt \<Rightarrow> FinishReason \<Rightarrow> json option
    \<Rightarrow> AttemptError + PreparedChunkOperation" where
  "prepare_finish env a reason replay =
     (if is_failed_reason (finish_kind reason) then Ok (ChunkFinish reason replay None None None)
      else if list_ex (\<lambda>i. attempt_block a i = None) (att_order a)
      then Err (AttemptBoundary ''assistant/chunk'' ''successful finish has an incomplete block'')
      else and_then (normalized_content_digest env a reason) (\<lambda>digest.
        and_then (provider_assistant_tokens env a reason) (\<lambda>tokens.
          Ok (ChunkFinish reason replay (Some []) (Some digest) (Some tokens)))))"

definition prepare_operation :: "session_env \<Rightarrow> OpenAttempt \<Rightarrow> UsageProjection \<Rightarrow> StreamChunkKind
    \<Rightarrow> AttemptError + (PreparedChunkOperation \<times> UsageProjection option)" where
  "prepare_operation env a usage k = (case k of
      BlockStart i _ \<Rightarrow> Ok (ChunkBlockStart i, None)
    | BlockEnd i b \<Rightarrow> Ok (ChunkBlockEnd i b, None)
    | UsageChunk u \<Rightarrow> and_then (with_sample usage (att_turn a) (att_step a) u) (\<lambda>n.
        Ok (ChunkUsage u, Some n))
    | Finish reason replay \<Rightarrow> and_then (prepare_finish env a reason replay) (\<lambda>op. Ok (op, None))
    | OtherChunk _ \<Rightarrow> Err (AttemptBoundary ''assistant/chunk'' ''unknown live chunks are not durable attempt facts'')
    | _ \<Rightarrow> Ok (ChunkContinue, None))"

definition prepare_existing_chunk :: "session_env \<Rightarrow> OpenAttempt \<Rightarrow> EventSeq \<Rightarrow> StreamChunk
    \<Rightarrow> UsageProjection \<Rightarrow> AttemptError + PreparedExistingChunk" where
  "prepare_existing_chunk env a seq c usage =
     and_then (map_err AttemptStream (stream_prepare (att_validator a) c)) (\<lambda>stream.
     and_then (ok_or (usize_add (att_emitted_bytes a) (env_encoded_len env (chunk_raw c)))
       (EmittedBytes MAX_ATTEMPT_EMITTED_BYTES (2 ^ 64 - 1))) (\<lambda>emitted.
       if emitted > MAX_ATTEMPT_EMITTED_BYTES then Err (EmittedBytes MAX_ATTEMPT_EMITTED_BYTES emitted)
       else and_then (prepare_operation env a usage (chunk_kind c)) (\<lambda>(op, next_usage).
         Ok \<lparr>chunk_seq = seq, chunk_stream = stream, chunk_generation = att_generation a,
             chunk_source_count = length (att_sources a), chunk_emitted_bytes = emitted,
             chunk_operation = op, chunk_next_usage = next_usage\<rparr>)))"

text \<open>The blocks are moved out of the table; a missing or open one is None.\<close>

fun take_blocks :: "u64 list \<Rightarrow> (u64 \<times> ContentBlock option) list \<Rightarrow> ContentBlock list option" where
  "take_blocks [] blocks = Some []"
| "take_blocks (i # is) blocks = (case map_of blocks i of
      Some (Some b) \<Rightarrow> map_option (Cons b) (take_blocks is (AList.delete i blocks))
    | _ \<Rightarrow> None)"

definition finish_attempt :: "OpenAttempt \<Rightarrow> FinishReason \<Rightarrow> json option \<Rightarrow> ContentBlock list option
    \<Rightarrow> string option \<Rightarrow> u64 option \<Rightarrow> FinishedAttempt" where
  "finish_attempt a reason replay content digest tokens =
     \<lparr>fin_generation = att_generation a, fin_turn = att_turn a, fin_step = att_step a,
      fin_route = att_route a, fin_sources = att_sources a, fin_token_usage = att_token_usage a,
      fin_reason = reason, fin_replay_state = replay, fin_content = content, fin_digest = digest,
      fin_assistant_tokens = tokens\<rparr>"

definition commit_operation :: "OpenAttempt \<Rightarrow> PreparedChunkOperation \<Rightarrow> AttemptState option" where
  "commit_operation a op = (case op of
      ChunkContinue \<Rightarrow> Some (AttemptStreaming a)
    | ChunkBlockStart i \<Rightarrow> Some (AttemptStreaming (a\<lparr>att_order := att_order a @ [i],
        att_blocks := AList.update i None (att_blocks a)\<rparr>))
    | ChunkBlockEnd i b \<Rightarrow> (case map_of (att_blocks a) i of
        None \<Rightarrow> None
      | Some _ \<Rightarrow> Some (AttemptStreaming (a\<lparr>att_blocks := AList.update i (Some b) (att_blocks a)\<rparr>)))
    | ChunkUsage u \<Rightarrow> Some (AttemptStreaming (a\<lparr>att_token_usage := Some u\<rparr>))
    | ChunkFinish reason replay content digest tokens \<Rightarrow> (case content of
        None \<Rightarrow> Some (AttemptFinished (finish_attempt a reason replay None digest tokens))
      | Some bs \<Rightarrow> map_option (\<lambda>taken.
          AttemptFinished (finish_attempt a reason replay (Some (bs @ taken)) digest tokens))
          (take_blocks (att_order a) (att_blocks a))))"

definition commit_open :: "OpenAttempt \<Rightarrow> PreparedExistingChunk
    \<Rightarrow> (AttemptState \<times> UsageProjection option) option" where
  "commit_open a c =
     map_option (\<lambda>s. (s, chunk_next_usage c))
       (commit_operation (a\<lparr>att_validator := stream_commit (att_validator a) (chunk_stream c),
          att_sources := att_sources a @ [chunk_seq c], att_emitted_bytes := chunk_emitted_bytes c\<rparr>)
         (chunk_operation c))"

section \<open>The projection of attempts\<close>

definition attempt_boundary :: "string \<Rightarrow> string \<Rightarrow> AttemptError + 'a" where
  "attempt_boundary ety detail = Err (AttemptBoundary ety detail)"

definition require_ready :: "AttemptProjection \<Rightarrow> string \<Rightarrow> TurnId \<Rightarrow> StepId \<Rightarrow> AttemptError + unit" where
  "require_ready a ety turn step =
     (if attempt_state a = AttemptReady turn step then Ok ()
      else attempt_boundary ety ''the step is not ready for a new attempt'')"

definition require_context_replay_progress :: "AttemptProjection \<Rightarrow> string \<Rightarrow> u64
    \<Rightarrow> AttemptError + unit" where
  "require_context_replay_progress a ety generation =
     (if overflow_used a \<and> (case overflow_generation a of None \<Rightarrow> True | Some g \<Rightarrow> generation \<le> g)
      then attempt_boundary ety ''context-overflow replay requires a durable compaction replacement''
      else Ok ())"

text \<open>\<open>step_start\<close> and \<open>step_end\<close> reset what belongs to the step.\<close>

definition reset_overflow :: "AttemptProjection \<Rightarrow> AttemptProjection" where
  "reset_overflow a = a\<lparr>overflow_used := False, overflow_start_used := False, overflow_generation := None\<rparr>"

definition attempt_step_start :: "AttemptProjection \<Rightarrow> TurnId \<Rightarrow> StepId
    \<Rightarrow> AttemptError + AttemptProjection" where
  "attempt_step_start a turn step =
     (if \<not> attempt_outside a then attempt_boundary ''step/start'' ''an earlier step still owns attempt state''
      else Ok (reset_overflow (a\<lparr>attempt_state := AttemptReady turn step\<rparr>)))"

record PreparedLiveAttempt =
  live_generation :: u64
  live_turn :: TurnId
  live_step :: StepId
  live_route :: AttemptRoute
  live_projection :: AttemptProjection

text \<open>\<open>live_projection\<close> holds the fields that \<open>commit\<close> copies, with the next generation.\<close>

definition prepare_begin_live :: "AttemptProjection \<Rightarrow> TurnId \<Rightarrow> StepId \<Rightarrow> EpochHeader option \<Rightarrow> u64
    \<Rightarrow> AttemptError + PreparedLiveAttempt" where
  "prepare_begin_live a turn step header generation =
     and_then (require_ready a ''provider dispatch'' turn step) (\<lambda>_.
     and_then (require_context_replay_progress a ''provider dispatch'' generation) (\<lambda>_.
     and_then (ok_or (checked_add (next_generation a) 1) AttemptCapacity) (\<lambda>nxt.
     and_then (route_from_header header) (\<lambda>route.
       Ok \<lparr>live_generation = next_generation a, live_turn = turn, live_step = step,
           live_route = route, live_projection = a\<lparr>next_generation := nxt\<rparr>\<rparr>))))"

definition commit_live_attempt :: "PreparedLiveAttempt \<Rightarrow> AttemptProjection" where
  "commit_live_attempt l = (live_projection l)\<lparr>attempt_state := AttemptStreaming
     (open_attempt (live_generation l) (live_turn l) (live_step l) (live_route l))\<rparr>"

datatype (plugins only: code size) PreparedAttemptChunk =
    ChunkReplace TurnId StepId u64 AttemptProjection
  | ChunkContinues PreparedExistingChunk

definition prepare_attempt_chunk :: "session_env \<Rightarrow> AttemptProjection \<Rightarrow> SessionEvent \<Rightarrow> EpochHeader option
    \<Rightarrow> u64 \<Rightarrow> AttemptError + PreparedAttemptChunk" where
  "prepare_attempt_chunk env a e header generation = (case event_kind e of
      AssistantChunk turn step chunk \<Rightarrow> (case attempt_state a of
          AttemptReady ready_turn ready_step \<Rightarrow>
            if ready_turn = turn \<and> ready_step = step
            then and_then (require_context_replay_progress a ''assistant/chunk'' generation) (\<lambda>_.
              and_then (ok_or (checked_add (next_generation a) 1) AttemptCapacity) (\<lambda>nxt.
              and_then (route_from_header header) (\<lambda>route.
                let opened = open_attempt (next_generation a) turn step route in
              and_then (prepare_existing_chunk env opened (event_seq e) chunk (attempt_usage a)) (\<lambda>c.
              and_then (ok_or (commit_open opened c) OwnershipChanged) (\<lambda>(state, usage).
                Ok (ChunkReplace turn step (next_generation a)
                  (a\<lparr>attempt_state := state, next_generation := nxt,
                     attempt_usage := (case usage of None \<Rightarrow> attempt_usage a | Some u \<Rightarrow> u)\<rparr>)))))))
            else attempt_boundary ''assistant/chunk'' ''no matching ready or streaming attempt exists''
        | AttemptStreaming opened \<Rightarrow>
            if att_turn opened = turn \<and> att_step opened = step
            then and_then (prepare_existing_chunk env opened (event_seq e) chunk (attempt_usage a))
              (\<lambda>c. Ok (ChunkContinues c))
            else attempt_boundary ''assistant/chunk'' ''no matching ready or streaming attempt exists''
        | _ \<Rightarrow> attempt_boundary ''assistant/chunk'' ''no matching ready or streaming attempt exists'')
    | _ \<Rightarrow> attempt_boundary ''assistant/chunk'' ''the event is not a stream chunk'')"

text \<open>None is \<open>false\<close>: the prepared chunk no longer fits the attempt.\<close>

definition commit_chunk :: "AttemptProjection \<Rightarrow> PreparedAttemptChunk \<Rightarrow> AttemptProjection option" where
  "commit_chunk a prepared = (case prepared of
      ChunkReplace turn step expected nxt \<Rightarrow>
        if attempt_state a = AttemptReady turn step \<and> next_generation a = expected then Some nxt else None
    | ChunkContinues c \<Rightarrow> (case attempt_state a of
        AttemptStreaming opened \<Rightarrow>
          if att_generation opened = chunk_generation c \<and> length (att_sources opened) = chunk_source_count c
          then map_option (\<lambda>(state, usage). a\<lparr>attempt_state := state,
              attempt_usage := (case usage of None \<Rightarrow> attempt_usage a | Some u \<Rightarrow> u)\<rparr>)
            (commit_open opened c)
          else None
      | _ \<Rightarrow> None))"

section \<open>Closing an attempt\<close>

record PreparedAttempt =
  prepared_content :: "ContentBlock list"
  prepared_usage :: "TokenUsage option"
  prepared_finish :: FinishReason
  prepared_replay_state :: "json option"
  prepared_sources :: "EventSeq list"

definition seal_finished :: "session_env \<Rightarrow> FinishedAttempt \<Rightarrow> string option \<Rightarrow> SealedAttempt" where
  "seal_finished env f replay_digest = \<lparr>sea_generation = fin_generation f, sea_turn = fin_turn f,
     sea_step = fin_step f, sea_route = fin_route f, sea_source_count = length (fin_sources f),
     sea_source_digest = source_digest env (fin_sources f), sea_token_usage = fin_token_usage f,
     sea_reason = fin_reason f, sea_replay_digest = replay_digest, sea_digest = fin_digest f,
     sea_assistant_tokens = fin_assistant_tokens f\<rparr>"

definition take_prepared :: "session_env \<Rightarrow> AttemptProjection
    \<Rightarrow> AttemptError + (PreparedAttempt \<times> AttemptProjection)" where
  "take_prepared env a = (case attempt_state a of
      AttemptFinished f \<Rightarrow> and_then (optional_json_digest env (fin_replay_state f)) (\<lambda>digest.
        Ok (\<lparr>prepared_content = (case fin_content f of None \<Rightarrow> [] | Some bs \<Rightarrow> bs),
             prepared_usage = fin_token_usage f, prepared_finish = fin_reason f,
             prepared_replay_state = fin_replay_state f, prepared_sources = fin_sources f\<rparr>,
            a\<lparr>attempt_state := AttemptSealed (seal_finished env f digest)\<rparr>))
    | _ \<Rightarrow> attempt_boundary ''provider attempt seal'' ''the stream has no terminal finish'')"

definition validate_message_route :: "session_env \<Rightarrow> Message \<Rightarrow> AttemptRoute \<Rightarrow> string option
    \<Rightarrow> AttemptError + unit" where
  "validate_message_route env m route replay_digest = (case source_kind (message_source m) of
      SourceModel provider model replay \<Rightarrow>
        if provider \<noteq> route_provider route \<or> model \<noteq> route_model route then Err RouteMismatch
        else and_then (optional_json_digest env replay) (\<lambda>actual.
          if actual = replay_digest then Ok () else Err RouteMismatch)
    | _ \<Rightarrow> Err RouteMismatch)"

record CommittedAttemptFacts =
  facts_usage :: "TokenUsage option"
  facts_assistant_tokens :: u64

text \<open>What \<open>assistant\<close> reads off a terminal attempt once its sources match: the sealed form, which
  for a finished attempt needs the digest of its replay state.\<close>

definition terminal_attempt :: "session_env \<Rightarrow> AttemptProjection \<Rightarrow> EventSeq list
    \<Rightarrow> AttemptError + SealedAttempt" where
  "terminal_attempt env a sources = (case attempt_state a of
      AttemptFinished f \<Rightarrow>
        if fin_sources f \<noteq> sources then Err SourceMismatch
        else and_then (optional_json_digest env (fin_replay_state f)) (\<lambda>d. Ok (seal_finished env f d))
    | AttemptSealed s \<Rightarrow>
        if length sources \<noteq> sea_source_count s \<or> source_digest env sources \<noteq> sea_source_digest s
        then Err SourceMismatch else Ok s
    | _ \<Rightarrow> attempt_boundary ''assistant/message'' ''no matching finished attempt exists'')"

definition event_source_list :: "SessionEvent \<Rightarrow> EventSeq list" where
  "event_source_list e = (case event_sources e of None \<Rightarrow> [] | Some s \<Rightarrow> s)"

definition optional_usage_equal :: "session_env \<Rightarrow> TokenUsage option \<Rightarrow> TokenUsage option \<Rightarrow> bool" where
  "optional_usage_equal env a b = (case (a, b) of
      (None, None) \<Rightarrow> True | (Some x, Some y) \<Rightarrow> usage_equal env x y | _ \<Rightarrow> False)"

definition check_committed_message :: "session_env \<Rightarrow> SealedAttempt \<Rightarrow> TurnId \<Rightarrow> StepId \<Rightarrow> Message
    \<Rightarrow> TokenUsage option \<Rightarrow> AttemptError + unit" where
  "check_committed_message env s turn step m usage =
     (if sea_turn s \<noteq> turn \<or> sea_step s \<noteq> step
      then attempt_boundary ''assistant/message'' ''turn or step does not match the attempt''
      else if is_failed_reason (finish_kind (sea_reason s))
      then attempt_boundary ''assistant/message'' ''a failed attempt cannot commit an assistant message''
      else if \<not> optional_usage_equal env (sea_token_usage s) usage then Err UsageMismatch
      else and_then (validate_message_route env m (sea_route s) (sea_replay_digest s)) (\<lambda>_.
        if finish_kind (sea_reason s) = FinishMaxTokens \<and> list_ex is_call_block (message_content m)
        then Err ContentMismatch
        else and_then (content_digest env (message_content m)) (\<lambda>actual.
          and_then (ok_or (sea_digest s) ContentMismatch) (\<lambda>digest.
            if actual \<noteq> digest then Err ContentMismatch else Ok ()))))"

definition attempt_assistant :: "session_env \<Rightarrow> AttemptProjection \<Rightarrow> SessionEvent
    \<Rightarrow> AttemptError + (AttemptProjection \<times> CommittedAttemptFacts)" where
  "attempt_assistant env a e = (case event_kind e of
      AssistantMessage turn step m usage \<Rightarrow>
        and_then (terminal_attempt env a (event_source_list e)) (\<lambda>s.
        and_then (check_committed_message env s turn step m usage) (\<lambda>_.
        and_then (case usage of
            Some u \<Rightarrow> with_sample (attempt_usage a) turn step u | None \<Rightarrow> Ok (attempt_usage a)) (\<lambda>projection.
        and_then (ok_or (sea_assistant_tokens s) TokenEstimateOverflow) (\<lambda>tokens.
          Ok (a\<lparr>attempt_state := AttemptCommitted turn step, attempt_usage := projection\<rparr>,
              \<lparr>facts_usage = usage, facts_assistant_tokens = tokens\<rparr>)))))
    | _ \<Rightarrow> attempt_boundary ''assistant/message'' ''the event is not an assistant message'')"

fun terminal_failure :: "FinishReasonKind \<Rightarrow> LlmFailure option" where
  "terminal_failure (FinishError f) = Some f"
| "terminal_failure (FinishAborted f) = Some f"
| "terminal_failure _ = None"

text \<open>The owner and the finish of a terminal attempt.\<close>

definition terminal_owner :: "AttemptProjection \<Rightarrow> (TurnId \<times> StepId \<times> AttemptRoute \<times> FinishReason) option" where
  "terminal_owner a = (case attempt_state a of
      AttemptFinished f \<Rightarrow> Some (fin_turn f, fin_step f, fin_route f, fin_reason f)
    | AttemptSealed s \<Rightarrow> Some (sea_turn s, sea_step s, sea_route s, sea_reason s)
    | _ \<Rightarrow> None)"

definition attempt_retry :: "session_env \<Rightarrow> AttemptProjection \<Rightarrow> SessionEvent
    \<Rightarrow> AttemptError + AttemptProjection" where
  "attempt_retry env a e = (case event_kind e of
      LlmRetry retry \<Rightarrow> (case terminal_owner a of
          None \<Rightarrow> attempt_boundary ''llm/retry'' ''no matching failed terminal attempt exists''
        | Some (turn, step, route, reason) \<Rightarrow>
            if turn \<noteq> retry_turn retry \<or> step \<noteq> retry_step retry
              \<or> route_provider route \<noteq> retry_provider retry
            then attempt_boundary ''llm/retry'' ''route, turn, or step does not match the attempt''
            else and_then (ok_or (terminal_failure (finish_kind reason)) FailureMismatch) (\<lambda>failure.
              if \<not> failure_equal env failure (retry_failure retry) then Err FailureMismatch
              else Ok (a\<lparr>attempt_state := AttemptRetryScheduled turn step\<rparr>)))
    | _ \<Rightarrow> attempt_boundary ''llm/retry'' ''the event is not a retry schedule'')"

definition is_context_overflow :: "FinishReasonKind \<Rightarrow> bool" where
  "is_context_overflow k = (case k of
      FinishError failure \<Rightarrow> failure_code failure = ''CONTEXT_WINDOW_EXCEEDED'' | _ \<Rightarrow> False)"

definition context_overflow :: "AttemptProjection \<Rightarrow> TurnId \<Rightarrow> StepId \<Rightarrow> u64 \<Rightarrow> bool
    \<Rightarrow> AttemptError + AttemptProjection" where
  "context_overflow a turn step generation starts_compaction =
     (if overflow_used a
      then attempt_boundary ''context-overflow compaction''
        ''this step already consumed its context-overflow recovery''
      else case terminal_owner a of
        None \<Rightarrow> attempt_boundary ''context-overflow compaction''
          ''no matching terminal provider attempt exists''
      | Some (attempt_turn, attempt_step, _, reason) \<Rightarrow>
          if attempt_turn \<noteq> turn \<or> attempt_step \<noteq> step
          then attempt_boundary ''context-overflow compaction''
            ''turn or step does not match the terminal attempt''
          else if \<not> is_context_overflow (finish_kind reason) then Err FailureMismatch
          else Ok (a\<lparr>attempt_state := AttemptReady turn step, overflow_used := True,
                  overflow_start_used := starts_compaction, overflow_generation := Some generation\<rparr>))"

definition context_overflow_start :: "AttemptProjection \<Rightarrow> TurnId \<Rightarrow> StepId
    \<Rightarrow> AttemptError + AttemptProjection" where
  "context_overflow_start a turn step =
     and_then (require_ready a ''compaction/start'' turn step) (\<lambda>_.
       if \<not> overflow_used a \<or> overflow_start_used a
       then attempt_boundary ''compaction/start''
         ''the context-overflow compaction start is missing or duplicated''
       else Ok (a\<lparr>attempt_state := AttemptReady turn step, overflow_start_used := True\<rparr>))"

definition attempt_retry_started :: "AttemptProjection \<Rightarrow> TurnId \<Rightarrow> StepId
    \<Rightarrow> AttemptError + AttemptProjection" where
  "attempt_retry_started a turn step =
     (if attempt_state a \<noteq> AttemptRetryScheduled turn step
      then attempt_boundary ''llm/retry-started'' ''no matching retry schedule owns the attempt slot''
      else Ok (a\<lparr>attempt_state := AttemptReady turn step\<rparr>))"

text \<open>The step whose attempt is closed or was never started, and the step of an open attempt.\<close>

fun settled_step :: "AttemptState \<Rightarrow> (TurnId \<times> StepId) option" where
  "settled_step (AttemptReady turn step) = Some (turn, step)"
| "settled_step (AttemptRetryScheduled turn step) = Some (turn, step)"
| "settled_step (AttemptCommitted turn step) = Some (turn, step)"
| "settled_step _ = None"

fun unsettled_step :: "AttemptState \<Rightarrow> (TurnId \<times> StepId) option" where
  "unsettled_step (AttemptStreaming a) = Some (att_turn a, att_step a)"
| "unsettled_step (AttemptFinished f) = Some (fin_turn f, fin_step f)"
| "unsettled_step (AttemptSealed s) = Some (sea_turn s, sea_step s)"
| "unsettled_step _ = None"

definition attempt_step_end :: "AttemptProjection \<Rightarrow> TurnId \<Rightarrow> StepId \<Rightarrow> AttemptDisposition option
    \<Rightarrow> AttemptError + AttemptProjection" where
  "attempt_step_end a turn step disposition =
     and_then (if settled_step (attempt_state a) = Some (turn, step)
       then (if disposition \<noteq> None
             then attempt_boundary ''step/end'' ''a closed or never-started attempt cannot be closed twice''
             else Ok ())
       else if unsettled_step (attempt_state a) \<noteq> Some (turn, step)
         \<or> disposition \<notin> Some ` {DispositionFailed, DispositionCancelled, DispositionInterrupted}
       then attempt_boundary ''step/end'' ''an open attempt requires an explicit noncommitted disposition''
       else Ok ()) (\<lambda>_.
       Ok (reset_overflow (a\<lparr>attempt_state := AttemptOutside\<rparr>)))"

section \<open>Recovery\<close>

datatype RecoveryAttemptPhase = PhaseStreaming | PhaseFinished | PhaseSealed

record RecoveryAttemptProof =
  proof_turn :: TurnId
  proof_step :: StepId
  proof_generation :: u64
  proof_phase :: RecoveryAttemptPhase
  proof_source_count :: nat
  proof_source_digest :: string

definition recovery_proof :: "session_env \<Rightarrow> AttemptProjection \<Rightarrow> RecoveryAttemptProof option" where
  "recovery_proof env a = (case attempt_state a of
      AttemptStreaming o' \<Rightarrow> Some \<lparr>proof_turn = att_turn o', proof_step = att_step o',
        proof_generation = att_generation o', proof_phase = PhaseStreaming,
        proof_source_count = length (att_sources o'), proof_source_digest = source_digest env (att_sources o')\<rparr>
    | AttemptFinished f \<Rightarrow> Some \<lparr>proof_turn = fin_turn f, proof_step = fin_step f,
        proof_generation = fin_generation f, proof_phase = PhaseFinished,
        proof_source_count = length (fin_sources f), proof_source_digest = source_digest env (fin_sources f)\<rparr>
    | AttemptSealed s \<Rightarrow> Some \<lparr>proof_turn = sea_turn s, proof_step = sea_step s,
        proof_generation = sea_generation s, proof_phase = PhaseSealed,
        proof_source_count = sea_source_count s, proof_source_digest = sea_source_digest s\<rparr>
    | _ \<Rightarrow> None)"

definition interrupt_for_recovery :: "session_env \<Rightarrow> AttemptProjection \<Rightarrow> TurnId \<Rightarrow> StepId
    \<Rightarrow> RecoveryAttemptProof \<Rightarrow> AttemptError + AttemptProjection" where
  "interrupt_for_recovery env a turn step evidence =
     (if recovery_proof env a \<noteq> Some evidence
      then attempt_boundary ''step/end'' ''the recovery attempt proof no longer matches the open stream''
      else attempt_step_end a turn step (Some DispositionInterrupted))"

end
