(* ===== verification/Live_Projection.thy ===== *)
theory Live_Projection
  imports Projection Attempt
begin

text \<open>
  The session projection with the provider attempt and the token anchor
  (\<open>src/session/projection.rs\<close>): the entry points of a live session, which prepare an event on a
  copy and install it once its row is written, the cold scan that folds the rows of a stored
  journal, and the admission of recovery events. They extend the record of \<open>Projection_State\<close>;
  everything below the attempt is the fold of \<open>Projection\<close>.

  Shared pointers are values. Where the code demands the only reference to the attempt, there is
  one; \<open>Arc::ptr_eq\<close> between the attempt at preparation and at commit is equality.
\<close>

section \<open>State\<close>

text \<open>The resident charge of the usage in an anchor is left out.\<close>

datatype (plugins only: code size) TokenBaseline =
    BaselineEstimated u64
  | BaselineUsage u64 TokenUsage

record TokenMeasurementAnchor =
  anchor_header :: "EpochHeader option"
  anchor_surface_tokens :: u64
  anchor_baseline :: TokenBaseline

record LiveProjection = Projection +
  attempt :: AttemptProjection
  token_anchor :: "TokenMeasurementAnchor option"

definition with_attempt :: "Projection \<Rightarrow> LiveProjection" where
  "with_attempt p = Projection_State.Projection.extend p \<lparr>attempt = attempt_default, token_anchor = None\<rparr>"

definition live_empty :: "ValidationPolicy \<Rightarrow> LiveProjection" where
  "live_empty pol = with_attempt (projection_empty pol)"

definition live_for_session :: "ValidationPolicy \<Rightarrow> SessionId \<Rightarrow> LiveProjection" where
  "live_for_session pol sid = with_attempt (projection_for_session pol sid)"

section \<open>The token anchor\<close>

definition header_tokens :: "session_env \<Rightarrow> EpochHeader option \<Rightarrow> SurfaceError + u64" where
  "header_tokens env h = map_err context_budget_surface_error (case h of
      None \<Rightarrow> Ok 0
    | Some h \<Rightarrow> estimate_request_header env (header_system h)
        (case header_tools h of None \<Rightarrow> [] | Some tools \<Rightarrow> tools))"

definition surface_add :: "u64 \<Rightarrow> u64 \<Rightarrow> SurfaceError + u64" where
  "surface_add a b = ok_or (checked_add a b) TokenAccountingOverflow"

text \<open>The tokens of the whole request as the provider counted them.\<close>

definition usage_tokens :: "TokenUsage \<Rightarrow> SurfaceError + u64" where
  "usage_tokens u = ok_or
     (Option.bind (Option.bind (checked_add (input_tokens u)
          (case cache_read_tokens u of None \<Rightarrow> 0 | Some n \<Rightarrow> n))
        (\<lambda>t. checked_add t (case cache_write_tokens u of None \<Rightarrow> 0 | Some n \<Rightarrow> n)))
        (\<lambda>t. checked_add t (output_tokens u))) TokenAccountingOverflow"

definition prepare_token_anchor :: "session_env \<Rightarrow> LiveProjection \<Rightarrow> SessionEvent
    \<Rightarrow> CommittedAttemptFacts \<Rightarrow> EventValidationError + TokenMeasurementAnchor" where
  "prepare_token_anchor env p e facts = (case event_kind e of
      AssistantMessage _ _ m _ \<Rightarrow> (case boundary p of
          BoundaryStep s \<Rightarrow> map_err EvSurface (
            and_then (header_tokens env (request_header p)) (\<lambda>header.
              case (facts_usage facts, request_header p) of
                (Some usage, Some _) \<Rightarrow>
                  and_then (surface_add (step_start_surface_tokens s) (facts_assistant_tokens facts)) (\<lambda>surface.
                  and_then (surface_add header surface) (\<lambda>estimated.
                  and_then (usage_tokens usage) (\<lambda>used.
                    Ok \<lparr>anchor_header = request_header p, anchor_surface_tokens = surface,
                        anchor_baseline = (if used \<ge> estimated then BaselineUsage used usage
                          else BaselineEstimated estimated)\<rparr>)))
              | _ \<Rightarrow>
                  and_then (if message_content m = [] then Ok 0
                    else map_err context_budget_surface_error (estimate_message env m)) (\<lambda>tokens.
                  and_then (surface_add (step_start_surface_tokens s) tokens) (\<lambda>surface.
                  and_then (surface_add header surface) (\<lambda>estimated.
                    Ok \<lparr>anchor_header = request_header p, anchor_surface_tokens = surface,
                        anchor_baseline = BaselineEstimated estimated\<rparr>)))))
        | _ \<Rightarrow> Err (EvAttempt (AttemptBoundary ''assistant/message''
            ''the token anchor has no matching step/start'')))
    | _ \<Rightarrow> Err (EvAttempt (AttemptBoundary (event_type_static (event_kind e))
        ''only assistant/message can install a token anchor'')))"

fun baseline_tokens :: "TokenBaseline \<Rightarrow> u64" where
  "baseline_tokens (BaselineEstimated t) = t"
| "baseline_tokens (BaselineUsage t _) = t"

fun headers_match :: "EpochHeader option \<Rightarrow> EpochHeader option \<Rightarrow> bool" where
  "headers_match None None = True"
| "headers_match (Some a) (Some b) = header_equivalent a b"
| "headers_match _ _ = False"

definition context_total_tokens :: "session_env \<Rightarrow> LiveProjection \<Rightarrow> SurfaceError + u64" where
  "context_total_tokens env p =
     (let estimated = and_then (header_tokens env (request_header p)) (\<lambda>h. surface_add h (surface_tokens p))
      in case token_anchor p of
        None \<Rightarrow> estimated
      | Some anchor \<Rightarrow>
          if \<not> headers_match (anchor_header anchor) (request_header p) then estimated
          else (let baseline = baseline_tokens (anchor_baseline anchor) in
            if surface_tokens p \<ge> anchor_surface_tokens anchor
            then surface_add baseline (surface_tokens p - anchor_surface_tokens anchor)
            else Ok (saturating_sub baseline (anchor_surface_tokens anchor - surface_tokens p))))"

section \<open>Dispatching and sealing an attempt\<close>

text \<open>The attempt the dispatch was prepared on, and the prepared attempt.\<close>

definition prepare_live_attempt :: "LiveProjection \<Rightarrow> TurnId \<Rightarrow> StepId
    \<Rightarrow> AttemptError + (AttemptProjection \<times> PreparedLiveAttempt)" where
  "prepare_live_attempt p turn step =
     (if open_compaction (compaction p) \<noteq> None
      then attempt_boundary ''provider dispatch'' ''a compaction transaction is still open''
      else and_then
        (if policy p = MemoryCompatible \<and> attempt_outside (attempt p)
         then if open_turn p \<noteq> Some turn \<or> open_step p \<noteq> Some step
              then attempt_boundary ''assistant/chunk'' ''the attempt does not belong to the open step''
              else attempt_step_start (attempt p) turn step
         else Ok (attempt p)) (\<lambda>a.
        and_then (prepare_begin_live a turn step (request_header p)
          (replacement_generation (compaction p))) (\<lambda>l. Ok (attempt p, l))))"

definition commit_live :: "AttemptProjection \<times> PreparedLiveAttempt \<Rightarrow> LiveProjection
    \<Rightarrow> AttemptError + LiveProjection" where
  "commit_live prepared p =
     (if attempt p \<noteq> fst prepared then Err OwnershipChanged
      else Ok (p\<lparr>attempt := commit_live_attempt (snd prepared)\<rparr>))"

definition seal_live_attempt :: "session_env \<Rightarrow> LiveProjection
    \<Rightarrow> AttemptError + (PreparedAttempt \<times> LiveProjection)" where
  "seal_live_attempt env p =
     and_then (take_prepared env (attempt p)) (\<lambda>(prepared, a). Ok (prepared, p\<lparr>attempt := a\<rparr>))"

section \<open>The attempt's part of an event\<close>

fun is_overflow_start :: "EventKind \<Rightarrow> bool" where
  "is_overflow_start (CompactionStart s) = (case start_dispatch s of
      None \<Rightarrow> False | Some d \<Rightarrow> dispatch_trigger d = TriggerContextOverflow)"
| "is_overflow_start _ = False"

fun is_compaction_start :: "EventKind \<Rightarrow> bool" where
  "is_compaction_start (CompactionStart _) = True"
| "is_compaction_start _ = False"

fun is_attempt_event :: "EventKind \<Rightarrow> bool" where
  "is_attempt_event (AssistantChunk _ _ _) = True"
| "is_attempt_event (AssistantMessage _ _ _ _) = True"
| "is_attempt_event (LlmRetry _) = True"
| "is_attempt_event _ = False"

fun is_retry_started :: "EventKind \<Rightarrow> bool" where
  "is_retry_started (LlmRetryStarted _) = True"
| "is_retry_started _ = False"

fun is_step_boundary :: "EventKind \<Rightarrow> bool" where
  "is_step_boundary (StepStart _ _) = True"
| "is_step_boundary (StepEnd _ _) = True"
| "is_step_boundary _ = False"

definition reject_unowned_context_overflow_start ::
    "LiveProjection \<Rightarrow> SessionEvent \<Rightarrow> EventValidationError + unit" where
  "reject_unowned_context_overflow_start p e =
     (if (policy p = DurableStrict \<or> \<not> attempt_outside (attempt p)) \<and> is_overflow_start (event_kind e)
      then Err (EvTransition (DurableAttemptEventNotAllowed ''compaction/start'')) else Ok ())"

definition reject_unowned_attempt_event :: "LiveProjection \<Rightarrow> SessionEvent \<Rightarrow> EventValidationError + unit" where
  "reject_unowned_attempt_event p e =
     (if (policy p = DurableStrict \<or> \<not> attempt_outside (attempt p)) \<and> is_attempt_event (event_kind e)
      then Err (EvTransition (DurableAttemptEventNotAllowed (event_type_static (event_kind e)))) else Ok ())"

definition set_attempt :: "LiveProjection \<Rightarrow> AttemptError + AttemptProjection
    \<Rightarrow> EventValidationError + LiveProjection" where
  "set_attempt p r = map_err EvAttempt (and_then r (\<lambda>a. Ok (p\<lparr>attempt := a\<rparr>)))"

definition apply_context_overflow_transition ::
    "LiveProjection \<Rightarrow> SessionEvent \<Rightarrow> EventValidationError + LiveProjection" where
  "apply_context_overflow_transition p e = set_attempt p (case boundary p of
      BoundaryStep s \<Rightarrow> context_overflow (attempt p) (step_turn s) (step_id s)
        (replacement_generation (compaction p)) (is_compaction_start (event_kind e))
    | _ \<Rightarrow> attempt_boundary (event_type_static (event_kind e))
        ''context-overflow recovery requires the matching open step'')"

text \<open>Which event may close an attempt with which disposition.\<close>

definition legal_closure :: "AttemptDisposition option \<Rightarrow> EventKind \<Rightarrow> bool" where
  "legal_closure disposition k = (case k of
      AssistantMessage _ _ _ _ \<Rightarrow> disposition = Some DispositionCommitted
    | LlmRetry _ \<Rightarrow> disposition = Some DispositionRetry
    | StepEnd _ _ \<Rightarrow>
        disposition \<in> Some ` {DispositionFailed, DispositionCancelled, DispositionInterrupted}
    | CompactionStart _ \<Rightarrow> disposition = Some DispositionContextOverflow \<and> is_overflow_start k
    | _ \<Rightarrow> False)"

definition commit_assistant :: "session_env \<Rightarrow> LiveProjection \<Rightarrow> SessionEvent
    \<Rightarrow> EventValidationError + LiveProjection" where
  "commit_assistant env p e =
     and_then (map_err EvAttempt (attempt_assistant env (attempt p) e)) (\<lambda>(a, facts).
     and_then (prepare_token_anchor env p e facts) (\<lambda>anchor.
       Ok (p\<lparr>token_anchor := Some anchor, attempt := a\<rparr>)))"

text \<open>The last match of \<open>apply_attempt_transition\<close>.\<close>

definition apply_attempt_event :: "session_env \<Rightarrow> LiveProjection \<Rightarrow> SessionEvent \<Rightarrow> ValidationAdmission
    \<Rightarrow> AttemptDisposition option \<Rightarrow> EventValidationError + LiveProjection" where
  "apply_attempt_event env p e admission disposition = (case event_kind e of
      StepStart turn step \<Rightarrow> set_attempt p
        (if disposition \<noteq> None
         then attempt_boundary ''step/start'' ''step/start cannot close a provider attempt''
         else attempt_step_start (attempt p) turn step)
    | AssistantMessage _ _ _ _ \<Rightarrow>
        if disposition \<noteq> Some DispositionCommitted \<and> admission = OwnedAttempt
        then Err (EvAttempt (AttemptBoundary ''assistant/message''
          ''assistant/message requires the committed disposition''))
        else commit_assistant env p e
    | LlmRetry _ \<Rightarrow> set_attempt p
        (if disposition \<noteq> Some DispositionRetry \<and> admission = OwnedAttempt
         then attempt_boundary ''llm/retry'' ''llm/retry requires the retry disposition''
         else attempt_retry env (attempt p) e)
    | LlmRetryStarted started \<Rightarrow>
        if disposition \<noteq> None
        then Err (EvAttempt (AttemptBoundary ''llm/retry-started''
          ''retry-started cannot close a provider attempt''))
        else if open_turn p \<noteq> Some (started_turn started) \<or> open_step p \<noteq> Some (started_step started)
        then Ok p
        else set_attempt p (attempt_retry_started (attempt p) (started_turn started) (started_step started))
    | StepEnd turn step \<Rightarrow> set_attempt p (attempt_step_end (attempt p) turn step
        (if admission = ColdScan \<and> has_open_attempt (attempt p) then Some DispositionFailed else disposition))
    | _ \<Rightarrow> Ok p)"

definition apply_attempt_transition :: "session_env \<Rightarrow> LiveProjection \<Rightarrow> SessionEvent
    \<Rightarrow> ValidationAdmission \<Rightarrow> AttemptDisposition option \<Rightarrow> EventValidationError + LiveProjection" where
  "apply_attempt_transition env p e admission disposition =
     (if policy p = MemoryCompatible \<and> admission \<noteq> OwnedAttempt \<and> attempt_outside (attempt p) then Ok p
      else if admission = OwnedAttempt \<and> \<not> legal_closure disposition (event_kind e)
      then Err (EvAttempt (AttemptBoundary (event_type_static (event_kind e))
        ''the closure event does not match its attempt disposition''))
      else if disposition = Some DispositionContextOverflow then apply_context_overflow_transition p e
      else if admission = ColdScan \<and> is_overflow_start (event_kind e)
      then (if overflow_used (attempt p) \<and> \<not> has_open_attempt (attempt p)
            then set_attempt p (case boundary p of
                BoundaryStep s \<Rightarrow> context_overflow_start (attempt p) (step_turn s) (step_id s)
              | _ \<Rightarrow> attempt_boundary ''compaction/start''
                  ''context-overflow compaction requires the matching open step'')
            else apply_context_overflow_transition p e)
      else if admission = ColdScan \<and> is_prune (event_kind e) \<and> open_step p \<noteq> None
        \<and> has_open_attempt (attempt p)
      then apply_context_overflow_transition p e
      else apply_attempt_event env p e admission disposition)"

section \<open>Live events\<close>

text \<open>The code between validation and commit that \<open>with_event\<close> and \<open>prepare_durable_event\<close>
  share. A retry that started reopens the attempt after the turn state accepted it; the boundaries of
  a step move the attempt before.\<close>

definition apply_ordinary_event :: "session_env \<Rightarrow> SurfaceRowBinding \<Rightarrow> LiveProjection \<Rightarrow> SessionEvent
    \<Rightarrow> EventValidationError + LiveProjection" where
  "apply_ordinary_event env binding p e =
     and_then (event_validate env (event_kind e)) (\<lambda>_.
     and_then (reject_unowned_attempt_event p e) (\<lambda>_.
     and_then (apply_goal_transition p e) (\<lambda>p.
     and_then (next_compaction_state env p e Ordinary) (\<lambda>c.
     and_then (reject_unowned_context_overflow_start p e) (\<lambda>_.
     and_then (if is_retry_started (event_kind e)
       then and_then (map_err EvTransition (apply_transition p e Ordinary)) (\<lambda>p.
         apply_attempt_transition env p e Ordinary None)
       else and_then (if is_step_boundary (event_kind e)
           then apply_attempt_transition env p e Ordinary None else Ok p) (\<lambda>p.
         map_err EvTransition (apply_transition p e Ordinary))) (\<lambda>p.
     and_then (map_err EvSurface (apply_surface env p e binding)) (\<lambda>p.
       Ok (p\<lparr>compaction := c\<rparr>))))))))"

definition with_event :: "session_env \<Rightarrow> LiveProjection \<Rightarrow> SessionEvent
    \<Rightarrow> EventValidationError + LiveProjection" where
  "with_event env p e = apply_ordinary_event env BindMemory p e"

datatype (plugins only: code size) PreparedDurableProjection =
    PreparedReplace LiveProjection "EventSeq option"
  | PreparedChunk PreparedAttemptChunk CompactionState

definition prepare_durable_event :: "session_env \<Rightarrow> LiveProjection \<Rightarrow> SessionEvent
    \<Rightarrow> EventValidationError + PreparedDurableProjection" where
  "prepare_durable_event env p e =
     and_then (apply_ordinary_event env BindPendingDurable p e) (\<lambda>p.
       Ok (PreparedReplace p (pending_tool_result e)))"

definition prepare_durable_attempt_chunk :: "session_env \<Rightarrow> LiveProjection \<Rightarrow> SessionEvent
    \<Rightarrow> EventValidationError + PreparedDurableProjection" where
  "prepare_durable_attempt_chunk env p e =
     and_then (event_validate env (event_kind e)) (\<lambda>_. case event_kind e of
       AssistantChunk turn step _ \<Rightarrow>
         and_then (map_err EvTransition (require_open_step p (event_type_static (event_kind e)) turn step)) (\<lambda>_.
         if event_surface_op e \<noteq> None \<or> event_sources e \<noteq> None
         then Err (EvSurface (MetadataOnIneligibleEvent (event_type (event_kind e))))
         else and_then (next_compaction_state env p e OwnedAttempt) (\<lambda>c.
           and_then (map_err EvAttempt (prepare_attempt_chunk env (attempt p) e (request_header p)
             (replacement_generation (compaction p)))) (\<lambda>prepared.
             Ok (PreparedChunk prepared c))))
     | _ \<Rightarrow> Err (EvTransition (DurableAttemptEventNotAllowed (event_type_static (event_kind e)))))"

definition prepare_durable_attempt_closure :: "session_env \<Rightarrow> LiveProjection \<Rightarrow> SessionEvent
    \<Rightarrow> AttemptDisposition \<Rightarrow> EventValidationError + PreparedDurableProjection" where
  "prepare_durable_attempt_closure env p e disposition =
     and_then (event_validate env (event_kind e)) (\<lambda>_.
     and_then (next_compaction_state env p e OwnedAttempt) (\<lambda>c.
     and_then (apply_attempt_transition env p e OwnedAttempt (Some disposition)) (\<lambda>p.
     and_then (map_err EvTransition (apply_transition p e OwnedAttempt)) (\<lambda>p.
     and_then (map_err EvSurface (apply_surface env p e BindPendingDurable)) (\<lambda>p.
       Ok (PreparedReplace (p\<lparr>compaction := c\<rparr>) None))))))"

text \<open>\<open>prepare_owned_prune_event\<close> does not touch the attempt: \<open>Projection.prepare_owned_prune_event\<close>
  is the model of its body.\<close>

definition live_owned_prune_event :: "session_env \<Rightarrow> LiveProjection \<Rightarrow> SessionEvent
    \<Rightarrow> EventValidationError + PreparedDurableProjection" where
  "live_owned_prune_event env p e =
     and_then (prepare_owned_prune_event env p e) (\<lambda>(p, pending). Ok (PreparedReplace p pending))"

definition prepare_owned_overflow_prune_event :: "session_env \<Rightarrow> LiveProjection \<Rightarrow> SessionEvent
    \<Rightarrow> EventValidationError + PreparedDurableProjection" where
  "prepare_owned_overflow_prune_event env p e =
     and_then (event_validate env (event_kind e)) (\<lambda>_.
     and_then (next_compaction_state env p e OwnedOverflowPrune) (\<lambda>c.
     and_then (apply_context_overflow_transition p e) (\<lambda>p.
     and_then (map_err EvTransition (apply_transition p e OwnedOverflowPrune)) (\<lambda>p.
     and_then (map_err EvSurface (apply_surface env p e BindPendingDurable)) (\<lambda>p.
       Ok (PreparedReplace (p\<lparr>compaction := c\<rparr>) None))))))"

text \<open>\<open>PreparedDurableProjection::commit\<close> and \<open>commit_memory\<close>; None is a refusal.\<close>

definition commit_prepared_chunk :: "PreparedAttemptChunk \<Rightarrow> CompactionState \<Rightarrow> LiveProjection
    \<Rightarrow> LiveProjection option" where
  "commit_prepared_chunk prepared c p =
     map_option (\<lambda>a. p\<lparr>attempt := a, compaction := c\<rparr>) (commit_chunk (attempt p) prepared)"

definition durable_commit :: "PreparedDurableProjection \<Rightarrow> LiveProjection \<Rightarrow> JournalRowLocator
    \<Rightarrow> LiveProjection option" where
  "durable_commit prepared current row = (case prepared of
      PreparedReplace p pending \<Rightarrow> commit_replace (p, pending) row
    | PreparedChunk chunk c \<Rightarrow> commit_prepared_chunk chunk c current)"

definition durable_commit_memory :: "PreparedDurableProjection \<Rightarrow> LiveProjection \<Rightarrow> LiveProjection option" where
  "durable_commit_memory prepared current = (case prepared of
      PreparedReplace p pending \<Rightarrow> commit_memory (p, pending)
    | PreparedChunk chunk c \<Rightarrow> commit_prepared_chunk chunk c current)"

definition prepared_event_time :: "SessionEvent \<Rightarrow> PreparedDurableProjection \<Rightarrow> PreparedDurableProjection" where
  "prepared_event_time e prepared = (case prepared of
      PreparedReplace p pending \<Rightarrow> PreparedReplace (set_committed_event_time e p) pending
    | PreparedChunk chunk c \<Rightarrow> PreparedChunk chunk c)"

section \<open>The cold scan\<close>

definition scan_chunk_row :: "session_env \<Rightarrow> LiveProjection \<Rightarrow> SessionEvent \<Rightarrow> JournalRowLocator
    \<Rightarrow> TurnId \<Rightarrow> StepId \<Rightarrow> EventValidationError + LiveProjection" where
  "scan_chunk_row env p e row turn step =
     and_then (map_err EvTransition (require_open_step p (event_type_static (event_kind e)) turn step)) (\<lambda>_.
     and_then (next_compaction_state env p e ColdScan) (\<lambda>c.
     and_then (map_err EvSurface (apply_surface env p e (BindDurable row))) (\<lambda>p.
     and_then (map_err EvAttempt (prepare_attempt_chunk env (attempt p) e (request_header p)
       (replacement_generation (compaction p)))) (\<lambda>prepared.
       ok_or (commit_prepared_chunk prepared c p) (EvAttempt (AttemptBoundary ''assistant/chunk''
         ''cold attempt fold changed after validation''))))))"

definition apply_scanned_row :: "session_env \<Rightarrow> LiveProjection \<Rightarrow> SessionEvent \<Rightarrow> JournalRowLocator
    \<Rightarrow> EventValidationError + LiveProjection" where
  "apply_scanned_row env p e row =
     and_then (event_validate env (event_kind e)) (\<lambda>_. case event_kind e of
       AssistantChunk turn step _ \<Rightarrow> scan_chunk_row env p e row turn step
     | _ \<Rightarrow>
         and_then (next_compaction_state env p e ColdScan) (\<lambda>c.
         and_then (apply_goal_transition p e) (\<lambda>p.
         and_then (if is_retry_started (event_kind e)
           then and_then (map_err EvTransition (apply_transition p e ColdScan)) (\<lambda>p.
             apply_attempt_transition env p e ColdScan None)
           else and_then (apply_attempt_transition env p e ColdScan None) (\<lambda>p.
             map_err EvTransition (apply_transition p e ColdScan))) (\<lambda>p.
         and_then (map_err EvSurface (apply_surface env p e (BindDurable row))) (\<lambda>p.
           Ok (p\<lparr>compaction := c\<rparr>))))))"

section \<open>Recovery\<close>

datatype (plugins only: code size) RecoveryAction =
    CancelApproval ApprovalRequestId
  | RepairCall call_id
  | CloseStep TurnId StepId "RecoveryAttemptProof option"
  | CloseTurn TurnId
  | EndSeedAction

definition recovery_mismatch :: "EventKind \<Rightarrow> EventValidationError + 'a" where
  "recovery_mismatch k = Err (EvAttempt (AttemptBoundary (event_type_static k)
     ''the recovery action does not match its deterministic event''))"

definition admit_recovery_action :: "session_env \<Rightarrow> LiveProjection \<Rightarrow> RecoveryAction \<Rightarrow> EventKind
    \<Rightarrow> EventValidationError + LiveProjection" where
  "admit_recovery_action env p action k = (case (action, k) of
      (CancelApproval i, ApprovalDecided d) \<Rightarrow>
        if decided_id d = i \<and> decided_outcome d = OutcomeCancelled then Ok p else recovery_mismatch k
    | (RepairCall call_id, ToolResult _ _ m _ _) \<Rightarrow>
        if validate_tool_result m = Inr call_id then Ok p else recovery_mismatch k
    | (CloseStep action_turn action_step interrupted, StepEnd turn step) \<Rightarrow>
        if action_turn = turn \<and> action_step = step
        then set_attempt p (case interrupted of
            Some evidence \<Rightarrow> interrupt_for_recovery env (attempt p) turn step evidence
          | None \<Rightarrow> attempt_step_end (attempt p) turn step None)
        else recovery_mismatch k
    | (CloseTurn action_turn, TurnEnd turn TurnInterrupted) \<Rightarrow>
        if action_turn = turn then Ok p else recovery_mismatch k
    | (EndSeedAction, EndSeed) \<Rightarrow> if attempt_outside (attempt p) then Ok p else recovery_mismatch k
    | _ \<Rightarrow> recovery_mismatch k)"

definition apply_recovery_admission :: "session_env \<Rightarrow> LiveProjection \<Rightarrow> SessionEvent \<Rightarrow> RecoveryAction
    \<Rightarrow> JournalRowLocator option \<Rightarrow> EventValidationError + LiveProjection" where
  "apply_recovery_admission env p e action row =
     and_then (event_validate env (event_kind e)) (\<lambda>_.
     and_then (admit_recovery_action env p action (event_kind e)) (\<lambda>p.
     and_then (next_compaction_state env p e HistoricalScan) (\<lambda>c.
     and_then (map_err EvTransition (apply_transition p e HistoricalScan)) (\<lambda>p.
     and_then (map_err EvSurface (apply_surface env p e
       (case row of None \<Rightarrow> BindPendingDurable | Some r \<Rightarrow> BindDurable r))) (\<lambda>p.
       Ok (p\<lparr>compaction := c\<rparr>))))))"

datatype (plugins only: code size) RecoveryApproval =
    RecoveryApprovalNone
  | RecoveryApprovalPending ApprovalRequestId
  | RecoveryApprovalDecided ApprovalRequestId ApprovalOutcome

record RecoveryCall =
  recovery_call_id :: call_id
  recovery_call_name :: string
  recovery_intent_seq :: "EventSeq option"
  recovery_approval :: RecoveryApproval
  recovery_result_seen :: bool

record RecoverySnapshot =
  snapshot_turn :: "TurnId option"
  snapshot_step :: "StepId option"
  snapshot_calls :: "RecoveryCall list"
  snapshot_attempt :: "RecoveryAttemptProof option"

fun recovery_approval_of :: "DurableApproval option \<Rightarrow> RecoveryApproval" where
  "recovery_approval_of None = RecoveryApprovalNone"
| "recovery_approval_of (Some (ApprovalPending i)) = RecoveryApprovalPending i"
| "recovery_approval_of (Some (ApprovalResolved i out)) = RecoveryApprovalDecided i out"

definition recovery_call :: "DurableDeclaredCall \<Rightarrow> RecoveryCall" where
  "recovery_call c = \<lparr>recovery_call_id = declared_id c, recovery_call_name = declared_name c,
     recovery_intent_seq = declared_intent_seq c,
     recovery_approval = recovery_approval_of (declared_approval c),
     recovery_result_seen = declared_result_seen c\<rparr>"

definition recovery_snapshot :: "session_env \<Rightarrow> LiveProjection \<Rightarrow> RecoverySnapshot" where
  "recovery_snapshot env p = \<lparr>snapshot_turn = open_turn p, snapshot_step = open_step p,
     snapshot_calls = (case boundary p of
       BoundaryStep s \<Rightarrow> map recovery_call (step_declared_calls s) | _ \<Rightarrow> []),
     snapshot_attempt = recovery_proof env (attempt p)\<rparr>"

definition is_quiescent_for_search :: "LiveProjection \<Rightarrow> bool" where
  "is_quiescent_for_search p \<longleftrightarrow> boundary p = BoundaryIdle \<and> pending_approvals p = []
     \<and> \<not> has_pending_durable_call p \<and> open_compaction (compaction p) = None
     \<and> attempt_outside (attempt p)"

end
