(* ===== verification/Live_Session.thy ===== *)
theory Live_Session
  imports Live_Projection
begin

text \<open>
  The owner of a durable session (\<open>src/session/mod.rs\<close>): which provider attempt is active, who may
  append what, and the append of one event: number it, prepare the projection on it, stamp the time,
  install the projection under the row of the journal, and close the attempt. Only what decides about
  the projection is here. The byte quotas, the encoding of rows, the batches of the writer and the
  resident credits can only refuse an append, and a refusal leaves the session as it was.

  There is one session with one reservation, so the pointer checks of tokens hold, and a token is its
  nonce, turn and step.
\<close>

section \<open>State\<close>

datatype (plugins only: code size) AppendError =
    AppendValidation EventValidationError
  | AppendClock
  | DurableEventLimit u64
  | DurablePoisoned
  | SequenceExhausted

record AttemptToken =
  token_nonce :: u64
  token_turn :: TurnId
  token_step :: StepId

datatype (plugins only: code size) ActiveAttemptPhase =
    PhaseOpen
  | PhaseClosed EventSeq u64 AttemptDisposition

record ActiveAttemptOwner =
  owner_nonce :: u64
  owner_turn :: TurnId
  owner_step :: StepId
  owner_phase :: ActiveAttemptPhase

datatype (plugins only: code size) AttemptOperationKind =
    OperationChunk
  | OperationClosure AttemptDisposition

datatype (plugins only: code size) DurableOperationOwner =
    OwnerOrdinary
  | OwnerAttempt u64 AttemptOperationKind
  | OwnerOverflowPruneMarker u64
  | OwnerOwnedPrune

record LiveSession =
  live :: LiveProjection
  active_attempt :: "ActiveAttemptOwner option"
  next_attempt_nonce :: u64
  live_next_seq :: "EventSeq option"
  logical_event_count :: u64
  barrier_epoch :: u64

type_synonym JournalRow = "SessionEvent \<times> JournalRowLocator"

definition MAX_DURABLE_LOGICAL_EVENTS :: u64 where
  "MAX_DURABLE_LOGICAL_EVENTS = 1000000"

definition DURABLE_REPAIR_RESERVED_EVENTS :: u64 where
  "DURABLE_REPAIR_RESERVED_EVENTS = 68"

definition new_durable_session :: "SessionId \<Rightarrow> LiveSession" where
  "new_durable_session sid = \<lparr>live = live_for_session DurableStrict sid, active_attempt = None,
     next_attempt_nonce = 1, live_next_seq = event_seq_from_index 0, logical_event_count = 0,
     barrier_epoch = 0\<rparr>"

section \<open>Tokens\<close>

definition invalid_attempt :: "string \<Rightarrow> AppendError + 'a" where
  "invalid_attempt detail = Err (AppendValidation (EvAttempt (AttemptBoundary ''provider attempt'' detail)))"

definition validate_open_attempt_token :: "LiveSession \<Rightarrow> AttemptToken \<Rightarrow> AppendError + unit" where
  "validate_open_attempt_token s tok = (case active_attempt s of
      Some a \<Rightarrow>
        if owner_nonce a = token_nonce tok \<and> owner_turn a = token_turn tok
          \<and> owner_step a = token_step tok \<and> owner_phase a = PhaseOpen
        then Ok ()
        else invalid_attempt ''attempt token is stale, closed, or belongs to another step''
    | None \<Rightarrow> invalid_attempt ''attempt token is stale, closed, or belongs to another step'')"

definition validate_attempt_operation_owner :: "LiveSession \<Rightarrow> u64 \<Rightarrow> AppendError + unit" where
  "validate_attempt_operation_owner s nonce = (case active_attempt s of
      Some a \<Rightarrow>
        if owner_nonce a = nonce \<and> owner_phase a = PhaseOpen then Ok ()
        else invalid_attempt ''attempt operation is stale or its closure already committed''
    | None \<Rightarrow> invalid_attempt ''attempt operation is stale or its closure already committed'')"

definition begin_attempt :: "LiveSession \<Rightarrow> TurnId \<Rightarrow> StepId \<Rightarrow> AppendError + (AttemptToken \<times> LiveSession)" where
  "begin_attempt s turn step =
     (if active_attempt s \<noteq> None then invalid_attempt ''another provider attempt is still owned''
      else and_then (ok_or (checked_add (next_attempt_nonce s) 1) SequenceExhausted) (\<lambda>next_nonce.
        and_then (map_err (\<lambda>e. AppendValidation (EvAttempt e)) (prepare_live_attempt (live s) turn step))
          (\<lambda>prepared.
        and_then (map_err (\<lambda>e. AppendValidation (EvAttempt e)) (commit_live prepared (live s))) (\<lambda>p.
          Ok (\<lparr>token_nonce = next_attempt_nonce s, token_turn = turn, token_step = step\<rparr>,
              s\<lparr>live := p, next_attempt_nonce := next_nonce,
                active_attempt := Some \<lparr>owner_nonce = next_attempt_nonce s, owner_turn = turn,
                  owner_step = step, owner_phase = PhaseOpen\<rparr>\<rparr>)))))"

definition seal_attempt :: "session_env \<Rightarrow> LiveSession \<Rightarrow> AttemptToken
    \<Rightarrow> AppendError + (PreparedAttempt \<times> LiveSession)" where
  "seal_attempt env s tok =
     and_then (validate_open_attempt_token s tok) (\<lambda>_.
     and_then (map_err (\<lambda>e. AppendValidation (EvAttempt e)) (seal_live_attempt env (live s)))
       (\<lambda>(prepared, p). Ok (prepared, s\<lparr>live := p\<rparr>)))"

definition retire_attempt :: "LiveSession \<Rightarrow> AttemptToken \<Rightarrow> AppendError + LiveSession" where
  "retire_attempt s tok = (case active_attempt s of
      None \<Rightarrow> invalid_attempt ''attempt token is no longer active''
    | Some a \<Rightarrow>
        if owner_nonce a \<noteq> token_nonce tok \<or> owner_turn a \<noteq> token_turn tok \<or> owner_step a \<noteq> token_step tok
        then invalid_attempt ''attempt token does not match the active owner''
        else (case owner_phase a of
            PhaseOpen \<Rightarrow> invalid_attempt ''attempt has not committed its closure''
          | PhaseClosed _ epoch _ \<Rightarrow>
              if barrier_epoch s \<le> epoch
              then invalid_attempt ''attempt closure has not crossed a storage barrier''
              else Ok (s\<lparr>active_attempt := None\<rparr>)))"

text \<open>\<open>settle_barrier\<close>: all rows so far are on storage. None poisons the session.\<close>

definition cross_barrier :: "LiveSession \<Rightarrow> LiveSession option" where
  "cross_barrier s = map_option (\<lambda>epoch. s\<lparr>barrier_epoch := epoch\<rparr>) (checked_add (barrier_epoch s) 1)"

section \<open>Appending one event\<close>

definition placeholder_time :: UnixMillis where
  "placeholder_time = uint MAX_SAFE_INTEGER"

definition prepare_for_owner :: "session_env \<Rightarrow> DurableOperationOwner \<Rightarrow> LiveProjection \<Rightarrow> SessionEvent
    \<Rightarrow> EventValidationError + PreparedDurableProjection" where
  "prepare_for_owner env owner p e = (case owner of
      OwnerOwnedPrune \<Rightarrow> live_owned_prune_event env p e
    | OwnerOverflowPruneMarker _ \<Rightarrow> prepare_owned_overflow_prune_event env p e
    | OwnerAttempt _ OperationChunk \<Rightarrow> prepare_durable_attempt_chunk env p e
    | OwnerAttempt _ (OperationClosure disposition) \<Rightarrow> prepare_durable_attempt_closure env p e disposition
    | OwnerOrdinary \<Rightarrow> prepare_durable_event env p e)"

text \<open>The disposition with which an operation closes the active attempt.\<close>

fun closing_disposition :: "DurableOperationOwner \<Rightarrow> AttemptDisposition option" where
  "closing_disposition (OwnerAttempt _ (OperationClosure d)) = Some d"
| "closing_disposition (OwnerOverflowPruneMarker _) = Some DispositionContextOverflow"
| "closing_disposition _ = None"

fun operation_nonce :: "DurableOperationOwner \<Rightarrow> u64 option" where
  "operation_nonce (OwnerAttempt nonce _) = Some nonce"
| "operation_nonce (OwnerOverflowPruneMarker nonce) = Some nonce"
| "operation_nonce _ = None"

definition close_active_attempt :: "LiveSession \<Rightarrow> DurableOperationOwner \<Rightarrow> EventSeq \<Rightarrow> LiveSession" where
  "close_active_attempt s owner seq = (case closing_disposition owner of
      None \<Rightarrow> s
    | Some d \<Rightarrow> s\<lparr>active_attempt := map_option
        (\<lambda>a. a\<lparr>owner_phase := PhaseClosed seq (barrier_epoch s) d\<rparr>) (active_attempt s)\<rparr>)"

definition next_logical_events :: "LiveSession \<Rightarrow> u64 \<Rightarrow> AppendError + u64" where
  "next_logical_events s protected =
     and_then (ok_or (Option.bind (checked_add (logical_event_count s) 1) (\<lambda>n. checked_add n protected))
       SequenceExhausted) (\<lambda>logical.
       let ordinary_max = MAX_DURABLE_LOGICAL_EVENTS - DURABLE_REPAIR_RESERVED_EVENTS in
       if logical > ordinary_max then Err (DurableEventLimit ordinary_max) else Ok (logical - protected))"

text \<open>\<open>try_commit_durable\<close>. The row's offset, length and digest come from the encoded row; its
  sequence number is the event's.\<close>

definition try_commit_durable :: "session_env \<Rightarrow> LiveSession \<Rightarrow> DurableOperationOwner \<Rightarrow> u64 \<Rightarrow> NewEvent
    \<Rightarrow> json \<Rightarrow> UnixMillis \<Rightarrow> JournalRowLocator \<Rightarrow> AppendError + (LiveSession \<times> JournalRow)" where
  "try_commit_durable env s owner protected new data time row =
     and_then (case operation_nonce owner of
         None \<Rightarrow> Ok () | Some nonce \<Rightarrow> validate_attempt_operation_owner s nonce) (\<lambda>_.
     and_then (ok_or (live_next_seq s) SequenceExhausted) (\<lambda>seq.
     and_then (next_logical_events s protected) (\<lambda>logical.
       let event = event_from_new seq placeholder_time new data; row = row\<lparr>row_seq := seq\<rparr> in
       if is_unknown (event_kind event) then Err (AppendValidation UnknownLiveEvent)
       else and_then (map_err AppendValidation (prepare_for_owner env owner (live s) event)) (\<lambda>prepared.
         if time < 0 then Err AppendClock
         else let event = event\<lparr>event_time := time\<rparr> in
           and_then (ok_or (durable_commit (prepared_event_time event prepared) (live s) row) DurablePoisoned)
             (\<lambda>p. Ok ((close_active_attempt (s\<lparr>live := p\<rparr>) owner seq)
                \<lparr>live_next_seq := safe_successor seq, logical_event_count := logical\<rparr>, (event, row)))))))"

definition append_ordinary :: "session_env \<Rightarrow> LiveSession \<Rightarrow> u64 \<Rightarrow> NewEvent \<Rightarrow> json \<Rightarrow> UnixMillis
    \<Rightarrow> JournalRowLocator \<Rightarrow> AppendError + (LiveSession \<times> JournalRow)" where
  "append_ordinary env s protected new data time row =
     try_commit_durable env s OwnerOrdinary protected new data time row"

definition append_attempt_chunk :: "session_env \<Rightarrow> LiveSession \<Rightarrow> AttemptToken \<Rightarrow> u64 \<Rightarrow> StreamChunk \<Rightarrow> json
    \<Rightarrow> UnixMillis \<Rightarrow> JournalRowLocator \<Rightarrow> AppendError + (LiveSession \<times> JournalRow)" where
  "append_attempt_chunk env s tok protected chunk data time row =
     and_then (validate_open_attempt_token s tok) (\<lambda>_.
       try_commit_durable env s (OwnerAttempt (token_nonce tok) OperationChunk) protected
         \<lparr>new_kind = AssistantChunk (token_turn tok) (token_step tok) chunk, new_surface = None\<rparr>
         data time row)"

definition append_attempt_closure :: "session_env \<Rightarrow> LiveSession \<Rightarrow> AttemptToken \<Rightarrow> AttemptDisposition
    \<Rightarrow> u64 \<Rightarrow> NewEvent \<Rightarrow> json \<Rightarrow> UnixMillis \<Rightarrow> JournalRowLocator
    \<Rightarrow> AppendError + (LiveSession \<times> JournalRow)" where
  "append_attempt_closure env s tok disposition protected new data time row =
     and_then (validate_open_attempt_token s tok) (\<lambda>_.
       try_commit_durable env s (OwnerAttempt (token_nonce tok) (OperationClosure disposition)) protected
         new data time row)"

section \<open>Pruning\<close>

text \<open>The two events of a prune pair, as \<open>append_prune_pair_with_attempt\<close> builds them. The payload of
  the replacement is decoded from the pruned row.\<close>

definition prune_marker :: "EventSeq \<Rightarrow> NonNegativeSafeInteger \<Rightarrow> NewEvent" where
  "prune_marker target tokens = \<lparr>new_kind = CompactionPrune
     \<lparr>prune_shadowed_range = \<lparr>range_start = target, range_end = target\<rparr>, prune_shadowed_seqs = [target],
      prune_shadowed_token_count = tokens\<rparr>, new_surface = None\<rparr>"

definition prune_replacement :: "EventSeq \<Rightarrow> EventKind \<Rightarrow> NewEvent" where
  "prune_replacement target k = \<lparr>new_kind = k, new_surface = Some
     \<lparr>intent_operation = SurfaceReplace target target, intent_sources = Some [target]\<rparr>\<rparr>"

definition append_prune_marker :: "session_env \<Rightarrow> LiveSession \<Rightarrow> AttemptToken option \<Rightarrow> u64 \<Rightarrow> EventSeq
    \<Rightarrow> NonNegativeSafeInteger \<Rightarrow> json \<Rightarrow> UnixMillis \<Rightarrow> JournalRowLocator
    \<Rightarrow> AppendError + (LiveSession \<times> JournalRow)" where
  "append_prune_marker env s overflow_attempt protected target tokens data time row =
     and_then (case overflow_attempt of
         Some tok \<Rightarrow> validate_open_attempt_token s tok
       | None \<Rightarrow> if active_attempt s \<noteq> None
           then invalid_attempt ''a model-free prune cannot run while a provider attempt is active'' else Ok ())
       (\<lambda>_. try_commit_durable env s (case overflow_attempt of
           Some tok \<Rightarrow> OwnerOverflowPruneMarker (token_nonce tok) | None \<Rightarrow> OwnerOwnedPrune)
         protected (prune_marker target tokens) data time row)"

definition append_prune_replacement :: "session_env \<Rightarrow> LiveSession \<Rightarrow> u64 \<Rightarrow> EventSeq \<Rightarrow> EventKind \<Rightarrow> json
    \<Rightarrow> UnixMillis \<Rightarrow> JournalRowLocator \<Rightarrow> AppendError + (LiveSession \<times> JournalRow)" where
  "append_prune_replacement env s protected target k data time row =
     try_commit_durable env s OwnerOwnedPrune protected (prune_replacement target k) data time row"

end
