(* ===== verification/Live_Frame.thy ===== *)
theory Live_Frame
  imports Live_Projection
begin

text \<open>
  The fold below the attempt does not look at the attempt: every operation commutes with exchanging
  it. The two bindings of a row agree once the row is known, and so do the two readings of the clock.
\<close>

section \<open>Exchanging the attempt\<close>

definition map_ok :: "('a \<Rightarrow> 'b) \<Rightarrow> 'e + 'a \<Rightarrow> 'e + 'b" where
  "map_ok f r = and_then r (\<lambda>x. Inr (f x))"

lemma map_ok_simps [simp]: "map_ok f (Inl e) = Inl e" "map_ok f (Inr x) = Inr (f x)"
  by (simp_all add: map_ok_def)

lemma map_ok_and_then [simp]: "map_ok f (and_then r g) = and_then r (\<lambda>x. map_ok f (g x))"
  by (cases r) simp_all

lemma and_then_map_ok [simp]: "and_then (map_ok f r) g = and_then r (\<lambda>x. g (f x))"
  by (cases r) simp_all

lemma map_err_map_ok [simp]: "map_ok f (map_err h r) = map_err h (map_ok f r)"
  by (cases r) simp_all

lemma and_then_map_err_ok [simp]: "and_then (map_err h (map_ok f r)) g = and_then (map_err h r) (\<lambda>x. g (f x))"
  by (cases r) simp_all

lemma map_ok_cases [simp]:
  "map_ok f (if c then r else s) = (if c then map_ok f r else map_ok f s)"
  "map_ok f (case x of None \<Rightarrow> r | Some y \<Rightarrow> k y) = (case x of None \<Rightarrow> map_ok f r | Some y \<Rightarrow> map_ok f (k y))"
  "map_ok f (case b of BoundaryIdle \<Rightarrow> r | BoundaryTurn t n \<Rightarrow> h t n | BoundaryStep o' \<Rightarrow> k' o')
    = (case b of BoundaryIdle \<Rightarrow> map_ok f r | BoundaryTurn t n \<Rightarrow> map_ok f (h t n) | BoundaryStep o' \<Rightarrow> map_ok f (k' o'))"
  by (simp_all split: option.split Boundary.split)

lemma and_then_assoc: "and_then (and_then r f) g = and_then r (\<lambda>x. and_then (f x) g)"
  by (cases r) simp_all

text \<open>Rewriting inside the branches of a case.\<close>

lemmas branch_cong = if_cong option.case_cong Boundary.case_cong EventKind.case_cong SurfaceOp.case_cong MessageSourceKind.case_cong
  CompactionPhase.case_cong SurfaceRowBinding.case_cong list.case_cong

abbreviation upd :: "AttemptProjection \<Rightarrow> LiveProjection \<Rightarrow> LiveProjection" where
  "upd b p \<equiv> p\<lparr>attempt := b\<rparr>"

named_theorems frame "operations that do not look at the attempt"

lemma update_frame [frame]:
  "policy_update f1 (attempt_update g p) = attempt_update g (policy_update f1 p)"
  "session_id_update f2 (attempt_update g p) = attempt_update g (session_id_update f2 p)"
  "next_turn_update f3 (attempt_update g p) = attempt_update g (next_turn_update f3 p)"
  "boundary_update f4 (attempt_update g p) = attempt_update g (boundary_update f4 p)"
  "surface_nodes_update f5 (attempt_update g p) = attempt_update g (surface_nodes_update f5 p)"
  "surface_tokens_update f6 (attempt_update g p) = attempt_update g (surface_tokens_update f6 p)"
  "surface_resident_bytes_update f7 (attempt_update g p) = attempt_update g (surface_resident_bytes_update f7 p)"
  "request_header_update f8 (attempt_update g p) = attempt_update g (request_header_update f8 p)"
  "request_header_seq_update f9 (attempt_update g p) = attempt_update g (request_header_seq_update f9 p)"
  "request_context_update f10 (attempt_update g p) = attempt_update g (request_context_update f10 p)"
  "request_context_seq_update f11 (attempt_update g p) = attempt_update g (request_context_seq_update f11 p)"
  "goal_replay_update f12 (attempt_update g p) = attempt_update g (goal_replay_update f12 p)"
  "plan_mode_active_update f13 (attempt_update g p) = attempt_update g (plan_mode_active_update f13 p)"
  "permission_preset_update f14 (attempt_update g p) = attempt_update g (permission_preset_update f14 p)"
  "standing_todos_update f15 (attempt_update g p) = attempt_update g (standing_todos_update f15 p)"
  "session_title_update f16 (attempt_update g p) = attempt_update g (session_title_update f16 p)"
  "session_title_llm_requested_update f17 (attempt_update g p) = attempt_update g (session_title_llm_requested_update f17 p)"
  "session_title_first_prompt_update f18 (attempt_update g p) = attempt_update g (session_title_first_prompt_update f18 p)"
  "compaction_update f19 (attempt_update g p) = attempt_update g (compaction_update f19 p)"
  "pending_approvals_update f20 (attempt_update g p) = attempt_update g (pending_approvals_update f20 p)"
  "owned_approval_ids_update f21 (attempt_update g p) = attempt_update g (owned_approval_ids_update f21 p)"
  "retry_chains_update f22 (attempt_update g p) = attempt_update g (retry_chains_update f22 p)"
  "retry_schedules_update f23 (attempt_update g p) = attempt_update g (retry_schedules_update f23 p)"
  "time_context_update f24 (attempt_update g p) = attempt_update g (time_context_update f24 p)"
  by (cases p; simp)+

lemma reading_frame [frame]:
  "open_turn (upd b p) = open_turn p" "open_step (upd b p) = open_step p"
  "wrong_open_step (upd b p) k t s = wrong_open_step p k t s"
  "require_open_step (upd b p) k t s = require_open_step p k t s"
  "require_open_turn (upd b p) k = require_open_turn p k"
  "has_pending_durable_call (upd b p) = has_pending_durable_call p"
  "unresolved_declaration (upd b p) = unresolved_declaration p"
  "expected_provider (upd b p) = expected_provider p"
  "retry_id_owned (upd b p) i = retry_id_owned p i"
  "node_position (upd b p) n = node_position p n"
  by (simp_all add: open_turn_def open_step_def wrong_open_step_def require_open_step_def
      require_open_turn_def has_pending_durable_call_def unresolved_declaration_def
      expected_provider_def retry_id_owned_def node_position_def)

lemma turn_frame [frame]:
  "apply_turn_start (upd b p) t = map_ok (upd b) (apply_turn_start p t)"
  "apply_turn_end (upd b p) t = map_ok (upd b) (apply_turn_end p t)"
  "apply_step_start (upd b p) t s = map_ok (upd b) (apply_step_start p t s)"
  "apply_step_end (upd b p) t s = map_ok (upd b) (apply_step_end p t s)"
  by (simp_all add: apply_turn_start_def apply_turn_end_def apply_step_start_def apply_step_end_def
      frame split: option.split list.split Boundary.split)

lemma call_frame [frame]:
  "register_durable_declarations (upd b p) m = map_ok (upd b) (register_durable_declarations p m)"
  "promote_durable_call (upd b p) q i n x = map_ok (upd b) (promote_durable_call p q i n x)"
  "push_pending_call (upd b p) i = upd b (push_pending_call p i)"
  "resolve_durable_call (upd b p) e m err a = map_ok (upd b) (resolve_durable_call p e m err a)"
  "remove_pending_call (upd b p) t s i c = map_ok (upd b) (remove_pending_call p t s i c)"
  by (simp_all add: register_durable_declarations_def promote_durable_call_def push_pending_call_def
      resolve_durable_call_def remove_pending_call_def frame cong: branch_cong split: Boundary.split)

lemma tool_frame [frame]:
  "apply_assistant_message (upd b p) t s m = map_ok (upd b) (apply_assistant_message p t s m)"
  "apply_tool_call (upd b p) q t s i n x = map_ok (upd b) (apply_tool_call p q t s i n x)"
  "apply_tool_result (upd b p) e t s m err a = map_ok (upd b) (apply_tool_result p e t s m err a)"
  by (simp_all add: apply_assistant_message_def apply_tool_call_def apply_tool_result_def frame)

lemma approval_frame [frame]:
  "ask_durable_approval (upd b p) x = map_ok (upd b) (ask_durable_approval p x)"
  "decide_durable_approval (upd b p) y = map_ok (upd b) (decide_durable_approval p y)"
  by (simp_all add: ask_durable_approval_def decide_durable_approval_def Let_def frame
      split: option.split Boundary.split list.split)

lemma approval_event_frame [frame]:
  "apply_approval_asked (upd b p) x = map_ok (upd b) (apply_approval_asked p x)"
  "apply_approval_decided (upd b p) y = map_ok (upd b) (apply_approval_decided p y)"
  by (simp_all add: apply_approval_asked_def apply_approval_decided_def frame)

lemma retry_frame [frame]:
  "apply_retry (upd b p) r = map_ok (upd b) (apply_retry p r)"
  "apply_retry_started (upd b p) x = map_ok (upd b) (apply_retry_started p x)"
  by (simp_all add: apply_retry_def apply_retry_started_def Let_def frame cong: branch_cong)

lemma apply_transition_frame [frame]:
  "apply_transition (upd b p) e a = map_ok (upd b) (apply_transition p e a)"
proof -
  have "apply_kind (upd b p) e a = map_ok (upd b) (apply_kind p e a)"
    by (cases "event_kind e") (simp_all add: apply_kind_def frame)
  moreover have "capture_first_prompt e (upd b q) = upd b (capture_first_prompt e q)" for q
    by (simp add: capture_first_prompt_def frame split: EventKind.split option.split)
  ultimately show ?thesis by (simp add: apply_transition_def)
qed

lemma apply_goal_transition_frame [frame]:
  "apply_goal_transition (upd b p) e = map_ok (upd b) (apply_goal_transition p e)"
  by (cases "event_kind e") (simp_all add: apply_goal_transition_def frame)


section \<open>The bracket and the surface\<close>

lemma bracket_reading_frame [frame]:
  "surface_range_indices (upd b p) r ss = surface_range_indices p r ss"
  "surface_range_matches (upd b p) r ss = surface_range_matches p r ss"
  "dispatch_matches_header (upd b p) d = dispatch_matches_header p d"
  "dispatch_prefix (upd b p) n d = dispatch_prefix p n d"
  "validate_compaction_dispatch env (upd b p) n d = validate_compaction_dispatch env p n d"
  "start_recipe env (upd b p) n s a = start_recipe env p n s a"
  "validate_compaction_start env (upd b p) n s a = validate_compaction_start env p n s a"
  "claim_prune (upd b p) x = claim_prune p x"
proof -
  show r: "surface_range_indices (upd b p) r ss = surface_range_indices p r ss" for r ss
    by (simp add: surface_range_indices_def frame)
  show "surface_range_matches (upd b p) r ss = surface_range_matches p r ss"
    by (simp add: surface_range_matches_def r)
  show h: "dispatch_matches_header (upd b p) d = dispatch_matches_header p d"
    by (simp add: dispatch_matches_header_def)
  show d: "dispatch_prefix (upd b p) n d = dispatch_prefix p n d"
    by (simp add: dispatch_prefix_def r)
  show v: "validate_compaction_dispatch env (upd b p) n d = validate_compaction_dispatch env p n d" for d
    by (simp add: validate_compaction_dispatch_def dispatch_prefix_def r dispatch_matches_header_def frame)
  show s: "start_recipe env (upd b p) n s a = start_recipe env p n s a"
    by (simp add: start_recipe_def v split: option.split Boundary.split)
  show "validate_compaction_start env (upd b p) n s a = validate_compaction_start env p n s a"
    by (simp add: validate_compaction_start_def s frame)
  show "claim_prune (upd b p) x = claim_prune p x"
    by (simp add: claim_prune_def cong: branch_cong)
qed

lemma next_compaction_state_frame [frame]:
  "next_compaction_state env (upd b p) e a = next_compaction_state env p e a"
proof -
  have "advance_open_compaction env (upd b p) e opened a = advance_open_compaction env p e opened a" for opened
    by (cases "event_kind e")
      (simp_all add: advance_open_compaction_def advance_summary_def advance_checkpoint_def advance_end_def
        Let_def frame cong: branch_cong)
  moreover have "outside_compaction env (upd b p) e a x c = outside_compaction env p e a x c" for x c
    by (simp add: outside_compaction_def frame cong: branch_cong)
  ultimately show ?thesis
    by (simp add: next_compaction_state_def advance_compaction_def Let_def cong: branch_cong)
qed

lemma apply_surface_frame [frame]:
  "apply_surface env (upd b p) e binding = map_ok (upd b) (apply_surface env p e binding)"
proof -
  have "validate_time_context_surface (upd b p) e = validate_time_context_surface p e"
    by (simp add: validate_time_context_surface_def frame cong: branch_cong)
  moreover have "apply_append (upd b p) = (\<lambda>node. map_ok (upd b) (apply_append p node))"
    by (simp add: apply_append_def frame fun_eq_iff)
  moreover have "apply_replace env (upd b p) e binding i j = map_ok (upd b) (apply_replace env p e binding i j)" for i j
    by (simp add: apply_replace_def Let_def frame cong: branch_cong)
  moreover have "observe_message_time e r (upd b q) = upd b (observe_message_time e r q)" for r q
    by (simp add: observe_message_time_def Let_def frame)
  ultimately show ?thesis
    by (cases "event_surface_op e"; cases "the (event_surface_op e)") (simp_all add: apply_surface_def and_then_assoc)
qed

end
