(* ===== verification/Live_Rows.thy ===== *)
theory Live_Rows
  imports Live_Session Live_Frame Projection_Correct
begin

text \<open>
  An append prepares its event with a placeholder time and without the row, and completes both when
  it commits. The outcome is the event applied at once with its time and its row, which is what the
  cold scan does with the stored row.
\<close>

section \<open>The time of an event\<close>

named_theorems clock "operations that do not look at the time of the event"

lemma event_clock [clock]:
  "is_checkpoint_event (e\<lparr>event_time := t\<rparr>) = is_checkpoint_event e"
  "pending_tool_result (e\<lparr>event_time := t\<rparr>) = pending_tool_result e"
  "event_source_list (e\<lparr>event_time := t\<rparr>) = event_source_list e"
  "apply_prune_adjacency c (e\<lparr>event_time := t\<rparr>) = apply_prune_adjacency c e"
  "advance_surface_generation c (e\<lparr>event_time := t\<rparr>) = advance_surface_generation c e"
  "validate_sources (e\<lparr>event_time := t\<rparr>) = validate_sources e"
  "validate_time_context_surface p (e\<lparr>event_time := t\<rparr>) = validate_time_context_surface p e"
  "surface_node env (e\<lparr>event_time := t\<rparr>) binding = surface_node env e binding"
  "apply_goal_transition p (e\<lparr>event_time := t\<rparr>) = apply_goal_transition p e"
  "apply_transition p (e\<lparr>event_time := t\<rparr>) a = apply_transition p e a"
  by (simp_all add: is_checkpoint_event_def pending_tool_result_def event_source_list_def
      apply_prune_adjacency_def advance_surface_generation_def validate_sources_def
      validate_time_context_surface_def surface_node_def node_origin_def apply_goal_transition_def
      apply_transition_def apply_kind_def capture_first_prompt_def apply_tool_result_def
      resolve_durable_call_def check_result_intent_def cong: branch_cong)

lemma next_compaction_state_clock [clock]:
  "next_compaction_state env p (e\<lparr>event_time := t\<rparr>) a = next_compaction_state env p e a"
proof -
  have "advance_checkpoint env p (e\<lparr>event_time := t\<rparr>) m opened = advance_checkpoint env p e m opened" for m opened
    by (simp add: advance_checkpoint_def validate_checkpoint_replacement_def cong: branch_cong)
  then have "advance_open_compaction env p (e\<lparr>event_time := t\<rparr>) opened a = advance_open_compaction env p e opened a" for opened
    by (simp add: advance_open_compaction_def cong: branch_cong)
  moreover have "outside_compaction env p (e\<lparr>event_time := t\<rparr>) a x c = outside_compaction env p e a x c" for x c
    by (simp add: outside_compaction_def cong: branch_cong)
  ultimately show ?thesis
    by (simp add: next_compaction_state_def advance_compaction_def clock Let_def cong: branch_cong)
qed

lemma attempt_clock [clock]:
  "attempt_assistant env a (e\<lparr>event_time := t\<rparr>) = attempt_assistant env a e"
  "attempt_retry env a (e\<lparr>event_time := t\<rparr>) = attempt_retry env a e"
  "prepare_attempt_chunk env a (e\<lparr>event_time := t\<rparr>) h g = prepare_attempt_chunk env a e h g"
  by (simp_all add: attempt_assistant_def attempt_retry_def prepare_attempt_chunk_def clock
      cong: EventKind.case_cong AttemptState.case_cong if_cong)

lemma prepare_token_anchor_clock [clock]:
  "prepare_token_anchor env p (e\<lparr>event_time := t\<rparr>) facts = prepare_token_anchor env p e facts"
  by (cases "event_kind e") (simp_all add: prepare_token_anchor_def)

lemma apply_attempt_transition_clock [clock]:
  "apply_attempt_transition env p (e\<lparr>event_time := t\<rparr>) a d = apply_attempt_transition env p e a d"
proof -
  have "commit_assistant env p (e\<lparr>event_time := t\<rparr>) = commit_assistant env p e"
    by (simp add: commit_assistant_def clock)
  then have "apply_attempt_event env p (e\<lparr>event_time := t\<rparr>) a d = apply_attempt_event env p e a d"
    by (simp add: apply_attempt_event_def clock cong: EventKind.case_cong if_cong)
  moreover have "apply_context_overflow_transition p (e\<lparr>event_time := t\<rparr>)
      = apply_context_overflow_transition p e"
    by (simp add: apply_context_overflow_transition_def cong: Boundary.case_cong)
  ultimately show ?thesis by (simp add: apply_attempt_transition_def cong: if_cong)
qed

lemma apply_replace_clock [clock]:
  "apply_replace env p (e\<lparr>event_time := t\<rparr>) binding i j = apply_replace env p e binding i j"
  by (simp add: apply_replace_def validate_tool_result_rewrite_def Let_def clock cong: branch_cong)

lemma rejects_clock [clock]:
  "reject_unowned_attempt_event p (e\<lparr>event_time := t\<rparr>) = reject_unowned_attempt_event p e"
  "reject_unowned_context_overflow_start p (e\<lparr>event_time := t\<rparr>) = reject_unowned_context_overflow_start p e"
  by (simp_all add: reject_unowned_attempt_event_def reject_unowned_context_overflow_start_def)

text \<open>A time reading is accepted exactly on time-context messages.\<close>

lemma reading_is_time_context:
  assumes "validate_time_context_surface p e = Inr reading"
  shows "reading = is_time_context_event (event_kind e)"
  using assms
  by (auto simp: validate_time_context_surface_def is_time_context_event_def
      split: EventKind.splits MessageSourceKind.splits if_splits option.splits)

lemma time_context_eligible: "is_time_context_event k \<Longrightarrow> is_surface_eligible k"
  by (cases k) (simp_all add: is_time_context_event_def)

lemma committed_time_again:
  "reading = is_time_context_event (event_kind e) \<Longrightarrow>
    set_committed_event_time e (observe_message_time (e\<lparr>event_time := t\<rparr>) reading p)
      = observe_message_time e reading p"
  by (cases p) (simp add: set_committed_event_time_def observe_message_time_def Let_def time_context_eligible)

lemma committed_time_ineligible:
  "\<not> is_surface_eligible (event_kind e) \<Longrightarrow> set_committed_event_time e p = p"
  using time_context_eligible [of "event_kind e"]
  by (auto simp: set_committed_event_time_def observe_message_time_def Let_def)

lemma apply_surface_clock:
  "apply_surface env p e binding
    = map_ok (set_committed_event_time e) (apply_surface env p (e\<lparr>event_time := t\<rparr>) binding)"
proof (cases "is_surface_eligible (event_kind e)")
  case False
  then show ?thesis by (simp add: apply_surface_def committed_time_ineligible)
next
  case True
  show ?thesis
  proof (cases "validate_time_context_surface p e")
    case (Inr reading)
    with True reading_is_time_context [OF Inr] show ?thesis
      by (simp add: apply_surface_def clock committed_time_again cong: SurfaceOp.case_cong)
  qed (use True in \<open>simp add: apply_surface_def clock\<close>)
qed


section \<open>The row of a tool result\<close>

definition nodes_before :: "EventSeq \<Rightarrow> 'a Projection_scheme \<Rightarrow> bool" where
  "nodes_before seq p \<longleftrightarrow> (\<forall>n \<in> set (surface_nodes p). node_seq n < seq)"

lemma bound_node_seq: "surface_node env e binding = Inr node \<Longrightarrow> node_seq node = event_seq e"
  by (auto simp: surface_node_def and_then_Inr split: prod.splits)

lemma surface_node_unbound:
  "\<not> is_tool_result (event_kind e) \<Longrightarrow> surface_node env e binding = surface_node env e binding'"
  by (simp add: surface_node_def node_origin_def)

lemma surface_node_bound:
  assumes "surface_node env e BindPendingDurable = Inr node" and "is_tool_result (event_kind e)"
    and "row_seq row = event_seq e"
  shows "surface_node env e (BindDurable row)
      = Inr (node\<lparr>node_tool_result := bind_origin row (node_tool_result node)\<rparr>)"
    and "is_pending_origin (node_tool_result node)"
  using assms by (auto simp: surface_node_def node_origin_def and_then_Inr split: prod.splits)

lemma node_resident_bytes_bound [simp]:
  "node_resident_bytes (node\<lparr>node_tool_result := r\<rparr>) = node_resident_bytes node"
  by (simp add: node_resident_bytes_def)

lemma find_fresh_node:
  "\<forall>n \<in> set xs. node_seq n \<noteq> seq \<Longrightarrow> node_seq node = seq \<Longrightarrow>
    List.find (\<lambda>n. node_seq n = seq) (xs @ node # ys) = Some node"
  "\<forall>n \<in> set xs. node_seq n \<noteq> seq \<Longrightarrow> node_seq node = seq \<Longrightarrow>
    update_first (\<lambda>n. node_seq n = seq) f (xs @ node # ys) = xs @ f node # ys"
  by (induction xs) auto

lemma bind_fresh_row:
  assumes "surface_nodes q = xs @ node # ys" and "\<forall>n \<in> set xs. node_seq n < seq" and "node_seq node = seq"
    and "is_pending_origin (node_tool_result node)"
  shows "bind_tool_result_row q seq row
    = Some (q\<lparr>surface_nodes := xs @ node\<lparr>node_tool_result := bind_origin row (node_tool_result node)\<rparr> # ys\<rparr>)"
proof -
  from assms(2) have "\<forall>n \<in> set xs. node_seq n \<noteq> seq" by auto
  with assms show ?thesis by (simp add: bind_tool_result_row_def find_fresh_node)
qed

lemma bind_other_fields:
  "bind_tool_result_row (q\<lparr>compaction := c\<rparr>) seq row
    = map_option (\<lambda>q. q\<lparr>compaction := c\<rparr>) (bind_tool_result_row q seq row)"
  "bind_tool_result_row (observe_message_time e r q) seq row
    = map_option (observe_message_time e r) (bind_tool_result_row q seq row)"
  by (simp_all add: bind_tool_result_row_def observe_message_time_def Let_def split: option.split)

lemma apply_append_bound:
  assumes "apply_append p node = Inr q" and "nodes_before (node_seq node) p"
    and "is_pending_origin (node_tool_result node)"
  shows "Some (apply_append p (node\<lparr>node_tool_result := bind_origin row (node_tool_result node)\<rparr>))
    = map_option Inr (bind_tool_result_row q (node_seq node) row)"
  using assms bind_fresh_row [of q "surface_nodes p" node "[]" "node_seq node" row]
  by (auto simp: apply_append_def and_then_Inr nodes_before_def)

lemma apply_replace_bound:
  assumes "apply_replace env p e BindPendingDurable a b = Inr q" and "nodes_before (event_seq e) p"
    and "is_tool_result (event_kind e)" and row: "row_seq row = event_seq e"
  shows "Some (apply_replace env p e (BindDurable row) a b)
    = map_option Inr (bind_tool_result_row q (event_seq e) row)"
proof -
  from assms(1) obtain i j where ij: "node_position p a = Some i" "node_position p b = Some j" "\<not> i > j"
    by (auto simp: apply_replace_def result_simps split: if_splits)
  let ?s = "slice i j (surface_nodes p)"
  let ?ss = "case event_sources e of None \<Rightarrow> [] | Some s \<Rightarrow> s"
  have found: "List.find (\<lambda>n. node_seq n \<notin> set ?ss) ?s = None"
    using assms(1) ij by (cases "List.find (\<lambda>n. node_seq n \<notin> set ?ss) ?s")
      (simp_all add: apply_replace_def Let_def)
  with assms(1,3) ij obtain node tokens bytes where rw: "validate_tool_result_rewrite env e ?s = Inr ()"
    and node: "surface_node env e BindPendingDurable = Inr node"
    and tokens: "swap_total TokenAccountingOverflow (surface_tokens p) (map node_estimated_tokens ?s)
      (node_estimated_tokens node) = Inr tokens"
    and bytes: "swap_total ResidentAccountingOverflow (surface_resident_bytes p)
      (map node_resident_bytes ?s) (node_resident_bytes node) = Inr bytes"
    and q: "q = p\<lparr>surface_nodes := take i (surface_nodes p) @ node # drop (Suc j) (surface_nodes p),
      surface_tokens := tokens, surface_resident_bytes := bytes\<rparr>"
    by (auto simp: apply_replace_def Let_def and_then_Inr)
  note bound = surface_node_bound [OF node assms(3) row]
  have before: "\<forall>n \<in> set (take i (surface_nodes p)). node_seq n < event_seq e"
    using assms(2) by (auto simp: nodes_before_def dest: in_set_takeD)
  show ?thesis
    using bind_fresh_row [of q "take i (surface_nodes p)" node "drop (Suc j) (surface_nodes p)"
        "event_seq e" row] before bound bound_node_seq [OF node] ij found rw tokens bytes assms(3)
    by (simp add: q apply_replace_def Let_def)
qed

lemma apply_surface_unbound:
  assumes "\<not> is_tool_result (event_kind e)"
  shows "apply_surface env p e binding = apply_surface env p e binding'"
proof -
  have "surface_node env e binding = surface_node env e binding'"
    using assms by (rule surface_node_unbound)
  moreover from this have "apply_replace env p e binding a b = apply_replace env p e binding' a b" for a b
    by (simp add: apply_replace_def Let_def cong: branch_cong)
  ultimately show ?thesis by (simp add: apply_surface_def cong: SurfaceOp.case_cong)
qed

lemma apply_surface_bound:
  assumes "apply_surface env p e BindPendingDurable = Inr q" and "nodes_before (event_seq e) p"
    and "is_tool_result (event_kind e)" and row: "row_seq row = event_seq e"
  shows "Some (apply_surface env p e (BindDurable row)) = map_option Inr (bind_tool_result_row q (event_seq e) row)"
proof -
  from assms(3) have eligible: "is_surface_eligible (event_kind e)" by (cases "event_kind e") simp_all
  with assms(1) obtain reading operation q0 where facts: "validate_time_context_surface p e = Inr reading"
      "event_surface_op e = Some operation" "validate_sources e = Inr ()"
    and q: "q = observe_message_time e reading q0"
    and op: "(case operation of SurfaceAppend \<Rightarrow> and_then (surface_node env e BindPendingDurable) (apply_append p)
          | SurfaceReplace a b \<Rightarrow> apply_replace env p e BindPendingDurable a b) = Inr q0"
    by (auto simp: apply_surface_def result_simps)
  show ?thesis
  proof (cases operation)
    case SurfaceAppend
    with op obtain node where node: "surface_node env e BindPendingDurable = Inr node"
      and q0: "apply_append p node = Inr q0" by (auto simp: and_then_Inr)
    note bound = surface_node_bound [OF node assms(3) row]
    with apply_append_bound [OF q0] bound_node_seq [OF node] assms(2)
    have "Some (apply_append p (node\<lparr>node_tool_result := bind_origin row (node_tool_result node)\<rparr>))
      = map_option Inr (bind_tool_result_row q0 (event_seq e) row)" by simp
    with eligible facts SurfaceAppend bound show ?thesis
      by (cases "bind_tool_result_row q0 (event_seq e) row") (auto simp: apply_surface_def q bind_other_fields)
  next
    case (SurfaceReplace a b)
    with op have "apply_replace env p e BindPendingDurable a b = Inr q0" by simp
    from apply_replace_bound [OF this assms(2-4)] eligible facts SurfaceReplace show ?thesis
      by (cases "bind_tool_result_row q0 (event_seq e) row") (auto simp: apply_surface_def q bind_other_fields)
  qed
qed

text \<open>What is prepared, stamped and bound is the event applied with its time and row.\<close>

text \<open>What is prepared, stamped and bound is the event applied with its time and row.\<close>

lemma apply_surface_committed:
  assumes "apply_surface env p (e\<lparr>event_time := t\<rparr>) BindPendingDurable = Inr q"
    and "nodes_before (event_seq e) p" and "row_seq row = event_seq e"
    and "commit_replace (set_committed_event_time e (q\<lparr>compaction := c\<rparr>), pending_tool_result e) row = Some r"
  shows "\<exists>q'. apply_surface env p e (BindDurable row) = Inr q' \<and> r = q'\<lparr>compaction := c\<rparr>"
proof -
  let ?q = "set_committed_event_time e q"
  have now: "apply_surface env p e BindPendingDurable = Inr ?q"
    using apply_surface_clock [of env p e BindPendingDurable t] assms(1) by simp
  have time: "set_committed_event_time e (q\<lparr>compaction := c\<rparr>) = ?q\<lparr>compaction := c\<rparr>"
    by (simp add: set_committed_event_time_def observe_message_time_def Let_def)
  show ?thesis
  proof (cases "is_tool_result (event_kind e)")
    case True
    with assms(3,4) have "bind_tool_result_row (?q\<lparr>compaction := c\<rparr>) (event_seq e) row = Some r"
      by (simp add: time commit_replace_def pending_tool_result_def)
    with apply_surface_bound [OF now assms(2) True assms(3)] show ?thesis
      by (auto simp: bind_other_fields)
  next
    case False
    with assms(4) now show ?thesis
      by (auto simp: time commit_replace_def pending_tool_result_def
          apply_surface_unbound [OF False, of env p "BindDurable row" BindPendingDurable])
  qed
qed


end
