(* ===== verification/Attempt_Reopen.thy ===== *)
theory Attempt_Reopen
  imports Live_Rows
begin

text \<open>
  A provider attempt as the live session holds it and as the cold scan of its journal rebuilds it.
  The live attempt is dispatched before its first chunk, and sealed once the message is prepared;
  neither step writes a row. Numbers that only order live attempts (generations) may differ.
\<close>

section \<open>Generations\<close>

fun regen :: "u64 \<Rightarrow> AttemptState \<Rightarrow> AttemptState" where
  "regen g (AttemptStreaming a) = AttemptStreaming (a\<lparr>att_generation := g\<rparr>)"
| "regen g (AttemptFinished f) = AttemptFinished (f\<lparr>fin_generation := g\<rparr>)"
| "regen g s = s"

lemma attempt_block_regen [simp]: "attempt_block (a\<lparr>att_generation := g\<rparr>) = attempt_block a"
  by (simp add: attempt_block_def fun_eq_iff)

lemma prepare_operation_regen [simp]:
  "prepare_operation env (a\<lparr>att_generation := g\<rparr>) u k = prepare_operation env a u k"
  by (simp add: prepare_operation_def prepare_finish_def normalized_content_digest_def
      attempt_content_def provider_assistant_tokens_def cong: StreamChunkKind.case_cong if_cong)

lemma prepare_existing_chunk_regen:
  "prepare_existing_chunk env (a\<lparr>att_generation := g\<rparr>) n c u
    = map_ok (\<lambda>k. k\<lparr>chunk_generation := g\<rparr>) (prepare_existing_chunk env a n c u)"
  by (simp add: prepare_existing_chunk_def case_prod_unfold cong: if_cong)

lemma prepare_existing_chunk_generation:
  "prepare_existing_chunk env a n c u = Inr k \<Longrightarrow>
    chunk_generation k = att_generation a \<and> chunk_source_count k = length (att_sources a) \<and> chunk_seq k = n"
  by (auto simp: prepare_existing_chunk_def and_then_Inr split: if_splits prod.splits)

lemma commit_open_regen:
  "commit_open (a\<lparr>att_generation := g\<rparr>) (k\<lparr>chunk_generation := g'\<rparr>)
    = map_option (\<lambda>(s, u). (regen g s, u)) (commit_open a k)"
  by (cases "chunk_operation k")
    (simp_all add: commit_open_def commit_operation_def finish_attempt_def option.map_comp comp_def
      split: option.split)

section \<open>The relation\<close>

definition replay_progress :: "AttemptProjection \<Rightarrow> u64 \<Rightarrow> bool" where
  "replay_progress a generation \<longleftrightarrow>
     (overflow_used a \<longrightarrow> (\<exists>g. overflow_generation a = Some g \<and> g < generation))"

lemma require_context_replay_progress_Inr:
  "require_context_replay_progress a ety generation = Inr u \<longleftrightarrow> replay_progress a generation"
  by (auto simp: require_context_replay_progress_def replay_progress_def attempt_boundary_def split: option.splits)

text \<open>A dispatched attempt without a chunk is still a step that is ready in the journal.\<close>

definition reopened_fresh :: "LiveProjection \<Rightarrow> OpenAttempt \<Rightarrow> AttemptProjection \<Rightarrow> bool" where
  "reopened_fresh p a b \<longleftrightarrow> attempt_state b = AttemptReady (att_turn a) (att_step a)
     \<and> a = open_attempt (att_generation a) (att_turn a) (att_step a) (att_route a)
     \<and> route_from_header (request_header p) = Ok (att_route a)
     \<and> replay_progress b (replacement_generation (compaction p))
     \<and> next_generation b < next_generation (attempt p)"

definition reopened_sealed :: "session_env \<Rightarrow> SealedAttempt \<Rightarrow> AttemptState \<Rightarrow> bool" where
  "reopened_sealed env s t \<longleftrightarrow> (\<exists>f d. t = AttemptFinished f
     \<and> optional_json_digest env (fin_replay_state f) = Ok d
     \<and> s = (seal_finished env f d)\<lparr>sea_generation := sea_generation s\<rparr>)"

definition reopened_state :: "session_env \<Rightarrow> LiveProjection \<Rightarrow> AttemptProjection \<Rightarrow> bool" where
  "reopened_state env p b \<longleftrightarrow> (\<exists>g. attempt_state b = regen g (attempt_state (attempt p)))
     \<or> (\<exists>a. attempt_state (attempt p) = AttemptStreaming a \<and> reopened_fresh p a b)
     \<or> (\<exists>s. attempt_state (attempt p) = AttemptSealed s \<and> reopened_sealed env s (attempt_state b))"

definition reopened :: "session_env \<Rightarrow> LiveProjection \<Rightarrow> AttemptProjection \<Rightarrow> bool" where
  "reopened env p b \<longleftrightarrow> attempt_usage b = attempt_usage (attempt p)
     \<and> overflow_used b = overflow_used (attempt p)
     \<and> overflow_start_used b = overflow_start_used (attempt p)
     \<and> overflow_generation b = overflow_generation (attempt p)
     \<and> next_generation b \<le> next_generation (attempt p)
     \<and> (\<forall>s. attempt_state b \<noteq> AttemptSealed s)
     \<and> reopened_state env p b"

lemma reopened_sealedE:
  assumes "reopened_sealed env s t"
  obtains f d where "t = AttemptFinished f" and "optional_json_digest env (fin_replay_state f) = Ok d"
    and "s = (seal_finished env f d)\<lparr>sea_generation := sea_generation s\<rparr>"
    and "sea_turn s = fin_turn f" and "sea_step s = fin_step f"
proof -
  from assms obtain f d where f: "t = AttemptFinished f" "optional_json_digest env (fin_replay_state f) = Ok d"
    and s: "s = (seal_finished env f d)\<lparr>sea_generation := sea_generation s\<rparr>"
    by (auto simp: reopened_sealed_def)
  from arg_cong [OF s, of sea_turn] arg_cong [OF s, of sea_step]
  have "sea_turn s = fin_turn f" "sea_step s = fin_step f" by (simp_all add: seal_finished_def)
  with f s show thesis by (rule that)
qed

text \<open>The step of a settled attempt and the owner of a terminal one are the same.\<close>

lemma regen_settled [simp]: "settled_step (regen g s) = settled_step s"
  by (cases s) simp_all

lemma regen_sealed_iff: "regen g s = AttemptSealed x \<longleftrightarrow> s = AttemptSealed x"
  "AttemptSealed x = regen g s \<longleftrightarrow> s = AttemptSealed x"
  by (cases s; auto)+

lemma reopened_settled:
  assumes "reopened env p b" and "settled_step (attempt_state (attempt p)) = Some ts"
  shows "attempt_state b = attempt_state (attempt p)"
  using assms by (cases "attempt_state (attempt p)") (auto simp: reopened_def reopened_state_def)

lemma reopened_outside:
  assumes "reopened env p b" shows "attempt_outside b \<longleftrightarrow> attempt_outside (attempt p)"
  using assms by (cases "attempt_state (attempt p)")
    (auto simp: reopened_def reopened_state_def reopened_fresh_def reopened_sealed_def attempt_outside_def)

lemma reopened_open: "reopened env p b \<Longrightarrow> has_open_attempt b \<Longrightarrow> has_open_attempt (attempt p)"
  by (cases "attempt_state (attempt p)")
    (auto simp: reopened_def reopened_state_def reopened_fresh_def reopened_sealed_def has_open_attempt_def)

lemma reopened_terminal:
  assumes "reopened env p b" shows "terminal_owner b = terminal_owner (attempt p)"
proof -
  from assms consider (regen) g where "attempt_state b = regen g (attempt_state (attempt p))"
      "\<forall>s. attempt_state (attempt p) \<noteq> AttemptSealed s"
    | (fresh) a where "attempt_state (attempt p) = AttemptStreaming a" "reopened_fresh p a b"
    | (sealed) s where "attempt_state (attempt p) = AttemptSealed s" "reopened_sealed env s (attempt_state b)"
    by (auto simp: reopened_def reopened_state_def regen_sealed_iff)
  then show ?thesis
  proof cases
    case regen
    then show ?thesis by (cases "attempt_state (attempt p)") (simp_all add: terminal_owner_def)
  next
    case sealed
    then obtain f d where "attempt_state b = AttemptFinished f"
      "s = (seal_finished env f d)\<lparr>sea_generation := sea_generation s\<rparr>"
      by (auto simp: reopened_sealed_def)
    with sealed(1) show ?thesis
      by (cases s) (simp add: terminal_owner_def seal_finished_def)
  qed (simp add: terminal_owner_def reopened_fresh_def)
qed

lemma terminal_open: "terminal_owner b = Some x \<Longrightarrow> has_open_attempt b"
  by (simp add: terminal_owner_def has_open_attempt_def split: AttemptState.splits)

section \<open>Each operation of the live attempt\<close>

text \<open>The outcome of an operation that wrote a row.\<close>

definition same_books :: "AttemptProjection \<Rightarrow> AttemptProjection \<Rightarrow> bool" where
  "same_books a b \<longleftrightarrow> attempt_usage b = attempt_usage a \<and> overflow_used b = overflow_used a
     \<and> overflow_start_used b = overflow_start_used a \<and> overflow_generation b = overflow_generation a
     \<and> next_generation b \<le> next_generation a"

definition matching :: "AttemptProjection \<Rightarrow> AttemptProjection \<Rightarrow> bool" where
  "matching a b \<longleftrightarrow> same_books a b \<and> (\<exists>g. attempt_state b = regen g (attempt_state a))
     \<and> (\<forall>s. attempt_state a \<noteq> AttemptSealed s)"

lemma matching_reopened: "matching (attempt p) b \<Longrightarrow> reopened env p b"
  by (auto simp: matching_def same_books_def reopened_def reopened_state_def regen_sealed_iff)

lemma reopened_books: "reopened env p b \<Longrightarrow> same_books (attempt p) b"
  by (simp add: reopened_def same_books_def)

lemma step_start_reopened:
  assumes "reopened env p b" and "attempt_step_start (attempt p) turn step = Inr a"
  shows "\<exists>b'. attempt_step_start b turn step = Inr b' \<and> matching a b'"
  using assms reopened_outside [OF assms(1)] reopened_books [OF assms(1)]
  by (auto simp: attempt_step_start_def attempt_boundary_def reset_overflow_def same_books_def matching_def split: if_splits)

lemma retry_started_reopened:
  assumes "reopened env p b" and "attempt_retry_started (attempt p) turn step = Inr a"
  shows "\<exists>b'. attempt_retry_started b turn step = Inr b' \<and> matching a b'"
proof -
  from assms(2) have scheduled: "attempt_state (attempt p) = AttemptRetryScheduled turn step"
    and a: "a = (attempt p)\<lparr>attempt_state := AttemptReady turn step\<rparr>"
    by (auto simp: attempt_retry_started_def attempt_boundary_def split: if_splits)
  with reopened_settled [OF assms(1)] have "attempt_state b = AttemptRetryScheduled turn step" by simp
  with a reopened_books [OF assms(1)] show ?thesis
    by (auto simp: attempt_retry_started_def same_books_def matching_def)
qed

lemma reopened_unsettled:
  assumes "reopened env p b" and "unsettled_step (attempt_state (attempt p)) = Some ts"
  shows "unsettled_step (attempt_state b) = Some ts \<and> has_open_attempt b
    \<or> settled_step (attempt_state b) = Some ts \<and> \<not> has_open_attempt b"
  using assms by (cases "attempt_state (attempt p)")
    (auto simp: reopened_def reopened_state_def reopened_fresh_def has_open_attempt_def elim!: reopened_sealedE)

text \<open>The scan does not know why a step with an open attempt ended.\<close>

lemma step_end_reopened:
  assumes "reopened env p b" and "attempt_step_end (attempt p) turn step disposition = Inr a"
  shows "\<exists>b'. attempt_step_end b turn step (if has_open_attempt b then Some DispositionFailed else None) = Inr b'
    \<and> matching a b'"
proof -
  from assms(2) have a: "a = reset_overflow ((attempt p)\<lparr>attempt_state := AttemptOutside\<rparr>)"
    by (auto simp: attempt_step_end_def attempt_boundary_def and_then_Inr split: if_splits)
  with reopened_books [OF assms(1)] have m: "matching a (reset_overflow (b\<lparr>attempt_state := AttemptOutside\<rparr>))"
    by (auto simp: reset_overflow_def same_books_def matching_def)
  show ?thesis
  proof (cases "settled_step (attempt_state (attempt p)) = Some (turn, step)")
    case True
    with reopened_settled [OF assms(1)] have "attempt_state b = attempt_state (attempt p)" by simp
    with True have "settled_step (attempt_state b) = Some (turn, step)" "\<not> has_open_attempt b"
      by (auto simp: has_open_attempt_def split: AttemptState.splits)
    with m show ?thesis by (simp add: attempt_step_end_def)
  next
    case False
    with assms(2) have "unsettled_step (attempt_state (attempt p)) = Some (turn, step)"
      by (auto simp: attempt_step_end_def attempt_boundary_def split: if_splits)
    from reopened_unsettled [OF assms(1) this] m show ?thesis
      by (cases "attempt_state b") (auto simp: attempt_step_end_def)
  qed
qed

lemma retry_reopened:
  assumes "reopened env p b" and "attempt_retry env (attempt p) e = Inr a"
  shows "\<exists>b'. attempt_retry env b e = Inr b' \<and> matching a b'"
  using assms(2) reopened_terminal [OF assms(1)] reopened_books [OF assms(1)]
  by (auto simp: attempt_retry_def and_then_Inr attempt_boundary_def same_books_def matching_def
      split: EventKind.splits option.splits if_splits prod.splits)

lemma context_overflow_reopened:
  assumes "reopened env p b" and "context_overflow (attempt p) turn step generation start = Inr a"
  shows "\<exists>b'. context_overflow b turn step generation start = Inr b' \<and> matching a b'"
    and "\<not> overflow_used b" and "has_open_attempt b"
proof -
  note terminal = reopened_terminal [OF assms(1)] and books = reopened_books [OF assms(1)]
  from assms(2) obtain t st r f where owner: "terminal_owner (attempt p) = Some (t, st, r, f)"
    and used: "\<not> overflow_used (attempt p)"
    by (cases "terminal_owner (attempt p)") (auto simp: context_overflow_def attempt_boundary_def split: if_splits)
  from used books show "\<not> overflow_used b" by (simp add: same_books_def)
  from owner terminal show "has_open_attempt b" by (simp add: terminal_open)
  from assms(2) owner used terminal books show "\<exists>b'. context_overflow b turn step generation start = Inr b' \<and> matching a b'"
    by (auto simp: context_overflow_def attempt_boundary_def same_books_def matching_def split: if_splits)
qed

subsection \<open>Chunks\<close>

lemma commit_open_state: "commit_open a k = Some (s, u) \<Longrightarrow>
    (\<exists>o'. s = AttemptStreaming o' \<and> att_sources o' = att_sources a @ [chunk_seq k])
    \<or> (\<exists>f. s = AttemptFinished f \<and> fin_sources f = att_sources a @ [chunk_seq k])"
  by (cases "chunk_operation k")
    (auto simp: commit_open_def commit_operation_def finish_attempt_def split: option.splits)

lemma open_attempt_generation: "open_attempt g t s r = (open_attempt h t s r)\<lparr>att_generation := g\<rparr>"
  by (simp add: open_attempt_def)

lemma successor_of_less:
  assumes "(z::u64) < y" shows "\<exists>w. checked_add z 1 = Some w \<and> w \<le> y"
proof (cases "checked_add z 1")
  case None
  with assms unsigned_less [of y, where 'a = nat] show ?thesis by (simp add: checked_add_None word_less_nat_alt)
next
  case (Some w)
  with assms checked_add_Some [OF Some] show ?thesis by (simp add: word_less_nat_alt word_le_nat_alt)
qed

lemma successor_le: "checked_add (x::u64) 1 = Some y \<Longrightarrow> z \<le> x \<Longrightarrow> \<exists>w. checked_add z 1 = Some w \<and> w \<le> y"
  by (rule successor_of_less) (auto dest!: checked_add_Some simp: word_less_nat_alt word_le_nat_alt)

text \<open>The state after a chunk, and what the chunk adds to the cited rows.\<close>

definition chunk_outcome :: "AttemptProjection \<Rightarrow> AttemptState \<Rightarrow> UsageProjection option \<Rightarrow> AttemptProjection" where
  "chunk_outcome a s u = a\<lparr>attempt_state := s, attempt_usage := (case u of None \<Rightarrow> attempt_usage a | Some n \<Rightarrow> n)\<rparr>"

lemma matching_chunk:
  assumes "same_books a b" and "commit_open o' k = Some (s, u)"
  shows "matching (chunk_outcome a s u) (chunk_outcome b (regen g s) u)"
  using assms commit_open_state [OF assms(2)]
  by (cases u) (auto simp: matching_def same_books_def chunk_outcome_def)

lemma matching_generation:
  "matching a b \<Longrightarrow> n \<le> m \<Longrightarrow> matching (a\<lparr>next_generation := m\<rparr>) (b\<lparr>next_generation := n\<rparr>)"
  by (auto simp: matching_def same_books_def)

text \<open>The first chunk of a step that is ready.\<close>

lemma first_chunk:
  assumes "attempt_state b = AttemptReady turn step" and "event_kind e = AssistantChunk turn step chunk"
    and "replay_progress b generation" and "checked_add (next_generation b) 1 = Some n"
    and "route_from_header header = Inr route"
    and "prepare_existing_chunk env (open_attempt (next_generation b) turn step route) (event_seq e) chunk
      (attempt_usage b) = Inr k"
    and "commit_open (open_attempt (next_generation b) turn step route) k = Some (s, u)"
  shows "\<exists>prepared. prepare_attempt_chunk env b e header generation = Inr prepared
    \<and> commit_chunk b prepared = Some ((chunk_outcome b s u)\<lparr>next_generation := n\<rparr>)"
  using assms require_context_replay_progress_Inr [of b "''assistant/chunk''" generation "()"]
  by (auto simp: prepare_attempt_chunk_def Let_def commit_chunk_def chunk_outcome_def)

lemma next_chunk:
  assumes "attempt_state b = AttemptStreaming o'" and "event_kind e = AssistantChunk (att_turn o') (att_step o') chunk"
    and "prepare_existing_chunk env o' (event_seq e) chunk (attempt_usage b) = Inr k"
    and "commit_open o' k = Some (s, u)"
  shows "\<exists>prepared. prepare_attempt_chunk env b e header generation = Inr prepared
    \<and> commit_chunk b prepared = Some (chunk_outcome b s u)"
  using assms prepare_existing_chunk_generation [OF assms(3)]
  by (auto simp: prepare_attempt_chunk_def commit_chunk_def chunk_outcome_def)

text \<open>The two ways a chunk is accepted.\<close>

lemma accepted_chunk_cases:
  assumes "prepare_attempt_chunk env a e header generation = Inr prepared"
    and "commit_chunk a prepared = Some a'"
  obtains (first) turn step chunk n route k s u where "attempt_state a = AttemptReady turn step"
      and "event_kind e = AssistantChunk turn step chunk" and "replay_progress a generation"
      and "checked_add (next_generation a) 1 = Some n" and "route_from_header header = Inr route"
      and "prepare_existing_chunk env (open_attempt (next_generation a) turn step route) (event_seq e) chunk
        (attempt_usage a) = Inr k"
      and "commit_open (open_attempt (next_generation a) turn step route) k = Some (s, u)"
      and "a' = (chunk_outcome a s u)\<lparr>next_generation := n\<rparr>"
  | (later) o' chunk k s u where "attempt_state a = AttemptStreaming o'"
      and "event_kind e = AssistantChunk (att_turn o') (att_step o') chunk"
      and "prepare_existing_chunk env o' (event_seq e) chunk (attempt_usage a) = Inr k"
      and "commit_open o' k = Some (s, u)" and "a' = chunk_outcome a s u"
proof (cases "attempt_state a")
  case (AttemptReady turn step)
  with assms(1) obtain chunk n route k s u where e: "event_kind e = AssistantChunk turn step chunk"
    and facts: "replay_progress a generation" "checked_add (next_generation a) 1 = Some n"
      "route_from_header header = Inr route"
      "prepare_existing_chunk env (open_attempt (next_generation a) turn step route) (event_seq e) chunk
        (attempt_usage a) = Inr k"
      "commit_open (open_attempt (next_generation a) turn step route) k = Some (s, u)"
    and prepared: "prepared = ChunkReplace turn step (next_generation a)
      ((chunk_outcome a s u)\<lparr>next_generation := n\<rparr>)"
    by (auto simp: prepare_attempt_chunk_def result_simps attempt_boundary_def Let_def chunk_outcome_def
        require_context_replay_progress_Inr split: EventKind.splits if_splits)
  show thesis
    by (rule first [OF AttemptReady e facts]) (use assms(2) AttemptReady prepared in \<open>simp add: commit_chunk_def\<close>)
next
  case (AttemptStreaming o')
  with assms(1) obtain chunk k where e: "event_kind e = AssistantChunk (att_turn o') (att_step o') chunk"
    and k: "prepare_existing_chunk env o' (event_seq e) chunk (attempt_usage a) = Inr k"
    and prepared: "prepared = ChunkContinues k"
    by (auto simp: prepare_attempt_chunk_def result_simps attempt_boundary_def split: EventKind.splits if_splits)
  with assms(2) AttemptStreaming prepare_existing_chunk_generation [OF k] obtain s u
    where "commit_open o' k = Some (s, u)" "a' = chunk_outcome a s u"
    by (auto simp: commit_chunk_def chunk_outcome_def)
  with AttemptStreaming e k show thesis by (rule later)
qed (use assms in \<open>auto simp: prepare_attempt_chunk_def attempt_boundary_def split: EventKind.splits\<close>)

lemma chunk_reopened:
  assumes r: "reopened env p b"
    and "prepare_attempt_chunk env (attempt p) e (request_header p) (replacement_generation (compaction p)) = Inr prepared"
    and "commit_chunk (attempt p) prepared = Some a'"
  shows "\<exists>prepared' b'. prepare_attempt_chunk env b e (request_header p) (replacement_generation (compaction p))
      = Inr prepared' \<and> commit_chunk b prepared' = Some b' \<and> matching a' b'"
  using assms(2,3)
proof (cases rule: accepted_chunk_cases)
  case (first turn step chunk n route k s u)
  note books = reopened_books [OF r]
  from reopened_settled [OF r] first have ready: "attempt_state b = AttemptReady turn step" by simp
  from books first have progress: "replay_progress b (replacement_generation (compaction p))"
    by (simp add: same_books_def replay_progress_def)
  from successor_le [OF first(4)] books obtain m where m: "checked_add (next_generation b) 1 = Some m" "m \<le> n"
    by (auto simp: same_books_def)
  let ?g = "next_generation b"
  have opened: "open_attempt ?g turn step route = (open_attempt (next_generation (attempt p)) turn step route)\<lparr>att_generation := ?g\<rparr>"
    by (rule open_attempt_generation)
  from books have usage: "attempt_usage b = attempt_usage (attempt p)" by (simp add: same_books_def)
  have k: "prepare_existing_chunk env (open_attempt ?g turn step route) (event_seq e) chunk (attempt_usage b)
      = Inr (k\<lparr>chunk_generation := ?g\<rparr>)"
    by (simp only: opened usage prepare_existing_chunk_regen first(6) map_ok_simps)
  have s: "commit_open (open_attempt ?g turn step route) (k\<lparr>chunk_generation := ?g\<rparr>) = Some (regen ?g s, u)"
    by (simp add: opened commit_open_regen first(7))
  from first_chunk [OF ready first(2) progress m(1) first(5) k s] first(8)
    matching_generation [OF matching_chunk [OF books first(7)] m(2)]
  show ?thesis by blast
next
  case (later o' chunk k s u)
  note books = reopened_books [OF r]
  from books have usage: "attempt_usage b = attempt_usage (attempt p)" by (simp add: same_books_def)
  from r later(1) consider (streaming) g where "attempt_state b = AttemptStreaming (o'\<lparr>att_generation := g\<rparr>)"
    | (fresh) "reopened_fresh p o' b"
    by (auto simp: reopened_def reopened_state_def)
  then show ?thesis
  proof cases
    case streaming
    let ?o = "o'\<lparr>att_generation := g\<rparr>"
    have "prepare_existing_chunk env ?o (event_seq e) chunk (attempt_usage b) = Inr (k\<lparr>chunk_generation := g\<rparr>)"
      by (simp add: usage prepare_existing_chunk_regen later(3))
    moreover have "commit_open ?o (k\<lparr>chunk_generation := g\<rparr>) = Some (regen g s, u)"
      by (simp add: commit_open_regen later(4))
    ultimately show ?thesis
      using next_chunk [OF streaming, of e chunk] later(2,5) matching_chunk [OF books later(4)] by force
  next
    case fresh
    let ?g = "next_generation b" and ?r = "att_route o'"
    from fresh have ready: "attempt_state b = AttemptReady (att_turn o') (att_step o')"
      and opened: "o' = open_attempt (att_generation o') (att_turn o') (att_step o') ?r"
      and route: "route_from_header (request_header p) = Ok ?r"
      and progress: "replay_progress b (replacement_generation (compaction p))"
      and less: "?g < next_generation (attempt p)"
      by (auto simp: reopened_fresh_def)
    from successor_of_less [OF less] obtain m where m: "checked_add ?g 1 = Some m"
      "m \<le> next_generation (attempt p)" by blast
    have reopen: "open_attempt ?g (att_turn o') (att_step o') ?r = o'\<lparr>att_generation := ?g\<rparr>"
      using arg_cong [OF opened, of "\<lambda>x. x\<lparr>att_generation := ?g\<rparr>"] by (simp add: open_attempt_def)
    have k: "prepare_existing_chunk env (open_attempt ?g (att_turn o') (att_step o') ?r) (event_seq e) chunk
        (attempt_usage b) = Inr (k\<lparr>chunk_generation := ?g\<rparr>)"
      by (simp add: reopen usage prepare_existing_chunk_regen later(3))
    have s: "commit_open (open_attempt ?g (att_turn o') (att_step o') ?r) (k\<lparr>chunk_generation := ?g\<rparr>)
        = Some (regen ?g s, u)"
      by (simp add: reopen commit_open_regen later(4))
    have "matching (chunk_outcome (attempt p) s u)
        ((chunk_outcome b (regen ?g s) u)\<lparr>next_generation := m\<rparr>)"
      using matching_chunk [OF books later(4), of ?g] m(2)
      by (auto simp: matching_def same_books_def chunk_outcome_def)
    with first_chunk [OF ready later(2) progress m(1) route k s] later(5) show ?thesis by blast
  qed
qed

subsection \<open>The committed message\<close>

text \<open>The message of a sealed attempt cites its chunks by their digest only.\<close>

definition digest_tells :: "session_env \<Rightarrow> EventSeq list \<Rightarrow> EventSeq list \<Rightarrow> bool" where
  "digest_tells env xs ys \<longleftrightarrow> (length xs = length ys \<and> source_digest env xs = source_digest env ys \<longrightarrow> xs = ys)"

definition cited_rows :: "AttemptState \<Rightarrow> EventSeq list" where
  "cited_rows s = (case s of AttemptStreaming a \<Rightarrow> att_sources a | AttemptFinished f \<Rightarrow> fin_sources f | _ \<Rightarrow> [])"

lemma check_committed_message_generation:
  "check_committed_message env (s\<lparr>sea_generation := g\<rparr>) turn step m u = check_committed_message env s turn step m u"
  by (simp add: check_committed_message_def)

lemma seal_finished_generation:
  "seal_finished env (f\<lparr>fin_generation := g\<rparr>) d = (seal_finished env f d)\<lparr>sea_generation := g\<rparr>"
  by (simp add: seal_finished_def)

lemma terminal_attempt_reopened:
  assumes "reopened env p b" and "terminal_attempt env (attempt p) sources = Inr s"
    and tells: "digest_tells env sources (cited_rows (attempt_state b))"
  shows "\<exists>g. terminal_attempt env b sources = Inr (s\<lparr>sea_generation := g\<rparr>)"
proof (cases "attempt_state (attempt p)")
  case (AttemptFinished f)
  with assms(1) obtain g where "attempt_state b = AttemptFinished (f\<lparr>fin_generation := g\<rparr>)"
    by (auto simp: reopened_def reopened_state_def)
  with AttemptFinished assms(2) show ?thesis
    by (auto simp: terminal_attempt_def result_simps seal_finished_generation split: if_splits)
next
  case (AttemptSealed x)
  with assms(1) have "reopened_sealed env x (attempt_state b)"
    by (auto simp: reopened_def reopened_state_def)
  then obtain f d where f: "attempt_state b = AttemptFinished f" "optional_json_digest env (fin_replay_state f) = Ok d"
    and x: "x = (seal_finished env f d)\<lparr>sea_generation := sea_generation x\<rparr>"
    by (rule reopened_sealedE)
  from AttemptSealed assms(2) have s: "s = x" and len: "length sources = sea_source_count x"
    and digest: "source_digest env sources = sea_source_digest x"
    by (auto simp: terminal_attempt_def split: if_splits)
  from arg_cong [OF x, of sea_source_count] arg_cong [OF x, of sea_source_digest] len digest tells f(1)
  have "fin_sources f = sources" by (simp add: digest_tells_def cited_rows_def seal_finished_def)
  moreover have "seal_finished env f d = x\<lparr>sea_generation := fin_generation f\<rparr>"
    by (subst x) (simp add: seal_finished_def)
  ultimately show ?thesis using f s by (auto simp: terminal_attempt_def)
qed (use assms(2) in \<open>auto simp: terminal_attempt_def attempt_boundary_def\<close>)

lemma assistant_reopened:
  assumes r: "reopened env p b" and "attempt_assistant env (attempt p) e = Inr (a, facts)"
    and "digest_tells env (event_source_list e) (cited_rows (attempt_state b))"
  shows "\<exists>b'. attempt_assistant env b e = Inr (b', facts) \<and> matching a b'"
proof -
  from assms(2) obtain turn step m usage s projection tokens
    where e: "event_kind e = AssistantMessage turn step m usage"
      and s: "terminal_attempt env (attempt p) (event_source_list e) = Inr s"
      and checked: "check_committed_message env s turn step m usage = Inr ()"
      and u: "(case usage of Some u \<Rightarrow> with_sample (attempt_usage (attempt p)) turn step u
        | None \<Rightarrow> Ok (attempt_usage (attempt p))) = Inr projection"
      and tokens: "sea_assistant_tokens s = Some tokens"
      and a: "a = (attempt p)\<lparr>attempt_state := AttemptCommitted turn step, attempt_usage := projection\<rparr>"
      and facts: "facts = \<lparr>facts_usage = usage, facts_assistant_tokens = tokens\<rparr>"
    by (auto simp: attempt_assistant_def result_simps attempt_boundary_def split: EventKind.splits)
  from terminal_attempt_reopened [OF r s assms(3)] obtain g
    where "terminal_attempt env b (event_source_list e) = Inr (s\<lparr>sea_generation := g\<rparr>)" by blast
  moreover from reopened_books [OF r] have "attempt_usage b = attempt_usage (attempt p)"
    by (simp add: same_books_def)
  ultimately have "attempt_assistant env b e
      = Inr (b\<lparr>attempt_state := AttemptCommitted turn step, attempt_usage := projection\<rparr>, facts)"
    using e checked u tokens facts
    by (simp add: attempt_assistant_def check_committed_message_generation cong: option.case_cong)
  with reopened_books [OF r] a show ?thesis by (simp add: same_books_def matching_def)
qed

end
