(* ===== verification/Live_Reopen.thy ===== *)
theory Live_Reopen
  imports Attempt_Reopen
begin

text \<open>
  Every kind of append of a live durable session against the cold scan of the row it writes: what a
  privileged admission accepts, the scan accepts, and both arrive at the same projection up to the
  attempt, which stays \<open>reopened\<close>.
\<close>

section \<open>Admissions\<close>

lemma apply_kind_admission:
  fixes p :: "'a Projection_scheme"
  assumes "is_unprivileged_durable a = is_unprivileged_durable a'"
  shows "apply_kind p e a = apply_kind p e a'"
proof -
  have "check_result_intent e m err a c = check_result_intent e m err a' c" for m err c
    using assms by (cases "declared_intent_seq c") (simp_all add: check_result_intent_def)
  then have "resolve_durable_call p e m err a = resolve_durable_call p e m err a'" for p :: "'a Projection_scheme" and m err
    by (simp add: resolve_durable_call_def cong: branch_cong)
  then show ?thesis by (cases "event_kind e") (simp_all add: apply_kind_def apply_tool_result_def)
qed

lemma apply_kind_replacement:
  "is_tool_result (event_kind e) \<longrightarrow> is_replace (event_surface_op e) \<Longrightarrow> apply_kind p e a = apply_kind p e a'"
  by (cases "event_kind e") (simp_all add: apply_kind_def apply_tool_result_def)

lemma apply_transition_ordinary: "apply_transition p e Ordinary = apply_transition p e ColdScan"
  by (simp add: apply_transition_def is_unprivileged_durable_def apply_kind_admission [of Ordinary ColdScan])

definition not_recovery :: "EventKind \<Rightarrow> bool" where
  "not_recovery k \<longleftrightarrow> \<not> is_recovery_boundary k \<and> \<not> is_recovery_result k"

lemma apply_transition_owned:
  assumes "apply_transition p e a = Inr q" and "not_recovery (event_kind e)"
    and "is_tool_result (event_kind e) \<longrightarrow> is_replace (event_surface_op e)"
  shows "apply_transition p e ColdScan = Inr q"
  using assms apply_kind_replacement [OF assms(3), of p a ColdScan]
  by (auto simp: apply_transition_def not_recovery_def split: if_splits)

lemma advance_compaction_admission:
  assumes "a \<noteq> CompatibilityReplay" and "a' \<noteq> CompatibilityReplay"
  shows "advance_compaction env p e a = advance_compaction env p e a'"
proof -
  have "start_recipe env p n s a = start_recipe env p n s a'" for n s
    using assms by (simp add: start_recipe_def cong: branch_cong)
  then have "validate_compaction_start env p n s a = validate_compaction_start env p n s a'" for n s
    by (simp add: validate_compaction_start_def)
  then have "outside_compaction env p e a x c = outside_compaction env p e a' x c" for x c
    by (simp add: outside_compaction_def cong: branch_cong)
  moreover have "advance_open_compaction env p e opened a = advance_open_compaction env p e opened a'" for opened
    using assms by (simp add: advance_open_compaction_def advance_end_def Let_def cong: branch_cong)
  ultimately show ?thesis by (simp add: advance_compaction_def cong: branch_cong)
qed

lemma next_compaction_ordinary:
  "next_compaction_state env p e Ordinary = Inr c \<Longrightarrow> next_compaction_state env p e ColdScan = Inr c"
  using advance_compaction_admission [of Ordinary ColdScan env p e]
  by (auto simp: next_compaction_state_def is_unprivileged_durable_def Let_def split: if_splits)

lemma live_adjacency_open:
  "apply_prune_adjacency c e = Inr (c', x) \<Longrightarrow> open_compaction c' = open_compaction c"
  by (auto simp: apply_prune_adjacency_def Let_def result_simps split: option.splits SurfaceOp.splits if_splits)

lemma step_end_open_refused:
  assumes "is_step_end (event_kind e)" and "open_compaction (compaction p) \<noteq> None"
  shows "advance_compaction env p e a \<noteq> Inr c"
proof
  assume "advance_compaction env p e a = Inr c"
  then obtain c1 x c2 where adjacent: "apply_prune_adjacency (compaction p) e = Inr (c1, x)"
    and advance: "(case open_compaction c1 of
         Some opened \<Rightarrow> and_then (advance_open_compaction env p e opened a) (\<lambda>next.
           Ok (c1\<lparr>open_compaction := next\<rparr>))
       | None \<Rightarrow> outside_compaction env p e a x c1) = Inr c2"
    by (auto simp: advance_compaction_def and_then_Inr)
  from assms(2) live_adjacency_open [OF adjacent] obtain opened where "open_compaction c1 = Some opened"
    by auto
  with advance obtain n where "advance_open_compaction env p e opened a = Inr n" by (auto simp: and_then_Inr)
  with assms(1) show False by (cases "event_kind e") (simp_all add: advance_open_compaction_def)
qed

definition owned :: "ValidationAdmission \<Rightarrow> bool" where
  "owned a \<longleftrightarrow> a = OwnedAttempt \<or> a = OwnedPrune \<or> a = OwnedOverflowPrune"

lemma next_compaction_owned:
  assumes "next_compaction_state env p e a = Inr c" and "owned a" and "not_recovery (event_kind e)"
    and "policy p = DurableStrict"
  shows "next_compaction_state env p e ColdScan = Inr c"
proof -
  from assms have advance: "advance_compaction env p e a = Inr c"
    by (auto simp: next_compaction_state_def owned_def is_unprivileged_durable_def Let_def split: if_splits)
  then have "\<not> (is_step_end (event_kind e) \<and> open_compaction (compaction p) \<noteq> None)"
    using step_end_open_refused [of e p env a c] by blast
  moreover from assms(2) have "advance_compaction env p e ColdScan = advance_compaction env p e a"
    by (intro advance_compaction_admission) (auto simp: owned_def)
  ultimately show ?thesis
    using advance assms(3,4) by (auto simp: next_compaction_state_def not_recovery_def is_unprivileged_durable_def Let_def)
qed

section \<open>What a step carries over\<close>

lemma apply_goal_transition_only:
  "apply_goal_transition p e = Inr q \<Longrightarrow> \<exists>g. q = p\<lparr>goal_replay := g\<rparr>"
  by (cases p) (auto simp: apply_goal_transition_def result_simps split: EventKind.splits)

lemma next_compaction_state_goal:
  "next_compaction_state env (p\<lparr>goal_replay := g\<rparr>) e a = next_compaction_state env p e a"
proof -
  have reading: "open_turn (p\<lparr>goal_replay := g\<rparr>) = open_turn p" "node_position (p\<lparr>goal_replay := g\<rparr>) n = node_position p n"
    "has_pending_durable_call (p\<lparr>goal_replay := g\<rparr>) = has_pending_durable_call p" for n
    by (simp_all add: open_turn_def node_position_def has_pending_durable_call_def)
  have range: "surface_range_indices (p\<lparr>goal_replay := g\<rparr>) r ss = surface_range_indices p r ss" for r ss
    by (simp add: surface_range_indices_def reading)
  have "dispatch_matches_header (p\<lparr>goal_replay := g\<rparr>) d = dispatch_matches_header p d" for d
    by (simp add: dispatch_matches_header_def)
  moreover have "dispatch_prefix (p\<lparr>goal_replay := g\<rparr>) n d = dispatch_prefix p n d" for n d
    by (simp add: dispatch_prefix_def range)
  ultimately have "validate_compaction_dispatch env (p\<lparr>goal_replay := g\<rparr>) n d = validate_compaction_dispatch env p n d" for n d
    by (simp add: validate_compaction_dispatch_def reading)
  then have "start_recipe env (p\<lparr>goal_replay := g\<rparr>) n s a = start_recipe env p n s a" for n s
    by (simp add: start_recipe_def reading cong: branch_cong)
  then have "validate_compaction_start env (p\<lparr>goal_replay := g\<rparr>) n s a = validate_compaction_start env p n s a" for n s
    by (simp add: validate_compaction_start_def reading)
  then have "outside_compaction env (p\<lparr>goal_replay := g\<rparr>) e a x c = outside_compaction env p e a x c" for x c
    by (simp add: outside_compaction_def claim_prune_def cong: branch_cong)
  moreover have "advance_open_compaction env (p\<lparr>goal_replay := g\<rparr>) e opened a = advance_open_compaction env p e opened a" for opened
    by (cases "event_kind e") (simp_all add: advance_open_compaction_def advance_summary_def advance_checkpoint_def
        advance_end_def surface_range_matches_def range reading Let_def cong: branch_cong)
  ultimately show ?thesis
    by (simp add: next_compaction_state_def advance_compaction_def Let_def cong: branch_cong)
qed

lemma replacement_generation_mono:
  assumes "next_compaction_state env p e a = Inr c"
  shows "replacement_generation (compaction p) \<le> replacement_generation c"
proof -
  have surface: "advance_surface_generation c0 e = Inr c1 \<Longrightarrow> replacement_generation c1 = replacement_generation c0" for c0 c1
    by (auto simp: advance_surface_generation_def result_simps split: if_splits)
  have adjacent: "apply_prune_adjacency c0 e = Inr (c1, x) \<Longrightarrow> replacement_generation c1 = replacement_generation c0" for c0 c1 x
    by (auto simp: apply_prune_adjacency_def Let_def result_simps split: option.splits SurfaceOp.splits if_splits)
  have outside: "outside_compaction env p e a x c0 = Inr c1 \<Longrightarrow> replacement_generation c1 = replacement_generation c0" for c0 c1 x
    by (auto simp: outside_compaction_def result_simps split: EventKind.splits if_splits)
  have "advance_compaction env p e a = Inr c \<Longrightarrow> ?thesis"
    by (auto simp: advance_compaction_def advance_generation_def and_then_Inr result_simps word_le_nat_alt
        dest!: surface adjacent outside safe_successor_Some split: option.splits if_splits)
  with assms show ?thesis
    by (auto simp: next_compaction_state_def compaction_closed_def Let_def dest!: surface split: if_splits)
qed

definition carries :: "LiveProjection \<Rightarrow> LiveProjection \<Rightarrow> bool" where
  "carries p q \<longleftrightarrow> attempt q = attempt p
     \<and> (request_header q = request_header p \<or> \<not> has_open_attempt (attempt p))
     \<and> replacement_generation (compaction p) \<le> replacement_generation (compaction q)
     \<and> policy q = policy p"

lemma carries_refl [simp]: "carries p p"
  by (simp add: carries_def)

lemma carries_trans: "carries p q \<Longrightarrow> carries q r \<Longrightarrow> carries p r"
  by (auto simp: carries_def)

lemma replay_progress_mono: "replay_progress a g \<Longrightarrow> g \<le> g' \<Longrightarrow> replay_progress a g'"
  by (auto simp: replay_progress_def intro: less_le_trans)

lemma carries_reopened:
  assumes "carries p q" and "reopened env p b" shows "reopened env q b"
proof (cases "has_open_attempt (attempt p)")
  case True
  with assms(1) have "attempt q = attempt p" "request_header q = request_header p"
    "replacement_generation (compaction p) \<le> replacement_generation (compaction q)"
    by (auto simp: carries_def)
  with assms(2) show ?thesis
    by (auto simp: reopened_def reopened_state_def reopened_fresh_def intro: replay_progress_mono)
next
  case False
  with assms show ?thesis
    by (auto simp: carries_def reopened_def reopened_state_def has_open_attempt_def)
qed

lemma attempt_kept:
  "apply_goal_transition p e = Inr q \<Longrightarrow> attempt q = attempt p"
  "apply_transition p e a = Inr q \<Longrightarrow> attempt q = attempt p"
  "apply_surface env p e binding = Inr q \<Longrightarrow> attempt q = attempt p"
  for p q :: LiveProjection
proof -
  have self: "upd (attempt p) p = p" by (cases p) simp
  have attempt_upd: "attempt (upd (attempt p) q) = attempt p" by simp
  have kept: "attempt q = attempt p" if "r = Inr q" "map_ok (upd (attempt p)) r = r" for r :: "'e + LiveProjection"
    using that attempt_upd by simp
  show "apply_goal_transition p e = Inr q \<Longrightarrow> attempt q = attempt p"
    using apply_goal_transition_frame [of "attempt p" p e] kept by (simp add: self)
  show "apply_transition p e a = Inr q \<Longrightarrow> attempt q = attempt p"
    using apply_transition_frame [of "attempt p" p e a] kept by (simp add: self)
  show "apply_surface env p e binding = Inr q \<Longrightarrow> attempt q = attempt p"
    using apply_surface_frame [of env "attempt p" p e binding] kept by (simp add: self)
qed

lemma goal_carries: "apply_goal_transition p e = Inr q \<Longrightarrow> carries p q"
  using apply_goal_transition_only [of p e q] by (auto simp: carries_def)

lemma surface_carries:
  assumes "apply_surface env p e binding = Inr q" shows "carries p q"
proof -
  have "request_header q = request_header p"
    using assms by (auto elim!: apply_surface_cases simp: apply_append_def apply_replace_def result_simps
        Let_def observe_message_time_def split: if_splits option.splits)
  with attempt_kept(3) [OF assms] apply_surface_same [OF assms] show ?thesis
    by (simp add: carries_def same_turns_def)
qed

fun is_request_header :: "EventKind \<Rightarrow> bool" where
  "is_request_header (RequestHeader _ _) = True"
| "is_request_header _ = False"

definition same_header :: "'a Projection_scheme \<Rightarrow> 'a Projection_scheme \<Rightarrow> bool" where
  "same_header p q \<longleftrightarrow> request_header q = request_header p"

lemma same_header_refl [simp]: "same_header p p"
  by (simp add: same_header_def)

lemma same_header_trans: "same_header p q \<Longrightarrow> same_header q r \<Longrightarrow> same_header p r"
  by (simp add: same_header_def)

lemma same_header_updates:
  "same_header p (p\<lparr>standing_todos := t\<rparr>)" "same_header p (p\<lparr>plan_mode_active := b\<rparr>)"
  "same_header p (p\<lparr>permission_preset := x\<rparr>)" "same_header p (p\<lparr>session_title := y\<rparr>)"
  "same_header p (p\<lparr>session_title_llm_requested := b\<rparr>)"
  "same_header p (p\<lparr>request_context := c, request_context_seq := n\<rparr>)"
  by (simp_all add: same_header_def)

lemma turn_ops_header:
  "apply_turn_start p t = Inr q \<Longrightarrow> same_header p q"
  "apply_turn_end p t = Inr q \<Longrightarrow> same_header p q"
  "apply_step_start p t s = Inr q \<Longrightarrow> same_header p q"
  "apply_step_end p t s = Inr q \<Longrightarrow> same_header p q"
  by (auto simp: turn_ops result_simps same_header_def split: option.splits if_splits list.splits Boundary.splits)

lemma call_ops_header:
  "register_durable_declarations p m = Inr q \<Longrightarrow> same_header p q"
  "promote_durable_call p n i name arguments = Inr q \<Longrightarrow> same_header p q"
  "same_header p (push_pending_call p i)"
  "resolve_durable_call p e m err a = Inr q \<Longrightarrow> same_header p q"
  "remove_pending_call p t st i synthetic = Inr q \<Longrightarrow> same_header p q"
  by (auto simp: register_durable_declarations_def push_pending_call_def and_then_Inr same_header_def
      split: if_splits Boundary.splits
      elim!: promote_durable_call_cases resolve_durable_call_cases remove_pending_call_cases)

lemma tool_ops_header:
  "apply_tool_call p n t s i name arguments = Inr q \<Longrightarrow> same_header p q"
  "apply_tool_result p e t s m err a = Inr q \<Longrightarrow> same_header p q"
  by (auto simp: apply_tool_call_def apply_tool_result_def result_simps split: if_splits
      intro: same_header_trans call_ops_header)

lemma approval_ops_header:
  "apply_approval_asked p x = Inr q \<Longrightarrow> same_header p q"
  "apply_approval_decided p y = Inr q \<Longrightarrow> same_header p q"
  by (auto simp: approval_ops result_simps same_header_def Let_def
      split: option.splits if_splits list.splits Boundary.splits)

lemma retry_ops_header:
  "apply_retry p r = Inr q \<Longrightarrow> same_header p q"
  "apply_retry_started p x = Inr q \<Longrightarrow> same_header p q"
  by (auto simp: retry_ops result_simps same_header_def Let_def split: option.splits if_splits)

lemma apply_kind_header:
  assumes "apply_kind p e a = Inr q" and "\<not> is_request_header (event_kind e)"
  shows "request_header q = request_header p"
proof -
  from assms have "same_header p q"
    by (cases "event_kind e")
      (auto simp: apply_kind_def result_simps apply_assistant_message_def same_header_updates
        intro: turn_ops_header call_ops_header tool_ops_header approval_ops_header retry_ops_header)
  then show ?thesis by (simp add: same_header_def)
qed

lemma transition_carries:
  assumes "apply_transition p e a = Inr q" and "is_request_header (event_kind e) \<longrightarrow> \<not> has_open_attempt (attempt p)"
  shows "carries p q"
proof -
  from assms(1) obtain q0 where "apply_kind p e a = Inr q0" "q = capture_first_prompt e q0"
    by (rule apply_transition_cases)
  then have "\<not> is_request_header (event_kind e) \<Longrightarrow> request_header q = request_header p"
    by (auto simp: capture_first_prompt_def dest: apply_kind_header split: EventKind.split option.split)
  with assms(2) attempt_kept(2) [OF assms(1)] apply_transition_same_surface [OF assms(1)] show ?thesis
    by (auto simp: carries_def same_surface_def)
qed

section \<open>The attempt's part of a row\<close>

definition sources_tell :: "session_env \<Rightarrow> SessionEvent \<Rightarrow> AttemptProjection \<Rightarrow> bool" where
  "sources_tell env e b \<longleftrightarrow> digest_tells env (event_source_list e) (cited_rows (attempt_state b))"

lemma set_attempt_Inr: "set_attempt p r = Inr q \<longleftrightarrow> (\<exists>a. r = Inr a \<and> q = p\<lparr>attempt := a\<rparr>)"
  by (auto simp: set_attempt_def result_simps)

lemma upd_simps [simp]: "upd b (upd a p) = upd b p" "attempt (upd b p) = b"
  "policy (upd b p) = policy p" "boundary (upd b p) = boundary p" "compaction (upd b p) = compaction p"
  "request_header (upd b p) = request_header p"
  by simp_all

lemma token_anchor_upd: "upd b (p\<lparr>token_anchor := t, attempt := a\<rparr>) = p\<lparr>token_anchor := t, attempt := b\<rparr>"
  by simp

lemma prepare_token_anchor_upd [simp]:
  "prepare_token_anchor env (upd b p) e facts = prepare_token_anchor env p e facts"
  by (cases "event_kind e") (simp_all add: prepare_token_anchor_def cong: branch_cong)

text \<open>Ordinary events.\<close>

lemma attempt_ordinary_reopened:
  assumes r: "reopened env p b" and strict: "policy p = DurableStrict"
    and kind: "\<not> is_attempt_event (event_kind e)" "\<not> is_overflow_start (event_kind e)" "\<not> is_prune (event_kind e)"
    and live: "apply_attempt_transition env p e Ordinary None = Inr q"
  shows "\<exists>b'. apply_attempt_transition env (upd b p) e ColdScan None = Inr (upd b' q)
    \<and> reopened env q b' \<and> q = upd (attempt q) p"
proof -
  from strict live have q: "apply_attempt_event env p e Ordinary None = Inr q"
    by (simp add: apply_attempt_transition_def)
  have cold: "apply_attempt_transition env (upd b p) e ColdScan None = apply_attempt_event env (upd b p) e ColdScan None"
    using strict kind by (simp add: apply_attempt_transition_def)
  have same: "\<exists>b'. apply_attempt_event env (upd b p) e ColdScan None = Inr (upd b' q)
      \<and> reopened env q b' \<and> q = upd (attempt q) p"
    if "set_attempt p (f (attempt p)) = Inr q"
      "apply_attempt_event env (upd b p) e ColdScan None = set_attempt (upd b p) (g b)"
      "\<And>a. f (attempt p) = Inr a \<Longrightarrow> \<exists>b'. g b = Inr b' \<and> matching a b'" for f g
  proof -
    from that(1) obtain a where a: "f (attempt p) = Inr a" and q: "q = upd a p" by (auto simp: set_attempt_Inr)
    from that(3) [OF a] obtain b' where "g b = Inr b'" "matching a b'" by blast
    with that(2) q show ?thesis by (auto simp: set_attempt_Inr intro!: matching_reopened)
  qed
  have idle: "\<exists>b'. apply_attempt_event env (upd b p) e ColdScan None = Inr (upd b' q)
      \<and> reopened env q b' \<and> q = upd (attempt q) p"
    if "q = p" "apply_attempt_event env (upd b p) e ColdScan None = Inr (upd b p)"
    using that r by (intro exI [of _ b]) simp
  show ?thesis unfolding cold
  proof (cases "event_kind e")
    case (StepStart turn step)
    show "\<exists>b'. apply_attempt_event env (upd b p) e ColdScan None = Inr (upd b' q)
      \<and> reopened env q b' \<and> q = upd (attempt q) p"
      by (rule same [of "\<lambda>a. attempt_step_start a turn step" "\<lambda>b. attempt_step_start b turn step"])
        (use q StepStart step_start_reopened [OF r] in \<open>simp_all add: apply_attempt_event_def\<close>)
  next
    case (StepEnd turn step)
    show "\<exists>b'. apply_attempt_event env (upd b p) e ColdScan None = Inr (upd b' q)
      \<and> reopened env q b' \<and> q = upd (attempt q) p"
      by (rule same [of "\<lambda>a. attempt_step_end a turn step None"
            "\<lambda>b. attempt_step_end b turn step (if has_open_attempt b then Some DispositionFailed else None)"])
        (use q StepEnd step_end_reopened [OF r] in \<open>simp_all add: apply_attempt_event_def\<close>)
  next
    case (LlmRetryStarted started)
    show "\<exists>b'. apply_attempt_event env (upd b p) e ColdScan None = Inr (upd b' q)
      \<and> reopened env q b' \<and> q = upd (attempt q) p"
    proof (cases "open_turn p \<noteq> Some (started_turn started) \<or> open_step p \<noteq> Some (started_step started)")
      case True
      with q LlmRetryStarted show ?thesis by (intro idle) (simp_all add: apply_attempt_event_def frame)
    next
      case False
      show ?thesis
        by (rule same [of "\<lambda>a. attempt_retry_started a (started_turn started) (started_step started)"
              "\<lambda>b. attempt_retry_started b (started_turn started) (started_step started)"])
          (use q False LlmRetryStarted retry_started_reopened [OF r] in \<open>simp_all add: apply_attempt_event_def frame\<close>)
    qed
  qed (rule idle; use q kind in \<open>simp add: apply_attempt_event_def\<close>)+
qed

text \<open>A context overflow closes the attempt.\<close>

lemma overflow_transition_reopened:
  assumes r: "reopened env p b" and live: "apply_context_overflow_transition p e = Inr q"
  shows "\<exists>b'. apply_context_overflow_transition (upd b p) e = Inr (upd b' q)
      \<and> reopened env q b' \<and> q = upd (attempt q) p"
    and "\<not> overflow_used b" and "has_open_attempt b" and "open_step p \<noteq> None"
proof -
  from live obtain s a where s: "boundary p = BoundaryStep s"
    and a: "context_overflow (attempt p) (step_turn s) (step_id s) (replacement_generation (compaction p))
        (is_compaction_start (event_kind e)) = Inr a" and q: "q = upd a p"
    by (auto simp: apply_context_overflow_transition_def set_attempt_Inr attempt_boundary_def split: Boundary.splits)
  note cold = context_overflow_reopened [OF r a]
  then show "\<not> overflow_used b" "has_open_attempt b" by simp_all
  from s show "open_step p \<noteq> None" by (simp add: open_step_def)
  from cold(1) obtain b' where "context_overflow b (step_turn s) (step_id s) (replacement_generation (compaction p))
        (is_compaction_start (event_kind e)) = Inr b'" "matching a b'" by blast
  with s q show "\<exists>b'. apply_context_overflow_transition (upd b p) e = Inr (upd b' q)
      \<and> reopened env q b' \<and> q = upd (attempt q) p"
    by (auto simp: apply_context_overflow_transition_def set_attempt_Inr intro!: matching_reopened)
qed

lemma attempt_prune_reopened:
  assumes "reopened env p b" and "apply_context_overflow_transition p e = Inr q" and "is_prune (event_kind e)"
    and "policy p = DurableStrict"
  shows "\<exists>b'. apply_attempt_transition env (upd b p) e ColdScan None = Inr (upd b' q)
      \<and> reopened env q b' \<and> q = upd (attempt q) p"
proof -
  from assms(3) have "\<not> is_overflow_start (event_kind e)" by (cases "event_kind e") simp_all
  with overflow_transition_reopened [OF assms(1,2)] assms(3,4) show ?thesis
    by (auto simp: apply_attempt_transition_def frame)
qed

text \<open>Closures.\<close>

lemma legal_closure_cases:
  assumes "legal_closure (Some d) k"
  obtains (message) t s m u where "k = AssistantMessage t s m u" "d = DispositionCommitted"
  | (retry) x where "k = LlmRetry x" "d = DispositionRetry"
  | (step_end) t s where "k = StepEnd t s" "d \<noteq> DispositionContextOverflow"
  | (overflow) x where "k = CompactionStart x" "is_overflow_start k" "d = DispositionContextOverflow"
  using assms by (cases k) (auto simp: legal_closure_def)

lemma attempt_closure_reopened:
  assumes r: "reopened env p b" and strict: "policy p = DurableStrict"
    and live: "apply_attempt_transition env p e OwnedAttempt (Some d) = Inr q"
    and tells: "sources_tell env e b"
  shows "\<exists>b'. apply_attempt_transition env (upd b p) e ColdScan None = Inr (upd b' q)
      \<and> reopened env q b'"
proof -
  from live strict have legal: "legal_closure (Some d) (event_kind e)"
    and event: "d \<noteq> DispositionContextOverflow \<Longrightarrow> apply_attempt_event env p e OwnedAttempt (Some d) = Inr q"
    and overflow: "d = DispositionContextOverflow \<Longrightarrow> apply_context_overflow_transition p e = Inr q"
    by (auto simp: apply_attempt_transition_def split: if_splits)
  from legal show ?thesis
  proof (cases rule: legal_closure_cases)
    case (message t s m u)
    with event obtain a facts anchor where a: "attempt_assistant env (attempt p) e = Inr (a, facts)"
      and anchor: "prepare_token_anchor env p e facts = Inr anchor"
      and q: "q = p\<lparr>token_anchor := Some anchor, attempt := a\<rparr>"
      by (auto simp: apply_attempt_event_def commit_assistant_def and_then_Inr map_err_Inr split: prod.splits)
    from assistant_reopened [OF r a] tells obtain b' where "attempt_assistant env b e = Inr (b', facts)"
      "matching a b'" by (auto simp: sources_tell_def)
    with message strict anchor q show ?thesis
      by (auto simp: apply_attempt_transition_def apply_attempt_event_def commit_assistant_def intro!: matching_reopened)
  next
    case (retry x)
    with event obtain a where "attempt_retry env (attempt p) e = Inr a" "q = upd a p"
      by (auto simp: apply_attempt_event_def set_attempt_Inr)
    with retry_reopened [OF r, of e a] retry strict show ?thesis
      by (auto simp: apply_attempt_transition_def apply_attempt_event_def set_attempt_Inr intro!: matching_reopened)
  next
    case (step_end t s)
    with event obtain a where "attempt_step_end (attempt p) t s (Some d) = Inr a" "q = upd a p"
      by (auto simp: apply_attempt_event_def set_attempt_Inr)
    with step_end_reopened [OF r, of t s "Some d" a] step_end strict show ?thesis
      by (auto simp: apply_attempt_transition_def apply_attempt_event_def set_attempt_Inr intro!: matching_reopened)
  next
    case (overflow x)
    with \<open>d = DispositionContextOverflow \<Longrightarrow> _\<close> have live: "apply_context_overflow_transition p e = Inr q" by simp
    from overflow_transition_reopened [OF r live] overflow strict show ?thesis
      by (auto simp: apply_attempt_transition_def)
  qed
qed

section \<open>The row of an append\<close>

fun is_chunk :: "EventKind \<Rightarrow> bool" where
  "is_chunk (AssistantChunk _ _ _) = True"
| "is_chunk _ = False"

text \<open>The attempt's part and the turn state, in the order of the scan.\<close>

definition scan_middle :: "session_env \<Rightarrow> LiveProjection \<Rightarrow> SessionEvent \<Rightarrow> EventValidationError + LiveProjection" where
  "scan_middle env p e = (if is_retry_started (event_kind e)
     then and_then (map_err EvTransition (apply_transition p e ColdScan)) (\<lambda>p.
       apply_attempt_transition env p e ColdScan None)
     else and_then (apply_attempt_transition env p e ColdScan None) (\<lambda>p.
       map_err EvTransition (apply_transition p e ColdScan)))"

lemma scanned_row_other:
  "\<not> is_chunk (event_kind e) \<Longrightarrow> apply_scanned_row env p e row =
     and_then (event_validate env (event_kind e)) (\<lambda>_.
     and_then (next_compaction_state env p e ColdScan) (\<lambda>c.
     and_then (apply_goal_transition p e) (\<lambda>p.
     and_then (scan_middle env p e) (\<lambda>p.
     and_then (map_err EvSurface (apply_surface env p e (BindDurable row))) (\<lambda>p.
       Ok (p\<lparr>compaction := c\<rparr>))))))"
  by (cases "event_kind e") (simp_all add: apply_scanned_row_def scan_middle_def)

text \<open>A live append of an event that is no chunk: the bracket, the turn state with the attempt, the
  surface. The scan takes the same path.\<close>

lemma row_reopened:
  assumes "\<not> is_chunk (event_kind e)" and "event_validate env (event_kind e) = Inr ()"
    and "next_compaction_state env p e ColdScan = Inr c"
    and "apply_goal_transition p e = Inr p1"
    and "scan_middle env (upd b p1) e = Inr (upd b' p2)" and "reopened env p2 b'"
    and "apply_surface env p2 e (BindDurable row) = Inr p3"
    and "replacement_generation (compaction p2) = replacement_generation (compaction p)"
  shows "apply_scanned_row env (upd b p) e row = Inr (upd b' (p3\<lparr>compaction := c\<rparr>))
    \<and> reopened env (p3\<lparr>compaction := c\<rparr>) b'"
proof
  show "apply_scanned_row env (upd b p) e row = Inr (upd b' (p3\<lparr>compaction := c\<rparr>))"
    using assms by (simp add: scanned_row_other frame)
  from assms(7) have "carries p2 p3" by (rule surface_carries)
  moreover have "carries p3 (p3\<lparr>compaction := c\<rparr>)"
    using replacement_generation_mono [OF assms(3)] assms(8) apply_surface_same(2) [OF assms(7)]
    by (simp add: carries_def)
  ultimately show "reopened env (p3\<lparr>compaction := c\<rparr>) b'"
    using assms(6) by (blast intro: carries_reopened carries_trans)
qed

lemma nodes_before_same: "surface_nodes q = surface_nodes p \<Longrightarrow> nodes_before n p \<Longrightarrow> nodes_before n q"
  by (simp add: nodes_before_def)

lemma upd_nodes [simp]: "surface_nodes (upd a p) = surface_nodes p" "nodes_before n (upd a p) = nodes_before n p"
  by (simp_all add: nodes_before_def)

lemma attempt_transition_nodes:
  "apply_attempt_transition env p e a d = Inr q \<Longrightarrow> surface_nodes q = surface_nodes p \<and> compaction q = compaction p \<and> policy q = policy p"
proof -
  have set: "set_attempt p r = Inr q \<Longrightarrow> surface_nodes q = surface_nodes p \<and> compaction q = compaction p \<and> policy q = policy p" for r
    by (auto simp: set_attempt_Inr)
  have "apply_context_overflow_transition p e = Inr q \<Longrightarrow> surface_nodes q = surface_nodes p \<and> compaction q = compaction p \<and> policy q = policy p"
    by (simp add: apply_context_overflow_transition_def set)
  moreover have "apply_attempt_event env p e a d = Inr q \<Longrightarrow> surface_nodes q = surface_nodes p \<and> compaction q = compaction p \<and> policy q = policy p"
    by (cases "event_kind e")
      (auto simp: apply_attempt_event_def commit_assistant_def and_then_Inr dest: set split: if_splits prod.splits)
  ultimately show "apply_attempt_transition env p e a d = Inr q \<Longrightarrow> surface_nodes q = surface_nodes p \<and> compaction q = compaction p \<and> policy q = policy p"
    by (auto simp: apply_attempt_transition_def dest: set split: if_splits)
qed

lemma transition_nodes:
  assumes "apply_transition p e a = Inr q"
  shows "surface_nodes q = surface_nodes p" and "compaction q = compaction p" and "policy q = policy p"
  using apply_transition_same_surface [OF assms] by (simp_all add: same_surface_def)

text \<open>Ordinary events.\<close>

lemma ordinary_row_reopened:
  assumes strict: "policy p = DurableStrict" and r: "reopened env p b"
    and header: "is_request_header (event_kind e) \<longrightarrow> \<not> has_open_attempt (attempt p)"
    and live: "apply_ordinary_event env BindPendingDurable p (e\<lparr>event_time := t\<rparr>) = Inr q"
    and before: "nodes_before (event_seq e) p" and row: "row_seq row = event_seq e"
    and commit: "commit_replace (set_committed_event_time e q, pending_tool_result e) row = Some p'"
  shows "\<exists>b'. apply_scanned_row env (upd b p) e row = Inr (upd b' p') \<and> reopened env p' b'"
proof -
  let ?live = "\<lambda>p. if is_retry_started (event_kind e)
       then and_then (map_err EvTransition (apply_transition p e Ordinary)) (\<lambda>p.
         apply_attempt_transition env p e Ordinary None)
       else and_then (if is_step_boundary (event_kind e)
           then apply_attempt_transition env p e Ordinary None else Ok p) (\<lambda>p.
         map_err EvTransition (apply_transition p e Ordinary))"
  from live obtain p1 c p2 q3 where valid: "event_validate env (event_kind e) = Inr ()"
    and own: "reject_unowned_attempt_event p e = Inr ()" and goal: "apply_goal_transition p e = Inr p1"
    and c: "next_compaction_state env p1 e Ordinary = Inr c"
    and start: "reject_unowned_context_overflow_start p1 e = Inr ()" and mid: "?live p1 = Inr p2"
    and q3: "apply_surface env p2 (e\<lparr>event_time := t\<rparr>) BindPendingDurable = Inr q3"
    and q: "q = q3\<lparr>compaction := c\<rparr>"
    by (auto simp: apply_ordinary_event_def clock and_then_Inr map_err_Inr cong: if_cong)
  from goal_carries [OF goal] strict have strict1: "policy p1 = DurableStrict" by (simp add: carries_def)
  from own strict have kind: "\<not> is_attempt_event (event_kind e)"
    by (auto simp: reject_unowned_attempt_event_def split: if_splits)
  from start strict1 have kind2: "\<not> is_overflow_start (event_kind e)"
    by (auto simp: reject_unowned_context_overflow_start_def split: if_splits)
  from c strict1 have kind3: "\<not> is_prune (event_kind e)" by (auto simp: next_compaction_state_def Let_def split: if_splits)
  from kind have chunk: "\<not> is_chunk (event_kind e)" by (cases "event_kind e") simp_all
  from goal obtain g where p1: "p1 = p\<lparr>goal_replay := g\<rparr>" using apply_goal_transition_only by blast
  with next_compaction_ordinary [OF c] have cold_c: "next_compaction_state env p e ColdScan = Inr c"
    by (simp add: next_compaction_state_goal)
  from carries_reopened [OF goal_carries [OF goal] r] have r1: "reopened env p1 b" .
  have header1: "is_request_header (event_kind e) \<longrightarrow> \<not> has_open_attempt (attempt p1)"
    using header by (simp add: p1)
  note attempted = attempt_ordinary_reopened [OF _ _ kind kind2 kind3]
  have "\<exists>b'. scan_middle env (upd b p1) e = Inr (upd b' p2) \<and> reopened env p2 b'
    \<and> surface_nodes p2 = surface_nodes p1 \<and> compaction p2 = compaction p1"
  proof (cases "is_retry_started (event_kind e)")
    case True
    then have "\<not> is_request_header (event_kind e)" by (cases "event_kind e") simp_all
    with True mid obtain m where m: "apply_transition p1 e Ordinary = Inr m" and "carries p1 m"
      and live_m: "apply_attempt_transition env m e Ordinary None = Inr p2"
      by (auto simp: and_then_Inr map_err_Inr dest: transition_carries)
    have "reopened env m b" using \<open>carries p1 m\<close> r1 by (rule carries_reopened)
    moreover from \<open>carries p1 m\<close> strict1 have "policy m = DurableStrict" by (simp add: carries_def)
    ultimately have "\<exists>b'. apply_attempt_transition env (upd b m) e ColdScan None = Inr (upd b' p2)
        \<and> reopened env p2 b' \<and> p2 = upd (attempt p2) m" using live_m by (rule attempted)
    with True m attempt_transition_nodes [OF live_m] transition_nodes [OF m]
    show ?thesis by (auto simp: scan_middle_def apply_transition_ordinary frame)
  next
    case False
    obtain m where live_m: "apply_attempt_transition env p1 e Ordinary None = Inr m"
      and m: "apply_transition m e Ordinary = Inr p2"
    proof (cases "is_step_boundary (event_kind e)")
      case True
      with False mid that show ?thesis by (auto simp: and_then_Inr map_err_Inr)
    next
      case nb: False
      with False kind strict1 have "apply_attempt_transition env p1 e Ordinary None = Inr p1"
        by (cases "event_kind e") (simp_all add: apply_attempt_transition_def apply_attempt_event_def)
      with False nb mid that show ?thesis by (auto simp: map_err_Inr)
    qed
    from attempted [OF r1 strict1 live_m] obtain b' where cold: "apply_attempt_transition env (upd b p1) e ColdScan None = Inr (upd b' m)"
      and rm: "reopened env m b'" and mp: "m = upd (attempt m) p1" by blast
    have "is_request_header (event_kind e) \<longrightarrow> \<not> has_open_attempt (attempt m)"
    proof
      assume h: "is_request_header (event_kind e)"
      with live_m strict1 have "m = p1"
        by (cases "event_kind e") (simp_all add: apply_attempt_transition_def apply_attempt_event_def)
      with h header1 show "\<not> has_open_attempt (attempt m)" by simp
    qed
    from transition_carries [OF m this] rm have "reopened env p2 b'" by (rule carries_reopened)
    with cold False m transition_nodes [OF m] attempt_transition_nodes [OF live_m] show ?thesis
      by (auto simp: scan_middle_def apply_transition_ordinary frame)
  qed
  then obtain b' where mid_cold: "scan_middle env (upd b p1) e = Inr (upd b' p2)" and r2: "reopened env p2 b'"
    and nodes: "surface_nodes p2 = surface_nodes p1" and same: "compaction p2 = compaction p1" by blast
  from nodes before have "nodes_before (event_seq e) p2" by (simp add: nodes_before_def p1)
  from apply_surface_committed [OF q3 this row commit [unfolded q]] obtain p3
    where p3: "apply_surface env p2 e (BindDurable row) = Inr p3" and p': "p' = p3\<lparr>compaction := c\<rparr>" by blast
  have "replacement_generation (compaction p2) = replacement_generation (compaction p)" by (simp add: same p1)
  from row_reopened [OF chunk valid cold_c goal mid_cold r2 p3 this] p' show ?thesis by blast
qed

lemma apply_surface_now:
  assumes "apply_surface env p (e\<lparr>event_time := t\<rparr>) BindPendingDurable = Inr q"
    and "\<not> is_tool_result (event_kind e)"
  shows "apply_surface env p e (BindDurable row) = Inr (set_committed_event_time e q)"
  using apply_surface_clock [of env p e BindPendingDurable t] assms(1)
    apply_surface_unbound [OF assms(2), of env p "BindDurable row" BindPendingDurable] by simp

lemma set_time_compaction:
  "set_committed_event_time e (q\<lparr>compaction := c\<rparr>) = (set_committed_event_time e q)\<lparr>compaction := c\<rparr>"
  by (simp add: set_committed_event_time_def observe_message_time_def Let_def)

text \<open>The part that closures and the owned prunes share: no Goal, no chunk, no retry that starts.\<close>

definition plain_kind :: "EventKind \<Rightarrow> bool" where
  "plain_kind k \<longleftrightarrow> \<not> is_chunk k \<and> \<not> is_retry_started k \<and> not_recovery k \<and> \<not> is_request_header k
     \<and> (case k of GoalChangeEvent _ \<Rightarrow> False | UserMessage _ \<Rightarrow> False | _ \<Rightarrow> True)"

lemma plain_goal: "plain_kind (event_kind e) \<Longrightarrow> apply_goal_transition p e = Inr p"
  by (cases "event_kind e") (simp_all add: apply_goal_transition_def plain_kind_def)

lemma owned_row_reopened:
  assumes strict: "policy p = DurableStrict" and plain: "plain_kind (event_kind e)"
    and replacement: "is_tool_result (event_kind e) \<longrightarrow> is_replace (event_surface_op e)"
    and valid: "event_validate env (event_kind e) = Inr ()"
    and admission: "owned a" and c: "next_compaction_state env p e a = Inr c"
    and cold: "apply_attempt_transition env (upd b p) e ColdScan None = Inr (upd b' p1)"
    and r: "reopened env p1 b'"
    and same: "surface_nodes p1 = surface_nodes p" "compaction p1 = compaction p"
    and turn: "apply_transition p1 e a = Inr p2"
    and surface: "apply_surface env p2 e (BindDurable row) = Inr p3"
  shows "\<exists>b'. apply_scanned_row env (upd b p) e row = Inr (upd b' (p3\<lparr>compaction := c\<rparr>))
    \<and> reopened env (p3\<lparr>compaction := c\<rparr>) b'"
proof -
  from plain have kinds: "\<not> is_chunk (event_kind e)" "\<not> is_retry_started (event_kind e)"
    "not_recovery (event_kind e)" "\<not> is_request_header (event_kind e)" by (simp_all add: plain_kind_def)
  have cold_c: "next_compaction_state env p e ColdScan = Inr c"
    by (rule next_compaction_owned [OF c admission kinds(3) strict])
  have "apply_transition p1 e ColdScan = Inr p2" by (rule apply_transition_owned [OF turn kinds(3) replacement])
  with cold kinds(2) have mid: "scan_middle env (upd b p) e = Inr (upd b' p2)"
    by (simp add: scan_middle_def frame)
  from transition_carries [OF turn] kinds(4) r have "reopened env p2 b'" by (auto intro: carries_reopened)
  from row_reopened [OF kinds(1) valid cold_c plain_goal [OF plain] mid this surface]
    transition_nodes(2) [OF turn] same(2) show ?thesis by auto
qed

text \<open>Closures.\<close>

lemma closure_row_reopened:
  assumes strict: "policy p = DurableStrict" and r: "reopened env p b" and tells: "sources_tell env e b"
    and live: "prepare_durable_attempt_closure env p (e\<lparr>event_time := t\<rparr>) d = Inr prepared"
    and commit: "durable_commit (prepared_event_time e prepared) p row = Some p'"
  shows "\<exists>b'. apply_scanned_row env (upd b p) e row = Inr (upd b' p') \<and> reopened env p' b'"
proof -
  from live obtain c p1 p2 q3 where valid: "event_validate env (event_kind e) = Inr ()"
    and c: "next_compaction_state env p e OwnedAttempt = Inr c"
    and live_a: "apply_attempt_transition env p e OwnedAttempt (Some d) = Inr p1"
    and turn: "apply_transition p1 e OwnedAttempt = Inr p2"
    and q3: "apply_surface env p2 (e\<lparr>event_time := t\<rparr>) BindPendingDurable = Inr q3"
    and prepared: "prepared = PreparedReplace (q3\<lparr>compaction := c\<rparr>) None"
    by (auto simp: prepare_durable_attempt_closure_def clock and_then_Inr map_err_Inr)
  from live_a strict have "legal_closure (Some d) (event_kind e)"
    by (auto simp: apply_attempt_transition_def split: if_splits)
  then have plain: "plain_kind (event_kind e)" and kind: "\<not> is_tool_result (event_kind e)"
    by (cases rule: legal_closure_cases; auto simp: plain_kind_def not_recovery_def)+
  from attempt_closure_reopened [OF r strict live_a tells] obtain b'
    where cold: "apply_attempt_transition env (upd b p) e ColdScan None = Inr (upd b' p1)" and r1: "reopened env p1 b'"
    by blast
  note surface = apply_surface_now [OF q3 kind, of row]
  from commit prepared have "p' = (set_committed_event_time e q3)\<lparr>compaction := c\<rparr>"
    by (simp add: durable_commit_def prepared_event_time_def commit_replace_def set_time_compaction)
  with owned_row_reopened [OF strict plain _ valid _ c cold r1 _ _ turn surface] kind
    attempt_transition_nodes [OF live_a] show ?thesis by (simp add: owned_def)
qed

text \<open>A prune that answers a context overflow.\<close>

lemma overflow_prune_row_reopened:
  assumes strict: "policy p = DurableStrict" and r: "reopened env p b" and kind: "is_prune (event_kind e)"
    and live: "prepare_owned_overflow_prune_event env p (e\<lparr>event_time := t\<rparr>) = Inr prepared"
    and commit: "durable_commit (prepared_event_time e prepared) p row = Some p'"
  shows "\<exists>b'. apply_scanned_row env (upd b p) e row = Inr (upd b' p') \<and> reopened env p' b'"
proof -
  have overflow: "apply_context_overflow_transition p (e\<lparr>event_time := t\<rparr>) = apply_context_overflow_transition p e"
    by (simp add: apply_context_overflow_transition_def cong: Boundary.case_cong)
  from live obtain c p1 p2 q3 where valid: "event_validate env (event_kind e) = Inr ()"
    and c: "next_compaction_state env p e OwnedOverflowPrune = Inr c"
    and live_a: "apply_context_overflow_transition p e = Inr p1"
    and turn: "apply_transition p1 e OwnedOverflowPrune = Inr p2"
    and q3: "apply_surface env p2 (e\<lparr>event_time := t\<rparr>) BindPendingDurable = Inr q3"
    and prepared: "prepared = PreparedReplace (q3\<lparr>compaction := c\<rparr>) None"
    by (auto simp: prepare_owned_overflow_prune_event_def clock overflow and_then_Inr map_err_Inr)
  from kind have plain: "plain_kind (event_kind e)" and kind2: "\<not> is_tool_result (event_kind e)"
    by (cases "event_kind e"; simp add: plain_kind_def not_recovery_def)+
  from attempt_prune_reopened [OF r live_a kind strict] obtain b'
    where cold: "apply_attempt_transition env (upd b p) e ColdScan None = Inr (upd b' p1)" and r1: "reopened env p1 b'"
      and p1: "p1 = upd (attempt p1) p"
    by blast
  from p1 have same: "surface_nodes p1 = surface_nodes p" "compaction p1 = compaction p"
    by (metis upd_nodes(1), metis upd_simps(5))
  note surface = apply_surface_now [OF q3 kind2, of row]
  from commit prepared have "p' = (set_committed_event_time e q3)\<lparr>compaction := c\<rparr>"
    by (simp add: durable_commit_def prepared_event_time_def commit_replace_def set_time_compaction)
  with owned_row_reopened [OF strict plain _ valid _ c cold r1 same turn surface] kind2
  show ?thesis by (simp add: owned_def)
qed

text \<open>A prune without a provider attempt: the marker, and the replacement of the tool result.\<close>

lemma owned_prune_row_reopened:
  assumes strict: "policy p = DurableStrict" and r: "reopened env p b"
    and kind: "is_prune (event_kind e) \<and> \<not> has_open_attempt (attempt p)
      \<or> is_tool_result (event_kind e) \<and> \<not> is_recovery_result (event_kind e) \<and> is_replace (event_surface_op e)"
    and live: "live_owned_prune_event env p (e\<lparr>event_time := t\<rparr>) = Inr prepared"
    and before: "nodes_before (event_seq e) p" and row: "row_seq row = event_seq e"
    and commit: "durable_commit (prepared_event_time e prepared) p row = Some p'"
  shows "\<exists>b'. apply_scanned_row env (upd b p) e row = Inr (upd b' p') \<and> reopened env p' b'"
proof -
  from live obtain c p2 q3 where valid: "event_validate env (event_kind e) = Inr ()"
    and c: "next_compaction_state env p e OwnedPrune = Inr c"
    and turn: "apply_transition p e OwnedPrune = Inr p2"
    and q3: "apply_surface env p2 (e\<lparr>event_time := t\<rparr>) BindPendingDurable = Inr q3"
    and prepared: "prepared = PreparedReplace (q3\<lparr>compaction := c\<rparr>) (pending_tool_result e)"
    by (auto simp: live_owned_prune_event_def prepare_owned_prune_event_def apply_event_def clock and_then_Inr map_err_Inr)
  from kind have plain: "plain_kind (event_kind e)"
    and replacement: "is_tool_result (event_kind e) \<longrightarrow> is_replace (event_surface_op e)"
    and quiet: "\<not> is_overflow_start (event_kind e)" "\<not> is_attempt_event (event_kind e)"
    by (cases "event_kind e"; auto simp: plain_kind_def not_recovery_def)+
  have cold: "apply_attempt_transition env (upd b p) e ColdScan None = Inr (upd b p)"
  proof -
    have "is_prune (event_kind e) \<longrightarrow> \<not> has_open_attempt b" using kind reopened_open [OF r]
      by (cases "event_kind e") auto
    then show ?thesis using strict kind
      by (cases "event_kind e") (auto simp: apply_attempt_transition_def apply_attempt_event_def)
  qed
  from nodes_before_same [OF transition_nodes(1) [OF turn] before]
  have "nodes_before (event_seq e) p2" .
  from apply_surface_committed [OF q3 this row] commit obtain p3
    where surface: "apply_surface env p2 e (BindDurable row) = Inr p3" and p': "p' = p3\<lparr>compaction := c\<rparr>"
    by (auto simp: prepared durable_commit_def prepared_event_time_def)
  from owned_row_reopened [OF strict plain replacement valid _ c cold r refl refl turn surface] p'
  show ?thesis by (simp add: owned_def)
qed

text \<open>Chunks.\<close>

lemma chunk_row_reopened:
  assumes r: "reopened env p b" and strict: "policy p = DurableStrict"
    and live: "prepare_durable_attempt_chunk env p (e\<lparr>event_time := t\<rparr>) = Inr prepared"
    and commit: "durable_commit (prepared_event_time e prepared) p row = Some p'"
  shows "\<exists>b'. apply_scanned_row env (upd b p) e row = Inr (upd b' p') \<and> reopened env p' b'"
proof -
  from live obtain turn step chunk c x where e: "event_kind e = AssistantChunk turn step chunk"
    and valid: "event_validate env (event_kind e) = Inr ()"
    and step: "require_open_step p ''assistant/chunk'' turn step = Inr ()"
    and plain: "event_surface_op e = None" "event_sources e = None"
    and c: "next_compaction_state env p e OwnedAttempt = Inr c"
    and x: "prepare_attempt_chunk env (attempt p) e (request_header p) (replacement_generation (compaction p)) = Inr x"
    and prepared: "prepared = PreparedChunk x c"
    by (auto simp: prepare_durable_attempt_chunk_def clock and_then_Inr map_err_Inr event_type_static_def
        split: EventKind.splits if_splits)
  from commit obtain a where a: "commit_chunk (attempt p) x = Some a" and p': "p' = p\<lparr>attempt := a, compaction := c\<rparr>"
    by (auto simp: prepared durable_commit_def prepared_event_time_def commit_prepared_chunk_def)
  from chunk_reopened [OF r x a] obtain x' b' where
    cold: "prepare_attempt_chunk env b e (request_header p) (replacement_generation (compaction p)) = Inr x'"
      "commit_chunk b x' = Some b'" and m: "matching a b'" by blast
  from e have "not_recovery (event_kind e)" by (simp add: not_recovery_def)
  with c strict have cold_c: "next_compaction_state env p e ColdScan = Inr c"
    by (auto intro: next_compaction_owned simp: owned_def)
  have surface: "apply_surface env q e (BindDurable row) = Inr q" for q :: LiveProjection
    using e plain by (simp add: apply_surface_def)
  have "apply_scanned_row env (upd b p) e row = Inr ((upd b p)\<lparr>attempt := b', compaction := c\<rparr>)"
    using e valid step cold cold_c
    by (simp add: apply_scanned_row_def scan_chunk_row_def frame surface commit_prepared_chunk_def event_type_static_def)
  moreover have "reopened env p' b'" by (rule matching_reopened) (simp add: p' m)
  ultimately show ?thesis by (auto simp: p' intro!: exI [of _ b'])
qed

end
