(* ===== verification/Live_Journal.thy ===== *)
theory Live_Journal
  imports Live_Reopen
begin

text \<open>
  The runs of a live durable session and the journals they write. Whatever order the owner of a
  session appends, dispatches, seals, closes, prunes and retires in, and whatever is refused on the
  way, the scan of the rows accepts every row and arrives at the live projection, up to what a crash
  loses of the attempt (\<open>reopened\<close>).
\<close>

section \<open>The scan of a journal\<close>

fun scan_rows :: "session_env \<Rightarrow> LiveProjection \<Rightarrow> JournalRow list \<Rightarrow> EventValidationError + LiveProjection" where
  "scan_rows env p [] = Ok p"
| "scan_rows env p (r # rs) = and_then (apply_scanned_row env p (fst r) (snd r)) (\<lambda>p. scan_rows env p rs)"

lemma scan_rows_append: "scan_rows env p (rs @ ts) = and_then (scan_rows env p rs) (\<lambda>p. scan_rows env p ts)"
  by (induction rs arbitrary: p) (simp_all add: and_then_assoc)

text \<open>What one scanned row does to nodes, policy and the rows an attempt cites.\<close>

lemma apply_surface_nodes:
  assumes "apply_surface env p e binding = Inr q" and "n \<in> set (surface_nodes q)"
  shows "n \<in> set (surface_nodes p) \<or> node_seq n = event_seq e"
  using assms(1)
proof (cases rule: apply_surface_cases)
  case (2 node q0 reading)
  with assms(2) show ?thesis by (auto simp: apply_append_Inr dest: bound_node_seq)
next
  case (3 a b q0 reading)
  from 3(4) show ?thesis
    by (cases rule: apply_replace_cases)
      (use assms(2) 3 in \<open>auto dest: bound_node_seq in_set_takeD in_set_dropD\<close>)
qed (use assms(2) in simp)

lemma goal_nodes: "apply_goal_transition p e = Inr q \<Longrightarrow> surface_nodes q = surface_nodes p \<and> policy q = policy p"
  using apply_goal_transition_only [of p e q] by auto

definition reads_chunks :: "SessionEvent \<Rightarrow> AttemptProjection \<Rightarrow> AttemptProjection \<Rightarrow> bool" where
  "reads_chunks e a a' \<longleftrightarrow> (if is_chunk (event_kind e)
     then cited_rows (attempt_state a') = cited_rows (attempt_state a) @ [event_seq e]
     else cited_rows (attempt_state a') \<in> {[], cited_rows (attempt_state a)})"

lemma scan_middle_facts:
  assumes "scan_middle env p e = Inr q"
  shows "surface_nodes q = surface_nodes p" and "policy q = policy p"
    and "cited_rows (attempt_state (attempt q)) \<in> {[], cited_rows (attempt_state (attempt p))}"
proof -
  have cited: "cited_rows (attempt_state (attempt r)) \<in> {[], cited_rows (attempt_state (attempt p))}"
    if "apply_attempt_transition env p e ColdScan None = Inr r" for p r
  proof -
    have set: "set_attempt p x = Inr r \<Longrightarrow> (\<And>a. x = Inr a \<Longrightarrow> cited_rows (attempt_state a) = []) \<Longrightarrow>
        cited_rows (attempt_state (attempt r)) = []" for x
      by (auto simp: set_attempt_Inr)
    have overflow: "context_overflow a t s g st = Inr a' \<Longrightarrow> cited_rows (attempt_state a') = []"
      "context_overflow_start a t s = Inr a' \<Longrightarrow> cited_rows (attempt_state a') = []"
      "attempt_step_start a t s = Inr a' \<Longrightarrow> cited_rows (attempt_state a') = []"
      "attempt_step_end a t s d = Inr a' \<Longrightarrow> cited_rows (attempt_state a') = []"
      "attempt_retry env a e = Inr a' \<Longrightarrow> cited_rows (attempt_state a') = []"
      "attempt_retry_started a t s = Inr a' \<Longrightarrow> cited_rows (attempt_state a') = []"
      "attempt_assistant env a e = Inr (a', f) \<Longrightarrow> cited_rows (attempt_state a') = []"
      for a a' t s g st d f
      by (auto simp: context_overflow_def context_overflow_start_def attempt_step_start_def attempt_step_end_def
          attempt_retry_def attempt_retry_started_def attempt_assistant_def attempt_boundary_def reset_overflow_def
          cited_rows_def result_simps split: if_splits option.splits prod.splits EventKind.splits)
    have "apply_context_overflow_transition p e = Inr r \<Longrightarrow> cited_rows (attempt_state (attempt r)) = []"
      by (auto simp: apply_context_overflow_transition_def set_attempt_Inr attempt_boundary_def
          dest: overflow split: Boundary.splits)
    moreover have "apply_attempt_event env p e ColdScan None = Inr r \<Longrightarrow>
        cited_rows (attempt_state (attempt r)) \<in> {[], cited_rows (attempt_state (attempt p))}"
      by (cases "event_kind e")
        (auto simp: apply_attempt_event_def commit_assistant_def set_attempt_Inr and_then_Inr map_err_Inr attempt_boundary_def
          dest: overflow split: if_splits prod.splits)
    ultimately show ?thesis using that
      by (auto simp: apply_attempt_transition_def set_attempt_Inr attempt_boundary_def dest: overflow
          split: if_splits Boundary.splits)
  qed
  show "surface_nodes q = surface_nodes p" "policy q = policy p"
    using assms attempt_transition_nodes transition_nodes
    by (fastforce simp: scan_middle_def and_then_Inr map_err_Inr split: if_splits)+
  show "cited_rows (attempt_state (attempt q)) \<in> {[], cited_rows (attempt_state (attempt p))}"
    using assms by (auto simp: scan_middle_def and_then_Inr map_err_Inr split: if_splits
        dest!: cited attempt_kept(2))
qed

lemma prepared_chunk_cited:
  assumes "prepare_attempt_chunk env a e header generation = Inr prepared" and "commit_chunk a prepared = Some a'"
  shows "cited_rows (attempt_state a') = cited_rows (attempt_state a) @ [event_seq e]"
  using assms
proof (cases rule: accepted_chunk_cases)
  case (first turn step chunk n route k s u)
  with commit_open_state [OF first(7)] prepare_existing_chunk_generation [OF first(6)] show ?thesis
    by (auto simp: cited_rows_def chunk_outcome_def open_attempt_def)
next
  case (later o' chunk k s u)
  with commit_open_state [OF later(4)] prepare_existing_chunk_generation [OF later(3)] show ?thesis
    by (auto simp: cited_rows_def chunk_outcome_def)
qed

lemma scanned_row_facts:
  assumes "apply_scanned_row env p e row = Inr q"
  shows "policy q = policy p" and "reads_chunks e (attempt p) (attempt q)"
    and "n \<in> set (surface_nodes q) \<Longrightarrow> n \<in> set (surface_nodes p) \<or> node_seq n = event_seq e"
proof -
  have "policy q = policy p \<and> reads_chunks e (attempt p) (attempt q)
    \<and> (n \<in> set (surface_nodes q) \<longrightarrow> n \<in> set (surface_nodes p) \<or> node_seq n = event_seq e)"
  proof (cases "is_chunk (event_kind e)")
    case True
    with assms obtain turn step c p1 prepared a where
      surface: "apply_surface env p e (BindDurable row) = Inr p1"
      and prepared: "prepare_attempt_chunk env (attempt p1) e (request_header p1)
        (replacement_generation (compaction p1)) = Inr prepared"
      and a: "commit_chunk (attempt p1) prepared = Some a" and q: "q = p1\<lparr>attempt := a, compaction := c\<rparr>"
      by (cases "event_kind e")
        (auto simp: apply_scanned_row_def scan_chunk_row_def commit_prepared_chunk_def result_simps)
    from prepared_chunk_cited [OF prepared a] True attempt_kept(3) [OF surface] apply_surface_same(1) [OF surface]
      apply_surface_nodes [OF surface, of n] show ?thesis
      by (auto simp: q reads_chunks_def same_turns_def)
  next
    case False
    with assms obtain c p1 p2 p3 where goal: "apply_goal_transition p e = Inr p1"
      and mid: "scan_middle env p1 e = Inr p2" and surface: "apply_surface env p2 e (BindDurable row) = Inr p3"
      and q: "q = p3\<lparr>compaction := c\<rparr>"
      by (auto simp: scanned_row_other result_simps)
    from goal_nodes [OF goal] attempt_kept(1) [OF goal] scan_middle_facts [OF mid] attempt_kept(3) [OF surface]
      apply_surface_same(1) [OF surface] apply_surface_nodes [OF surface, of n] False show ?thesis
      by (auto simp: q reads_chunks_def same_turns_def)
  qed
  then show "policy q = policy p" "reads_chunks e (attempt p) (attempt q)"
    "n \<in> set (surface_nodes q) \<Longrightarrow> n \<in> set (surface_nodes p) \<or> node_seq n = event_seq e" by auto
qed

section \<open>Runs of a live session\<close>

text \<open>The numbers of the chunks in a piece of a journal.\<close>

definition chunk_numbers :: "JournalRow list \<Rightarrow> EventSeq list" where
  "chunk_numbers h = map (\<lambda>r. event_seq (fst r)) (filter (\<lambda>r. is_chunk (event_kind (fst r))) h)"

text \<open>The digest by which a message cites the chunks of its attempt tells them from every other run of
  chunks in the journal.\<close>

definition citations_tell :: "session_env \<Rightarrow> JournalRow list \<Rightarrow> bool" where
  "citations_tell env h \<longleftrightarrow> (\<forall>i < length h. \<forall>m < Suc i.
     digest_tells env (event_source_list (fst (h ! i))) (chunk_numbers (drop m (take i h))))"

definition attempt_is_open :: "LiveSession \<Rightarrow> bool" where
  "attempt_is_open s \<longleftrightarrow> (case active_attempt s of None \<Rightarrow> False | Some a \<Rightarrow> owner_phase a = PhaseOpen)"

text \<open>The calls that the owner of a session makes, with the rows they write. The agent keeps two rules of
  its own: the request header of a step is logged before its attempt is dispatched
  (\<open>agent/mod.rs\<close>), and what replaces a pruned result is a tool result that recovery did not
  write (\<open>append_prune_pair_with_attempt\<close> decodes it from the pruned row).\<close>

inductive live_run :: "session_env \<Rightarrow> SessionId \<Rightarrow> LiveSession \<Rightarrow> JournalRow list \<Rightarrow> bool"
  for env :: session_env and sid :: SessionId where
  new_session: "live_run env sid (new_durable_session sid) []"
| ordinary: "live_run env sid s h \<Longrightarrow> append_ordinary env s protected new data time row = Ok (s', r) \<Longrightarrow>
    is_request_header (new_kind new) \<longrightarrow> \<not> attempt_is_open s \<Longrightarrow> live_run env sid s' (h @ [r])"
| dispatch: "live_run env sid s h \<Longrightarrow> begin_attempt s turn step = Ok (tok, s') \<Longrightarrow> live_run env sid s' h"
| chunk: "live_run env sid s h \<Longrightarrow> append_attempt_chunk env s tok protected c data time row = Ok (s', r) \<Longrightarrow>
    live_run env sid s' (h @ [r])"
| seal: "live_run env sid s h \<Longrightarrow> seal_attempt env s tok = Ok (prepared, s') \<Longrightarrow> live_run env sid s' h"
| closure: "live_run env sid s h \<Longrightarrow>
    append_attempt_closure env s tok disposition protected new data time row = Ok (s', r) \<Longrightarrow>
    live_run env sid s' (h @ [r])"
| barrier: "live_run env sid s h \<Longrightarrow> cross_barrier s = Some s' \<Longrightarrow> live_run env sid s' h"
| retire: "live_run env sid s h \<Longrightarrow> retire_attempt s tok = Ok s' \<Longrightarrow> live_run env sid s' h"
| prune_marker: "live_run env sid s h \<Longrightarrow>
    append_prune_marker env s overflow protected target tokens data time row = Ok (s', r) \<Longrightarrow>
    live_run env sid s' (h @ [r])"
| prune_replacement: "live_run env sid s h \<Longrightarrow>
    append_prune_replacement env s protected target k data time row = Ok (s', r) \<Longrightarrow>
    is_tool_result k \<Longrightarrow> \<not> is_recovery_result k \<Longrightarrow> live_run env sid s' (h @ [r])"

section \<open>One append\<close>

text \<open>What a successful append did.\<close>

definition appended :: "session_env \<Rightarrow> LiveSession \<Rightarrow> DurableOperationOwner \<Rightarrow> NewEvent \<Rightarrow> LiveSession
    \<Rightarrow> SessionEvent \<Rightarrow> JournalRowLocator \<Rightarrow> bool" where
  "appended env s owner new s' e row \<longleftrightarrow> live_next_seq s = Some (event_seq e) \<and> row_seq row = event_seq e
     \<and> event_kind e = new_kind new \<and> event_surface_op e = map_option intent_operation (new_surface new)
     \<and> live_next_seq s' = safe_successor (event_seq e) \<and> \<not> is_unknown (event_kind e)
     \<and> (\<forall>nonce. operation_nonce owner = Some nonce \<longrightarrow> validate_attempt_operation_owner s nonce = Ok ())
     \<and> active_attempt s' = (case closing_disposition owner of None \<Rightarrow> active_attempt s
         | Some d \<Rightarrow> map_option (\<lambda>a. a\<lparr>owner_phase := PhaseClosed (event_seq e) (barrier_epoch s) d\<rparr>) (active_attempt s))
     \<and> (\<exists>prepared. prepare_for_owner env owner (live s) (e\<lparr>event_time := placeholder_time\<rparr>) = Ok prepared
         \<and> durable_commit (prepared_event_time e prepared) (live s) row = Some (live s'))"

lemma try_commit_appended:
  assumes "try_commit_durable env s owner protected new data time row = Ok (s', (e, r))"
  shows "appended env s owner new s' e r"
proof -
  let ?e = "\<lambda>seq t. event_from_new seq t new data"
  have time: "(?e seq t)\<lparr>event_time := t'\<rparr> = ?e seq t'" for seq t t' by (simp add: event_from_new_def)
  from assms obtain seq logical prepared p where nonce: "(case operation_nonce owner of
        None \<Rightarrow> Ok () | Some nonce \<Rightarrow> validate_attempt_operation_owner s nonce) = Ok ()"
    and seq: "live_next_seq s = Some seq" and known: "\<not> is_unknown (new_kind new)"
    and prepared: "prepare_for_owner env owner (live s) (?e seq placeholder_time) = Ok prepared"
    and commit: "durable_commit (prepared_event_time (?e seq time) prepared) (live s) (row\<lparr>row_seq := seq\<rparr>) = Some p"
    and out: "s' = (close_active_attempt (s\<lparr>live := p\<rparr>) owner seq)\<lparr>live_next_seq := safe_successor seq,
        logical_event_count := logical\<rparr>" "e = ?e seq time" "r = row\<lparr>row_seq := seq\<rparr>"
    by (auto simp: try_commit_durable_def Let_def result_simps time split: if_splits)
      (simp add: event_from_new_def)
  have "live (close_active_attempt (s\<lparr>live := p\<rparr>) owner seq) = p"
    by (simp add: close_active_attempt_def split: option.split)
  moreover have "active_attempt (close_active_attempt (s\<lparr>live := p\<rparr>) owner seq)
    = (case closing_disposition owner of None \<Rightarrow> active_attempt s
       | Some d \<Rightarrow> map_option (\<lambda>a. a\<lparr>owner_phase := PhaseClosed seq (barrier_epoch s) d\<rparr>) (active_attempt s))"
    by (simp add: close_active_attempt_def split: option.split)
  ultimately show ?thesis
    using nonce seq known prepared commit
    by (auto simp: appended_def out event_from_new_def cong: option.case_cong)
qed

lemma owner_is_open:
  "validate_attempt_operation_owner s nonce = Ok () \<Longrightarrow> attempt_is_open s"
  "validate_open_attempt_token s tok = Ok () \<Longrightarrow> attempt_is_open s"
  by (auto simp: validate_attempt_operation_owner_def validate_open_attempt_token_def invalid_attempt_def
      attempt_is_open_def split: option.splits if_splits)

section \<open>The invariant\<close>

text \<open>The next row is numbered after all rows and nodes, and an attempt in flight has its owner.\<close>

definition session_ok :: "LiveSession \<Rightarrow> JournalRow list \<Rightarrow> bool" where
  "session_ok s h \<longleftrightarrow> policy (live s) = DurableStrict
     \<and> (\<forall>n. live_next_seq s = Some n \<longrightarrow> unat n = length h \<and> nodes_before n (live s))
     \<and> (\<forall>i < length h. unat (event_seq (fst (h ! i))) = i \<and> row_seq (snd (h ! i)) = event_seq (fst (h ! i)))
     \<and> (has_open_attempt (attempt (live s)) \<longrightarrow> attempt_is_open s)"

definition journal_ok :: "session_env \<Rightarrow> SessionId \<Rightarrow> LiveSession \<Rightarrow> JournalRow list \<Rightarrow> bool" where
  "journal_ok env sid s h \<longleftrightarrow> session_ok s h
     \<and> (\<exists>b. scan_rows env (live_for_session DurableStrict sid) h = Ok (upd b (live s)) \<and> reopened env (live s) b
         \<and> (\<exists>m \<le> length h. cited_rows (attempt_state b) = chunk_numbers (drop m h)))"

lemma chunk_numbers_snoc:
  "m \<le> length h \<Longrightarrow> chunk_numbers (drop m (h @ [r]))
    = chunk_numbers (drop m h) @ (if is_chunk (event_kind (fst r)) then [event_seq (fst r)] else [])"
  by (simp add: chunk_numbers_def)

lemma citations_tell_snoc:
  assumes "citations_tell env (h @ [(e, row)])"
  shows "citations_tell env h"
    and "m \<le> length h \<Longrightarrow> digest_tells env (event_source_list e) (chunk_numbers (drop m h))"
proof -
  show "citations_tell env h" unfolding citations_tell_def
  proof (intro allI impI)
    fix i m assume "i < length h" "m < Suc i"
    with assms have "digest_tells env (event_source_list (fst ((h @ [(e, row)]) ! i)))
      (chunk_numbers (drop m (take i (h @ [(e, row)]))))" by (simp add: citations_tell_def)
    with \<open>i < length h\<close> show "digest_tells env (event_source_list (fst (h ! i))) (chunk_numbers (drop m (take i h)))"
      by (simp add: nth_append)
  qed
  show "digest_tells env (event_source_list e) (chunk_numbers (drop m h))" if "m \<le> length h"
    using assms that spec [of _ "length h"] unfolding citations_tell_def by (force simp: nth_append)
qed

text \<open>A row that the scan accepts keeps the invariant.\<close>

lemma journal_row:
  assumes ok: "journal_ok env sid s h" and app: "appended env s owner new s' e row"
    and row: "\<And>b m. reopened env (live s) b \<Longrightarrow> m \<le> length h \<Longrightarrow>
      cited_rows (attempt_state b) = chunk_numbers (drop m h) \<Longrightarrow>
      \<exists>b'. apply_scanned_row env (upd b (live s)) e row = Ok (upd b' (live s')) \<and> reopened env (live s') b'"
    and owner: "has_open_attempt (attempt (live s')) \<Longrightarrow> attempt_is_open s'"
  shows "journal_ok env sid s' (h @ [(e, row)])"
proof -
  from ok obtain b m where sok: "session_ok s h"
    and scan: "scan_rows env (live_for_session DurableStrict sid) h = Ok (upd b (live s))"
    and r: "reopened env (live s) b" and m: "m \<le> length h" "cited_rows (attempt_state b) = chunk_numbers (drop m h)"
    by (auto simp: journal_ok_def)
  from row [OF r m] obtain b' where cold: "apply_scanned_row env (upd b (live s)) e row = Ok (upd b' (live s'))"
    and r': "reopened env (live s') b'" by blast
  note facts = scanned_row_facts [OF cold]
  from sok app have seq: "unat (event_seq e) = length h" and before: "nodes_before (event_seq e) (live s)"
    and row_seq: "row_seq row = event_seq e" and nxt: "live_next_seq s' = safe_successor (event_seq e)"
    by (auto simp: session_ok_def appended_def)
  have nodes: "nodes_before n (live s')" if "safe_successor (event_seq e) = Some n" for n
    using before facts(3) safe_successor_less [OF that] by (force simp: nodes_before_def dest: less_trans)
  have "session_ok s' (h @ [(e, row)])"
    unfolding session_ok_def
  proof (intro conjI)
    show "policy (live s') = DurableStrict" using facts(1) sok by (simp add: session_ok_def)
    show "\<forall>n. live_next_seq s' = Some n \<longrightarrow> unat n = length (h @ [(e, row)]) \<and> nodes_before n (live s')"
      using nxt seq nodes by (auto dest: safe_successor_Some)
    show "\<forall>i < length (h @ [(e, row)]). unat (event_seq (fst ((h @ [(e, row)]) ! i))) = i
      \<and> row_seq (snd ((h @ [(e, row)]) ! i)) = event_seq (fst ((h @ [(e, row)]) ! i))"
      using sok seq row_seq by (auto simp: session_ok_def nth_append less_Suc_eq)
  qed (use owner in blast)
  moreover have "\<exists>m' \<le> length (h @ [(e, row)]). cited_rows (attempt_state b') = chunk_numbers (drop m' (h @ [(e, row)]))"
  proof (cases "cited_rows (attempt_state b') = []")
    case True
    then show ?thesis by (intro exI [of _ "length (h @ [(e, row)])"]) (simp add: chunk_numbers_def)
  next
    case False
    with facts(2) m show ?thesis
      by (intro exI [of _ m]) (auto simp: reads_chunks_def chunk_numbers_snoc simp del: drop_append split: if_splits)
  qed
  ultimately show ?thesis using scan cold r' by (auto simp: journal_ok_def scan_rows_append)
qed

section \<open>Each call\<close>

lemma closed_outcomes:
  "context_overflow a t s g st = Inr a' \<Longrightarrow> \<not> has_open_attempt a'"
  "attempt_step_start a t s = Inr a' \<Longrightarrow> \<not> has_open_attempt a'"
  "attempt_step_end a t s d = Inr a' \<Longrightarrow> \<not> has_open_attempt a'"
  "attempt_retry env a e = Inr a' \<Longrightarrow> \<not> has_open_attempt a'"
  "attempt_retry_started a t s = Inr a' \<Longrightarrow> \<not> has_open_attempt a'"
  "attempt_assistant env a e = Inr (a', f) \<Longrightarrow> \<not> has_open_attempt a'"
  by (auto simp: context_overflow_def attempt_step_start_def attempt_step_end_def
      attempt_retry_def attempt_retry_started_def attempt_assistant_def attempt_boundary_def reset_overflow_def
      has_open_attempt_def result_simps split: if_splits option.splits prod.splits EventKind.splits)

lemma overflow_transition_closed:
  "apply_context_overflow_transition p e = Inr q \<Longrightarrow> \<not> has_open_attempt (attempt q)"
  by (auto simp: apply_context_overflow_transition_def set_attempt_Inr attempt_boundary_def
      dest: closed_outcomes split: Boundary.splits)

lemma attempt_event_closed:
  assumes "apply_attempt_event env p e a d = Inr q"
  shows "\<not> has_open_attempt (attempt q)
    \<or> q = p \<and> (legal_closure d (event_kind e) \<longrightarrow> d = Some DispositionContextOverflow)"
  using assms
  by (cases "event_kind e")
    (auto simp: apply_attempt_event_def commit_assistant_def set_attempt_Inr and_then_Inr map_err_Inr
      attempt_boundary_def legal_closure_def dest: closed_outcomes split: if_splits prod.splits)

text \<open>For an overflow start the closure takes the other branch.\<close>

lemma closure_closed:
  assumes "apply_attempt_transition env p e OwnedAttempt (Some d) = Inr q" and "policy p = DurableStrict"
  shows "\<not> has_open_attempt (attempt q)"
  using assms attempt_event_closed [of env p e OwnedAttempt "Some d" q]
  by (auto simp: apply_attempt_transition_def dest: overflow_transition_closed split: if_splits)

lemma ordinary_closed:
  assumes "apply_ordinary_event env binding p e = Inr q" and "policy p = DurableStrict"
    and "has_open_attempt (attempt q)"
  shows "has_open_attempt (attempt p)"
proof -
  have attempted: "attempt r = attempt m \<or> \<not> has_open_attempt (attempt r)"
    if "apply_attempt_transition env m e Ordinary None = Inr r" for m r
    using that attempt_event_closed [of env m e Ordinary None r]
    by (auto simp: apply_attempt_transition_def split: if_splits)
  from assms(1) obtain p1 p2 c where goal: "apply_goal_transition p e = Inr p1"
    and mid: "(if is_retry_started (event_kind e)
       then and_then (map_err EvTransition (apply_transition p1 e Ordinary)) (\<lambda>p.
         apply_attempt_transition env p e Ordinary None)
       else and_then (if is_step_boundary (event_kind e)
           then apply_attempt_transition env p1 e Ordinary None else Ok p1) (\<lambda>p.
         map_err EvTransition (apply_transition p e Ordinary))) = Inr p2"
    and surface: "\<exists>q3. apply_surface env p2 e binding = Inr q3 \<and> q = q3\<lparr>compaction := c\<rparr>"
    by (auto simp: apply_ordinary_event_def and_then_Inr map_err_Inr)
  from surface assms(3) have "has_open_attempt (attempt p2)" by (auto dest: attempt_kept(3))
  with mid have "has_open_attempt (attempt p1)"
    by (auto simp: and_then_Inr map_err_Inr dest!: attempted attempt_kept(2) split: if_splits)
  with attempt_kept(1) [OF goal] show ?thesis by simp
qed

lemma commit_replace_attempt:
  "commit_replace (p, pending) row = Some (q :: LiveProjection) \<Longrightarrow> attempt q = attempt p"
  by (auto simp: commit_replace_def bind_tool_result_row_def split: option.splits if_splits)

lemma set_time_attempt [simp]: "attempt (set_committed_event_time e p) = attempt p"
  by (simp add: set_committed_event_time_def observe_message_time_def Let_def)

lemma session:
  assumes "journal_ok env sid s h" shows "session_ok s h" and "policy (live s) = DurableStrict"
  using assms by (simp_all add: journal_ok_def session_ok_def)

lemma appended_before:
  assumes "journal_ok env sid s h" and "appended env s owner new s' e row"
  shows "nodes_before (event_seq e) (live s)" and "row_seq row = event_seq e"
  using assms(2) session(1) [OF assms(1)] by (auto simp: appended_def session_ok_def)

lemma ordinary_ok:
  assumes ok: "journal_ok env sid s h" and app: "appended env s OwnerOrdinary new s' e row"
    and header: "is_request_header (new_kind new) \<longrightarrow> \<not> attempt_is_open s"
  shows "journal_ok env sid s' (h @ [(e, row)])"
proof (rule journal_row [OF ok app])
  note strict = session(2) [OF ok] and sok = session(1) [OF ok] and before = appended_before [OF ok app]
  from app obtain q where live: "apply_ordinary_event env BindPendingDurable (live s) (e\<lparr>event_time := placeholder_time\<rparr>) = Inr q"
    and commit: "commit_replace (set_committed_event_time e q, pending_tool_result e) row = Some (live s')"
    and active: "active_attempt s' = active_attempt s" and kind: "event_kind e = new_kind new"
    by (auto simp: appended_def prepare_for_owner_def prepare_durable_event_def and_then_Inr clock
        durable_commit_def prepared_event_time_def)
  from header kind sok have header': "is_request_header (event_kind e) \<longrightarrow> \<not> has_open_attempt (attempt (live s))"
    by (auto simp: session_ok_def)
  show "\<exists>b'. apply_scanned_row env (upd b (live s)) e row = Ok (upd b' (live s')) \<and> reopened env (live s') b'"
    if "reopened env (live s) b" for b
    by (rule ordinary_row_reopened [OF strict that header' live before commit])
  show "attempt_is_open s'" if "has_open_attempt (attempt (live s'))"
    using that ordinary_closed [OF live strict] commit_replace_attempt [OF commit] sok active
    by (auto simp: session_ok_def attempt_is_open_def)
qed

lemma chunk_ok:
  assumes ok: "journal_ok env sid s h" and app: "appended env s (OwnerAttempt nonce OperationChunk) new s' e row"
  shows "journal_ok env sid s' (h @ [(e, row)])"
proof (rule journal_row [OF ok app])
  note strict = session(2) [OF ok] and sok = session(1) [OF ok] and before = appended_before [OF ok app]
  from app obtain prepared where live: "prepare_durable_attempt_chunk env (live s) (e\<lparr>event_time := placeholder_time\<rparr>) = Inr prepared"
    and commit: "durable_commit (prepared_event_time e prepared) (live s) row = Some (live s')"
    and active: "active_attempt s' = active_attempt s" and nonce: "validate_attempt_operation_owner s nonce = Ok ()"
    by (auto simp: appended_def prepare_for_owner_def)
  show "\<exists>b'. apply_scanned_row env (upd b (live s)) e row = Ok (upd b' (live s')) \<and> reopened env (live s') b'"
    if "reopened env (live s) b" for b
    by (rule chunk_row_reopened [OF that strict live commit])
  show "attempt_is_open s'" using owner_is_open(1) [OF nonce] active by (simp add: attempt_is_open_def)
qed

lemma closure_ok:
  assumes ok: "journal_ok env sid s h" and app: "appended env s (OwnerAttempt nonce (OperationClosure d)) new s' e row"
    and tells: "\<And>m. m \<le> length h \<Longrightarrow> digest_tells env (event_source_list e) (chunk_numbers (drop m h))"
  shows "journal_ok env sid s' (h @ [(e, row)])"
proof (rule journal_row [OF ok app])
  note strict = session(2) [OF ok] and sok = session(1) [OF ok] and before = appended_before [OF ok app]
  from app obtain prepared where live: "prepare_durable_attempt_closure env (live s) (e\<lparr>event_time := placeholder_time\<rparr>) d = Inr prepared"
    and commit: "durable_commit (prepared_event_time e prepared) (live s) row = Some (live s')"
    by (auto simp: appended_def prepare_for_owner_def)
  show "\<exists>b'. apply_scanned_row env (upd b (live s)) e row = Ok (upd b' (live s')) \<and> reopened env (live s') b'"
    if "reopened env (live s) b" "m \<le> length h" "cited_rows (attempt_state b) = chunk_numbers (drop m h)" for b m
    using tells [OF that(2)] that(3)
    by (intro closure_row_reopened [OF strict that(1) _ live commit]) (simp add: sources_tell_def)
  from live obtain p1 p2 q3 c where "apply_attempt_transition env (live s) e OwnedAttempt (Some d) = Inr p1"
    and "apply_transition p1 e OwnedAttempt = Inr p2"
    and "apply_surface env p2 (e\<lparr>event_time := placeholder_time\<rparr>) BindPendingDurable = Inr q3"
    and "prepared = PreparedReplace (q3\<lparr>compaction := c\<rparr>) None"
    by (auto simp: prepare_durable_attempt_closure_def clock and_then_Inr map_err_Inr)
  with commit closure_closed [of env "live s" e d p1] strict have "\<not> has_open_attempt (attempt (live s'))"
    by (auto simp: durable_commit_def prepared_event_time_def dest!: commit_replace_attempt attempt_kept(2,3))
  then show "attempt_is_open s'" if "has_open_attempt (attempt (live s'))" using that by simp
qed

lemma overflow_prune_ok:
  assumes ok: "journal_ok env sid s h" and app: "appended env s (OwnerOverflowPruneMarker nonce) new s' e row" and kind: "is_prune (new_kind new)"
  shows "journal_ok env sid s' (h @ [(e, row)])"
proof (rule journal_row [OF ok app])
  note strict = session(2) [OF ok] and sok = session(1) [OF ok] and before = appended_before [OF ok app]
  from app obtain prepared where live: "prepare_owned_overflow_prune_event env (live s) (e\<lparr>event_time := placeholder_time\<rparr>) = Inr prepared"
    and commit: "durable_commit (prepared_event_time e prepared) (live s) row = Some (live s')"
    and kind': "event_kind e = new_kind new"
    by (auto simp: appended_def prepare_for_owner_def)
  show "\<exists>b'. apply_scanned_row env (upd b (live s)) e row = Ok (upd b' (live s')) \<and> reopened env (live s') b'"
    if "reopened env (live s) b" for b
    using kind by (intro overflow_prune_row_reopened [OF strict that _ live commit]) (simp add: kind')
  from live obtain p1 p2 q3 c where "apply_context_overflow_transition (live s) (e\<lparr>event_time := placeholder_time\<rparr>) = Inr p1"
    and "apply_transition p1 e OwnedOverflowPrune = Inr p2"
    and "apply_surface env p2 (e\<lparr>event_time := placeholder_time\<rparr>) BindPendingDurable = Inr q3"
    and "prepared = PreparedReplace (q3\<lparr>compaction := c\<rparr>) None"
    by (auto simp: prepare_owned_overflow_prune_event_def clock and_then_Inr map_err_Inr)
  with commit have "\<not> has_open_attempt (attempt (live s'))"
    by (auto simp: durable_commit_def prepared_event_time_def
        dest!: commit_replace_attempt attempt_kept(2,3) overflow_transition_closed)
  then show "attempt_is_open s'" if "has_open_attempt (attempt (live s'))" using that by simp
qed

lemma owned_prune_ok:
  assumes ok: "journal_ok env sid s h" and app: "appended env s OwnerOwnedPrune new s' e row"
    and kind: "is_prune (new_kind new) \<and> active_attempt s = None
      \<or> is_tool_result (new_kind new) \<and> \<not> is_recovery_result (new_kind new)
        \<and> is_replace (map_option intent_operation (new_surface new))"
  shows "journal_ok env sid s' (h @ [(e, row)])"
proof (rule journal_row [OF ok app])
  note strict = session(2) [OF ok] and sok = session(1) [OF ok] and before = appended_before [OF ok app]
  from app obtain prepared where live: "live_owned_prune_event env (live s) (e\<lparr>event_time := placeholder_time\<rparr>) = Inr prepared"
    and commit: "durable_commit (prepared_event_time e prepared) (live s) row = Some (live s')"
    and active: "active_attempt s' = active_attempt s" and kind': "event_kind e = new_kind new"
    and op: "event_surface_op e = map_option intent_operation (new_surface new)"
    by (auto simp: appended_def prepare_for_owner_def)
  from sok have "active_attempt s = None \<Longrightarrow> \<not> has_open_attempt (attempt (live s))"
    by (auto simp: session_ok_def attempt_is_open_def)
  with kind have kinds: "is_prune (event_kind e) \<and> \<not> has_open_attempt (attempt (live s))
      \<or> is_tool_result (event_kind e) \<and> \<not> is_recovery_result (event_kind e) \<and> is_replace (event_surface_op e)"
    by (auto simp: kind' op)
  show "\<exists>b'. apply_scanned_row env (upd b (live s)) e row = Ok (upd b' (live s')) \<and> reopened env (live s') b'"
    if "reopened env (live s) b" for b
    by (rule owned_prune_row_reopened [OF strict that kinds live before commit])
  from live obtain p2 q3 c pending where "apply_transition (live s) e OwnedPrune = Inr p2"
    and "apply_surface env p2 (e\<lparr>event_time := placeholder_time\<rparr>) BindPendingDurable = Inr q3"
    and "prepared = PreparedReplace (q3\<lparr>compaction := c\<rparr>) pending"
    by (auto simp: live_owned_prune_event_def prepare_owned_prune_event_def apply_event_def clock and_then_Inr map_err_Inr)
  with commit have "attempt (live s') = attempt (live s)"
    by (auto simp: durable_commit_def prepared_event_time_def dest!: commit_replace_attempt attempt_kept(2,3))
  with sok active show "attempt_is_open s'" if "has_open_attempt (attempt (live s'))"
    using that by (auto simp: session_ok_def attempt_is_open_def)
qed

text \<open>Calls that write no row.\<close>

lemma silent_ok:
  assumes "journal_ok env sid s h"
    and "live_next_seq s' = live_next_seq s" and "policy (live s') = policy (live s)"
    and "surface_nodes (live s') = surface_nodes (live s)"
    and "has_open_attempt (attempt (live s')) \<Longrightarrow> attempt_is_open s'"
    and "\<And>b. reopened env (live s) b \<Longrightarrow> upd b (live s') = upd b (live s) \<and> reopened env (live s') b"
  shows "journal_ok env sid s' h"
  using assms unfolding journal_ok_def session_ok_def nodes_before_def by metis

lemma dispatch_ok:
  assumes ok: "journal_ok env sid s h" and "begin_attempt s turn step = Ok (tok, s')"
  shows "journal_ok env sid s' h"
proof -
  let ?a = "attempt (live s)"
  from assms(2) session(2) [OF ok] obtain nxt route where ready: "attempt_state ?a = AttemptReady turn step"
    and progress: "replay_progress ?a (replacement_generation (compaction (live s)))"
    and nxt: "checked_add (next_generation ?a) 1 = Some nxt"
    and route: "route_from_header (request_header (live s)) = Inr route"
    and live: "live s' = upd (?a\<lparr>next_generation := nxt,
        attempt_state := AttemptStreaming (open_attempt (next_generation ?a) turn step route)\<rparr>) (live s)"
    and rest: "live_next_seq s' = live_next_seq s" "attempt_is_open s'"
    by (auto simp: begin_attempt_def prepare_live_attempt_def prepare_begin_live_def commit_live_def
        commit_live_attempt_def require_ready_def attempt_boundary_def invalid_attempt_def result_simps
        require_context_replay_progress_Inr attempt_is_open_def split: if_splits)
  from checked_add_less [OF nxt] have less: "next_generation ?a < nxt" by simp
  show ?thesis
  proof (rule silent_ok [OF ok])
    fix b assume r: "reopened env (live s) b"
    from reopened_settled [OF r] ready have b: "attempt_state b = AttemptReady turn step" by simp
    from reopened_books [OF r] less have "next_generation b < nxt" by (auto simp: same_books_def)
    with b r progress route show "upd b (live s') = upd b (live s) \<and> reopened env (live s') b"
      by (auto simp: live reopened_def reopened_state_def reopened_fresh_def open_attempt_def replay_progress_def)
  qed (simp_all add: live rest)
qed

lemma seal_ok:
  assumes ok: "journal_ok env sid s h" and "seal_attempt env s tok = Ok (prepared, s')"
  shows "journal_ok env sid s' h"
proof -
  from assms(2) obtain f d where tok: "validate_open_attempt_token s tok = Ok ()"
    and f: "attempt_state (attempt (live s)) = AttemptFinished f"
    and d: "optional_json_digest env (fin_replay_state f) = Inr d"
    and s': "s' = s\<lparr>live := upd ((attempt (live s))\<lparr>attempt_state := AttemptSealed (seal_finished env f d)\<rparr>) (live s)\<rparr>"
    by (auto simp: seal_attempt_def seal_live_attempt_def take_prepared_def attempt_boundary_def result_simps
        split: AttemptState.splits)
  show ?thesis
  proof (rule silent_ok [OF ok])
    fix b assume r: "reopened env (live s) b"
    with f obtain g where "attempt_state b = AttemptFinished (f\<lparr>fin_generation := g\<rparr>)"
      by (auto simp: reopened_def reopened_state_def)
    moreover have "seal_finished env f d
        = (seal_finished env (f\<lparr>fin_generation := g\<rparr>) d)\<lparr>sea_generation := sea_generation (seal_finished env f d)\<rparr>"
      by (simp add: seal_finished_def)
    ultimately have "reopened_sealed env (seal_finished env f d) (attempt_state b)"
      using d unfolding reopened_sealed_def by force
    with r show "upd b (live s') = upd b (live s) \<and> reopened env (live s') b"
      by (simp add: s' reopened_def reopened_state_def)
  qed (use owner_is_open(2) [OF tok] in \<open>simp_all add: s' attempt_is_open_def\<close>)
qed

lemma retire_ok:
  assumes ok: "journal_ok env sid s h" and "retire_attempt s tok = Ok s'"
  shows "journal_ok env sid s' h"
proof -
  from assms(2) have s': "s' = s\<lparr>active_attempt := None\<rparr>" and "\<not> attempt_is_open s"
    by (auto simp: retire_attempt_def invalid_attempt_def attempt_is_open_def
        split: option.splits if_splits ActiveAttemptPhase.splits)
  with session(1) [OF ok] have "\<not> has_open_attempt (attempt (live s))" by (auto simp: session_ok_def)
  then show ?thesis by (intro silent_ok [OF ok]) (simp_all add: s')
qed

lemma barrier_ok:
  assumes ok: "journal_ok env sid s h" and "cross_barrier s = Some s'"
  shows "journal_ok env sid s' h"
  using assms(2) session(1) [OF ok]
  by (intro silent_ok [OF ok]) (auto simp: cross_barrier_def session_ok_def attempt_is_open_def)

section \<open>The journal of a run reopens\<close>

lemma new_session_ok: "journal_ok env sid (new_durable_session sid) []"
proof -
  let ?p = "live_for_session DurableStrict sid"
  have p: "attempt ?p = attempt_default" "policy ?p = DurableStrict" "surface_nodes ?p = []"
    by (simp_all add: live_for_session_def with_attempt_def projection_for_session_def projection_empty_def
        Projection_State.Projection.defs)
  then have "reopened env ?p attempt_default"
    by (simp add: reopened_def reopened_state_def attempt_default_def)
  moreover have "upd attempt_default ?p = ?p" using p(1) by (cases ?p) simp
  moreover have "session_ok (new_durable_session sid) []"
    using p by (simp add: session_ok_def new_durable_session_def nodes_before_def event_seq_from_index_def
        has_open_attempt_def attempt_default_def split: if_splits)
  moreover have "cited_rows (attempt_state attempt_default) = chunk_numbers (drop 0 [])"
    by (simp add: cited_rows_def attempt_default_def chunk_numbers_def)
  ultimately show ?thesis unfolding journal_ok_def
    by (intro conjI exI [of _ attempt_default]) (auto simp: new_durable_session_def)
qed

lemma live_run_ok:
  assumes "live_run env sid s h" and "citations_tell env h"
  shows "journal_ok env sid s h"
  using assms
proof (induction rule: live_run.induct)
  case new_session
  show ?case by (rule new_session_ok)
next
  case (ordinary s h protected new data time row s' r)
  obtain e w where r: "r = (e, w)" by (cases r)
  with ordinary citations_tell_snoc(1) [of env h e w] have ok: "journal_ok env sid s h" by simp
  from ordinary(2) r have app: "appended env s OwnerOrdinary new s' e w"
    by (auto simp: append_ordinary_def dest: try_commit_appended)
  from ordinary_ok [OF ok app ordinary(3)] r show ?case by simp
next
  case (chunk s h tok protected c data time row s' r)
  obtain e w where r: "r = (e, w)" by (cases r)
  with chunk citations_tell_snoc(1) [of env h e w] have ok: "journal_ok env sid s h" by simp
  from chunk(2) r obtain new where "appended env s (OwnerAttempt (token_nonce tok) OperationChunk) new s' e w"
    by (auto simp: append_attempt_chunk_def and_then_Inr dest: try_commit_appended)
  from chunk_ok [OF ok this] r show ?case by simp
next
  case (closure s h tok disposition protected new data time row s' r)
  obtain e w where r: "r = (e, w)" by (cases r)
  with closure have tells: "citations_tell env (h @ [(e, w)])" by simp
  from closure citations_tell_snoc(1) [OF tells] have ok: "journal_ok env sid s h" by simp
  from closure(2) r have app: "appended env s (OwnerAttempt (token_nonce tok) (OperationClosure disposition)) new s' e w"
    by (auto simp: append_attempt_closure_def and_then_Inr dest: try_commit_appended)
  from closure_ok [OF ok app citations_tell_snoc(2) [OF tells]] r show ?case by simp
next
  case (prune_marker s h overflow protected target tokens data time row s' r)
  obtain e w where r: "r = (e, w)" by (cases r)
  with prune_marker citations_tell_snoc(1) [of env h e w] have ok: "journal_ok env sid s h" by simp
  have kind: "is_prune (new_kind (Live_Session.prune_marker target tokens))" by (simp add: prune_marker_def)
  show ?case
  proof (cases overflow)
    case None
    with prune_marker(2) r have active: "active_attempt s = None"
      and app: "appended env s OwnerOwnedPrune (Live_Session.prune_marker target tokens) s' e w"
      by (auto simp: append_prune_marker_def and_then_Inr invalid_attempt_def split: if_splits dest: try_commit_appended)
    from owned_prune_ok [OF ok app] kind active r show ?thesis by simp
  next
    case (Some tok)
    with prune_marker(2) r
    have app: "appended env s (OwnerOverflowPruneMarker (token_nonce tok)) (Live_Session.prune_marker target tokens) s' e w"
      by (auto simp: append_prune_marker_def and_then_Inr dest: try_commit_appended)
    from overflow_prune_ok [OF ok app kind] r show ?thesis by simp
  qed
next
  case (prune_replacement s h protected target k data time row s' r)
  obtain e w where r: "r = (e, w)" by (cases r)
  with prune_replacement citations_tell_snoc(1) [of env h e w] have ok: "journal_ok env sid s h" by simp
  from prune_replacement(2) r have app: "appended env s OwnerOwnedPrune (Live_Session.prune_replacement target k) s' e w"
    by (auto simp: append_prune_replacement_def dest: try_commit_appended)
  from owned_prune_ok [OF ok app] prune_replacement(3,4) r show ?case
    by (simp add: prune_replacement_def)
next
  case (dispatch s h turn step tok s')
  then show ?case using dispatch_ok by blast
next
  case (seal s h tok prepared s')
  then show ?case using seal_ok by blast
next
  case (barrier s h s')
  then show ?case using barrier_ok by blast
next
  case (retire s h tok s')
  then show ?case using retire_ok by blast
qed

end
