(* ===== verification/Live_Correct.thy ===== *)
theory Live_Correct
  imports Live_Journal Replay_Surface
begin

text \<open>
  What a live session wrote is what the next process reads: the journal of every run of the owner of
  a session is accepted row by row, and the projection it folds to is the live one.
\<close>

section \<open>Citations\<close>

text \<open>A digest without collisions tells all citations apart.\<close>

lemma digits_determine:
  "(\<And>k. k < n \<Longrightarrow> (a div 256 ^ k) mod 256 = (b div 256 ^ k) mod (256 :: nat)) \<Longrightarrow> a mod 256 ^ n = b mod 256 ^ n"
proof (induction n)
  case (Suc n)
  then have "a mod 256 ^ n = b mod 256 ^ n" and "(a div 256 ^ n) mod 256 = (b div 256 ^ n) mod 256" by simp_all
  then show ?case by (simp add: mod_mult2_eq [of _ "256 ^ n" 256, simplified mult.commute])
qed simp

lemma be_bytes_inject:
  assumes "be_bytes v = be_bytes w"
  shows "v = w"
proof -
  have "unat v mod 256 ^ 8 = unat w mod 256 ^ 8"
  proof (rule digits_determine)
    fix k :: nat assume "k < 8"
    then have "k \<in> set [7, 6, 5, 4, 3, 2, 1, 0]" by (simp, presburger)
    with assms have "char_of (unat v div 256 ^ k) = (char_of (unat w div 256 ^ k) :: char)"
      unfolding be_bytes_def map_eq_conv by (rule bspec)
    then have "(of_char (char_of (unat v div 256 ^ k) :: char) :: nat) = of_char (char_of (unat w div 256 ^ k) :: char)"
      by (rule arg_cong)
    then show "(unat v div 256 ^ k) mod 256 = (unat w div 256 ^ k) mod 256" by (simp only: of_char_of)
  qed
  moreover have "unat x < 256 ^ 8" for x :: u64 using unsigned_less [of x] by simp
  ultimately show ?thesis by (simp add: word_unat_eq_iff)
qed

lemma be_bytes_list_inject:
  "length xs = length ys \<Longrightarrow> concat (map be_bytes xs) = concat (map be_bytes ys) \<Longrightarrow> xs = ys"
proof (induction xs ys rule: list_induct2)
  case (Cons x xs y ys)
  have "length (be_bytes x) = length (be_bytes y)" by (simp add: be_bytes_def)
  with Cons show ?case by (auto dest: be_bytes_inject)
qed simp

lemma injective_citations_tell: "inj (env_sha256 env) \<Longrightarrow> citations_tell env h"
  by (auto simp: citations_tell_def digest_tells_def source_digest_def dest!: injD intro: be_bytes_list_inject)

section \<open>The journal reopens\<close>

text \<open>C3
  However the owner of a durable session appends, dispatches, streams, seals, closes, prunes
  and retires, the cold fold accepts every row that was written, and the projection it arrives at
  is the live one in every field but the attempt, whose usage, overflow flags and state agree up to
  what a dispatch without a chunk and a seal leave only in memory.\<close>

theorem live_journal_reopens:
  assumes "live_run env sid s h" and "citations_tell env h"
  shows "\<exists>a. scan_rows env (live_for_session DurableStrict sid) h = Ok ((live s)\<lparr>attempt := a\<rparr>)
    \<and> reopened env (live s) a \<and> (attempt_outside (attempt (live s)) \<longrightarrow> attempt_outside a)
    \<and> attempt_usage a = attempt_usage (attempt (live s))"
proof -
  from live_run_ok [OF assms] obtain a where
    "scan_rows env (live_for_session DurableStrict sid) h = Ok ((live s)\<lparr>attempt := a\<rparr>)" "reopened env (live s) a"
    by (auto simp: journal_ok_def)
  moreover from this have "attempt_outside (attempt (live s)) \<Longrightarrow> attempt_outside a"
    by (auto simp: reopened_def reopened_state_def attempt_outside_def)
  ultimately show ?thesis by (auto simp: reopened_def)
qed

section \<open>An example\<close>

text \<open>Calls with the arguments that matter; the token is the one of the active attempt.\<close>

datatype (plugins only: code size) LiveCall =
    CallAppend NewEvent
  | CallDispatch TurnId StepId
  | CallChunk StreamChunk
  | CallSeal
  | CallClose AttemptDisposition NewEvent
  | CallBarrier
  | CallRetire

definition no_row :: JournalRowLocator where
  "no_row = \<lparr>row_seq = 0, row_offset = 0, row_length = 1, row_sha256 = ''d''\<rparr>"

definition active_token :: "LiveSession \<Rightarrow> AttemptToken" where
  "active_token s = (case active_attempt s of
      None \<Rightarrow> \<lparr>token_nonce = 0, token_turn = 0, token_step = 0\<rparr>
    | Some a \<Rightarrow> \<lparr>token_nonce = owner_nonce a, token_turn = owner_turn a, token_step = owner_step a\<rparr>)"

definition logged :: "JournalRow list \<Rightarrow> AppendError + (LiveSession \<times> JournalRow)
    \<Rightarrow> AppendError + (LiveSession \<times> JournalRow list)" where
  "logged h r = and_then r (\<lambda>(s, row). Ok (s, h @ [row]))"

fun perform :: "session_env \<Rightarrow> LiveCall \<Rightarrow> LiveSession \<times> JournalRow list
    \<Rightarrow> AppendError + (LiveSession \<times> JournalRow list)" where
  "perform env (CallAppend new) (s, h) =
     (if is_request_header (new_kind new) \<and> attempt_is_open s then invalid_attempt ''''
      else logged h (append_ordinary env s 0 new (JObj []) 1000 no_row))"
| "perform env (CallDispatch turn step) (s, h) = and_then (begin_attempt s turn step) (\<lambda>(_, s). Ok (s, h))"
| "perform env (CallChunk c) (s, h) = logged h (append_attempt_chunk env s (active_token s) 0 c (JObj []) 1000 no_row)"
| "perform env CallSeal (s, h) = and_then (seal_attempt env s (active_token s)) (\<lambda>(_, s). Ok (s, h))"
| "perform env (CallClose d new) (s, h) =
     logged h (append_attempt_closure env s (active_token s) d 0 new (JObj []) 1000 no_row)"
| "perform env CallBarrier (s, h) = and_then (ok_or (cross_barrier s) DurablePoisoned) (\<lambda>s. Ok (s, h))"
| "perform env CallRetire (s, h) = and_then (retire_attempt s (active_token s)) (\<lambda>s. Ok (s, h))"

lemma perform_run:
  "perform env c (s, h) = Inr (s', h') \<Longrightarrow> live_run env sid s h \<Longrightarrow> live_run env sid s' h'"
  by (cases c) (auto simp: logged_def invalid_attempt_def result_simps split: if_splits
      intro: live_run.intros)

lemma performs_run:
  "run (\<lambda>x c. perform env c x) (s, h) cs = Inr (s', h') \<Longrightarrow> live_run env sid s h \<Longrightarrow> live_run env sid s' h'"
proof (induction cs arbitrary: s h)
  case (Cons c cs)
  then show ?case by (auto simp: and_then_Inr dest: perform_run)
qed simp

definition sample_header :: EpochHeader where
  "sample_header = \<lparr>header_config = \<lparr>config_provider = ''p'', config_model = ''m'', config_reasoning_effort = None,
     config_temperature = None, config_max_tokens = None, config_stop = None, config_raw = JNull\<rparr>,
     header_adapter_defaults = None, header_system = None, header_tools = None\<rparr>"

definition stopped :: FinishReason where
  "stopped = \<lparr>finish_kind = FinishStop, finish_raw = JNull\<rparr>"

definition empty_reply :: Message where
  "empty_reply = \<lparr>message_id = ''m'', message_role = Assistant, message_content = [],
     message_source = \<lparr>source_kind = SourceModel ''p'' ''m'' None, source_raw = JNull\<rparr>,
     message_raw = JNull, message_surface_credit = Some 10\<rparr>"

text \<open>A step whose stream ends at once, is sealed and committed, and the turn's end.\<close>

definition sample_calls :: "LiveCall list" where
  "sample_calls = [CallAppend \<lparr>new_kind = TurnStart 1, new_surface = None\<rparr>,
     CallAppend \<lparr>new_kind = RequestHeader sample_header ReasonInitial, new_surface = None\<rparr>,
     CallAppend \<lparr>new_kind = StepStart 1 1, new_surface = None\<rparr>,
     CallDispatch 1 1,
     CallChunk \<lparr>chunk_kind = Finish stopped None, chunk_raw = JNull\<rparr>,
     CallSeal,
     CallClose DispositionCommitted \<lparr>new_kind = AssistantMessage 1 1 empty_reply None,
       new_surface = Some \<lparr>intent_operation = SurfaceAppend, intent_sources = Some [3]\<rparr>\<rparr>,
     CallBarrier, CallRetire,
     CallAppend \<lparr>new_kind = StepEnd 1 1, new_surface = None\<rparr>,
     CallAppend \<lparr>new_kind = TurnEnd 1 TurnCompleted, new_surface = None\<rparr>]"

lemmas live_eval = new_durable_session_def live_for_session_def with_attempt_def Projection_State.Projection.extend_def
  append_ordinary_def try_commit_durable_def next_logical_events_def MAX_DURABLE_LOGICAL_EVENTS_def
  DURABLE_REPAIR_RESERVED_EVENTS_def event_from_new_def prepare_for_owner_def prepare_durable_event_def
  apply_ordinary_event_def reject_unowned_attempt_event_def reject_unowned_context_overflow_start_def
  apply_attempt_transition_def apply_attempt_event_def set_attempt_def attempt_step_start_def reset_overflow_def
  prepared_event_time_def durable_commit_def commit_replace_def set_committed_event_time_def close_active_attempt_def
  attempt_default_def attempt_outside_def begin_attempt_def prepare_live_attempt_def prepare_begin_live_def
  require_ready_def require_context_replay_progress_def route_from_header_def commit_live_def commit_live_attempt_def
  append_attempt_chunk_def validate_open_attempt_token_def validate_attempt_operation_owner_def
  prepare_durable_attempt_chunk_def prepare_attempt_chunk_def prepare_existing_chunk_def

lemmas chunk_eval = stream_prepare_def stream_default_def MAX_PROVIDER_STREAM_CHUNKS_def stopped_def usize_add_def
  MAX_ATTEMPT_EMITTED_BYTES_def open_attempt_def prepare_operation_def prepare_finish_def normalized_content_digest_def
  attempt_content_def normalized_content_def content_digest_def provider_assistant_tokens_def
  estimate_provider_assistant_def commit_open_def commit_operation_def finish_attempt_def stream_commit_def
  commit_prepared_chunk_def commit_chunk_def seal_attempt_def seal_live_attempt_def take_prepared_def
  optional_json_digest_def seal_finished_def

lemmas closure_eval = append_attempt_closure_def prepare_durable_attempt_closure_def legal_closure_def
  commit_assistant_def attempt_assistant_def terminal_attempt_def event_source_list_def
  check_committed_message_def optional_usage_equal_def validate_message_route_def route_provider_def route_model_def
  empty_reply_def sample_header_def prepare_token_anchor_def header_tokens_def surface_add_def estimate_message_def
  apply_assistant_message_def register_durable_declarations_def surface_eval retire_attempt_def cross_barrier_def
  attempt_step_end_def apply_step_end_def unresolved_declaration_def header_validate_def header_canonicalized_def config_validate_def replay_env_def
  validate_assistant_event_def estimate_request_header_def budget_add_def

lemma sample_run_live:
  "\<exists>s h. run (\<lambda>x c. perform replay_env c x) (new_durable_session ''s'', []) sample_calls = Inr (s, h)
     \<and> length h = 7 \<and> attempt_outside (attempt (live s)) \<and> boundary (live s) = BoundaryIdle"
  by (simp add: sample_calls_def replay_eval live_eval chunk_eval closure_eval logged_def attempt_is_open_def placeholder_time_def
      projection_for_session_def Let_def pending_tool_result_def observe_message_time_def is_time_context_event_def
      active_token_def no_row_def)

theorem live_journal_reopens_witness:
  "\<exists>s h a. live_run replay_env ''s'' s h \<and> length h = 7
     \<and> scan_rows replay_env (live_for_session DurableStrict ''s'') h = Ok ((live s)\<lparr>attempt := a\<rparr>)
     \<and> attempt_outside a"
proof -
  obtain s h where r: "run (\<lambda>x c. perform replay_env c x) (new_durable_session ''s'', []) sample_calls = Inr (s, h)"
    and h: "length h = 7" "attempt_outside (attempt (live s))"
    using sample_run_live by (elim exE conjE)
  from performs_run [OF r live_run.new_session] have live: "live_run replay_env ''s'' s h" .
  have "inj (env_sha256 replay_env)" by (simp add: replay_env_def inj_def)
  then have tells: "citations_tell replay_env h" by (rule injective_citations_tell)
  from live_journal_reopens [OF live tells] live h show ?thesis by blast
qed

end
