(* ===== verification/Message_Build.thy ===== *)
theory Message_Build
  imports Session_Check
begin

text \<open>
  The constructors of messages (\<open>src/model/message.rs\<close>) that the recovery of a session uses. An
  object that serde builds keeps its keys in order.
\<close>

definition content_block_from_value :: "session_env \<Rightarrow> serde_parts \<Rightarrow> json \<Rightarrow> ModelError + ContentBlock" where
  "content_block_from_value env sp v =
     and_then (ok_or (env_admit env v) JsonError) (\<lambda>raw.
       Ok \<lparr>block_kind = parse_content_block sp raw, block_raw = raw\<rparr>)"

definition content_block_text :: "session_env \<Rightarrow> serde_parts \<Rightarrow> string \<Rightarrow> ModelError + ContentBlock" where
  "content_block_text env sp s =
     content_block_from_value env sp (JObj [(''text'', JStr s), (''type'', JStr ''text'')])"

definition content_block_tool_result :: "session_env \<Rightarrow> serde_parts \<Rightarrow> call_id \<Rightarrow> ContentBlock list
    \<Rightarrow> bool option \<Rightarrow> ModelError + ContentBlock" where
  "content_block_tool_result env sp i content is_error =
     content_block_from_value env sp (JObj
       ([(''content'', JArr (map block_raw content))]
        @ (case is_error of None \<Rightarrow> [] | Some b \<Rightarrow> [(''isError'', JBool b)])
        @ [(''toolCallId'', JStr i), (''type'', JStr ''tool-result'')]))"

definition message_source_from_value :: "session_env \<Rightarrow> serde_parts \<Rightarrow> json \<Rightarrow> ModelError + MessageSource" where
  "message_source_from_value env sp v =
     and_then (ok_or (env_admit env v) JsonError) (\<lambda>raw.
     and_then (parse_message_source sp raw) (\<lambda>k. Ok \<lparr>source_kind = k, source_raw = raw\<rparr>))"

definition message_source_tool :: "session_env \<Rightarrow> serde_parts \<Rightarrow> call_id \<Rightarrow> ModelError + MessageSource" where
  "message_source_tool env sp i =
     (if i = [] then Err InvalidToolResult
      else message_source_from_value env sp (JObj [(''callId'', JStr i), (''kind'', JStr ''tool'')]))"

fun role_name :: "MessageRole \<Rightarrow> string" where
  "role_name System = ''system''"
| "role_name User = ''user''"
| "role_name Assistant = ''assistant''"

definition message_new :: "session_env \<Rightarrow> string \<Rightarrow> MessageRole \<Rightarrow> ContentBlock list \<Rightarrow> MessageSource
    \<Rightarrow> ModelError + Message" where
  "message_new env i role content source =
     (if i = [] then Err EmptyMessageId
      else if length content > MAX_MESSAGE_CONTENT_BLOCKS
      then Err (TooManyContentBlocks (of_nat MAX_MESSAGE_CONTENT_BLOCKS) (of_nat (length content)))
      else and_then (ok_or (env_admit env (JObj [(''content'', JArr (map block_raw content)), (''id'', JStr i),
          (''role'', JStr (role_name role)), (''source'', source_raw source)])) JsonError) (\<lambda>raw.
        Ok \<lparr>message_id = i, message_role = role, message_content = content, message_source = source,
            message_raw = raw, message_surface_credit = None\<rparr>))"

definition message_tool_result :: "session_env \<Rightarrow> serde_parts \<Rightarrow> string \<Rightarrow> call_id \<Rightarrow> ContentBlock list \<Rightarrow> bool
    \<Rightarrow> ModelError + Message" where
  "message_tool_result env sp i c content is_error =
     and_then (content_block_tool_result env sp c content (Some is_error)) (\<lambda>block.
     and_then (message_source_tool env sp c) (\<lambda>source.
       message_new env i User [block] source))"

end
