(* ===== verification/Recovery.thy ===== *)
theory Recovery
  imports Live_Projection Message_Build
begin

text \<open>
  Recovery of a durable session (\<open>src/session/recovery.rs\<close>): the deterministic plan of rows that
  closes what a crash left open, and the cold scan of a journal, which tells repair rows written by
  an earlier recovery from what a live session wrote.

  The events and the actions of a plan are one list of pairs. A line of the journal enters the scan
  decoded: the codec and the reading of blocks are not modelled.
\<close>

section \<open>Constants\<close>

datatype StoreError =
    RootUnavailable | UnsafeRoot | InvalidSessionId | InvalidHeader | StoreErrorBusy | StoreBusy | StoreNotFound
  | StoreChanged | WorkspaceMismatch | StoreUnsupported | StoreCorrupt | StoreCancelled | StoreLimit | StoreIo
  | WriterStopped | StorePoisoned

definition MAX_RECOVERY_ROWS :: nat where
  "MAX_RECOVERY_ROWS = 68"

definition MAX_SCAN_EVENTS :: u64 where
  "MAX_SCAN_EVENTS = 1000000"

definition MAX_DURABLE_JOURNAL_BYTES :: u64 where
  "MAX_DURABLE_JOURNAL_BYTES = 512 * 1024 * 1024"

definition TOOL_OUTCOME_UNKNOWN :: string where
  "TOOL_OUTCOME_UNKNOWN = ''TOOL_OUTCOME_UNKNOWN''"

definition TOOL_NOT_STARTED_TEXT :: string where
  "TOOL_NOT_STARTED_TEXT = ''The tool call was interrupted before the Harness recorded it as started. Retry it if it is still needed.''"

definition TOOL_OUTCOME_UNKNOWN_TEXT :: string where
  "TOOL_OUTCOME_UNKNOWN_TEXT = ''The tool call was interrupted after it was recorded, but no result was durably recorded. Its outcome is unknown. Decide whether to retry from the tool semantics: retry only if the operation is read-only or idempotent; if it may have side effects, first verify external state or ask the user. Do not retry blindly.''"

definition APPROVAL_REJECTED_TEXT :: string where
  "APPROVAL_REJECTED_TEXT = ''The tool call was not started because its approval request was rejected.''"

definition APPROVAL_CANCELLED_TEXT :: string where
  "APPROVAL_CANCELLED_TEXT = ''The tool call was not started because its approval request was cancelled. No tool body was dispatched.''"

definition APPROVAL_UNAVAILABLE_TEXT :: string where
  "APPROVAL_UNAVAILABLE_TEXT = ''The tool call was not started because approval was unavailable.''"

section \<open>Identities\<close>

definition hex_digit :: "nat \<Rightarrow> char" where
  "hex_digit n = char_of (if n < 10 then 48 + n else 87 + n)"

text \<open>\<open>{byte:02x}\<close>\<close>

definition hex_bytes :: "string \<Rightarrow> string" where
  "hex_bytes s = concat (map (\<lambda>c. let n = (of_char c :: nat) in [hex_digit (n div 16), hex_digit (n mod 16)]) s)"

definition digest_field :: "string \<Rightarrow> string" where
  "digest_field field = be_bytes (of_nat (length field)) @ field"

definition seq_or_max :: "EventSeq option \<Rightarrow> u64" where
  "seq_or_max seq = (case seq of None \<Rightarrow> - 1 | Some n \<Rightarrow> n)"

definition recovery_message_id :: "session_env \<Rightarrow> SessionId \<Rightarrow> EventSeq option \<Rightarrow> call_id \<Rightarrow> EventSeq option
    \<Rightarrow> EventSeq \<Rightarrow> string" where
  "recovery_message_id env sid last_prefix_seq i call_seq result_seq =
     RECOVERY_TOOL_RESULT_ID_PREFIX @ hex_bytes (env_sha256 env
       (''dsh.recovery.tool-result.v1'' @ [CHR 0x00] @ digest_field sid @ be_bytes (seq_or_max last_prefix_seq)
        @ digest_field i @ be_bytes (seq_or_max call_seq) @ be_bytes result_seq))"

definition call_fingerprint :: "session_env \<Rightarrow> call_id \<Rightarrow> string" where
  "call_fingerprint env i = ''call-'' @ hex_bytes (take 12 (env_sha256 env
     (''dsh.recovery.report.call.v1'' @ [CHR 0x00] @ digest_field i)))"

section \<open>The plan\<close>

text \<open>The name and code of the failure, its text, and the source of the result.\<close>

definition recovery_result_kind :: "RecoveryCall \<Rightarrow> string \<times> string \<times> string \<times> EventSeq option" where
  "recovery_result_kind c = (case recovery_intent_seq c of
      None \<Rightarrow> (''ToolNotStartedError'', TOOL_NOT_STARTED, TOOL_NOT_STARTED_TEXT, None)
    | Some intent \<Rightarrow> (case recovery_approval c of
        RecoveryApprovalDecided _ OutcomeRejected \<Rightarrow>
          (''ApprovalError'', ''APPROVAL_REJECTED'', APPROVAL_REJECTED_TEXT, Some intent)
      | RecoveryApprovalPending _ \<Rightarrow>
          (''AbortError'', ''APPROVAL_CANCELLED'', APPROVAL_CANCELLED_TEXT, Some intent)
      | RecoveryApprovalDecided _ OutcomeCancelled \<Rightarrow>
          (''AbortError'', ''APPROVAL_CANCELLED'', APPROVAL_CANCELLED_TEXT, Some intent)
      | RecoveryApprovalDecided _ OutcomeUnavailable \<Rightarrow>
          (''ApprovalError'', ''APPROVAL_UNAVAILABLE'', APPROVAL_UNAVAILABLE_TEXT, Some intent)
      | _ \<Rightarrow> (''ToolOutcomeUnknownError'', TOOL_OUTCOME_UNKNOWN, TOOL_OUTCOME_UNKNOWN_TEXT, Some intent)))"

text \<open>\<open>kind_data_value\<close> of \<open>session/codec.rs\<close> on the kinds of events that a repair consists of.\<close>

definition number_value :: "u64 \<Rightarrow> json" where
  "number_value n = JInt (uint n)"

definition tool_failure_value :: "ToolFailure \<Rightarrow> json" where
  "tool_failure_value f = JObj [(''code'', JStr (tool_failure_code f)), (''name'', JStr (tool_failure_name f))]"

fun outcome_name :: "ApprovalOutcome \<Rightarrow> string" where
  "outcome_name OutcomeAllowedOnce = ''allowed-once''"
| "outcome_name OutcomeRejected = ''rejected''"
| "outcome_name OutcomeCancelled = ''cancelled''"
| "outcome_name OutcomeUnavailable = ''unavailable''"

definition repair_data_value :: "EventKind \<Rightarrow> json option" where
  "repair_data_value k = (case k of
      TurnEnd turn TurnInterrupted \<Rightarrow>
        Some (JObj [(''reason'', JObj [(''kind'', JStr ''interrupted'')]), (''turn'', number_value turn)])
    | StepEnd turn step \<Rightarrow> Some (JObj [(''step'', number_value step), (''turn'', number_value turn)])
    | ToolResult turn step m error None \<Rightarrow> Some (JObj
        ((case error of None \<Rightarrow> [] | Some f \<Rightarrow> [(''error'', tool_failure_value f)])
         @ [(''message'', message_raw m), (''step'', number_value step), (''turn'', number_value turn)]))
    | ApprovalDecided d \<Rightarrow>
        Some (JObj [(''id'', JStr (decided_id d)), (''outcome'', JStr (outcome_name (decided_outcome d)))])
    | EndSeed \<Rightarrow> Some (JObj [])
    | _ \<Rightarrow> None)"

type_synonym RepairRow = "SessionEvent \<times> RecoveryAction"

definition log_event :: "EventKind \<Rightarrow> NewEvent" where
  "log_event k = \<lparr>new_kind = k, new_surface = None\<rparr>"

text \<open>The rows so far and the number of the next one.\<close>

definition push_recovery_event :: "session_env \<Rightarrow> UnixMillis \<Rightarrow> NewEvent \<Rightarrow> RecoveryAction
    \<Rightarrow> RepairRow list \<times> EventSeq option \<Rightarrow> StoreError + (RepairRow list \<times> EventSeq option)" where
  "push_recovery_event env time e action b = (case b of (rows, nxt) \<Rightarrow>
     if length rows \<ge> MAX_RECOVERY_ROWS then Err StoreLimit
     else and_then (ok_or nxt StoreLimit) (\<lambda>seq.
       and_then (ok_or (Option.bind (repair_data_value (new_kind e)) (env_admit env)) StoreLimit) (\<lambda>data.
         Ok (rows @ [(event_from_new seq time e data, action)], safe_successor seq))))"

definition cancellation :: "ApprovalRequestId \<Rightarrow> StoreError + ApprovalDecidedEvent" where
  "cancellation i = map_err (\<lambda>_. StoreCorrupt) (and_then (validate_approval_id i) (\<lambda>_.
     Ok \<lparr>decided_id = i, decided_outcome = OutcomeCancelled\<rparr>))"

text \<open>The decisions of the approvals that calls without a result wait for.\<close>

fun push_cancellations :: "session_env \<Rightarrow> UnixMillis \<Rightarrow> RecoveryCall list
    \<Rightarrow> RepairRow list \<times> EventSeq option \<Rightarrow> StoreError + (RepairRow list \<times> EventSeq option)" where
  "push_cancellations env time [] b = Ok b"
| "push_cancellations env time (c # cs) b = and_then (case recovery_approval c of
      RecoveryApprovalPending i \<Rightarrow>
        if recovery_result_seen c then Ok b
        else and_then (cancellation i) (\<lambda>d.
          push_recovery_event env time (log_event (ApprovalDecided d)) (CancelApproval i) b)
    | _ \<Rightarrow> Ok b) (\<lambda>b. push_cancellations env time cs b)"

definition repair_message :: "session_env \<Rightarrow> serde_parts \<Rightarrow> SessionId \<Rightarrow> EventSeq option \<Rightarrow> RecoveryCall
    \<Rightarrow> EventSeq \<Rightarrow> StoreError + Message" where
  "repair_message env sp sid last_prefix_seq c result_seq = map_err (\<lambda>_. StoreLimit)
     (case recovery_result_kind c of (_, _, s, _) \<Rightarrow>
       and_then (content_block_text env sp s) (\<lambda>block.
         message_tool_result env sp (recovery_message_id env sid last_prefix_seq (recovery_call_id c)
           (recovery_intent_seq c) result_seq) (recovery_call_id c) [block] True))"

definition repair_result :: "TurnId \<Rightarrow> StepId \<Rightarrow> Message \<Rightarrow> RecoveryCall \<Rightarrow> NewEvent" where
  "repair_result turn step m c = (case recovery_result_kind c of (name, code, _, source) \<Rightarrow>
     \<lparr>new_kind = ToolResult turn step m (Some \<lparr>tool_failure_name = name, tool_failure_code = code\<rparr>) None,
      new_surface = Some \<lparr>intent_operation = SurfaceAppend,
        intent_sources = (case source of None \<Rightarrow> None | Some s \<Rightarrow> Some [s])\<rparr>\<rparr>)"

text \<open>A result for every call that has none.\<close>

fun push_repairs :: "session_env \<Rightarrow> serde_parts \<Rightarrow> SessionId \<Rightarrow> EventSeq option \<Rightarrow> TurnId \<Rightarrow> StepId \<Rightarrow> UnixMillis
    \<Rightarrow> RecoveryCall list \<Rightarrow> RepairRow list \<times> EventSeq option
    \<Rightarrow> StoreError + (RepairRow list \<times> EventSeq option)" where
  "push_repairs env sp sid prefix turn step time [] b = Ok b"
| "push_repairs env sp sid prefix turn step time (c # cs) b =
     and_then (if recovery_result_seen c then Ok b
       else and_then (ok_or (snd b) StoreLimit) (\<lambda>seq.
         and_then (repair_message env sp sid prefix c seq) (\<lambda>m.
           push_recovery_event env time (repair_result turn step m c) (RepairCall (recovery_call_id c)) b)))
       (\<lambda>b. push_repairs env sp sid prefix turn step time cs b)"

definition push_step_repair :: "session_env \<Rightarrow> serde_parts \<Rightarrow> SessionId \<Rightarrow> EventSeq option
    \<Rightarrow> RecoverySnapshot \<Rightarrow> UnixMillis option \<Rightarrow> StepId \<Rightarrow> RepairRow list \<times> EventSeq option
    \<Rightarrow> StoreError + (RepairRow list \<times> EventSeq option)" where
  "push_step_repair env sp sid prefix snapshot closer_time step b =
     and_then (ok_or (snapshot_turn snapshot) StoreCorrupt) (\<lambda>turn.
     and_then (ok_or closer_time StoreCorrupt) (\<lambda>time.
     and_then (push_cancellations env time (snapshot_calls snapshot) b) (\<lambda>b.
     and_then (push_repairs env sp sid prefix turn step time (snapshot_calls snapshot) b) (\<lambda>b.
       push_recovery_event env time (log_event (StepEnd turn step))
         (CloseStep turn step (snapshot_attempt snapshot)) b))))"

definition push_turn_repair :: "session_env \<Rightarrow> UnixMillis option \<Rightarrow> TurnId
    \<Rightarrow> RepairRow list \<times> EventSeq option \<Rightarrow> StoreError + (RepairRow list \<times> EventSeq option)" where
  "push_turn_repair env closer_time turn b =
     and_then (ok_or closer_time StoreCorrupt) (\<lambda>time.
       push_recovery_event env time (log_event (TurnEnd turn TurnInterrupted)) (CloseTurn turn) b)"

fun apply_repair :: "session_env \<Rightarrow> LiveProjection \<Rightarrow> RepairRow list \<Rightarrow> StoreError + LiveProjection" where
  "apply_repair env p [] = Ok p"
| "apply_repair env p ((e, action) # rows) =
     and_then (map_err (\<lambda>_. StoreCorrupt) (apply_recovery_admission env p e action None)) (\<lambda>p.
       apply_repair env p rows)"

record RecoveryPlan =
  plan_rows :: "RepairRow list"
  resume_seed_len :: u64
  plan_repaired_calls :: nat
  plan_unknown_outcomes :: nat
  plan_not_started :: nat

definition unresolved_recovery_calls :: "RecoverySnapshot \<Rightarrow> RecoveryCall list" where
  "unresolved_recovery_calls snapshot =
     (if snapshot_step snapshot = None then [] else filter (\<lambda>c. \<not> recovery_result_seen c) (snapshot_calls snapshot))"

definition recovery_code :: "RecoveryCall \<Rightarrow> string" where
  "recovery_code c = fst (snd (recovery_result_kind c))"

definition build_recovery_plan :: "session_env \<Rightarrow> serde_parts \<Rightarrow> LiveProjection \<Rightarrow> SessionId \<Rightarrow> EventSeq option
    \<Rightarrow> EventSeq option \<Rightarrow> UnixMillis option \<Rightarrow> UnixMillis \<Rightarrow> bool \<Rightarrow> u64
    \<Rightarrow> StoreError + (RecoveryPlan \<times> LiveProjection)" where
  "build_recovery_plan env sp p sid next_seq last_prefix_seq closer_time marker_time ends_with_seed logical =
     (let snapshot = recovery_snapshot env p; unresolved = unresolved_recovery_calls snapshot in
      and_then (case snapshot_step snapshot of
          None \<Rightarrow> Ok ([], next_seq)
        | Some step \<Rightarrow> push_step_repair env sp sid last_prefix_seq snapshot closer_time step ([], next_seq)) (\<lambda>b.
      and_then (case snapshot_turn snapshot of
          None \<Rightarrow> Ok b
        | Some turn \<Rightarrow> push_turn_repair env closer_time turn b) (\<lambda>b.
      and_then (ok_or (checked_add logical (of_nat (length (fst b)))) StoreLimit) (\<lambda>seed_len.
      and_then (if ends_with_seed then Ok b
        else push_recovery_event env marker_time (log_event EndSeed) EndSeedAction b) (\<lambda>b.
        if length (fst b) > MAX_RECOVERY_ROWS then Err StoreLimit
        else and_then (apply_repair env p (fst b)) (\<lambda>recovered.
          Ok (\<lparr>plan_rows = fst b, resume_seed_len = (if ends_with_seed then logical else seed_len),
                plan_repaired_calls = length unresolved,
                plan_unknown_outcomes = length (filter (\<lambda>c. recovery_code c = TOOL_OUTCOME_UNKNOWN) unresolved),
                plan_not_started = length (filter (\<lambda>c. recovery_code c = TOOL_NOT_STARTED) unresolved)\<rparr>,
              recovered)))))))"

section \<open>Telling a repair row from a live one\<close>

text \<open>Derived equality of events, on the kinds that a plan consists of.\<close>

definition message_equal :: "session_env \<Rightarrow> Message \<Rightarrow> Message \<Rightarrow> bool" where
  "message_equal env a b \<longleftrightarrow> message_id a = message_id b \<and> message_role a = message_role b
     \<and> list_all2 (block_equal env) (message_content a) (message_content b)
     \<and> source_kind (message_source a) = source_kind (message_source b)
     \<and> json_values_equal env (source_raw (message_source a)) (source_raw (message_source b))
     \<and> json_values_equal env (message_raw a) (message_raw b)"

definition repair_kind_equal :: "session_env \<Rightarrow> EventKind \<Rightarrow> EventKind \<Rightarrow> bool" where
  "repair_kind_equal env planned actual = (case (planned, actual) of
      (ApprovalDecided a, ApprovalDecided b) \<Rightarrow> a = b
    | (ToolResult t s m err None, ToolResult t' s' m' err' None) \<Rightarrow>
        t = t' \<and> s = s' \<and> message_equal env m m' \<and> err = err'
    | (StepEnd t s, StepEnd t' s') \<Rightarrow> t = t' \<and> s = s'
    | (TurnEnd t TurnInterrupted, TurnEnd t' TurnInterrupted) \<Rightarrow> t = t'
    | (EndSeed, EndSeed) \<Rightarrow> True
    | _ \<Rightarrow> False)"

definition repair_event_equal :: "session_env \<Rightarrow> SessionEvent \<Rightarrow> SessionEvent \<Rightarrow> bool" where
  "repair_event_equal env planned actual \<longleftrightarrow> event_seq planned = event_seq actual
     \<and> event_time planned = event_time actual \<and> repair_kind_equal env (event_kind planned) (event_kind actual)
     \<and> event_surface_op planned = event_surface_op actual \<and> event_sources planned = event_sources actual
     \<and> event_ignorable planned = event_ignorable actual
     \<and> json_values_equal env (event_data planned) (event_data actual)"

definition recovery_event_matches :: "session_env \<Rightarrow> serde_parts \<Rightarrow> LiveProjection \<Rightarrow> SessionId \<Rightarrow> SessionEvent
    \<Rightarrow> EventSeq option \<Rightarrow> EventSeq option \<Rightarrow> UnixMillis option \<Rightarrow> u64 \<Rightarrow> StoreError + RecoveryAction option" where
  "recovery_event_matches env sp p sid e expected anchor previous_time logical =
     and_then (build_recovery_plan env sp p sid expected anchor previous_time (event_time e) False logical)
       (\<lambda>(plan, _). Ok (case plan_rows plan of
           [] \<Rightarrow> None
         | (planned, action) # _ \<Rightarrow> if repair_event_equal env planned e then Some action else None))"

definition is_tentative_recovery_start :: "EventKind \<Rightarrow> bool" where
  "is_tentative_recovery_start k = (case k of
      ApprovalDecided d \<Rightarrow> decided_outcome d = OutcomeCancelled
    | StepEnd _ _ \<Rightarrow> True
    | _ \<Rightarrow> False)"

definition is_recovery_only_event :: "EventKind \<Rightarrow> bool" where
  "is_recovery_only_event k = (case k of
      EndSeed \<Rightarrow> True
    | TurnEnd _ TurnInterrupted \<Rightarrow> True
    | ToolResult _ _ m _ _ \<Rightarrow> starts_with RECOVERY_TOOL_RESULT_ID_PREFIX (message_id m)
    | _ \<Rightarrow> False)"

section \<open>One event of the cold scan\<close>

record RecoveryCursor =
  root_last_real_seq :: "EventSeq option"
  cursor_confirmed :: bool

record ColdEventContext =
  ctx_session_id :: SessionId
  ctx_expected_seq :: "EventSeq option"
  ctx_previous_time :: "UnixMillis option"
  ctx_logical_events :: u64
  ctx_previous_ends_with_seed :: bool
  ctx_row :: JournalRowLocator

definition cold_matches :: "session_env \<Rightarrow> serde_parts \<Rightarrow> LiveProjection \<Rightarrow> SessionEvent \<Rightarrow> ColdEventContext
    \<Rightarrow> EventSeq option \<Rightarrow> StoreError + RecoveryAction option" where
  "cold_matches env sp p e ctx anchor = recovery_event_matches env sp p (ctx_session_id ctx) e
     (ctx_expected_seq ctx) anchor (ctx_previous_time ctx) (ctx_logical_events ctx)"

definition cold_admit :: "session_env \<Rightarrow> LiveProjection \<Rightarrow> SessionEvent \<Rightarrow> RecoveryAction \<Rightarrow> ColdEventContext
    \<Rightarrow> StoreError + LiveProjection" where
  "cold_admit env p e action ctx =
     map_err (\<lambda>_. StoreCorrupt) (apply_recovery_admission env p e action (Some (ctx_row ctx)))"

text \<open>With a cursor the event continues a repair; an unconfirmed one may turn out to be live rows.\<close>

definition continue_recovery :: "session_env \<Rightarrow> serde_parts \<Rightarrow> LiveProjection \<Rightarrow> SessionEvent \<Rightarrow> ColdEventContext
    \<Rightarrow> RecoveryCursor \<Rightarrow> StoreError + (LiveProjection \<times> RecoveryCursor option)" where
  "continue_recovery env sp p e ctx cursor =
     and_then (cold_matches env sp p e ctx (root_last_real_seq cursor)) (\<lambda>matched. case matched of
         Some action \<Rightarrow> and_then (cold_admit env p e action ctx) (\<lambda>p.
           Ok (p, if event_kind e = EndSeed then None
             else Some (cursor\<lparr>cursor_confirmed := cursor_confirmed cursor \<or> is_recovery_only_event (event_kind e)\<rparr>)))
       | None \<Rightarrow>
           if cursor_confirmed cursor then Err StoreCorrupt
           else (case apply_scanned_row env p e (ctx_row ctx) of
               Inr p \<Rightarrow> Ok (p, None)
             | Inl _ \<Rightarrow> Err StoreCorrupt))"

definition scan_ordinary :: "session_env \<Rightarrow> serde_parts \<Rightarrow> LiveProjection \<Rightarrow> SessionEvent \<Rightarrow> ColdEventContext
    \<Rightarrow> EventSeq option \<Rightarrow> StoreError + (LiveProjection \<times> RecoveryCursor option)" where
  "scan_ordinary env sp p e ctx anchor = (case apply_scanned_row env p e (ctx_row ctx) of
      Inr p \<Rightarrow> Ok (p, None)
    | Inl (EvTransition (DurableRecoveryEventNotAllowed _)) \<Rightarrow>
        and_then (cold_matches env sp p e ctx anchor) (\<lambda>matched. case matched of
            None \<Rightarrow> Err StoreCorrupt
          | Some action \<Rightarrow> and_then (cold_admit env p e action ctx) (\<lambda>p.
              Ok (p, if event_kind e = EndSeed then None
                else Some \<lparr>root_last_real_seq = anchor, cursor_confirmed = True\<rparr>)))
    | Inl _ \<Rightarrow> Err StoreCorrupt)"

text \<open>The number before this one.\<close>

definition seq_before :: "EventSeq \<Rightarrow> EventSeq option" where
  "seq_before seq = Option.bind (checked_sub seq 1) (\<lambda>v. if v \<le> MAX_SAFE_INTEGER then Some v else None)"

definition start_recovery :: "session_env \<Rightarrow> serde_parts \<Rightarrow> LiveProjection \<Rightarrow> SessionEvent \<Rightarrow> ColdEventContext
    \<Rightarrow> StoreError + (LiveProjection \<times> RecoveryCursor option)" where
  "start_recovery env sp p e ctx = (let anchor = seq_before (event_seq e) in
     and_then (if is_tentative_recovery_start (event_kind e)
       then cold_matches env sp p e ctx anchor else Ok None) (\<lambda>matched. case matched of
         Some action \<Rightarrow> and_then (cold_admit env p e action ctx) (\<lambda>p.
           Ok (p, Some \<lparr>root_last_real_seq = anchor, cursor_confirmed = False\<rparr>))
       | None \<Rightarrow> scan_ordinary env sp p e ctx anchor))"

definition apply_cold_event :: "session_env \<Rightarrow> serde_parts \<Rightarrow> LiveProjection \<Rightarrow> SessionEvent \<Rightarrow> ColdEventContext
    \<Rightarrow> RecoveryCursor option \<Rightarrow> StoreError + (LiveProjection \<times> RecoveryCursor option)" where
  "apply_cold_event env sp p e ctx cursor =
     (if ctx_expected_seq ctx \<noteq> Some (event_seq e) then Err StoreCorrupt
      else if ctx_previous_ends_with_seed ctx \<and> event_kind e = EndSeed then Err StoreCorrupt
      else case cursor of
        Some c \<Rightarrow> continue_recovery env sp p e ctx c
      | None \<Rightarrow> start_recovery env sp p e ctx)"

section \<open>The scan\<close>

text \<open>A line as the codec and the reader hand it over: what it decodes to, whether it has the shape of
  an event (\<open>shallow_event_envelope\<close>), where it ends, and its locator.\<close>

datatype (plugins only: code size) LineDecode =
    LineEvent SessionEvent
  | LineBroken
  | LineUnknownRequired

record JournalLine =
  line_decode :: LineDecode
  line_is_envelope :: bool
  line_end :: u64
  line_row :: JournalRowLocator

record ColdScan =
  scan_projection :: LiveProjection
  scan_valid_bytes :: u64
  scan_logical_events :: u64
  scan_body_lines :: u64
  scan_next_seq :: "EventSeq option"
  scan_last_event_time :: "UnixMillis option"
  scan_ends_with_seed :: bool
  scan_recovery_cursor :: "RecoveryCursor option"
  scan_bad_suffix :: bool

definition cold_scan_start :: "SessionId \<Rightarrow> u64 \<Rightarrow> ColdScan" where
  "cold_scan_start sid header_end = \<lparr>scan_projection = live_for_session DurableStrict sid,
     scan_valid_bytes = header_end, scan_logical_events = 0, scan_body_lines = 0,
     scan_next_seq = event_seq_from_index 0, scan_last_event_time = None, scan_ends_with_seed = False,
     scan_recovery_cursor = None, scan_bad_suffix = False\<rparr>"

definition scan_event :: "session_env \<Rightarrow> serde_parts \<Rightarrow> SessionId \<Rightarrow> ColdScan \<Rightarrow> SessionEvent \<Rightarrow> JournalRowLocator
    \<Rightarrow> u64 \<Rightarrow> StoreError + ColdScan" where
  "scan_event env sp sid c e row ends =
     and_then (apply_cold_event env sp (scan_projection c) e
       \<lparr>ctx_session_id = sid, ctx_expected_seq = scan_next_seq c, ctx_previous_time = scan_last_event_time c,
        ctx_logical_events = scan_logical_events c, ctx_previous_ends_with_seed = scan_ends_with_seed c,
        ctx_row = row\<rparr> (scan_recovery_cursor c)) (\<lambda>(p, cursor).
     and_then (ok_or (checked_add (scan_logical_events c) 1) StoreLimit) (\<lambda>logical.
       Ok (c\<lparr>scan_projection := p, scan_valid_bytes := ends, scan_logical_events := logical,
             scan_next_seq := safe_successor (event_seq e), scan_last_event_time := Some (event_time e),
             scan_ends_with_seed := event_kind e = EndSeed, scan_recovery_cursor := cursor\<rparr>)))"

text \<open>A line that does not decode, or is not the next event, may only be a torn tail: after it no line
  may look like an event.\<close>

definition scan_line :: "session_env \<Rightarrow> serde_parts \<Rightarrow> SessionId \<Rightarrow> ColdScan \<Rightarrow> JournalLine \<Rightarrow> StoreError + ColdScan" where
  "scan_line env sp sid c l =
     and_then (ok_or (checked_add (scan_body_lines c) 1) StoreLimit) (\<lambda>lines.
       if lines > MAX_SCAN_EVENTS then Err StoreLimit
       else let c = c\<lparr>scan_body_lines := lines\<rparr> in
         if scan_bad_suffix c
         then (if line_is_envelope l then Err StoreCorrupt else Ok c)
         else (case line_decode l of
             LineUnknownRequired \<Rightarrow> Err StoreUnsupported
           | LineBroken \<Rightarrow> Ok (c\<lparr>scan_bad_suffix := True\<rparr>)
           | LineEvent e \<Rightarrow>
               if scan_next_seq c \<noteq> Some (event_seq e) then Ok (c\<lparr>scan_bad_suffix := True\<rparr>)
               else scan_event env sp sid c e (line_row l) (line_end l)))"

definition scan_lines :: "session_env \<Rightarrow> serde_parts \<Rightarrow> SessionId \<Rightarrow> u64 \<Rightarrow> JournalLine list \<Rightarrow> StoreError + ColdScan" where
  "scan_lines env sp sid header_end ls = run (scan_line env sp sid) (cold_scan_start sid header_end) ls"

definition prepare_recovery :: "session_env \<Rightarrow> serde_parts \<Rightarrow> SessionId \<Rightarrow> ColdScan \<Rightarrow> UnixMillis
    \<Rightarrow> StoreError + (RecoveryPlan \<times> LiveProjection)" where
  "prepare_recovery env sp sid c recovery_time =
     (if \<not> compaction_recovery_is_consistent (scan_projection c) then Err StoreCorrupt
      else build_recovery_plan env sp (scan_projection c) sid (scan_next_seq c)
        (case scan_recovery_cursor c of
           None \<Rightarrow> Option.bind (scan_next_seq c) seq_before
         | Some cursor \<Rightarrow> root_last_real_seq cursor)
        (scan_last_event_time c) recovery_time (scan_ends_with_seed c) (scan_logical_events c))"

section \<open>The report and the seed\<close>

record RecoveryCallReport =
  report_tool_label :: string
  report_call_fingerprint :: string
  report_code :: string

record RecoveryReport =
  report_truncated_bytes :: u64
  report_repaired_calls :: "RecoveryCallReport list"
  report_closes_step :: bool
  report_closes_turn :: bool
  report_adds_seed_marker :: bool
  report_interrupted_compaction :: "RecoveryCompactionStage option"
  report_orphan_prune_markers :: u64

definition recovery_report :: "session_env \<Rightarrow> u64 \<Rightarrow> ColdScan \<Rightarrow> RecoveryReport" where
  "recovery_report env physical_bytes c =
     (let p = scan_projection c; snapshot = recovery_snapshot env p;
          tools = (case request_header p of None \<Rightarrow> None | Some h \<Rightarrow> header_tools h) in
      \<lparr>report_truncated_bytes = physical_bytes - scan_valid_bytes c,
       report_repaired_calls = map (\<lambda>call. \<lparr>report_tool_label =
           (case tools of None \<Rightarrow> ''<unknown-tool>''
            | Some ts \<Rightarrow> if list_ex (\<lambda>t. tool_name t = recovery_call_name call) ts
                then recovery_call_name call else ''<unknown-tool>''),
           report_call_fingerprint = call_fingerprint env (recovery_call_id call),
           report_code = recovery_code call\<rparr>) (filter (\<lambda>call. \<not> recovery_result_seen call) (snapshot_calls snapshot)),
       report_closes_step = snapshot_step snapshot \<noteq> None,
       report_closes_turn = snapshot_turn snapshot \<noteq> None,
       report_adds_seed_marker = \<not> scan_ends_with_seed c,
       report_interrupted_compaction = interrupted_compaction_stage p,
       report_orphan_prune_markers = orphan_prune_markers p\<rparr>)"

definition needs_warning :: "RecoveryReport \<Rightarrow> bool" where
  "needs_warning r \<longleftrightarrow> report_truncated_bytes r \<noteq> 0 \<or> report_repaired_calls r \<noteq> [] \<or> report_closes_step r
     \<or> report_closes_turn r \<or> report_interrupted_compaction r \<noteq> None \<or> report_orphan_prune_markers r \<noteq> 0"

record RecoveredSeed =
  seed_projection :: LiveProjection
  seed_next_seq :: EventSeq
  seed_first_live_seq :: u64
  seed_logical_event_count :: u64
  seed_accepted_journal_bytes :: u64

definition recovered_seed :: "LiveProjection \<Rightarrow> EventSeq option \<Rightarrow> u64 \<Rightarrow> u64 \<Rightarrow> u64 \<Rightarrow> StoreError + RecoveredSeed" where
  "recovered_seed p next_seq first_live_seq logical bytes =
     and_then (ok_or next_seq StoreLimit) (\<lambda>n.
       if logical > MAX_SCAN_EVENTS \<or> bytes > MAX_DURABLE_JOURNAL_BYTES then Err StoreLimit
       else if event_seq_new logical \<noteq> Ok n \<or> first_live_seq > logical then Err StoreCorrupt
       else Ok \<lparr>seed_projection = p, seed_next_seq = n, seed_first_live_seq = first_live_seq,
                seed_logical_event_count = logical, seed_accepted_journal_bytes = bytes\<rparr>)"

end
