(* ===== verification/Recovery_State.thy ===== *)
theory Recovery_State
  imports Recovery Durable_Steps Live_Journal Replay_Bracket
begin

text \<open>
  What the projection of a scanned journal looks like: the facts that every accepted row keeps and on
  which a repair can rely. The attempt belongs to the open step, the calls of the step were declared
  and got their intents from earlier rows, a compaction bracket is only open while nothing waits, and
  every counter is bounded by the number of rows.
\<close>

section \<open>The attempt belongs to the open step\<close>

definition attempt_step :: "AttemptProjection \<Rightarrow> (TurnId \<times> StepId) option" where
  "attempt_step a = (if settled_step (attempt_state a) = None then unsettled_step (attempt_state a)
     else settled_step (attempt_state a))"

definition step_place :: "'a Projection_scheme \<Rightarrow> (TurnId \<times> StepId) option" where
  "step_place p = (case place p of Some (t, True, s) \<Rightarrow> Some (t, s) | _ \<Rightarrow> None)"

definition attempt_fits :: "LiveProjection \<Rightarrow> bool" where
  "attempt_fits p \<longleftrightarrow> attempt_step (attempt p) = step_place p"

text \<open>Where an event leads.\<close>

definition step_after :: "EventKind \<Rightarrow> (TurnId \<times> StepId) option \<Rightarrow> (TurnId \<times> StepId) option" where
  "step_after k x = (case k of StepStart t s \<Rightarrow> Some (t, s) | StepEnd _ _ \<Rightarrow> None | _ \<Rightarrow> x)"

lemma attempt_step_simps [simp]:
  "attempt_step (a\<lparr>attempt_state := AttemptReady t s\<rparr>) = Some (t, s)"
  "attempt_step (a\<lparr>attempt_state := AttemptRetryScheduled t s\<rparr>) = Some (t, s)"
  "attempt_step (a\<lparr>attempt_state := AttemptCommitted t s\<rparr>) = Some (t, s)"
  "attempt_step (a\<lparr>attempt_state := AttemptOutside\<rparr>) = None"
  "attempt_step (reset_overflow a) = attempt_step a"
  "attempt_step (a\<lparr>attempt_usage := u\<rparr>) = attempt_step a"
  by (simp_all add: attempt_step_def reset_overflow_def)

lemma attempt_step_outside: "attempt_step a = None \<longleftrightarrow> attempt_state a = AttemptOutside"
  by (cases "attempt_state a") (simp_all add: attempt_step_def)

lemma step_place_boundary:
  "step_place p = (case boundary p of BoundaryStep s \<Rightarrow> Some (step_turn s, step_id s) | _ \<Rightarrow> None)"
  by (simp add: step_place_def place_def split: Boundary.splits)

lemma step_place_same: "place q = place p \<Longrightarrow> step_place q = step_place p"
  by (simp add: step_place_def)

lemma moves_step_place: "moves p (move_of k) q \<Longrightarrow> step_place q = step_after k (step_place p)"
  by (cases k) (auto simp: same_place_def step_after_def step_place_def)

text \<open>Each operation of the attempt stays at its step, or moves with the event.\<close>

lemma terminal_owner_step:
  "terminal_owner a = Some (t, s, r, f) \<Longrightarrow> attempt_step a = Some (t, s)"
  by (auto simp: terminal_owner_def attempt_step_def split: AttemptState.splits)

lemma attempt_ops_step:
  "attempt_step_start a t s = Inr b \<Longrightarrow> attempt_step b = Some (t, s)"
  "attempt_step_end a t s d = Inr b \<Longrightarrow> attempt_step b = None"
  "interrupt_for_recovery env a t s x = Inr b \<Longrightarrow> attempt_step b = None"
  "attempt_retry env a e = Inr b \<Longrightarrow> attempt_step b = attempt_step a"
  "attempt_retry_started a t s = Inr b \<Longrightarrow> attempt_step b = attempt_step a"
  "context_overflow a t s g st = Inr b \<Longrightarrow> attempt_step b = attempt_step a"
  "context_overflow_start a t s = Inr b \<Longrightarrow> attempt_step b = attempt_step a"
  by (auto simp: attempt_step_start_def attempt_step_end_def interrupt_for_recovery_def attempt_retry_def
      attempt_retry_started_def context_overflow_def context_overflow_start_def attempt_boundary_def result_simps
      require_ready_def attempt_step_def reset_overflow_def
      split: if_splits option.splits EventKind.splits prod.splits dest!: terminal_owner_step)

lemma attempt_assistant_step:
  assumes "attempt_assistant env a e = Inr (b, f)"
  shows "attempt_step b = attempt_step a"
proof -
  from assms obtain turn step m usage s projection where
    s: "terminal_attempt env a (event_source_list e) = Inr s"
    and checked: "check_committed_message env s turn step m usage = Inr ()"
    and b: "b = a\<lparr>attempt_state := AttemptCommitted turn step, attempt_usage := projection\<rparr>"
    by (auto simp: attempt_assistant_def result_simps attempt_boundary_def split: EventKind.splits)
  from checked have "sea_turn s = turn" "sea_step s = step"
    by (auto simp: check_committed_message_def attempt_boundary_def split: if_splits)
  moreover from s have "attempt_step a = Some (sea_turn s, sea_step s)"
    by (auto simp: terminal_attempt_def attempt_step_def attempt_boundary_def seal_finished_def result_simps
        split: AttemptState.splits if_splits)
  ultimately show ?thesis by (simp add: b attempt_step_def)
qed

lemma commit_open_step:
  "commit_open a k = Some (s, u) \<Longrightarrow> settled_step s = None \<and> unsettled_step s = Some (att_turn a, att_step a)"
  by (cases "chunk_operation k")
    (auto simp: commit_open_def commit_operation_def finish_attempt_def split: option.splits)

lemma attempt_chunk_step:
  assumes "prepare_attempt_chunk env a e header generation = Inr prepared" and "commit_chunk a prepared = Some b"
  shows "attempt_step b = attempt_step a"
  using assms
proof (cases rule: accepted_chunk_cases)
  case (first turn step chunk n route k s u)
  with commit_open_step [OF first(7)] show ?thesis by (simp add: attempt_step_def chunk_outcome_def open_attempt_def)
next
  case (later o' chunk k s u)
  with commit_open_step [OF later(4)] show ?thesis by (simp add: attempt_step_def chunk_outcome_def)
qed

text \<open>The attempt's part of a scanned event.\<close>

lemma attempt_transition_step:
  assumes "apply_attempt_transition env p e ColdScan None = Inr q" and "policy p = DurableStrict"
  shows "attempt_step (attempt q) = step_after (event_kind e) (attempt_step (attempt p))"
proof -
  have overflow: "attempt_step (attempt q) = attempt_step (attempt p)"
    if "apply_context_overflow_transition p e = Inr q"
    using that by (auto simp: apply_context_overflow_transition_def set_attempt_Inr attempt_boundary_def
        dest: attempt_ops_step split: Boundary.splits)
  have prune: "step_after (event_kind e) x = x" if "is_prune (event_kind e) \<or> is_overflow_start (event_kind e)" for x
    using that by (cases "event_kind e") (simp_all add: step_after_def)
  have start: "attempt_step (attempt q) = attempt_step (attempt p)"
    if "set_attempt p (case boundary p of BoundaryStep s \<Rightarrow> context_overflow_start (attempt p) (step_turn s) (step_id s)
      | _ \<Rightarrow> attempt_boundary ety detail) = Inr q" for ety detail
    using that by (auto simp: set_attempt_Inr attempt_boundary_def dest: attempt_ops_step split: Boundary.splits)
  have event: "attempt_step (attempt q) = step_after (event_kind e) (attempt_step (attempt p))"
    if "apply_attempt_event env p e ColdScan None = Inr q"
    using that by (cases "event_kind e")
      (auto simp: apply_attempt_event_def step_after_def commit_assistant_def set_attempt_Inr and_then_Inr map_err_Inr
        attempt_boundary_def dest: attempt_ops_step attempt_assistant_step split: if_splits)
  show ?thesis using assms
    by (auto simp: apply_attempt_transition_def prune dest: overflow start event split: if_splits)
qed

section \<open>What one accepted row does\<close>

text \<open>A row that was scanned, or admitted by recovery, moved the bracket and the turn state.\<close>

definition stepped :: "session_env \<Rightarrow> SessionEvent \<Rightarrow> ValidationAdmission \<Rightarrow> LiveProjection \<Rightarrow> LiveProjection \<Rightarrow> bool" where
  "stepped env e a p q \<longleftrightarrow> event_validate env (event_kind e) = Ok ()
     \<and> next_compaction_state env p e a = Ok (compaction q)
     \<and> (\<exists>m m'. same_turns p m \<and> apply_transition m e a = Ok m' \<and> same_turns m' q)
     \<and> attempt_step (attempt q) = step_after (event_kind e) (attempt_step (attempt p))"

lemma same_turns_upds [simp]:
  "same_turns p (q\<lparr>attempt := x\<rparr>) = same_turns p q" "same_turns p (q\<lparr>token_anchor := y\<rparr>) = same_turns p q"
  "same_turns p (q\<lparr>compaction := c\<rparr>) = same_turns p q" "same_turns (q\<lparr>attempt := x\<rparr>) p = same_turns q p"
  by (simp_all add: same_turns_def)

lemma same_turns_refl [simp]: "same_turns p p"
  by (simp add: same_turns_def)

lemma same_turns_trans: "same_turns p q \<Longrightarrow> same_turns q r \<Longrightarrow> same_turns p r"
  by (simp add: same_turns_def)

lemma attempt_transition_turns:
  "apply_attempt_transition env p e a d = Inr q \<Longrightarrow> same_turns p q"
proof -
  have set: "set_attempt p r = Inr q \<Longrightarrow> same_turns p q" for r by (auto simp: set_attempt_Inr)
  have "apply_context_overflow_transition p e = Inr q \<Longrightarrow> same_turns p q"
    by (simp add: apply_context_overflow_transition_def set)
  moreover have "apply_attempt_event env p e a d = Inr q \<Longrightarrow> same_turns p q"
    by (cases "event_kind e")
      (auto simp: apply_attempt_event_def commit_assistant_def and_then_Inr dest: set split: if_splits prod.splits)
  ultimately show "apply_attempt_transition env p e a d = Inr q \<Longrightarrow> same_turns p q"
    by (auto simp: apply_attempt_transition_def dest: set split: if_splits)
qed

lemma goal_turns: "apply_goal_transition p e = Inr q \<Longrightarrow> same_turns p q \<and> compaction q = compaction p"
  using apply_goal_transition_only [of p e q] by (auto simp: same_turns_def)

lemma chunk_transition: "event_kind e = AssistantChunk t s c \<Longrightarrow> require_open_step p x t s = Inr () \<Longrightarrow>
    apply_transition p e a = Ok p"
  by (simp add: apply_transition_def apply_kind_def capture_first_prompt_def require_open_step_def split: if_splits)

lemma scanned_stepped:
  assumes scan: "apply_scanned_row env p e row = Inr q" and strict: "policy p = DurableStrict"
  shows "stepped env e ColdScan p q"
proof (cases "is_chunk (event_kind e)")
  case True
  then obtain t s c where k: "event_kind e = AssistantChunk t s c" by (cases "event_kind e") simp_all
  with scan obtain c' p1 prepared a where opened: "require_open_step p (event_type_static (event_kind e)) t s = Inr ()"
    and c': "next_compaction_state env p e ColdScan = Inr c'"
    and surface: "apply_surface env p e (BindDurable row) = Inr p1"
    and prepared: "prepare_attempt_chunk env (attempt p1) e (request_header p1)
        (replacement_generation (compaction p1)) = Inr prepared"
    and a: "commit_chunk (attempt p1) prepared = Some a" and q: "q = p1\<lparr>attempt := a, compaction := c'\<rparr>"
    by (auto simp: apply_scanned_row_def scan_chunk_row_def commit_prepared_chunk_def result_simps)
  from attempt_chunk_step [OF prepared a] attempt_kept(3) [OF surface] k
  have "attempt_step (attempt q) = step_after (event_kind e) (attempt_step (attempt p))"
    by (simp add: q step_after_def)
  with k c' apply_surface_same(1) [OF surface] chunk_transition [OF k opened, of ColdScan] show ?thesis
    by (auto simp: stepped_def q intro!: exI [of _ p])
next
  case False
  with scan obtain c p1 p2 p3 where valid: "event_validate env (event_kind e) = Inr ()"
    and c: "next_compaction_state env p e ColdScan = Inr c" and goal: "apply_goal_transition p e = Inr p1"
    and mid: "scan_middle env p1 e = Inr p2" and surface: "apply_surface env p2 e (BindDurable row) = Inr p3"
    and q: "q = p3\<lparr>compaction := c\<rparr>"
    by (auto simp: scanned_row_other result_simps)
  have strict1: "policy p1 = DurableStrict" using goal_nodes [OF goal] strict by simp
  have step: "(\<exists>m m'. same_turns p1 m \<and> apply_transition m e ColdScan = Ok m' \<and> same_turns m' p2)
    \<and> attempt_step (attempt p2) = step_after (event_kind e) (attempt_step (attempt p1))"
  proof (cases "is_retry_started (event_kind e)")
    case True
    with mid obtain m where m: "apply_transition p1 e ColdScan = Inr m"
      and a: "apply_attempt_transition env m e ColdScan None = Inr p2"
      by (auto simp: scan_middle_def and_then_Inr map_err_Inr)
    from transition_nodes(3) [OF m] strict1 have "policy m = DurableStrict" by simp
    from attempt_transition_step [OF a this] attempt_kept(2) [OF m] attempt_transition_turns [OF a] m show ?thesis
      by (intro conjI exI [of _ p1] exI [of _ m]) simp_all
  next
    case False
    with mid obtain m where a: "apply_attempt_transition env p1 e ColdScan None = Inr m"
      and m: "apply_transition m e ColdScan = Inr p2"
      by (auto simp: scan_middle_def and_then_Inr map_err_Inr)
    from attempt_transition_step [OF a strict1] attempt_kept(2) [OF m] attempt_transition_turns [OF a] m show ?thesis
      by (intro conjI exI [of _ m] exI [of _ p2]) simp_all
  qed
  then show ?thesis
    using valid c goal_turns [OF goal] attempt_kept(1) [OF goal] attempt_kept(3) [OF surface] apply_surface_same(1) [OF surface]
    by (auto simp: stepped_def q intro: same_turns_trans)
qed

lemma admitted_stepped:
  assumes "apply_recovery_admission env p e action row = Inr q"
  shows "stepped env e HistoricalScan p q"
proof -
  from assms obtain p1 c p2 p3 where valid: "event_validate env (event_kind e) = Inr ()"
    and admit: "admit_recovery_action env p action (event_kind e) = Inr p1"
    and c: "next_compaction_state env p1 e HistoricalScan = Inr c"
    and turn: "apply_transition p1 e HistoricalScan = Inr p2"
    and surface: "apply_surface env p2 e (case row of None \<Rightarrow> BindPendingDurable | Some r \<Rightarrow> BindDurable r) = Inr p3"
    and q: "q = p3\<lparr>compaction := c\<rparr>"
    by (auto simp: apply_recovery_admission_def result_simps)
  from admit have p1: "p1 = upd (attempt p1) p"
    and step: "attempt_step (attempt p1) = step_after (event_kind e) (attempt_step (attempt p))"
    by (auto simp: admit_recovery_action_def recovery_mismatch_def set_attempt_Inr step_after_def
        dest: attempt_ops_step split: RecoveryAction.splits EventKind.splits TurnEndReason.splits if_splits option.splits)
  from c have "next_compaction_state env p e HistoricalScan = Inr c"
    by (subst (asm) p1) (simp add: frame)
  moreover have "same_turns p p1" by (subst p1) simp
  ultimately show ?thesis
    using valid turn step attempt_kept(2) [OF turn] attempt_kept(3) [OF surface] apply_surface_same(1) [OF surface]
    by (auto simp: stepped_def q)
qed

section \<open>Declared calls\<close>

text \<open>A repair can name the call, cite its intent and decide its approval.\<close>

definition call_known :: "nat \<Rightarrow> DurableDeclaredCall \<Rightarrow> bool" where
  "call_known n c \<longleftrightarrow> declared_id c \<noteq> [] \<and> length (declared_id c) \<le> 1024
     \<and> (\<forall>i. declared_intent_seq c = Some i \<longrightarrow> unat i < n)
     \<and> (\<forall>i. waiting_for (declared_approval c) = Some i \<longrightarrow> validate_approval_id i = Ok ())"

definition calls_known :: "nat \<Rightarrow> 'a Projection_scheme \<Rightarrow> bool" where
  "calls_known n p \<longleftrightarrow> (case boundary p of BoundaryStep s \<Rightarrow> \<forall>c \<in> set (step_declared_calls s). call_known n c | _ \<Rightarrow> True)"

lemma calls_known_same_turns: "same_turns p q \<Longrightarrow> calls_known n q = calls_known n p"
  by (simp add: calls_known_def same_turns_def)

lemma call_known_mono: "call_known n c \<Longrightarrow> n \<le> m \<Longrightarrow> call_known m c"
  by (force simp: call_known_def)

lemma calls_known_mono: "calls_known n p \<Longrightarrow> n \<le> m \<Longrightarrow> calls_known m p"
  by (auto simp: calls_known_def intro: call_known_mono split: Boundary.splits)

lemma update_first_all:
  "\<forall>x \<in> set xs. Q x \<Longrightarrow> (\<And>x. P x \<Longrightarrow> Q x \<Longrightarrow> Q (f x)) \<Longrightarrow> \<forall>x \<in> set (update_first P f xs). Q x"
  using update_first_set [of P f xs] by fastforce

lemma declared_known:
  "validate_durable_call_identity i name = Inr u \<Longrightarrow> declared_id c = i \<Longrightarrow> declared_intent_seq c = None \<Longrightarrow>
    declared_approval c = None \<Longrightarrow> call_known n c"
  by (auto simp: validate_durable_call_identity_def call_known_def split: if_splits)

lemma register_declarations_known:
  "register_declarations m i bs calls = Inr calls' \<Longrightarrow> list_all (call_known n) calls \<Longrightarrow>
    list_all (call_known n) calls'"
proof (induction m i bs calls rule: register_declarations.induct)
  case (2 m index b bs declared)
  show ?case
  proof (cases "block_kind b")
    case (ToolCallBlock i name arguments)
    with 2 show ?thesis
      by (fastforce simp: and_then_Inr split: if_splits intro: declared_known)
  qed (use 2 in simp_all)
qed simp

lemma call_ops_known:
  assumes known: "calls_known n p"
  shows "register_durable_declarations p m = Inr q \<Longrightarrow> calls_known n q"
    and "resolve_durable_call p e m err a = Inr q \<Longrightarrow> calls_known n q"
    and "remove_pending_call p t s i b = Inr q \<Longrightarrow> calls_known n q"
    and "unat seq < n \<Longrightarrow> promote_durable_call p seq i name args = Inr q \<Longrightarrow> calls_known n q"
    and "validate_approval_id (asked_id x) = Ok () \<Longrightarrow> ask_durable_approval p x = Inr q \<Longrightarrow> calls_known n q"
    and "decide_durable_approval p d = Inr q \<Longrightarrow> calls_known n q"
    and "calls_known n (push_pending_call p i)"
proof -
  have upd: "calls_known n (p\<lparr>boundary := BoundaryStep (s\<lparr>step_declared_calls := update_first P f (step_declared_calls s)\<rparr>)\<rparr>)"
    if "boundary p = BoundaryStep s" "\<And>c. P c \<Longrightarrow> call_known n c \<Longrightarrow> call_known n (f c)" for s P f
    using known that by (auto simp: calls_known_def intro: update_first_all [THEN bspec, rotated -1])
  show "register_durable_declarations p m = Inr q \<Longrightarrow> calls_known n q"
    using known register_declarations_known [of m 0 "message_content m" _ _ n]
    by (auto simp: register_durable_declarations_def calls_known_def and_then_Inr list_all_iff
        split: if_splits Boundary.splits)
  show "resolve_durable_call p e m err a = Inr q \<Longrightarrow> calls_known n q"
    by (erule resolve_durable_call_cases) (use known in \<open>auto intro!: upd simp: call_known_def\<close>)
  show "remove_pending_call p t s i b = Inr q \<Longrightarrow> calls_known n q"
    by (erule remove_pending_call_cases) (use known in \<open>simp_all add: calls_known_def\<close>)
  show "unat seq < n \<Longrightarrow> promote_durable_call p seq i name args = Inr q \<Longrightarrow> calls_known n q"
    by (erule promote_durable_call_cases) (use known in \<open>auto intro!: upd simp: call_known_def\<close>)
  show "validate_approval_id (asked_id x) = Ok () \<Longrightarrow> ask_durable_approval p x = Inr q \<Longrightarrow> calls_known n q"
    using known by (auto simp: ask_durable_approval_def Let_def intro!: upd split: if_splits list.splits option.splits Boundary.splits)
      (simp_all add: call_known_def)
  show "decide_durable_approval p d = Inr q \<Longrightarrow> calls_known n q"
    using known by (auto simp: decide_durable_approval_def Let_def intro!: upd split: if_splits list.splits option.splits Boundary.splits)
      (simp_all add: call_known_def)
  show "calls_known n (push_pending_call p i)"
    using known by (auto simp: push_pending_call_def calls_known_def split: Boundary.splits)
qed

lemma turn_ops_known:
  "apply_turn_start p t = Inr q \<Longrightarrow> calls_known n q" "apply_turn_end p t = Inr q \<Longrightarrow> calls_known n q"
  "apply_step_start p t s = Inr q \<Longrightarrow> calls_known n q" "apply_step_end p t s = Inr q \<Longrightarrow> calls_known n q"
  by (auto simp: turn_ops result_simps calls_known_def split: option.splits if_splits list.splits Boundary.splits)

lemma retry_ops_known:
  "calls_known n p \<Longrightarrow> apply_retry p r = Inr q \<Longrightarrow> calls_known n q"
  "calls_known n p \<Longrightarrow> apply_retry_started p s = Inr q \<Longrightarrow> calls_known n q"
  by (auto simp: retry_ops result_simps calls_known_def Let_def split: option.splits if_splits)

lemma event_ops_known:
  assumes "calls_known n p"
  shows "apply_assistant_message p t s m = Inr q \<Longrightarrow> calls_known n q"
    and "unat seq < n \<Longrightarrow> apply_tool_call p seq t s i name args = Inr q \<Longrightarrow> calls_known n q"
    and "apply_tool_result p e t s m err a = Inr q \<Longrightarrow> calls_known n q"
    and "asked_validate x = Ok () \<Longrightarrow> apply_approval_asked p x = Inr q \<Longrightarrow> calls_known n q"
    and "apply_approval_decided p d = Inr q \<Longrightarrow> calls_known n q"
proof -
  have upd: "calls_known n (r\<lparr>owned_approval_ids := o'\<rparr>) = calls_known n r"
    "calls_known n (r\<lparr>pending_approvals := w\<rparr>) = calls_known n r" for r :: "'a Projection_scheme" and o' w
    by (simp_all add: calls_known_def)
  note ops = call_ops_known [OF assms] call_ops_known
  show "apply_assistant_message p t s m = Inr q \<Longrightarrow> calls_known n q"
    by (auto simp: apply_assistant_message_def and_then_Inr dest: ops(1))
  show "unat seq < n \<Longrightarrow> apply_tool_call p seq t s i name args = Inr q \<Longrightarrow> calls_known n q"
    by (auto simp: apply_tool_call_def and_then_Inr intro: call_ops_known(7) dest: ops(4))
  show "apply_tool_result p e t s m err a = Inr q \<Longrightarrow> calls_known n q"
    using assms by (auto simp: apply_tool_result_def and_then_Inr dest: call_ops_known(2) call_ops_known(3) split: if_splits)
  show "asked_validate x = Ok () \<Longrightarrow> apply_approval_asked p x = Inr q \<Longrightarrow> calls_known n q"
    by (auto simp: apply_approval_asked_def asked_validate_def and_then_Inr upd dest: ops(5) split: if_splits)
  show "apply_approval_decided p d = Inr q \<Longrightarrow> calls_known n q"
    by (auto simp: apply_approval_decided_def and_then_Inr upd dest: ops(6) split: if_splits)
qed

lemma apply_kind_known:
  assumes known: "calls_known n p" and valid: "event_validate env (event_kind e) = Ok ()"
    and seq: "unat (event_seq e) = n" and kind: "apply_kind p e a = Inr q"
  shows "calls_known (Suc n) q"
proof -
  have "calls_known (Suc n) p" using known by (rule calls_known_mono) simp
  moreover have "calls_known m (p\<lparr>request_header := h, request_header_seq := w\<rparr>) = calls_known m p"
    "calls_known m (p\<lparr>request_context := g, request_context_seq := w\<rparr>) = calls_known m p"
    "calls_known m (p\<lparr>standing_todos := t\<rparr>) = calls_known m p"
    "calls_known m (p\<lparr>plan_mode_active := b\<rparr>) = calls_known m p"
    "calls_known m (p\<lparr>permission_preset := x\<rparr>) = calls_known m p"
    "calls_known m (p\<lparr>session_title := y\<rparr>) = calls_known m p"
    "calls_known m (p\<lparr>session_title_llm_requested := b\<rparr>) = calls_known m p" for h w t b x y g m
    by (simp_all add: calls_known_def)
  ultimately show ?thesis
    using valid seq kind
    by (cases "event_kind e")
      (auto simp: apply_kind_def result_simps dest: turn_ops_known [where n = "Suc n"] retry_ops_known event_ops_known)
qed

section \<open>Compaction brackets\<close>

text \<open>While a bracket is open nothing waits for an answer.\<close>

definition bracket_quiet :: "'a Projection_scheme \<Rightarrow> bool" where
  "bracket_quiet p \<longleftrightarrow> open_compaction (compaction p) \<noteq> None \<longrightarrow>
     pending_approvals p = [] \<and> \<not> has_pending_durable_call p"

lemma waiting_same_turns: "same_turns p q \<Longrightarrow> has_pending_durable_call q = has_pending_durable_call p
    \<and> pending_approvals q = pending_approvals p"
  by (simp add: has_pending_durable_call_def same_turns_def)

fun is_bracket_kind :: "EventKind \<Rightarrow> bool" where
  "is_bracket_kind (CompactionStart _) = True"
| "is_bracket_kind (CompactionSummary _) = True"
| "is_bracket_kind (UserMessage _) = True"
| "is_bracket_kind (CompactionEnd _) = True"
| "is_bracket_kind _ = False"

lemma bracket_kind_transition: "is_bracket_kind (event_kind e) \<Longrightarrow> apply_transition p e a = Inr q \<Longrightarrow> same_turns p q"
  by (erule apply_transition_cases, cases "event_kind e") (simp_all add: apply_kind_def)

lemma open_after_scan:
  assumes "next_compaction_state env p e ColdScan = Inr c" and strict: "policy p = DurableStrict"
    and ordinary: "\<not> is_recovery_boundary (event_kind e)" "\<not> is_recovery_result (event_kind e)"
    and "open_compaction c \<noteq> None"
  shows "is_bracket_kind (event_kind e) \<and>
    (open_compaction (compaction p) = None \<longrightarrow> pending_approvals p = [] \<and> \<not> has_pending_durable_call p)"
proof -
  have "advance_compaction env p e ColdScan = Inr c"
    by (rule advance_compaction_strict [OF assms(1) strict _ ordinary]) simp
  then obtain c0 b c1 where adj: "apply_prune_adjacency (compaction p) e = Inr (c0, b)"
    and out: "(case open_compaction c0 of
         Some opened \<Rightarrow> and_then (advance_open_compaction env p e opened ColdScan) (\<lambda>next.
           Inr (c0\<lparr>open_compaction := next\<rparr>))
       | None \<Rightarrow> outside_compaction env p e ColdScan b c0) = Inr c1"
    and c: "open_compaction c = open_compaction c1"
    by (auto simp: advance_compaction_def advance_surface_generation_def and_then_Inr split: if_splits)
  note same = prune_adjacency_open [OF adj]
  show ?thesis
  proof (cases "open_compaction (compaction p)")
    case (Some opened)
    with same out obtain o' where "advance_open_compaction env p e opened ColdScan = Inr o'"
      by (auto simp: and_then_Inr)
    then have "is_bracket_kind (event_kind e)" by (cases rule: advance_open_cases) simp_all
    with Some show ?thesis by simp
  next
    case None
    with same have none: "open_compaction c0 = None" by simp
    with out have outside: "outside_compaction env p e ColdScan b c0 = Inr c1" by simp
    from outside_compaction_open [OF this none] c assms(5) obtain s where k: "event_kind e = CompactionStart s" by auto
    with outside obtain opened where "validate_compaction_start env p (event_seq e) s ColdScan = Inr opened"
      by (auto simp: outside_compaction_def and_then_Inr)
    then obtain r where "start_recipe env p (event_seq e) s ColdScan = Inr r"
      by (auto simp: validate_compaction_start_def and_then_Inr split: if_splits)
    then obtain d recipe where "validate_compaction_dispatch env p (event_seq e) d = Inr recipe"
      by (rule start_recipe_strict) simp_all
    then have "pending_approvals p = [] \<and> \<not> has_pending_durable_call p"
      by (auto simp: validate_compaction_dispatch_def and_then_Inr require_dispatch_def split: if_splits)
    with k show ?thesis by simp
  qed
qed

fun is_repair_kind :: "EventKind \<Rightarrow> bool" where
  "is_repair_kind (ApprovalDecided _) = True"
| "is_repair_kind (ToolResult _ _ _ _ _) = True"
| "is_repair_kind (StepEnd _ _) = True"
| "is_repair_kind (TurnEnd _ _) = True"
| "is_repair_kind EndSeed = True"
| "is_repair_kind _ = False"

lemma admitted_kind: "apply_recovery_admission env p e action row = Inr q \<Longrightarrow> is_repair_kind (event_kind e)"
  by (cases action; cases "event_kind e")
    (simp_all add: apply_recovery_admission_def admit_recovery_action_def recovery_mismatch_def and_then_Inr)

text \<open>A repair row answers what waits, so it cannot touch a quiet bracket's turn state.\<close>

lemma repair_stays_quiet:
  assumes quiet: "pending_approvals p = []" "\<not> has_pending_durable_call p" and strict: "policy p = DurableStrict"
    and kind: "is_repair_kind (event_kind e)" and step: "apply_transition p e a = Inr q"
  shows "pending_approvals q = [] \<and> \<not> has_pending_durable_call q"
proof -
  from step obtain q0 where q0: "apply_kind p e a = Inr q0" and same: "same_turns q0 q"
    by (rule apply_transition_cases)
  have "pending_approvals q0 = [] \<and> \<not> has_pending_durable_call q0"
  proof (cases "event_kind e")
    case (ToolResult t s m err meta)
    with q0 have result: "apply_tool_result p e t s m err a = Inr q0" by (simp add: apply_kind_def)
    show ?thesis
    proof (cases "is_replace (event_surface_op e)")
      case True
      with result quiet show ?thesis by (auto simp: apply_tool_result_def and_then_Inr)
    next
      case False
      with result obtain p1 where "resolve_durable_call p e m err a = Inr p1"
        by (auto simp: apply_tool_result_def and_then_Inr)
      then show ?thesis
      proof (cases rule: resolve_durable_call_cases)
        case (2 i s' c)
        then have "c \<in> set (step_declared_calls s')" by (auto simp: find_Some_iff)
        with 2 quiet(2) show ?thesis by (auto simp: has_pending_durable_call_def list_ex_iff)
      qed (use strict in simp)
    qed
  next
    case (ApprovalDecided d)
    with q0 quiet(1) show ?thesis by (auto simp: apply_kind_def apply_approval_decided_def and_then_Inr)
  next
    case (StepEnd t s)
    with q0 show ?thesis
      by (auto simp: apply_kind_def apply_step_end_def has_pending_durable_call_def result_simps split: list.splits option.splits if_splits)
  next
    case (TurnEnd t r)
    with q0 show ?thesis
      by (auto simp: apply_kind_def apply_turn_end_def has_pending_durable_call_def result_simps split: list.splits option.splits if_splits)
  qed (use q0 kind quiet in \<open>simp_all add: apply_kind_def\<close>)
  with waiting_same_turns [OF same] show ?thesis by simp
qed

lemma bracket_quiet_scan:
  assumes "stepped env e ColdScan p q" and quiet: "bracket_quiet p" and strict: "policy p = DurableStrict"
  shows "bracket_quiet q"
  unfolding bracket_quiet_def
proof
  assume opened: "open_compaction (compaction q) \<noteq> None"
  from assms(1) obtain m m' where c: "next_compaction_state env p e ColdScan = Ok (compaction q)"
    and pm: "same_turns p m" and step: "apply_transition m e ColdScan = Ok m'" and mq: "same_turns m' q"
    by (auto simp: stepped_def)
  have "policy m = DurableStrict" using pm strict by (simp add: same_turns_def)
  with step have ordinary: "\<not> is_recovery_boundary (event_kind e)" "\<not> is_recovery_result (event_kind e)"
    by (auto simp: apply_transition_def is_unprivileged_durable_def split: if_splits)
  note after = open_after_scan [OF c strict ordinary opened]
  then have "same_turns m m'" using bracket_kind_transition [OF _ step] by blast
  with pm mq have "same_turns p q" by (blast intro: same_turns_trans)
  from waiting_same_turns [OF this] after quiet show "pending_approvals q = [] \<and> \<not> has_pending_durable_call q"
    by (auto simp: bracket_quiet_def)
qed

lemma historical_bracket:
  assumes "next_compaction_state env p e HistoricalScan = Ok c"
  shows "open_compaction c = (if event_kind e = EndSeed then None else open_compaction (compaction p))"
  using assms by (auto simp: next_compaction_state_def is_unprivileged_durable_def advance_surface_generation_def
      compaction_closed_def and_then_Inr Let_def split: if_splits)

lemma bracket_quiet_admitted:
  assumes "stepped env e HistoricalScan p q" and kind: "is_repair_kind (event_kind e)" and quiet: "bracket_quiet p"
    and strict: "policy p = DurableStrict"
  shows "bracket_quiet q"
  unfolding bracket_quiet_def
proof
  assume "open_compaction (compaction q) \<noteq> None"
  moreover from assms(1) obtain m m' where c: "next_compaction_state env p e HistoricalScan = Ok (compaction q)"
    and pm: "same_turns p m" and step: "apply_transition m e HistoricalScan = Ok m'" and mq: "same_turns m' q"
    by (auto simp: stepped_def)
  ultimately have "open_compaction (compaction p) \<noteq> None" using historical_bracket [OF c] by (simp split: if_splits)
  with quiet have "pending_approvals p = []" "\<not> has_pending_durable_call p" by (auto simp: bracket_quiet_def)
  with waiting_same_turns [OF pm] have "pending_approvals m = []" "\<not> has_pending_durable_call m" by simp_all
  from repair_stays_quiet [OF this _ kind step] pm strict waiting_same_turns [OF mq]
  show "pending_approvals q = [] \<and> \<not> has_pending_durable_call q" by (simp add: same_turns_def)
qed

section \<open>Counters\<close>

lemma advance_generation_Suc: "advance_generation g = Inr h \<Longrightarrow> unat h = Suc (unat g)"
  by (auto simp: advance_generation_def result_simps dest: safe_successor_Some)

lemma next_surface_generation:
  assumes "next_compaction_state env p e a = Inr c"
  shows "unat (surface_generation c) \<le> Suc (unat (surface_generation (compaction p)))"
proof -
  have surface: "unat (surface_generation c') \<le> Suc (unat (surface_generation c0))"
    if "advance_surface_generation c0 e = Inr c'" for c0 c'
    using that by (auto simp: advance_surface_generation_def and_then_Inr dest: advance_generation_Suc split: if_splits)
  have adjacency: "surface_generation c' = surface_generation c0" if "apply_prune_adjacency c0 e = Inr (c', b)" for c0 c' b
    using that by (auto simp: apply_prune_adjacency_def Let_def and_then_Inr split: option.splits SurfaceOp.splits if_splits)
  have outside: "surface_generation c' = surface_generation c0" if "outside_compaction env p e a b c0 = Inr c'" for c0 c' b
    using that by (cases "event_kind e") (auto simp: outside_compaction_def and_then_Inr split: if_splits)
  have "unat (surface_generation c) \<le> Suc (unat (surface_generation (compaction p)))" if "advance_compaction env p e a = Inr c"
    using that by (auto simp: advance_compaction_def and_then_Inr dest!: surface adjacency outside
        split: if_splits option.splits prod.splits)
  moreover have "surface_generation (compaction_closed c') = surface_generation c'" for c'
    by (simp add: compaction_closed_def)
  ultimately show ?thesis using assms
    by (auto simp: next_compaction_state_def Let_def dest!: surface split: if_splits)
qed

text \<open>Turns and steps are numbered from one, and every row ends at most one of them.\<close>

definition placed :: "nat \<Rightarrow> 'a Projection_scheme \<Rightarrow> bool" where
  "placed n p \<longleftrightarrow> unat (next_turn p) \<le> Suc n
     \<and> (\<forall>t b s. place p = Some (t, b, s) \<longrightarrow> 0 < n \<and> t = next_turn p \<and> unat s \<le> Suc n)"

lemma placed_moves: "placed n p \<Longrightarrow> moves p k q \<Longrightarrow> placed (Suc n) q"
  by (cases "(p, k, q)" rule: moves.cases)
    (auto simp: placed_def same_place_def dest!: safe_successor_Some)

definition recoverable :: "nat \<Rightarrow> LiveProjection \<Rightarrow> bool" where
  "recoverable n p \<longleftrightarrow> policy p = DurableStrict \<and> strict_ok p \<and> attempt_fits p \<and> calls_known n p
     \<and> bracket_quiet p \<and> unat (surface_generation (compaction p)) \<le> n \<and> placed n p"

text \<open>An accepted row, scanned or admitted by recovery, keeps all this.\<close>

lemma stepped_recoverable:
  assumes r: "recoverable n p" and seq: "unat (event_seq e) = n" and s: "stepped env e a p q"
    and quiet: "bracket_quiet q"
  shows "recoverable (Suc n) q"
proof -
  from s obtain m m' where valid: "event_validate env (event_kind e) = Ok ()"
    and c: "next_compaction_state env p e a = Ok (compaction q)"
    and pm: "same_turns p m" and step: "apply_transition m e a = Ok m'" and mq: "same_turns m' q"
    and attempt: "attempt_step (attempt q) = step_after (event_kind e) (attempt_step (attempt p))"
    by (auto simp: stepped_def)
  from step obtain m0 where kind: "apply_kind m e a = Inr m0" and m0: "same_turns m0 m'"
    by (rule apply_transition_cases)
  have m0q: "same_turns m0 q" using m0 mq by (rule same_turns_trans)
  have moves: "moves p (move_of (event_kind e)) q"
    using apply_transition_moves [OF step] pm mq by (blast intro: moves_same_place moves_from_place same_turns_place)
  have "policy q = DurableStrict"
    using transition_nodes(3) [OF step] pm mq r by (simp add: same_turns_def recoverable_def)
  moreover have "strict_ok m" using r strict_ok_same_turns [OF pm] by (simp add: recoverable_def)
  from strict_ok_same_turns [OF m0q apply_kind_strict_ok [OF this kind]] have "strict_ok q" .
  moreover note this
  moreover have "attempt_fits q"
    using r attempt moves_step_place [OF moves] by (simp add: attempt_fits_def recoverable_def)
  moreover have "calls_known (Suc n) q"
    using apply_kind_known [OF _ valid seq kind] r calls_known_same_turns [OF pm] calls_known_same_turns [OF m0q]
    by (simp add: recoverable_def)
  moreover have "unat (surface_generation (compaction q)) \<le> Suc n"
    using next_surface_generation [OF c] r by (simp add: recoverable_def)
  moreover have "placed (Suc n) q" using r moves by (auto simp: recoverable_def intro: placed_moves)
  ultimately show ?thesis using quiet by (simp add: recoverable_def)
qed

lemma scanned_recoverable:
  assumes r: "recoverable n p" and "unat (event_seq e) = n" and scan: "apply_scanned_row env p e row = Inr q"
  shows "recoverable (Suc n) q"
proof -
  have "policy p = DurableStrict" "bracket_quiet p" using r by (simp_all add: recoverable_def)
  note s = scanned_stepped [OF scan this(1)]
  from stepped_recoverable [OF r assms(2) s bracket_quiet_scan [OF s]] r show ?thesis by (simp add: recoverable_def)
qed

lemma admitted_recoverable:
  assumes r: "recoverable n p" and "unat (event_seq e) = n" and admit: "apply_recovery_admission env p e action row = Inr q"
  shows "recoverable (Suc n) q"
proof -
  note s = admitted_stepped [OF admit] and kind = admitted_kind [OF admit]
  from stepped_recoverable [OF r assms(2) s bracket_quiet_admitted [OF s kind]] r show ?thesis
    by (simp add: recoverable_def)
qed

lemma fresh_recoverable: "recoverable 0 (live_for_session DurableStrict sid)"
  by (simp add: recoverable_def live_for_session_def with_attempt_def Projection_State.Projection.extend_def
      projection_for_session_def projection_empty_def attempt_default_def strict_ok_def attempt_fits_def
      attempt_step_def step_place_def place_def calls_known_def bracket_quiet_def compaction_default_def placed_def first_id_def)

end
