(* ===== verification/Recovery_Plan.thy ===== *)
theory Recovery_Plan
  imports Recovery_State
begin

text \<open>
  What the plan of a recovery consists of, written as a list without the errors of the code that
  builds it: the decision of the approval that is waited for, a result for every call without one,
  the end of the step and of the turn, and the seed marker. A journal that was scanned leads to
  exactly this plan; the row after the first ones is the first row of the plan that they leave.
\<close>

section \<open>Values that every store accepts\<close>

text \<open>No floats, small integers, one value per key, at most \<open>d\<close> levels deep.\<close>

fun plain_value :: "nat \<Rightarrow> json \<Rightarrow> bool" where
  "plain_value 0 v = False"
| "plain_value (Suc d) v = (case v of
      JInt i \<Rightarrow> 0 \<le> i \<and> i \<le> uint MAX_SAFE_INTEGER
    | JFloat _ \<Rightarrow> False
    | JArr vs \<Rightarrow> list_all (plain_value d) vs
    | JObj fs \<Rightarrow> distinct (map fst fs) \<and> list_all (\<lambda>(_, v). plain_value d v) fs
    | _ \<Rightarrow> True)"

fun json_weight :: "json \<Rightarrow> nat" where
  "json_weight (JStr s) = Suc (length s)"
| "json_weight (JArr vs) = Suc (sum_list (map json_weight vs))"
| "json_weight (JObj fs) = Suc (sum_list (map (\<lambda>(k, v). length k + json_weight v) fs))"
| "json_weight _ = 20"

text \<open>\<open>JsonValue::new\<close> keeps a plain value within its limits on depth, nodes and bytes, serde encodes
  it, and a SHA-256 has 32 bytes.\<close>

definition plain_env :: "session_env \<Rightarrow> bool" where
  "plain_env env \<longleftrightarrow>
     (\<forall>v. plain_value 8 v \<and> json_weight v \<le> 100000 \<longrightarrow> env_admit env v = Some v \<and> env_encode env v \<noteq> None)
     \<and> (\<forall>s. length (env_sha256 env s) = 32)"

lemma plain_envD:
  assumes "plain_env env"
  shows "plain_value 8 v \<Longrightarrow> json_weight v \<le> 100000 \<Longrightarrow> env_admit env v = Some v"
    and "plain_value 8 v \<Longrightarrow> json_weight v \<le> 100000 \<Longrightarrow> \<exists>s. env_encode env v = Some s"
    and "length (env_sha256 env s) = 32"
  using assms by (simp_all add: plain_env_def)

lemma plain_equal: "plain_value d v \<Longrightarrow> json_equal_within env (d + k) v v"
proof (induction d arbitrary: v)
  case (Suc d)
  show ?case
  proof (cases v)
    case (JObj fs)
    have "map_of fs i = Some w \<and> json_equal_within env (d + k) w w" if "(i, w) \<in> set fs" for i w
      using Suc that JObj by (auto simp: list_all_iff)
    with JObj show ?thesis by (auto simp: list_all_iff)
  qed (use Suc in \<open>auto simp: list_all_iff intro!: list.rel_refl_strong\<close>)
qed simp

lemma plain_values_equal: "plain_value 8 v \<Longrightarrow> json_values_equal env v v"
  using plain_equal [of 8 v env "Suc MAX_JSON_DEPTH - 8"] by (simp add: json_values_equal_def MAX_JSON_DEPTH_def)

lemma plain_value_simps [simp]:
  "plain_value (numeral n) (JStr s)" "plain_value (numeral n) (JBool b)" "plain_value (numeral n) JNull"
  "plain_value (numeral n) (JArr vs) = list_all (plain_value (pred_numeral n)) vs"
  "plain_value (numeral n) (JObj fs) = (distinct (map fst fs) \<and> list_all (\<lambda>(_, v). plain_value (pred_numeral n) v) fs)"
  by (simp_all only: numeral_eq_Suc plain_value.simps json.case)

lemma plain_number: "v \<le> MAX_SAFE_INTEGER \<Longrightarrow> plain_value (numeral n) (number_value v)"
  by (simp add: numeral_eq_Suc number_value_def word_le_def)

lemma json_weight_number [simp]: "json_weight (number_value v) = 20"
  by (simp add: number_value_def)

section \<open>The message of a repaired call\<close>

lemma hex_bytes_length: "length (hex_bytes s) = 2 * length s"
  by (induction s) (simp_all add: hex_bytes_def Let_def)

definition failure_text :: "RecoveryCall \<Rightarrow> string" where
  "failure_text c = fst (snd (snd (recovery_result_kind c)))"

definition text_value :: "string \<Rightarrow> json" where
  "text_value s = JObj [(''text'', JStr s), (''type'', JStr ''text'')]"

definition result_value :: "call_id \<Rightarrow> string \<Rightarrow> json" where
  "result_value i s = JObj [(''content'', JArr [text_value s]), (''isError'', JBool True),
     (''toolCallId'', JStr i), (''type'', JStr ''tool-result'')]"

definition tool_source_value :: "call_id \<Rightarrow> json" where
  "tool_source_value i = JObj [(''callId'', JStr i), (''kind'', JStr ''tool'')]"

definition result_message_value :: "string \<Rightarrow> call_id \<Rightarrow> string \<Rightarrow> json" where
  "result_message_value m i s = JObj [(''content'', JArr [result_value i s]), (''id'', JStr m),
     (''role'', JStr ''user''), (''source'', tool_source_value i)]"

definition result_message :: "session_env \<Rightarrow> SessionId \<Rightarrow> EventSeq option \<Rightarrow> RecoveryCall \<Rightarrow> EventSeq \<Rightarrow> Message" where
  "result_message env sid prefix c seq =
     (let i = recovery_call_id c; s = failure_text c;
          m = recovery_message_id env sid prefix i (recovery_intent_seq c) seq
      in \<lparr>message_id = m, message_role = User,
          message_content = [\<lparr>block_kind = ToolResultBlock i (Some True), block_raw = result_value i s\<rparr>],
          message_source = \<lparr>source_kind = SourceTool i, source_raw = tool_source_value i\<rparr>,
          message_raw = result_message_value m i s, message_surface_credit = None\<rparr>)"

text \<open>The texts are short, and so are the identities of calls that were declared.\<close>

lemmas failure_texts = TOOL_NOT_STARTED_TEXT_def TOOL_OUTCOME_UNKNOWN_TEXT_def APPROVAL_REJECTED_TEXT_def
  APPROVAL_CANCELLED_TEXT_def APPROVAL_UNAVAILABLE_TEXT_def

lemma failure_text_length: "length (failure_text c) \<le> 400"
  by (simp add: failure_text_def recovery_result_kind_def failure_texts
      split: option.split RecoveryApproval.split ApprovalOutcome.split)

lemma recovery_message_id_length:
  "plain_env env \<Longrightarrow> length (recovery_message_id env sid prefix i intent seq) \<le> 100"
  by (simp add: recovery_message_id_def hex_bytes_length plain_envD(3) RECOVERY_TOOL_RESULT_ID_PREFIX_def)

lemma recovery_message_id_nonempty: "recovery_message_id env sid prefix i intent seq \<noteq> []"
  by (simp add: recovery_message_id_def RECOVERY_TOOL_RESULT_ID_PREFIX_def)

lemmas result_values = result_message_value_def result_value_def text_value_def tool_source_value_def

lemma repair_message_explicit:
  assumes env: "plain_env env" and i: "recovery_call_id c \<noteq> []" "length (recovery_call_id c) \<le> 1024"
  shows "repair_message env sp sid prefix c seq = Ok (result_message env sid prefix c seq)"
proof -
  let ?i = "recovery_call_id c" and ?s = "failure_text c"
  let ?m = "recovery_message_id env sid prefix ?i (recovery_intent_seq c) seq"
  note short = failure_text_length [of c] recovery_message_id_length [OF env, of sid prefix ?i "recovery_intent_seq c" seq] i(2)
  have s: "\<exists>n code src. recovery_result_kind c = (n, code, ?s, src)"
    by (cases "recovery_result_kind c") (simp add: failure_text_def)
  have admits: "env_admit env (text_value ?s) = Some (text_value ?s)"
    "env_admit env (result_value ?i ?s) = Some (result_value ?i ?s)"
    "env_admit env (tool_source_value ?i) = Some (tool_source_value ?i)"
    "env_admit env (result_message_value ?m ?i ?s) = Some (result_message_value ?m ?i ?s)"
    using short by (simp_all add: plain_envD(1) [OF env] result_values)
  have words: "content_block_text env sp ?s = Ok \<lparr>block_kind = Text ?s, block_raw = text_value ?s\<rparr>"
    using admits(1) by (simp add: content_block_text_def content_block_from_value_def text_value_def
        parse_content_block_def get_str_def)
  have block: "content_block_tool_result env sp ?i [\<lparr>block_kind = Text ?s, block_raw = text_value ?s\<rparr>] (Some True)
      = Ok \<lparr>block_kind = ToolResultBlock ?i (Some True), block_raw = result_value ?i ?s\<rparr>"
    using admits(2) by (simp add: content_block_tool_result_def content_block_from_value_def result_value_def
        parse_content_block_def parse_tool_result_def get_str_def get_array_def get_bool_def)
  have source: "message_source_tool env sp ?i = Ok \<lparr>source_kind = SourceTool ?i, source_raw = tool_source_value ?i\<rparr>"
    using admits(3) i(1) by (simp add: message_source_tool_def message_source_from_value_def tool_source_value_def
        parse_message_source_def parse_tool_source_def object_fields_def required_string_def unwrap_or_other_def get_str_def)
  show ?thesis
    using s admits(4) recovery_message_id_nonempty
    by (auto simp: repair_message_def words block source message_tool_result_def message_new_def
        result_message_value_def result_message_def Let_def MAX_MESSAGE_CONTENT_BLOCKS_def)
qed

section \<open>The plan as a list\<close>

text \<open>A row that still waits for its number.\<close>

type_synonym planned_row = "EventSeq \<Rightarrow> RepairRow"

definition planned_event :: "UnixMillis \<Rightarrow> NewEvent \<Rightarrow> RecoveryAction \<Rightarrow> planned_row" where
  "planned_event time e action seq = (event_from_new seq time e (the (repair_data_value (new_kind e))), action)"

definition cancels :: "RecoveryCall \<Rightarrow> ApprovalRequestId option" where
  "cancels c = (case recovery_approval c of
      RecoveryApprovalPending i \<Rightarrow> if recovery_result_seen c then None else Some i
    | _ \<Rightarrow> None)"

definition cancel_row :: "UnixMillis \<Rightarrow> ApprovalRequestId \<Rightarrow> planned_row" where
  "cancel_row time i = planned_event time (log_event (ApprovalDecided \<lparr>decided_id = i, decided_outcome = OutcomeCancelled\<rparr>))
     (CancelApproval i)"

definition result_row :: "session_env \<Rightarrow> SessionId \<Rightarrow> EventSeq option \<Rightarrow> TurnId \<Rightarrow> StepId \<Rightarrow> UnixMillis
    \<Rightarrow> RecoveryCall \<Rightarrow> planned_row" where
  "result_row env sid prefix turn step time c seq =
     planned_event time (repair_result turn step (result_message env sid prefix c seq) c) (RepairCall (recovery_call_id c)) seq"

definition step_rows :: "session_env \<Rightarrow> SessionId \<Rightarrow> EventSeq option \<Rightarrow> UnixMillis \<Rightarrow> TurnId \<Rightarrow> StepId
    \<Rightarrow> RecoveryCall list \<Rightarrow> planned_row list" where
  "step_rows env sid prefix time turn step calls = map (cancel_row time) (List.map_filter cancels calls)
     @ map (result_row env sid prefix turn step time) (filter (\<lambda>c. \<not> recovery_result_seen c) calls)"

definition close_step_row :: "UnixMillis \<Rightarrow> TurnId \<Rightarrow> StepId \<Rightarrow> RecoveryAttemptProof option \<Rightarrow> planned_row" where
  "close_step_row time turn step evidence =
     planned_event time (log_event (StepEnd turn step)) (CloseStep turn step evidence)"

definition close_turn_row :: "UnixMillis \<Rightarrow> TurnId \<Rightarrow> planned_row" where
  "close_turn_row time turn = planned_event time (log_event (TurnEnd turn TurnInterrupted)) (CloseTurn turn)"

definition seed_row :: "UnixMillis \<Rightarrow> planned_row" where
  "seed_row marker = planned_event marker (log_event EndSeed) EndSeedAction"

definition planned :: "session_env \<Rightarrow> SessionId \<Rightarrow> EventSeq option \<Rightarrow> UnixMillis \<Rightarrow> UnixMillis \<Rightarrow> bool
    \<Rightarrow> LiveProjection \<Rightarrow> planned_row list" where
  "planned env sid prefix time marker seed p =
     (case boundary p of BoundaryStep s \<Rightarrow>
         step_rows env sid prefix time (step_turn s) (step_id s) (map recovery_call (step_declared_calls s))
           @ [close_step_row time (step_turn s) (step_id s) (recovery_proof env (attempt p))]
       | _ \<Rightarrow> [])
     @ (case open_turn p of None \<Rightarrow> [] | Some turn \<Rightarrow> [close_turn_row time turn])
     @ (if seed then [] else [seed_row marker])"

fun numbered :: "EventSeq \<Rightarrow> planned_row list \<Rightarrow> RepairRow list" where
  "numbered seq [] = []"
| "numbered seq (f # fs) = f seq # numbered (seq + 1) fs"

lemma numbered_append: "numbered seq (fs @ gs) = numbered seq fs @ numbered (seq + of_nat (length fs)) gs"
  by (induction fs arbitrary: seq) (simp_all add: algebra_simps)

lemma numbered_length [simp]: "length (numbered seq fs) = length fs"
  by (induction fs arbitrary: seq) simp_all

section \<open>What the code builds\<close>

text \<open>A step of the builder that appends these rows, within the limits on rows and numbers.\<close>

definition appends :: "(RepairRow list \<times> EventSeq option \<Rightarrow> StoreError + (RepairRow list \<times> EventSeq option))
    \<Rightarrow> planned_row list \<Rightarrow> bool" where
  "appends g fs \<longleftrightarrow> (\<forall>rows seq. length rows + length fs \<le> MAX_RECOVERY_ROWS \<longrightarrow> unat seq + length fs \<le> 2000000
     \<longrightarrow> g (rows, Some seq) = Ok (rows @ numbered seq fs, Some (seq + of_nat (length fs))))"

lemma appendsD: "appends g fs \<Longrightarrow> length rows + length fs \<le> MAX_RECOVERY_ROWS \<Longrightarrow> unat seq + length fs \<le> 2000000
    \<Longrightarrow> g (rows, Some seq) = Ok (rows @ numbered seq fs, Some (seq + of_nat (length fs)))"
  by (simp add: appends_def)

lemma appends_Nil: "appends Ok []"
  by (simp add: appends_def)

lemma small_add: "unat (seq :: u64) + n \<le> 2000000 \<Longrightarrow> unat (seq + of_nat n) = unat seq + n"
  by (simp add: unat_word_ariths unat_of_nat)

lemma appends_bind:
  assumes g: "appends g fs" and h: "appends h gs"
  shows "appends (\<lambda>b. and_then (g b) h) (fs @ gs)"
  unfolding appends_def
proof (intro allI impI)
  fix rows :: "RepairRow list" and seq :: u64
  assume rows: "length rows + length (fs @ gs) \<le> MAX_RECOVERY_ROWS" and seq: "unat seq + length (fs @ gs) \<le> 2000000"
  have "g (rows, Some seq) = Ok (rows @ numbered seq fs, Some (seq + of_nat (length fs)))"
    using rows seq by (intro appendsD [OF g]) simp_all
  moreover have "h (rows @ numbered seq fs, Some (seq + of_nat (length fs))) =
      Ok ((rows @ numbered seq fs) @ numbered (seq + of_nat (length fs)) gs, Some (seq + of_nat (length fs) + of_nat (length gs)))"
    using rows seq by (intro appendsD [OF h]) (simp_all add: small_add)
  ultimately show "and_then (g (rows, Some seq)) h =
      Ok (rows @ numbered seq (fs @ gs), Some (seq + of_nat (length (fs @ gs))))"
    by (simp add: numbered_append algebra_simps)
qed

lemma safe_successor_small: "unat (seq :: u64) \<le> 3000000 \<Longrightarrow> safe_successor seq = Some (seq + 1)"
  using small_add [of seq 1]
  by (simp add: safe_successor_def checked_add_def word_le_nat_alt MAX_SAFE_INTEGER_def unat_word_ariths)

lemma push_appends:
  assumes env: "plain_env env"
    and "\<exists>d. repair_data_value (new_kind e) = Some d \<and> plain_value 8 d \<and> json_weight d \<le> 100000"
  shows "appends (push_recovery_event env time e action) [planned_event time e action]"
  unfolding appends_def
proof (intro allI impI)
  from assms(2) obtain d where data: "repair_data_value (new_kind e) = Some d" "plain_value 8 d" "json_weight d \<le> 100000"
    by blast
  fix rows :: "RepairRow list" and seq :: u64
  assume "length rows + length [planned_event time e action] \<le> MAX_RECOVERY_ROWS"
    and "unat seq + length [planned_event time e action] \<le> 2000000"
  with plain_envD(1) [OF env data(2,3)] data(1)
  show "push_recovery_event env time e action (rows, Some seq) =
      Ok (rows @ numbered seq [planned_event time e action], Some (seq + of_nat (length [planned_event time e action])))"
    by (simp add: push_recovery_event_def planned_event_def safe_successor_small)
qed

lemma cancel_appends:
  assumes env: "plain_env env" and i: "\<And>c i. c \<in> set calls \<Longrightarrow> recovery_approval c = RecoveryApprovalPending i
    \<Longrightarrow> validate_approval_id i = Ok () \<and> length i \<le> 1024"
  shows "appends (push_cancellations env time calls) (map (cancel_row time) (List.map_filter cancels calls))"
  using i
proof (induction calls)
  case Nil
  show ?case by (simp add: appends_Nil List.map_filter_def)
next
  case (Cons c cs)
  let ?g = "\<lambda>b. case recovery_approval c of
      RecoveryApprovalPending i \<Rightarrow>
        if recovery_result_seen c then Ok b
        else and_then (cancellation i) (\<lambda>d.
          push_recovery_event env time (log_event (ApprovalDecided d)) (CancelApproval i) b)
    | _ \<Rightarrow> Ok b"
  have tail: "appends (push_cancellations env time cs) (map (cancel_row time) (List.map_filter cancels cs))"
    using Cons.prems by (intro Cons.IH) auto
  have "appends ?g (map (cancel_row time) (case cancels c of None \<Rightarrow> [] | Some i \<Rightarrow> [i]))"
  proof (cases "cancels c")
    case None
    have "?g = Ok" using None by (auto simp: cancels_def split: RecoveryApproval.splits if_splits)
    then show ?thesis using None by (simp add: appends_Nil)
  next
    case (Some i)
    then have c: "recovery_approval c = RecoveryApprovalPending i" "\<not> recovery_result_seen c"
      by (auto simp: cancels_def split: RecoveryApproval.splits if_splits)
    with Cons.prems [of c i] have "cancellation i = Ok \<lparr>decided_id = i, decided_outcome = OutcomeCancelled\<rparr>"
      and "length i \<le> 1024"
      by (simp_all add: cancellation_def)
    with Some c show ?thesis
      by (auto simp: cancel_row_def log_event_def repair_data_value_def
          intro!: push_appends [OF env])
  qed
  from appends_bind [OF this tail] show ?case
    by (cases "cancels c") (simp_all add: map_filter_Cons)
qed

lemma repair_appends:
  assumes env: "plain_env env" and turn: "turn \<le> MAX_SAFE_INTEGER" "step \<le> MAX_SAFE_INTEGER"
    and i: "\<And>c. c \<in> set calls \<Longrightarrow> recovery_call_id c \<noteq> [] \<and> length (recovery_call_id c) \<le> 1024"
  shows "appends (push_repairs env sp sid prefix turn step time calls)
      (map (result_row env sid prefix turn step time) (filter (\<lambda>c. \<not> recovery_result_seen c) calls))"
  using i
proof (induction calls)
  case Nil
  show ?case by (simp add: appends_Nil)
next
  case (Cons c cs)
  let ?g = "\<lambda>b. if recovery_result_seen c then Ok b
       else and_then (ok_or (snd b) StoreLimit) (\<lambda>seq.
         and_then (repair_message env sp sid prefix c seq) (\<lambda>m.
           push_recovery_event env time (repair_result turn step m c) (RepairCall (recovery_call_id c)) b))"
  have tail: "appends (push_repairs env sp sid prefix turn step time cs)
      (map (result_row env sid prefix turn step time) (filter (\<lambda>c. \<not> recovery_result_seen c) cs))"
    using Cons.prems by (intro Cons.IH) simp
  have "appends ?g (map (result_row env sid prefix turn step time) (if recovery_result_seen c then [] else [c]))"
  proof (cases "recovery_result_seen c")
    case True
    then show ?thesis by (simp add: appends_Nil)
  next
    case False
    let ?e = "\<lambda>seq. repair_result turn step (result_message env sid prefix c seq) c"
    have push: "appends (push_recovery_event env time (?e seq) (RepairCall (recovery_call_id c)))
        [planned_event time (?e seq) (RepairCall (recovery_call_id c))]" for seq
    proof -
      have "\<exists>d. repair_data_value (new_kind (?e seq)) = Some d \<and> plain_value 8 d \<and> json_weight d \<le> 100000"
        using turn Cons.prems [of c] recovery_message_id_length [OF env, of sid prefix "recovery_call_id c" "recovery_intent_seq c" seq]
          failure_text_length [of c]
        by (cases "recovery_result_kind c")
          (auto simp: repair_result_def repair_data_value_def result_message_def Let_def result_values
            tool_failure_value_def plain_number recovery_result_kind_def TOOL_NOT_STARTED_def TOOL_OUTCOME_UNKNOWN_def
            split: option.splits RecoveryApproval.splits ApprovalOutcome.splits)
      then show ?thesis by (rule push_appends [OF env])
    qed
    show ?thesis
      using False Cons.prems [of c] appendsD [OF push]
      by (auto simp: appends_def repair_message_explicit [OF env] result_row_def)
  qed
  from appends_bind [OF this tail] show ?case
    by (cases "recovery_result_seen c") simp_all
qed

section \<open>The plan of a recoverable projection\<close>

lemma recoverable_step:
  assumes "recoverable n p" and "boundary p = BoundaryStep s"
  shows "calls_ok (step_declared_calls s) (step_pending_calls s) (pending_approvals p)"
    and "\<And>c. c \<in> set (step_declared_calls s) \<Longrightarrow> call_known n c"
    and "unat (step_turn s) \<le> Suc n" and "unat (step_id s) \<le> Suc n" and "attempt_step (attempt p) = Some (step_turn s, step_id s)"
  using assms by (auto simp: recoverable_def strict_ok_def calls_known_def placed_def attempt_fits_def step_place_boundary place_def)

lemma recoverable_turn:
  assumes "recoverable n p" and "open_turn p = Some turn"
  shows "unat turn \<le> Suc n" and "0 < n"
  using assms by (auto simp: recoverable_def placed_def place_def open_turn_def split: Boundary.splits)

lemma small_safe: "unat (v :: u64) \<le> 3000000 \<Longrightarrow> v \<le> MAX_SAFE_INTEGER"
  by (simp add: word_le_nat_alt MAX_SAFE_INTEGER_def)

lemma known_call:
  assumes "call_known n c"
  shows "recovery_call_id (recovery_call c) \<noteq> []" and "length (recovery_call_id (recovery_call c)) \<le> 1024"
    and "recovery_approval (recovery_call c) = RecoveryApprovalPending i \<Longrightarrow> validate_approval_id i = Ok () \<and> length i \<le> 1024"
proof -
  show "recovery_call_id (recovery_call c) \<noteq> []" "length (recovery_call_id (recovery_call c)) \<le> 1024"
    using assms by (simp_all add: call_known_def recovery_call_def)
  assume "recovery_approval (recovery_call c) = RecoveryApprovalPending i"
  then have "waiting_for (declared_approval c) = Some i"
    by (cases "declared_approval c" rule: recovery_approval_of.cases) (simp_all add: recovery_call_def)
  with assms have valid: "validate_approval_id i = Ok ()" by (simp add: call_known_def)
  then have "length i \<le> 1024"
    by (simp add: validate_approval_id_def bounded_identity_def split: if_splits)
  with valid show "validate_approval_id i = Ok () \<and> length i \<le> 1024" by simp
qed

text \<open>The only approval that can wait is the last decision to make.\<close>

lemma cancels_recovery_call:
  "(waiting_for (declared_approval c) \<noteq> None \<Longrightarrow> \<not> declared_result_seen c)
    \<Longrightarrow> cancels (recovery_call c) = waiting_for (declared_approval c)"
  by (cases "declared_approval c" rule: recovery_approval_of.cases) (simp_all add: cancels_def recovery_call_def)

lemma cancels_pending:
  assumes "calls_ok calls pending approvals"
  shows "List.map_filter cancels (map recovery_call calls) = approvals"
proof -
  have "List.map_filter cancels (map recovery_call calls) = List.map_filter (\<lambda>c. waiting_for (declared_approval c)) calls"
    using calls_okD(8) [OF assms] cancels_recovery_call
    by (induction calls) (auto simp: map_filter_Cons List.map_filter_def)
  with calls_okD(5) [OF assms] show ?thesis by simp
qed

lemma planned_length:
  assumes "recoverable n p"
  shows "length (planned env sid prefix time marker seed p) \<le> MAX_RECOVERY_ROWS"
proof (cases "boundary p")
  case (BoundaryStep s)
  note ok = recoverable_step(1) [OF assms BoundaryStep]
  have "length (filter (\<lambda>c. \<not> recovery_result_seen c) (map recovery_call (step_declared_calls s))) \<le> 64"
    by (rule le_trans [OF length_filter_le]) (use calls_okD(2) [OF ok] in \<open>simp add: MAX_DURABLE_TOOL_CALLS_PER_STEP_def\<close>)
  with BoundaryStep calls_okD(6) [OF ok] show ?thesis
    by (simp add: planned_def step_rows_def cancels_pending [OF ok] open_turn_def MAX_RECOVERY_ROWS_def)
qed (simp_all add: planned_def open_turn_def MAX_RECOVERY_ROWS_def)

lemma small_count: "unat (a :: u64) \<le> 1500000 \<Longrightarrow> k \<le> 68 \<Longrightarrow> checked_add a (of_nat k) \<noteq> None"
  by (simp add: checked_add_def unat_of_nat)

lemma step_appends:
  assumes env: "plain_env env" and r: "recoverable n p" and n: "n \<le> 1500000" and s: "boundary p = BoundaryStep s"
    and time: "closer = Some time"
  shows "appends (push_step_repair env sp sid prefix (recovery_snapshot env p) closer (step_id s))
     (step_rows env sid prefix time (step_turn s) (step_id s) (map recovery_call (step_declared_calls s))
        @ [close_step_row time (step_turn s) (step_id s) (recovery_proof env (attempt p))])"
proof -
  note known = known_call [OF recoverable_step(2) [OF r s]]
  have small: "step_turn s \<le> MAX_SAFE_INTEGER" "step_id s \<le> MAX_SAFE_INTEGER"
    using recoverable_step(3,4) [OF r s] n by (simp_all add: small_safe)
  let ?calls = "map recovery_call (step_declared_calls s)"
  have 1: "appends (push_cancellations env time ?calls) (map (cancel_row time) (List.map_filter cancels ?calls))"
    using known by (intro cancel_appends [OF env]) auto
  have 2: "appends (push_repairs env sp sid prefix (step_turn s) (step_id s) time ?calls)
      (map (result_row env sid prefix (step_turn s) (step_id s) time) (filter (\<lambda>c. \<not> recovery_result_seen c) ?calls))"
    using known by (intro repair_appends [OF env small]) auto
  have 3: "appends (push_recovery_event env time (log_event (StepEnd (step_turn s) (step_id s)))
        (CloseStep (step_turn s) (step_id s) (recovery_proof env (attempt p))))
      [close_step_row time (step_turn s) (step_id s) (recovery_proof env (attempt p))]"
    unfolding close_step_row_def using small
    by (intro push_appends [OF env]) (simp_all add: log_event_def repair_data_value_def plain_number)
  from appends_bind [OF 1 appends_bind [OF 2 3]] time s show ?thesis
    by (simp add: push_step_repair_def [abs_def] recovery_snapshot_def open_turn_def step_rows_def)
qed

lemma turn_appends:
  assumes "plain_env env" and "unat turn \<le> 2000000" and "closer = Some time"
  shows "appends (push_turn_repair env closer turn) [close_turn_row time turn]"
  using assms
  by (simp add: push_turn_repair_def [abs_def] close_turn_row_def push_appends log_event_def repair_data_value_def
      plain_number small_safe)

lemma seed_appends:
  "plain_env env \<Longrightarrow> appends (push_recovery_event env marker (log_event EndSeed) EndSeedAction) [seed_row marker]"
  unfolding seed_row_def by (rule push_appends) (simp_all add: log_event_def repair_data_value_def)

text \<open>The builder computes this plan, and the errors of building it cannot occur.\<close>

lemma build_planned:
  assumes env: "plain_env env" and r: "recoverable n p" and n: "n \<le> 1500000" and seq: "unat seq = n"
    and logical: "unat logical \<le> 1500000" and time: "boundary p \<noteq> BoundaryIdle \<Longrightarrow> closer = Some time"
  shows "\<exists>plan. plan_rows plan = numbered seq (planned env sid prefix time marker seed p)
    \<and> build_recovery_plan env sp p sid (Some seq) prefix closer marker seed logical
      = and_then (apply_repair env p (numbered seq (planned env sid prefix time marker seed p))) (\<lambda>q. Ok (plan, q))"
proof -
  let ?fs = "case boundary p of BoundaryStep s \<Rightarrow>
         step_rows env sid prefix time (step_turn s) (step_id s) (map recovery_call (step_declared_calls s))
           @ [close_step_row time (step_turn s) (step_id s) (recovery_proof env (attempt p))]
       | _ \<Rightarrow> []"
  let ?gs = "case open_turn p of None \<Rightarrow> [] | Some turn \<Rightarrow> [close_turn_row time turn]"
  let ?hs = "if seed then [] else [seed_row marker]"
  let ?f = "\<lambda>b. case open_step p of None \<Rightarrow> Ok b
    | Some step \<Rightarrow> push_step_repair env sp sid prefix (recovery_snapshot env p) closer step b"
  let ?g = "\<lambda>b. case open_turn p of None \<Rightarrow> Ok b | Some turn \<Rightarrow> push_turn_repair env closer turn b"
  let ?h = "\<lambda>b. if seed then Ok b else push_recovery_event env marker (log_event EndSeed) EndSeedAction b"
  have rows: "planned env sid prefix time marker seed p = ?fs @ ?gs @ ?hs" by (simp add: planned_def)
  have len: "length (?fs @ ?gs @ ?hs) \<le> 68"
    using planned_length [OF r, of env sid prefix time marker seed] unfolding rows MAX_RECOVERY_ROWS_def .
  have f: "appends ?f ?fs"
  proof (cases "boundary p")
    case (BoundaryStep s)
    with step_appends [OF env r n BoundaryStep time] show ?thesis by (simp add: open_step_def)
  qed (simp_all add: open_step_def appends_Nil)
  have g: "appends ?g ?gs"
  proof (cases "open_turn p")
    case (Some turn)
    then have "closer = Some time" using time by (auto simp: open_turn_def split: Boundary.splits)
    with turn_appends [OF env _ this, of turn] recoverable_turn(1) [OF r Some] n Some show ?thesis by simp
  qed (simp add: appends_Nil)
  have h: "appends ?h ?hs" using seed_appends [OF env] by (simp add: appends_Nil)
  have b1: "?f ([], Some seq) = Ok (numbered seq ?fs, Some (seq + of_nat (length ?fs)))"
    using appendsD [OF f, of "[]" seq] len seq n by (simp add: MAX_RECOVERY_ROWS_def)
  have b2: "?g (numbered seq ?fs, Some (seq + of_nat (length ?fs)))
      = Ok (numbered seq (?fs @ ?gs), Some (seq + of_nat (length (?fs @ ?gs))))"
    using appendsD [OF g, of "numbered seq ?fs" "seq + of_nat (length ?fs)"] len seq n
    by (simp add: MAX_RECOVERY_ROWS_def small_add numbered_append algebra_simps)
  have b3: "?h (numbered seq (?fs @ ?gs), Some (seq + of_nat (length (?fs @ ?gs))))
      = Ok (numbered seq (?fs @ ?gs @ ?hs), Some (seq + of_nat (length (?fs @ ?gs @ ?hs))))"
    using appendsD [OF h, of "numbered seq (?fs @ ?gs)" "seq + of_nat (length (?fs @ ?gs))"] len seq n
    by (simp only: MAX_RECOVERY_ROWS_def small_add numbered_append append_assoc length_append numbered_length)
      (simp add: algebra_simps)
  have "checked_add logical (of_nat (length (?fs @ ?gs))) \<noteq> None"
    by (rule small_count [OF logical]) (use len in simp)
  then obtain l where l: "checked_add logical (of_nat (length (?fs @ ?gs))) = Some l" by blast
  have snapshot: "snapshot_step (recovery_snapshot env p) = open_step p" "snapshot_turn (recovery_snapshot env p) = open_turn p"
    by (simp_all add: recovery_snapshot_def)
  have short: "\<not> MAX_RECOVERY_ROWS < length (?fs @ ?gs @ ?hs)" using len by (simp add: MAX_RECOVERY_ROWS_def)
  show ?thesis unfolding rows build_recovery_plan_def Let_def snapshot
    by (simp only: b1 b2 b3 l short and_then.simps ok_or_simps fst_conv numbered_length if_False)
      (rule exI, rule conjI [rotated], rule refl, simp)
qed

end
