(* ===== verification/Recovery_Step.thy ===== *)
theory Recovery_Step
  imports Recovery_Plan
begin

text \<open>
  One row of a plan: recovery accepts the first row, and what it leaves has the rest of the plan as
  its own plan. Each kind of row has a lemma; the theorem for the plan follows by induction.
\<close>

section \<open>What recovery has to check\<close>

lemma admission_ok:
  assumes "event_validate env (event_kind e) = Ok ()" and "admit_recovery_action env p action (event_kind e) = Ok p1"
    and "unat (surface_generation (compaction p1)) \<le> 3000000" and "is_repair_kind (event_kind e)"
    and "apply_kind p1 e HistoricalScan = Ok p2"
    and "apply_surface env p2 e (case row of None \<Rightarrow> BindPendingDurable | Some r \<Rightarrow> BindDurable r) = Ok p3"
  shows "\<exists>c. apply_recovery_admission env p e action row = Ok (p3\<lparr>compaction := c\<rparr>)"
proof -
  have "\<exists>c. next_compaction_state env p1 e HistoricalScan = Ok c"
    using assms(3) by (auto simp: next_compaction_state_def Let_def is_unprivileged_durable_def
        advance_surface_generation_def advance_generation_def safe_successor_small compaction_closed_def)
  moreover have "apply_transition p1 e HistoricalScan = Ok p2"
    using assms(4,5) by (cases "event_kind e") (auto simp: apply_transition_def is_unprivileged_durable_def capture_first_prompt_def)
  ultimately show ?thesis using assms by (auto simp: apply_recovery_admission_def)
qed

lemma quiet_surface:
  "is_repair_kind (event_kind e) \<Longrightarrow> \<not> is_tool_result (event_kind e) \<Longrightarrow> event_surface_op e = None \<Longrightarrow> event_sources e = None
    \<Longrightarrow> apply_surface env p e b = Ok p"
  by (cases "event_kind e") (simp_all add: apply_surface_def)

section \<open>The message of a result\<close>

lemma result_message_facts:
  assumes "recovery_call_id c \<noteq> []"
  shows "validate_tool_result (result_message env sid prefix c seq) = Ok (recovery_call_id c)"
    and "tool_result_is_error (result_message env sid prefix c seq)"
    and "charged_surface_bytes (result_message env sid prefix c seq) = None"
    and "starts_with RECOVERY_TOOL_RESULT_ID_PREFIX (message_id (result_message env sid prefix c seq))"
  using assms by (simp_all add: result_message_def Let_def validate_tool_result_def tool_result_is_error_def
      charged_surface_bytes_def recovery_message_id_def starts_with_def)

text \<open>Its estimate is small: a failure text has at most 400 bytes.\<close>

lemma utf16_length_bound: "utf16_length s \<le> length s"
proof (induction s rule: utf8_chars.induct)
  case (1 s)
  show ?case
  proof (cases "s = []")
    case True
    then show ?thesis by (simp add: utf16_length_def)
  next
    case False
    let ?k = "fst (utf8_step s)"
    have k: "0 < ?k" "?k \<le> length s" using utf8_step_pos [OF False] utf8_step_le by simp_all
    have "utf16_length s = (if ?k = 4 then 2 else 1) + utf16_length (drop ?k s)"
      using False k by (simp add: utf16_length_def utf8_chars.simps [of s] min_def)
    also have "\<dots> \<le> ?k + length (drop ?k s)"
      using 1 [OF False] k by (auto split: if_splits)
    finally show ?thesis using k by simp
  qed
qed

lemma text_tokens_bound:
  assumes "length s \<le> 400"
  shows "\<exists>t. estimated_text_tokens s = Ok t \<and> unat t \<le> 101"
proof -
  have u: "utf16_length s \<le> 400" using utf16_length_bound [of s] assms by simp
  then have n: "unat (of_nat (utf16_length s) :: u64) = utf16_length s" by (simp add: unat_of_nat)
  have q: "utf16_length s div 4 \<le> 100" using u by simp
  have "unat (div_ceil (of_nat (utf16_length s)) CHARS_PER_TOKEN) \<le> 101"
    using q by (auto simp: div_ceil_def CHARS_PER_TOKEN_def unat_div n unat_word_ariths)
  with u show ?thesis by (simp add: estimated_text_tokens_def usize_to_u64_def)
qed

lemma budget_add_small: "unat a + unat b \<le> 10000 \<Longrightarrow> budget_add a b = Ok (a + b) \<and> unat (a + b) = unat a + unat b"
  by (simp add: budget_add_def checked_add_def unat_word_ariths)

lemma result_message_estimate:
  "\<exists>t. estimate_message env (result_message env sid prefix c seq) = Ok t \<and> unat t \<le> 1000"
proof -
  obtain t where t: "estimated_text_tokens (failure_text c) = Ok t" "unat t \<le> 101"
    using text_tokens_bound [OF failure_text_length] by blast
  have four: "unat BLOCK_OVERHEAD = 4" "unat ROLE_OVERHEAD = 4" by (simp_all add: BLOCK_OVERHEAD_def ROLE_OVERHEAD_def)
  have 1: "estimate_content_value env (text_value (failure_text c)) = Ok (t + BLOCK_OVERHEAD) \<and> unat (t + BLOCK_OVERHEAD) = unat t + 4"
    using t four budget_add_small [of t BLOCK_OVERHEAD]
    by (simp add: estimate_content_value.simps text_value_def get_str_def estimate_text_block_def)
  with t four budget_add_small [of 0 "t + BLOCK_OVERHEAD"] budget_add_small [of "t + BLOCK_OVERHEAD" BLOCK_OVERHEAD]
    budget_add_small [of ROLE_OVERHEAD "t + BLOCK_OVERHEAD + BLOCK_OVERHEAD"]
  show ?thesis
    by (simp add: estimate_message_def result_message_def Let_def estimate_content_block_def tool_result_content_def
        result_value_def get_array_def)
qed

section \<open>The result row\<close>

text \<open>The source of a result is the call's intent.\<close>

lemma result_source: "snd (snd (snd (recovery_result_kind c))) = recovery_intent_seq c"
  by (simp add: recovery_result_kind_def split: option.split RecoveryApproval.split ApprovalOutcome.split)

definition result_event :: "session_env \<Rightarrow> SessionId \<Rightarrow> EventSeq option \<Rightarrow> TurnId \<Rightarrow> StepId \<Rightarrow> UnixMillis
    \<Rightarrow> RecoveryCall \<Rightarrow> EventSeq \<Rightarrow> SessionEvent" where
  "result_event env sid prefix turn step time c seq = fst (result_row env sid prefix turn step time c seq)"

lemma result_row_event: "result_row env sid prefix turn step time c seq
    = (result_event env sid prefix turn step time c seq, RepairCall (recovery_call_id c))"
  by (simp add: result_event_def result_row_def planned_event_def)

lemma result_event_fields [simp]:
  "event_seq (result_event env sid prefix turn step time c seq) = seq"
  "event_time (result_event env sid prefix turn step time c seq) = time"
  "event_ignorable (result_event env sid prefix turn step time c seq) = False"
  "event_surface_op (result_event env sid prefix turn step time c seq) = Some SurfaceAppend"
  "event_sources (result_event env sid prefix turn step time c seq) = map_option (\<lambda>s. [s]) (recovery_intent_seq c)"
  using result_source [of c]
  by (cases "recovery_intent_seq c"; auto simp: result_event_def result_row_def planned_event_def event_from_new_def
      repair_result_def split: prod.splits)+

definition result_failure :: "RecoveryCall \<Rightarrow> ToolFailure" where
  "result_failure c = \<lparr>tool_failure_name = fst (recovery_result_kind c), tool_failure_code = recovery_code c\<rparr>"

lemma result_event_kind [simp]:
  "event_kind (result_event env sid prefix turn step time c seq)
     = ToolResult turn step (result_message env sid prefix c seq) (Some (result_failure c)) None"
  by (auto simp: result_event_def result_row_def planned_event_def event_from_new_def repair_result_def
      result_failure_def recovery_code_def split: prod.splits)

lemma result_event_data:
  "event_data (result_event env sid prefix turn step time c seq) = JObj [(''error'', tool_failure_value (result_failure c)),
     (''message'', message_raw (result_message env sid prefix c seq)), (''step'', number_value step), (''turn'', number_value turn)]"
  by (auto simp: result_event_def result_row_def planned_event_def event_from_new_def repair_result_def repair_data_value_def
      result_failure_def recovery_code_def split: prod.splits)

lemma result_failure_short: "length (tool_failure_name (result_failure c)) \<le> 100 \<and> length (tool_failure_code (result_failure c)) \<le> 100"
  by (simp add: result_failure_def recovery_code_def recovery_result_kind_def TOOL_NOT_STARTED_def TOOL_OUTCOME_UNKNOWN_def
      split: option.split RecoveryApproval.split ApprovalOutcome.split)

lemma result_event_digest:
  assumes env: "plain_env env" and i: "length (recovery_call_id c) \<le> 1024"
    and turn: "turn \<le> MAX_SAFE_INTEGER" "step \<le> MAX_SAFE_INTEGER"
  shows "\<exists>d. masked_data_sha256 env (event_data (result_event env sid prefix turn step time c seq)) = Some d"
proof -
  let ?e = "result_event env sid prefix turn step time c seq"
  let ?i = "recovery_call_id c"
  let ?m = "recovery_message_id env sid prefix ?i (recovery_intent_seq c) seq"
  let ?masked = "JObj [(''error'', tool_failure_value (result_failure c)),
    (''message'', JObj [(''content'', JArr [JObj [(''content'', JNull), (''isError'', JBool True), (''toolCallId'', JStr ?i),
       (''type'', JStr ''tool-result'')]]), (''id'', JStr ?m), (''role'', JStr ''user''), (''source'', tool_source_value ?i)]),
    (''step'', number_value step), (''turn'', number_value turn)]"
  have "plain_value 8 ?masked" "json_weight ?masked \<le> 100000"
    using turn i result_failure_short [of c] recovery_message_id_length [OF env, of sid prefix ?i "recovery_intent_seq c" seq]
    by (simp_all add: plain_number tool_failure_value_def tool_source_value_def)
  from plain_envD(2) [OF env this] obtain s where s: "env_encode env ?masked = Some s" by blast
  have "tool_result_objects (event_data ?e) = Some ([(''error'', tool_failure_value (result_failure c)),
      (''message'', message_raw (result_message env sid prefix c seq)), (''step'', number_value step), (''turn'', number_value turn)],
      [(''content'', JArr [result_value ?i (failure_text c)]), (''id'', JStr ?m), (''role'', JStr ''user''),
        (''source'', tool_source_value ?i)],
      [(''content'', JArr [text_value (failure_text c)]), (''isError'', JBool True), (''toolCallId'', JStr ?i),
        (''type'', JStr ''tool-result'')])"
    by (simp add: result_event_data tool_result_objects_def get_array_def result_message_def Let_def
        result_message_value_def result_value_def)
  then show ?thesis
    using s by (simp add: masked_data_sha256_def masked_data_def masked_message_def masked_result_def mask_entry_def)
qed

lemma result_surface:
  assumes env: "plain_env env" and i: "recovery_call_id c \<noteq> []" "length (recovery_call_id c) \<le> 1024"
    and turn: "turn \<le> MAX_SAFE_INTEGER" "step \<le> MAX_SAFE_INTEGER"
    and intent: "\<And>s. recovery_intent_seq c = Some s \<Longrightarrow> s < seq"
    and row: "\<And>r. row = Some r \<Longrightarrow> row_seq r = seq" and room: "unat (surface_tokens p) + 1000 < 2 ^ 64"
  shows "\<exists>q. apply_surface env p (result_event env sid prefix turn step time c seq)
      (case row of None \<Rightarrow> BindPendingDurable | Some r \<Rightarrow> BindDurable r) = Ok q
    \<and> unat (surface_tokens q) \<le> unat (surface_tokens p) + 1000"
proof -
  let ?e = "result_event env sid prefix turn step time c seq"
  let ?b = "case row of None \<Rightarrow> BindPendingDurable | Some r \<Rightarrow> BindDurable r"
  obtain t where t: "estimate_message env (result_message env sid prefix c seq) = Ok t" "unat t \<le> 1000"
    using result_message_estimate by blast
  obtain d where d: "masked_data_sha256 env (event_data ?e) = Some d"
    using result_event_digest [OF env i(2) turn] by blast
  have sources: "validate_sources ?e = Ok ()"
    using intent by (auto simp: validate_sources_def MAX_SOURCE_EVENT_SEQS_def not_le split: option.splits)
  have "\<exists>o'. node_origin env ?e ?b = Ok o'"
    using d row by (auto simp: node_origin_def split: option.splits)
  then obtain n where n: "surface_node env ?e ?b = Ok n" "node_estimated_tokens n = t"
    "node_message n = Some (result_message env sid prefix c seq)"
    using t by (auto simp: surface_node_def node_facts_def)
  then have bytes: "node_resident_bytes n = 0"
    using result_message_facts(3) [OF i(1)] by (simp add: node_resident_bytes_def)
  have add: "checked_add (surface_tokens p) t = Some (surface_tokens p + t)"
    "unat (surface_tokens p + t) \<le> unat (surface_tokens p) + 1000"
    using room t(2) by (simp_all add: checked_add_def unat_word_ariths)
  have "checked_add (surface_resident_bytes p) 0 = Some (surface_resident_bytes p)"
    using unat_less_2p [of "surface_resident_bytes p"] by (simp add: checked_add_def)
  with sources n bytes add show ?thesis
    by (auto simp: apply_surface_def validate_time_context_surface_def apply_append_def observe_message_time_def Let_def)
qed

section \<open>A result is accepted\<close>

lemma result_transition:
  assumes r: "recoverable n p" and s: "boundary p = BoundaryStep s" and calls: "step_declared_calls s = as @ c # bs"
    and c: "\<not> declared_result_seen c" and quiet: "pending_approvals p = []"
    and kind: "event_kind e = ToolResult (step_turn s) (step_id s) m (Some (result_failure (recovery_call c))) None"
    and op: "event_surface_op e = Some SurfaceAppend"
    and sources: "event_sources e = map_option (\<lambda>s. [s]) (declared_intent_seq c)"
    and m: "validate_tool_result m = Ok (declared_id c)" "tool_result_is_error m"
  shows "\<exists>pending. apply_kind p e HistoricalScan = Ok (p\<lparr>boundary := BoundaryStep (s\<lparr>step_pending_calls := pending,
      step_declared_calls := as @ c\<lparr>declared_result_seen := True\<rparr> # bs\<rparr>)\<rparr>)"
proof -
  have strict: "policy p = DurableStrict" using r by (simp add: recoverable_def)
  note ok = recoverable_step(1) [OF r s]
  from calls_okD(1) [OF ok] have "declared_id c \<notin> declared_id ` set as" by (simp add: calls)
  then have other: "declared_id a \<noteq> declared_id c" if "a \<in> set as" for a
    using that by (metis imageI)
  have find: "List.find (\<lambda>d. declared_id d = declared_id c) (step_declared_calls s) = Some c"
    unfolding calls using other by (induction as) auto
  have upd: "update_first (\<lambda>d. declared_id d = declared_id c) (\<lambda>d. d\<lparr>declared_result_seen := True\<rparr>) (step_declared_calls s)
      = as @ c\<lparr>declared_result_seen := True\<rparr> # bs"
    unfolding calls using other by (induction as) auto
  have waiting: "waiting_for (declared_approval c) = None"
    using quiet calls_okD(5) [OF ok] by (auto simp: calls map_filter_append map_filter_Cons split: option.splits)
  then have decided: "\<not> approval_is_pending (declared_approval c)"
    by (cases "declared_approval c" rule: approval_is_pending.cases) simp_all
  have approval: "declared_approval c \<noteq> None \<Longrightarrow> declared_intent_seq c \<noteq> None"
    using calls_okD(7) [OF ok] by (simp add: calls)
  have intent: "check_result_intent e m (Some (result_failure (recovery_call c))) HistoricalScan c = Ok ()"
    using sources m(2)
    by (auto simp: check_result_intent_def Let_def failure_code_is_def result_failure_def recovery_code_def
        recovery_result_kind_def recovery_call_def is_unprivileged_durable_def split: option.splits)
  have decision: "check_result_decision m (Some (result_failure (recovery_call c))) c = Ok ()"
    using m(2) approval
    by (auto simp: check_result_decision_def failure_code_is_def result_failure_def recovery_code_def
        recovery_result_kind_def recovery_call_def split: option.splits DurableApproval.splits ApprovalOutcome.splits)
  have resolve: "resolve_durable_call p e m (Some (result_failure (recovery_call c))) HistoricalScan
      = Ok (p\<lparr>boundary := BoundaryStep (s\<lparr>step_declared_calls := as @ c\<lparr>declared_result_seen := True\<rparr> # bs\<rparr>)\<rparr>)"
    using strict s m(1) find c decided intent decision by (simp add: resolve_durable_call_def upd)
  have started: "declared_id c \<in> set (step_pending_calls s) \<or> failure_code_is TOOL_NOT_STARTED (Some (result_failure (recovery_call c)))"
  proof (cases "declared_intent_seq c")
    case None
    then show ?thesis by (simp add: failure_code_is_def result_failure_def recovery_code_def recovery_result_kind_def recovery_call_def)
  next
    case (Some i)
    with c have "running c" by (simp add: running_def)
    then show ?thesis using calls_okD(4) [OF ok] by (simp add: calls)
  qed
  have opened: "require_open_step p ''tool/result'' (step_turn s) (step_id s) = Ok ()"
    using s by (simp add: require_open_step_def open_turn_def open_step_def)
  show ?thesis
  proof (cases "declared_id c \<in> set (step_pending_calls s)")
    case True
    then show ?thesis using opened resolve m kind op
      by (intro exI [of _ "remove1 (declared_id c) (step_pending_calls s)"])
        (simp add: apply_kind_def apply_tool_result_def remove_pending_call_def)
  next
    case False
    with started show ?thesis using opened resolve m kind op
      by (intro exI [of _ "step_pending_calls s"]) (simp add: apply_kind_def apply_tool_result_def remove_pending_call_def)
  qed
qed

section \<open>Each kind of row\<close>

text \<open>The row is accepted, and what it leaves has these rows as its plan.\<close>

definition leaves :: "session_env \<Rightarrow> SessionId \<Rightarrow> EventSeq option \<Rightarrow> UnixMillis \<Rightarrow> UnixMillis \<Rightarrow> LiveProjection
    \<Rightarrow> JournalRowLocator option \<Rightarrow> RepairRow \<Rightarrow> planned_row list \<Rightarrow> bool" where
  "leaves env sid prefix time marker p row r fs \<longleftrightarrow> (\<exists>q. apply_recovery_admission env p (fst r) (snd r) row = Ok q
     \<and> planned env sid prefix time marker (event_kind (fst r) = EndSeed) q = fs
     \<and> unat (surface_tokens q) \<le> unat (surface_tokens p) + 1000)"

lemma planned_event_fields [simp]:
  "event_seq (fst (planned_event time e action seq)) = seq" "event_time (fst (planned_event time e action seq)) = time"
  "event_kind (fst (planned_event time e action seq)) = new_kind e" "snd (planned_event time e action seq) = action"
  "event_surface_op (fst (planned_event time (log_event k) action seq)) = None"
  "event_sources (fst (planned_event time (log_event k) action seq)) = None"
  by (simp_all add: planned_event_def event_from_new_def log_event_def)

lemma log_event_kind [simp]: "new_kind (log_event k) = k"
  by (simp add: log_event_def)

text \<open>A row off the surface: only the turn state matters.\<close>

lemma quiet_leaves:
  assumes r: "recoverable n p" and n: "n \<le> 1500000" and kind: "is_repair_kind k" "\<not> is_tool_result k"
    and valid: "event_validate env k = Ok ()" and admit: "admit_recovery_action env p action k = Ok p1"
    and p1: "compaction p1 = compaction p" "surface_tokens q = surface_tokens p"
    and step: "\<And>e. event_kind e = k \<Longrightarrow> apply_kind p1 e HistoricalScan = Ok q"
    and rest: "\<And>c. apply_recovery_admission env p (fst (planned_event t (log_event k) action seq)) action row = Ok (q\<lparr>compaction := c\<rparr>)
      \<Longrightarrow> planned env sid prefix time marker (k = EndSeed) (q\<lparr>compaction := c\<rparr>) = fs"
  shows "leaves env sid prefix time marker p row (planned_event t (log_event k) action seq) fs"
proof -
  have "unat (surface_generation (compaction p1)) \<le> 3000000"
    using r n p1 by (simp add: recoverable_def)
  from admission_ok [where env = env and e = "fst (planned_event t (log_event k) action seq)" and p = p and action = action
      and row = row and ?p2.0 = q and ?p3.0 = q, OF _ _ this]
    quiet_surface [of "fst (planned_event t (log_event k) action seq)"] kind valid admit step
  obtain c where "apply_recovery_admission env p (fst (planned_event t (log_event k) action seq)) action row = Ok (q\<lparr>compaction := c\<rparr>)"
    by auto
  with rest [OF this] p1 show ?thesis by (auto simp: leaves_def)
qed

lemma map_filter_set: "x \<in> set (List.map_filter f xs) \<longleftrightarrow> (\<exists>y \<in> set xs. f y = Some x)"
  by (induction xs) (auto simp: map_filter_Cons List.map_filter_def [of f "[]"] split: option.splits)

text \<open>A cancelled approval reads like the pending one.\<close>

lemma result_row_cong:
  "recovery_call_id c = recovery_call_id d \<Longrightarrow> recovery_intent_seq c = recovery_intent_seq d
    \<Longrightarrow> recovery_result_kind c = recovery_result_kind d
    \<Longrightarrow> result_row env sid prefix turn step time c = result_row env sid prefix turn step time d"
  by (rule ext) (simp add: result_row_def repair_result_def result_message_def failure_text_def)

lemma recovery_seen [simp]: "recovery_result_seen (recovery_call d) = declared_result_seen d"
  by (simp add: recovery_call_def)

lemma cancelled_row:
  "declared_approval c = Some (ApprovalPending i) \<Longrightarrow>
    result_row env sid prefix turn step time (recovery_call (c\<lparr>declared_approval := Some (ApprovalResolved i OutcomeCancelled)\<rparr>))
      = result_row env sid prefix turn step time (recovery_call c)"
  by (rule result_row_cong) (simp_all add: recovery_call_def recovery_result_kind_def split: option.split)

lemma update_first_rows:
  assumes "\<And>x. P x \<Longrightarrow> h (f x) = h x \<and> Q (f x) = Q x"
  shows "map h (filter Q (update_first P f xs)) = map h (filter Q xs)"
  using assms by (induction xs) auto

lemma cancel_leaves:
  assumes r: "recoverable n p" and n: "n \<le> 1500000" and seq: "unat seq = n" and s: "boundary p = BoundaryStep s"
    and rows: "planned env sid prefix time marker False p = cancel_row time i # fs" and i: "pending_approvals p = [i]"
  shows "leaves env sid prefix time marker p row (cancel_row time i seq) fs"
proof -
  let ?calls = "step_declared_calls s"
  let ?waits = "\<lambda>c. declared_approval c = Some (ApprovalPending i)"
  let ?f = "\<lambda>c. c\<lparr>declared_approval := Some (ApprovalResolved i OutcomeCancelled)\<rparr>"
  let ?d = "\<lparr>decided_id = i, decided_outcome = OutcomeCancelled\<rparr>"
  let ?q = "p\<lparr>boundary := BoundaryStep (s\<lparr>step_declared_calls := update_first ?waits ?f ?calls\<rparr>), pending_approvals := []\<rparr>"
  have strict: "policy p = DurableStrict" using r by (simp add: recoverable_def)
  note ok = recoverable_step(1) [OF r s]
  have "\<exists>c \<in> set ?calls. waiting_for (declared_approval c) = Some i"
    using calls_okD(5) [OF ok, symmetric] i map_filter_set [of i "\<lambda>c. waiting_for (declared_approval c)" ?calls] by simp
  then obtain c where c: "c \<in> set ?calls" "waiting_for (declared_approval c) = Some i" by blast
  then have waits: "?waits c" by (cases "declared_approval c" rule: waiting_for.cases) simp_all
  then have found: "\<exists>d. List.find ?waits ?calls = Some d"
    using c(1) by (cases "List.find ?waits ?calls") (auto simp: find_None_iff)
  have valid: "validate_approval_id i = Ok ()"
    using recoverable_step(2) [OF r s c(1)] c(2) by (simp add: call_known_def)
  show ?thesis unfolding cancel_row_def
  proof (rule quiet_leaves [OF r n, where ?p1.0 = p and q = ?q])
    fix e :: SessionEvent assume e: "event_kind e = ApprovalDecided ?d"
    show "apply_kind p e HistoricalScan = Ok ?q"
      using e s i strict found by (auto simp: apply_kind_def apply_approval_decided_def require_open_turn_def open_turn_def
          decide_durable_approval_def)
  next
    fix c' assume admitted: "apply_recovery_admission env p
      (fst (planned_event time (log_event (ApprovalDecided ?d)) (CancelApproval i) seq)) (CancelApproval i) row = Ok (?q\<lparr>compaction := c'\<rparr>)"
    let ?q' = "?q\<lparr>compaction := c'\<rparr>"
    have "recoverable (Suc n) ?q'" using seq by (intro admitted_recoverable [OF r _ admitted]) simp
    from recoverable_step(1) [OF this, of "s\<lparr>step_declared_calls := update_first ?waits ?f ?calls\<rparr>"]
    have none: "List.map_filter cancels (map recovery_call (update_first ?waits ?f ?calls)) = []"
      by (subst cancels_pending [where approvals = "[]"]) simp_all
    have "map (result_row env sid prefix (step_turn s) (step_id s) time \<circ> recovery_call)
          (filter (\<lambda>c. \<not> recovery_result_seen (recovery_call c)) (update_first ?waits ?f ?calls))
        = map (result_row env sid prefix (step_turn s) (step_id s) time \<circ> recovery_call)
          (filter (\<lambda>c. \<not> recovery_result_seen (recovery_call c)) ?calls)"
      by (rule update_first_rows) (simp add: cancelled_row)
    with rows none s i cancels_pending [OF ok]
    show "planned env sid prefix time marker (ApprovalDecided ?d = EndSeed) ?q' = fs"
      by (simp add: planned_def step_rows_def filter_map comp_def open_turn_def)
  qed (use valid in \<open>simp_all add: admit_recovery_action_def\<close>)
qed

lemma filter_first:
  assumes "filter P xs = y # ys"
  obtains as bs where "xs = as @ y # bs" and "\<forall>x \<in> set as. \<not> P x" and "P y" and "ys = filter P bs"
  using assms by (auto simp: filter_eq_Cons_iff)

lemma result_leaves:
  assumes env: "plain_env env" and r: "recoverable n p" and n: "n \<le> 1500000" and seq: "unat seq = n"
    and s: "boundary p = BoundaryStep s" and quiet: "pending_approvals p = []"
    and rows: "planned env sid prefix time marker False p = f # fs"
    and unresolved: "filter (\<lambda>c. \<not> declared_result_seen c) (step_declared_calls s) = c # cs"
    and row: "\<And>l. row = Some l \<Longrightarrow> row_seq l = seq" and room: "unat (surface_tokens p) + 1000 < 2 ^ 64"
  shows "leaves env sid prefix time marker p row (f seq) fs"
proof -
  note ok = recoverable_step(1) [OF r s]
  let ?calls = "step_declared_calls s" and ?c = "recovery_call c"
  let ?e = "result_event env sid prefix (step_turn s) (step_id s) time ?c seq"
  let ?b = "case row of None \<Rightarrow> BindPendingDurable | Some l \<Rightarrow> BindDurable l"
  obtain as bs where calls: "?calls = as @ c # bs" and seen: "\<forall>d \<in> set as. declared_result_seen d"
    and c: "\<not> declared_result_seen c" and cs: "cs = filter (\<lambda>c. \<not> declared_result_seen c) bs"
    using unresolved by (rule filter_first) simp
  have none: "List.map_filter cancels (map recovery_call ?calls) = []"
    using cancels_pending [OF ok] quiet by simp
  have f: "f = result_row env sid prefix (step_turn s) (step_id s) time ?c"
    and fs: "fs = map (result_row env sid prefix (step_turn s) (step_id s) time) (map recovery_call cs)
        @ close_step_row time (step_turn s) (step_id s) (recovery_proof env (attempt p))
        # close_turn_row time (step_turn s) # [seed_row marker]"
    using rows none unresolved s by (simp_all add: planned_def step_rows_def filter_map comp_def open_turn_def)
  have "c \<in> set ?calls" by (simp add: calls)
  note known = recoverable_step(2) [OF r s this]
  note id = known_call(1,2) [OF known]
  have small: "step_turn s \<le> MAX_SAFE_INTEGER" "step_id s \<le> MAX_SAFE_INTEGER"
    using recoverable_step(3,4) [OF r s] n by (simp_all add: small_safe)
  have intent: "recovery_intent_seq ?c = Some i \<Longrightarrow> i < seq" for i
    using known seq by (simp add: call_known_def recovery_call_def word_less_nat_alt)
  have c_id: "recovery_call_id ?c = declared_id c" "recovery_intent_seq ?c = declared_intent_seq c"
    by (simp_all add: recovery_call_def)
  obtain pending where kind: "apply_kind p ?e HistoricalScan = Ok (p\<lparr>boundary := BoundaryStep (s\<lparr>step_pending_calls := pending,
      step_declared_calls := as @ c\<lparr>declared_result_seen := True\<rparr> # bs\<rparr>)\<rparr>)"
    using result_transition [OF r s calls c quiet, of ?e] result_message_facts [OF id(1)] c_id by fastforce
  define p1 where "p1 = p\<lparr>boundary := BoundaryStep (s\<lparr>step_pending_calls := pending,
      step_declared_calls := as @ c\<lparr>declared_result_seen := True\<rparr> # bs\<rparr>)\<rparr>"
  have "unat (surface_tokens p1) + 1000 < 2 ^ 64" using room by (simp add: p1_def)
  from result_surface [OF env id small intent row this, where sid = sid and prefix = prefix and time = time]
  obtain q where q: "apply_surface env p1 ?e ?b = Ok q" "unat (surface_tokens q) \<le> unat (surface_tokens p) + 1000"
    by (auto simp: p1_def)
  have "unat (surface_generation (compaction p)) \<le> 3000000" using r n by (simp add: recoverable_def)
  from admission_ok [where env = env and e = ?e and p = p and action = "RepairCall (declared_id c)" and row = row
      and ?p2.0 = p1 and ?p3.0 = q, OF _ _ this _ _ q(1)]
  obtain c' where admitted: "apply_recovery_admission env p ?e (RepairCall (declared_id c)) row = Ok (q\<lparr>compaction := c'\<rparr>)"
    using kind result_message_facts(1) [OF id(1)] c_id by (auto simp: admit_recovery_action_def p1_def)
  let ?q = "q\<lparr>compaction := c'\<rparr>" and ?s = "s\<lparr>step_pending_calls := pending,
      step_declared_calls := as @ c\<lparr>declared_result_seen := True\<rparr> # bs\<rparr>"
  have q_state: "boundary ?q = BoundaryStep ?s" "pending_approvals ?q = []" "attempt ?q = attempt p"
    using apply_surface_same(1) [OF q(1)] attempt_kept(3) [OF q(1)] quiet by (simp_all add: same_turns_def p1_def)
  have "recoverable (Suc n) ?q" using seq by (intro admitted_recoverable [OF r _ admitted]) simp
  from cancels_pending [OF recoverable_step(1) [OF this q_state(1)]] q_state(2)
  have none': "List.map_filter cancels (map recovery_call (step_declared_calls ?s)) = []" by simp
  have "filter (\<lambda>c. \<not> declared_result_seen c) as = []" "filter (\<lambda>c. \<not> declared_result_seen c) bs = cs"
    using seen cs by simp_all
  with none' q_state fs have "planned env sid prefix time marker False ?q = fs"
    by (simp add: planned_def step_rows_def filter_map comp_def open_turn_def)
  with admitted q(2) show ?thesis by (auto simp: leaves_def f result_row_event c_id)
qed

text \<open>When every call has its result, the step and the turn can end.\<close>

lemma close_step_leaves:
  assumes r: "recoverable n p" and n: "n \<le> 1500000" and s: "boundary p = BoundaryStep s"
    and quiet: "pending_approvals p = []" and resolved: "filter (\<lambda>c. \<not> declared_result_seen c) (step_declared_calls s) = []"
  shows "leaves env sid prefix time marker p row
      (close_step_row time (step_turn s) (step_id s) (recovery_proof env (attempt p)) seq)
      [close_turn_row time (step_turn s), seed_row marker]"
proof -
  have at: "attempt_step (attempt p) = Some (step_turn s, step_id s)" by (rule recoverable_step(5) [OF r s])
  have "\<exists>a. (case recovery_proof env (attempt p) of
      Some evidence \<Rightarrow> interrupt_for_recovery env (attempt p) (step_turn s) (step_id s) evidence
    | None \<Rightarrow> attempt_step_end (attempt p) (step_turn s) (step_id s) None) = Ok a"
    using at by (cases "attempt_state (attempt p)")
      (auto simp: recovery_proof_def interrupt_for_recovery_def attempt_step_end_def attempt_step_def)
  then obtain a where a: "(case recovery_proof env (attempt p) of
      Some evidence \<Rightarrow> interrupt_for_recovery env (attempt p) (step_turn s) (step_id s) evidence
    | None \<Rightarrow> attempt_step_end (attempt p) (step_turn s) (step_id s) None) = Ok a" ..
  have none: "List.find (\<lambda>c. \<not> declared_result_seen c) (step_declared_calls s) = None"
    using resolved by (simp add: find_None_iff filter_empty_conv)
  have "unat (step_id s) \<le> 3000000" using recoverable_step(4) [OF r s] n by simp
  note succ = safe_successor_small [OF this]
  show ?thesis unfolding close_step_row_def
  proof (rule quiet_leaves [OF r n, where ?p1.0 = "p\<lparr>attempt := a\<rparr>"
        and q = "p\<lparr>attempt := a, boundary := BoundaryTurn (step_turn s) (step_id s + 1)\<rparr>"])
    fix e :: SessionEvent assume "event_kind e = StepEnd (step_turn s) (step_id s)"
    then show "apply_kind (p\<lparr>attempt := a\<rparr>) e HistoricalScan
        = Ok (p\<lparr>attempt := a, boundary := BoundaryTurn (step_turn s) (step_id s + 1)\<rparr>)"
      using s quiet none succ by (simp add: apply_kind_def apply_step_end_def require_open_step_def open_turn_def open_step_def
          unresolved_declaration_def)
  qed (use a in \<open>simp_all add: admit_recovery_action_def set_attempt_def planned_def open_turn_def\<close>)
qed

lemma close_turn_leaves:
  assumes r: "recoverable n p" and n: "n \<le> 1500000" and t: "boundary p = BoundaryTurn t s"
  shows "leaves env sid prefix time marker p row (close_turn_row time t seq) [seed_row marker]"
proof -
  have quiet: "pending_approvals p = []" using r t by (simp add: recoverable_def strict_ok_def)
  have "unat t \<le> 3000000" using recoverable_turn(1) [OF r, of t] n t by (simp add: open_turn_def)
  note succ = safe_successor_small [OF this]
  let ?q = "p\<lparr>next_turn := t + 1, boundary := BoundaryIdle, time_context := (time_context p)\<lparr>open_turn_reading := None\<rparr>\<rparr>"
  show ?thesis unfolding close_turn_row_def
  proof (rule quiet_leaves [OF r n, where ?p1.0 = p and q = ?q])
    fix e :: SessionEvent assume "event_kind e = TurnEnd t TurnInterrupted"
    then show "apply_kind p e HistoricalScan = Ok ?q"
      using t quiet succ by (simp add: apply_kind_def apply_turn_end_def open_turn_def open_step_def)
  qed (simp_all add: admit_recovery_action_def planned_def open_turn_def turn_end_validate_def)
qed

lemma seed_leaves:
  assumes r: "recoverable n p" and n: "n \<le> 1500000" and idle: "boundary p = BoundaryIdle"
  shows "leaves env sid prefix time marker p row (seed_row marker seq) []"
  unfolding seed_row_def
proof (rule quiet_leaves [OF r n, where ?p1.0 = p and q = p])
  have "attempt_step (attempt p) = None"
    using r idle by (simp add: recoverable_def attempt_fits_def step_place_boundary)
  then show "admit_recovery_action env p EndSeedAction EndSeed = Ok p"
    by (simp add: admit_recovery_action_def attempt_step_outside attempt_outside_def)
qed (use idle in \<open>simp_all add: apply_kind_def planned_def open_turn_def\<close>)

section \<open>The first row of a plan\<close>

theorem planned_leaves:
  assumes env: "plain_env env" and r: "recoverable n p" and n: "n \<le> 1500000" and seq: "unat seq = n"
    and rows: "planned env sid prefix time marker False p = f # fs"
    and row: "\<And>l. row = Some l \<Longrightarrow> row_seq l = seq" and room: "unat (surface_tokens p) + 1000 < 2 ^ 64"
  shows "leaves env sid prefix time marker p row (f seq) fs"
proof (cases "boundary p")
  case BoundaryIdle
  with seed_leaves [OF r n] rows show ?thesis by (auto simp: planned_def open_turn_def)
next
  case (BoundaryTurn t s)
  with close_turn_leaves [OF r n BoundaryTurn] rows show ?thesis by (auto simp: planned_def open_turn_def)
next
  case (BoundaryStep s)
  note ok = recoverable_step(1) [OF r BoundaryStep]
  show ?thesis
  proof (cases "pending_approvals p")
    case (Cons i rest)
    with calls_okD(6) [OF ok] have i: "pending_approvals p = [i]" by simp
    then have "f = cancel_row time i"
      using rows BoundaryStep cancels_pending [OF ok] by (simp add: planned_def step_rows_def)
    with cancel_leaves [OF r n seq BoundaryStep _ i] rows show ?thesis by simp
  next
    case Nil
    show ?thesis
    proof (cases "filter (\<lambda>c. \<not> declared_result_seen c) (step_declared_calls s)")
      case (Cons c cs)
      with result_leaves [OF env r n seq BoundaryStep \<open>pending_approvals p = []\<close> rows _ row room] show ?thesis by blast
    next
      case res: Nil
      with rows BoundaryStep cancels_pending [OF ok] Nil
      have "f = close_step_row time (step_turn s) (step_id s) (recovery_proof env (attempt p))"
        "fs = [close_turn_row time (step_turn s), seed_row marker]"
        by (simp_all add: planned_def step_rows_def filter_map comp_def open_turn_def)
      with close_step_leaves [OF r n BoundaryStep Nil res] show ?thesis by simp
    qed
  qed
qed

end
