(* ===== verification/Recovery_Correct.thy ===== *)
theory Recovery_Correct
  imports Recovery_Step
begin

text \<open>
  Recovery of a session that crashed: the scan of its journal arrives at a projection that can be
  repaired, the plan is accepted row by row and leaves a quiescent session, and a recovery that
  crashes itself is continued by the next one where it stopped.
\<close>

section \<open>What the scan keeps\<close>

definition scan_ok :: "ColdScan \<Rightarrow> bool" where
  "scan_ok c \<longleftrightarrow> recoverable (unat (scan_logical_events c)) (scan_projection c)
     \<and> scan_logical_events c \<le> scan_body_lines c \<and> scan_body_lines c \<le> MAX_SCAN_EVENTS
     \<and> scan_next_seq c = Some (scan_logical_events c)
     \<and> (0 < scan_logical_events c \<longrightarrow> scan_last_event_time c \<noteq> None)"

lemma cold_event_cases:
  assumes "apply_cold_event env sp p e ctx cursor = Inr (q, cursor')"
  obtains (scanned) "apply_scanned_row env p e (ctx_row ctx) = Inr q"
    | (admitted) action anchor where "apply_recovery_admission env p e action (Some (ctx_row ctx)) = Inr q"
        "cold_matches env sp p e ctx anchor = Ok (Some action)"
  using assms
  by (auto simp: apply_cold_event_def continue_recovery_def start_recovery_def scan_ordinary_def cold_admit_def
      Let_def result_simps split: if_splits option.splits sum.splits EventValidationError.splits TransitionError.splits)

lemma scan_event_ok:
  assumes ok: "scan_ok c" and seq: "scan_next_seq c = Some (event_seq e)" and room: "scan_logical_events c < scan_body_lines c"
    and scan: "scan_event env sp sid c e row ends = Ok c'"
  shows "scan_ok c'"
proof -
  let ?ctx = "\<lparr>ctx_session_id = sid, ctx_expected_seq = scan_next_seq c, ctx_previous_time = scan_last_event_time c,
        ctx_logical_events = scan_logical_events c, ctx_previous_ends_with_seed = scan_ends_with_seed c, ctx_row = row\<rparr>"
  from scan obtain p cursor where p: "apply_cold_event env sp (scan_projection c) e ?ctx (scan_recovery_cursor c) = Inr (p, cursor)"
    and logical: "checked_add (scan_logical_events c) 1 = Some (scan_logical_events c')"
    and c': "scan_projection c' = p" "scan_body_lines c' = scan_body_lines c" "scan_next_seq c' = safe_successor (event_seq e)"
      "scan_last_event_time c' = Some (event_time e)"
    by (auto simp: scan_event_def result_simps)
  from ok seq have e: "event_seq e = scan_logical_events c" by (simp add: scan_ok_def)
  have suc: "unat (scan_logical_events c') = Suc (unat (scan_logical_events c))"
    "scan_logical_events c' = scan_logical_events c + 1"
    using checked_add_Some [OF logical] logical by (auto simp: checked_add_def split: if_splits)
  have r: "recoverable (unat (scan_logical_events c)) (scan_projection c)" using ok by (simp add: scan_ok_def)
  have "recoverable (Suc (unat (scan_logical_events c))) p"
    using p
  proof (cases rule: cold_event_cases)
    case scanned
    then show ?thesis using e by (intro scanned_recoverable [OF r]) simp_all
  next
    case (admitted action anchor)
    then show ?thesis using e by (intro admitted_recoverable [OF r]) simp_all
  qed
  moreover have "unat (scan_logical_events c) \<le> 3000000"
    using ok by (auto simp: scan_ok_def word_le_nat_alt MAX_SCAN_EVENTS_def)
  from safe_successor_small [OF this] have "safe_successor (event_seq e) = Some (scan_logical_events c')"
    using suc e by simp
  moreover have "scan_logical_events c' \<le> scan_body_lines c"
    using room suc(1) by (simp add: word_le_nat_alt word_less_nat_alt)
  ultimately show ?thesis using ok suc c' by (simp add: scan_ok_def)
qed

lemma scan_line_ok:
  assumes ok: "scan_ok c" and scan: "scan_line env sp sid c l = Ok c'"
  shows "scan_ok c'"
proof -
  from scan obtain lines where lines: "checked_add (scan_body_lines c) 1 = Some lines" and small: "lines \<le> MAX_SCAN_EVENTS"
    by (auto simp: scan_line_def result_simps not_less split: if_splits)
  have less: "scan_body_lines c < lines" using lines by (rule checked_add_less) simp
  let ?c = "c\<lparr>scan_body_lines := lines\<rparr>"
  have ok': "scan_ok ?c" "scan_ok (?c\<lparr>scan_bad_suffix := True\<rparr>)" using ok small less by (auto simp: scan_ok_def)
  have "scan_logical_events ?c < scan_body_lines ?c" using ok less by (auto simp: scan_ok_def)
  note step = scan_event_ok [OF ok'(1) _ this]
  from scan lines small ok' show ?thesis
    by (auto simp: scan_line_def Let_def not_less split: if_splits LineDecode.splits intro: step)
qed

interpretation scanning: keeps "scan_line env sp sid" scan_ok for env sp sid
  by unfold_locales (rule scan_line_ok)

lemma scan_start_ok: "scan_ok (cold_scan_start sid hdr)"
  by (simp add: scan_ok_def cold_scan_start_def fresh_recoverable event_seq_from_index_def MAX_SCAN_EVENTS_def MAX_SAFE_INTEGER_def)

lemma scan_lines_ok: "scan_lines env sp sid hdr ls = Ok c \<Longrightarrow> scan_ok c"
  unfolding scan_lines_def by (rule scanning.run_keeps [OF scan_start_ok])

lemma scan_ok_small: "scan_ok c \<Longrightarrow> unat (scan_logical_events c) \<le> 1000000"
  by (auto simp: scan_ok_def word_le_nat_alt MAX_SCAN_EVENTS_def)

text \<open>A seed marker is only written to an idle session, and it closes the bracket.\<close>

definition seed_idle :: "ColdScan \<Rightarrow> bool" where
  "seed_idle c \<longleftrightarrow> (scan_ends_with_seed c \<longrightarrow> boundary (scan_projection c) = BoundaryIdle
     \<and> open_compaction (compaction (scan_projection c)) = None \<and> scan_recovery_cursor c = None)"

lemma planned_head:
  assumes "planned env sid prefix time marker False p = f # fs"
  shows "event_kind (fst (f seq)) = EndSeed \<longleftrightarrow> boundary p = BoundaryIdle" and "boundary p = BoundaryIdle \<Longrightarrow> fs = []"
proof -
  show "boundary p = BoundaryIdle \<Longrightarrow> fs = []" using assms by (simp add: planned_def open_turn_def)
  show "event_kind (fst (f seq)) = EndSeed \<longleftrightarrow> boundary p = BoundaryIdle"
  proof (cases "boundary p")
    case (BoundaryStep s)
    let ?rows = "step_rows env sid prefix time (step_turn s) (step_id s) (map recovery_call (step_declared_calls s))"
    have "event_kind (fst (g seq)) \<noteq> EndSeed" if "g \<in> set ?rows" for g
      using that by (auto simp: step_rows_def cancel_row_def result_row_event)
    moreover have "f \<in> set ?rows \<or> f = close_step_row time (step_turn s) (step_id s) (recovery_proof env (attempt p))"
      using assms BoundaryStep by (cases ?rows) (auto simp: planned_def)
    ultimately show ?thesis using BoundaryStep by (auto simp: close_step_row_def)
  qed (use assms in \<open>auto simp: planned_def open_turn_def seed_row_def close_turn_row_def\<close>)
qed

text \<open>The time of the rows that close a step or a turn is that of the last event.\<close>

definition closer :: "ColdScan \<Rightarrow> UnixMillis" where
  "closer c = (case scan_last_event_time c of None \<Rightarrow> 0 | Some t \<Rightarrow> t)"

lemma closer_time:
  assumes "scan_ok c" and "boundary (scan_projection c) \<noteq> BoundaryIdle"
  shows "scan_last_event_time c = Some (closer c)"
proof -
  from assms(2) obtain t where "open_turn (scan_projection c) = Some t"
    by (cases "boundary (scan_projection c)") (simp_all add: open_turn_def)
  with assms(1) have "0 < unat (scan_logical_events c)" by (auto simp: scan_ok_def dest: recoverable_turn(2))
  with assms(1) show ?thesis by (auto simp: scan_ok_def closer_def word_less_nat_alt split: option.splits)
qed

definition scan_ctx :: "SessionId \<Rightarrow> ColdScan \<Rightarrow> JournalRowLocator \<Rightarrow> ColdEventContext" where
  "scan_ctx sid c row = \<lparr>ctx_session_id = sid, ctx_expected_seq = scan_next_seq c, ctx_previous_time = scan_last_event_time c,
     ctx_logical_events = scan_logical_events c, ctx_previous_ends_with_seed = scan_ends_with_seed c, ctx_row = row\<rparr>"

text \<open>Looking for a repair row compares the event with the first row of the plan.\<close>

lemma cold_matches_plan:
  assumes env: "plain_env env" and ok: "scan_ok c"
  shows "cold_matches env sp (scan_projection c) e (scan_ctx sid c row) anchor =
    and_then (apply_repair env (scan_projection c) (numbered (scan_logical_events c)
        (planned env sid anchor (closer c) (event_time e) False (scan_projection c))))
      (\<lambda>_. Ok (case numbered (scan_logical_events c)
            (planned env sid anchor (closer c) (event_time e) False (scan_projection c)) of
          [] \<Rightarrow> None
        | (r, action) # _ \<Rightarrow> if repair_event_equal env r e then Some action else None))"
proof -
  have r: "recoverable (unat (scan_logical_events c)) (scan_projection c)"
    and seq: "scan_next_seq c = Some (scan_logical_events c)"
    using ok by (simp_all add: scan_ok_def)
  have small: "unat (scan_logical_events c) \<le> 1500000" using scan_ok_small [OF ok] by simp
  obtain plan where plan: "plan_rows plan = numbered (scan_logical_events c)
        (planned env sid anchor (closer c) (event_time e) False (scan_projection c))"
    "build_recovery_plan env sp (scan_projection c) sid (Some (scan_logical_events c)) anchor (scan_last_event_time c)
        (event_time e) False (scan_logical_events c) =
      and_then (apply_repair env (scan_projection c) (plan_rows plan)) (\<lambda>q. Ok (plan, q))"
    using build_planned [OF env r small refl small closer_time [OF ok], where sid = sid and prefix = anchor
        and marker = "event_time e" and seed = False and sp = sp] by auto
  show ?thesis
    by (simp add: cold_matches_def recovery_event_matches_def scan_ctx_def seq plan(2))
      (cases "apply_repair env (scan_projection c) (plan_rows plan)"; simp add: plan(1))
qed

lemma scan_line_seed_idle:
  assumes env: "plain_env env" and inv: "scan_ok c \<and> seed_idle c" and scan: "scan_line env sp sid c l = Ok c'"
  shows "scan_ok c' \<and> seed_idle c'"
proof
  show "scan_ok c'" using inv scan by (blast intro: scan_line_ok)
  have event: "seed_idle d'" if ok: "scan_ok d" and e: "scan_event env sp sid d e row ends = Ok d'" for d d' e row ends
  proof (cases "event_kind e = EndSeed")
    case False
    then show ?thesis using e by (auto simp: scan_event_def result_simps seed_idle_def)
  next
    case True
    from e obtain p cursor where p: "apply_cold_event env sp (scan_projection d) e (scan_ctx sid d row) (scan_recovery_cursor d) = Inr (p, cursor)"
      and d': "scan_projection d' = p" "scan_recovery_cursor d' = cursor"
      by (auto simp: scan_event_def result_simps scan_ctx_def)
    have r: "recoverable (unat (scan_logical_events d)) (scan_projection d)" using ok by (simp add: scan_ok_def)
    then have strict: "policy (scan_projection d) = DurableStrict" by (simp add: recoverable_def)
    have cursor: "cursor = None"
      using p True by (auto simp: apply_cold_event_def continue_recovery_def start_recovery_def scan_ordinary_def
          is_tentative_recovery_start_def Let_def result_simps
          split: if_splits option.splits sum.splits EventValidationError.splits TransitionError.splits)
    from p show ?thesis
    proof (cases rule: cold_event_cases)
      case scanned
      from scanned_stepped [OF this strict] strict True have False
        by (auto simp: stepped_def apply_transition_def is_unprivileged_durable_def same_turns_def)
      then show ?thesis ..
    next
      case (admitted action anchor)
      from admitted(2) obtain f fs where plan: "planned env sid anchor (closer d) (event_time e) False (scan_projection d) = f # fs"
        and eq: "repair_event_equal env (fst (f (scan_logical_events d))) e"
        by (auto simp: cold_matches_plan [OF env ok] and_then_Inr split: list.splits prod.splits if_splits)
          (metis list.exhaust numbered.simps fst_conv list.inject neq_Nil_conv)
      from eq True have "event_kind (fst (f (scan_logical_events d))) = EndSeed"
        by (auto simp: repair_event_equal_def repair_kind_equal_def split: EventKind.splits TurnEndReason.splits option.splits)
      with planned_head(1) [OF plan] have idle: "boundary (scan_projection d) = BoundaryIdle" by simp
      from admitted_stepped [OF admitted(1)] obtain m m' where c: "next_compaction_state env (scan_projection d) e HistoricalScan = Ok (compaction p)"
        and m: "same_turns (scan_projection d) m" "apply_transition m e HistoricalScan = Ok m'" "same_turns m' p"
        by (auto simp: stepped_def)
      from m(2) True have "m' = m"
        by (auto simp: apply_transition_def apply_kind_def capture_first_prompt_def and_then_Inr split: if_splits)
      with m idle have "boundary p = BoundaryIdle" by (simp add: same_turns_def)
      with historical_bracket [OF c] True cursor d' show ?thesis by (simp add: seed_idle_def)
    qed
  qed
  have more: "seed_idle (c\<lparr>scan_body_lines := x\<rparr>)" "seed_idle (c\<lparr>scan_body_lines := x, scan_bad_suffix := True\<rparr>)"
    "scan_ok (c\<lparr>scan_body_lines := x\<rparr>)" if "scan_body_lines c < x" "x \<le> MAX_SCAN_EVENTS" for x
    using inv that by (auto simp: seed_idle_def scan_ok_def)
  from scan show "seed_idle c'"
    by (auto simp: scan_line_def Let_def result_simps not_less split: if_splits LineDecode.splits
        dest!: checked_add_less intro: more event)
qed

interpretation seeding: keeps "scan_line env sp sid" "\<lambda>c. plain_env env \<longrightarrow> scan_ok c \<and> seed_idle c" for env sp sid
  by unfold_locales (use scan_line_seed_idle in \<open>metis (no_types, lifting)\<close>)

lemma scan_lines_seed_idle:
  assumes "plain_env env" and "scan_lines env sp sid hdr ls = Ok c"
  shows "seed_idle c"
proof -
  have "seed_idle (cold_scan_start sid hdr)" by (simp add: seed_idle_def cold_scan_start_def)
  with seeding.run_keeps [of env "cold_scan_start sid hdr" sp sid ls c] scan_start_ok assms show ?thesis
    by (simp add: scan_lines_def)
qed

section \<open>Recovery completes\<close>

lemma planned_leavesE:
  assumes "leaves env sid prefix time marker p row (f seq) fs"
  obtains q where "apply_recovery_admission env p (fst (f seq)) (snd (f seq)) row = Ok q"
    and "planned env sid prefix time marker (event_kind (fst (f seq)) = EndSeed) q = fs"
    and "unat (surface_tokens q) \<le> unat (surface_tokens p) + 1000"
  using assms by (auto simp: leaves_def)

lemma planned_seq: "f \<in> set (planned env sid prefix time marker seed p) \<Longrightarrow> event_seq (fst (f seq)) = seq"
  by (auto simp: planned_def step_rows_def cancel_row_def result_row_event close_step_row_def close_turn_row_def seed_row_def
      split: Boundary.splits option.splits if_splits)

lemma repair_completes:
  assumes env: "plain_env env"
  shows "recoverable n p \<Longrightarrow> unat seq = n \<Longrightarrow> n + length fs \<le> 1500000 \<Longrightarrow> planned env sid prefix time marker False p = fs
    \<Longrightarrow> unat (surface_tokens p) + 1000 * length fs < 2 ^ 64
    \<Longrightarrow> \<exists>q. apply_repair env p (numbered seq fs) = Ok q \<and> recoverable (n + length fs) q \<and> boundary q = BoundaryIdle
      \<and> open_compaction (compaction q) = None"
proof (induction fs arbitrary: n p seq)
  case Nil
  then show ?case by (simp add: planned_def)
next
  case (Cons f fs)
  note r = Cons.prems(1) and seq = Cons.prems(2) and plan = Cons.prems(4)
  have "n \<le> 1500000" "unat (surface_tokens p) + 1000 < 2 ^ 64" using Cons.prems(3,5) by simp_all
  from planned_leaves [OF env r this(1) seq plan _ this(2), of None]
  obtain q where q: "apply_recovery_admission env p (fst (f seq)) (snd (f seq)) None = Ok q"
      "planned env sid prefix time marker (event_kind (fst (f seq)) = EndSeed) q = fs"
      "unat (surface_tokens q) \<le> unat (surface_tokens p) + 1000"
    by (auto elim: planned_leavesE)
  have "event_seq (fst (f seq)) = seq" using planned_seq [of f] plan by (metis list.set_intros(1))
  with seq have rq: "recoverable (Suc n) q" by (intro admitted_recoverable [OF r _ q(1)]) simp
  have step: "apply_repair env p (numbered seq (f # fs)) = apply_repair env q (numbered (seq + 1) fs)"
    using q(1) by (cases "f seq") simp
  show ?case
  proof (cases "event_kind (fst (f seq)) = EndSeed")
    case True
    with planned_head [OF plan] have idle: "boundary p = BoundaryIdle" "fs = []" by simp_all
    with q(2) True have "boundary q = BoundaryIdle" by (auto simp: planned_def open_turn_def split: Boundary.splits)
    moreover from admitted_stepped [OF q(1)] have "next_compaction_state env p (fst (f seq)) HistoricalScan = Ok (compaction q)"
      by (simp add: stepped_def)
    from historical_bracket [OF this] True have "open_compaction (compaction q) = None" by simp
    ultimately show ?thesis using step rq idle(2) by simp
  next
    case False
    have "unat (seq + 1) = Suc n" using small_add [of seq 1] seq Cons.prems(3) by simp
    with Cons.IH [OF rq] q(2,3) False Cons.prems(3,5) step show ?thesis by simp
  qed
qed

lemma idle_quiescent:
  assumes "recoverable n p" and "boundary p = BoundaryIdle" and "open_compaction (compaction p) = None"
  shows "is_quiescent_for_search p"
proof -
  have "attempt_step (attempt p) = None" using assms(1,2) by (simp add: recoverable_def attempt_fits_def step_place_boundary)
  with assms show ?thesis
    by (simp add: is_quiescent_for_search_def attempt_step_outside attempt_outside_def recoverable_def strict_ok_def
        has_pending_durable_call_def)
qed

text \<open>The anchor of a scan: where the recovery that it continues began, or the last row.\<close>

definition scan_anchor :: "ColdScan \<Rightarrow> EventSeq option" where
  "scan_anchor c = (case scan_recovery_cursor c of
      None \<Rightarrow> Option.bind (scan_next_seq c) seq_before
    | Some cursor \<Rightarrow> root_last_real_seq cursor)"

definition scan_plan :: "session_env \<Rightarrow> SessionId \<Rightarrow> UnixMillis \<Rightarrow> ColdScan \<Rightarrow> planned_row list" where
  "scan_plan env sid marker c = planned env sid (scan_anchor c) (closer c) marker (scan_ends_with_seed c) (scan_projection c)"

lemma prepare_recovery_plan:
  assumes env: "plain_env env" and ok: "scan_ok c"
  shows "\<exists>plan. plan_rows plan = numbered (scan_logical_events c) (scan_plan env sid marker c)
    \<and> prepare_recovery env sp sid c marker
      = and_then (apply_repair env (scan_projection c) (plan_rows plan)) (\<lambda>q. Ok (plan, q))"
proof -
  have r: "recoverable (unat (scan_logical_events c)) (scan_projection c)"
    and seq: "scan_next_seq c = Some (scan_logical_events c)"
    using ok by (simp_all add: scan_ok_def)
  have small: "unat (scan_logical_events c) \<le> 1500000" using scan_ok_small [OF ok] by simp
  have "compaction_recovery_is_consistent (scan_projection c)"
    using r by (auto simp: recoverable_def bracket_quiet_def compaction_recovery_is_consistent_def)
  then show ?thesis
    using build_planned [OF env r small refl small closer_time [OF ok], where sid = sid and prefix = "scan_anchor c"
        and marker = marker and seed = "scan_ends_with_seed c" and sp = sp]
    by (auto simp: prepare_recovery_def scan_plan_def scan_anchor_def seq)
qed

section \<open>The actions of a plan\<close>

text \<open>What recovery does, read off the projection.\<close>

definition repair_actions :: "session_env \<Rightarrow> LiveProjection \<Rightarrow> bool \<Rightarrow> RecoveryAction list" where
  "repair_actions env p seeded =
     (case boundary p of
        BoundaryStep s \<Rightarrow> map CancelApproval (pending_approvals p)
          @ map (\<lambda>c. RepairCall (declared_id c)) (filter (\<lambda>c. \<not> declared_result_seen c) (step_declared_calls s))
          @ [CloseStep (step_turn s) (step_id s) (recovery_proof env (attempt p))]
      | _ \<Rightarrow> [])
     @ (case open_turn p of None \<Rightarrow> [] | Some turn \<Rightarrow> [CloseTurn turn])
     @ (if seeded then [] else [EndSeedAction])"

lemma numbered_actions:
  "map snd (numbered seq (map (cancel_row time) is)) = map CancelApproval is"
  "map snd (numbered seq (map (\<lambda>c. result_row env sid prefix turn step time (recovery_call c)) cs))
     = map (\<lambda>c. RepairCall (declared_id c)) cs"
  "map snd (numbered seq [f]) = [snd (f seq)]"
  by (induction "is" arbitrary: seq) (simp_all add: cancel_row_def, induction cs arbitrary: seq, simp_all add: result_row_event, simp add: recovery_call_def)

lemma planned_actions:
  assumes "recoverable n p"
  shows "map snd (numbered seq (planned env sid prefix time marker seed p)) = repair_actions env p seed"
proof (cases "boundary p")
  case (BoundaryStep s)
  with cancels_pending [OF recoverable_step(1) [OF assms BoundaryStep]] show ?thesis
    by (simp add: planned_def step_rows_def repair_actions_def numbered_append numbered_actions open_turn_def
        close_step_row_def close_turn_row_def seed_row_def filter_map comp_def)
qed (simp_all add: planned_def repair_actions_def open_turn_def close_turn_row_def seed_row_def)

section \<open>Reading a repair row again\<close>

lemma planned_split: "planned env sid prefix time marker False p = planned env sid prefix time m' True p @ [seed_row marker]"
  by (simp add: planned_def)

lemma result_message_equal:
  assumes env: "plain_env env" and i: "length (recovery_call_id c) \<le> 1024"
  shows "message_equal env (result_message env sid prefix c seq) (result_message env sid prefix c seq)"
    and "plain_value 6 (message_raw (result_message env sid prefix c seq))"
  by (simp_all add: message_equal_def result_message_def Let_def block_equal_def plain_values_equal result_values)

lemma planned_equal:
  assumes env: "plain_env env" and r: "recoverable n p" and n: "n \<le> 1500000"
    and f: "f \<in> set (planned env sid prefix time marker seed p)"
  shows "repair_event_equal env (fst (f seq)) (fst (f seq))"
proof -
  have seed: "repair_event_equal env (fst (seed_row marker seq)) (fst (seed_row marker seq))"
    by (simp add: repair_event_equal_def repair_kind_equal_def seed_row_def planned_event_def event_from_new_def log_event_def
        repair_data_value_def plain_values_equal)
  have turn: "repair_event_equal env (fst (close_turn_row time t seq)) (fst (close_turn_row time t seq))"
    if "open_turn p = Some t" for t
    using recoverable_turn(1) [OF r that] n
    by (simp add: repair_event_equal_def repair_kind_equal_def close_turn_row_def planned_event_def event_from_new_def log_event_def
        repair_data_value_def plain_values_equal plain_number small_safe)
  show ?thesis
  proof (cases "boundary p")
    case (BoundaryStep s)
    have small: "step_turn s \<le> MAX_SAFE_INTEGER" "step_id s \<le> MAX_SAFE_INTEGER"
      using recoverable_step(3,4) [OF r BoundaryStep] n by (simp_all add: small_safe)
    have cancel: "repair_event_equal env (fst (cancel_row time i seq)) (fst (cancel_row time i seq))" for i
      by (simp add: repair_event_equal_def repair_kind_equal_def cancel_row_def planned_event_def event_from_new_def log_event_def
          repair_data_value_def plain_values_equal)
    have step: "repair_event_equal env (fst (close_step_row time (step_turn s) (step_id s) x seq))
        (fst (close_step_row time (step_turn s) (step_id s) x seq))" for x
      using small by (simp add: repair_event_equal_def repair_kind_equal_def close_step_row_def planned_event_def
          event_from_new_def log_event_def repair_data_value_def plain_values_equal plain_number)
    have result: "repair_event_equal env (result_event env sid prefix (step_turn s) (step_id s) time (recovery_call d) seq)
        (result_event env sid prefix (step_turn s) (step_id s) time (recovery_call d) seq)"
      if "d \<in> set (step_declared_calls s)" for d
    proof -
      note i = known_call(2) [OF recoverable_step(2) [OF r BoundaryStep that]]
      have "plain_value 7 (message_raw (result_message env sid prefix (recovery_call d) seq))"
        by (simp add: result_message_def Let_def result_values)
      then show ?thesis using small
        by (simp add: repair_event_equal_def repair_kind_equal_def result_message_equal [OF env i] result_event_data
            plain_values_equal plain_number tool_failure_value_def)
    qed
    show ?thesis using f BoundaryStep seed turn cancel step result
      by (auto simp: planned_def step_rows_def result_row_event open_turn_def split: if_splits)
  qed (use f seed turn in \<open>auto simp: planned_def split: if_splits option.splits\<close>)
qed

text \<open>The rows that no live session may write are refused as such, before anything is changed.\<close>

lemma recovery_row_refused:
  assumes strict: "policy p = DurableStrict" and valid: "event_validate env (event_kind e) = Ok ()"
    and kind: "is_recovery_boundary (event_kind e) \<or> is_recovery_result (event_kind e)"
  shows "\<exists>t. apply_scanned_row env p e row = Inl (EvTransition (DurableRecoveryEventNotAllowed t))"
proof -
  have c: "next_compaction_state env p e ColdScan = Ok (compaction p)"
    using kind strict by (cases "event_kind e") (auto simp: next_compaction_state_def is_unprivileged_durable_def)
  have g: "apply_goal_transition p e = Ok p"
    using kind by (cases "event_kind e") (auto simp: apply_goal_transition_def)
  have a: "apply_attempt_transition env p e ColdScan None = Ok p"
    using kind strict by (cases "event_kind e") (auto simp: apply_attempt_transition_def apply_attempt_event_def)
  have t: "\<exists>x. apply_transition p e ColdScan = Err (DurableRecoveryEventNotAllowed x)"
    using kind strict by (auto simp: apply_transition_def is_unprivileged_durable_def)
  show ?thesis
    using kind t unfolding apply_scanned_row_def valid by (cases "event_kind e") (auto simp: c g a map_err_def)
qed

text \<open>A row of a plan that no live session may write, or that may begin a repair.\<close>

lemma planned_kinds:
  assumes env: "plain_env env" and r: "recoverable n p" and f: "f \<in> set (planned env sid prefix time marker seed p)"
  shows "event_validate env (event_kind (fst (f seq))) = Ok ()"
    and "is_tentative_recovery_start (event_kind (fst (f seq)))
      \<or> is_recovery_boundary (event_kind (fst (f seq))) \<or> is_recovery_result (event_kind (fst (f seq)))"
proof -
  have "event_validate env (event_kind (fst (f seq))) = Ok () \<and> (is_tentative_recovery_start (event_kind (fst (f seq)))
      \<or> is_recovery_boundary (event_kind (fst (f seq))) \<or> is_recovery_result (event_kind (fst (f seq))))"
  proof (cases "boundary p")
    case (BoundaryStep s)
    have result: "event_validate env (event_kind (result_event env sid prefix (step_turn s) (step_id s) time (recovery_call d) seq)) = Ok ()
        \<and> is_recovery_result (event_kind (result_event env sid prefix (step_turn s) (step_id s) time (recovery_call d) seq))"
      if "d \<in> set (step_declared_calls s)" for d
      using result_message_facts [OF known_call(1) [OF recoverable_step(2) [OF r BoundaryStep that]]] by simp
    have cancel: "validate_approval_id i = Ok ()"
      if "i \<in> set (List.map_filter cancels (map recovery_call (step_declared_calls s)))" for i
    proof -
      from that obtain d where d: "d \<in> set (step_declared_calls s)" "cancels (recovery_call d) = Some i"
        by (auto simp: map_filter_set)
      then have "recovery_approval (recovery_call d) = RecoveryApprovalPending i"
        by (simp add: cancels_def split: RecoveryApproval.splits if_splits)
      with known_call(3) [OF recoverable_step(2) [OF r BoundaryStep d(1)]] show ?thesis by blast
    qed
    show ?thesis using f BoundaryStep result cancel
      by (auto simp: planned_def step_rows_def result_row_event open_turn_def cancel_row_def close_step_row_def
          close_turn_row_def seed_row_def is_tentative_recovery_start_def turn_end_validate_def split: if_splits)
  qed (use f in \<open>auto simp: planned_def close_turn_row_def seed_row_def turn_end_validate_def open_turn_def split: if_splits\<close>)
  then show "event_validate env (event_kind (fst (f seq))) = Ok ()"
    and "is_tentative_recovery_start (event_kind (fst (f seq)))
      \<or> is_recovery_boundary (event_kind (fst (f seq))) \<or> is_recovery_result (event_kind (fst (f seq)))"
    by blast+
qed

text \<open>Every row but the seed marker has the closing time.\<close>

lemma planned_time: "f \<in> set (planned env sid prefix time marker True p) \<Longrightarrow> event_time (fst (f seq)) = time"
  by (auto simp: planned_def step_rows_def cancel_row_def result_row_event close_step_row_def close_turn_row_def
      split: Boundary.splits option.splits)

lemma cold_admits_planned:
  assumes env: "plain_env env" and ok: "scan_ok c" and live: "\<not> scan_ends_with_seed c"
    and plan: "planned env sid (scan_anchor c) (closer c) marker False (scan_projection c) = f # fs"
    and room: "unat (surface_tokens (scan_projection c)) + 1000 * length (f # fs) < 2 ^ 64"
    and row: "row_seq row = scan_logical_events c"
    and q: "apply_recovery_admission env (scan_projection c) (fst (f (scan_logical_events c)))
      (snd (f (scan_logical_events c))) (Some row) = Ok q"
  shows "\<exists>cursor. apply_cold_event env sp (scan_projection c) (fst (f (scan_logical_events c))) (scan_ctx sid c row)
      (scan_recovery_cursor c) = Ok (q, cursor)
    \<and> (if fs = [] then cursor = None else \<exists>cur. cursor = Some cur \<and> root_last_real_seq cur = scan_anchor c)"
proof -
  let ?p = "scan_projection c" and ?seq = "scan_logical_events c"
  let ?e = "fst (f ?seq)"
  have r: "recoverable (unat ?seq) ?p" and nseq: "scan_next_seq c = Some ?seq" using ok by (simp_all add: scan_ok_def)
  have small: "unat ?seq \<le> 1000000" by (rule scan_ok_small [OF ok])
  have f: "f \<in> set (planned env sid (scan_anchor c) (closer c) marker False ?p)" by (simp add: plan)
  have seq: "event_seq ?e = ?seq" using planned_seq [OF f] .
  have seed: "event_kind ?e = EndSeed \<longleftrightarrow> fs = []"
    using planned_head [OF plan] plan by (auto simp: planned_def open_turn_def split: Boundary.splits)
  have head: "\<exists>gs. planned env sid (scan_anchor c) (closer c) (event_time ?e) False ?p = f # gs \<and> length gs = length fs"
  proof (cases "planned env sid (scan_anchor c) (closer c) marker True ?p")
    case Nil
    with plan have "f = seed_row marker" "fs = []" using planned_split [where m' = marker] by simp_all
    moreover from Nil have "planned env sid (scan_anchor c) (closer c) (event_time ?e) True ?p = []" by (simp add: planned_def)
    ultimately show ?thesis using planned_split [where m' = "event_time ?e" and marker = "event_time ?e"]
      by (simp add: seed_row_def)
  next
    case (Cons g gs)
    with plan have "f = g" "fs = gs @ [seed_row marker]"
      using planned_split [where m' = marker, of env sid "scan_anchor c" "closer c" marker ?p] by simp_all
    moreover from Cons have "planned env sid (scan_anchor c) (closer c) (event_time ?e) True ?p = g # gs" by (simp add: planned_def)
    ultimately show ?thesis
      using planned_split [where m' = "event_time ?e" and marker = "event_time ?e", of env sid "scan_anchor c" "closer c" ?p] by simp
  qed
  then obtain gs where gs: "planned env sid (scan_anchor c) (closer c) (event_time ?e) False ?p = f # gs" "length gs = length fs"
    by blast
  have "length (f # fs) \<le> 68" using planned_length [OF r, of env sid "scan_anchor c" "closer c" marker False]
    by (simp add: plan MAX_RECOVERY_ROWS_def)
  with repair_completes [OF env r refl _ gs(1)] room small gs(2)
  obtain final where "apply_repair env ?p (numbered ?seq (f # gs)) = Ok final" by auto
  then have "cold_matches env sp ?p ?e (scan_ctx sid c row) (scan_anchor c) = Ok (Some (snd (f ?seq)))"
    using planned_equal [OF env r _ f, of ?seq] small
    unfolding cold_matches_plan [OF env ok] gs(1) by (cases "f ?seq") simp
  note matched = this
  have admit: "cold_admit env ?p ?e (snd (f ?seq)) (scan_ctx sid c row) = Ok q"
    using q by (simp add: cold_admit_def scan_ctx_def)
  have ctx: "ctx_expected_seq (scan_ctx sid c row) = Some (event_seq ?e)" "\<not> ctx_previous_ends_with_seed (scan_ctx sid c row)"
    using live seq nseq by (simp_all add: scan_ctx_def)
  show ?thesis
  proof (cases "scan_recovery_cursor c")
    case (Some cur)
    then have "root_last_real_seq cur = scan_anchor c" by (simp add: scan_anchor_def)
    with Some ctx matched admit seed show ?thesis by (auto simp: apply_cold_event_def continue_recovery_def)
  next
    case None
    then have anchor: "seq_before (event_seq ?e) = scan_anchor c" by (simp add: scan_anchor_def nseq seq)
    show ?thesis
    proof (cases "is_tentative_recovery_start (event_kind ?e)")
      case True
      then have "event_kind ?e \<noteq> EndSeed" by (auto simp: is_tentative_recovery_start_def)
      with True None ctx matched admit seed anchor show ?thesis by (auto simp: apply_cold_event_def start_recovery_def Let_def)
    next
      case False
      have "policy ?p = DurableStrict" using r by (simp add: recoverable_def)
      from recovery_row_refused [OF this planned_kinds(1) [OF env r f]] planned_kinds(2) [OF env r f, of ?seq] False
      obtain t where "apply_scanned_row env ?p ?e row = Inl (EvTransition (DurableRecoveryEventNotAllowed t))" by blast
      with False None ctx matched admit seed anchor show ?thesis
        by (auto simp: apply_cold_event_def start_recovery_def scan_ordinary_def Let_def scan_ctx_def)
    qed
  qed
qed

section \<open>Resuming a recovery\<close>

definition repair_line :: "JournalLine \<Rightarrow> RepairRow \<Rightarrow> bool" where
  "repair_line l r \<longleftrightarrow> line_decode l = LineEvent (fst r) \<and> row_seq (line_row l) = event_seq (fst r)"

lemma rescan_row:
  assumes env: "plain_env env" and ok: "scan_ok c" and live: "\<not> scan_ends_with_seed c" "\<not> scan_bad_suffix c"
    and plan: "scan_plan env sid marker c = f # fs"
    and room: "unat (surface_tokens (scan_projection c)) + 1000 * length (f # fs) < 2 ^ 64"
    and lines: "unat (scan_body_lines c) < 1000000" and l: "repair_line l (f (scan_logical_events c))"
  shows "\<exists>c'. scan_line env sp sid c l = Ok c' \<and> scan_ok c' \<and> \<not> scan_bad_suffix c'
    \<and> scan_ends_with_seed c' = (fs = []) \<and> scan_logical_events c' = scan_logical_events c + 1
    \<and> unat (scan_body_lines c') = Suc (unat (scan_body_lines c))
    \<and> unat (surface_tokens (scan_projection c')) \<le> unat (surface_tokens (scan_projection c)) + 1000
    \<and> (\<forall>m. scan_plan env sid m c' = tl (scan_plan env sid m c))"
proof -
  let ?p = "scan_projection c" and ?seq = "scan_logical_events c"
  let ?e = "fst (f ?seq)"
  have plan': "planned env sid (scan_anchor c) (closer c) marker False ?p = f # fs"
    using plan live by (simp add: scan_plan_def)
  have r: "recoverable (unat ?seq) ?p" and nseq: "scan_next_seq c = Some ?seq" using ok by (simp_all add: scan_ok_def)
  have small: "unat ?seq \<le> 1000000" by (rule scan_ok_small [OF ok])
  have f: "f \<in> set (planned env sid (scan_anchor c) (closer c) marker False ?p)" by (simp add: plan')
  have seq: "event_seq ?e = ?seq" using planned_seq [OF f] .
  have seed: "event_kind ?e = EndSeed \<longleftrightarrow> fs = []"
    using planned_head [OF plan'] plan' by (auto simp: planned_def open_turn_def split: Boundary.splits)
  have row: "row_seq (line_row l) = ?seq" and e: "line_decode l = LineEvent ?e" using l seq by (simp_all add: repair_line_def)
  have "leaves env sid (scan_anchor c) (closer c) marker ?p (Some (line_row l)) (f ?seq) fs"
    using small row room by (intro planned_leaves [OF env r _ refl plan']) simp_all
  then obtain q where q: "apply_recovery_admission env ?p ?e (snd (f ?seq)) (Some (line_row l)) = Ok q"
      "planned env sid (scan_anchor c) (closer c) marker (event_kind ?e = EndSeed) q = fs"
      "unat (surface_tokens q) \<le> unat (surface_tokens ?p) + 1000"
    by (rule planned_leavesE)
  from cold_admits_planned [OF env ok live(1) plan' room row q(1)]
  obtain cursor where cold: "apply_cold_event env sp ?p ?e (scan_ctx sid c (line_row l)) (scan_recovery_cursor c) = Ok (q, cursor)"
    and cursor: "if fs = [] then cursor = None else \<exists>cur. cursor = Some cur \<and> root_last_real_seq cur = scan_anchor c"
    by blast
  define c' where "c' = c\<lparr>scan_body_lines := scan_body_lines c + 1, scan_projection := q, scan_valid_bytes := line_end l,
    scan_logical_events := ?seq + 1, scan_next_seq := safe_successor ?seq, scan_last_event_time := Some (event_time ?e),
    scan_ends_with_seed := fs = [], scan_recovery_cursor := cursor\<rparr>"
  have lines': "checked_add (scan_body_lines c) 1 = Some (scan_body_lines c + 1)"
    "unat (scan_body_lines c + 1) = Suc (unat (scan_body_lines c))" "checked_add ?seq 1 = Some (?seq + 1)"
    using lines small by (simp_all add: checked_add_def unat_word_ariths)
  then have "\<not> MAX_SCAN_EVENTS < scan_body_lines c + 1"
    using lines by (simp add: word_less_nat_alt MAX_SCAN_EVENTS_def)
  then have scan: "scan_line env sp sid c l = Ok c'"
    using lines' live(2) e nseq seq cold seed
    by (simp add: scan_line_def scan_event_def scan_ctx_def c'_def)
  have tails: "scan_plan env sid m c' = tl (scan_plan env sid m c)" for m
  proof (cases "fs = []")
    case True
    with q(2) seed have "planned env sid (scan_anchor c) (closer c) marker True q = []" by simp
    then have "scan_plan env sid m c' = []" using True by (simp add: scan_plan_def c'_def planned_def split: Boundary.splits option.splits)
    moreover have "scan_plan env sid m c = [seed_row m]"
      using plan' True live(1) planned_split [where m' = marker, of env sid "scan_anchor c" "closer c" marker ?p]
      by (simp add: scan_plan_def planned_def split: Boundary.splits option.splits)
    ultimately show ?thesis by simp
  next
    case False
    with cursor have anchor: "scan_anchor c' = scan_anchor c" by (auto simp: scan_anchor_def c'_def)
    have body: "planned env sid (scan_anchor c) (closer c) marker True ?p @ [seed_row marker] = f # fs"
      using plan' planned_split [where m' = marker, of env sid "scan_anchor c" "closer c" marker ?p] by simp
    with False obtain gs where gs: "planned env sid (scan_anchor c) (closer c) marker True ?p = f # gs" "fs = gs @ [seed_row marker]"
      by (cases "planned env sid (scan_anchor c) (closer c) marker True ?p") auto
    have "event_time ?e = closer c"
      by (rule planned_time [where f = f and marker = marker and env = env and sid = sid and p = ?p and prefix = "scan_anchor c"])
        (simp add: gs(1))
    then have "closer c' = closer c" unfolding closer_def [of c'] by (simp add: c'_def)
    moreover have "planned env sid (scan_anchor c) (closer c) marker True q = gs"
      using q(2) seed False gs(2) planned_split [where m' = marker, of env sid "scan_anchor c" "closer c" marker q] by simp
    moreover have "planned env sid a t m True x = planned env sid a t marker True x" for a t x by (simp add: planned_def)
    ultimately show ?thesis
      using False live(1) anchor gs(1) planned_split [where m' = m and marker = m, of env sid "scan_anchor c" "closer c"]
      by (simp add: scan_plan_def) (simp add: c'_def)
  qed
  show ?thesis
    using scan scan_line_ok [OF ok scan] live(2) lines'(2) q(3) tails
    by (intro exI [of _ c']) (simp_all add: c'_def)
qed

text \<open>Any number of rows of the plan, read again, leave the rest of it.\<close>

lemma rescan_rows:
  assumes env: "plain_env env"
  shows "scan_ok c \<Longrightarrow> \<not> scan_ends_with_seed c \<Longrightarrow> \<not> scan_bad_suffix c
    \<Longrightarrow> unat (surface_tokens (scan_projection c)) + 1000 * length (scan_plan env sid marker c) < 2 ^ 64
    \<Longrightarrow> unat (scan_body_lines c) + length ls \<le> 1000000
    \<Longrightarrow> list_all2 repair_line ls (take (length ls) (numbered (scan_logical_events c) (scan_plan env sid marker c)))
    \<Longrightarrow> \<exists>c'. run (scan_line env sp sid) c ls = Ok c' \<and> scan_ok c'
      \<and> scan_logical_events c' = scan_logical_events c + of_nat (length ls)
      \<and> (\<forall>m. scan_plan env sid m c' = drop (length ls) (scan_plan env sid m c))
      \<and> unat (surface_tokens (scan_projection c')) \<le> unat (surface_tokens (scan_projection c)) + 1000 * length ls"
proof (induction ls arbitrary: c)
  case Nil
  then show ?case by simp
next
  case (Cons l ls)
  then obtain f fs where plan: "scan_plan env sid marker c = f # fs"
    by (cases "scan_plan env sid marker c") auto
  with Cons.prems(6) have l: "repair_line l (f (scan_logical_events c))"
    and rest: "list_all2 repair_line ls (take (length ls) (numbered (scan_logical_events c + 1) fs))" by simp_all
  have lines: "unat (scan_body_lines c) < 1000000" using Cons.prems(5) by simp
  from rescan_row [OF env Cons.prems(1-3) plan _ lines l, where sp = sp] Cons.prems(4) plan
  obtain c1 where c1: "scan_line env sp sid c l = Ok c1" "scan_ok c1" "\<not> scan_bad_suffix c1"
      "scan_ends_with_seed c1 = (fs = [])" "scan_logical_events c1 = scan_logical_events c + 1"
      "unat (scan_body_lines c1) = Suc (unat (scan_body_lines c))"
      "unat (surface_tokens (scan_projection c1)) \<le> unat (surface_tokens (scan_projection c)) + 1000"
      "\<And>m. scan_plan env sid m c1 = tl (scan_plan env sid m c)"
    by auto
  show ?case
  proof (cases "fs = []")
    case True
    with rest have "ls = []" by simp
    with c1 Cons.prems(4) plan show ?thesis by (auto simp: drop_Suc)
  next
    case False
    have "\<exists>c'. run (scan_line env sp sid) c1 ls = Ok c' \<and> scan_ok c'
      \<and> scan_logical_events c' = scan_logical_events c1 + of_nat (length ls)
      \<and> (\<forall>m. scan_plan env sid m c' = drop (length ls) (scan_plan env sid m c1))
      \<and> unat (surface_tokens (scan_projection c')) \<le> unat (surface_tokens (scan_projection c1)) + 1000 * length ls"
      using Cons.IH [OF c1(2)] c1(3-8) False Cons.prems(4,5) rest plan by simp
    with c1 show ?thesis by (fastforce simp: drop_Suc algebra_simps)
  qed
qed

section \<open>What recovery promises\<close>

text \<open>C5
  Whatever rows a journal holds, the scan that accepts it arrives at a strict projection that can be
  repaired: every declared call has a usable identity and cites an earlier row, the attempt belongs to
  the open step, an open compaction bracket is quiet, the counters are bounded by the rows; and the
  next number is the number of rows.\<close>

theorem scanned_journal_recoverable:
  assumes "scan_lines env sp sid hdr ls = Ok c"
  shows "recoverable (unat (scan_logical_events c)) (scan_projection c)
    \<and> scan_next_seq c = Some (scan_logical_events c) \<and> scan_logical_events c \<le> MAX_SCAN_EVENTS"
  using scan_lines_ok [OF assms] by (auto simp: scan_ok_def)

lemma prepared_quiescent:
  assumes env: "plain_env env" and ok: "scan_ok c" and idle: "seed_idle c"
    and room: "unat (surface_tokens (scan_projection c)) + 68000 < 2 ^ 64"
  shows "\<exists>plan q. prepare_recovery env sp sid c time = Ok (plan, q) \<and> is_quiescent_for_search q
    \<and> plan_rows plan = numbered (scan_logical_events c) (scan_plan env sid time c)"
proof -
  let ?p = "scan_projection c"
  have r: "recoverable (unat (scan_logical_events c)) ?p" using ok by (simp add: scan_ok_def)
  obtain plan where plan: "plan_rows plan = numbered (scan_logical_events c) (scan_plan env sid time c)"
    "prepare_recovery env sp sid c time = and_then (apply_repair env ?p (plan_rows plan)) (\<lambda>q. Ok (plan, q))"
    using prepare_recovery_plan [OF env ok, where sid = sid and sp = sp and marker = time] by blast
  show ?thesis
  proof (cases "scan_ends_with_seed c")
    case True
    with idle have b: "boundary ?p = BoundaryIdle" "open_compaction (compaction ?p) = None" by (simp_all add: seed_idle_def)
    with True have "plan_rows plan = []" using plan(1) by (simp add: scan_plan_def planned_def open_turn_def)
    with plan idle_quiescent [OF r b] show ?thesis by simp
  next
    case False
    have len: "length (scan_plan env sid time c) \<le> 68"
      using planned_length [OF r] by (simp add: scan_plan_def MAX_RECOVERY_ROWS_def)
    have p: "planned env sid (scan_anchor c) (closer c) time False ?p = scan_plan env sid time c"
      using False by (simp add: scan_plan_def)
    from repair_completes [OF env r refl _ p] len room scan_ok_small [OF ok]
    obtain q where q: "apply_repair env ?p (numbered (scan_logical_events c) (scan_plan env sid time c)) = Ok q"
      "recoverable (unat (scan_logical_events c) + length (scan_plan env sid time c)) q" "boundary q = BoundaryIdle"
      "open_compaction (compaction q) = None"
      by auto
    with plan idle_quiescent [OF q(2-4)] show ?thesis by simp
  qed
qed

text \<open>C1
  A crashed session can always be recovered: for every journal that the scan accepts, the
  recovery succeeds, writes at most 68 rows, and leaves a session in which no turn, step, approval,
  call, compaction or attempt is open.\<close>

theorem recovery_completes:
  assumes "plain_env env" and "scan_lines env sp sid hdr ls = Ok c"
    and "unat (surface_tokens (scan_projection c)) + 68000 < 2 ^ 64"
  shows "\<exists>plan q. prepare_recovery env sp sid c time = Ok (plan, q) \<and> is_quiescent_for_search q
    \<and> length (plan_rows plan) \<le> MAX_RECOVERY_ROWS"
proof -
  note ok = scan_lines_ok [OF assms(2)]
  from prepared_quiescent [OF assms(1) ok scan_lines_seed_idle [OF assms(1,2)] assms(3), of sp sid time]
  show ?thesis using ok planned_length by (force simp: scan_ok_def scan_plan_def)
qed

lemma prepared_rows:
  assumes "plain_env env" and "scan_ok c" and "prepare_recovery env sp sid c time = Ok (plan, q)"
  shows "plan_rows plan = numbered (scan_logical_events c) (scan_plan env sid time c)"
proof -
  obtain plan0 where "plan_rows plan0 = numbered (scan_logical_events c) (scan_plan env sid time c)"
    "prepare_recovery env sp sid c time = and_then (apply_repair env (scan_projection c) (plan_rows plan0)) (\<lambda>q. Ok (plan0, q))"
    using prepare_recovery_plan [OF assms(1,2), where sid = sid and sp = sp and marker = time] by blast
  with assms(3) show ?thesis by (cases "apply_repair env (scan_projection c) (plan_rows plan0)") auto
qed

lemma recovery_plan_actions:
  assumes "plain_env env" and "scan_lines env sp sid hdr ls = Ok c"
    and "prepare_recovery env sp sid c time = Ok (plan, q)"
  shows "map snd (plan_rows plan) = repair_actions env (scan_projection c) (scan_ends_with_seed c)"
proof -
  note ok = scan_lines_ok [OF assms(2)]
  then have "recoverable (unat (scan_logical_events c)) (scan_projection c)" by (simp add: scan_ok_def)
  from planned_actions [OF this] prepared_rows [OF assms(1) ok assms(3)] show ?thesis by (simp add: scan_plan_def)
qed

text \<open>C4
  The plan of a recovery is exactly this: cancel the approval that is waited for, give every
  declared call without a result one, in the order of declaration, end the step with the evidence of
  its attempt, end the turn, and mark the seed unless the journal ends with a mark; the rows are
  numbered on from the journal.\<close>

theorem recovery_plan_exact:
  assumes "plain_env env" and "scan_lines env sp sid hdr ls = Ok c"
    and "prepare_recovery env sp sid c time = Ok (plan, q)"
  shows "map snd (plan_rows plan) = repair_actions env (scan_projection c) (scan_ends_with_seed c)
    \<and> map (\<lambda>r. event_seq (fst r)) (plan_rows plan)
      = map (\<lambda>i. scan_logical_events c + of_nat i) [0..<length (plan_rows plan)]"
proof -
  note rows = prepared_rows [OF assms(1) scan_lines_ok [OF assms(2)] assms(3)]
  have seqs: "map (\<lambda>r. event_seq (fst r)) (numbered seq fs) = map (\<lambda>i. seq + of_nat i) [0..<length fs]"
    if "\<And>f s. f \<in> set fs \<Longrightarrow> event_seq (fst (f s)) = s" for seq fs
    using that
  proof (induction fs arbitrary: seq)
    case (Cons f fs)
    then have "map (\<lambda>r. event_seq (fst r)) (numbered (seq + 1) fs) = map (\<lambda>i. seq + 1 + of_nat i) [0..<length fs]" by simp
    with Cons.prems [of f] show ?case by (simp add: upt_conv_Cons map_Suc_upt [symmetric] algebra_simps del: upt_Suc)
  qed simp
  show ?thesis using recovery_plan_actions [OF assms] seqs planned_seq
    by (simp add: rows) (simp add: scan_plan_def)
qed

text \<open>C2
  A recovery that crashes after any number of its rows, and even several times, is resumed where it
  stopped: the scan recognises the rows that were written as repair rows, and the plan it then makes
  is the plan that a recovery without the crash would have made, less those rows.\<close>

theorem interrupted_recovery_resumes:
  assumes env: "plain_env env" and scan: "scan_lines env sp sid hdr ls = Ok c" and "\<not> scan_bad_suffix c"
    and plan: "prepare_recovery env sp sid c time = Ok (plan, q)"
    and new: "list_all2 repair_line new (take (length new) (plan_rows plan))"
    and lines: "unat (scan_body_lines c) + length new \<le> 1000000"
    and room: "unat (surface_tokens (scan_projection c)) + 136000 < 2 ^ 64"
  shows "\<exists>c' plan1 q1 plan' q'. scan_lines env sp sid hdr (ls @ new) = Ok c'
    \<and> prepare_recovery env sp sid c time' = Ok (plan1, q1)
    \<and> prepare_recovery env sp sid c' time' = Ok (plan', q')
    \<and> plan_rows plan' = drop (length new) (plan_rows plan1) \<and> is_quiescent_for_search q'"
proof -
  note ok = scan_lines_ok [OF scan] and idle = scan_lines_seed_idle [OF env scan]
  have r: "recoverable (unat (scan_logical_events c)) (scan_projection c)" using ok by (simp add: scan_ok_def)
  have room1: "unat (surface_tokens (scan_projection c)) + 68000 < 2 ^ 64" using room by simp
  have rows: "plan_rows plan = numbered (scan_logical_events c) (scan_plan env sid time c)"
    using prepared_quiescent [OF env ok idle room1, of sp sid time] plan by auto
  have len: "length (scan_plan env sid m c) \<le> 68" for m
    using planned_length [OF r] by (simp add: scan_plan_def MAX_RECOVERY_ROWS_def)
  have short: "length new \<le> length (scan_plan env sid time c)" using new rows by (auto dest: list_all2_lengthD)
  have "\<exists>c'. run (scan_line env sp sid) c new = Ok c' \<and> scan_ok c'
      \<and> scan_logical_events c' = scan_logical_events c + of_nat (length new)
      \<and> (\<forall>m. scan_plan env sid m c' = drop (length new) (scan_plan env sid m c))
      \<and> unat (surface_tokens (scan_projection c')) \<le> unat (surface_tokens (scan_projection c)) + 1000 * length new"
  proof (cases "scan_ends_with_seed c")
    case True
    with idle have "scan_plan env sid time c = []" by (simp add: scan_plan_def planned_def open_turn_def seed_idle_def)
    with short ok show ?thesis by simp
  next
    case False
    with rescan_rows [OF env ok False assms(3) _ lines, where marker = time and sp = sp] new rows len [of time] room1
    show ?thesis by simp
  qed
  then obtain c' where c': "run (scan_line env sp sid) c new = Ok c'" "scan_ok c'"
      "scan_logical_events c' = scan_logical_events c + of_nat (length new)"
      "\<And>m. scan_plan env sid m c' = drop (length new) (scan_plan env sid m c)"
      "unat (surface_tokens (scan_projection c')) \<le> unat (surface_tokens (scan_projection c)) + 1000 * length new" by blast
  have both: "scan_lines env sp sid hdr (ls @ new) = Ok c'"
    using scan c'(1) by (simp add: scan_lines_def run_append)
  have room': "unat (surface_tokens (scan_projection c')) + 68000 < 2 ^ 64"
    using room c'(5) short len [of time] by simp
  have drop: "numbered (s + of_nat k) (drop k fs) = drop k (numbered s fs)" if "k \<le> length fs" for s k fs
    using numbered_append [of s "take k fs" "drop k fs"] that by simp
  have same: "length (scan_plan env sid m c) = length (scan_plan env sid time c)" for m
    by (simp add: scan_plan_def planned_def split: Boundary.split option.split)
  obtain plan1 q1 where 1: "prepare_recovery env sp sid c time' = Ok (plan1, q1)"
    "plan_rows plan1 = numbered (scan_logical_events c) (scan_plan env sid time' c)"
    using prepared_quiescent [OF env ok idle room1, of sp sid time'] by blast
  obtain plan' q' where 2: "prepare_recovery env sp sid c' time' = Ok (plan', q')" "is_quiescent_for_search q'"
    "plan_rows plan' = numbered (scan_logical_events c') (scan_plan env sid time' c')"
    using prepared_quiescent [OF env c'(2) scan_lines_seed_idle [OF env both] room', of sp sid time'] by blast
  have "length new \<le> length (scan_plan env sid time' c)" using short same [of time'] by simp
  then have "plan_rows plan' = drop (length new) (plan_rows plan1)" using 1(2) 2(3) by (simp add: c'(3,4) drop)
  with both 1(1) 2(1,2) show ?thesis by blast
qed

section \<open>An example\<close>

text \<open>A session that crashed in its first step, before the model was asked.\<close>

definition recovery_env :: session_env where
  "recovery_env = replay_env\<lparr>env_sha256 := \<lambda>_. replicate 32 (CHR 0x00)\<rparr>"

lemma recovery_env_plain: "plain_env recovery_env"
  by (simp add: plain_env_def recovery_env_def replay_env_def)

definition no_parts :: serde_parts where
  "no_parts = \<lparr>de_attachment = (\<lambda>_. None), de_form = (\<lambda>_. None), de_sections = (\<lambda>_. None), admit_json = Some\<rparr>"

definition line_of :: "SessionEvent \<Rightarrow> JournalLine" where
  "line_of e = \<lparr>line_decode = LineEvent e, line_is_envelope = True, line_end = 0,
     line_row = \<lparr>row_seq = event_seq e, row_offset = 0, row_length = 1, row_sha256 = ''d''\<rparr>\<rparr>"

definition crashed_lines :: "JournalLine list" where
  "crashed_lines = [line_of (plain_event 0 (TurnStart 1)), line_of (plain_event 1 (StepStart 1 1))]"

lemmas scan_eval = scan_lines_def scan_line_def scan_event_def cold_scan_start_def live_for_session_def with_attempt_def
  Projection_State.Projection.extend_def projection_for_session_def apply_cold_event_def start_recovery_def
  is_tentative_recovery_start_def scan_ordinary_def apply_scanned_row_def apply_attempt_transition_def apply_attempt_event_def
  attempt_step_start_def attempt_default_def set_attempt_def reset_overflow_def attempt_outside_def
  event_seq_from_index_def MAX_SCAN_EVENTS_def

lemma crashed_scan:
  "\<exists>c. scan_lines recovery_env no_parts ''s'' 0 crashed_lines = Ok c \<and> \<not> scan_bad_suffix c \<and> scan_body_lines c = 2
     \<and> surface_tokens (scan_projection c) = 0 \<and> open_step (scan_projection c) = Some 1"
  by (simp add: crashed_lines_def line_of_def plain_event_def recovery_env_def scan_eval replay_eval open_step_def Let_def)

theorem scanned_journal_recoverable_witness:
  "\<exists>c. scan_lines recovery_env no_parts ''s'' 0 crashed_lines = Ok c \<and> open_step (scan_projection c) = Some 1
     \<and> recoverable (unat (scan_logical_events c)) (scan_projection c)"
  using crashed_scan scanned_journal_recoverable by blast

theorem recovery_completes_witness:
  "\<exists>c plan q. scan_lines recovery_env no_parts ''s'' 0 crashed_lines = Ok c \<and> open_step (scan_projection c) = Some 1
     \<and> prepare_recovery recovery_env no_parts ''s'' c 2000 = Ok (plan, q) \<and> is_quiescent_for_search q"
proof -
  obtain c where c: "scan_lines recovery_env no_parts ''s'' 0 crashed_lines = Ok c" "open_step (scan_projection c) = Some 1"
    "surface_tokens (scan_projection c) = 0"
    using crashed_scan by (elim exE conjE)
  then have "unat (surface_tokens (scan_projection c)) + 68000 < 2 ^ 64" by simp
  from recovery_completes [OF recovery_env_plain c(1) this, of 2000] c show ?thesis by blast
qed

lemma crashed_prepared:
  "\<exists>c plan q. scan_lines recovery_env no_parts ''s'' 0 crashed_lines = Ok c \<and> open_step (scan_projection c) = Some 1
     \<and> \<not> scan_bad_suffix c \<and> scan_body_lines c = 2 \<and> surface_tokens (scan_projection c) = 0
     \<and> prepare_recovery recovery_env no_parts ''s'' c 2000 = Ok (plan, q)"
proof -
  obtain c where c: "scan_lines recovery_env no_parts ''s'' 0 crashed_lines = Ok c" "open_step (scan_projection c) = Some 1"
    "surface_tokens (scan_projection c) = 0" "\<not> scan_bad_suffix c" "scan_body_lines c = 2"
    using crashed_scan by (elim exE conjE)
  then have "unat (surface_tokens (scan_projection c)) + 68000 < 2 ^ 64" by simp
  from prepared_quiescent [OF recovery_env_plain scan_lines_ok [OF c(1)] scan_lines_seed_idle [OF recovery_env_plain c(1)] this] c
  show ?thesis by blast
qed

theorem recovery_plan_exact_witness:
  "\<exists>c plan q. scan_lines recovery_env no_parts ''s'' 0 crashed_lines = Ok c
     \<and> prepare_recovery recovery_env no_parts ''s'' c 2000 = Ok (plan, q) \<and> open_step (scan_projection c) = Some 1
     \<and> map snd (plan_rows plan) = repair_actions recovery_env (scan_projection c) (scan_ends_with_seed c)"
  using crashed_prepared recovery_plan_exact [OF recovery_env_plain] by blast

theorem interrupted_recovery_resumes_witness:
  "\<exists>c plan q c' plan' q'. scan_lines recovery_env no_parts ''s'' 0 crashed_lines = Ok c
     \<and> prepare_recovery recovery_env no_parts ''s'' c 2000 = Ok (plan, q)
     \<and> scan_lines recovery_env no_parts ''s'' 0 (crashed_lines @ [line_of (fst (hd (plan_rows plan)))]) = Ok c'
     \<and> prepare_recovery recovery_env no_parts ''s'' c' 2000 = Ok (plan', q') \<and> plan_rows plan' = drop 1 (plan_rows plan)
     \<and> plan_rows plan \<noteq> []"
proof -
  obtain c plan q where c: "scan_lines recovery_env no_parts ''s'' 0 crashed_lines = Ok c" "open_step (scan_projection c) = Some 1"
    "\<not> scan_bad_suffix c" "scan_body_lines c = 2" "surface_tokens (scan_projection c) = 0"
    and plan: "prepare_recovery recovery_env no_parts ''s'' c 2000 = Ok (plan, q)"
    using crashed_prepared by (elim exE conjE)
  let ?new = "[line_of (fst (hd (plan_rows plan)))]"
  have "map snd (plan_rows plan) \<noteq> []"
    using recovery_plan_actions [OF recovery_env_plain c(1) plan] c(2)
    by (auto simp: repair_actions_def open_step_def split: Boundary.splits)
  then obtain r rs where rows: "plan_rows plan = r # rs" by (cases "plan_rows plan") auto
  then have new: "list_all2 repair_line ?new (take (length ?new) (plan_rows plan))"
    by (simp add: repair_line_def line_of_def)
  have "unat (scan_body_lines c) + length ?new \<le> 1000000" "unat (surface_tokens (scan_projection c)) + 136000 < 2 ^ 64"
    using c by simp_all
  from interrupted_recovery_resumes [OF recovery_env_plain c(1,3) plan new this, of 2000] c(1) plan rows
  show ?thesis by auto
qed

end
