(* ===== verification/File_Patch.thy ===== *)
theory File_Patch
  imports Session_Check Projection_Surface
begin

text \<open>
  The \<open>apply_patch\<close> tool (\<open>src/tools/patch.rs\<close>): a unified diff is checked, applied to the text of
  a file without any tolerance, and shown to the user as a canonical diff; what was approved is then
  written with the line endings of the file. The parser and printer of patches (\<open>diffy\<close>) are
  parameters. The cancellation token is a function from the number of the poll to its answer. A
  failing allocation, the file system and the construction of the tool's results are not modelled.
\<close>

section \<open>Errors and limits\<close>

datatype ToolCallError = ToolModel string string string | ToolInfrastructure

definition invalid_patch :: "string \<Rightarrow> ToolCallError + 'a" where
  "invalid_patch message = Err (ToolModel ''PatchError'' ''INVALID_PATCH'' message)"

definition patch_too_large :: "string \<Rightarrow> ToolCallError + 'a" where
  "patch_too_large message = Err (ToolModel ''PatchError'' ''PATCH_TOO_LARGE'' message)"

definition tool_aborted :: "ToolCallError + 'a" where
  "tool_aborted = Err (ToolModel ''AbortError'' ''ABORTED'' ''tool execution was cancelled'')"

definition not_text :: "string \<Rightarrow> ToolCallError + 'a" where
  "not_text message = Err (ToolModel ''FsError'' ''FILE_NOT_TEXT'' message)"

definition workspace_denied :: "ToolCallError + 'a" where
  "workspace_denied = Err (ToolModel ''FsError'' ''WORKSPACE_PATH_DENIED''
     ''the requested path is outside the workspace or crosses an unsafe symbolic link'')"

definition MAX_PATCH_BYTES :: nat where "MAX_PATCH_BYTES = 256 * 1024"
definition MAX_PATCH_HUNKS :: nat where "MAX_PATCH_HUNKS = 1024"
definition MAX_PATCH_LINES :: nat where "MAX_PATCH_LINES = 100000"
definition MAX_PATCH_LINE_BYTES :: nat where "MAX_PATCH_LINE_BYTES = 64 * 1024"
definition MAX_MUTATION_FILE_BYTES :: nat where "MAX_MUTATION_FILE_BYTES = 16 * 1024 * 1024"
definition MAX_MUTATION_FILE_LINES :: nat where "MAX_MUTATION_FILE_LINES = 100000"
definition MAX_MUTATION_FILE_LINE_BYTES :: nat where "MAX_MUTATION_FILE_LINE_BYTES = 1024 * 1024"
definition MAX_APPROVAL_PREVIEW_BYTES :: nat where "MAX_APPROVAL_PREVIEW_BYTES = 64 * 1024"
definition MAX_APPROVAL_REASON_BYTES :: nat where "MAX_APPROVAL_REASON_BYTES = 4 * 1024"
definition MAX_APPROVAL_PATCH_PATH_BYTES :: nat where "MAX_APPROVAL_PATCH_PATH_BYTES = 4 * 1024"
definition MAX_DIRECTORY_DEPTH :: nat where "MAX_DIRECTORY_DEPTH = 64"

section \<open>Patches\<close>

text \<open>What the code reads of \<open>diffy\<close>'s patches: the ranges and lines of the hunks.\<close>

record HunkRange =
  range_start :: usize
  range_len :: usize

datatype PatchLine = LineContext string | LineDelete string | LineInsert string

record Hunk =
  hunk_old :: HunkRange
  hunk_new :: HunkRange
  hunk_lines :: "PatchLine list"

record 'p diffy =
  diffy_parse :: "string \<Rightarrow> 'p option"
  diffy_hunks :: "'p \<Rightarrow> Hunk list"
  diffy_show :: "'p \<Rightarrow> string"
  diffy_range :: "HunkRange \<Rightarrow> string"

abbreviation NL :: char where "NL \<equiv> CHR 0x0A"
abbreviation CARRIAGE :: char where "CARRIAGE \<equiv> CHR 0x0D"

text \<open>\<open>split_inclusive('\n')\<close>\<close>

fun split_lines :: "string \<Rightarrow> string list" where
  "split_lines [] = []"
| "split_lines (c # s) = (if c = NL then [c] # split_lines s
     else case split_lines s of [] \<Rightarrow> [[c]] | l # ls \<Rightarrow> (c # l) # ls)"

definition ends_line :: "string \<Rightarrow> bool" where
  "ends_line s \<longleftrightarrow> s \<noteq> [] \<and> last s = NL"

section \<open>Checking a patch\<close>

definition NO_NEWLINE_MARKER :: string where
  "NO_NEWLINE_MARKER = [CHR 0x5C] @ '' No newline at end of file'' @ [NL]"

record MarkerState =
  ms_in_hunk :: bool
  ms_old_at_eof :: bool
  ms_new_at_eof :: bool
  ms_previous_sides :: "(bool \<times> bool) option"

text \<open>Which sides a line of a hunk takes part in.\<close>

definition consumed_sides :: "string \<Rightarrow> (bool \<times> bool) option" where
  "consumed_sides line =
     (if line = [NL] \<or> starts_with '' '' line then Some (True, True)
      else if starts_with ''-'' line then Some (True, False)
      else if starts_with ''+'' line then Some (False, True)
      else None)"

definition marker_line :: "MarkerState \<Rightarrow> string \<Rightarrow> ToolCallError + MarkerState" where
  "marker_line st line =
     (if starts_with ''@@ '' line then
        (if ms_old_at_eof st \<or> ms_new_at_eof st
         then invalid_patch ''a no-newline marker must describe the final hunk''
         else Ok (st\<lparr>ms_in_hunk := True, ms_previous_sides := None\<rparr>))
      else if line = NO_NEWLINE_MARKER then (case ms_previous_sides st of
          None \<Rightarrow> invalid_patch ''a no-newline marker must follow one hunk content line''
        | Some (marks_old, marks_new) \<Rightarrow>
            Ok (st\<lparr>ms_previous_sides := None, ms_old_at_eof := ms_old_at_eof st \<or> marks_old,
                   ms_new_at_eof := ms_new_at_eof st \<or> marks_new\<rparr>))
      else if \<not> ms_in_hunk st then invalid_patch ''patch content must be inside one hunk''
      else (case consumed_sides line of
          None \<Rightarrow> invalid_patch ''patch contains an invalid hunk line''
        | Some (old, new) \<Rightarrow>
            if old \<and> ms_old_at_eof st \<or> new \<and> ms_new_at_eof st
            then invalid_patch ''patch content cannot follow a no-newline end-of-file marker''
            else Ok (st\<lparr>ms_previous_sides := Some (old, new)\<rparr>)))"

definition validate_no_newline_markers :: "string list \<Rightarrow> ToolCallError + unit" where
  "validate_no_newline_markers lines =
     and_then (run marker_line \<lparr>ms_in_hunk = False, ms_old_at_eof = False, ms_new_at_eof = False,
       ms_previous_sides = None\<rparr> (drop 2 lines)) (\<lambda>_. Ok ())"

definition strip_suffix :: "'a list \<Rightarrow> 'a list \<Rightarrow> 'a list option" where
  "strip_suffix suffix s = map_option rev (strip_prefix (rev suffix) (rev s))"

text \<open>The path of a header. On Unix the last two tests of the code, on \<open>Path\<close>, are implied by those
  on the components.\<close>

definition strict_header_path :: "string \<Rightarrow> string \<Rightarrow> ToolCallError + string" where
  "strict_header_path line prefix =
     (case Option.bind (strip_prefix prefix line) (strip_suffix [NL]) of
        None \<Rightarrow> Err (ToolModel ''PatchError'' ''UNSUPPORTED_PATCH''
          ''file headers must use the exact a/ and b/ path form'')
      | Some path \<Rightarrow>
          if path = [] \<or> length path > 4096 \<or> has_control path \<or> CHR 0x5C \<in> set path
            \<or> length (split_on (CHR ''/'') path) > MAX_DIRECTORY_DEPTH
            \<or> list_ex (\<lambda>c. c = [] \<or> c = ''.'' \<or> c = ''..'') (split_on (CHR ''/'') path)
          then workspace_denied else Ok path)"

datatype MutationOperation = MutationCreate | MutationUpdate

record 'p ParsedPatch =
  parsed_operation :: MutationOperation
  parsed_path :: string
  parsed_patch :: 'p

definition hunk_header :: "'p diffy \<Rightarrow> Hunk \<Rightarrow> string" where
  "hunk_header d h = ''@@ -'' @ diffy_range d (hunk_old h) @ '' +'' @ diffy_range d (hunk_new h) @ '' @@'' @ [NL]"

definition parse_headers :: "string \<Rightarrow> string \<Rightarrow> ToolCallError + (MutationOperation \<times> string)" where
  "parse_headers original modified =
     (if original = ''--- /dev/null'' @ [NL]
      then and_then (strict_header_path modified ''+++ b/'') (\<lambda>path. Ok (MutationCreate, path))
      else and_then (strict_header_path original ''--- a/'') (\<lambda>original_path.
        and_then (strict_header_path modified ''+++ b/'') (\<lambda>modified_path.
          if original_path \<noteq> modified_path
          then Err (ToolModel ''PatchError'' ''UNSUPPORTED_PATCH''
            ''rename, copy, and multi-path patches are unsupported'')
          else Ok (MutationUpdate, original_path))))"

definition parse_hunks :: "'p diffy \<Rightarrow> string \<Rightarrow> string list \<Rightarrow> ToolCallError + 'p" where
  "parse_hunks d input lines = (case diffy_parse d input of
      None \<Rightarrow> invalid_patch ''patch syntax is invalid''
    | Some patch \<Rightarrow>
        if diffy_hunks d patch = [] then invalid_patch ''patch must contain at least one hunk''
        else if length (diffy_hunks d patch) > MAX_PATCH_HUNKS then patch_too_large ''patch contains too many hunks''
        else if filter (starts_with ''@@ '') lines \<noteq> map (hunk_header d) (diffy_hunks d patch)
          \<or> diffy_show d patch \<noteq> input
        then invalid_patch ''patch contains unsupported headers, function context, or trailing data''
        else Ok patch)"

definition parse_patch :: "'p diffy \<Rightarrow> string \<Rightarrow> ToolCallError + 'p ParsedPatch" where
  "parse_patch d input =
     (if \<not> ends_line input \<or> has_unsafe_control input
      then invalid_patch ''patch must use safe LF text, end with one newline, and contain no unsafe controls''
      else let lines = split_lines input in
        if length lines > MAX_PATCH_LINES \<or> list_ex (\<lambda>l. length l > MAX_PATCH_LINE_BYTES) lines
        then patch_too_large ''patch line count or line length exceeds the configured limit''
        else if length (filter (starts_with ''@@ '') lines) > MAX_PATCH_HUNKS
        then patch_too_large ''patch contains too many hunks''
        else and_then (validate_no_newline_markers lines) (\<lambda>_. case lines of
            [] \<Rightarrow> invalid_patch ''patch has no file header''
          | [_] \<Rightarrow> invalid_patch ''patch has an incomplete file header''
          | original # modified # _ \<Rightarrow>
              and_then (parse_headers original modified) (\<lambda>(operation, path).
              and_then (parse_hunks d input lines) (\<lambda>patch.
                Ok \<lparr>parsed_operation = operation, parsed_path = path, parsed_patch = patch\<rparr>))))"

section \<open>Applying a patch\<close>

text \<open>A range of no lines names the line before it.\<close>

definition range_index :: "HunkRange \<Rightarrow> nat option" where
  "range_index r = (if range_len r = 0 then Some (unat (range_start r))
     else map_option unat (checked_sub (range_start r) 1))"

record PatchState =
  ps_output :: string
  ps_at_eof :: bool
  ps_old :: nat
  ps_new :: nat
  ps_polls :: nat

definition poll :: "(nat \<Rightarrow> bool) \<Rightarrow> PatchState \<Rightarrow> ToolCallError + PatchState" where
  "poll cancelled st = (if cancelled (ps_polls st) then tool_aborted else Ok (st\<lparr>ps_polls := Suc (ps_polls st)\<rparr>))"

definition push_candidate :: "string \<Rightarrow> PatchState \<Rightarrow> ToolCallError + PatchState" where
  "push_candidate v st =
     (if ps_at_eof st then invalid_patch ''patch content cannot follow a no-newline end-of-file line''
      else if length v > MAX_MUTATION_FILE_LINE_BYTES \<or> length (ps_output st) + length v > MAX_MUTATION_FILE_BYTES
      then patch_too_large ''the patched file exceeds the configured size or line limit''
      else Ok (st\<lparr>ps_output := ps_output st @ v, ps_at_eof := \<not> ends_line v\<rparr>))"

definition next_new :: "PatchState \<Rightarrow> ToolCallError + PatchState" where
  "next_new st = (if Suc (ps_new st) < 2 ^ 64 then Ok (st\<lparr>ps_new := Suc (ps_new st)\<rparr>)
     else invalid_patch ''line count overflow'')"

text \<open>A line that no hunk names.\<close>

definition copy_line :: "(nat \<Rightarrow> bool) \<Rightarrow> PatchState \<Rightarrow> string \<Rightarrow> ToolCallError + PatchState" where
  "copy_line cancelled st v = and_then (poll cancelled st) (\<lambda>st. and_then (push_candidate v st) next_new)"

definition copy_rest_line :: "(nat \<Rightarrow> bool) \<Rightarrow> PatchState \<Rightarrow> string \<Rightarrow> ToolCallError + PatchState" where
  "copy_rest_line cancelled st v = and_then (poll cancelled st) (push_candidate v)"

text \<open>\<open>original.get(i) == Some(v)\<close>\<close>

definition line_is :: "string list \<Rightarrow> nat \<Rightarrow> string \<Rightarrow> bool" where
  "line_is original i v \<longleftrightarrow> i < length original \<and> original ! i = v"

definition apply_line :: "(nat \<Rightarrow> bool) \<Rightarrow> string list \<Rightarrow> PatchState \<Rightarrow> PatchLine \<Rightarrow> ToolCallError + PatchState" where
  "apply_line cancelled original st l = and_then (poll cancelled st) (\<lambda>st. case l of
      LineContext v \<Rightarrow>
        if \<not> line_is original (ps_old st) v then invalid_patch ''patch context does not match the target''
        else and_then (push_candidate v st) (\<lambda>st. Ok (st\<lparr>ps_old := Suc (ps_old st), ps_new := Suc (ps_new st)\<rparr>))
    | LineDelete v \<Rightarrow>
        if \<not> line_is original (ps_old st) v then invalid_patch ''patch deletion does not match the target''
        else Ok (st\<lparr>ps_old := Suc (ps_old st)\<rparr>)
    | LineInsert v \<Rightarrow> and_then (push_candidate v st) (\<lambda>st. Ok (st\<lparr>ps_new := Suc (ps_new st)\<rparr>)))"

text \<open>\<open>[i..j]\<close> of a list.\<close>

definition between :: "nat \<Rightarrow> nat \<Rightarrow> 'a list \<Rightarrow> 'a list" where
  "between i j xs = take (j - i) (drop i xs)"

definition apply_hunk :: "(nat \<Rightarrow> bool) \<Rightarrow> string list \<Rightarrow> PatchState \<Rightarrow> Hunk \<Rightarrow> ToolCallError + PatchState" where
  "apply_hunk cancelled original st h =
     and_then (poll cancelled st) (\<lambda>st.
     case range_index (hunk_old h) of None \<Rightarrow> invalid_patch ''invalid old hunk range'' | Some old_index \<Rightarrow>
     case range_index (hunk_new h) of None \<Rightarrow> invalid_patch ''invalid new hunk range'' | Some new_index \<Rightarrow>
     if old_index < ps_old st \<or> old_index > length original
     then invalid_patch ''hunk old range is outside the target''
     else and_then (run (copy_line cancelled) st (between (ps_old st) old_index original)) (\<lambda>st.
       if new_index \<noteq> ps_new st then invalid_patch ''hunk new range does not match its declared position''
       else and_then (run (apply_line cancelled original) (st\<lparr>ps_old := old_index\<rparr>) (hunk_lines h)) (\<lambda>st.
         if old_index + unat (range_len (hunk_old h)) \<ge> 2 ^ 64 then invalid_patch ''hunk range overflow''
         else if ps_old st \<noteq> old_index + unat (range_len (hunk_old h))
         then invalid_patch ''hunk body does not match its old range''
         else Ok st)))"

definition patch_start :: PatchState where
  "patch_start = \<lparr>ps_output = [], ps_at_eof = False, ps_old = 0, ps_new = 0, ps_polls = 0\<rparr>"

definition apply_strict :: "(nat \<Rightarrow> bool) \<Rightarrow> string \<Rightarrow> Hunk list \<Rightarrow> ToolCallError + string" where
  "apply_strict cancelled before hunks = (let original = split_lines before in
     and_then (run (apply_hunk cancelled original) patch_start hunks) (\<lambda>st.
     and_then (run (copy_rest_line cancelled) st (drop (ps_old st) original)) (\<lambda>st. Ok (ps_output st))))"

section \<open>Line endings\<close>

datatype LineEndings = LineEndingsLf | LineEndingsCrLf

record NormalizedText =
  normalized_text :: string
  line_endings :: LineEndings

text \<open>\<open>replace("\r\n", r)\<close> and \<open>contains("\r\n")\<close>\<close>

fun replace_crlf :: "string \<Rightarrow> string \<Rightarrow> string" where
  "replace_crlf r (a # b # s) =
     (if a = CARRIAGE \<and> b = NL then r @ replace_crlf r s else a # replace_crlf r (b # s))"
| "replace_crlf r s = s"

fun contains_crlf :: "string \<Rightarrow> bool" where
  "contains_crlf (a # b # s) = (a = CARRIAGE \<and> b = NL \<or> contains_crlf (b # s))"
| "contains_crlf _ = False"

definition validate_file_text :: "string \<Rightarrow> ToolCallError + unit" where
  "validate_file_text v =
     (if has_unsafe_control v then not_text ''the file contains an unsafe control character''
      else if length (split_lines v) > MAX_MUTATION_FILE_LINES
        \<or> list_ex (\<lambda>l. length l > MAX_MUTATION_FILE_LINE_BYTES) (split_lines v)
      then patch_too_large ''the file exceeds the configured line count or line length''
      else Ok ())"

definition normalize_existing_text :: "string \<Rightarrow> ToolCallError + NormalizedText" where
  "normalize_existing_text raw =
     (if \<not> utf8_valid raw then not_text ''the update target is not valid UTF-8 text''
      else if CHR 0x00 \<in> set raw then not_text ''the update target contains NUL bytes''
      else let has_crlf = contains_crlf raw; without_crlf = replace_crlf [] raw in
        if CARRIAGE \<in> set without_crlf \<or> has_crlf \<and> NL \<in> set without_crlf
        then not_text ''the update target has mixed or unsupported line endings''
        else let normalized = (if has_crlf then replace_crlf [NL] raw else raw) in
          and_then (validate_file_text normalized) (\<lambda>_.
            Ok \<lparr>normalized_text = normalized,
                line_endings = (if has_crlf then LineEndingsCrLf else LineEndingsLf)\<rparr>))"

text \<open>The bytes that are written.\<close>

definition candidate_raw :: "LineEndings \<Rightarrow> string \<Rightarrow> ToolCallError + string" where
  "candidate_raw endings candidate =
     (let raw = (case endings of
          LineEndingsLf \<Rightarrow> candidate
        | LineEndingsCrLf \<Rightarrow> concat (map (\<lambda>c. if c = NL then [CARRIAGE, NL] else [c]) candidate))
      in if length raw > MAX_MUTATION_FILE_BYTES
         then patch_too_large ''the patched file exceeds the mutation file limit'' else Ok raw)"

end
