(* ===== verification/File_Diff.thy ===== *)
theory File_Diff
  imports File_Patch
begin

text \<open>
  The canonical diff that is shown for approval (\<open>canonical_diff\<close> of \<open>src/tools/patch.rs\<close>) and the
  approval prompt that carries it (\<open>ApprovalPrompt\<close> of \<open>src/agent/approval.rs\<close>). The operations of
  the hunks are collected, edits that undo each other are refused, the changes are grouped into
  clusters more than six unchanged lines apart, and each cluster is printed with at most three
  lines of context.
\<close>

section \<open>Operations\<close>

datatype CanonicalOp = OpEqual string | OpDelete string | OpInsert string

fun is_equal :: "CanonicalOp \<Rightarrow> bool" where
  "is_equal (OpEqual _) = True"
| "is_equal _ = False"

fun consumes_old :: "CanonicalOp \<Rightarrow> bool" where
  "consumes_old (OpInsert _) = False"
| "consumes_old _ = True"

fun consumes_new :: "CanonicalOp \<Rightarrow> bool" where
  "consumes_new (OpDelete _) = False"
| "consumes_new _ = True"

fun rendered_op :: "CanonicalOp \<Rightarrow> string \<times> string" where
  "rendered_op (OpEqual v) = ('' '', v)"
| "rendered_op (OpDelete v) = (''-'', v)"
| "rendered_op (OpInsert v) = (''+'', v)"

record DiffState =
  ds_ops :: "CanonicalOp list"
  ds_old :: nat
  ds_polls :: nat

definition diff_poll :: "(nat \<Rightarrow> bool) \<Rightarrow> DiffState \<Rightarrow> ToolCallError + DiffState" where
  "diff_poll cancelled st = (if cancelled (ds_polls st) then tool_aborted else Ok (st\<lparr>ds_polls := Suc (ds_polls st)\<rparr>))"

definition push_op :: "CanonicalOp \<Rightarrow> DiffState \<Rightarrow> DiffState" where
  "push_op a st = st\<lparr>ds_ops := ds_ops st @ [a]\<rparr>"

definition next_old :: "DiffState \<Rightarrow> ToolCallError + DiffState" where
  "next_old st = (if Suc (ds_old st) < 2 ^ 64 then Ok (st\<lparr>ds_old := Suc (ds_old st)\<rparr>)
     else invalid_patch ''line count overflow'')"

definition diff_line :: "(nat \<Rightarrow> bool) \<Rightarrow> string list \<Rightarrow> DiffState \<Rightarrow> PatchLine \<Rightarrow> ToolCallError + DiffState" where
  "diff_line cancelled original st l = and_then (diff_poll cancelled st) (\<lambda>st. case l of
      LineContext v \<Rightarrow>
        if \<not> line_is original (ds_old st) v then invalid_patch ''patch context does not match the target''
        else next_old (push_op (OpEqual v) st)
    | LineDelete v \<Rightarrow>
        if \<not> line_is original (ds_old st) v then invalid_patch ''patch deletion does not match the target''
        else next_old (push_op (OpDelete v) st)
    | LineInsert v \<Rightarrow> Ok (push_op (OpInsert v) st))"

definition diff_hunk :: "(nat \<Rightarrow> bool) \<Rightarrow> string list \<Rightarrow> DiffState \<Rightarrow> Hunk \<Rightarrow> ToolCallError + DiffState" where
  "diff_hunk cancelled original st h =
     and_then (diff_poll cancelled st) (\<lambda>st.
     case range_index (hunk_old h) of None \<Rightarrow> invalid_patch ''invalid old hunk range'' | Some old_index \<Rightarrow>
     if old_index < ds_old st \<or> old_index > length original
     then invalid_patch ''hunk old range is outside the target''
     else run (diff_line cancelled original)
       (st\<lparr>ds_ops := ds_ops st @ map OpEqual (between (ds_old st) old_index original), ds_old := old_index\<rparr>)
       (hunk_lines h))"

definition diff_rest_line :: "(nat \<Rightarrow> bool) \<Rightarrow> DiffState \<Rightarrow> string \<Rightarrow> ToolCallError + DiffState" where
  "diff_rest_line cancelled st v = and_then (diff_poll cancelled st) (\<lambda>st. Ok (push_op (OpEqual v) st))"

definition diff_start :: DiffState where
  "diff_start = \<lparr>ds_ops = [], ds_old = 0, ds_polls = 0\<rparr>"

definition diff_operations :: "(nat \<Rightarrow> bool) \<Rightarrow> string \<Rightarrow> Hunk list \<Rightarrow> ToolCallError + DiffState" where
  "diff_operations cancelled before hunks = (let original = split_lines before in
     and_then (run (diff_hunk cancelled original) diff_start hunks) (\<lambda>st.
     run (diff_rest_line cancelled) st (drop (ds_old st) original)))"

text \<open>The lines deleted and inserted since the last unchanged line.\<close>

definition redundant_step :: "string set \<times> string set \<Rightarrow> CanonicalOp \<Rightarrow> ToolCallError + (string set \<times> string set)" where
  "redundant_step = (\<lambda>(deleted, inserted) op. case op of
      OpEqual _ \<Rightarrow> Ok ({}, {})
    | OpDelete v \<Rightarrow> if v = [] \<or> v \<in> inserted
        then invalid_patch ''one edit run redundantly deletes and inserts the same line''
        else Ok (insert v deleted, inserted)
    | OpInsert v \<Rightarrow> if v = [] \<or> v \<in> deleted
        then invalid_patch ''one edit run redundantly deletes and inserts the same line''
        else Ok (deleted, insert v inserted))"

definition reject_redundant_edits :: "CanonicalOp list \<Rightarrow> ToolCallError + unit" where
  "reject_redundant_edits ops = and_then (run redundant_step ({}, {}) ops) (\<lambda>_. Ok ())"

section \<open>Clusters\<close>

text \<open>\<open>clusters\<close>, \<open>equal_since_change\<close> and the index of the next operation. The count of unchanged
  operations starts at the largest number and saturates there.\<close>

record ClusterState =
  cl_clusters :: "(nat \<times> nat) list"
  cl_equal_since :: usize
  cl_index :: nat

definition cluster_step :: "CanonicalOp \<Rightarrow> ClusterState \<Rightarrow> ClusterState" where
  "cluster_step op st = (let index = cl_index st; clusters = cl_clusters st in
     if is_equal op
     then st\<lparr>cl_equal_since := saturating_add (cl_equal_since st) 1, cl_index := Suc index\<rparr>
     else st\<lparr>cl_clusters := (if clusters = [] \<or> cl_equal_since st > 6 then clusters @ [(index, index)]
               else butlast clusters @ [(fst (last clusters), index)]),
             cl_equal_since := 0, cl_index := Suc index\<rparr>)"

definition clusters_of :: "CanonicalOp list \<Rightarrow> (nat \<times> nat) list" where
  "clusters_of ops = cl_clusters (fold cluster_step ops \<lparr>cl_clusters = [], cl_equal_since = - 1, cl_index = 0\<rparr>)"

text \<open>\<open>old_prefix\<close> and \<open>new_prefix\<close>: how many lines of a side come before each operation.\<close>

definition prefix_step :: "(CanonicalOp \<Rightarrow> bool) \<Rightarrow> string \<Rightarrow> nat list \<Rightarrow> CanonicalOp \<Rightarrow> ToolCallError + nat list" where
  "prefix_step consumes message counts op =
     (let n = last counts + (if consumes op then 1 else 0) in
      if n < 2 ^ 64 then Ok (counts @ [n]) else invalid_patch message)"

definition prefix_counts :: "(CanonicalOp \<Rightarrow> bool) \<Rightarrow> string \<Rightarrow> CanonicalOp list \<Rightarrow> ToolCallError + nat list" where
  "prefix_counts consumes message = run (prefix_step consumes message) [0]"

text \<open>The two loops over the context of a cluster.\<close>

function context_start :: "CanonicalOp list \<Rightarrow> nat \<Rightarrow> nat \<Rightarrow> nat" where
  "context_start ops leading start =
     (if 0 < start \<and> leading < 3
      then context_start ops (if is_equal (ops ! (start - 1)) then Suc leading else leading) (start - 1)
      else start)"
  by auto
termination
  by (relation "measure (\<lambda>(_, _, start). start)") auto

function context_end :: "CanonicalOp list \<Rightarrow> nat \<Rightarrow> nat \<Rightarrow> nat" where
  "context_end ops trailing stop =
     (if stop < length ops \<and> trailing < 3
      then context_end ops (if is_equal (ops ! stop) then Suc trailing else trailing) (Suc stop)
      else stop)"
  by auto
termination
  by (relation "measure (\<lambda>(ops, _, stop). length ops - stop)") auto

declare context_start.simps [simp del] context_end.simps [simp del]

section \<open>Printing the diff\<close>

datatype ApprovalDiffRowKind = RowFileHeader | RowHunk | RowContext | RowAddition | RowRemoval | RowNoNewline

record CanonicalDiff =
  diff_text :: string
  diff_rows :: "ApprovalDiffRowKind list"
  diff_additions :: nat
  diff_removals :: nat
  diff_hunks :: nat

record DiffOutput =
  do_text :: string
  do_rows :: "ApprovalDiffRowKind list"
  do_additions :: nat
  do_removals :: nat
  do_polls :: nat

definition format_hunk_range :: "nat \<Rightarrow> nat \<Rightarrow> string" where
  "format_hunk_range prefix_lines len =
     (let start = (if len = 0 then prefix_lines else prefix_lines + 1) in
      if len = 1 then show_nat start else show_nat start @ '','' @ show_nat len)"

definition diff_too_large :: "ToolCallError + 'a" where
  "diff_too_large = Err (ToolModel ''PatchError'' ''DIFF_TOO_LARGE''
     ''the complete canonical approval diff exceeds the configured limit'')"

definition push_diff_output :: "string \<Rightarrow> DiffOutput \<Rightarrow> ToolCallError + DiffOutput" where
  "push_diff_output v st =
     (if length (do_text st) + length v > MAX_APPROVAL_PREVIEW_BYTES then diff_too_large
      else Ok (st\<lparr>do_text := do_text st @ v\<rparr>))"

definition push_diff_row :: "ApprovalDiffRowKind \<Rightarrow> string \<Rightarrow> DiffOutput \<Rightarrow> ToolCallError + DiffOutput" where
  "push_diff_row kind v st =
     (if \<not> ends_line v \<or> NL \<in> set (butlast v) then invalid_patch ''canonical diff row is not one physical line''
      else and_then (push_diff_output v st) (\<lambda>st. Ok (st\<lparr>do_rows := do_rows st @ [kind]\<rparr>)))"

fun row_kind :: "CanonicalOp \<Rightarrow> ApprovalDiffRowKind" where
  "row_kind (OpEqual _) = RowContext"
| "row_kind (OpDelete _) = RowRemoval"
| "row_kind (OpInsert _) = RowAddition"

definition count_op :: "CanonicalOp \<Rightarrow> DiffOutput \<Rightarrow> ToolCallError + DiffOutput" where
  "count_op op st = (case op of
      OpEqual _ \<Rightarrow> Ok st
    | OpDelete _ \<Rightarrow> if Suc (do_removals st) < 2 ^ 64 then Ok (st\<lparr>do_removals := Suc (do_removals st)\<rparr>)
        else invalid_patch ''diff removal count overflow''
    | OpInsert _ \<Rightarrow> if Suc (do_additions st) < 2 ^ 64 then Ok (st\<lparr>do_additions := Suc (do_additions st)\<rparr>)
        else invalid_patch ''diff addition count overflow'')"

definition render_op :: "CanonicalOp \<Rightarrow> string" where
  "render_op op = (let (prefix, v) = rendered_op op in
     (if prefix \<noteq> '' '' \<or> v \<noteq> [NL] then prefix else []) @ v @ (if ends_line v then [] else [NL]))"

definition diff_op :: "(nat \<Rightarrow> bool) \<Rightarrow> DiffOutput \<Rightarrow> CanonicalOp \<Rightarrow> ToolCallError + DiffOutput" where
  "diff_op cancelled st op =
     (if cancelled (do_polls st) then tool_aborted
      else and_then (count_op op (st\<lparr>do_polls := Suc (do_polls st)\<rparr>)) (\<lambda>st.
        and_then (push_diff_row (row_kind op) (render_op op) st) (\<lambda>st.
          if ends_line (snd (rendered_op op)) then Ok st
          else push_diff_row RowNoNewline NO_NEWLINE_MARKER st)))"

text \<open>The printing of one cluster, given the operations and the two lists of prefix counts.\<close>

definition diff_cluster ::
    "(nat \<Rightarrow> bool) \<Rightarrow> CanonicalOp list \<Rightarrow> nat list \<Rightarrow> nat list \<Rightarrow> DiffOutput \<Rightarrow> nat \<times> nat
     \<Rightarrow> ToolCallError + DiffOutput" where
  "diff_cluster cancelled ops old_prefix new_prefix st = (\<lambda>(first_change, last_change).
     let start = context_start ops 0 first_change; stop = context_end ops 0 (last_change + 1);
         old_range = format_hunk_range (old_prefix ! start) (old_prefix ! stop - old_prefix ! start);
         new_range = format_hunk_range (new_prefix ! start) (new_prefix ! stop - new_prefix ! start)
     in and_then (push_diff_row RowHunk (''@@ -'' @ old_range @ '' +'' @ new_range @ '' @@'' @ [NL]) st)
          (\<lambda>st. run (diff_op cancelled) st (between start stop ops)))"

definition original_header :: "MutationOperation \<Rightarrow> string \<Rightarrow> string" where
  "original_header operation path = (case operation of
      MutationCreate \<Rightarrow> ''--- /dev/null'' @ [NL]
    | MutationUpdate \<Rightarrow> ''--- a/'' @ path @ [NL])"

definition modified_header :: "string \<Rightarrow> string" where
  "modified_header path = ''+++ b/'' @ path @ [NL]"

definition canonical_diff ::
    "(nat \<Rightarrow> bool) \<Rightarrow> string \<Rightarrow> MutationOperation \<Rightarrow> string \<Rightarrow> Hunk list \<Rightarrow> ToolCallError + CanonicalDiff" where
  "canonical_diff cancelled path operation before hunks =
     and_then (diff_operations cancelled before hunks) (\<lambda>dst. let ops = ds_ops dst in
     and_then (reject_redundant_edits ops) (\<lambda>_. let clusters = clusters_of ops in
     if clusters = [] then Err (ToolModel ''PatchError'' ''NO_CHANGES''
       ''the patch does not contain a material line operation'')
     else and_then (prefix_counts consumes_old ''old line count overflow'' ops) (\<lambda>old_prefix.
       and_then (prefix_counts consumes_new ''new line count overflow'' ops) (\<lambda>new_prefix.
       and_then (push_diff_row RowFileHeader (original_header operation path)
         \<lparr>do_text = [], do_rows = [], do_additions = 0, do_removals = 0, do_polls = ds_polls dst\<rparr>) (\<lambda>st.
       and_then (push_diff_row RowFileHeader (modified_header path) st) (\<lambda>st.
       and_then (run (diff_cluster cancelled ops old_prefix new_prefix) st clusters) (\<lambda>st.
       Ok \<lparr>diff_text = do_text st, diff_rows = do_rows st, diff_additions = do_additions st,
           diff_removals = do_removals st, diff_hunks = length clusters\<rparr>)))))))"

section \<open>The approval prompt\<close>

datatype ApprovalPatchOperation = PatchCreate | PatchUpdate

record CanonicalPatchApproval =
  approval_operation :: ApprovalPatchOperation
  approval_path :: string
  approval_rows :: "ApprovalDiffRowKind list"
  approval_additions :: nat
  approval_removals :: nat
  approval_hunks :: nat

datatype ApprovalPreviewKind = PreviewOpaque | PreviewCanonicalPatch CanonicalPatchApproval

record ApprovalPrompt =
  prompt_reason :: "string option"
  prompt_preview :: string
  prompt_preview_kind :: ApprovalPreviewKind

datatype ApprovalPromptError =
    InvalidPreview nat nat
  | InvalidReason nat nat
  | InvalidReasonCharacters
  | InvalidCanonicalPatch

definition validate_prompt :: "string option \<Rightarrow> string \<Rightarrow> ApprovalPromptError + unit" where
  "validate_prompt reason preview =
     (if preview = [] \<or> length preview > MAX_APPROVAL_PREVIEW_BYTES
      then Err (InvalidPreview MAX_APPROVAL_PREVIEW_BYTES (length preview))
      else case reason of
        None \<Rightarrow> Ok ()
      | Some v \<Rightarrow>
          if length v > MAX_APPROVAL_REASON_BYTES then Err (InvalidReason MAX_APPROVAL_REASON_BYTES (length v))
          else if has_unsafe_control v then Err InvalidReasonCharacters else Ok ())"

definition opaque_prompt :: "string option \<Rightarrow> string \<Rightarrow> ApprovalPromptError + ApprovalPrompt" where
  "opaque_prompt reason preview = and_then (validate_prompt reason preview) (\<lambda>_.
     Ok \<lparr>prompt_reason = reason, prompt_preview = preview, prompt_preview_kind = PreviewOpaque\<rparr>)"

text \<open>\<open>next().and_then(strip_prefix).and_then(strip_suffix('\n'))\<close> of a header line\<close>

definition header_path :: "string \<Rightarrow> string list \<Rightarrow> nat \<Rightarrow> string option" where
  "header_path prefix lines i = (if i < length lines
     then Option.bind (strip_prefix prefix (lines ! i)) (strip_suffix [NL]) else None)"

definition headers_match :: "ApprovalPatchOperation \<Rightarrow> string \<Rightarrow> string list \<Rightarrow> bool" where
  "headers_match operation path lines \<longleftrightarrow>
     (case operation of
        PatchCreate \<Rightarrow> line_is lines 0 (''--- /dev/null'' @ [NL])
      | PatchUpdate \<Rightarrow> header_path ''--- a/'' lines 0 = Some path)
     \<and> header_path ''+++ b/'' lines 1 = Some path"

definition canonical_patch ::
    "string option \<Rightarrow> string \<Rightarrow> ApprovalPatchOperation \<Rightarrow> string \<Rightarrow> ApprovalDiffRowKind list
     \<Rightarrow> nat \<Rightarrow> nat \<Rightarrow> nat \<Rightarrow> ApprovalPromptError + ApprovalPrompt" where
  "canonical_patch reason preview operation path rows additions removals hunks =
     and_then (validate_prompt reason preview) (\<lambda>_.
     if path = [] \<or> length path > MAX_APPROVAL_PATCH_PATH_BYTES \<or> has_control path
       \<or> \<not> ends_line preview
       \<or> length (filter (\<lambda>c. c = NL) preview) \<noteq> length rows
       \<or> length rows < 3
       \<or> rows ! 0 \<noteq> RowFileHeader \<or> rows ! 1 \<noteq> RowFileHeader \<or> RowFileHeader \<in> set (drop 2 rows)
       \<or> \<not> headers_match operation path (split_lines preview)
       \<or> additions \<noteq> length (filter (\<lambda>r. r = RowAddition) rows)
       \<or> removals \<noteq> length (filter (\<lambda>r. r = RowRemoval) rows)
       \<or> hunks = 0
       \<or> hunks \<noteq> length (filter (\<lambda>r. r = RowHunk) rows)
     then Err InvalidCanonicalPatch
     else Ok \<lparr>prompt_reason = reason, prompt_preview = preview,
       prompt_preview_kind = PreviewCanonicalPatch \<lparr>approval_operation = operation, approval_path = path,
         approval_rows = rows, approval_additions = additions, approval_removals = removals,
         approval_hunks = hunks\<rparr>\<rparr>)"

definition approval_reason :: "MutationOperation \<Rightarrow> string \<Rightarrow> string option" where
  "approval_reason operation path =
     (let reason = (case operation of MutationCreate \<Rightarrow> ''Create'' | MutationUpdate \<Rightarrow> ''Update'')
        @ '' workspace file `'' @ path @ ''`''
      in if length reason \<le> MAX_APPROVAL_REASON_BYTES then Some reason else None)"

definition diff_prompt :: "MutationOperation \<Rightarrow> string \<Rightarrow> CanonicalDiff \<Rightarrow> ApprovalPromptError + ApprovalPrompt" where
  "diff_prompt operation path d =
     canonical_patch (approval_reason operation path) (diff_text d)
       (case operation of MutationCreate \<Rightarrow> PatchCreate | MutationUpdate \<Rightarrow> PatchUpdate)
       path (diff_rows d) (diff_additions d) (diff_removals d) (diff_hunks d)"

end
