(* ===== verification/File_Diff_Correct.thy ===== *)
theory File_Diff_Correct
  imports File_Diff
begin

text \<open>
  The diff that is approved is the change that is written. The patch is applied once to the file and
  once, independently, to produce the diff; here the two are related: the diff is the text of a patch
  of its own, with the clusters as hunks, and applying that patch gives the same candidate.
\<close>

section \<open>The lines of the operations\<close>

definition op_text :: "CanonicalOp \<Rightarrow> string" where
  "op_text op = snd (rendered_op op)"

definition old_lines :: "CanonicalOp list \<Rightarrow> string list" where
  "old_lines ops = map op_text (filter consumes_old ops)"

definition new_lines :: "CanonicalOp list \<Rightarrow> string list" where
  "new_lines ops = map op_text (filter consumes_new ops)"

lemma op_text_simps [simp]:
  "op_text (OpEqual v) = v" "op_text (OpDelete v) = v" "op_text (OpInsert v) = v"
  by (simp_all add: op_text_def)

lemma lines_append [simp]:
  "old_lines (xs @ ys) = old_lines xs @ old_lines ys" "new_lines (xs @ ys) = new_lines xs @ new_lines ys"
  by (simp_all add: old_lines_def new_lines_def)

lemma lines_Nil [simp]: "old_lines [] = []" "new_lines [] = []"
  by (simp_all add: old_lines_def new_lines_def)

lemma lines_Cons:
  "old_lines (a # ops) = (if consumes_old a then [op_text a] else []) @ old_lines ops"
  "new_lines (a # ops) = (if consumes_new a then [op_text a] else []) @ new_lines ops"
  by (simp_all add: old_lines_def new_lines_def)

lemma lines_equal [simp]: "old_lines (map OpEqual vs) = vs" "new_lines (map OpEqual vs) = vs"
  by (induction vs) (simp_all add: lines_Cons)

section \<open>What the candidate accepts\<close>

text \<open>The candidate takes a line after the lines \<open>us\<close>.\<close>

definition next_fits :: "string list \<Rightarrow> string \<Rightarrow> bool" where
  "next_fits us v \<longleftrightarrow> (us \<noteq> [] \<longrightarrow> ends_line (last us)) \<and> length v \<le> MAX_MUTATION_FILE_LINE_BYTES
     \<and> length (concat us) + length v \<le> MAX_MUTATION_FILE_BYTES"

definition fits :: "string list \<Rightarrow> bool" where
  "fits vs \<longleftrightarrow> (\<forall>i < length vs. next_fits (take i vs) (vs ! i))"

lemma fits_Nil [simp]: "fits []"
  by (simp add: fits_def)

lemma fits_snoc: "fits (us @ [v]) \<longleftrightarrow> fits us \<and> next_fits us v"
  by (auto simp: fits_def nth_append less_Suc_eq)

lemma fits_at: "fits (us @ v # ws) \<Longrightarrow> next_fits us v"
  by (auto simp: fits_def dest: spec [of _ "length us"])

definition holds_lines :: "string list \<Rightarrow> PatchState \<Rightarrow> bool" where
  "holds_lines us st \<longleftrightarrow> ps_output st = concat us \<and> ps_at_eof st = (us \<noteq> [] \<and> \<not> ends_line (last us))"

lemma push_candidate_iff:
  assumes "holds_lines us st"
  shows "push_candidate v st = Inr st' \<longleftrightarrow> next_fits us v
    \<and> st' = st\<lparr>ps_output := concat (us @ [v]), ps_at_eof := \<not> ends_line v\<rparr>"
  using assms by (auto simp: holds_lines_def push_candidate_def next_fits_def invalid_patch_def patch_too_large_def)

lemma holds_lines_push:
  "holds_lines (us @ [v]) (st\<lparr>ps_output := concat us @ v, ps_at_eof := \<not> ends_line v\<rparr>)"
  by (simp add: holds_lines_def)

lemma holds_lines_update [simp]:
  "holds_lines us (st\<lparr>ps_old := n\<rparr>) = holds_lines us st"
  "holds_lines us (st\<lparr>ps_new := n\<rparr>) = holds_lines us st"
  "holds_lines us (st\<lparr>ps_polls := n\<rparr>) = holds_lines us st"
  by (simp_all add: holds_lines_def)

lemma poll_Inr: "poll c st = Inr st' \<longleftrightarrow> \<not> c (ps_polls st) \<and> st' = st\<lparr>ps_polls := Suc (ps_polls st)\<rparr>"
  by (auto simp: poll_def tool_aborted_def)

lemma diff_poll_Inr:
  "diff_poll c st = Inr st' \<longleftrightarrow> \<not> c (ds_polls st) \<and> st' = st\<lparr>ds_polls := Suc (ds_polls st)\<rparr>"
  by (auto simp: diff_poll_def tool_aborted_def)

lemma invalid_patch_Inr [simp]: "invalid_patch m \<noteq> Inr x" "Inr x \<noteq> invalid_patch m"
  by (simp_all add: invalid_patch_def)

section \<open>The two traversals of the hunks\<close>

text \<open>A candidate after the lines \<open>us\<close>, each of which it accepted.\<close>

definition takes :: "string list \<Rightarrow> PatchState \<Rightarrow> bool" where
  "takes us st \<longleftrightarrow> holds_lines us st \<and> fits us"

lemma takes_push:
  assumes "takes us st" "push_candidate v st = Inr st'"
  shows "takes (us @ [v]) st' \<and> ps_old st' = ps_old st"
  using assms by (auto simp: takes_def push_candidate_iff fits_snoc holds_lines_push)

lemma takes_update [simp]:
  "takes us (st\<lparr>ps_old := n\<rparr>) = takes us st" "takes us (st\<lparr>ps_new := n\<rparr>) = takes us st"
  "takes us (st\<lparr>ps_polls := n\<rparr>) = takes us st"
  by (simp_all add: takes_def)

lemma next_new_Inr: "next_new st = Inr st' \<longleftrightarrow> Suc (ps_new st) < 2 ^ 64 \<and> st' = st\<lparr>ps_new := Suc (ps_new st)\<rparr>"
  by (auto simp: next_new_def)

lemma copy_line_takes:
  assumes "takes us st" "copy_line c st v = Inr st'"
  shows "takes (us @ [v]) st' \<and> ps_old st' = ps_old st"
  using assms by (auto simp: copy_line_def and_then_Inr poll_Inr next_new_Inr dest!: takes_push [rotated])

lemma copy_rest_line_takes:
  assumes "takes us st" "copy_rest_line c st v = Inr st'"
  shows "takes (us @ [v]) st' \<and> ps_old st' = ps_old st"
  using assms by (auto simp: copy_rest_line_def and_then_Inr poll_Inr dest!: takes_push [rotated])

lemma run_takes:
  assumes step: "\<And>us st v st'. takes us st \<Longrightarrow> f st v = Inr st' \<Longrightarrow> takes (us @ [v]) st' \<and> ps_old st' = ps_old st"
  shows "takes us st \<Longrightarrow> run f st vs = Inr st' \<Longrightarrow> takes (us @ vs) st' \<and> ps_old st' = ps_old st"
proof (induction vs arbitrary: us st)
  case Nil
  then show ?case by simp
next
  case (Cons v vs)
  from Cons.prems(2) obtain s where s: "f st v = Inr s" "run f s vs = Inr st'"
    by (auto simp: and_then_Inr)
  from Cons.IH [OF conjunct1 [OF step [OF Cons.prems(1) s(1)]] s(2)] step [OF Cons.prems(1) s(1)]
  show ?case by simp
qed

text \<open>How the states of the two traversals correspond.\<close>

definition same_ops :: "string list \<Rightarrow> PatchState \<Rightarrow> DiffState \<Rightarrow> bool" where
  "same_ops original st ds \<longleftrightarrow> takes (new_lines (ds_ops ds)) st \<and> ps_old st = ds_old ds
     \<and> ds_old ds \<le> length original \<and> old_lines (ds_ops ds) = take (ds_old ds) original"

lemma same_ops_polls [simp]:
  "same_ops original (st\<lparr>ps_polls := n\<rparr>) ds = same_ops original st ds"
  "same_ops original st (ds\<lparr>ds_polls := n\<rparr>) = same_ops original st ds"
  by (simp_all add: same_ops_def)

lemma run_both:
  assumes step: "\<And>s t x s' t'. R s t \<Longrightarrow> f s x = Inr s' \<Longrightarrow> g t x = Inr t' \<Longrightarrow> R s' t'"
  shows "R s t \<Longrightarrow> run f s xs = Inr s' \<Longrightarrow> run g t xs = Inr t' \<Longrightarrow> R s' t'"
  by (induction xs arbitrary: s t) (auto simp: and_then_Inr intro: step)

lemma line_is_take: "line_is xs n v \<Longrightarrow> take (Suc n) xs = take n xs @ [v]"
  by (auto simp: line_is_def take_Suc_conv_app_nth)

lemma next_old_Inr: "next_old st = Inr st' \<longleftrightarrow> Suc (ds_old st) < 2 ^ 64 \<and> st' = st\<lparr>ds_old := Suc (ds_old st)\<rparr>"
  by (auto simp: next_old_def)

lemma diff_line_same:
  assumes "same_ops original st ds" "apply_line c original st l = Inr st'" "diff_line c' original ds l = Inr ds'"
  shows "same_ops original st' ds'"
proof (cases l)
  case (LineContext v)
  from assms(2) LineContext obtain s1 where s1: "line_is original (ps_old st) v"
      "push_candidate v (st\<lparr>ps_polls := Suc (ps_polls st)\<rparr>) = Inr s1"
      "st' = s1\<lparr>ps_old := Suc (ps_old s1), ps_new := Suc (ps_new s1)\<rparr>"
    by (auto simp: apply_line_def and_then_Inr poll_Inr split: if_splits)
  from assms(3) LineContext have ds': "ds' = ds\<lparr>ds_polls := Suc (ds_polls ds), ds_ops := ds_ops ds @ [OpEqual v], ds_old := Suc (ds_old ds)\<rparr>"
    by (auto simp: diff_line_def and_then_Inr diff_poll_Inr push_op_def next_old_Inr split: if_splits)
  have "takes (new_lines (ds_ops ds)) (st\<lparr>ps_polls := Suc (ps_polls st)\<rparr>)"
    using assms(1) by (simp add: same_ops_def)
  from takes_push [OF this s1(2)] s1(1,3) ds' assms(1) show ?thesis
    by (auto simp: same_ops_def line_is_take lines_Cons) (auto simp: line_is_def)
next
  case (LineDelete v)
  then show ?thesis
    using assms by (auto simp: apply_line_def diff_line_def and_then_Inr poll_Inr diff_poll_Inr push_op_def
      next_old_Inr same_ops_def line_is_take lines_Cons split: if_splits) (auto simp: line_is_def)
next
  case (LineInsert v)
  from assms(2) LineInsert obtain s1 where s1:
      "push_candidate v (st\<lparr>ps_polls := Suc (ps_polls st)\<rparr>) = Inr s1" "st' = s1\<lparr>ps_new := Suc (ps_new s1)\<rparr>"
    by (auto simp: apply_line_def and_then_Inr poll_Inr)
  from assms(3) LineInsert have ds': "ds' = ds\<lparr>ds_polls := Suc (ds_polls ds), ds_ops := ds_ops ds @ [OpInsert v]\<rparr>"
    by (auto simp: diff_line_def and_then_Inr diff_poll_Inr push_op_def)
  have "takes (new_lines (ds_ops ds)) (st\<lparr>ps_polls := Suc (ps_polls st)\<rparr>)"
    using assms(1) by (simp add: same_ops_def)
  from takes_push [OF this s1(1)] s1(2) ds' assms(1) show ?thesis
    by (auto simp: same_ops_def lines_Cons)
qed

lemma take_between: "i \<le> j \<Longrightarrow> take i xs @ between i j xs = take j xs"
  using take_add [of i "j - i" xs] by (simp add: between_def)

lemma diff_hunk_same:
  assumes "same_ops original st ds" "apply_hunk c original st h = Inr st'" "diff_hunk c' original ds h = Inr ds'"
  shows "same_ops original st' ds'"
proof -
  from assms(2) obtain i s1 where i: "range_index (hunk_old h) = Some i" "ps_old st \<le> i" "i \<le> length original"
    and s1: "run (copy_line c) (st\<lparr>ps_polls := Suc (ps_polls st)\<rparr>) (between (ps_old st) i original) = Inr s1"
    and st': "run (apply_line c original) (s1\<lparr>ps_old := i\<rparr>) (hunk_lines h) = Inr st'"
    by (auto simp: apply_hunk_def and_then_Inr poll_Inr split: option.splits if_splits)
  let ?ds = "ds\<lparr>ds_polls := Suc (ds_polls ds), ds_ops := ds_ops ds @ map OpEqual (between (ds_old ds) i original),
    ds_old := i\<rparr>"
  from assms(3) i have ds': "run (diff_line c' original) ?ds (hunk_lines h) = Inr ds'"
    by (auto simp: diff_hunk_def and_then_Inr diff_poll_Inr split: if_splits)
  have "takes (new_lines (ds_ops ds)) (st\<lparr>ps_polls := Suc (ps_polls st)\<rparr>)"
    using assms(1) by (simp add: same_ops_def)
  from run_takes [where f = "copy_line c", OF copy_line_takes this s1] assms(1) i
  have "same_ops original (s1\<lparr>ps_old := i\<rparr>) ?ds"
    by (simp add: same_ops_def take_between)
  from run_both [where R = "same_ops original", OF diff_line_same this st' ds'] show ?thesis .
qed

lemma run_diff_rest:
  "run (diff_rest_line c) ds vs = Inr ds' \<Longrightarrow> ds_ops ds' = ds_ops ds @ map OpEqual vs \<and> ds_old ds' = ds_old ds"
  by (induction vs arbitrary: ds) (fastforce simp: diff_rest_line_def and_then_Inr diff_poll_Inr push_op_def)+

lemma same_change:
  assumes "apply_strict c before hunks = Inr candidate" "diff_operations c' before hunks = Inr ds"
  shows "old_lines (ds_ops ds) = split_lines before" "concat (new_lines (ds_ops ds)) = candidate"
    "fits (new_lines (ds_ops ds))"
proof -
  let ?o = "split_lines before"
  from assms(1) obtain s1 s2 where s: "run (apply_hunk c ?o) patch_start hunks = Inr s1"
      "run (copy_rest_line c) s1 (drop (ps_old s1) ?o) = Inr s2" "candidate = ps_output s2"
    by (auto simp: apply_strict_def Let_def and_then_Inr)
  from assms(2) obtain d1 where d: "run (diff_hunk c' ?o) diff_start hunks = Inr d1"
      "run (diff_rest_line c') d1 (drop (ds_old d1) ?o) = Inr ds"
    by (auto simp: diff_operations_def Let_def and_then_Inr)
  have "same_ops ?o patch_start diff_start"
    by (simp add: same_ops_def patch_start_def diff_start_def takes_def holds_lines_def)
  from run_both [where R = "same_ops ?o", OF diff_hunk_same this s(1) d(1)]
  have j: "same_ops ?o s1 d1" .
  then have "takes (new_lines (ds_ops d1)) s1" by (simp add: same_ops_def)
  from run_takes [where f = "copy_rest_line c", OF copy_rest_line_takes this s(2)] run_diff_rest [OF d(2)] j s(3)
  show "old_lines (ds_ops ds) = split_lines before" "concat (new_lines (ds_ops ds)) = candidate"
    "fits (new_lines (ds_ops ds))"
    by (auto simp: same_ops_def takes_def holds_lines_def)
qed

section \<open>Clusters\<close>

definition all_equal :: "CanonicalOp list \<Rightarrow> nat \<Rightarrow> nat \<Rightarrow> bool" where
  "all_equal ops p q \<longleftrightarrow> (\<forall>i. p \<le> i \<and> i < q \<longrightarrow> is_equal (ops ! i))"

text \<open>The clusters start at or after \<open>p + m\<close>, later ones are seven operations apart, and only unchanged
  operations lie before and between them.\<close>

fun clustered :: "CanonicalOp list \<Rightarrow> nat \<Rightarrow> nat \<Rightarrow> (nat \<times> nat) list \<Rightarrow> bool" where
  "clustered ops m p [] = True"
| "clustered ops m p ((f, l) # cs) =
     (p + m \<le> f \<and> f \<le> l \<and> l < length ops \<and> all_equal ops p f \<and> clustered ops 7 (Suc l) cs)"

text \<open>Where the operations after the last cluster begin.\<close>

definition after :: "nat \<Rightarrow> (nat \<times> nat) list \<Rightarrow> nat" where
  "after p cs = (if cs = [] then p else Suc (snd (last cs)))"

lemma after_simps [simp]: "after p [] = p" "after p ((f, l) # cs) = after (Suc l) cs" "after p (cs @ [c]) = Suc (snd c)"
  by (simp_all add: after_def)

lemma clustered_snoc:
  "clustered ops m p cs \<Longrightarrow> after p cs + (if cs = [] then m else 7) \<le> i \<Longrightarrow> i < length ops
   \<Longrightarrow> all_equal ops (after p cs) i \<Longrightarrow> clustered ops m p (cs @ [(i, i)])"
proof (induction cs arbitrary: m p)
  case Nil
  then show ?case by simp
next
  case (Cons c cs)
  obtain f l where c: "c = (f, l)" by (cases c)
  from Cons.prems Cons.IH [of 7 "Suc l"] show ?case by (auto simp: c split: if_splits)
qed

lemma clustered_merge:
  "clustered ops m p cs \<Longrightarrow> cs \<noteq> [] \<Longrightarrow> snd (last cs) \<le> i \<Longrightarrow> i < length ops
   \<Longrightarrow> clustered ops m p (butlast cs @ [(fst (last cs), i)])"
proof (induction cs arbitrary: m p)
  case Nil
  then show ?case by simp
next
  case (Cons c cs)
  obtain f l where c: "c = (f, l)" by (cases c)
  from Cons.prems Cons.IH [of 7 "Suc l"] show ?case by (auto simp: c split: if_splits)
qed

definition cluster_ok :: "CanonicalOp list \<Rightarrow> ClusterState \<Rightarrow> bool" where
  "cluster_ok ops st \<longleftrightarrow> (let cs = cl_clusters st in
     clustered ops 0 0 cs \<and> after 0 cs \<le> cl_index st \<and> all_equal ops (after 0 cs) (cl_index st)
     \<and> (cs \<noteq> [] \<longrightarrow> unat (cl_equal_since st) \<le> cl_index st - after 0 cs))"

lemma all_equal_Suc: "all_equal ops p i \<Longrightarrow> is_equal (ops ! i) \<Longrightarrow> all_equal ops p (Suc i)"
  by (auto simp: all_equal_def less_Suc_eq)

lemma all_equal_empty [simp]: "all_equal ops p p"
  by (auto simp: all_equal_def)

lemma all_equal_sub: "all_equal ops p q \<Longrightarrow> p \<le> p' \<Longrightarrow> q' \<le> q \<Longrightarrow> all_equal ops p' q'"
  by (auto simp: all_equal_def)

lemma saturating_one: "unat (saturating_add w (1 :: 'a::len word)) \<le> Suc (unat w)"
  by (auto simp: saturating_add_def checked_add_def unat_word_ariths not_less
    intro: le_trans [OF less_imp_le [OF unat_less_2p]])

lemma cluster_step_ok:
  assumes "cluster_ok ops st" "cl_index st < length ops"
  shows "cluster_ok ops (cluster_step (ops ! cl_index st) st)"
proof (cases "is_equal (ops ! cl_index st)")
  case True
  with assms show ?thesis
    using saturating_one [of "cl_equal_since st"]
    by (fastforce simp: cluster_ok_def cluster_step_def Let_def intro: all_equal_Suc)
next
  case False
  show ?thesis
  proof (cases "cl_clusters st = [] \<or> cl_equal_since st > 6")
    case True
    then have "cl_clusters st = [] \<or> unat (cl_equal_since st) \<ge> 7"
      by (auto simp: word_less_nat_alt)
    with False True assms show ?thesis
      by (auto simp: cluster_ok_def cluster_step_def Let_def intro!: clustered_snoc)
  next
    case merge: False
    with False assms show ?thesis
      by (auto simp: cluster_ok_def cluster_step_def Let_def after_def intro!: clustered_merge)
  qed
qed

lemma fold_cluster_ok:
  "cluster_ok ops st \<Longrightarrow> cl_index st + length xs = length ops \<Longrightarrow> xs = drop (cl_index st) ops
   \<Longrightarrow> cluster_ok ops (fold cluster_step xs st) \<and> cl_index (fold cluster_step xs st) = length ops"
proof (induction xs arbitrary: st)
  case Nil
  then show ?case by simp
next
  case (Cons x xs)
  have i: "cl_index st < length ops" using Cons.prems(2) by simp
  have x: "x = ops ! cl_index st" "xs = drop (Suc (cl_index st)) ops"
    using Cons.prems(3) i by (simp_all add: Cons_nth_drop_Suc [symmetric])
  have idx: "cl_index (cluster_step x st) = Suc (cl_index st)" by (simp add: cluster_step_def Let_def)
  from Cons.IH [OF cluster_step_ok [OF Cons.prems(1) i]] Cons.prems(2) x idx show ?case by simp
qed

lemma clusters_of_clustered:
  "clustered ops 0 0 (clusters_of ops)" "all_equal ops (after 0 (clusters_of ops)) (length ops)"
  using fold_cluster_ok [of ops "\<lparr>cl_clusters = [], cl_equal_since = - 1, cl_index = 0\<rparr>" ops]
  by (auto simp: cluster_ok_def clusters_of_def Let_def)

section \<open>Context\<close>

lemma context_start_le: "context_start ops k s \<le> s"
proof (induction ops k s rule: context_start.induct)
  case (1 ops k s)
  then show ?case by (subst context_start.simps) (auto intro: le_trans)
qed

lemma context_start_ge: "all_equal ops g s \<Longrightarrow> g + (3 - k) \<le> s \<Longrightarrow> s - (3 - k) \<le> context_start ops k s"
proof (induction ops k s rule: context_start.induct)
  case (1 ops k s)
  show ?case
  proof (cases "0 < s \<and> k < 3")
    case True
    with 1(2,3) have e: "is_equal (ops ! (s - 1))" by (auto simp: all_equal_def)
    have "all_equal ops g (s - 1)" using 1(2) by (rule all_equal_sub) simp_all
    with 1(1) [OF True] 1(3) True e show ?thesis by (subst context_start.simps) auto
  next
    case False
    then show ?thesis by (subst context_start.simps) auto
  qed
qed

lemma context_end_ge: "s \<le> context_end ops k s"
proof (induction ops k s rule: context_end.induct)
  case (1 ops k s)
  then show ?case by (subst context_end.simps) (auto intro: Suc_leD)
qed

lemma context_end_bound: "s \<le> length ops \<Longrightarrow> context_end ops k s \<le> length ops"
proof (induction ops k s rule: context_end.induct)
  case (1 ops k s)
  then show ?case by (subst context_end.simps) auto
qed

lemma context_end_le: "all_equal ops s q \<Longrightarrow> s + (3 - k) \<le> q \<Longrightarrow> context_end ops k s \<le> s + (3 - k)"
proof (induction ops k s rule: context_end.induct)
  case (1 ops k s)
  show ?case
  proof (cases "s < length ops \<and> k < 3")
    case True
    with 1(2,3) have e: "is_equal (ops ! s)" by (auto simp: all_equal_def)
    have "all_equal ops (Suc s) q" using 1(2) by (rule all_equal_sub) simp_all
    have "Suc s + (3 - Suc k) = s + (3 - k)" using True by linarith
    with 1(1) [OF True] 1(3) True e \<open>all_equal ops (Suc s) q\<close> show ?thesis
      by (subst context_end.simps) (simp del: add_Suc)
  next
    case False
    then show ?thesis by (subst context_end.simps) auto
  qed
qed

section \<open>Prefix counts\<close>

definition count_before :: "(CanonicalOp \<Rightarrow> bool) \<Rightarrow> CanonicalOp list \<Rightarrow> nat \<Rightarrow> nat" where
  "count_before consumes ops k = length (filter consumes (take k ops))"

lemma run_prefix_step:
  "run (prefix_step consumes m) counts ops = Inr counts' \<Longrightarrow> counts \<noteq> [] \<Longrightarrow> \<forall>n \<in> set counts. n < 2 ^ 64
   \<Longrightarrow> counts' = counts @ map (\<lambda>k. last counts + count_before consumes ops (Suc k)) [0..<length ops]
     \<and> (\<forall>n \<in> set counts'. n < 2 ^ 64)"
proof (induction ops arbitrary: counts)
  case Nil
  then show ?case by simp
next
  case (Cons a ops)
  let ?n = "last counts + (if consumes a then 1 else 0)"
  from Cons.prems(1) obtain c where c: "prefix_step consumes m counts a = Inr c"
    "run (prefix_step consumes m) c ops = Inr counts'" by (auto simp: and_then_Inr)
  from c(1) have n: "?n < 2 ^ 64" and "c = counts @ [?n]"
    by (simp_all only: prefix_step_def Let_def) (simp_all split: if_splits)
  with c(2) have r: "run (prefix_step consumes m) (counts @ [?n]) ops = Inr counts'" by simp
  have ne: "counts @ [?n] \<noteq> []" and small: "\<forall>k \<in> set (counts @ [?n]). k < 2 ^ 64"
    using n Cons.prems(3) by auto
  note Cons.IH [OF r ne small, unfolded last_snoc]
  moreover have "map (\<lambda>k. last counts + count_before consumes (a # ops) (Suc k)) [0..<length (a # ops)]
      = ?n # map (\<lambda>k. ?n + count_before consumes ops (Suc k)) [0..<length ops]"
    unfolding length_Cons map_upt_Suc by (simp add: count_before_def)
  ultimately show ?case by (simp only: append_assoc append.simps) blast
qed

lemma prefix_counts_Inr:
  assumes "prefix_counts consumes m ops = Inr counts" "k \<le> length ops"
  shows "counts ! k = count_before consumes ops k" "count_before consumes ops k < 2 ^ 64"
proof -
  from run_prefix_step [OF assms(1) [unfolded prefix_counts_def]]
  have c: "counts = [0] @ map (\<lambda>k. count_before consumes ops (Suc k)) [0..<length ops]"
    "\<forall>n \<in> set counts. n < 2 ^ 64" by auto
  show nth: "counts ! k = count_before consumes ops k"
    using assms(2) by (cases k) (simp_all add: c(1) count_before_def)
  from assms(2) have "k < length counts" by (simp add: c(1))
  with c(2) nth show "count_before consumes ops k < 2 ^ 64" by (metis nth_mem)
qed

lemma count_before_mono: "j \<le> k \<Longrightarrow> count_before consumes ops j \<le> count_before consumes ops k"
  using take_add [of j "k - j" ops] by (simp add: count_before_def)

lemma count_before_Suc:
  "k < length ops \<Longrightarrow> count_before consumes ops (Suc k)
     = count_before consumes ops k + (if consumes (ops ! k) then 1 else 0)"
  by (simp add: count_before_def take_Suc_conv_app_nth)

section \<open>The patch that is shown\<close>

fun shown_line :: "CanonicalOp \<Rightarrow> PatchLine" where
  "shown_line (OpEqual v) = LineContext v"
| "shown_line (OpDelete v) = LineDelete v"
| "shown_line (OpInsert v) = LineInsert v"

definition shown_range :: "(CanonicalOp \<Rightarrow> bool) \<Rightarrow> CanonicalOp list \<Rightarrow> nat \<Rightarrow> nat \<Rightarrow> HunkRange" where
  "shown_range consumes ops start stop =
     (let n = count_before consumes ops start; len = count_before consumes ops stop - n
      in \<lparr>range_start = of_nat (if len = 0 then n else n + 1), range_len = of_nat len\<rparr>)"

definition shown_hunk :: "CanonicalOp list \<Rightarrow> nat \<times> nat \<Rightarrow> Hunk" where
  "shown_hunk ops = (\<lambda>(f, l). let start = context_start ops 0 f; stop = context_end ops 0 (l + 1)
     in \<lparr>hunk_old = shown_range consumes_old ops start stop, hunk_new = shown_range consumes_new ops start stop,
         hunk_lines = map shown_line (between start stop ops)\<rparr>)"

lemma of_nat_usize: "n < 2 ^ 64 \<Longrightarrow> unat (of_nat n :: usize) = n"
  by (simp add: unat_of_nat)

lemma shown_range_index:
  assumes "start \<le> stop" "count_before consumes ops stop < 2 ^ 64"
  shows "range_index (shown_range consumes ops start stop) = Some (count_before consumes ops start)"
    "unat (range_len (shown_range consumes ops start stop))
       = count_before consumes ops stop - count_before consumes ops start"
proof -
  let ?a = "count_before consumes ops start" and ?b = "count_before consumes ops stop"
  have le: "?a \<le> ?b" using assms(1) by (rule count_before_mono)
  have l: "unat (of_nat (?b - ?a) :: usize) = ?b - ?a" using assms(2) by (intro of_nat_usize) simp
  have z: "(of_nat (?b - ?a) :: usize) = 0 \<longleftrightarrow> ?b - ?a = 0"
    using l unat_0_iff [of "of_nat (?b - ?a) :: usize"] by simp
  have s: "checked_sub (of_nat (?a + 1) :: usize) 1 = Some (of_nat ?a)" if "?b - ?a \<noteq> 0"
  proof -
    have "?a + 1 < 2 ^ 64" using that assms(2) by linarith
    then have "unat (of_nat (?a + 1) :: usize) = ?a + 1" by (rule of_nat_usize)
    then have "(1 :: usize) \<le> of_nat (?a + 1)" by (simp only: word_le_nat_alt unat_1)
    then show ?thesis by (simp add: checked_sub_def)
  qed
  show "unat (range_len (shown_range consumes ops start stop)) = ?b - ?a"
    by (simp add: shown_range_def Let_def l)
  have a: "unat (of_nat ?a :: usize) = ?a" using le assms(2) by (intro of_nat_usize) simp
  show "range_index (shown_range consumes ops start stop) = Some ?a"
  proof (cases "?b - ?a = 0")
    case True
    then show ?thesis using a by (simp add: range_index_def shown_range_def Let_def)
  next
    case False
    with z s a show ?thesis by (simp add: range_index_def shown_range_def Let_def)
  qed
qed

section \<open>Applying the patch that is shown\<close>

text \<open>The application stands before operation \<open>p\<close>.\<close>

definition at_op :: "CanonicalOp list \<Rightarrow> nat \<Rightarrow> PatchState \<Rightarrow> bool" where
  "at_op ops p st \<longleftrightarrow> holds_lines (new_lines (take p ops)) st \<and> ps_old st = count_before consumes_old ops p
     \<and> ps_new st = count_before consumes_new ops p"

lemma at_op_update [simp]: "at_op ops p (st\<lparr>ps_polls := n\<rparr>) = at_op ops p st"
  by (simp add: at_op_def)

lemma run_between:
  assumes step: "\<And>i st. p \<le> i \<Longrightarrow> i < s \<Longrightarrow> here i st \<Longrightarrow> \<exists>st'. f st (g (ops ! i)) = Inr st' \<and> here (Suc i) st'"
  shows "p \<le> q \<Longrightarrow> q \<le> s \<Longrightarrow> s \<le> length ops \<Longrightarrow> here q st
    \<Longrightarrow> \<exists>st'. run f st (map g (between q s ops)) = Inr st' \<and> here s st'"
proof (induction "s - q" arbitrary: q st)
  case 0
  then show ?case by (simp add: between_def)
next
  case (Suc n)
  then have q: "q < s" by simp
  from step [OF Suc.prems(1) q Suc.prems(4)] obtain st' where st': "f st (g (ops ! q)) = Inr st'" "here (Suc q) st'"
    by blast
  have "between q s ops = ops ! q # between (Suc q) s ops"
    using q Suc.prems(3) by (simp add: between_def Cons_nth_drop_Suc [symmetric] Suc_diff_Suc [symmetric])
  moreover from Suc.hyps Suc.prems q st' have "\<exists>st''. run f st' (map g (between (Suc q) s ops)) = Inr st'' \<and> here s st''"
    by (intro Suc.hyps(1)) auto
  ultimately show ?case using st' by auto
qed

lemma old_line_at:
  assumes "p < length ops" "consumes_old (ops ! p)"
  shows "line_is (old_lines ops) (count_before consumes_old ops p) (op_text (ops ! p))"
proof -
  have "old_lines ops = old_lines (take p ops) @ op_text (ops ! p) # old_lines (drop (Suc p) ops)"
    using arg_cong [OF id_take_nth_drop [OF assms(1)], of old_lines] assms(2) by (simp add: lines_Cons)
  moreover have "length (old_lines (take p ops)) = count_before consumes_old ops p"
    by (simp add: old_lines_def count_before_def)
  ultimately show ?thesis by (simp add: line_is_def nth_append)
qed

lemma new_line_fits:
  assumes "p < length ops" "consumes_new (ops ! p)" "fits (new_lines ops)"
  shows "next_fits (new_lines (take p ops)) (op_text (ops ! p))"
proof -
  have "new_lines ops = new_lines (take p ops) @ op_text (ops ! p) # new_lines (drop (Suc p) ops)"
    using arg_cong [OF id_take_nth_drop [OF assms(1)], of new_lines] assms(2) by (simp add: lines_Cons)
  with assms(3) show ?thesis by (metis fits_at)
qed

lemma push_at_op:
  assumes "p < length ops" "consumes_new (ops ! p)" "fits (new_lines ops)"
    "holds_lines (new_lines (take p ops)) st"
  shows "\<exists>st'. push_candidate (op_text (ops ! p)) st = Inr st' \<and> holds_lines (new_lines (take (Suc p) ops)) st'
    \<and> ps_old st' = ps_old st \<and> ps_new st' = ps_new st"
  using assms new_line_fits [OF assms(1-3)]
  by (auto simp: push_candidate_iff holds_lines_push take_Suc_conv_app_nth lines_Cons)

lemma apply_line_at_op:
  assumes "p < length ops" "fits (new_lines ops)" "at_op ops p st"
  shows "\<exists>st'. apply_line (\<lambda>_. False) (old_lines ops) st (shown_line (ops ! p)) = Inr st' \<and> at_op ops (Suc p) st'"
proof -
  let ?st = "st\<lparr>ps_polls := Suc (ps_polls st)\<rparr>"
  have at: "holds_lines (new_lines (take p ops)) ?st" using assms(3) by (simp add: at_op_def)
  show ?thesis
  proof (cases "ops ! p")
    case (OpEqual v)
    with push_at_op [OF assms(1) _ assms(2) at] old_line_at [OF assms(1)] assms(1,3) show ?thesis
      by (fastforce simp: apply_line_def poll_def and_then_Inr at_op_def count_before_Suc)
  next
    case (OpDelete v)
    with old_line_at [OF assms(1)] assms(1,3) show ?thesis
      by (auto simp: apply_line_def poll_def and_then_Inr at_op_def count_before_Suc take_Suc_conv_app_nth lines_Cons)
  next
    case (OpInsert v)
    with push_at_op [OF assms(1) _ assms(2) at] assms(1,3) show ?thesis
      by (fastforce simp: apply_line_def poll_def and_then_Inr at_op_def count_before_Suc)
  qed
qed

lemma equal_op: "is_equal a \<Longrightarrow> consumes_old a \<and> consumes_new a \<and> a = OpEqual (op_text a)"
  by (cases a) simp_all

lemma copy_line_at_op:
  assumes "p < length ops" "is_equal (ops ! p)" "fits (new_lines ops)"
    "at_op ops p (st\<lparr>ps_old := count_before consumes_old ops p\<rparr>)"
    "count_before consumes_new ops (length ops) < 2 ^ 64"
  shows "\<exists>st'. copy_line (\<lambda>_. False) st (op_text (ops ! p)) = Inr st'
    \<and> at_op ops (Suc p) (st'\<lparr>ps_old := count_before consumes_old ops (Suc p)\<rparr>)
    \<and> ps_old st' = ps_old st"
proof -
  let ?st = "st\<lparr>ps_polls := Suc (ps_polls st)\<rparr>"
  have at: "holds_lines (new_lines (take p ops)) ?st" using assms(4) by (simp add: at_op_def)
  note e = equal_op [OF assms(2)]
  have "Suc (count_before consumes_new ops p) < 2 ^ 64"
    using count_before_mono [of "Suc p" "length ops" consumes_new ops] assms(1,5) e
    by (simp add: count_before_Suc)
  with push_at_op [OF assms(1) _ assms(3) at] e assms(1,4) show ?thesis
    by (fastforce simp: copy_line_def poll_def and_then_Inr at_op_def next_new_def count_before_Suc)
qed

lemma old_lines_between:
  assumes "all_equal ops p s" "p \<le> s" "s \<le> length ops"
  shows "between (count_before consumes_old ops p) (count_before consumes_old ops s) (old_lines ops)
    = map op_text (between p s ops)"
proof -
  let ?m = "between p s ops"
  have eq: "\<forall>a \<in> set ?m. is_equal a"
    using assms by (auto simp: between_def all_equal_def in_set_conv_nth)
  then have m: "filter consumes_old ?m = ?m" by (auto simp: filter_id_conv dest: equal_op)
  have split: "take s ops = take p ops @ ?m" using assms(2) by (simp add: take_between)
  have "old_lines ops = old_lines (take s ops) @ old_lines (drop s ops)"
    using lines_append(1) [of "take s ops" "drop s ops"] by (simp only: append_take_drop_id)
  then have "old_lines ops = old_lines (take p ops) @ map op_text ?m @ old_lines (drop s ops)"
    by (simp add: split old_lines_def m)
  moreover have "length (old_lines (take p ops)) = count_before consumes_old ops p"
    by (simp add: old_lines_def count_before_def)
  moreover have "count_before consumes_old ops s = count_before consumes_old ops p + length ?m"
    by (simp add: count_before_def split m)
  ultimately show ?thesis by (simp add: between_def)
qed

lemma length_old_lines: "length (old_lines ops) = count_before consumes_old ops (length ops)"
  by (simp add: old_lines_def count_before_def)

text \<open>The totals of both sides are machine integers.\<close>

definition small_ops :: "CanonicalOp list \<Rightarrow> bool" where
  "small_ops ops \<longleftrightarrow> count_before consumes_old ops (length ops) < 2 ^ 64
     \<and> count_before consumes_new ops (length ops) < 2 ^ 64"

lemma small_opsD:
  assumes "small_ops ops" "k \<le> length ops"
  shows "count_before consumes_old ops k < 2 ^ 64" "count_before consumes_new ops k < 2 ^ 64"
  using assms count_before_mono [OF assms(2), of consumes_old ops] count_before_mono [OF assms(2), of consumes_new ops]
  by (auto simp: small_ops_def)

lemma apply_shown_hunk:
  assumes ok: "fits (new_lines ops)" "small_ops ops"
    and range: "p \<le> start" "all_equal ops p start" "start \<le> stop" "stop \<le> length ops"
    and h: "start = context_start ops 0 f" "stop = context_end ops 0 (l + 1)"
    and at: "at_op ops p st"
  shows "\<exists>st'. apply_hunk (\<lambda>_. False) (old_lines ops) st (shown_hunk ops (f, l)) = Inr st' \<and> at_op ops stop st'"
proof -
  let ?old = "count_before consumes_old ops" and ?new = "count_before consumes_new ops"
  let ?st = "st\<lparr>ps_polls := Suc (ps_polls st)\<rparr>"
  have len: "start \<le> length ops" using range by simp
  note small = small_opsD [OF ok(2) range(4)]
  note old_range = shown_range_index [OF range(3) small(1)]
  note new_range = shown_range_index [OF range(3) small(2)]
  have total: "?new (length ops) < 2 ^ 64" using ok(2) by (simp add: small_ops_def)
  have "\<exists>s1. run (copy_line (\<lambda>_. False)) ?st (map op_text (between p start ops)) = Inr s1
      \<and> at_op ops start (s1\<lparr>ps_old := ?old start\<rparr>)"
  proof (rule run_between [where here = "\<lambda>i s. at_op ops i (s\<lparr>ps_old := ?old i\<rparr>)", OF _ le_refl range(1) len])
    show "at_op ops p (?st\<lparr>ps_old := ?old p\<rparr>)" using at by (simp add: at_op_def)
  next
    fix i s
    assume i: "p \<le> i" "i < start" "at_op ops i (s\<lparr>ps_old := ?old i\<rparr>)"
    then have "is_equal (ops ! i)" using range(2) by (simp add: all_equal_def)
    from copy_line_at_op [OF _ this ok(1) i(3) total] i(2) len
    show "\<exists>s'. copy_line (\<lambda>_. False) s (op_text (ops ! i)) = Inr s' \<and> at_op ops (Suc i) (s'\<lparr>ps_old := ?old (Suc i)\<rparr>)"
      by auto
  qed
  then obtain s1 where s1: "run (copy_line (\<lambda>_. False)) ?st (map op_text (between p start ops)) = Inr s1"
    "at_op ops start (s1\<lparr>ps_old := ?old start\<rparr>)" by blast
  have "\<exists>s2. run (apply_line (\<lambda>_. False) (old_lines ops)) (s1\<lparr>ps_old := ?old start\<rparr>)
      (map shown_line (between start stop ops)) = Inr s2 \<and> at_op ops stop s2"
  proof (rule run_between [where here = "at_op ops", OF _ le_refl range(3,4) s1(2)])
    fix i s
    assume "start \<le> i" "i < stop" "at_op ops i s"
    with range(4) show "\<exists>s'. apply_line (\<lambda>_. False) (old_lines ops) s (shown_line (ops ! i)) = Inr s' \<and> at_op ops (Suc i) s'"
      by (intro apply_line_at_op ok(1)) simp_all
  qed
  then obtain s2 where s2: "run (apply_line (\<lambda>_. False) (old_lines ops)) (s1\<lparr>ps_old := ?old start\<rparr>)
      (map shown_line (between start stop ops)) = Inr s2" "at_op ops stop s2" by blast
  have le: "?old p \<le> ?old start" "?old start \<le> ?old stop" "?old start \<le> length (old_lines ops)"
    using range len by (simp_all add: count_before_mono length_old_lines)
  have lines: "between (ps_old ?st) (?old start) (old_lines ops) = map op_text (between p start ops)"
    using old_lines_between [OF range(2,1) len] at by (simp add: at_op_def)
  have hunk: "shown_hunk ops (f, l) = \<lparr>hunk_old = shown_range consumes_old ops start stop,
      hunk_new = shown_range consumes_new ops start stop, hunk_lines = map shown_line (between start stop ops)\<rparr>"
    by (simp only: shown_hunk_def Let_def prod.case h)
  have "ps_new s1 = ?new start" "ps_old s2 = ?old stop" "ps_old st = ?old p"
    using s1(2) s2(2) at by (simp_all add: at_op_def)
  then show ?thesis
    using s1(1) s2 le small lines old_range new_range
    by (simp add: apply_hunk_def poll_def hunk)
qed

lemma apply_shown_hunks:
  assumes ok: "fits (new_lines ops)" "small_ops ops"
  shows "clustered ops m p cs \<Longrightarrow> p \<le> q \<Longrightarrow> q \<le> length ops \<Longrightarrow> at_op ops q st
    \<Longrightarrow> (cs \<noteq> [] \<longrightarrow> q \<le> context_start ops 0 (fst (hd cs)))
    \<Longrightarrow> \<exists>st' q'. run (apply_hunk (\<lambda>_. False) (old_lines ops)) st (map (shown_hunk ops) cs) = Inr st'
      \<and> at_op ops q' st' \<and> after p cs \<le> q' \<and> q' \<le> length ops"
proof (induction cs arbitrary: m p q st)
  case Nil
  then show ?case by auto
next
  case (Cons c cs)
  obtain f l where c: "c = (f, l)" by (cases c)
  let ?start = "context_start ops 0 f" and ?stop = "context_end ops 0 (l + 1)"
  from Cons.prems(1) c have fl: "p + m \<le> f" "f \<le> l" "l < length ops" "all_equal ops p f" "clustered ops 7 (Suc l) cs"
    by simp_all
  have start: "q \<le> ?start" using Cons.prems(5) c by simp
  have stop: "Suc l \<le> ?stop" "?stop \<le> length ops"
    using context_end_ge [of "l + 1" ops 0] context_end_bound [of "l + 1" ops 0] fl(3) by simp_all
  have "all_equal ops q ?start"
    by (rule all_equal_sub [OF fl(4) Cons.prems(2) context_start_le])
  moreover have "?start \<le> ?stop" using context_start_le [of ops 0 f] fl(2) stop(1) by simp
  ultimately obtain s1 where s1: "apply_hunk (\<lambda>_. False) (old_lines ops) st (shown_hunk ops (f, l)) = Inr s1"
      "at_op ops ?stop s1"
    using apply_shown_hunk [OF ok start _ _ stop(2) refl refl Cons.prems(4)] by blast
  have "cs \<noteq> [] \<longrightarrow> ?stop \<le> context_start ops 0 (fst (hd cs))"
  proof
    assume "cs \<noteq> []"
    then obtain f' l' cs' where cs: "cs = (f', l') # cs'" by (cases cs) auto
    with fl(5) have gap: "Suc l + 7 \<le> f'" "all_equal ops (Suc l) f'" by simp_all
    from context_end_le [OF gap(2), of 0] context_start_ge [OF gap(2), of 0] gap(1)
    show "?stop \<le> context_start ops 0 (fst (hd cs))" by (simp add: cs)
  qed
  from Cons.IH [OF fl(5) stop(1,2) s1(2) this] s1(1) c show ?case by auto
qed

lemma copy_rest:
  assumes ok: "fits (new_lines ops)" and q: "q \<le> length ops" "all_equal ops q (length ops)" "at_op ops q st"
  shows "\<exists>st'. run (copy_rest_line (\<lambda>_. False)) st (drop (ps_old st) (old_lines ops)) = Inr st'
    \<and> ps_output st' = concat (new_lines ops)"
proof -
  have step: "\<exists>s'. copy_rest_line (\<lambda>_. False) s (op_text (ops ! i)) = Inr s' \<and> holds_lines (new_lines (take (Suc i) ops)) s'"
    if i: "q \<le> i" "i < length ops" "holds_lines (new_lines (take i ops)) s" for i s
  proof -
    have "is_equal (ops ! i)" using q(2) i by (simp add: all_equal_def)
    moreover have "holds_lines (new_lines (take i ops)) (s\<lparr>ps_polls := Suc (ps_polls s)\<rparr>)" using i(3) by simp
    ultimately show ?thesis
      using push_at_op [OF i(2) _ ok, of "s\<lparr>ps_polls := Suc (ps_polls s)\<rparr>"]
      by (auto simp: copy_rest_line_def poll_def dest!: equal_op)
  qed
  have "holds_lines (new_lines (take q ops)) st" using q(3) by (simp add: at_op_def)
  from run_between [where f = "copy_rest_line (\<lambda>_. False)" and here = "\<lambda>i. holds_lines (new_lines (take i ops))",
      OF step le_refl q(1) le_refl this]
  obtain st' where st': "run (copy_rest_line (\<lambda>_. False)) st (map op_text (between q (length ops) ops)) = Inr st'"
    "holds_lines (new_lines ops) st'" by auto
  have "drop (ps_old st) (old_lines ops) = map op_text (between q (length ops) ops)"
    using old_lines_between [OF q(2,1) le_refl] q(3) by (simp add: at_op_def between_def length_old_lines [symmetric])
  with st' show ?thesis by (auto simp: holds_lines_def)
qed

lemma apply_shown_patch:
  assumes ok: "fits (new_lines ops)" "small_ops ops" and old: "old_lines ops = split_lines before"
  shows "apply_strict (\<lambda>_. False) before (map (shown_hunk ops) (clusters_of ops)) = Inr (concat (new_lines ops))"
proof -
  have "at_op ops 0 patch_start"
    by (simp add: at_op_def patch_start_def holds_lines_def count_before_def)
  from apply_shown_hunks [OF ok clusters_of_clustered(1) _ _ this]
  obtain st q where st: "run (apply_hunk (\<lambda>_. False) (old_lines ops)) patch_start
      (map (shown_hunk ops) (clusters_of ops)) = Inr st" "at_op ops q st"
      "after 0 (clusters_of ops) \<le> q" "q \<le> length ops" by auto
  have "all_equal ops q (length ops)"
    using clusters_of_clustered(2) st(3) by (rule all_equal_sub) simp
  from copy_rest [OF ok(1) st(4) this st(2)] st(1) show ?thesis
    by (auto simp: apply_strict_def old [symmetric])
qed

section \<open>The text of a patch\<close>

text \<open>The unified format, as a specification of what the diff says.\<close>

definition range_text :: "HunkRange \<Rightarrow> string" where
  "range_text r = (if range_len r = 1 then show_nat (unat (range_start r))
     else show_nat (unat (range_start r)) @ '','' @ show_nat (unat (range_len r)))"

definition end_of_line :: "string \<Rightarrow> string" where
  "end_of_line v = (if ends_line v then [] else [NL] @ NO_NEWLINE_MARKER)"

fun line_text :: "PatchLine \<Rightarrow> string" where
  "line_text (LineContext v) = (if v = [NL] then [] else '' '') @ v @ end_of_line v"
| "line_text (LineDelete v) = ''-'' @ v @ end_of_line v"
| "line_text (LineInsert v) = ''+'' @ v @ end_of_line v"

definition hunk_text :: "Hunk \<Rightarrow> string" where
  "hunk_text h = ''@@ -'' @ range_text (hunk_old h) @ '' +'' @ range_text (hunk_new h) @ '' @@'' @ [NL]
     @ concat (map line_text (hunk_lines h))"

definition patch_text :: "MutationOperation \<Rightarrow> string \<Rightarrow> Hunk list \<Rightarrow> string" where
  "patch_text operation path hunks = original_header operation path @ modified_header path @ concat (map hunk_text hunks)"

fun is_insert :: "PatchLine \<Rightarrow> bool" where
  "is_insert (LineInsert _) = True" | "is_insert _ = False"

fun is_delete :: "PatchLine \<Rightarrow> bool" where
  "is_delete (LineDelete _) = True" | "is_delete _ = False"

definition patch_insertions :: "Hunk list \<Rightarrow> nat" where
  "patch_insertions hunks = length (filter is_insert (concat (map hunk_lines hunks)))"

definition patch_deletions :: "Hunk list \<Rightarrow> nat" where
  "patch_deletions hunks = length (filter is_delete (concat (map hunk_lines hunks)))"

lemma push_diff_row_Inr:
  "push_diff_row k v st = Inr st' \<longleftrightarrow> ends_line v \<and> NL \<notin> set (butlast v)
     \<and> length (do_text st) + length v \<le> MAX_APPROVAL_PREVIEW_BYTES
     \<and> st' = st\<lparr>do_text := do_text st @ v, do_rows := do_rows st @ [k]\<rparr>"
  by (auto simp: push_diff_row_def push_diff_output_def and_then_Inr diff_too_large_def)

lemma push_diff_rowD:
  assumes "push_diff_row k v st = Inr st'"
  shows "do_text st' = do_text st @ v" "do_additions st' = do_additions st" "do_removals st' = do_removals st"
  using assms by (simp_all add: push_diff_row_Inr)

lemma count_op_Inr:
  assumes "count_op a st = Inr st'"
  shows "st' = st\<lparr>do_additions := do_additions st + (if is_insert (shown_line a) then 1 else 0),
    do_removals := do_removals st + (if is_delete (shown_line a) then 1 else 0)\<rparr>"
  using assms by (cases a) (auto simp: count_op_def split: if_splits)

lemma diff_op_Inr:
  assumes "diff_op c st a = Inr st'"
  shows "do_text st' = do_text st @ line_text (shown_line a)"
    "do_additions st' = do_additions st + (if is_insert (shown_line a) then 1 else 0)"
    "do_removals st' = do_removals st + (if is_delete (shown_line a) then 1 else 0)"
proof -
  from assms obtain s1 where s1: "count_op a (st\<lparr>do_polls := Suc (do_polls st)\<rparr>) = Inr s1"
    and st': "if ends_line (op_text a) then st' = s1\<lparr>do_text := do_text s1 @ render_op a, do_rows := do_rows s1 @ [row_kind a]\<rparr>
      else st' = s1\<lparr>do_text := (do_text s1 @ render_op a) @ NO_NEWLINE_MARKER,
        do_rows := (do_rows s1 @ [row_kind a]) @ [RowNoNewline]\<rparr>"
    by (auto simp: diff_op_def tool_aborted_def and_then_Inr push_diff_row_Inr op_text_def split: if_splits)
  have "render_op a @ (if ends_line (op_text a) then [] else NO_NEWLINE_MARKER) = line_text (shown_line a)"
    by (cases a) (auto simp: render_op_def end_of_line_def)
  with st' count_op_Inr [OF s1]
  show "do_text st' = do_text st @ line_text (shown_line a)"
    "do_additions st' = do_additions st + (if is_insert (shown_line a) then 1 else 0)"
    "do_removals st' = do_removals st + (if is_delete (shown_line a) then 1 else 0)"
    by (simp_all split: if_splits)
qed

lemma run_diff_op:
  "run (diff_op c) st ops = Inr st' \<Longrightarrow>
     do_text st' = do_text st @ concat (map line_text (map shown_line ops))
     \<and> do_additions st' = do_additions st + length (filter is_insert (map shown_line ops))
     \<and> do_removals st' = do_removals st + length (filter is_delete (map shown_line ops))"
proof (induction ops arbitrary: st)
  case Nil
  then show ?case by simp
next
  case (Cons a ops)
  from Cons.prems obtain s where s: "diff_op c st a = Inr s" "run (diff_op c) s ops = Inr st'"
    by (auto simp: and_then_Inr)
  from Cons.IH [OF s(2)] diff_op_Inr [OF s(1)] show ?case by simp
qed

lemma format_range_text:
  assumes "start \<le> stop" "count_before consumes ops stop < 2 ^ 64"
  shows "format_hunk_range (count_before consumes ops start) (count_before consumes ops stop - count_before consumes ops start)
    = range_text (shown_range consumes ops start stop)"
proof -
  let ?n = "count_before consumes ops start" and ?len = "count_before consumes ops stop - count_before consumes ops start"
  have "?n \<le> count_before consumes ops stop" using assms(1) by (rule count_before_mono)
  with assms(2) have small: "(if ?len = 0 then ?n else ?n + 1) < 2 ^ 64" "?len < 2 ^ 64" by auto
  have "(of_nat ?len :: usize) = 1 \<longleftrightarrow> ?len = 1"
    using of_nat_usize [OF small(2)] by (simp add: word_unat_eq_iff [of _ 1])
  with small show ?thesis
    using of_nat_usize [OF small(1)] of_nat_usize [OF small(2)]
    by (simp add: format_hunk_range_def range_text_def shown_range_def Let_def)
qed

lemma diff_cluster_text:
  assumes "diff_cluster c ops old_prefix new_prefix st (f, l) = Inr st'" "f \<le> l" "l < length ops"
    and prefix: "prefix_counts consumes_old mo ops = Inr old_prefix" "prefix_counts consumes_new mn ops = Inr new_prefix"
  shows "do_text st' = do_text st @ hunk_text (shown_hunk ops (f, l))
    \<and> do_additions st' = do_additions st + length (filter is_insert (hunk_lines (shown_hunk ops (f, l))))
    \<and> do_removals st' = do_removals st + length (filter is_delete (hunk_lines (shown_hunk ops (f, l))))"
proof -
  let ?start = "context_start ops 0 f" and ?stop = "context_end ops 0 (l + 1)"
  have stop: "?start \<le> ?stop" "?stop \<le> length ops" "?start \<le> length ops"
    using context_start_le [of ops 0 f] context_end_ge [of "l + 1" ops 0] context_end_bound [of "l + 1" ops 0] assms(2,3)
    by simp_all
  let ?range = "\<lambda>consumes. range_text (shown_range consumes ops ?start ?stop)"
  let ?header = "''@@ -'' @ ?range consumes_old @ '' +'' @ ?range consumes_new @ '' @@'' @ [NL]"
  note counts = prefix_counts_Inr [OF prefix(1) stop(2)] prefix_counts_Inr [OF prefix(2) stop(2)]
    prefix_counts_Inr(1) [OF prefix(1) stop(3)] prefix_counts_Inr(1) [OF prefix(2) stop(3)]
  have "and_then (push_diff_row RowHunk ?header st) (\<lambda>st. run (diff_op c) st (between ?start ?stop ops)) = Inr st'"
    using assms(1) by (simp only: diff_cluster_def Let_def prod.case counts format_range_text [OF stop(1)])
  then obtain s1 where s1: "push_diff_row RowHunk ?header st = Inr s1"
      "run (diff_op c) s1 (between ?start ?stop ops) = Inr st'"
    unfolding and_then_Inr by blast
  from push_diff_rowD [OF s1(1)] run_diff_op [OF s1(2)] show ?thesis
    by (simp only: hunk_text_def shown_hunk_def Let_def prod.case Hunk.simps append_assoc simp_thms)
qed

lemma run_diff_cluster_text:
  assumes prefix: "prefix_counts consumes_old mo ops = Inr old_prefix" "prefix_counts consumes_new mn ops = Inr new_prefix"
  shows "clustered ops m p cs \<Longrightarrow> run (diff_cluster c ops old_prefix new_prefix) st cs = Inr st' \<Longrightarrow>
    do_text st' = do_text st @ concat (map hunk_text (map (shown_hunk ops) cs))
    \<and> do_additions st' = do_additions st + patch_insertions (map (shown_hunk ops) cs)
    \<and> do_removals st' = do_removals st + patch_deletions (map (shown_hunk ops) cs)"
proof (induction cs arbitrary: m p st)
  case Nil
  then show ?case by (simp add: patch_insertions_def patch_deletions_def)
next
  case (Cons x cs)
  obtain f l where x: "x = (f, l)" by (cases x)
  from Cons.prems(2) obtain s where s: "diff_cluster c ops old_prefix new_prefix st x = Inr s"
    "run (diff_cluster c ops old_prefix new_prefix) s cs = Inr st'" by (auto simp: and_then_Inr)
  from Cons.prems(1) x have "f \<le> l" "l < length ops" and cs: "clustered ops 7 (Suc l) cs" by simp_all
  from diff_cluster_text [OF s(1) [unfolded x] this(1,2) prefix] Cons.IH [OF cs s(2)] show ?case
    by (simp add: x patch_insertions_def patch_deletions_def)
qed

text \<open>What the diff is made of.\<close>

lemma canonical_diff_parts:
  assumes "canonical_diff c path operation before hunks = Inr d"
  obtains ds old_prefix new_prefix st where "diff_operations c before hunks = Inr ds"
    "reject_redundant_edits (ds_ops ds) = Inr ()" "clusters_of (ds_ops ds) \<noteq> []"
    "prefix_counts consumes_old ''old line count overflow'' (ds_ops ds) = Inr old_prefix"
    "prefix_counts consumes_new ''new line count overflow'' (ds_ops ds) = Inr new_prefix"
    "ends_line (original_header operation path)" "ends_line (modified_header path)"
    "NL \<notin> set (butlast (original_header operation path))" "NL \<notin> set (butlast (modified_header path))"
    "run (diff_cluster c (ds_ops ds) old_prefix new_prefix)
       \<lparr>do_text = original_header operation path @ modified_header path, do_rows = [RowFileHeader, RowFileHeader],
        do_additions = 0, do_removals = 0, do_polls = ds_polls ds\<rparr> (clusters_of (ds_ops ds)) = Inr st"
    "length (original_header operation path @ modified_header path) \<le> MAX_APPROVAL_PREVIEW_BYTES"
    "diff_text d = do_text st" "diff_rows d = do_rows st" "diff_additions d = do_additions st"
    "diff_removals d = do_removals st" "diff_hunks d = length (clusters_of (ds_ops ds))"
proof -
  from assms obtain ds where ds: "diff_operations c before hunks = Inr ds"
    unfolding canonical_diff_def and_then_Inr by blast
  with assms show thesis
    by (auto simp: canonical_diff_def Let_def and_then_Inr push_diff_row_Inr split: if_splits intro!: that [of ds])
qed

lemma canonical_diffD:
  assumes "canonical_diff c path operation before hunks = Inr d"
  obtains ds where "diff_operations c before hunks = Inr ds" "small_ops (ds_ops ds)"
    "diff_hunks d = length (clusters_of (ds_ops ds))"
    "diff_text d = patch_text operation path (map (shown_hunk (ds_ops ds)) (clusters_of (ds_ops ds)))"
    "diff_additions d = patch_insertions (map (shown_hunk (ds_ops ds)) (clusters_of (ds_ops ds)))"
    "diff_removals d = patch_deletions (map (shown_hunk (ds_ops ds)) (clusters_of (ds_ops ds)))"
  using assms
proof (rule canonical_diff_parts)
  fix ds old_prefix new_prefix st
  assume ds: "diff_operations c before hunks = Inr ds"
    and prefix: "prefix_counts consumes_old ''old line count overflow'' (ds_ops ds) = Inr old_prefix"
      "prefix_counts consumes_new ''new line count overflow'' (ds_ops ds) = Inr new_prefix"
    and st: "run (diff_cluster c (ds_ops ds) old_prefix new_prefix)
       \<lparr>do_text = original_header operation path @ modified_header path, do_rows = [RowFileHeader, RowFileHeader],
        do_additions = 0, do_removals = 0, do_polls = ds_polls ds\<rparr> (clusters_of (ds_ops ds)) = Inr st"
    and d: "diff_text d = do_text st" "diff_additions d = do_additions st" "diff_removals d = do_removals st"
      "diff_hunks d = length (clusters_of (ds_ops ds))"
  from prefix_counts_Inr(2) [OF prefix(1) le_refl] prefix_counts_Inr(2) [OF prefix(2) le_refl]
  have "small_ops (ds_ops ds)" by (simp add: small_ops_def)
  with run_diff_cluster_text [OF prefix clusters_of_clustered(1) st] d ds show thesis
    by (intro that [of ds]) (simp_all add: patch_text_def)
qed

section \<open>The diff and the change\<close>

text \<open>The diff is the text of a patch whose application to the file gives exactly the candidate.\<close>

lemma approved_diff_is_the_change:
  assumes "apply_strict cancelled before hunks = Ok candidate"
    and "canonical_diff cancelled' path operation before hunks = Ok d"
  shows "\<exists>shown. diff_text d = patch_text operation path shown \<and> diff_hunks d = length shown
    \<and> diff_additions d = patch_insertions shown \<and> diff_removals d = patch_deletions shown
    \<and> apply_strict (\<lambda>_. False) before shown = Ok candidate"
proof -
  from assms(2) obtain ds where ds: "diff_operations cancelled' before hunks = Inr ds" "small_ops (ds_ops ds)"
    and d: "diff_hunks d = length (clusters_of (ds_ops ds))"
      "diff_text d = patch_text operation path (map (shown_hunk (ds_ops ds)) (clusters_of (ds_ops ds)))"
      "diff_additions d = patch_insertions (map (shown_hunk (ds_ops ds)) (clusters_of (ds_ops ds)))"
      "diff_removals d = patch_deletions (map (shown_hunk (ds_ops ds)) (clusters_of (ds_ops ds)))"
    by (rule canonical_diffD)
  note same = same_change [OF assms(1) ds(1)]
  from apply_shown_patch [OF same(3) ds(2) same(1)] same(2) d show ?thesis by auto
qed

definition sample_lines :: "string list \<Rightarrow> string" where
  "sample_lines ls = concat (map (\<lambda>l. l @ [NL]) ls)"

text \<open>A file of two lines and a patch of two hunks for it, which the diff shows as one.\<close>

definition sample_before :: string where
  "sample_before = sample_lines [''a'', ''b'']"

definition sample_hunks :: "Hunk list" where
  "sample_hunks =
     [\<lparr>hunk_old = \<lparr>range_start = 1, range_len = 1\<rparr>, hunk_new = \<lparr>range_start = 1, range_len = 1\<rparr>,
       hunk_lines = [LineDelete (''a'' @ [NL]), LineInsert (''x'' @ [NL])]\<rparr>,
      \<lparr>hunk_old = \<lparr>range_start = 2, range_len = 0\<rparr>, hunk_new = \<lparr>range_start = 3, range_len = 1\<rparr>,
       hunk_lines = [LineInsert ''c'']\<rparr>]"

definition sample_diff :: CanonicalDiff where
  "sample_diff = \<lparr>diff_text = sample_lines [''--- a/f'', ''+++ b/f'', ''@@ -1,2 +1,3 @@'', ''-a'', ''+x'', '' b'', ''+c'']
      @ NO_NEWLINE_MARKER,
    diff_rows = [RowFileHeader, RowFileHeader, RowHunk, RowRemoval, RowAddition, RowContext, RowAddition, RowNoNewline],
    diff_additions = 2, diff_removals = 1, diff_hunks = 1\<rparr>"

lemmas apply_eval = sample_before_def sample_hunks_def sample_lines_def Let_def line_is_def between_def
  apply_strict_def apply_hunk_def apply_line_def copy_line_def copy_rest_line_def poll_def patch_start_def
  range_index_def push_candidate_def next_new_def ends_line_def checked_sub_def
  MAX_MUTATION_FILE_LINE_BYTES_def MAX_MUTATION_FILE_BYTES_def

lemmas diff_eval = diff_operations_def diff_hunk_def diff_line_def diff_rest_line_def diff_poll_def diff_start_def
  push_op_def next_old_def reject_redundant_edits_def redundant_step_def clusters_of_def cluster_step_def
  prefix_counts_def prefix_step_def diff_cluster_def diff_op_def count_op_def render_op_def push_diff_row_def
  push_diff_output_def format_hunk_range_def original_header_def modified_header_def NO_NEWLINE_MARKER_def
  MAX_APPROVAL_PREVIEW_BYTES_def saturating_add_def checked_add_def

lemma sample_applies: "apply_strict (\<lambda>_. False) sample_before sample_hunks = Ok (sample_lines [''x'', ''b''] @ ''c'')"
  by (simp add: apply_eval)

definition sample_ops :: "CanonicalOp list" where
  "sample_ops = [OpDelete (''a'' @ [NL]), OpInsert (''x'' @ [NL]), OpEqual (''b'' @ [NL]), OpInsert ''c'']"

lemma sample_operations: "diff_operations (\<lambda>_. False) sample_before sample_hunks
   = Ok \<lparr>ds_ops = sample_ops, ds_old = 2, ds_polls = 5\<rparr>"
  by (simp add: apply_eval diff_eval sample_ops_def)

lemma sample_parts:
  "reject_redundant_edits sample_ops = Ok ()" "clusters_of sample_ops = [(0, 3)]"
  "prefix_counts consumes_old m sample_ops = Ok [0, 1, 1, 2, 2]"
  "prefix_counts consumes_new m sample_ops = Ok [0, 0, 1, 2, 3]"
  "context_start sample_ops 0 0 = 0" "context_end sample_ops 0 4 = 4" "between 0 4 sample_ops = sample_ops"
  by (simp_all add: diff_eval sample_ops_def Let_def between_def context_start.simps [of _ _ 0]
    context_end.simps [of _ _ 4])

lemma show_small: "show_nat (Suc 0) = ''1''" "show_nat 2 = ''2''" "show_nat 3 = ''3''"
  by (simp_all add: show_nat.simps char_of_def bit_0)

lemma sample_row_ops:
  "run (diff_op (\<lambda>_. False)) st sample_ops = Ok st'"
  if "st = \<lparr>do_text = t, do_rows = rs, do_additions = 0, do_removals = 0, do_polls = 5\<rparr>"
    "st' = \<lparr>do_text = t @ sample_lines [''-a'', ''+x'', '' b'', ''+c''] @ NO_NEWLINE_MARKER,
      do_rows = rs @ [RowRemoval, RowAddition, RowContext, RowAddition, RowNoNewline],
      do_additions = 2, do_removals = 1, do_polls = 9\<rparr>" "length t < 1000"
  using that by (simp add: diff_eval sample_ops_def sample_lines_def ends_line_def Let_def)

lemma sample_cluster:
  "diff_cluster (\<lambda>_. False) sample_ops [0, 1, 1, 2, 2] [0, 0, 1, 2, 3]
     \<lparr>do_text = sample_lines [''--- a/f'', ''+++ b/f''], do_rows = [RowFileHeader, RowFileHeader],
      do_additions = 0, do_removals = 0, do_polls = 5\<rparr> (0, 3)
   = Ok \<lparr>do_text = diff_text sample_diff, do_rows = diff_rows sample_diff, do_additions = 2, do_removals = 1, do_polls = 9\<rparr>"
  by (simp add: diff_cluster_def Let_def sample_parts format_hunk_range_def show_small push_diff_row_def
    push_diff_output_def ends_line_def MAX_APPROVAL_PREVIEW_BYTES_def)
    (subst sample_row_ops [OF refl refl], simp_all add: sample_lines_def sample_diff_def)

lemma sample_diff_shown: "canonical_diff (\<lambda>_. False) ''f'' MutationUpdate sample_before sample_hunks = Ok sample_diff"
  using sample_cluster
  by (simp add: canonical_diff_def sample_operations sample_parts original_header_def modified_header_def sample_lines_def
    push_diff_row_def push_diff_output_def ends_line_def MAX_APPROVAL_PREVIEW_BYTES_def) (simp add: sample_diff_def)

end
