(* ===== verification/File_Prompt.thy ===== *)
theory File_Prompt
  imports File_Diff_Correct
begin

text \<open>
  The approval prompt built from a canonical diff: the checks of \<open>ApprovalPrompt::canonical_patch\<close>
  (\<open>src/agent/approval.rs\<close>) never fail on a diff that \<open>canonical_diff\<close> produced for a path of a
  header.
\<close>

section \<open>Control characters\<close>

lemma has_control_prefix: "has_control a \<Longrightarrow> has_control (a @ b)"
proof (induction a)
  case (Cons c a)
  then show ?case by (cases a) auto
qed simp

lemma has_control_suffix: "has_control b \<Longrightarrow> has_control (a @ b)"
  by (induction a) simp_all

lemma unsafe_is_control: "has_unsafe_control s \<Longrightarrow> has_control s"
proof -
  assume "has_unsafe_control s"
  then obtain c where c: "c \<in> set (utf8_chars s)" "has_control c" by (auto simp: has_unsafe_control_def list_ex_iff)
  from split_list [OF c(1)] obtain xs ys where "utf8_chars s = xs @ c # ys" by blast
  then have "s = concat xs @ c @ concat ys" using concat_utf8_chars [of s] by simp
  with c(2) show "has_control s" by (simp add: has_control_prefix has_control_suffix)
qed

lemma has_control_snoc_quote: "has_control (p @ ''`'') \<longleftrightarrow> has_control p"
proof (induction p)
  case (Cons c p)
  then show ?case by (cases p) auto
qed simp

lemma reason_safe:
  assumes "\<not> has_control path" "approval_reason operation path = Some r"
  shows "length r \<le> MAX_APPROVAL_REASON_BYTES" "\<not> has_unsafe_control r"
proof -
  from assms(2) show "length r \<le> MAX_APPROVAL_REASON_BYTES"
    by (auto simp: approval_reason_def Let_def split: if_splits)
  from assms(2) have r: "r = ((case operation of MutationCreate \<Rightarrow> ''Create'' | MutationUpdate \<Rightarrow> ''Update'')
      @ '' workspace file `'') @ path @ ''`''"
    by (auto simp: approval_reason_def Let_def split: if_splits)
  have "\<not> has_control r"
    unfolding r by (cases operation) (simp_all add: has_control_append has_control_snoc_quote assms(1))
  then show "\<not> has_unsafe_control r" using unsafe_is_control by blast
qed

section \<open>Rows\<close>

lemma split_lines_line: "NL \<notin> set v \<Longrightarrow> split_lines (v @ NL # s) = (v @ [NL]) # split_lines s"
  by (induction v) auto

text \<open>One line: it ends with its only line feed.\<close>

lemma line_shape:
  assumes "ends_line v" "NL \<notin> set (butlast v)"
  obtains u where "v = u @ [NL]" "NL \<notin> set u"
  using assms by (metis append_butlast_last_id ends_line_def)

lemma line_feeds: "ends_line v \<Longrightarrow> NL \<notin> set (butlast v) \<Longrightarrow> length (filter (\<lambda>c. c = NL) v) = 1"
  by (erule (1) line_shape) (auto simp: filter_empty_conv)

text \<open>The output after the two headers \<open>hs\<close> and \<open>n\<close> hunks.\<close>

definition rows_ok :: "string \<Rightarrow> nat \<Rightarrow> DiffOutput \<Rightarrow> bool" where
  "rows_ok hs n st \<longleftrightarrow> (\<exists>t rs. do_text st = hs @ t \<and> do_rows st = [RowFileHeader, RowFileHeader] @ rs
     \<and> RowFileHeader \<notin> set rs)
   \<and> ends_line (do_text st) \<and> length (do_text st) \<le> MAX_APPROVAL_PREVIEW_BYTES
   \<and> length (filter (\<lambda>c. c = NL) (do_text st)) = length (do_rows st)
   \<and> do_additions st = length (filter (\<lambda>r. r = RowAddition) (do_rows st))
   \<and> do_removals st = length (filter (\<lambda>r. r = RowRemoval) (do_rows st))
   \<and> n = length (filter (\<lambda>r. r = RowHunk) (do_rows st))"

lemma rows_ok_push:
  assumes "push_diff_row k v st = Inr st'" "k \<noteq> RowFileHeader"
    "rows_ok hs n (st\<lparr>do_additions := a, do_removals := r\<rparr>)"
    "do_additions st' = a + (if k = RowAddition then 1 else 0)"
    "do_removals st' = r + (if k = RowRemoval then 1 else 0)"
  shows "rows_ok hs (n + (if k = RowHunk then 1 else 0)) st'"
  using assms line_feeds [of v]
  by (auto simp: push_diff_row_Inr rows_ok_def ends_line_def split: if_splits)

lemma rows_ok_op:
  assumes "diff_op c st a = Inr st'" "rows_ok hs n st"
  shows "rows_ok hs n st'"
proof -
  from assms(1) obtain s1 s2 where s1: "count_op a (st\<lparr>do_polls := Suc (do_polls st)\<rparr>) = Inr s1"
    and s2: "push_diff_row (row_kind a) (render_op a) s1 = Inr s2"
    and st': "st' = s2 \<or> push_diff_row RowNoNewline NO_NEWLINE_MARKER s2 = Inr st'"
    by (auto simp: diff_op_def tool_aborted_def and_then_Inr split: if_splits)
  note c = count_op_Inr [OF s1]
  have "rows_ok hs n (s1\<lparr>do_additions := do_additions st, do_removals := do_removals st\<rparr>)"
    using assms(2) c by (simp add: rows_ok_def)
  from rows_ok_push [OF s2 _ this] c s2 have ok: "rows_ok hs n s2"
    by (cases a) (auto simp: push_diff_row_Inr)
  from st' show ?thesis
  proof
    assume push: "push_diff_row RowNoNewline NO_NEWLINE_MARKER s2 = Inr st'"
    have "rows_ok hs n (s2\<lparr>do_additions := do_additions s2, do_removals := do_removals s2\<rparr>)" using ok by simp
    from rows_ok_push [OF push _ this] push show ?thesis by (auto simp: push_diff_row_Inr)
  qed (use ok in simp)
qed

interpretation printing: keeps "diff_op c" "rows_ok hs n"
  by unfold_locales (rule rows_ok_op)

lemma rows_ok_cluster:
  assumes "diff_cluster c ops old_prefix new_prefix st x = Inr st'" "rows_ok hs n st"
  shows "rows_ok hs (Suc n) st'"
proof -
  from assms(1) obtain v s xs where s: "push_diff_row RowHunk v st = Inr s" "run (diff_op c) s xs = Inr st'"
    unfolding diff_cluster_def Let_def case_prod_beta and_then_Inr by blast
  have "rows_ok hs n (st\<lparr>do_additions := do_additions st, do_removals := do_removals st\<rparr>)" using assms(2) by simp
  from rows_ok_push [OF s(1) _ this] s(1) have "rows_ok hs (Suc n) s" by (auto simp: push_diff_row_Inr)
  from printing.run_keeps [OF this s(2)] show ?thesis .
qed

lemma rows_ok_clusters:
  "run (diff_cluster c ops old_prefix new_prefix) st cs = Inr st' \<Longrightarrow> rows_ok hs n st \<Longrightarrow> rows_ok hs (n + length cs) st'"
proof (induction cs arbitrary: n st)
  case Nil
  then show ?case by simp
next
  case (Cons x cs)
  then obtain s where s: "diff_cluster c ops old_prefix new_prefix st x = Inr s"
    "run (diff_cluster c ops old_prefix new_prefix) s cs = Inr st'" by (auto simp: and_then_Inr)
  from Cons.IH [OF s(2) rows_ok_cluster [OF s(1) Cons.prems(2)]] show ?case by simp
qed

section \<open>The prompt\<close>

lemma strip_suffix_append [simp]: "strip_suffix s (p @ s) = Some p"
  by (simp add: strip_suffix_def)

lemma headers_of_diff:
  assumes "NL \<notin> set path"
  shows "headers_match (case operation of MutationCreate \<Rightarrow> PatchCreate | MutationUpdate \<Rightarrow> PatchUpdate) path
    (split_lines (original_header operation path @ modified_header path @ t))"
proof -
  have m: "split_lines (modified_header path @ t) = modified_header path # split_lines t"
    using split_lines_line [of "''+++ b/'' @ path" t] assms by (simp add: modified_header_def)
  have mh: "Option.bind (strip_prefix ''+++ b/'' (modified_header path)) (strip_suffix [NL]) = Some path"
    by (simp only: modified_header_def strip_prefix_append bind.bind_lunit strip_suffix_append)
  show ?thesis
  proof (cases operation)
    case MutationCreate
    have "split_lines (original_header operation path @ modified_header path @ t)
      = (''--- /dev/null'' @ [NL]) # modified_header path # split_lines t"
      using split_lines_line [of "''--- /dev/null''" "modified_header path @ t"] m MutationCreate
      by (simp add: original_header_def)
    with mh MutationCreate show ?thesis by (simp add: headers_match_def header_path_def line_is_def)
  next
    case MutationUpdate
    have oh: "original_header operation path = ''--- a/'' @ path @ [NL]"
      by (simp add: original_header_def MutationUpdate)
    have "split_lines (original_header operation path @ modified_header path @ t)
      = original_header operation path # modified_header path # split_lines t"
      using split_lines_line [of "''--- a/'' @ path" "modified_header path @ t"] m assms
      by (simp add: oh)
    moreover have "Option.bind (strip_prefix ''--- a/'' (original_header operation path)) (strip_suffix [NL]) = Some path"
      by (simp only: oh strip_prefix_append bind.bind_lunit strip_suffix_append)
    ultimately show ?thesis using mh MutationUpdate by (simp add: headers_match_def header_path_def)
  qed
qed

lemma strict_path_facts:
  assumes "strict_header_path line prefix = Ok path"
  shows "path \<noteq> []" "length path \<le> 4096" "\<not> has_control path" "NL \<notin> set path"
proof -
  from assms show f: "path \<noteq> []" "length path \<le> 4096" "\<not> has_control path"
    by (auto simp: strict_header_path_def workspace_denied_def Let_def split: option.splits if_splits)
  show "NL \<notin> set path"
  proof
    assume "NL \<in> set path"
    then obtain xs ys where "path = xs @ NL # ys" by (metis split_list)
    with f(3) show False using has_control_suffix [of "NL # ys" xs] by simp
  qed
qed

text \<open>For a path that a header of a patch may have, the checks on the prompt (its length, the safety
  of its reason, the two headers, one row per line, the counts of additions, removals and hunks)
  accept every diff that was built.\<close>

lemma diff_prompt_accepted:
  assumes "strict_header_path line prefix = Ok path"
    and "canonical_diff cancelled path operation before hunks = Ok d"
  shows "diff_prompt operation path d = Ok \<lparr>prompt_reason = approval_reason operation path,
    prompt_preview = diff_text d,
    prompt_preview_kind = PreviewCanonicalPatch \<lparr>
      approval_operation = (case operation of MutationCreate \<Rightarrow> PatchCreate | MutationUpdate \<Rightarrow> PatchUpdate),
      approval_path = path, approval_rows = diff_rows d, approval_additions = diff_additions d,
      approval_removals = diff_removals d, approval_hunks = diff_hunks d\<rparr>\<rparr>"
  using assms(2)
proof (rule canonical_diff_parts)
  note path = strict_path_facts [OF assms(1)]
  fix ds old_prefix new_prefix st
  assume h: "ends_line (original_header operation path)" "ends_line (modified_header path)"
      "NL \<notin> set (butlast (original_header operation path))" "NL \<notin> set (butlast (modified_header path))"
    and st: "run (diff_cluster cancelled (ds_ops ds) old_prefix new_prefix)
       \<lparr>do_text = original_header operation path @ modified_header path, do_rows = [RowFileHeader, RowFileHeader],
        do_additions = 0, do_removals = 0, do_polls = ds_polls ds\<rparr> (clusters_of (ds_ops ds)) = Inr st"
    and small: "length (original_header operation path @ modified_header path) \<le> MAX_APPROVAL_PREVIEW_BYTES"
    and d: "clusters_of (ds_ops ds) \<noteq> []" "diff_text d = do_text st" "diff_rows d = do_rows st"
      "diff_additions d = do_additions st" "diff_removals d = do_removals st"
      "diff_hunks d = length (clusters_of (ds_ops ds))"
  have "rows_ok (original_header operation path @ modified_header path) 0
    \<lparr>do_text = original_header operation path @ modified_header path, do_rows = [RowFileHeader, RowFileHeader],
     do_additions = 0, do_removals = 0, do_polls = ds_polls ds\<rparr>"
    using small line_feeds [OF h(1,3)] line_feeds [OF h(2,4)] h(2) by (simp add: rows_ok_def ends_line_def)
  from rows_ok_clusters [OF st this] d
  have ok: "rows_ok (original_header operation path @ modified_header path) (diff_hunks d) st" by simp
  then obtain t rs where t: "diff_text d = original_header operation path @ modified_header path @ t"
    "diff_rows d = [RowFileHeader, RowFileHeader] @ rs" "RowFileHeader \<notin> set rs"
    by (auto simp: rows_ok_def d)
  have hunks: "diff_hunks d \<noteq> 0" "diff_hunks d = length (filter (\<lambda>r. r = RowHunk) rs)"
    using ok d(1,6) t(2) by (auto simp: rows_ok_def d(3) [symmetric])
  then have "rs \<noteq> []" by auto
  then have rows: "\<not> length (diff_rows d) < 3" by (cases rs) (simp_all add: t(2))
  have valid: "validate_prompt (approval_reason operation path) (diff_text d) = Ok ()"
    using ok reason_safe [OF path(3), of operation]
    by (auto simp: validate_prompt_def rows_ok_def d(2) ends_line_def split: option.splits)
  show ?thesis
    using valid path rows hunks ok headers_of_diff [OF path(4), of operation t] t
    by (simp add: diff_prompt_def canonical_patch_def rows_ok_def d [symmetric] MAX_APPROVAL_PATCH_PATH_BYTES_def)
qed

end
