(* ===== verification/File_Text.thy ===== *)
theory File_Text
  imports File_Patch
begin

text \<open>
  Line endings: what is read from a file and what is written to it (\<open>normalize_existing_text\<close> and
  \<open>finish_prepared_mutation\<close> of \<open>src/tools/patch.rs\<close>) are inverse to each other.
\<close>

abbreviation expand_newlines :: "string \<Rightarrow> string" where
  "expand_newlines v \<equiv> concat (map (\<lambda>c. if c = NL then [CARRIAGE, NL] else [c]) v)"

lemma replace_crlf_none: "\<not> contains_crlf v \<Longrightarrow> replace_crlf r v = v"
  by (induction r v rule: replace_crlf.induct) auto

lemma expand_replaced:
  "CARRIAGE \<notin> set (replace_crlf [] v) \<Longrightarrow> NL \<notin> set (replace_crlf [] v)
   \<Longrightarrow> expand_newlines (replace_crlf [NL] v) = v"
proof (induction "[] :: string" v rule: replace_crlf.induct)
  case (1 a b s)
  then show ?case by (auto split: if_splits)
qed auto

lemma no_crlf: "CARRIAGE \<notin> set v \<Longrightarrow> \<not> contains_crlf v"
  by (induction v rule: contains_crlf.induct) auto

lemma crlf_other: "c \<noteq> CARRIAGE \<Longrightarrow> replace_crlf r (c # s) = c # replace_crlf r s"
  "c \<noteq> CARRIAGE \<Longrightarrow> contains_crlf (c # s) = contains_crlf s"
  by (cases s; simp)+

text \<open>A text without carriage returns, once its line feeds are expanded.\<close>

lemma replace_expanded:
  "CARRIAGE \<notin> set v \<Longrightarrow> replace_crlf r (expand_newlines v) = concat (map (\<lambda>c. if c = NL then r else [c]) v)"
  by (induction v) (auto simp: crlf_other)

lemma contains_expanded: "CARRIAGE \<notin> set v \<Longrightarrow> contains_crlf (expand_newlines v) \<longleftrightarrow> NL \<in> set v"
  by (induction v) (auto simp: crlf_other)

text \<open>Expansion keeps text text: a line feed is a character of its own.\<close>

definition expand_char :: "string \<Rightarrow> string list" where
  "expand_char c = (if c = [NL] then [[CARRIAGE], [NL]] else [c])"

lemma utf8_char_ascii:
  assumes "is_utf8_char c" "a \<in> set c" "(of_char a :: nat) < 128"
  shows "c = [a]"
proof -
  obtain b t where c: "c = b # t" using assms(1) by (cases c) (simp_all add: is_utf8_char_def)
  have cont: "\<forall>x \<in> set t. 128 \<le> (of_char x :: nat)"
    using utf8_char_continuation [of b t] assms(1) c by (auto simp: list_all_iff is_continuation_def Let_def)
  with assms(2,3) c have "b = a" by auto
  with assms(1,3) c show ?thesis by (simp add: is_utf8_char_def)
qed

lemma expand_newlines_char:
  assumes "is_utf8_char c"
  shows "expand_newlines c = concat (expand_char c)"
proof (cases "NL \<in> set c")
  case True
  with utf8_char_ascii [OF assms True] show ?thesis by (simp add: expand_char_def)
next
  case False
  then have "expand_newlines c = c" by (induction c) auto
  with False show ?thesis by (auto simp: expand_char_def)
qed

lemma expand_newlines_chars:
  "\<forall>c \<in> set cs. is_utf8_char c \<Longrightarrow> expand_newlines (concat cs) = concat (concat (map expand_char cs))"
  by (induction cs) (simp_all add: expand_newlines_char)

lemma utf8_valid_expand:
  assumes "utf8_valid v"
  shows "utf8_valid (expand_newlines v)"
proof -
  let ?cs = "utf8_chars v"
  have cs: "\<forall>c \<in> set ?cs. is_utf8_char c" using utf8_chars_char [OF assms] by blast
  have "expand_newlines v = concat (concat (map expand_char ?cs))"
    using expand_newlines_chars [OF cs] concat_utf8_chars [of v] by simp
  moreover have "list_all is_utf8_char (concat (map expand_char ?cs))"
    using cs by (auto simp: list_all_iff expand_char_def is_utf8_char_def split: if_splits)
  ultimately show ?thesis by (simp add: utf8_valid_concat)
qed

lemma written_back:
  assumes "normalize_existing_text raw = Ok n" "length raw \<le> MAX_MUTATION_FILE_BYTES"
  shows "candidate_raw (line_endings n) (normalized_text n) = Ok raw"
  using assms expand_replaced [of raw]
  by (auto simp: normalize_existing_text_def not_text_def Let_def and_then_Inr candidate_raw_def split: if_splits)

text \<open>What a checked text does not contain.\<close>

lemma no_control_char:
  assumes "utf8_valid v" "\<not> has_unsafe_control v" "(of_char a :: nat) < 32" "a \<noteq> NL" "a \<noteq> CHR 0x09"
  shows "a \<notin> set v"
proof
  assume "a \<in> set v"
  then obtain c where c: "c \<in> set (utf8_chars v)" "a \<in> set c" by (metis UN_E set_concat concat_utf8_chars)
  with utf8_char_ascii [OF utf8_chars_char [OF assms(1)]] assms(3) have "c = [a]" by auto
  with c assms(2-5) show False by (auto simp: has_unsafe_control_def list_ex_iff)
qed

lemma read_back:
  assumes "utf8_valid candidate" "validate_file_text candidate = Ok ()" "candidate_raw endings candidate = Ok written"
  shows "normalize_existing_text written = Ok \<lparr>normalized_text = candidate,
    line_endings = (if NL \<in> set candidate then endings else LineEndingsLf)\<rparr>"
proof -
  have "\<not> has_unsafe_control candidate" using assms(2) by (auto simp: validate_file_text_def not_text_def)
  note out = no_control_char [OF assms(1) this]
  have cr: "CARRIAGE \<notin> set candidate" and nul: "CHR 0x00 \<notin> set candidate" by (rule out; simp)+
  show ?thesis
  proof (cases endings)
    case LineEndingsLf
    with assms no_crlf [OF cr] replace_crlf_none [OF no_crlf [OF cr], of "[]"] cr nul show ?thesis
      by (simp add: normalize_existing_text_def candidate_raw_def Let_def patch_too_large_def split: if_splits)
  next
    case LineEndingsCrLf
    then have w: "written = expand_newlines candidate"
      using assms(3) by (simp add: candidate_raw_def Let_def patch_too_large_def split: if_splits)
    have "replace_crlf [NL] (expand_newlines candidate) = candidate"
      unfolding replace_expanded [OF cr] by (induction candidate) auto
    moreover have "expand_newlines candidate = candidate" if "NL \<notin> set candidate"
      using that by (induction candidate) auto
    moreover have "set (replace_crlf [] (expand_newlines candidate)) = set candidate - {NL}"
      unfolding replace_expanded [OF cr] by auto
    moreover have "CHR 0x00 \<notin> set (expand_newlines candidate)" using nul by auto
    ultimately show ?thesis
      using utf8_valid_expand [OF assms(1)] contains_expanded [OF cr] cr assms(1,2) LineEndingsCrLf
      by (auto simp: w normalize_existing_text_def Let_def)
  qed
qed

text \<open>C7
  Line endings survive. A file that is read and written back unchanged keeps every byte. And any
  checked text that is written with the line endings of a file is read back as that text, with the
  same line endings whenever it has a line feed.\<close>

theorem line_endings_roundtrip:
  assumes "normalize_existing_text raw = Ok n" and "length raw \<le> MAX_MUTATION_FILE_BYTES"
  shows "candidate_raw (line_endings n) (normalized_text n) = Ok raw
    \<and> (\<forall>candidate written. utf8_valid candidate \<and> validate_file_text candidate = Ok ()
        \<and> candidate_raw (line_endings n) candidate = Ok written
        \<longrightarrow> normalize_existing_text written = Ok \<lparr>normalized_text = candidate,
              line_endings = (if NL \<in> set candidate then line_endings n else LineEndingsLf)\<rparr>)"
  using written_back [OF assms] read_back by blast

text \<open>A file with carriage returns, and a text written over it.\<close>

definition sample_raw :: string where
  "sample_raw = ''a'' @ [CARRIAGE, NL]"

lemma sample_read: "normalize_existing_text sample_raw = Ok \<lparr>normalized_text = ''a'' @ [NL], line_endings = LineEndingsCrLf\<rparr>"
  "length sample_raw \<le> MAX_MUTATION_FILE_BYTES"
proof -
  have "utf8_valid sample_raw" by (rule utf8_valid_ascii) (simp add: sample_raw_def)
  moreover have "utf8_chars (''a'' @ [NL]) = [''a'', [NL]]" by code_simp
  ultimately show "normalize_existing_text sample_raw = Ok \<lparr>normalized_text = ''a'' @ [NL], line_endings = LineEndingsCrLf\<rparr>"
    by (simp add: normalize_existing_text_def sample_raw_def Let_def validate_file_text_def has_unsafe_control_def
      MAX_MUTATION_FILE_LINES_def MAX_MUTATION_FILE_LINE_BYTES_def)
qed (simp add: sample_raw_def MAX_MUTATION_FILE_BYTES_def)

theorem line_endings_roundtrip_witness:
  "candidate_raw LineEndingsCrLf (''a'' @ [NL]) = Ok sample_raw
   \<and> normalize_existing_text sample_raw = Ok \<lparr>normalized_text = ''a'' @ [NL], line_endings = LineEndingsCrLf\<rparr>"
  using line_endings_roundtrip [OF sample_read] sample_read(1) by simp

end
