(* ===== verification/File_Change.thy ===== *)
theory File_Change
  imports File_Prompt File_Text
begin

text \<open>
  The \<open>apply_patch\<close> tool as a whole (\<open>prepare\<close>, \<open>generated_prompt\<close>, \<open>canonical_prompt\<close> and
  \<open>finish_prepared_mutation\<close> of \<open>src/tools/patch.rs\<close>): from the arguments of the call to the prompt
  that is shown and the bytes that are written if it is approved. The workspace, which resolves the
  path and reads the file, is a parameter; so are the library that makes a patch of two texts and
  the answers of the cancellation token, by the stage that asks and the number of the poll. The
  result that is recorded after the commit and the commit itself are not modelled.
\<close>

section \<open>The arguments\<close>

definition invalid_args :: "string \<Rightarrow> ToolCallError + 'a" where
  "invalid_args message = Err (ToolModel ''ToolArgsError'' ''INVALID_ARGS'' message)"

definition parse_arguments :: "json \<Rightarrow> ToolCallError + string" where
  "parse_arguments arguments = (case arguments of
      JObj fs \<Rightarrow>
        if length fs \<noteq> 1 then invalid_args ''apply_patch accepts only the required patch field''
        else (case map_of fs ''patch'' of
            Some (JStr patch) \<Rightarrow>
              if patch = [] \<or> length patch > MAX_PATCH_BYTES
              then patch_too_large (''patch input must contain 1 to '' @ show_nat MAX_PATCH_BYTES @ '' UTF-8 bytes'')
              else Ok patch
          | _ \<Rightarrow> invalid_args ''apply_patch.patch must be a non-null string'')
    | _ \<Rightarrow> invalid_args ''apply_patch arguments must be one closed object'')"

section \<open>The prompt\<close>

definition MAX_CANONICAL_DIFF_JSON_BYTES :: nat where
  "MAX_CANONICAL_DIFF_JSON_BYTES = 64 * 1024"

definition operation_name :: "MutationOperation \<Rightarrow> string" where
  "operation_name operation = (case operation of MutationCreate \<Rightarrow> ''create'' | MutationUpdate \<Rightarrow> ''update'')"

definition mutation_meta ::
    "session_env \<Rightarrow> string \<Rightarrow> MutationOperation \<Rightarrow> string \<Rightarrow> bool \<Rightarrow> bool \<Rightarrow> json option" where
  "mutation_meta env path operation diff committed cleanup_warning =
     env_admit env (JObj ([(''path'', JStr path), (''operation'', JStr (operation_name operation)),
         (''diff'', JStr diff), (''committed'', JBool committed)]
       @ (if cleanup_warning then [(''cleanupWarning'', JBool True)] else [])))"

definition canonical_prompt ::
    "session_env \<Rightarrow> string \<Rightarrow> MutationOperation \<Rightarrow> CanonicalDiff \<Rightarrow> ToolCallError + ApprovalPrompt" where
  "canonical_prompt env path operation canonical =
     and_then (ok_or (mutation_meta env path operation (diff_text canonical) False True) ToolInfrastructure) (\<lambda>meta_probe.
     if diff_text canonical = [] \<or> env_encoded_len env meta_probe > MAX_CANONICAL_DIFF_JSON_BYTES
     then diff_too_large
     else map_err (\<lambda>_. ToolInfrastructure) (diff_prompt operation path canonical))"

text \<open>The prompt for a text that an editor produced: the library makes the patch, whose headers are
  replaced. \<open>find_from p s\<close> is \<open>&s[s.find(p)?..]\<close>.\<close>

fun find_from :: "string \<Rightarrow> string \<Rightarrow> string option" where
  "find_from p s = (if starts_with p s then Some s else case s of [] \<Rightarrow> None | _ # t \<Rightarrow> find_from p t)"

declare find_from.simps [simp del]

definition generated_prompt ::
    "session_env \<Rightarrow> 'p diffy \<Rightarrow> (string \<Rightarrow> string \<Rightarrow> string) \<Rightarrow> (nat \<Rightarrow> bool) \<Rightarrow> string \<Rightarrow> MutationOperation \<Rightarrow> string \<Rightarrow> string
     \<Rightarrow> ToolCallError + ApprovalPrompt" where
  "generated_prompt env d create_patch cancelled path operation before candidate =
     (if before = candidate
      then map_err (\<lambda>_. ToolInfrastructure) (opaque_prompt (approval_reason operation path)
        (case operation of
           MutationCreate \<Rightarrow> ''Create empty workspace file `'' @ path @ ''`.'' @ [NL]
         | MutationUpdate \<Rightarrow> ''Republish unchanged workspace file `'' @ path @ ''`.'' @ [NL]))
      else case find_from ''@@ '' (create_patch before candidate) of
        None \<Rightarrow> invalid_patch ''could not derive a bounded editor preview''
      | Some body \<Rightarrow>
          let input = original_header operation path @ modified_header path @ body in
          if length input > MAX_PATCH_BYTES
          then patch_too_large ''the generated editor preview exceeds the patch limit''
          else and_then (parse_patch d input) (\<lambda>parsed.
            and_then (canonical_diff cancelled path operation before (diffy_hunks d (parsed_patch parsed)))
              (canonical_prompt env path operation)))"

section \<open>The tool\<close>

record PreparedChange =
  change_path :: string
  change_operation :: MutationOperation
  change_prompt :: ApprovalPrompt
  change_raw :: string

definition no_changes :: "ToolCallError + 'a" where
  "no_changes = Err (ToolModel ''PatchError'' ''NO_CHANGES'' ''the patch does not change the target file'')"

definition finish_prepared_mutation ::
    "NormalizedText \<Rightarrow> string \<Rightarrow> string \<Rightarrow> MutationOperation \<Rightarrow> ApprovalPrompt \<Rightarrow> ToolCallError + PreparedChange" where
  "finish_prepared_mutation before candidate path operation prompt =
     and_then (candidate_raw (line_endings before) candidate) (\<lambda>raw.
       Ok \<lparr>change_path = path, change_operation = operation, change_prompt = prompt, change_raw = raw\<rparr>)"

text \<open>\<open>target\<close> is the workspace: the bytes of the file, none for a file that is to be created.\<close>

definition prepare_patch ::
    "session_env \<Rightarrow> 'p diffy \<Rightarrow> (nat \<Rightarrow> nat \<Rightarrow> bool) \<Rightarrow> (string \<Rightarrow> MutationOperation \<Rightarrow> ToolCallError + string)
     \<Rightarrow> json \<Rightarrow> ToolCallError + PreparedChange" where
  "prepare_patch env d cancelled target arguments =
     and_then (parse_arguments arguments) (\<lambda>input.
     if cancelled 0 0 then tool_aborted else
     and_then (parse_patch d input) (\<lambda>parsed.
     let path = parsed_path parsed; operation = parsed_operation parsed; hunks = diffy_hunks d (parsed_patch parsed) in
     and_then (target path operation) (\<lambda>before_raw.
     and_then (normalize_existing_text before_raw) (\<lambda>before.
     and_then (apply_strict (cancelled 1) (normalized_text before) hunks) (\<lambda>candidate.
     if candidate = normalized_text before then no_changes else
     and_then (validate_file_text candidate) (\<lambda>_.
     and_then (canonical_diff (cancelled 2) path operation (normalized_text before) hunks) (\<lambda>canonical.
     and_then (canonical_prompt env path operation canonical) (\<lambda>prompt.
     finish_prepared_mutation before candidate path operation prompt))))))))"

text \<open>An editor's text goes the same way, with the prompt generated for it.\<close>

definition finish_generated_text_mutation ::
    "session_env \<Rightarrow> 'p diffy \<Rightarrow> (string \<Rightarrow> string \<Rightarrow> string) \<Rightarrow> (nat \<Rightarrow> bool) \<Rightarrow> NormalizedText \<Rightarrow> string \<Rightarrow> string
     \<Rightarrow> MutationOperation \<Rightarrow> ToolCallError + PreparedChange" where
  "finish_generated_text_mutation env d create_patch cancelled before candidate display_path operation =
     and_then (validate_file_text candidate) (\<lambda>_.
     and_then (generated_prompt env d create_patch cancelled display_path operation (normalized_text before) candidate)
       (finish_prepared_mutation before candidate display_path operation))"

section \<open>What is approved is what is written\<close>

text \<open>C6
  A prepared change is the change that its prompt shows. The preview is the text, in the unified
  format, of a patch of its own, with as many hunks, additions and removals as the prompt announces;
  applying that patch to the text of the file gives a text that differs from it, and the bytes to be
  written are this text with the line endings of the file.\<close>

theorem prepared_change_is_shown:
  fixes d :: "'p diffy"
  assumes "prepare_patch env d cancelled target arguments = Ok change"
  shows "\<exists>before_raw before shown candidate approval.
    target (change_path change) (change_operation change) = Ok before_raw
    \<and> normalize_existing_text before_raw = Ok before
    \<and> prompt_preview (change_prompt change) = patch_text (change_operation change) (change_path change) shown
    \<and> prompt_preview_kind (change_prompt change) = PreviewCanonicalPatch approval
    \<and> approval_path approval = change_path change \<and> approval_hunks approval = length shown
    \<and> approval_additions approval = patch_insertions shown \<and> approval_removals approval = patch_deletions shown
    \<and> apply_strict (\<lambda>_. False) (normalized_text before) shown = Ok candidate
    \<and> candidate \<noteq> normalized_text before
    \<and> candidate_raw (line_endings before) candidate = Ok (change_raw change)"
proof -
  from assms obtain parsed :: "'p ParsedPatch" and before_raw before candidate canonical prompt where
    before: "target (parsed_path parsed) (parsed_operation parsed) = Inr before_raw"
      "normalize_existing_text before_raw = Inr before"
    and candidate: "apply_strict (cancelled (Suc 0)) (normalized_text before) (diffy_hunks d (parsed_patch parsed)) = Inr candidate"
      "candidate \<noteq> normalized_text before"
    and canonical: "canonical_diff (cancelled 2) (parsed_path parsed) (parsed_operation parsed) (normalized_text before)
      (diffy_hunks d (parsed_patch parsed)) = Inr canonical"
    and prompt: "canonical_prompt env (parsed_path parsed) (parsed_operation parsed) canonical = Inr prompt"
    and finish: "finish_prepared_mutation before candidate (parsed_path parsed) (parsed_operation parsed) prompt = Inr change"
    by (auto simp: prepare_patch_def and_then_Inr Let_def tool_aborted_def no_changes_def split: if_splits intro: that)
  from finish have change: "change_path change = parsed_path parsed" "change_operation change = parsed_operation parsed"
    "change_prompt change = prompt" "candidate_raw (line_endings before) candidate = Inr (change_raw change)"
    by (auto simp: finish_prepared_mutation_def and_then_Inr)
  from prompt have "diff_prompt (parsed_operation parsed) (parsed_path parsed) canonical = Inr prompt"
    by (auto simp: canonical_prompt_def and_then_Inr map_err_Inr diff_too_large_def split: if_splits)
  then obtain approval where approval: "prompt_preview prompt = diff_text canonical"
    "prompt_preview_kind prompt = PreviewCanonicalPatch approval" "approval_path approval = parsed_path parsed"
    "approval_hunks approval = diff_hunks canonical" "approval_additions approval = diff_additions canonical"
    "approval_removals approval = diff_removals canonical"
    by (auto simp: diff_prompt_def canonical_patch_def and_then_Inr split: if_splits)
  from approved_diff_is_the_change [OF candidate(1) canonical] obtain shown where
    "diff_text canonical = patch_text (parsed_operation parsed) (parsed_path parsed) shown"
    "diff_hunks canonical = length shown" "diff_additions canonical = patch_insertions shown"
    "diff_removals canonical = patch_deletions shown"
    "apply_strict (\<lambda>_. False) (normalized_text before) shown = Inr candidate" by blast
  with before candidate(2) change approval show ?thesis by auto
qed

text \<open>A call that changes a file with carriage returns.\<close>

definition sample_input :: string where
  "sample_input = sample_lines [''--- a/f'', ''+++ b/f'', ''@@ -1,1 +1,1 @@'', ''-a'', ''+x'', ''@@ -2,0 +3,1 @@'', ''+c'']
     @ NO_NEWLINE_MARKER"

definition sample_diffy :: "Hunk list diffy" where
  "sample_diffy = \<lparr>diffy_parse = (\<lambda>s. if s = sample_input then Some sample_hunks else None), diffy_hunks = (\<lambda>p. p),
     diffy_show = (\<lambda>_. sample_input),
     diffy_range = (\<lambda>r. show_nat (unat (range_start r)) @ '','' @ show_nat (unat (range_len r)))\<rparr>"

definition sample_target :: "string \<Rightarrow> MutationOperation \<Rightarrow> ToolCallError + string" where
  "sample_target = (\<lambda>_ _. Ok (''a'' @ [CARRIAGE, NL] @ ''b'' @ [CARRIAGE, NL]))"

definition sample_change :: PreparedChange where
  "sample_change = \<lparr>change_path = ''f'', change_operation = MutationUpdate,
     change_prompt = \<lparr>prompt_reason = Some ''Update workspace file `f`'', prompt_preview = diff_text sample_diff,
       prompt_preview_kind = PreviewCanonicalPatch \<lparr>approval_operation = PatchUpdate, approval_path = ''f'',
         approval_rows = diff_rows sample_diff, approval_additions = 2, approval_removals = 1, approval_hunks = 1\<rparr>\<rparr>,
     change_raw = ''x'' @ [CARRIAGE, NL] @ ''b'' @ [CARRIAGE, NL] @ ''c''\<rparr>"

lemma sample_safe: "\<not> has_unsafe_control sample_input" "\<not> has_unsafe_control sample_before"
  "\<not> has_unsafe_control (sample_lines [''x'', ''b''] @ ''c'')"
  by (simp_all add: has_unsafe_control_def utf8_chars_ascii sample_input_def sample_before_def sample_lines_def
    NO_NEWLINE_MARKER_def)

lemma sample_split: "split_lines sample_input =
   map (\<lambda>l. l @ [NL]) [''--- a/f'', ''+++ b/f'', ''@@ -1,1 +1,1 @@'', ''-a'', ''+x'', ''@@ -2,0 +3,1 @@'', ''+c'']
     @ [NO_NEWLINE_MARKER]"
  by (simp add: sample_input_def sample_lines_def NO_NEWLINE_MARKER_def)

lemma sample_markers: "validate_no_newline_markers (split_lines sample_input) = Ok ()"
  unfolding sample_split
  by (simp add: validate_no_newline_markers_def marker_line_def consumed_sides_def starts_with_def NO_NEWLINE_MARKER_def)

lemma sample_headers: "parse_headers (''--- a/f'' @ [NL]) (''+++ b/f'' @ [NL]) = Ok (MutationUpdate, ''f'')"
  by (simp add: parse_headers_def strict_header_path_def strip_suffix_def MAX_DIRECTORY_DEPTH_def)

lemma sample_hunk_headers:
  "filter (starts_with ''@@ '') (split_lines sample_input) = map (hunk_header sample_diffy) sample_hunks"
  unfolding sample_split
  by (simp add: hunk_header_def sample_diffy_def sample_hunks_def show_small show_nat.simps [of 0] char_of_def bit_0
    starts_with_def NO_NEWLINE_MARKER_def)

lemma sample_hunks_parsed: "parse_hunks sample_diffy sample_input (split_lines sample_input) = Ok sample_hunks"
  unfolding parse_hunks_def sample_hunk_headers
  by (simp add: sample_diffy_def) (simp add: sample_hunks_def MAX_PATCH_HUNKS_def)

lemma sample_lines_small: "length (split_lines sample_input) \<le> MAX_PATCH_LINES"
  "\<not> list_ex (\<lambda>l. length l > MAX_PATCH_LINE_BYTES) (split_lines sample_input)"
  "length (map (hunk_header sample_diffy) sample_hunks) \<le> MAX_PATCH_HUNKS" "ends_line sample_input"
  unfolding sample_split
  by (simp_all add: MAX_PATCH_LINES_def MAX_PATCH_LINE_BYTES_def MAX_PATCH_HUNKS_def NO_NEWLINE_MARKER_def
    sample_hunks_def ends_line_def sample_input_def)

lemma sample_parsed: "parse_patch sample_diffy sample_input
   = Ok \<lparr>parsed_operation = MutationUpdate, parsed_path = ''f'', parsed_patch = sample_hunks\<rparr>"
  using sample_safe(1) sample_lines_small sample_headers sample_hunks_parsed
  by (simp add: parse_patch_def Let_def sample_hunk_headers sample_markers) (simp add: sample_split)

lemma sample_normalized: "normalize_existing_text (''a'' @ [CARRIAGE, NL] @ ''b'' @ [CARRIAGE, NL])
   = Ok \<lparr>normalized_text = sample_before, line_endings = LineEndingsCrLf\<rparr>"
proof -
  have "utf8_valid (''a'' @ [CARRIAGE, NL] @ ''b'' @ [CARRIAGE, NL])" by (rule utf8_valid_ascii) simp
  with sample_safe(2) show ?thesis
    by (simp add: normalize_existing_text_def Let_def validate_file_text_def sample_before_def sample_lines_def
      MAX_MUTATION_FILE_LINES_def MAX_MUTATION_FILE_LINE_BYTES_def)
qed

lemma sample_path: "strict_header_path (''+++ b/f'' @ [NL]) ''+++ b/'' = Ok ''f''"
  by (simp add: strict_header_path_def strip_suffix_def MAX_DIRECTORY_DEPTH_def)

lemma sample_prompted: "canonical_prompt sample_env ''f'' MutationUpdate sample_diff = Ok (change_prompt sample_change)"
proof -
  from diff_prompt_accepted [OF sample_path sample_diff_shown]
  have "diff_prompt MutationUpdate ''f'' sample_diff = Ok (change_prompt sample_change)"
    by (simp add: approval_reason_def MAX_APPROVAL_REASON_BYTES_def sample_change_def)
      (simp add: sample_diff_def)
  then show ?thesis
    by (simp add: canonical_prompt_def mutation_meta_def sample_env_def MAX_CANONICAL_DIFF_JSON_BYTES_def)
      (simp add: sample_diff_def sample_lines_def)
qed

lemma sample_arguments: "parse_arguments (JObj [(''patch'', JStr sample_input)]) = Ok sample_input"
  by (simp add: parse_arguments_def MAX_PATCH_BYTES_def sample_input_def sample_lines_def NO_NEWLINE_MARKER_def)

lemma sample_written: "finish_prepared_mutation \<lparr>normalized_text = sample_before, line_endings = LineEndingsCrLf\<rparr>
    (sample_lines [''x'', ''b''] @ ''c'') ''f'' MutationUpdate (change_prompt sample_change) = Ok sample_change"
  by (simp add: finish_prepared_mutation_def candidate_raw_def Let_def sample_lines_def MAX_MUTATION_FILE_BYTES_def)
    (simp add: sample_change_def)

lemma sample_prepared: "prepare_patch sample_env sample_diffy (\<lambda>_ _. False) sample_target
    (JObj [(''patch'', JStr sample_input)]) = Ok sample_change"
proof -
  have target: "sample_target ''f'' MutationUpdate = Ok (''a'' @ [CARRIAGE, NL] @ ''b'' @ [CARRIAGE, NL])"
    by (simp add: sample_target_def)
  have hunks: "diffy_hunks sample_diffy h = h" for h by (simp add: sample_diffy_def)
  have changed: "sample_lines [''x'', ''b''] @ ''c'' \<noteq> sample_before"
    by (simp add: sample_before_def sample_lines_def)
  have checked: "validate_file_text (sample_lines [''x'', ''b''] @ ''c'') = Ok ()"
    using sample_safe(3)
    by (simp add: validate_file_text_def) (simp add: sample_lines_def MAX_MUTATION_FILE_LINES_def MAX_MUTATION_FILE_LINE_BYTES_def)
  show ?thesis
    by (simp only: prepare_patch_def sample_arguments and_then.simps if_False Let_def sample_parsed ParsedPatch.simps
      target sample_normalized NormalizedText.simps hunks sample_applies changed checked sample_diff_shown sample_prompted
      sample_written)
qed

theorem prepared_change_is_shown_witness:
  "\<exists>shown. prompt_preview (change_prompt sample_change) = patch_text MutationUpdate ''f'' shown \<and> length shown = 1
    \<and> patch_insertions shown = 2 \<and> patch_deletions shown = 1"
  using prepared_change_is_shown [OF sample_prepared] by (auto simp: sample_change_def)

text \<open>C10
  Every diff can be put to the user. For a path that a header of a patch may have, the prompt for a
  diff that was built fails only when the metadata of the result are not an admissible JSON value or
  are too long; otherwise its own checks accept it, and it shows the text of the diff with its counts.\<close>

theorem canonical_prompt_exact:
  assumes "strict_header_path line prefix = Ok path"
    and "canonical_diff cancelled path operation before hunks = Ok canonical"
  shows "canonical_prompt env path operation canonical =
    (case mutation_meta env path operation (diff_text canonical) False True of
       None \<Rightarrow> Err ToolInfrastructure
     | Some meta_probe \<Rightarrow>
         if env_encoded_len env meta_probe > MAX_CANONICAL_DIFF_JSON_BYTES then diff_too_large
         else Ok \<lparr>prompt_reason = approval_reason operation path, prompt_preview = diff_text canonical,
           prompt_preview_kind = PreviewCanonicalPatch \<lparr>
             approval_operation = (case operation of MutationCreate \<Rightarrow> PatchCreate | MutationUpdate \<Rightarrow> PatchUpdate),
             approval_path = path, approval_rows = diff_rows canonical, approval_additions = diff_additions canonical,
             approval_removals = diff_removals canonical, approval_hunks = diff_hunks canonical\<rparr>\<rparr>)"
proof -
  have "diff_text canonical \<noteq> []"
    using diff_prompt_accepted [OF assms]
    by (auto simp: diff_prompt_def canonical_patch_def and_then_Inr ends_line_def split: if_splits)
  then show ?thesis
    using diff_prompt_accepted [OF assms] by (simp add: canonical_prompt_def diff_too_large_def split: option.split)
qed

theorem canonical_prompt_exact_witness:
  "\<exists>p. canonical_prompt sample_env ''f'' MutationUpdate sample_diff = Ok p \<and> prompt_preview p = diff_text sample_diff
    \<and> canonical_prompt (sample_env\<lparr>env_encoded_len := \<lambda>_. 100000\<rparr>) ''f'' MutationUpdate sample_diff = diff_too_large"
  using canonical_prompt_exact [OF sample_path sample_diff_shown]
  by (simp add: mutation_meta_def sample_env_def MAX_CANONICAL_DIFF_JSON_BYTES_def)

end
