(* ===== verification/Json_Value.thy ===== *)
theory Json_Value
  imports Session_Check
begin

text \<open>
  The admission of untrusted JSON (\<open>JsonValue::new\<close> of \<open>src/json_value.rs\<close>): the iterative walk that
  bounds nodes and depth and checks the numbers, the normalisation of integral numbers, and the limit
  on the encoded size. The encoder of serde_json is a parameter; the charges for resident memory and
  the iterative destructor are not modelled.
\<close>

section \<open>Numbers\<close>

text \<open>A double by its bits: sign, exponent, fraction.\<close>

definition f64_negative :: "u64 \<Rightarrow> bool" where
  "f64_negative b \<longleftrightarrow> 2 ^ 63 \<le> unat b"

definition f64_exponent :: "u64 \<Rightarrow> nat" where
  "f64_exponent b = unat b div 2 ^ 52 mod 2048"

definition f64_fraction :: "u64 \<Rightarrow> nat" where
  "f64_fraction b = unat b mod 2 ^ 52"

definition f64_finite :: "u64 \<Rightarrow> bool" where
  "f64_finite b \<longleftrightarrow> f64_exponent b \<noteq> 2047"

definition f64_negative_zero :: "u64 \<Rightarrow> bool" where
  "f64_negative_zero b \<longleftrightarrow> unat b = 2 ^ 63"

text \<open>The value of a finite double.\<close>

definition f64_value :: "u64 \<Rightarrow> rat" where
  "f64_value b = (if f64_negative b then - 1 else 1) *
     (if f64_exponent b = 0 then of_nat (f64_fraction b) / 2 ^ 1074
      else of_nat (2 ^ 52 + f64_fraction b) * 2 ^ f64_exponent b / 2 ^ 1075)"

definition integral :: "rat \<Rightarrow> bool" where
  "integral v \<longleftrightarrow> of_int \<lfloor>v\<rfloor> = v"

abbreviation safe_bound :: rat where
  "safe_bound \<equiv> 9007199254740991"

text \<open>\<open>as_f64\<close> of an integer token above the bound is rounded to a double above the bound, so only its
  size matters.\<close>

fun number_ok :: "json \<Rightarrow> bool" where
  "number_ok (JInt i) = (\<bar>i\<bar> \<le> 9007199254740991)"
| "number_ok (JFloat b) = (f64_finite b \<and> \<not> f64_negative_zero b
     \<and> \<not> (integral (f64_value b) \<and> safe_bound < \<bar>f64_value b\<bar>))"
| "number_ok _ = True"

section \<open>The walk\<close>

datatype JsonValueError = JsonInvalidNumber | JsonTooDeep nat | JsonTooManyNodes nat | JsonTooLarge nat nat | JsonEncode

definition MAX_JSON_NODES :: nat where
  "MAX_JSON_NODES = 1000000"

definition MAX_JSON_VALUE_BYTES :: nat where
  "MAX_JSON_VALUE_BYTES = 8 * 1024 * 1024"

fun children :: "json \<Rightarrow> json list option" where
  "children (JArr vs) = Some vs"
| "children (JObj fs) = Some (map snd fs)"
| "children _ = None"

text \<open>\<open>while current.is_none()\<close>: the next child of the innermost container that has one left. The
  iterators are lists, the innermost first.\<close>

fun next_child :: "(json list \<times> nat) list \<Rightarrow> (json \<times> nat) option \<times> (json list \<times> nat) list" where
  "next_child [] = (None, [])"
| "next_child (([], _) # parents) = next_child parents"
| "next_child ((v # vs, depth) # parents) = (Some (v, depth), (vs, depth) # parents)"

definition inspect_node :: "json \<Rightarrow> nat \<Rightarrow> nat \<Rightarrow> JsonValueError + unit" where
  "inspect_node node depth nodes =
     (if nodes > MAX_JSON_NODES then Err (JsonTooManyNodes MAX_JSON_NODES)
      else if depth > MAX_JSON_DEPTH then Err (JsonTooDeep MAX_JSON_DEPTH)
      else if \<not> number_ok node then Err JsonInvalidNumber
      else Ok ())"

definition descend :: "json \<Rightarrow> nat \<Rightarrow> (json list \<times> nat) list \<Rightarrow> (json \<times> nat) option \<times> (json list \<times> nat) list" where
  "descend node depth parents = (case children node of
      None \<Rightarrow> next_child parents | Some vs \<Rightarrow> next_child ((vs, Suc depth) # parents))"

fun json_nodes :: "json \<Rightarrow> nat" where
  "json_nodes (JArr vs) = Suc (sum_list (map json_nodes vs))"
| "json_nodes (JObj fs) = Suc (sum_list (map (\<lambda>(_, v). json_nodes v) fs))"
| "json_nodes _ = 1"

text \<open>The nodes that are still to be visited.\<close>

definition pending_nodes :: "(json \<times> nat) option \<times> (json list \<times> nat) list \<Rightarrow> nat" where
  "pending_nodes = (\<lambda>(current, parents). (case current of None \<Rightarrow> 0 | Some (v, _) \<Rightarrow> json_nodes v)
     + sum_list (map (\<lambda>(vs, _). sum_list (map json_nodes vs)) parents))"

lemma pending_nodes_simps:
  "pending_nodes (None, parents) = sum_list (map (\<lambda>(vs, _). sum_list (map json_nodes vs)) parents)"
  "pending_nodes (Some (v, d), parents)
     = json_nodes v + sum_list (map (\<lambda>(vs, _). sum_list (map json_nodes vs)) parents)"
  by (simp_all add: pending_nodes_def)

lemma pending_next_child: "pending_nodes (next_child parents) = pending_nodes (None, parents)"
  by (induction parents rule: next_child.induct) (simp_all add: pending_nodes_simps)

lemma pending_descend: "Suc (pending_nodes (descend v d parents)) = pending_nodes (Some (v, d), parents)"
  by (cases v) (simp_all add: descend_def pending_next_child pending_nodes_simps case_prod_unfold comp_def)

function inspect_loop :: "(json \<times> nat) option \<times> (json list \<times> nat) list \<Rightarrow> nat \<Rightarrow> JsonValueError + unit" where
  "inspect_loop (None, parents) nodes = Ok ()"
| "inspect_loop (Some (node, depth), parents) nodes =
     and_then (inspect_node node depth (Suc nodes)) (\<lambda>_. inspect_loop (descend node depth parents) (Suc nodes))"
  by pat_completeness auto
termination
  by (relation "measure (\<lambda>(w, _). pending_nodes w)") (simp_all add: pending_descend [symmetric] Suc_le_eq less_Suc_eq_le)

definition inspect_json :: "json \<Rightarrow> JsonValueError + unit" where
  "inspect_json v = inspect_loop (Some (v, 0), []) 0"

section \<open>Admission\<close>

fun normalize_numbers :: "json \<Rightarrow> json" where
  "normalize_numbers (JFloat b) =
     (if f64_finite b \<and> integral (f64_value b) \<and> \<bar>f64_value b\<bar> \<le> safe_bound then JInt \<lfloor>f64_value b\<rfloor> else JFloat b)"
| "normalize_numbers (JArr vs) = JArr (map normalize_numbers vs)"
| "normalize_numbers (JObj fs) = JObj (map (\<lambda>(k, v). (k, normalize_numbers v)) fs)"
| "normalize_numbers v = v"

definition json_value_new :: "(json \<Rightarrow> string option) \<Rightarrow> json \<Rightarrow> JsonValueError + json" where
  "json_value_new encode v =
     and_then (inspect_json v) (\<lambda>_. let value = normalize_numbers v in
     and_then (ok_or (encode value) JsonEncode) (\<lambda>bytes.
       if length bytes > MAX_JSON_VALUE_BYTES then Err (JsonTooLarge MAX_JSON_VALUE_BYTES (length bytes))
       else Ok value))"

section \<open>What is admitted\<close>

text \<open>The recursive reading of the walk: every node at depth \<open>d\<close> and below is within the limit and
  every number is one that JavaScript keeps.\<close>

fun admissible_at :: "nat \<Rightarrow> json \<Rightarrow> bool" where
  "admissible_at d (JArr vs) = (d \<le> MAX_JSON_DEPTH \<and> list_all (admissible_at (Suc d)) vs)"
| "admissible_at d (JObj fs) = (d \<le> MAX_JSON_DEPTH \<and> list_all (\<lambda>(_, v). admissible_at (Suc d) v) fs)"
| "admissible_at d v = (d \<le> MAX_JSON_DEPTH \<and> number_ok v)"

fun current_ok :: "(json \<times> nat) option \<Rightarrow> bool" where
  "current_ok None = True"
| "current_ok (Some (v, d)) = admissible_at d v"

definition parents_ok :: "(json list \<times> nat) list \<Rightarrow> bool" where
  "parents_ok = list_all (\<lambda>(vs, d). list_all (admissible_at d) vs)"

definition pending_ok :: "(json \<times> nat) option \<times> (json list \<times> nat) list \<Rightarrow> bool" where
  "pending_ok = (\<lambda>(current, parents). current_ok current \<and> parents_ok parents)"

lemma pending_ok_Some: "pending_ok (Some (v, d), parents) \<longleftrightarrow> admissible_at d v \<and> parents_ok parents"
  by (simp add: pending_ok_def)

lemma next_child_ok: "pending_ok (next_child parents) = parents_ok parents"
  by (induction parents rule: next_child.induct) (simp_all add: pending_ok_def parents_ok_def conj_assoc)

lemma next_child_None: "fst (next_child parents) = None \<Longrightarrow> snd (next_child parents) = []"
  by (induction parents rule: next_child.induct) simp_all

lemma descend_None: "fst (descend v d parents) = None \<Longrightarrow> snd (descend v d parents) = []"
  by (cases "children v") (simp_all add: descend_def next_child_None)

lemma descend_ok: "pending_ok (Some (v, d), parents) \<longleftrightarrow>
    d \<le> MAX_JSON_DEPTH \<and> number_ok v \<and> pending_ok (descend v d parents)"
  by (cases v) (auto simp: pending_ok_Some descend_def next_child_ok parents_ok_def list_all_iff)

lemma json_nodes_pos: "0 < json_nodes v"
  by (cases v) simp_all

lemma inspect_node_Ok: "inspect_node v d n = Ok () \<longleftrightarrow> n \<le> MAX_JSON_NODES \<and> d \<le> MAX_JSON_DEPTH \<and> number_ok v"
  by (simp add: inspect_node_def)

lemma inspect_loop_Ok:
  "(fst w = None \<longrightarrow> snd w = []) \<Longrightarrow> inspect_loop w n = Ok () \<longleftrightarrow>
     (pending_nodes w = 0 \<or> n + pending_nodes w \<le> MAX_JSON_NODES) \<and> pending_ok w"
proof (induction w n rule: inspect_loop.induct)
  case (1 parents nodes)
  then show ?case by (simp add: pending_nodes_simps pending_ok_def parents_ok_def)
next
  case (2 v d parents n)
  let ?next = "descend v d parents"
  have p: "pending_nodes (Some (v, d), parents) = Suc (pending_nodes ?next)"
    by (simp add: pending_descend)
  have "inspect_loop (Some (v, d), parents) n = Ok () \<longleftrightarrow>
      inspect_node v d (Suc n) = Ok () \<and> inspect_loop ?next (Suc n) = Ok ()"
    by (auto simp: and_then_Inr)
  also have "\<dots> \<longleftrightarrow> inspect_node v d (Suc n) = Ok () \<and>
      (pending_nodes ?next = 0 \<or> Suc n + pending_nodes ?next \<le> MAX_JSON_NODES) \<and> pending_ok ?next"
    using "2.IH" descend_None [of v d parents] by auto
  also have "\<dots> \<longleftrightarrow> n + pending_nodes (Some (v, d), parents) \<le> MAX_JSON_NODES \<and> pending_ok (Some (v, d), parents)"
    unfolding p descend_ok inspect_node_Ok by auto
  finally show ?case using p by simp
qed

lemma inspect_json_Ok: "inspect_json v = Ok () \<longleftrightarrow> json_nodes v \<le> MAX_JSON_NODES \<and> admissible_at 0 v"
  using json_nodes_pos [of v] inspect_loop_Ok [of "(Some (v, 0), [])" 0]
  by (simp add: inspect_json_def pending_nodes_simps pending_ok_def parents_ok_def del: inspect_loop.simps)

section \<open>The form of admitted values\<close>

text \<open>Every number is a safe integer, written as an integer, or a finite double that is none.\<close>

fun json_canonical :: "json \<Rightarrow> bool" where
  "json_canonical (JInt i) = (\<bar>i\<bar> \<le> 9007199254740991)"
| "json_canonical (JFloat b) = (f64_finite b \<and> \<not> integral (f64_value b))"
| "json_canonical (JArr vs) = list_all json_canonical vs"
| "json_canonical (JObj fs) = list_all (\<lambda>(_, v). json_canonical v) fs"
| "json_canonical _ = True"

lemma integral_floor_small: "integral v \<Longrightarrow> \<bar>v\<bar> \<le> safe_bound \<Longrightarrow> \<bar>\<lfloor>v\<rfloor>\<bar> \<le> 9007199254740991"
  by (auto simp: integral_def abs_le_iff le_floor_iff floor_le_iff)

lemma normalize_numbers_nodes: "json_nodes (normalize_numbers v) = json_nodes v"
  by (induction v rule: normalize_numbers.induct)
    (auto simp: comp_def case_prod_unfold intro!: arg_cong [where f = sum_list])

lemma normalize_numbers_admissible: "admissible_at d v \<Longrightarrow> admissible_at d (normalize_numbers v)"
  by (induction d v rule: admissible_at.induct)
    (auto simp: list_all_iff integral_floor_small split: if_splits)

lemma normalize_numbers_canonical: "admissible_at d v \<Longrightarrow> json_canonical (normalize_numbers v)"
  by (induction d v rule: admissible_at.induct)
    (auto simp: list_all_iff integral_floor_small not_le split: if_splits)

lemma normalize_canonical: "json_canonical v \<Longrightarrow> normalize_numbers v = v"
  by (induction v rule: json_canonical.induct) (auto simp: list_all_iff intro!: map_idI)

lemma json_value_new_Ok:
  "json_value_new encode v = Ok w \<longleftrightarrow> w = normalize_numbers v \<and> json_nodes v \<le> MAX_JSON_NODES \<and> admissible_at 0 v
     \<and> (\<exists>bytes. encode w = Some bytes \<and> length bytes \<le> MAX_JSON_VALUE_BYTES)"
  by (auto simp: json_value_new_def Let_def and_then_Inr ok_or_Inr inspect_json_Ok not_less)

text \<open>C11
  The admission of a JSON value, for any encoder. The walk with its explicit stack always ends; it
  accepts exactly the trees with at most a million nodes, none of them more than 128 levels deep,
  whose numbers are finite, not negative zero and not integers beyond the range that JavaScript
  keeps. An admitted value is the tree with its integral numbers written as integers: every number in
  it has one spelling, and admitting it again changes nothing.\<close>

theorem json_admission_exact:
  "(json_value_new encode v = Ok w \<longleftrightarrow> w = normalize_numbers v \<and> json_nodes v \<le> MAX_JSON_NODES \<and> admissible_at 0 v
      \<and> (\<exists>bytes. encode w = Some bytes \<and> length bytes \<le> MAX_JSON_VALUE_BYTES))
   \<and> (json_value_new encode v = Ok w \<longrightarrow> json_canonical w \<and> json_value_new encode w = Ok w)"
  using normalize_numbers_canonical [of 0 v] normalize_numbers_admissible [of 0 v] normalize_canonical [of w]
  by (auto simp: json_value_new_Ok normalize_numbers_nodes)

text \<open>The double 1.0 in an array.\<close>

theorem json_admission_exact_witness:
  "json_value_new (\<lambda>_. Some ''[1]'') (JArr [JFloat 0x3FF0000000000000]) = Ok (JArr [JInt 1])
   \<and> json_canonical (JArr [JInt 1])"
proof -
  have one: "f64_value 0x3FF0000000000000 = 1" "f64_finite 0x3FF0000000000000" "\<not> f64_negative_zero 0x3FF0000000000000"
    by (simp_all add: f64_value_def f64_negative_def f64_exponent_def f64_fraction_def f64_finite_def f64_negative_zero_def)
  then have "json_value_new (\<lambda>_. Some ''[1]'') (JArr [JFloat 0x3FF0000000000000]) = Ok (JArr [JInt 1])"
    by (simp add: json_value_new_Ok MAX_JSON_NODES_def MAX_JSON_DEPTH_def MAX_JSON_VALUE_BYTES_def integral_def)
  with json_admission_exact [of "\<lambda>_. Some ''[1]''" "JArr [JFloat 0x3FF0000000000000]" "JArr [JInt 1]"]
  show ?thesis by blast
qed

end
