(* ===== verification/Json_Store.thy ===== *)
theory Json_Store
  imports Recovery_Plan Json_Value
begin

text \<open>
  The law on the store that the theorems on recovery use (\<open>plain_env\<close>) holds for the admission of
  \<open>src/json_value.rs\<close>: what is left to assume is that serde_json encodes a small plain value within
  the limit on its size, and that a SHA-256 has 32 bytes.
\<close>

text \<open>The environment whose \<open>env_admit\<close> is \<open>JsonValue::new\<close>.\<close>

definition admitting :: "session_env \<Rightarrow> session_env" where
  "admitting env = env\<lparr>env_admit := \<lambda>v. case json_value_new (env_encode env) v of Inl _ \<Rightarrow> None | Inr w \<Rightarrow> Some w\<rparr>"

lemma plain_nodes: "plain_value d v \<Longrightarrow> json_nodes v \<le> json_weight v"
proof (induction d arbitrary: v)
  case (Suc d)
  show ?case
  proof (cases v)
    case (JArr vs)
    with Suc show ?thesis by (auto simp: list_all_iff intro!: sum_list_mono)
  next
    case (JObj fs)
    have "sum_list (map (\<lambda>(_, w). json_nodes w) fs) \<le> sum_list (map (\<lambda>(k, w). length k + json_weight w) fs)"
      using Suc JObj by (intro sum_list_mono) (fastforce simp: list_all_iff intro: trans_le_add2)
    with JObj show ?thesis by simp
  qed simp_all
qed simp

lemma plain_canonical: "plain_value d v \<Longrightarrow> json_canonical v"
proof (induction d arbitrary: v)
  case (Suc d)
  then show ?case by (cases v) (auto simp: list_all_iff MAX_SAFE_INTEGER_def)
qed simp

lemma plain_admissible: "plain_value d v \<Longrightarrow> k + d \<le> Suc MAX_JSON_DEPTH \<Longrightarrow> admissible_at k v"
proof (induction d arbitrary: k v)
  case (Suc d)
  then show ?case by (cases v) (auto simp: list_all_iff MAX_SAFE_INTEGER_def)
qed simp

lemma plain_env_admitting:
  assumes "\<And>v. plain_value 8 v \<Longrightarrow> json_weight v \<le> 100000 \<Longrightarrow>
      \<exists>bytes. env_encode env v = Some bytes \<and> length bytes \<le> MAX_JSON_VALUE_BYTES"
    and "\<And>s. length (env_sha256 env s) = 32"
  shows "plain_env (admitting env)"
proof -
  have "json_value_new (env_encode env) v = Inr v" if v: "plain_value 8 v" "json_weight v \<le> 100000" for v
    using assms(1) [OF v] plain_nodes [OF v(1)] plain_canonical [OF v(1)] plain_admissible [OF v(1), of 0] v(2)
    by (simp add: json_value_new_Ok normalize_canonical MAX_JSON_NODES_def MAX_JSON_DEPTH_def)
  with assms show ?thesis by (fastforce simp: plain_env_def admitting_def)
qed

end
