(* ===== verification/Key_Decoder.thy ===== *)
theory Key_Decoder
  imports Title
begin

text \<open>
  The decoder of terminal input (\<open>src/tui/key_decoder.rs\<close>): bytes to keys, escape sequences and
  bracketed pastes. The consumer of the events is a parameter: it takes an event and its own state,
  and says whether to stop. A loop that is stopped is \<open>Inl\<close>, one that goes on is \<open>Inr\<close>, each with the
  decoder and the state of the consumer. A character is the list of its UTF-8 bytes. A failing
  allocation is not modelled.
\<close>

section \<open>Data\<close>

definition MAX_PASTE_BYTES :: nat where
  "MAX_PASTE_BYTES = 64 * 1024"

definition MAX_CSI_BYTES :: nat where
  "MAX_CSI_BYTES = 32"

abbreviation ESC_BYTE :: char where "ESC_BYTE \<equiv> CHR 0x1B"

definition PASTE_END :: string where
  "PASTE_END = ESC_BYTE # ''[201~''"

datatype Key = KeyChar string | KeyEnter | KeyNewline | KeyEscape | KeyEof | KeyTab | KeyBackTab | KeyLeft | KeyRight
  | KeyUp | KeyDown | KeyHome | KeyEnd | KeyBackspace | KeyDelete | KeyWordErase | KeyClearBefore | KeyClearAfter
  | KeyYank | KeyUndo | KeyReverseSearch | KeyInspect | KeyQuestionPrevious | KeyQuestionNext | KeyPageUp | KeyPageDown

datatype InputError = InputInvalidUtf8 | InputUnknownSequence | InputIncompleteSequence | InputSequenceTooLong
  | InputControlByte | InputPasteTooLarge | InputCapacity | InputEpochExhausted

datatype InputEvent = InputKey Key | PasteStarted | Paste string | PasteRejected InputError | InputRejected InputError

record DecodedInput =
  decoded_epoch :: u64
  decoded_event :: InputEvent

record PasteState =
  paste_bytes :: string
  paste_seen :: usize
  paste_end_match :: nat
  paste_oversized :: bool

datatype DecodeState = StGround | StEscape | StCsi string | StCsiDrain | StSs3 | StPaste PasteState

record KeyDecoder =
  kd_epoch :: u64
  kd_state :: DecodeState
  kd_utf8 :: string

definition key_decoder_default :: KeyDecoder where
  "key_decoder_default = \<lparr>kd_epoch = 0, kd_state = StGround, kd_utf8 = []\<rparr>"

section \<open>Pastes\<close>

definition paste_new :: PasteState where
  "paste_new = \<lparr>paste_bytes = [], paste_seen = 0, paste_end_match = 0, paste_oversized = False\<rparr>"

definition push_content :: "char \<Rightarrow> PasteState \<Rightarrow> PasteState" where
  "push_content b p = (let seen = saturating_add (paste_seen p) 1; p = p\<lparr>paste_seen := seen\<rparr> in
     if unat seen > MAX_PASTE_BYTES then p\<lparr>paste_oversized := True\<rparr>
     else p\<lparr>paste_bytes := paste_bytes p @ [b]\<rparr>)"

definition paste_feed :: "char \<Rightarrow> PasteState \<Rightarrow> PasteState \<times> bool" where
  "paste_feed b p =
     (if b = PASTE_END ! paste_end_match p
      then (p\<lparr>paste_end_match := Suc (paste_end_match p)\<rparr>, Suc (paste_end_match p) = length PASTE_END)
      else let p = (fold push_content (take (paste_end_match p) PASTE_END) p)\<lparr>paste_end_match := 0\<rparr> in
        if b = PASTE_END ! 0 then (p\<lparr>paste_end_match := 1\<rparr>, False) else (push_content b p, False))"

definition paste_finish :: "PasteState \<Rightarrow> InputEvent" where
  "paste_finish p =
     (if paste_oversized p then PasteRejected InputPasteTooLarge
      else if utf8_valid (paste_bytes p) then Paste (paste_bytes p)
      else PasteRejected InputInvalidUtf8)"

section \<open>The decoder\<close>

definition reset_epoch :: "KeyDecoder \<Rightarrow> InputError + KeyDecoder" where
  "reset_epoch d = (case checked_add (kd_epoch d) 1 of
      None \<Rightarrow> Err InputEpochExhausted
    | Some e \<Rightarrow> Ok (d\<lparr>kd_epoch := e, kd_state := StGround, kd_utf8 := []\<rparr>))"

definition escape_pending :: "KeyDecoder \<Rightarrow> bool" where
  "escape_pending d = (case kd_state d of StEscape \<Rightarrow> True | StCsi _ \<Rightarrow> True | StCsiDrain \<Rightarrow> True | StSs3 \<Rightarrow> True | _ \<Rightarrow> False)"

definition decoded :: "KeyDecoder \<Rightarrow> InputEvent \<Rightarrow> DecodedInput" where
  "decoded d e = \<lparr>decoded_epoch = kd_epoch d, decoded_event = e\<rparr>"

definition expire_escape :: "KeyDecoder \<Rightarrow> KeyDecoder \<times> DecodedInput option" where
  "expire_escape d = (case kd_state d of
      StEscape \<Rightarrow> (d\<lparr>kd_state := StGround\<rparr>, Some (decoded d (InputKey KeyEscape)))
    | StCsi _ \<Rightarrow> (d\<lparr>kd_state := StGround\<rparr>, Some (decoded d (InputRejected InputIncompleteSequence)))
    | StSs3 \<Rightarrow> (d\<lparr>kd_state := StGround\<rparr>, Some (decoded d (InputRejected InputIncompleteSequence)))
    | StCsiDrain \<Rightarrow> (d\<lparr>kd_state := StGround\<rparr>, None)
    | _ \<Rightarrow> (d, None))"

type_synonym 'a flow = "(KeyDecoder \<times> 'a) + (KeyDecoder \<times> 'a)"

definition emit_event :: "(DecodedInput \<Rightarrow> 'a \<Rightarrow> 'a \<times> bool) \<Rightarrow> InputEvent \<Rightarrow> KeyDecoder \<times> 'a \<Rightarrow> 'a flow" where
  "emit_event emit e = (\<lambda>(d, a). case emit (decoded d e) a of (a', stop) \<Rightarrow> if stop then Inl (d, a') else Inr (d, a'))"

definition set_state :: "DecodeState \<Rightarrow> KeyDecoder \<times> 'a \<Rightarrow> KeyDecoder \<times> 'a" where
  "set_state s = (\<lambda>(d, a). (d\<lparr>kd_state := s\<rparr>, a))"

definition set_utf8 :: "string \<Rightarrow> KeyDecoder \<times> 'a \<Rightarrow> KeyDecoder \<times> 'a" where
  "set_utf8 bs = (\<lambda>(d, a). (d\<lparr>kd_utf8 := bs\<rparr>, a))"

definition is_csi_final :: "char \<Rightarrow> bool" where
  "is_csi_final b \<longleftrightarrow> 0x40 \<le> (of_char b :: nat) \<and> (of_char b :: nat) \<le> 0x7E"

text \<open>\<open>error_len()\<close> of the bytes is \<open>None\<close>: a character that is cut off.\<close>

definition utf8_cut_off :: "string \<Rightarrow> bool" where
  "utf8_cut_off bs = (case bs of [] \<Rightarrow> False | b # t \<Rightarrow>
     (case utf8_lead (of_char b) of None \<Rightarrow> False | Some (w, lo, hi) \<Rightarrow>
        length bs < w \<and> (case t of [] \<Rightarrow> True | c # u \<Rightarrow>
          lo \<le> of_char c \<and> of_char c \<le> hi \<and> list_all is_continuation u)))"

definition feed_utf8 :: "(DecodedInput \<Rightarrow> 'a \<Rightarrow> 'a \<times> bool) \<Rightarrow> char \<Rightarrow> KeyDecoder \<times> 'a \<Rightarrow> 'a flow" where
  "feed_utf8 emit b st = (let buffer = kd_utf8 (fst st) in
     if buffer \<noteq> [] \<and> (of_char b :: nat) < 128 \<or> length buffer = 4
     then emit_event emit (InputRejected InputInvalidUtf8) (set_utf8 [] st)
     else let buffer = buffer @ [b] in
       if utf8_valid buffer
       then emit_event emit (InputKey (KeyChar (take (fst (utf8_step buffer)) buffer))) (set_utf8 [] st)
       else if \<not> utf8_cut_off buffer \<or> length buffer = 4
       then emit_event emit (InputRejected InputInvalidUtf8) (set_utf8 [] st)
       else Inr (set_utf8 buffer st))"

definition ascii_event :: "char \<Rightarrow> InputEvent" where
  "ascii_event b = (let n = (of_char b :: nat) in
     if n = 0x0D then InputKey KeyEnter
     else if n = 0x0A then InputKey KeyNewline
     else if n = 0x09 then InputKey KeyTab
     else if n = 0x01 then InputKey KeyHome
     else if n = 0x04 then InputKey KeyEof
     else if n = 0x05 then InputKey KeyEnd
     else if n = 0x08 \<or> n = 0x7F then InputKey KeyBackspace
     else if n = 0x0B then InputKey KeyClearAfter
     else if n = 0x0F then InputKey KeyInspect
     else if n = 0x0E then InputKey KeyQuestionNext
     else if n = 0x10 then InputKey KeyQuestionPrevious
     else if n = 0x12 then InputKey KeyReverseSearch
     else if n = 0x15 then InputKey KeyClearBefore
     else if n = 0x17 then InputKey KeyWordErase
     else if n = 0x19 then InputKey KeyYank
     else if n = 0x1F then InputKey KeyUndo
     else if 0x20 \<le> n \<and> n \<le> 0x7E then InputKey (KeyChar [b])
     else InputRejected InputControlByte)"

definition feed_ascii :: "(DecodedInput \<Rightarrow> 'a \<Rightarrow> 'a \<times> bool) \<Rightarrow> char \<Rightarrow> KeyDecoder \<times> 'a \<Rightarrow> 'a flow" where
  "feed_ascii emit b st = (if b = ESC_BYTE then Inr (set_state StEscape st) else emit_event emit (ascii_event b) st)"

definition feed_ground :: "(DecodedInput \<Rightarrow> 'a \<Rightarrow> 'a \<times> bool) \<Rightarrow> char \<Rightarrow> KeyDecoder \<times> 'a \<Rightarrow> 'a flow" where
  "feed_ground emit b st =
     (if kd_utf8 (fst st) \<noteq> [] \<or> 128 \<le> (of_char b :: nat) then feed_utf8 emit b st else feed_ascii emit b st)"

definition feed_escape :: "(DecodedInput \<Rightarrow> 'a \<Rightarrow> 'a \<times> bool) \<Rightarrow> char \<Rightarrow> KeyDecoder \<times> 'a \<Rightarrow> 'a flow" where
  "feed_escape emit b st =
     (if b = CHR ''['' then Inr (set_state (StCsi []) st)
      else if b = CHR ''O'' then Inr (set_state StSs3 st)
      else and_then (emit_event emit (InputKey KeyEscape) (set_state StGround st)) (feed_ground emit b))"

definition csi_event :: "string \<Rightarrow> InputEvent" where
  "csi_event s =
     (if s = ''A'' then InputKey KeyUp
      else if s = ''B'' then InputKey KeyDown
      else if s = ''C'' then InputKey KeyRight
      else if s = ''D'' then InputKey KeyLeft
      else if s = ''H'' \<or> s = ''1~'' then InputKey KeyHome
      else if s = ''F'' \<or> s = ''4~'' then InputKey KeyEnd
      else if s = ''5~'' then InputKey KeyPageUp
      else if s = ''6~'' then InputKey KeyPageDown
      else if s = ''3~'' then InputKey KeyDelete
      else if s = ''Z'' then InputKey KeyBackTab
      else if s = ''13;2u'' then InputKey KeyNewline
      else if s = ''200~'' then PasteStarted
      else InputRejected InputUnknownSequence)"

definition feed_csi :: "(DecodedInput \<Rightarrow> 'a \<Rightarrow> 'a \<times> bool) \<Rightarrow> string \<Rightarrow> char \<Rightarrow> KeyDecoder \<times> 'a \<Rightarrow> 'a flow" where
  "feed_csi emit s b st =
     (if b = ESC_BYTE then emit_event emit (InputRejected InputUnknownSequence) (set_state StEscape st)
      else if length s = MAX_CSI_BYTES
      then emit_event emit (InputRejected InputSequenceTooLong)
        (set_state (if is_csi_final b then StGround else StCsiDrain) st)
      else if \<not> is_csi_final b then
        (if \<not> (0x20 \<le> (of_char b :: nat) \<and> (of_char b :: nat) \<le> 0x3F)
         then emit_event emit (InputRejected InputUnknownSequence) (set_state StGround st)
         else Inr (set_state (StCsi (s @ [b])) st))
      else emit_event emit (csi_event (s @ [b]))
        (set_state (if s @ [b] = ''200~'' then StPaste paste_new else StGround) st))"

definition feed_ss3 :: "(DecodedInput \<Rightarrow> 'a \<Rightarrow> 'a \<times> bool) \<Rightarrow> char \<Rightarrow> KeyDecoder \<times> 'a \<Rightarrow> 'a flow" where
  "feed_ss3 emit b st = emit_event emit
     (if b = CHR ''A'' then InputKey KeyUp
      else if b = CHR ''B'' then InputKey KeyDown
      else if b = CHR ''C'' then InputKey KeyRight
      else if b = CHR ''D'' then InputKey KeyLeft
      else if b = CHR ''H'' then InputKey KeyHome
      else if b = CHR ''F'' then InputKey KeyEnd
      else InputRejected InputUnknownSequence) (set_state StGround st)"

definition feed_byte :: "(DecodedInput \<Rightarrow> 'a \<Rightarrow> 'a \<times> bool) \<Rightarrow> KeyDecoder \<times> 'a \<Rightarrow> char \<Rightarrow> 'a flow" where
  "feed_byte emit st b = (case kd_state (fst st) of
      StGround \<Rightarrow> feed_ground emit b st
    | StEscape \<Rightarrow> feed_escape emit b st
    | StCsi s \<Rightarrow> feed_csi emit s b st
    | StCsiDrain \<Rightarrow>
        if is_csi_final b then emit_event emit (InputRejected InputSequenceTooLong) (set_state StGround st)
        else Inr st
    | StSs3 \<Rightarrow> feed_ss3 emit b st
    | StPaste p \<Rightarrow> (case paste_feed b p of (p', finished) \<Rightarrow>
        if finished then emit_event emit (paste_finish p') (set_state StGround st)
        else Inr (set_state (StPaste p') st)))"

definition key_feed :: "(DecodedInput \<Rightarrow> 'a \<Rightarrow> 'a \<times> bool) \<Rightarrow> KeyDecoder \<times> 'a \<Rightarrow> string \<Rightarrow> 'a flow" where
  "key_feed emit = run (feed_byte emit)"

section \<open>Collecting the events\<close>

text \<open>The consumer that keeps every event and never stops.\<close>

definition collect :: "DecodedInput \<Rightarrow> DecodedInput list \<Rightarrow> DecodedInput list \<times> bool" where
  "collect e es = (es @ [e], False)"

lemma emit_collect [simp]: "emit_event collect e (d, es) = Inr (d, es @ [decoded d e])"
  by (simp add: emit_event_def collect_def)

lemma set_simps [simp]:
  "set_state s (d, a) = (d\<lparr>kd_state := s\<rparr>, a)" "set_utf8 bs (d, a) = (d\<lparr>kd_utf8 := bs\<rparr>, a)"
  by (simp_all add: set_state_def set_utf8_def)

definition idle :: "KeyDecoder \<Rightarrow> bool" where
  "idle d \<longleftrightarrow> kd_state d = StGround \<and> kd_utf8 d = []"

lemma decoded_update [simp]: "decoded (d\<lparr>kd_state := s\<rparr>) e = decoded d e" "decoded (d\<lparr>kd_utf8 := u\<rparr>) e = decoded d e"
  by (simp_all add: decoded_def)

lemma key_feed_append: "key_feed emit st (xs @ ys) = and_then (key_feed emit st xs) (\<lambda>st. key_feed emit st ys)"
  by (simp add: key_feed_def run_append)

lemma key_feed_simps [simp]:
  "key_feed emit st [] = Inr st" "key_feed emit st (b # bs) = and_then (feed_byte emit st b) (\<lambda>st. key_feed emit st bs)"
  by (simp_all add: key_feed_def)

lemma feed_byte_state:
  "kd_state d = StGround \<Longrightarrow> feed_byte emit (d, a) b = feed_ground emit b (d, a)"
  "kd_state d = StEscape \<Longrightarrow> feed_byte emit (d, a) b = feed_escape emit b (d, a)"
  "kd_state d = StCsi s \<Longrightarrow> feed_byte emit (d, a) b = feed_csi emit s b (d, a)"
  by (simp_all add: feed_byte_def)

lemma feed_byte_paste:
  "feed_byte emit (d\<lparr>kd_state := StPaste p\<rparr>, a) b = (case paste_feed b p of (p', finished) \<Rightarrow>
     if finished then emit_event emit (paste_finish p') (d\<lparr>kd_state := StGround\<rparr>, a)
     else Inr (d\<lparr>kd_state := StPaste p'\<rparr>, a))"
  by (simp add: feed_byte_def split: prod.split)

section \<open>A paste is one event\<close>

text \<open>After the bytes \<open>u\<close> of a paste: the last \<open>m\<close> of them may begin the end marker.\<close>

definition paste_content :: "string \<Rightarrow> PasteState \<Rightarrow> bool" where
  "paste_content c p \<longleftrightarrow> paste_bytes p = take MAX_PASTE_BYTES c \<and> paste_oversized p = (MAX_PASTE_BYTES < length c)
     \<and> unat (paste_seen p) = min (length c) (2 ^ 64 - 1)"

definition paste_holds :: "string \<Rightarrow> PasteState \<Rightarrow> bool" where
  "paste_holds u p \<longleftrightarrow> (\<exists>c. u = c @ take (paste_end_match p) PASTE_END \<and> paste_end_match p < length PASTE_END
     \<and> paste_content c p)"

lemma saturating_add_one: "unat (saturating_add w (1 :: usize)) = min (unat w + 1) (2 ^ 64 - 1)"
  using unat_less_2p [of w]
  by (auto simp: saturating_add_def checked_add_def unat_word_ariths unsigned_minus_1_eq_mask mask_eq_exp_minus_1)

lemma push_content_content:
  assumes "paste_content c p"
  shows "paste_content (c @ [b]) (push_content b p)" "paste_end_match (push_content b p) = paste_end_match p"
  using assms by (auto simp: paste_content_def push_content_def Let_def saturating_add_one MAX_PASTE_BYTES_def)

lemma fold_push_content:
  "paste_content c p \<Longrightarrow> paste_content (c @ xs) (fold push_content xs p)
     \<and> paste_end_match (fold push_content xs p) = paste_end_match p"
proof (induction xs arbitrary: c p)
  case Nil
  then show ?case by simp
next
  case (Cons x xs)
  from Cons.IH [OF push_content_content(1) [OF Cons.prems], of x] push_content_content(2) [OF Cons.prems]
  show ?case by simp
qed

lemma paste_content_update [simp]: "paste_content c (p\<lparr>paste_end_match := m\<rparr>) = paste_content c p"
  by (simp add: paste_content_def)

lemma paste_feed_holds:
  assumes "paste_holds u p" "paste_feed b p = (p', finished)"
  shows "if finished then \<exists>c. u @ [b] = c @ PASTE_END else paste_holds (u @ [b]) p'"
proof -
  let ?m = "paste_end_match p"
  from assms(1) obtain c where u: "u = c @ take ?m PASTE_END" "?m < length PASTE_END" "paste_content c p"
    by (auto simp: paste_holds_def)
  show ?thesis
  proof (cases "b = PASTE_END ! ?m")
    case True
    then have "take (Suc ?m) PASTE_END = take ?m PASTE_END @ [b]" using u(2) by (simp add: take_Suc_conv_app_nth)
    with True assms(2) u show ?thesis
      by (auto simp: paste_feed_def paste_holds_def)
  next
    case False
    let ?p = "fold push_content (take ?m PASTE_END) p"
    have p: "paste_content u ?p" using fold_push_content [OF u(3), of "take ?m PASTE_END"] u(1) by simp
    show ?thesis
    proof (cases "b = PASTE_END ! 0")
      case True
      then have "take 1 PASTE_END = [b]" by (simp add: PASTE_END_def)
      with True False assms(2) p show ?thesis
        by (auto simp: paste_feed_def paste_holds_def Let_def) (simp_all add: PASTE_END_def)
    next
      case other: False
      have "paste_content u (?p\<lparr>paste_end_match := 0\<rparr>)" using p by simp
      from push_content_content [OF this] False other assms(2) show ?thesis
        by (auto simp: paste_feed_def paste_holds_def Let_def) (simp_all add: PASTE_END_def)
    qed
  qed
qed

text \<open>What a paste of \<open>u\<close> is reported as.\<close>

definition paste_event :: "string \<Rightarrow> InputEvent" where
  "paste_event u =
     (if length u > MAX_PASTE_BYTES then PasteRejected InputPasteTooLarge
      else if utf8_valid u then Paste u else PasteRejected InputInvalidUtf8)"

lemma paste_finish_content: "paste_content u p \<Longrightarrow> paste_finish p = paste_event u"
  by (auto simp: paste_content_def paste_finish_def paste_event_def)

definition no_end_marker :: "string \<Rightarrow> bool" where
  "no_end_marker u \<longleftrightarrow> (\<nexists>a b. u = a @ PASTE_END @ b)"

lemma feed_paste_body:
  "paste_holds u p \<Longrightarrow> no_end_marker (u @ v) \<Longrightarrow> kd_state d = StPaste p \<Longrightarrow>
     \<exists>p'. key_feed emit (d, a) v = Inr (d\<lparr>kd_state := StPaste p'\<rparr>, a) \<and> paste_holds (u @ v) p'"
proof (induction v arbitrary: u p d)
  case Nil
  then have "d\<lparr>kd_state := StPaste p\<rparr> = d" by simp
  with Nil show ?case by (metis append_Nil2 key_feed_simps(1))
next
  case (Cons b v)
  obtain p' finished where f: "paste_feed b p = (p', finished)" by (cases "paste_feed b p")
  have "\<not> finished"
    using paste_feed_holds [OF Cons.prems(1) f] Cons.prems(2)
    by (auto simp: no_end_marker_def) (metis append.assoc append_Cons append_Nil)
  with paste_feed_holds [OF Cons.prems(1) f] have h: "paste_holds (u @ [b]) p'" by simp
  have "no_end_marker ((u @ [b]) @ v)" using Cons.prems(2) by simp
  from Cons.IH [OF h this, of "d\<lparr>kd_state := StPaste p'\<rparr>"] Cons.prems(3) f \<open>\<not> finished\<close>
  show ?case by (simp add: feed_byte_def)
qed

lemma feed_paste_end:
  assumes "paste_holds u p" "kd_state d = StPaste p"
  shows "key_feed collect (d, es) PASTE_END = Inr (d\<lparr>kd_state := StGround\<rparr>, es @ [decoded d (paste_event u)])"
proof -
  let ?m = "paste_end_match p"
  from assms(1) obtain c where u: "u = c @ take ?m PASTE_END" "?m < length PASTE_END" "paste_content c p"
    by (auto simp: paste_holds_def)
  obtain q where q: "paste_feed ESC_BYTE p = (q\<lparr>paste_end_match := Suc 0\<rparr>, False)" "paste_content u q"
  proof (cases ?m)
    case 0
    with u that [of p] show thesis by (simp add: paste_feed_def PASTE_END_def)
  next
    case (Suc n)
    then have "ESC_BYTE \<noteq> PASTE_END ! ?m" using u(2) by (auto simp: PASTE_END_def less_Suc_eq)
    with fold_push_content [OF u(3), of "take ?m PASTE_END"] u(1) that [of "fold push_content (take ?m PASTE_END) p"]
    show thesis by (simp add: paste_feed_def Let_def) (simp add: PASTE_END_def)
  qed
  have step:
    "paste_feed (CHR ''['') (q\<lparr>paste_end_match := Suc 0\<rparr>) = (q\<lparr>paste_end_match := 2\<rparr>, False)"
    "paste_feed (CHR ''2'') (q\<lparr>paste_end_match := 2\<rparr>) = (q\<lparr>paste_end_match := 3\<rparr>, False)"
    "paste_feed (CHR ''0'') (q\<lparr>paste_end_match := 3\<rparr>) = (q\<lparr>paste_end_match := 4\<rparr>, False)"
    "paste_feed (CHR ''1'') (q\<lparr>paste_end_match := 4\<rparr>) = (q\<lparr>paste_end_match := 5\<rparr>, False)"
    "paste_feed (CHR ''~'') (q\<lparr>paste_end_match := 5\<rparr>) = (q\<lparr>paste_end_match := 6\<rparr>, True)"
    by (simp_all add: paste_feed_def PASTE_END_def)
  have fin: "paste_finish (q\<lparr>paste_end_match := 6\<rparr>) = paste_event u"
    using q(2) by (intro paste_finish_content) simp
  have "d = d\<lparr>kd_state := StPaste p\<rparr>" using assms(2) by simp
  then have "key_feed collect (d, es) PASTE_END = key_feed collect (d\<lparr>kd_state := StPaste p\<rparr>, es) PASTE_END" by metis
  then show ?thesis
    by (simp add: PASTE_END_def feed_byte_paste q(1) step fin)
qed

section \<open>Characters and keys\<close>

lemma utf8_lead_bounds: "utf8_lead n = Some (w, lo, hi) \<Longrightarrow> 128 \<le> n \<and> 128 \<le> lo \<and> (w = 2 \<or> w = 3 \<or> w = 4)"
  by (auto simp: utf8_lead_def split: if_splits)

text \<open>The shapes of a character.\<close>

lemma utf8_char_cases:
  assumes "is_utf8_char c"
  obtains (ascii) b where "c = [b]" "(of_char b :: nat) < 128"
  | (two) b c1 lo hi where "c = [b, c1]" "utf8_lead (of_char b) = Some (2, lo, hi)" "lo \<le> of_char c1" "of_char c1 \<le> hi"
  | (three) b c1 c2 lo hi where "c = [b, c1, c2]" "utf8_lead (of_char b) = Some (3, lo, hi)" "lo \<le> of_char c1"
      "of_char c1 \<le> hi" "is_continuation c2"
  | (four) b c1 c2 c3 lo hi where "c = [b, c1, c2, c3]" "utf8_lead (of_char b) = Some (4, lo, hi)" "lo \<le> of_char c1"
      "of_char c1 \<le> hi" "is_continuation c2" "is_continuation c3"
proof -
  obtain b t where c: "c = b # t" using assms by (cases c) (simp_all add: is_utf8_char_def)
  show thesis
  proof (cases "(of_char b :: nat) < 128")
    case True
    with assms c show thesis by (auto simp: is_utf8_char_def intro: ascii)
  next
    case False
    with assms c obtain w lo hi c1 s1 where l: "utf8_lead (of_char b) = Some (w, lo, hi)" "t = c1 # s1"
      "lo \<le> of_char c1" "of_char c1 \<le> hi"
      by (auto simp: is_utf8_char_def split: option.splits list.splits if_splits)
    from utf8_lead_bounds [OF l(1)] consider "w = 2" | "w = 3" | "w = 4" by blast
    then show thesis
    proof cases
      case 1
      with assms c False l show thesis by (auto simp: is_utf8_char_def intro: two)
    next
      case 2
      with assms c False l show thesis
        by (auto simp: is_utf8_char_def split: list.splits if_splits intro: three)
    next
      case 3
      with assms c False l show thesis
        by (auto simp: is_utf8_char_def split: list.splits if_splits intro: four)
    qed
  qed
qed

lemma continuation_high: "is_continuation c \<Longrightarrow> 128 \<le> (of_char c :: nat)"
  by (simp add: is_continuation_def Let_def)

lemma utf8_valid_step: "s \<noteq> [] \<Longrightarrow> \<not> snd (utf8_step s) \<Longrightarrow> \<not> utf8_valid s"
  by (subst utf8_valid.simps) simp

lemma utf8_valid_char: "is_utf8_char c \<Longrightarrow> utf8_valid c \<and> take (fst (utf8_step c)) c = c"
  using utf8_valid_concat [of "[c]"] by (simp add: is_utf8_char_def)

definition plain_char :: "string \<Rightarrow> bool" where
  "plain_char c \<longleftrightarrow> is_utf8_char c \<and> 32 \<le> (of_char (hd c) :: nat) \<and> (of_char (hd c) :: nat) \<noteq> 127"

lemma feed_byte_idle:
  "kd_state d = StGround \<Longrightarrow> feed_byte emit (d, a) b =
     (if kd_utf8 d \<noteq> [] \<or> 128 \<le> (of_char b :: nat) then feed_utf8 emit b (d, a) else feed_ascii emit b (d, a))"
  by (simp add: feed_byte_def feed_ground_def)

text \<open>A byte that continues a character, and the one that ends it.\<close>

lemma feed_continues:
  assumes "kd_state d = StGround" "kd_utf8 d = u" "128 \<le> (of_char b :: nat)" "length u < 3"
    "\<not> snd (utf8_step (u @ [b]))" "utf8_cut_off (u @ [b])"
  shows "feed_byte emit (d, a) b = Inr (d\<lparr>kd_utf8 := u @ [b]\<rparr>, a)"
  using assms by (simp add: feed_byte_idle feed_utf8_def utf8_valid_step)

lemma feed_completes:
  assumes "kd_state d = StGround" "kd_utf8 d = u" "128 \<le> (of_char b :: nat)" "length u < 4" "is_utf8_char (u @ [b])"
  shows "feed_byte emit (d, a) b = emit_event emit (InputKey (KeyChar (u @ [b]))) (d\<lparr>kd_utf8 := []\<rparr>, a)"
  using assms utf8_valid_char [OF assms(5)] by (simp add: feed_byte_idle feed_utf8_def)

lemma feed_char:
  assumes "idle d" "plain_char c"
  shows "key_feed collect (d, es) c = Inr (d, es @ [decoded d (InputKey (KeyChar c))])"
proof -
  have g: "kd_state d = StGround" "kd_utf8 d = []" and d: "d\<lparr>kd_utf8 := []\<rparr> = d"
    using assms(1) by (simp_all add: idle_def)
  have u: "is_utf8_char c" using assms(2) by (simp add: plain_char_def)
  then show ?thesis
  proof (cases rule: utf8_char_cases)
    case (ascii b)
    with assms(2) g have "b \<noteq> ESC_BYTE" "ascii_event b = InputKey (KeyChar [b])"
      by (auto simp: plain_char_def ascii_event_def Let_def)
    with ascii g show ?thesis by (simp add: feed_byte_idle feed_ascii_def)
  next
    case (two b c1 lo hi)
    note lead = utf8_lead_bounds [OF two(2)]
    have "feed_byte collect (d, es) b = Inr (d\<lparr>kd_utf8 := [b]\<rparr>, es)"
      using two lead g by (subst feed_continues [where u = "[]"]) (simp_all add: utf8_cut_off_def)
    moreover have "feed_byte collect (d\<lparr>kd_utf8 := [b]\<rparr>, es) c1 = Inr (d, es @ [decoded d (InputKey (KeyChar c))])"
      using two lead g u d by (subst feed_completes [where u = "[b]"]) simp_all
    ultimately show ?thesis using two by simp
  next
    case (three b c1 c2 lo hi)
    note lead = utf8_lead_bounds [OF three(2)] continuation_high [OF three(5)]
    have "feed_byte collect (d, es) b = Inr (d\<lparr>kd_utf8 := [b]\<rparr>, es)"
      using three lead g by (subst feed_continues [where u = "[]"]) (simp_all add: utf8_cut_off_def)
    moreover have "feed_byte collect (d\<lparr>kd_utf8 := [b]\<rparr>, es) c1 = Inr (d\<lparr>kd_utf8 := [b, c1]\<rparr>, es)"
      using three lead g by (subst feed_continues [where u = "[b]"]) (simp_all add: utf8_cut_off_def)
    moreover have "feed_byte collect (d\<lparr>kd_utf8 := [b, c1]\<rparr>, es) c2 = Inr (d, es @ [decoded d (InputKey (KeyChar c))])"
      using three lead g u d by (subst feed_completes [where u = "[b, c1]"]) simp_all
    ultimately show ?thesis using three by simp
  next
    case (four b c1 c2 c3 lo hi)
    note lead = utf8_lead_bounds [OF four(2)] continuation_high [OF four(5)] continuation_high [OF four(6)]
    have "feed_byte collect (d, es) b = Inr (d\<lparr>kd_utf8 := [b]\<rparr>, es)"
      using four lead g by (subst feed_continues [where u = "[]"]) (simp_all add: utf8_cut_off_def)
    moreover have "feed_byte collect (d\<lparr>kd_utf8 := [b]\<rparr>, es) c1 = Inr (d\<lparr>kd_utf8 := [b, c1]\<rparr>, es)"
      using four lead g by (subst feed_continues [where u = "[b]"]) (simp_all add: utf8_cut_off_def)
    moreover have "feed_byte collect (d\<lparr>kd_utf8 := [b, c1]\<rparr>, es) c2 = Inr (d\<lparr>kd_utf8 := [b, c1, c2]\<rparr>, es)"
      using four lead g by (subst feed_continues [where u = "[b, c1]"]) (simp_all add: utf8_cut_off_def)
    moreover have "feed_byte collect (d\<lparr>kd_utf8 := [b, c1, c2]\<rparr>, es) c3 = Inr (d, es @ [decoded d (InputKey (KeyChar c))])"
      using four lead g u d by (subst feed_completes [where u = "[b, c1, c2]"]) simp_all
    ultimately show ?thesis using four by simp
  qed
qed

text \<open>What a terminal sends for a key; a lone escape is told apart only by its timing.\<close>

definition key_bytes :: "Key \<Rightarrow> string option" where
  "key_bytes k = (case k of
      KeyChar _ \<Rightarrow> None | KeyEscape \<Rightarrow> None
    | KeyEnter \<Rightarrow> Some [CHR 0x0D] | KeyNewline \<Rightarrow> Some [CHR 0x0A] | KeyTab \<Rightarrow> Some [CHR 0x09]
    | KeyEof \<Rightarrow> Some [CHR 0x04] | KeyBackspace \<Rightarrow> Some [CHR 0x7F] | KeyWordErase \<Rightarrow> Some [CHR 0x17]
    | KeyClearBefore \<Rightarrow> Some [CHR 0x15] | KeyClearAfter \<Rightarrow> Some [CHR 0x0B] | KeyYank \<Rightarrow> Some [CHR 0x19]
    | KeyUndo \<Rightarrow> Some [CHR 0x1F] | KeyReverseSearch \<Rightarrow> Some [CHR 0x12] | KeyInspect \<Rightarrow> Some [CHR 0x0F]
    | KeyQuestionPrevious \<Rightarrow> Some [CHR 0x10] | KeyQuestionNext \<Rightarrow> Some [CHR 0x0E]
    | KeyUp \<Rightarrow> Some (ESC_BYTE # ''[A'') | KeyDown \<Rightarrow> Some (ESC_BYTE # ''[B'') | KeyRight \<Rightarrow> Some (ESC_BYTE # ''[C'')
    | KeyLeft \<Rightarrow> Some (ESC_BYTE # ''[D'') | KeyHome \<Rightarrow> Some (ESC_BYTE # ''[H'') | KeyEnd \<Rightarrow> Some (ESC_BYTE # ''[F'')
    | KeyPageUp \<Rightarrow> Some (ESC_BYTE # ''[5~'') | KeyPageDown \<Rightarrow> Some (ESC_BYTE # ''[6~'') | KeyDelete \<Rightarrow> Some (ESC_BYTE # ''[3~'')
    | KeyBackTab \<Rightarrow> Some (ESC_BYTE # ''[Z''))"

lemma feed_escape_start:
  assumes "idle d"
  shows "key_feed emit (d, a) (ESC_BYTE # CHR ''['' # bs) = key_feed emit (d\<lparr>kd_state := StCsi []\<rparr>, a) bs"
  using assms by (simp add: idle_def feed_byte_idle feed_ascii_def feed_byte_state feed_escape_def)

lemma feed_csi_byte:
  "feed_byte emit (d\<lparr>kd_state := StCsi s\<rparr>, a) b = feed_csi emit s b (d\<lparr>kd_state := StCsi s\<rparr>, a)"
  by (simp add: feed_byte_def)

lemma idle_update [simp]: "idle d \<Longrightarrow> d\<lparr>kd_state := StGround\<rparr> = d"
  by (simp add: idle_def)

lemma feed_key_ascii:
  assumes "idle d" "b \<noteq> ESC_BYTE" "(of_char b :: nat) < 128" "ascii_event b = InputKey k"
  shows "key_feed collect (d, es) [b] = Inr (d, es @ [decoded d (InputKey k)])"
  using assms by (simp add: idle_def feed_byte_idle feed_ascii_def)

lemma feed_key_csi:
  assumes "idle d" "s \<in> set [''A'', ''B'', ''C'', ''D'', ''H'', ''F'', ''Z'', ''5~'', ''6~'', ''3~'']"
  shows "key_feed collect (d, es) (ESC_BYTE # CHR ''['' # s) = Inr (d, es @ [decoded d (csi_event s)])"
  unfolding feed_escape_start [OF assms(1)] using assms
  by (auto simp: feed_csi_byte feed_csi_def is_csi_final_def MAX_CSI_BYTES_def)

lemma key_bytes_shape:
  "key_bytes k \<noteq> None \<Longrightarrow>
     (let bs = the (key_bytes k) in
        if length bs = 1 then hd bs \<noteq> ESC_BYTE \<and> (of_char (hd bs) :: nat) < 128 \<and> ascii_event (hd bs) = InputKey k
        else take 2 bs = [ESC_BYTE, CHR ''[''] \<and> csi_event (drop 2 bs) = InputKey k
          \<and> drop 2 bs \<in> set [''A'', ''B'', ''C'', ''D'', ''H'', ''F'', ''Z'', ''5~'', ''6~'', ''3~''])"
  by (cases k) (simp_all add: key_bytes_def ascii_event_def csi_event_def)

lemma feed_key:
  assumes "idle d" "key_bytes k = Some bs"
  shows "key_feed collect (d, es) bs = Inr (d, es @ [decoded d (InputKey k)])"
proof (cases "length bs = 1")
  case True
  then obtain b where b: "bs = [b]" by (cases bs) auto
  with key_bytes_shape [of k] assms(2)
  have "b \<noteq> ESC_BYTE" "(of_char b :: nat) < 128" "ascii_event b = InputKey k" by simp_all
  with assms(1) show ?thesis unfolding b by (intro feed_key_ascii)
next
  case False
  with key_bytes_shape [of k] assms(2)
  have s: "take 2 bs = [ESC_BYTE, CHR ''['']" "csi_event (drop 2 bs) = InputKey k"
    "drop 2 bs \<in> set [''A'', ''B'', ''C'', ''D'', ''H'', ''F'', ''Z'', ''5~'', ''6~'', ''3~'']"
    by (simp_all add: Let_def)
  have "bs = ESC_BYTE # CHR ''['' # drop 2 bs"
    using append_take_drop_id [of 2 bs] s(1) by (metis append_Cons append_Nil)
  with feed_key_csi [OF assms(1) s(3)] s(2) show ?thesis by metis
qed

lemma feed_paste:
  assumes "idle d" "no_end_marker u"
  shows "key_feed collect (d, es) (ESC_BYTE # ''[200~'' @ u @ PASTE_END)
    = Inr (d, es @ [decoded d PasteStarted, decoded d (paste_event u)])"
proof -
  let ?d = "d\<lparr>kd_state := StPaste paste_new\<rparr>"
  let ?es = "es @ [decoded d PasteStarted]"
  have start: "key_feed collect (d, es) (ESC_BYTE # ''[200~'') = Inr (?d, ?es)"
    unfolding feed_escape_start [OF assms(1)] using assms(1)
    by (simp add: feed_csi_byte feed_csi_def is_csi_final_def MAX_CSI_BYTES_def csi_event_def)
  have "paste_holds [] paste_new"
    by (auto simp: paste_holds_def paste_content_def paste_new_def PASTE_END_def)
  from feed_paste_body [OF this _ , of u ?d collect ?es] assms(2)
  obtain p where p: "key_feed collect (?d, ?es) u = Inr (d\<lparr>kd_state := StPaste p\<rparr>, ?es)" "paste_holds u p"
    by auto
  from feed_paste_end [OF p(2), of "d\<lparr>kd_state := StPaste p\<rparr>" ?es] assms(1)
  have "key_feed collect (d\<lparr>kd_state := StPaste p\<rparr>, ?es) PASTE_END = Inr (d, ?es @ [decoded d (paste_event u)])"
    by simp
  with start p(1) show ?thesis
    using key_feed_append [of collect "(d, es)" "ESC_BYTE # ''[200~''" "u @ PASTE_END"]
    by (simp add: key_feed_append)
qed

section \<open>A script of terminal input\<close>

datatype Stroke = StrokeChar string | StrokeKey Key | StrokePaste string

definition stroke_ok :: "Stroke \<Rightarrow> bool" where
  "stroke_ok s = (case s of StrokeChar c \<Rightarrow> plain_char c | StrokeKey k \<Rightarrow> key_bytes k \<noteq> None | StrokePaste u \<Rightarrow> no_end_marker u)"

definition stroke_bytes :: "Stroke \<Rightarrow> string" where
  "stroke_bytes s = (case s of StrokeChar c \<Rightarrow> c | StrokeKey k \<Rightarrow> the (key_bytes k)
     | StrokePaste u \<Rightarrow> ESC_BYTE # ''[200~'' @ u @ PASTE_END)"

definition stroke_events :: "Stroke \<Rightarrow> InputEvent list" where
  "stroke_events s = (case s of StrokeChar c \<Rightarrow> [InputKey (KeyChar c)] | StrokeKey k \<Rightarrow> [InputKey k]
     | StrokePaste u \<Rightarrow> [PasteStarted, paste_event u])"

lemma feed_stroke:
  assumes "idle d" "stroke_ok s"
  shows "key_feed collect (d, es) (stroke_bytes s) = Inr (d, es @ map (decoded d) (stroke_events s))"
proof (cases s)
  case (StrokePaste u)
  with feed_paste [OF assms(1), of u es] assms(2) show ?thesis
    by (simp add: stroke_ok_def stroke_bytes_def stroke_events_def del: key_feed_simps)
qed (use assms in \<open>auto simp: stroke_ok_def stroke_bytes_def stroke_events_def feed_char feed_key\<close>)

lemma feed_strokes:
  "idle d \<Longrightarrow> list_all stroke_ok ss \<Longrightarrow>
    key_feed collect (d, es) (concat (map stroke_bytes ss)) = Inr (d, es @ concat (map (map (decoded d) \<circ> stroke_events) ss))"
  by (induction ss arbitrary: es) (simp_all add: key_feed_append feed_stroke)

lemma run_key_feed: "run (key_feed emit) st chunks = key_feed emit st (concat chunks)"
  by (induction chunks arbitrary: st) (simp_all add: key_feed_append)

text \<open>C12
  Terminal input is decoded to what was typed and pasted. However a terminal splits its output into
  chunks, a script of printable characters in any script, of keys, and of bracketed pastes gives
  exactly the events of the script, in order, and leaves the decoder ready. A paste of any bytes
  that do not hold its end marker is one event, its text when it is UTF-8 within the limit: nothing
  in it is ever taken for a key.\<close>

theorem terminal_input_decoded:
  assumes "idle d" and "list_all stroke_ok script" and "concat chunks = concat (map stroke_bytes script)"
  shows "run (key_feed collect) (d, []) chunks = Ok (d, map (decoded d) (concat (map stroke_events script)))"
  using feed_strokes [OF assms(1,2), of "[]"] assms(3) by (simp add: run_key_feed map_concat comp_def)

text \<open>A letter of two bytes cut in two, an arrow, and a paste that holds the bytes of a line end and of
  an arrow.\<close>

theorem terminal_input_decoded_witness:
  "run (key_feed collect) (key_decoder_default, [])
     [[CHR 0xC3], [CHR 0xA9, CHR 0x1B], ''[A'', CHR 0x1B # ''[200~ls'' @ [CHR 0x0A], CHR 0x1B # ''[A'' @ CHR 0x1B # ''[201~'']
   = Ok (key_decoder_default, map (decoded key_decoder_default)
       [InputKey (KeyChar [CHR 0xC3, CHR 0xA9]), InputKey KeyUp, PasteStarted,
        Paste (''ls'' @ CHR 0x0A # CHR 0x1B # ''[A'')])"
proof -
  let ?script = "[StrokeChar [CHR 0xC3, CHR 0xA9], StrokeKey KeyUp, StrokePaste (''ls'' @ CHR 0x0A # CHR 0x1B # ''[A'')]"
  have marker: "no_end_marker (''ls'' @ CHR 0x0A # CHR 0x1B # ''[A'')"
    by (auto simp: no_end_marker_def PASTE_END_def Cons_eq_append_conv append_eq_Cons_conv)
  have valid: "utf8_valid (''ls'' @ CHR 0x0A # CHR 0x1B # ''[A'')" by (rule utf8_valid_ascii) simp
  have "idle key_decoder_default" by (simp add: idle_def key_decoder_default_def)
  moreover have "list_all stroke_ok ?script"
    using marker by (simp add: stroke_ok_def plain_char_def is_utf8_char_def utf8_lead_def key_bytes_def)
  ultimately show ?thesis
    using valid terminal_input_decoded [of key_decoder_default ?script
      "[[CHR 0xC3], [CHR 0xA9, CHR 0x1B], ''[A'', CHR 0x1B # ''[200~ls'' @ [CHR 0x0A], CHR 0x1B # ''[A'' @ CHR 0x1B # ''[201~'']"]
    by (simp add: stroke_bytes_def stroke_events_def key_bytes_def PASTE_END_def paste_event_def MAX_PASTE_BYTES_def)
qed

end
