(* ===== verification/Llm_Build.thy ===== *)
theory Llm_Build
  imports Message_Build Json_Store Stream
begin

text \<open>
  The parsers and constructors of the vocabulary of model calls (\<open>src/model/llm.rs\<close>,
  \<open>src/model/mod.rs\<close>): failures, finish reasons, usage and stream chunks. A constructor builds a JSON
  object, whose keys serde keeps in order, and parses it; the parser admits the value first. The
  text of serde's own errors is left out of \<open>InvalidShape\<close>.
\<close>

section \<open>Typed fields\<close>

definition json_new :: "session_env \<Rightarrow> json \<Rightarrow> ModelError + json" where
  "json_new env v = ok_or (env_admit env v) JsonError"

definition required_typed :: "(json \<Rightarrow> 'e + 'a) \<Rightarrow> (string \<times> json) list \<Rightarrow> string \<Rightarrow> string \<Rightarrow> ModelError + 'a" where
  "required_typed de fs k subject = (case map_of fs k of
      None \<Rightarrow> Err (InvalidShape subject (''missing '' @ k))
    | Some v \<Rightarrow> map_err (\<lambda>_. InvalidShape subject (''invalid '' @ k)) (de v))"

definition optional_parsed :: "(json \<Rightarrow> 'e + 'a) \<Rightarrow> (string \<times> json) list \<Rightarrow> string \<Rightarrow> string \<Rightarrow> ModelError + 'a option" where
  "optional_parsed de fs k subject = (case map_of fs k of
      None \<Rightarrow> Ok None
    | Some v \<Rightarrow> map_err (\<lambda>_. InvalidShape subject (''invalid '' @ k)) (and_then (de v) (\<lambda>x. Ok (Some x))))"

text \<open>\<open>deserialize_safe_u64\<close>\<close>

definition safe_u64 :: "bool \<Rightarrow> json \<Rightarrow> unit + u64" where
  "safe_u64 positive v = (case v of
      JInt i \<Rightarrow> if 0 \<le> i \<and> i \<le> 9007199254740991 \<and> \<not> (positive \<and> i = 0) then Ok (word_of_int i) else Err ()
    | JFloat b \<Rightarrow>
        if \<not> f64_finite b \<or> \<not> integral (f64_value b) \<or> f64_value b < 0 \<or> f64_negative_zero b
          \<or> safe_bound < f64_value b \<or> positive \<and> f64_value b = 0
        then Err () else Ok (word_of_int \<lfloor>f64_value b\<rfloor>)
    | _ \<Rightarrow> Err ())"

definition positive_finite :: "json \<Rightarrow> unit + FiniteNumber" where
  "positive_finite v = (case v of
      JInt i \<Rightarrow> if 0 < i then Ok (of_int i) else Err ()
    | JFloat b \<Rightarrow> if f64_finite b \<and> 0 < f64_value b then Ok (f64_value b) else Err ()
    | _ \<Rightarrow> Err ())"

definition status_u16 :: "json \<Rightarrow> unit + 16 word" where
  "status_u16 v = (case v of JInt i \<Rightarrow> if 0 \<le> i \<and> i < 65536 then Ok (word_of_int i) else Err () | _ \<Rightarrow> Err ())"

definition safe_integer_new :: "u64 \<Rightarrow> ModelError + u64" where
  "safe_integer_new n = (if n > 9007199254740991 then Err JsonError else Ok n)"

section \<open>Failures\<close>

definition validate_failure_parts :: "string \<Rightarrow> string \<Rightarrow> 16 word option \<Rightarrow> string option \<Rightarrow> ModelError + unit" where
  "validate_failure_parts message code status request_id =
     (if message = [] then Err (InvalidFailure ''message must not be empty'')
      else if code = [] then Err (InvalidFailure ''code must not be empty'')
      else if (case status of None \<Rightarrow> False | Some s \<Rightarrow> \<not> (100 \<le> s \<and> s \<le> 599))
      then Err (InvalidFailure ''status must be an integer from 100 through 599'')
      else if request_id = Some [] then Err (InvalidFailure ''requestId must not be empty'')
      else Ok ())"

definition failure_from_value :: "session_env \<Rightarrow> json \<Rightarrow> ModelError + LlmFailure" where
  "failure_from_value env v =
     and_then (json_new env v) (\<lambda>raw.
     and_then (object_fields raw ''LLM failure'') (\<lambda>fs.
     and_then (required_string fs ''message'' ''LLM failure'') (\<lambda>message.
     and_then (required_string fs ''code'' ''LLM failure'') (\<lambda>code.
     and_then (optional_parsed status_u16 fs ''status'' ''LLM failure'') (\<lambda>status.
     and_then (optional_parsed positive_finite fs ''providerRetryAfterMs'' ''LLM failure'') (\<lambda>delay.
     and_then (optional_string fs ''requestId'' ''LLM failure'') (\<lambda>request_id.
     and_then (validate_failure_parts message code status request_id) (\<lambda>_.
       Ok \<lparr>failure_message = message, failure_code = code, failure_status = status,
           failure_retry_after_ms = delay, failure_request_id = request_id, failure_raw = raw\<rparr>))))))))"

definition failure_new :: "session_env \<Rightarrow> string \<Rightarrow> string \<Rightarrow> ModelError + LlmFailure" where
  "failure_new env message code =
     and_then (validate_failure_parts message code None None) (\<lambda>_.
     and_then (json_new env (JObj [(''code'', JStr code), (''message'', JStr message)])) (\<lambda>raw.
       Ok \<lparr>failure_message = message, failure_code = code, failure_status = None,
           failure_retry_after_ms = None, failure_request_id = None, failure_raw = raw\<rparr>))"

section \<open>Finish reasons\<close>

definition finish_reason_from_value :: "session_env \<Rightarrow> json \<Rightarrow> ModelError + FinishReason" where
  "finish_reason_from_value env v =
     and_then (json_new env v) (\<lambda>raw.
     and_then (object_fields raw ''finish reason'') (\<lambda>fs.
     and_then (required_string fs ''kind'' ''finish reason'') (\<lambda>tag.
     and_then
       (if tag = ''stop'' then Ok FinishStop
        else if tag = ''tool-calls'' then Ok FinishToolCalls
        else if tag = ''max-tokens'' then Ok FinishMaxTokens
        else if tag = ''aborted''
        then and_then (required_typed (failure_from_value env) fs ''failure'' ''finish reason'') (\<lambda>f. Ok (FinishAborted f))
        else if tag = ''error''
        then and_then (required_typed (failure_from_value env) fs ''failure'' ''finish reason'') (\<lambda>f. Ok (FinishError f))
        else Ok (FinishOther tag))
       (\<lambda>kind. Ok \<lparr>finish_kind = kind, finish_raw = raw\<rparr>))))"

definition finish_reason_plain :: "session_env \<Rightarrow> string \<Rightarrow> ModelError + FinishReason" where
  "finish_reason_plain env tag = finish_reason_from_value env (JObj [(''kind'', JStr tag)])"

definition finish_reason_error :: "session_env \<Rightarrow> LlmFailure \<Rightarrow> ModelError + FinishReason" where
  "finish_reason_error env f =
     finish_reason_from_value env (JObj [(''failure'', failure_raw f), (''kind'', JStr ''error'')])"

definition finish_reason_aborted :: "session_env \<Rightarrow> LlmFailure \<Rightarrow> ModelError + FinishReason" where
  "finish_reason_aborted env f =
     finish_reason_from_value env (JObj [(''failure'', failure_raw f), (''kind'', JStr ''aborted'')])"

section \<open>Usage\<close>

definition optional_count :: "string \<Rightarrow> u64 option \<Rightarrow> (string \<times> json) list" where
  "optional_count k c = (case c of None \<Rightarrow> [] | Some n \<Rightarrow> [(k, JInt (uint n))])"

definition token_usage_from_parts ::
    "session_env \<Rightarrow> u64 \<Rightarrow> u64 \<Rightarrow> u64 option \<Rightarrow> u64 option \<Rightarrow> u64 option \<Rightarrow> ModelError + TokenUsage" where
  "token_usage_from_parts env input output cache_read cache_write reasoning =
     and_then (json_new env (JObj (optional_count ''cacheReadTokens'' cache_read
         @ optional_count ''cacheWriteTokens'' cache_write
         @ [(''inputTokens'', JInt (uint input)), (''outputTokens'', JInt (uint output))]
         @ optional_count ''reasoningTokens'' reasoning))) (\<lambda>raw.
       Ok \<lparr>input_tokens = input, output_tokens = output, cache_read_tokens = cache_read,
           cache_write_tokens = cache_write, reasoning_tokens = reasoning, usage_raw = raw\<rparr>)"

definition token_usage_new :: "session_env \<Rightarrow> u64 \<Rightarrow> u64 \<Rightarrow> ModelError + TokenUsage" where
  "token_usage_new env input output =
     and_then (safe_integer_new input) (\<lambda>i. and_then (safe_integer_new output) (\<lambda>j.
       token_usage_from_parts env i j None None None))"

definition token_usage_from_value :: "session_env \<Rightarrow> json \<Rightarrow> ModelError + TokenUsage" where
  "token_usage_from_value env v =
     and_then (json_new env v) (\<lambda>raw.
     and_then (object_fields raw ''token usage'') (\<lambda>fs.
     and_then (required_typed (safe_u64 False) fs ''inputTokens'' ''token usage'') (\<lambda>input.
     and_then (required_typed (safe_u64 False) fs ''outputTokens'' ''token usage'') (\<lambda>output.
     and_then (optional_parsed (safe_u64 False) fs ''cacheReadTokens'' ''token usage'') (\<lambda>cache_read.
     and_then (optional_parsed (safe_u64 False) fs ''cacheWriteTokens'' ''token usage'') (\<lambda>cache_write.
     and_then (optional_parsed (safe_u64 False) fs ''reasoningTokens'' ''token usage'') (\<lambda>reasoning.
     and_then (token_usage_from_parts env input output cache_read cache_write reasoning) (\<lambda>usage.
       Ok (usage\<lparr>usage_raw := raw\<rparr>)))))))))"

section \<open>Stream chunks\<close>

definition block_type_of_name :: "string \<Rightarrow> ContentBlockType" where
  "block_type_of_name s =
     (if s = ''text'' then TypeText
      else if s = ''reasoning'' then TypeReasoning
      else if s = ''image'' then TypeImage
      else if s = ''tool-call'' then TypeToolCall
      else if s = ''tool-result'' then TypeToolResult
      else TypeOther s)"

definition block_type_from_json :: "json \<Rightarrow> unit + ContentBlockType" where
  "block_type_from_json v = (case v of JStr s \<Rightarrow> Ok (block_type_of_name s) | _ \<Rightarrow> Err ())"

abbreviation stream_chunk_subject :: string where
  "stream_chunk_subject \<equiv> ''stream chunk''"

definition chunk_kind_of :: "session_env \<Rightarrow> serde_parts \<Rightarrow> (string \<times> json) list \<Rightarrow> string \<Rightarrow> ModelError + StreamChunkKind" where
  "chunk_kind_of env sp fs tag =
     (let index = required_typed (safe_u64 False) fs ''index'' stream_chunk_subject in
      if tag = ''block-start'' then
        and_then index (\<lambda>i. and_then (required_typed block_type_from_json fs ''blockType'' stream_chunk_subject) (\<lambda>t.
          Ok (BlockStart i t)))
      else if tag = ''text-delta'' then
        and_then index (\<lambda>i. and_then (required_string fs ''text'' stream_chunk_subject) (\<lambda>s. Ok (TextDelta i s)))
      else if tag = ''reasoning-delta'' then
        and_then index (\<lambda>i. and_then (required_string fs ''text'' stream_chunk_subject) (\<lambda>s. Ok (ReasoningDelta i s)))
      else if tag = ''tool-call-delta'' then
        and_then index (\<lambda>i. and_then (required_string fs ''id'' stream_chunk_subject) (\<lambda>c.
          and_then (optional_string fs ''name'' stream_chunk_subject) (\<lambda>name.
          and_then (required_string fs ''argumentsDelta'' stream_chunk_subject) (\<lambda>arguments.
            Ok (ToolCallDelta i c name arguments)))))
      else if tag = ''block-end'' then
        and_then index (\<lambda>i. and_then (required_typed (content_block_from_value env sp) fs ''block'' stream_chunk_subject) (\<lambda>b.
          Ok (BlockEnd i b)))
      else if tag = ''usage'' then
        and_then (required_typed (token_usage_from_value env) fs ''usage'' stream_chunk_subject) (\<lambda>u. Ok (UsageChunk u))
      else if tag = ''finish'' then
        and_then (required_typed (finish_reason_from_value env) fs ''reason'' stream_chunk_subject) (\<lambda>r.
          and_then (optional_json (env_admit env) fs ''replayState'') (\<lambda>state. Ok (Finish r state)))
      else Ok (OtherChunk tag))"

definition stream_chunk_from_value :: "session_env \<Rightarrow> serde_parts \<Rightarrow> json \<Rightarrow> ModelError + StreamChunk" where
  "stream_chunk_from_value env sp v =
     and_then (json_new env v) (\<lambda>raw.
     and_then (object_fields raw stream_chunk_subject) (\<lambda>fs.
     and_then (required_string fs ''type'' stream_chunk_subject) (\<lambda>tag.
     and_then (chunk_kind_of env sp fs tag) (\<lambda>kind. Ok \<lparr>chunk_kind = kind, chunk_raw = raw\<rparr>))))"

text \<open>The constructors; \<open>type_name\<close> is the serialisation of a block type.\<close>

definition chunk_block_start :: "session_env \<Rightarrow> serde_parts \<Rightarrow> u64 \<Rightarrow> ContentBlockType \<Rightarrow> ModelError + StreamChunk" where
  "chunk_block_start env sp index t = and_then (safe_integer_new index) (\<lambda>i.
     stream_chunk_from_value env sp (JObj [(''blockType'', JStr (type_name t)), (''index'', JInt (uint i)),
       (''type'', JStr ''block-start'')]))"

definition chunk_text_delta :: "session_env \<Rightarrow> serde_parts \<Rightarrow> u64 \<Rightarrow> string \<Rightarrow> ModelError + StreamChunk" where
  "chunk_text_delta env sp index s = and_then (safe_integer_new index) (\<lambda>i.
     stream_chunk_from_value env sp (JObj [(''index'', JInt (uint i)), (''text'', JStr s), (''type'', JStr ''text-delta'')]))"

definition chunk_reasoning_delta :: "session_env \<Rightarrow> serde_parts \<Rightarrow> u64 \<Rightarrow> string \<Rightarrow> ModelError + StreamChunk" where
  "chunk_reasoning_delta env sp index s = and_then (safe_integer_new index) (\<lambda>i.
     stream_chunk_from_value env sp (JObj [(''index'', JInt (uint i)), (''text'', JStr s), (''type'', JStr ''reasoning-delta'')]))"

definition chunk_tool_call_delta ::
    "session_env \<Rightarrow> serde_parts \<Rightarrow> u64 \<Rightarrow> call_id \<Rightarrow> string option \<Rightarrow> string \<Rightarrow> ModelError + StreamChunk" where
  "chunk_tool_call_delta env sp index c name arguments = and_then (safe_integer_new index) (\<lambda>i.
     stream_chunk_from_value env sp (JObj ([(''argumentsDelta'', JStr arguments), (''id'', JStr c), (''index'', JInt (uint i))]
       @ (case name of None \<Rightarrow> [] | Some n \<Rightarrow> [(''name'', JStr n)]) @ [(''type'', JStr ''tool-call-delta'')])))"

definition chunk_block_end :: "session_env \<Rightarrow> serde_parts \<Rightarrow> u64 \<Rightarrow> ContentBlock \<Rightarrow> ModelError + StreamChunk" where
  "chunk_block_end env sp index b = and_then (safe_integer_new index) (\<lambda>i.
     stream_chunk_from_value env sp (JObj [(''block'', block_raw b), (''index'', JInt (uint i)), (''type'', JStr ''block-end'')]))"

definition chunk_usage :: "session_env \<Rightarrow> serde_parts \<Rightarrow> TokenUsage \<Rightarrow> ModelError + StreamChunk" where
  "chunk_usage env sp u = stream_chunk_from_value env sp (JObj [(''type'', JStr ''usage''), (''usage'', usage_raw u)])"

definition chunk_finish :: "session_env \<Rightarrow> serde_parts \<Rightarrow> FinishReason \<Rightarrow> json option \<Rightarrow> ModelError + StreamChunk" where
  "chunk_finish env sp r state = stream_chunk_from_value env sp (JObj ([(''reason'', finish_raw r)]
     @ (case state of None \<Rightarrow> [] | Some s \<Rightarrow> [(''replayState'', s)]) @ [(''type'', JStr ''finish'')]))"

fun is_token_delta :: "StreamChunkKind \<Rightarrow> bool" where
  "is_token_delta (TextDelta _ s) = (s \<noteq> [])"
| "is_token_delta (ReasoningDelta _ s) = (s \<noteq> [])"
| "is_token_delta (ToolCallDelta _ _ name arguments) = (name \<noteq> None \<or> arguments \<noteq> [])"
| "is_token_delta _ = False"

text \<open>Blocks.\<close>

definition content_block_reasoning :: "session_env \<Rightarrow> serde_parts \<Rightarrow> string \<Rightarrow> ModelError + ContentBlock" where
  "content_block_reasoning env sp s =
     content_block_from_value env sp (JObj [(''text'', JStr s), (''type'', JStr ''reasoning'')])"

definition content_block_tool_call :: "session_env \<Rightarrow> serde_parts \<Rightarrow> call_id \<Rightarrow> string \<Rightarrow> string \<Rightarrow> ModelError + ContentBlock" where
  "content_block_tool_call env sp i name arguments =
     content_block_from_value env sp (JObj [(''arguments'', JStr arguments), (''id'', JStr i), (''name'', JStr name),
       (''type'', JStr ''tool-call'')])"

section \<open>What is built is what is read\<close>

text \<open>The law of the store that the constructors rest on: a value is admitted with its numbers
  normalised. It holds for the real admission.\<close>

definition admits_normal :: "session_env \<Rightarrow> bool" where
  "admits_normal env \<longleftrightarrow> (\<forall>v w. env_admit env v = Some w \<longrightarrow> w = normalize_numbers v)"

lemma admits_normalD: "admits_normal env \<Longrightarrow> env_admit env v = Some w \<Longrightarrow> w = normalize_numbers v"
  by (simp add: admits_normal_def)

lemma admits_normal_admitting: "admits_normal (admitting env)"
  by (auto simp: admits_normal_def admitting_def json_value_new_def result_simps Let_def
      split: sum.splits if_splits)

lemma json_new_normal: "admits_normal env \<Longrightarrow> json_new env v = Inr w \<Longrightarrow> w = normalize_numbers v"
  by (auto simp: json_new_def result_simps dest: admits_normalD)

lemma safe_integer_new_Inr: "safe_integer_new n = Inr i \<longleftrightarrow> i = n \<and> n \<le> 9007199254740991"
  by (auto simp: safe_integer_new_def not_le)

lemma safe_u64_uint: "i \<le> 9007199254740991 \<Longrightarrow> safe_u64 False (JInt (uint i)) = Inr i"
proof -
  assume "i \<le> 9007199254740991"
  then have "uint i \<le> 9007199254740991" by (simp add: word_le_def)
  then show ?thesis by (simp add: safe_u64_def)
qed

lemma block_type_of_type_name:
  "t \<in> {TypeText, TypeReasoning, TypeImage, TypeToolCall, TypeToolResult} \<Longrightarrow> block_type_of_name (type_name t) = t"
  by (auto simp: block_type_of_name_def)

text \<open>Reading back a chunk that was built.\<close>

lemmas chunk_reads = stream_chunk_from_value_def chunk_kind_of_def required_typed_def object_fields_def
  required_string_def optional_string_def get_str_def result_simps safe_u64_uint safe_integer_new_Inr Let_def

lemma chunk_block_start_kind:
  assumes "admits_normal env" and "chunk_block_start env sp i t = Inr c"
    and "t \<in> {TypeText, TypeReasoning, TypeImage, TypeToolCall, TypeToolResult}"
  shows "chunk_kind c = BlockStart i t"
  using assms(2) block_type_of_type_name [OF assms(3)]
  by (auto simp: chunk_block_start_def chunk_reads block_type_from_json_def dest!: json_new_normal [OF assms(1)])

lemma chunk_text_delta_kind:
  assumes "admits_normal env" and "chunk_text_delta env sp i s = Inr c"
  shows "chunk_kind c = TextDelta i s"
  using assms(2) by (auto simp: chunk_text_delta_def chunk_reads dest!: json_new_normal [OF assms(1)])

lemma chunk_reasoning_delta_kind:
  assumes "admits_normal env" and "chunk_reasoning_delta env sp i s = Inr c"
  shows "chunk_kind c = ReasoningDelta i s"
  using assms(2) by (auto simp: chunk_reasoning_delta_def chunk_reads dest!: json_new_normal [OF assms(1)])

lemma chunk_tool_call_delta_kind:
  assumes "admits_normal env" and "chunk_tool_call_delta env sp i call name arguments = Inr c"
  shows "chunk_kind c = ToolCallDelta i call name arguments"
  using assms(2)
  by (cases name) (auto simp: chunk_tool_call_delta_def chunk_reads dest!: json_new_normal [OF assms(1)])

lemma content_block_from_value_kind:
  "admits_normal env \<Longrightarrow> content_block_from_value env sp v = Inr b \<Longrightarrow>
     block_raw b = normalize_numbers v \<and> block_kind b = parse_content_block sp (normalize_numbers v)"
  by (auto simp: content_block_from_value_def result_simps dest: admits_normalD)

lemma content_block_text_kind:
  "admits_normal env \<Longrightarrow> content_block_text env sp s = Inr b \<Longrightarrow>
     block_raw b = JObj [(''text'', JStr s), (''type'', JStr ''text'')] \<and> block_kind b = Text s"
  by (auto simp: content_block_text_def parse_content_block_def get_str_def Let_def dest!: content_block_from_value_kind)

lemma content_block_reasoning_kind:
  "admits_normal env \<Longrightarrow> content_block_reasoning env sp s = Inr b \<Longrightarrow>
     block_raw b = JObj [(''text'', JStr s), (''type'', JStr ''reasoning'')] \<and> block_kind b = Reasoning s"
  by (auto simp: content_block_reasoning_def parse_content_block_def get_str_def Let_def dest!: content_block_from_value_kind)

lemma content_block_tool_call_kind:
  "admits_normal env \<Longrightarrow> content_block_tool_call env sp i name arguments = Inr b \<Longrightarrow>
     block_raw b = JObj [(''arguments'', JStr arguments), (''id'', JStr i), (''name'', JStr name), (''type'', JStr ''tool-call'')]
     \<and> block_kind b = ToolCallBlock i name arguments"
  by (auto simp: content_block_tool_call_def parse_content_block_def parse_tool_call_def get_str_def Let_def
      dest!: content_block_from_value_kind)

text \<open>A block that holds no number to normalise is read back as it is.\<close>

lemma chunk_block_end_kind:
  assumes "admits_normal env" and "chunk_block_end env sp i b = Inr c"
    and "normalize_numbers (block_raw b) = block_raw b" and "block_kind b = parse_content_block sp (block_raw b)"
  shows "chunk_kind c = BlockEnd i b"
  using assms(2,3,4)
  by (auto simp: chunk_block_end_def chunk_reads intro: ContentBlock.equality
      dest!: json_new_normal [OF assms(1)] content_block_from_value_kind [OF assms(1)])

lemma chunk_usage_kind:
  assumes "admits_normal env" and "chunk_usage env sp u = Inr c"
  shows "is_usage (chunk_kind c)"
  using assms(2) by (auto simp: chunk_usage_def chunk_reads dest!: json_new_normal [OF assms(1)])

lemma chunk_finish_kind:
  assumes "admits_normal env" and "chunk_finish env sp r state = Inr c"
  shows "is_finish (chunk_kind c)"
  using assms(2)
  by (cases state) (auto simp: chunk_finish_def chunk_reads dest!: json_new_normal [OF assms(1)])

end
