(* ===== verification/Translate.thy ===== *)
theory Translate
  imports Llm_Build
begin

text \<open>
  DeepSeek's streamed JSON becomes provider-neutral chunks (\<open>src/provider/deepseek/response.rs\<close>). The
  reader of one payload, which serde derives from the wire types, is the parameter \<open>read\<close>. A state is
  not used again after an error, so an error does not carry one. Counts of bytes are natural numbers:
  where \<open>checked_add\<close> would fail on a \<open>usize\<close> the limit is exceeded as well, with the same error.
\<close>

section \<open>Data\<close>

definition MAX_DEEPSEEK_BLOCKS :: nat where
  "MAX_DEEPSEEK_BLOCKS = 128"

definition MAX_DEEPSEEK_OUTPUT_BYTES :: nat where
  "MAX_DEEPSEEK_OUTPUT_BYTES = 4 * 1024 * 1024"

definition MAX_DEEPSEEK_EMITTED_BYTES :: nat where
  "MAX_DEEPSEEK_EMITTED_BYTES = 10 * 1024 * 1024"

definition MAX_WIRE_CHOICES :: nat where
  "MAX_WIRE_CHOICES = 128"

definition MAX_TOOL_DELTAS_PER_CHOICE :: nat where
  "MAX_TOOL_DELTAS_PER_CHOICE = 128"

definition MAX_UNKNOWN_FINISH_BYTES :: nat where
  "MAX_UNKNOWN_FINISH_BYTES = 128"

record WireFunctionDelta =
  wire_function_name :: "string option"
  wire_arguments :: "string option"

record WireToolCallDelta =
  wire_index :: u64
  wire_id :: "string option"
  wire_function :: "WireFunctionDelta option"

record WireDelta =
  wire_content :: "string option"
  wire_reasoning :: "string option"
  wire_tool_calls :: "WireToolCallDelta list option"

record WireChoice =
  wire_delta :: "WireDelta option"
  wire_finish :: "string option"

record WireUsage =
  prompt_tokens :: u64
  completion_tokens :: u64
  prompt_cache_hit_tokens :: "u64 option"
  prompt_details :: "u64 option option"
  completion_details :: "u64 option option"

record WireChunk =
  wire_choices :: "WireChoice list option"
  wire_usage :: "WireUsage option"

datatype TranslateError =
    MalformedResponse
  | TooManyChoices nat
  | TooManyToolDeltas nat
  | TooManyBlocks nat
  | OutputTooLarge nat
  | EmittedTooLarge nat
  | InvalidUsage
  | AfterDone
  | TranslateModel ModelError
  | TranslateJson

datatype OpenKind = OpenText | OpenReasoning | OpenToolCall

fun open_block_type :: "OpenKind \<Rightarrow> ContentBlockType" where
  "open_block_type OpenText = TypeText"
| "open_block_type OpenReasoning = TypeReasoning"
| "open_block_type OpenToolCall = TypeToolCall"

record OpenBlock =
  internal_index :: u64
  open_kind :: OpenKind
  open_text :: string
  open_call_id :: "string option"
  open_name :: "string option"

record DeepSeekTranslator =
  tr_blocks :: "OpenBlock list"
  tr_reasoning :: "nat option"
  tr_text :: "nat option"
  tr_tools :: "u64 \<rightharpoonup> nat"
  tr_pending_finish :: "string option"
  tr_pending_usage :: "TokenUsage option"
  tr_retained :: nat
  tr_emitted :: nat
  tr_done :: bool

definition translator_default :: DeepSeekTranslator where
  "translator_default = \<lparr>tr_blocks = [], tr_reasoning = None, tr_text = None, tr_tools = Map.empty,
     tr_pending_finish = None, tr_pending_usage = None, tr_retained = 0, tr_emitted = 0, tr_done = False\<rparr>"

text \<open>The translator and the chunks it has put out.\<close>

type_synonym translation = "DeepSeekTranslator \<times> StreamChunk list"

abbreviation model_result :: "ModelError + 'a \<Rightarrow> TranslateError + 'a" where
  "model_result \<equiv> map_err TranslateModel"

section \<open>Operations\<close>

definition tr_emit :: "session_env \<Rightarrow> translation \<Rightarrow> StreamChunk \<Rightarrow> TranslateError + translation" where
  "tr_emit env = (\<lambda>(s, out) c.
     let total = tr_emitted s + env_encoded_len env (chunk_raw c) in
     if total > MAX_DEEPSEEK_EMITTED_BYTES then Err (EmittedTooLarge MAX_DEEPSEEK_EMITTED_BYTES)
     else Ok (s\<lparr>tr_emitted := total\<rparr>, out @ [c]))"

definition tr_open :: "session_env \<Rightarrow> serde_parts \<Rightarrow> OpenKind \<Rightarrow> translation \<Rightarrow> TranslateError + translation \<times> nat" where
  "tr_open env sp kind = (\<lambda>(s, out).
     let n = length (tr_blocks s) in
     if n = MAX_DEEPSEEK_BLOCKS then Err (TooManyBlocks MAX_DEEPSEEK_BLOCKS)
     else and_then (model_result (chunk_block_start env sp (of_nat n) (open_block_type kind))) (\<lambda>c.
       and_then (tr_emit env (s, out) c) (\<lambda>(s, out).
         Ok ((s\<lparr>tr_blocks := tr_blocks s @ [\<lparr>internal_index = of_nat n, open_kind = kind, open_text = [],
             open_call_id = None, open_name = None\<rparr>]\<rparr>, out), n))))"

text \<open>The block at hand, or a new one, which is then remembered.\<close>

definition tr_block :: "session_env \<Rightarrow> serde_parts \<Rightarrow> OpenKind \<Rightarrow> nat option
    \<Rightarrow> (nat \<Rightarrow> DeepSeekTranslator \<Rightarrow> DeepSeekTranslator) \<Rightarrow> translation \<Rightarrow> TranslateError + translation \<times> nat" where
  "tr_block env sp kind found remember t = (case found of
      Some i \<Rightarrow> Ok (t, i)
    | None \<Rightarrow> and_then (tr_open env sp kind t) (\<lambda>((s, out), i). Ok ((remember i s, out), i)))"

definition update_block :: "nat \<Rightarrow> (OpenBlock \<Rightarrow> OpenBlock) \<Rightarrow> DeepSeekTranslator \<Rightarrow> DeepSeekTranslator" where
  "update_block i f s = s\<lparr>tr_blocks := (tr_blocks s)[i := f (tr_blocks s ! i)]\<rparr>"

definition tr_append :: "nat \<Rightarrow> string \<Rightarrow> DeepSeekTranslator \<Rightarrow> TranslateError + DeepSeekTranslator" where
  "tr_append i fragment s =
     (let total = tr_retained s + length fragment in
      if total > MAX_DEEPSEEK_OUTPUT_BYTES then Err (OutputTooLarge MAX_DEEPSEEK_OUTPUT_BYTES)
      else Ok (update_block i (\<lambda>b. b\<lparr>open_text := open_text b @ fragment\<rparr>) (s\<lparr>tr_retained := total\<rparr>)))"

definition replace_retained :: "nat \<Rightarrow> nat \<Rightarrow> DeepSeekTranslator \<Rightarrow> TranslateError + DeepSeekTranslator" where
  "replace_retained previous new s =
     (if tr_retained s < previous then Err (OutputTooLarge MAX_DEEPSEEK_OUTPUT_BYTES)
      else let retained = tr_retained s - previous + new in
        if retained > MAX_DEEPSEEK_OUTPUT_BYTES then Err (OutputTooLarge MAX_DEEPSEEK_OUTPUT_BYTES)
        else Ok (s\<lparr>tr_retained := retained\<rparr>))"

definition string_length :: "string option \<Rightarrow> nat" where
  "string_length s = (case s of None \<Rightarrow> 0 | Some x \<Rightarrow> length x)"

definition unwrap_or_default :: "string option \<Rightarrow> string" where
  "unwrap_or_default s = (case s of None \<Rightarrow> [] | Some x \<Rightarrow> x)"

definition set_call_id :: "nat \<Rightarrow> string option \<Rightarrow> DeepSeekTranslator \<Rightarrow> TranslateError + DeepSeekTranslator" where
  "set_call_id i call s = (case call of
      None \<Rightarrow> Ok s
    | Some c \<Rightarrow> and_then (replace_retained (string_length (open_call_id (tr_blocks s ! i))) (length c) s) (\<lambda>s.
        Ok (update_block i (\<lambda>b. b\<lparr>open_call_id := Some c\<rparr>) s)))"

definition set_name :: "nat \<Rightarrow> string option \<Rightarrow> DeepSeekTranslator \<Rightarrow> TranslateError + DeepSeekTranslator" where
  "set_name i name s = (case name of
      None \<Rightarrow> Ok s
    | Some c \<Rightarrow> and_then (replace_retained (string_length (open_name (tr_blocks s ! i))) (length c) s) (\<lambda>s.
        Ok (update_block i (\<lambda>b. b\<lparr>open_name := Some c\<rparr>) s)))"

text \<open>Appending a fragment to a block and putting out its delta.\<close>

definition tr_delta :: "session_env \<Rightarrow> nat \<Rightarrow> string \<Rightarrow> (OpenBlock \<Rightarrow> ModelError + StreamChunk) \<Rightarrow> translation
    \<Rightarrow> TranslateError + translation" where
  "tr_delta env i fragment build = (\<lambda>(s, out).
     and_then (tr_append i fragment s) (\<lambda>s.
     and_then (model_result (build (tr_blocks s ! i))) (\<lambda>c. tr_emit env (s, out) c)))"

definition tr_reasoning_delta :: "session_env \<Rightarrow> serde_parts \<Rightarrow> string option \<Rightarrow> translation \<Rightarrow> TranslateError + translation" where
  "tr_reasoning_delta env sp fragment t = (case fragment of
      None \<Rightarrow> Ok t
    | Some r \<Rightarrow> if r = [] then Ok t
        else and_then (tr_block env sp OpenReasoning (tr_reasoning (fst t)) (\<lambda>i s. s\<lparr>tr_reasoning := Some i\<rparr>) t) (\<lambda>(t, i).
          tr_delta env i r (\<lambda>b. chunk_reasoning_delta env sp (internal_index b) r) t))"

definition tr_text_delta :: "session_env \<Rightarrow> serde_parts \<Rightarrow> string option \<Rightarrow> translation \<Rightarrow> TranslateError + translation" where
  "tr_text_delta env sp fragment t = (case fragment of
      None \<Rightarrow> Ok t
    | Some r \<Rightarrow> if r = [] then Ok t
        else and_then (tr_block env sp OpenText (tr_text (fst t)) (\<lambda>i s. s\<lparr>tr_text := Some i\<rparr>) t) (\<lambda>(t, i).
          tr_delta env i r (\<lambda>b. chunk_text_delta env sp (internal_index b) r) t))"

definition tr_tool_call :: "session_env \<Rightarrow> serde_parts \<Rightarrow> translation \<Rightarrow> WireToolCallDelta \<Rightarrow> TranslateError + translation" where
  "tr_tool_call env sp t call =
     and_then (tr_block env sp OpenToolCall (tr_tools (fst t) (wire_index call))
         (\<lambda>i s. s\<lparr>tr_tools := (tr_tools s)(wire_index call \<mapsto> i)\<rparr>) t) (\<lambda>((s, out), i).
     and_then (set_call_id i (wire_id call) s) (\<lambda>s.
     and_then (case wire_function call of None \<Rightarrow> Ok s | Some f \<Rightarrow> set_name i (wire_function_name f) s) (\<lambda>s.
       let fragment = (case wire_function call of None \<Rightarrow> [] | Some f \<Rightarrow> unwrap_or_default (wire_arguments f)) in
       tr_delta env i fragment (\<lambda>b. chunk_tool_call_delta env sp (internal_index b)
         (unwrap_or_default (open_call_id b)) (open_name b) fragment) (s, out))))"

definition tr_content :: "session_env \<Rightarrow> serde_parts \<Rightarrow> WireDelta \<Rightarrow> translation \<Rightarrow> TranslateError + translation" where
  "tr_content env sp d t =
     and_then (tr_reasoning_delta env sp (wire_reasoning d) t) (\<lambda>t.
     and_then (tr_text_delta env sp (wire_content d) t) (\<lambda>t.
       let calls = (case wire_tool_calls d of None \<Rightarrow> [] | Some cs \<Rightarrow> cs) in
       if length calls > MAX_TOOL_DELTAS_PER_CHOICE then Err (TooManyToolDeltas MAX_TOOL_DELTAS_PER_CHOICE)
       else run (tr_tool_call env sp) t calls))"

definition tr_choice :: "session_env \<Rightarrow> serde_parts \<Rightarrow> translation \<Rightarrow> WireChoice \<Rightarrow> TranslateError + translation" where
  "tr_choice env sp t c =
     and_then (case wire_delta c of None \<Rightarrow> Ok t | Some d \<Rightarrow> tr_content env sp d t) (\<lambda>(s, out).
       Ok (case wire_finish c of None \<Rightarrow> s | Some r \<Rightarrow> s\<lparr>tr_pending_finish := Some r\<rparr>, out))"

definition map_usage :: "session_env \<Rightarrow> WireUsage \<Rightarrow> TranslateError + TokenUsage" where
  "map_usage env u =
     (let cached = (case prompt_details u of Some (Some n) \<Rightarrow> Some n | _ \<Rightarrow> prompt_cache_hit_tokens u);
          hit = (case cached of None \<Rightarrow> 0 | Some n \<Rightarrow> n)
      in if prompt_tokens u < hit then Err InvalidUsage
         else and_then (map_err (\<lambda>_. TranslateJson) (safe_integer_new (prompt_tokens u - hit))) (\<lambda>input.
           model_result (token_usage_from_parts env input (completion_tokens u) cached None
             (case completion_details u of None \<Rightarrow> None | Some r \<Rightarrow> r))))"

section \<open>The end of the stream\<close>

definition ascii_uppercase :: "string \<Rightarrow> string" where
  "ascii_uppercase = map (\<lambda>c. let n = of_char c :: nat in if 97 \<le> n \<and> n \<le> 122 then char_of (n - 32) else c)"

definition known_finish :: "string \<Rightarrow> bool" where
  "known_finish r \<longleftrightarrow> r \<noteq> [] \<and> length r \<le> MAX_UNKNOWN_FINISH_BYTES
     \<and> list_all (\<lambda>c. 33 \<le> (of_char c :: nat) \<and> of_char c \<le> (126 :: nat)) r"

definition map_finish_reason :: "session_env \<Rightarrow> string \<Rightarrow> bool \<Rightarrow> TranslateError + FinishReason" where
  "map_finish_reason env r no_blocks =
     (let failing = (\<lambda>message code. model_result (and_then (failure_new env message code) (finish_reason_error env))) in
      if r = ''stop'' \<and> no_blocks then failing ''model returned a completed response with no content'' ''EMPTY_RESPONSE''
      else if r = ''stop'' then model_result (finish_reason_plain env ''stop'')
      else if r = ''tool_calls'' then model_result (finish_reason_plain env ''tool-calls'')
      else if r = ''length'' then model_result (finish_reason_plain env ''max-tokens'')
      else if known_finish r then failing (''model stopped: '' @ r) (ascii_uppercase r)
      else Err MalformedResponse)"

definition block_content :: "session_env \<Rightarrow> serde_parts \<Rightarrow> OpenBlock \<Rightarrow> ModelError + ContentBlock" where
  "block_content env sp b = (case open_kind b of
      OpenText \<Rightarrow> content_block_text env sp (open_text b)
    | OpenReasoning \<Rightarrow> content_block_reasoning env sp (open_text b)
    | OpenToolCall \<Rightarrow> content_block_tool_call env sp (unwrap_or_default (open_call_id b))
        (unwrap_or_default (open_name b)) (open_text b))"

definition end_chunk :: "session_env \<Rightarrow> serde_parts \<Rightarrow> OpenBlock \<Rightarrow> ModelError + StreamChunk" where
  "end_chunk env sp b = and_then (block_content env sp b) (chunk_block_end env sp (internal_index b))"

definition end_chunks :: "session_env \<Rightarrow> serde_parts \<Rightarrow> OpenBlock list \<Rightarrow> ModelError + StreamChunk list" where
  "end_chunks env sp = run (\<lambda>cs b. and_then (end_chunk env sp b) (\<lambda>c. Ok (cs @ [c]))) []"

definition tr_candidates :: "session_env \<Rightarrow> serde_parts \<Rightarrow> DeepSeekTranslator \<Rightarrow> TranslateError + StreamChunk list" where
  "tr_candidates env sp s =
     and_then (model_result (end_chunks env sp (tr_blocks s))) (\<lambda>ends.
     and_then (case tr_pending_usage s of None \<Rightarrow> Ok []
       | Some u \<Rightarrow> model_result (and_then (chunk_usage env sp u) (\<lambda>c. Ok [c]))) (\<lambda>usage.
     and_then (map_finish_reason env (case tr_pending_finish s of None \<Rightarrow> ''stop'' | Some r \<Rightarrow> r) (tr_blocks s = [])) (\<lambda>reason.
     and_then (model_result (chunk_finish env sp reason None)) (\<lambda>c.
       Ok (ends @ usage @ [c])))))"

definition tr_finish :: "session_env \<Rightarrow> serde_parts \<Rightarrow> DeepSeekTranslator \<Rightarrow> TranslateError + translation" where
  "tr_finish env sp s =
     (let s = s\<lparr>tr_done := True\<rparr> in
      and_then (tr_candidates env sp s) (\<lambda>cs.
        run (tr_emit env) (s\<lparr>tr_pending_usage := None\<rparr>, []) cs))"

definition DONE_payload :: string where
  "DONE_payload = ''[DONE]''"

definition tr_accept :: "session_env \<Rightarrow> serde_parts \<Rightarrow> (string \<Rightarrow> WireChunk option) \<Rightarrow> DeepSeekTranslator \<Rightarrow> string
    \<Rightarrow> TranslateError + translation" where
  "tr_accept env sp read s payload =
     (if tr_done s then Err AfterDone
      else if payload = DONE_payload then tr_finish env sp s
      else and_then (ok_or (read payload) MalformedResponse) (\<lambda>wire.
        let choices = (case wire_choices wire of None \<Rightarrow> [] | Some cs \<Rightarrow> cs) in
        if length choices > MAX_WIRE_CHOICES then Err (TooManyChoices MAX_WIRE_CHOICES)
        else and_then (run (tr_choice env sp) (s, []) choices) (\<lambda>(s, out).
          case wire_usage wire of
            None \<Rightarrow> Ok (s, out)
          | Some u \<Rightarrow> and_then (map_usage env u) (\<lambda>usage. Ok (s\<lparr>tr_pending_usage := Some usage\<rparr>, out)))))"

text \<open>A whole stream: the chunks of every payload in order, as the adapter queues them.\<close>

definition translate_payload :: "session_env \<Rightarrow> serde_parts \<Rightarrow> (string \<Rightarrow> WireChunk option) \<Rightarrow> translation \<Rightarrow> string
    \<Rightarrow> TranslateError + translation" where
  "translate_payload env sp read = (\<lambda>(s, out) payload.
     and_then (tr_accept env sp read s payload) (\<lambda>(s, chunks). Ok (s, out @ chunks)))"

definition translate :: "session_env \<Rightarrow> serde_parts \<Rightarrow> (string \<Rightarrow> WireChunk option) \<Rightarrow> string list
    \<Rightarrow> TranslateError + translation" where
  "translate env sp read = run (translate_payload env sp read) (translator_default, [])"

section \<open>The stream that is put out\<close>

text \<open>The grammar of streams without its limit on their length, newest chunk first.\<close>

fun stream_shape :: "StreamChunkKind list \<Rightarrow> bool" where
  "stream_shape [] = True"
| "stream_shape (k # ks) = (stream_shape ks \<and> \<not> list_ex is_finish ks \<and> chunk_allowed ks k)"

lemma stream_shape_grammar:
  "stream_shape ks \<Longrightarrow> length ks < MAX_PROVIDER_STREAM_CHUNKS
     \<or> length ks = MAX_PROVIDER_STREAM_CHUNKS \<and> is_finish (hd ks) \<Longrightarrow> stream_grammar ks"
  by (induction ks) auto

text \<open>The text that the deltas of a block add up to.\<close>

fun delta_of :: "StreamChunkKind \<Rightarrow> u64 \<Rightarrow> string" where
  "delta_of (TextDelta j s) i = (if i = j then s else [])"
| "delta_of (ReasoningDelta j s) i = (if i = j then s else [])"
| "delta_of (ToolCallDelta j _ _ s) i = (if i = j then s else [])"
| "delta_of _ i = []"

fun delta_text :: "StreamChunkKind list \<Rightarrow> u64 \<Rightarrow> string" where
  "delta_text [] i = []"
| "delta_text (k # ks) i = delta_text ks i @ delta_of k i"

fun is_block_end :: "StreamChunkKind \<Rightarrow> bool" where
  "is_block_end (BlockEnd _ _) = True"
| "is_block_end _ = False"

definition block_at :: "DeepSeekTranslator \<Rightarrow> nat \<Rightarrow> OpenKind \<Rightarrow> bool" where
  "block_at s j k \<longleftrightarrow> j < length (tr_blocks s) \<and> open_kind (tr_blocks s ! j) = k"

text \<open>The state is determined by the chunks that were put out.\<close>

definition tr_reads :: "DeepSeekTranslator \<Rightarrow> StreamChunkKind list \<Rightarrow> bool" where
  "tr_reads s ks \<longleftrightarrow>
     stream_shape ks \<and> \<not> list_ex is_finish ks \<and> \<not> list_ex is_usage ks \<and> \<not> list_ex is_block_end ks
     \<and> length (tr_blocks s) \<le> MAX_DEEPSEEK_BLOCKS
     \<and> (\<forall>j < length (tr_blocks s). internal_index (tr_blocks s ! j) = of_nat j)
     \<and> (\<forall>i. open_after ks i = (if unat i < length (tr_blocks s)
          then Some (open_block_type (open_kind (tr_blocks s ! unat i))) else None))
     \<and> (\<forall>i t. BlockStart i t \<in> set ks \<longrightarrow> unat i < length (tr_blocks s))
     \<and> (\<forall>i. delta_text ks i = (if unat i < length (tr_blocks s) then open_text (tr_blocks s ! unat i) else []))"

text \<open>What the translator remembers of its blocks.\<close>

definition tr_owners :: "DeepSeekTranslator \<Rightarrow> bool" where
  "tr_owners s \<longleftrightarrow> \<not> tr_done s
     \<and> (\<forall>j. tr_reasoning s = Some j \<longrightarrow> block_at s j OpenReasoning)
     \<and> (\<forall>j. tr_text s = Some j \<longrightarrow> block_at s j OpenText)
     \<and> (\<forall>w j. tr_tools s w = Some j \<longrightarrow> block_at s j OpenToolCall)"

definition tr_good :: "StreamChunkKind list \<Rightarrow> translation \<Rightarrow> bool" where
  "tr_good ks = (\<lambda>(s, out). tr_reads s (rev (map chunk_kind out) @ ks) \<and> tr_owners s)"

lemma index_of_nat: "n \<le> MAX_DEEPSEEK_BLOCKS \<Longrightarrow> unat (of_nat n :: u64) = n"
  by (simp add: MAX_DEEPSEEK_BLOCKS_def unat_of_nat)

lemma index_of_nat_eq: "n \<le> MAX_DEEPSEEK_BLOCKS \<Longrightarrow> i = (of_nat n :: u64) \<longleftrightarrow> unat i = n"
  using index_of_nat [of n] by (simp add: word_unat_eq_iff)

lemma nth_update: "xs[j := y] ! i = (if i = j \<and> j < length xs then y else xs ! i)"
  by (cases "j < length xs") (auto simp: list_update_beyond)

text \<open>Opening a block, changing a block, and a delta.\<close>

lemma tr_reads_start:
  assumes reads: "tr_reads s ks" and n: "length (tr_blocks s) \<noteq> MAX_DEEPSEEK_BLOCKS"
    and b: "internal_index b = of_nat (length (tr_blocks s))" "open_text b = []"
  shows "tr_reads (s\<lparr>tr_blocks := tr_blocks s @ [b]\<rparr>)
    (BlockStart (of_nat (length (tr_blocks s))) (open_block_type (open_kind b)) # ks)"
proof -
  have n: "length (tr_blocks s) < MAX_DEEPSEEK_BLOCKS"
    using reads n by (simp add: tr_reads_def)
  note eq = index_of_nat_eq [OF less_imp_le [OF n]] index_of_nat [OF less_imp_le [OF n]]
  have "BlockStart (of_nat (length (tr_blocks s))) t \<notin> set ks" for t
    using reads eq by (auto simp: tr_reads_def)
  with reads n b eq show ?thesis
    by (auto simp: tr_reads_def nth_append less_Suc_eq)
qed

lemma tr_reads_keep:
  assumes "tr_reads s ks" and "internal_index (f (tr_blocks s ! j)) = internal_index (tr_blocks s ! j)"
    and "open_kind (f (tr_blocks s ! j)) = open_kind (tr_blocks s ! j)"
    and "open_text (f (tr_blocks s ! j)) = open_text (tr_blocks s ! j)"
  shows "tr_reads (update_block j f s) ks"
  using assms by (auto simp: tr_reads_def update_block_def nth_update)

lemma tr_reads_delta:
  assumes reads: "tr_reads s ks" and j: "j < length (tr_blocks s)"
    and k: "k = TextDelta (of_nat j) r \<and> open_kind (tr_blocks s ! j) = OpenText
      \<or> k = ReasoningDelta (of_nat j) r \<and> open_kind (tr_blocks s ! j) = OpenReasoning
      \<or> (\<exists>c n. k = ToolCallDelta (of_nat j) c n r) \<and> open_kind (tr_blocks s ! j) = OpenToolCall"
  shows "tr_reads (update_block j (\<lambda>b. b\<lparr>open_text := open_text b @ r\<rparr>) s) (k # ks)"
proof -
  have "j \<le> MAX_DEEPSEEK_BLOCKS"
    using reads j by (simp add: tr_reads_def)
  note eq = index_of_nat [OF this] index_of_nat_eq [OF this]
  show ?thesis
    using reads j k by (elim disjE exE conjE) (auto simp: tr_reads_def update_block_def nth_update eq)
qed

text \<open>Fields that the reading does not look at.\<close>

lemma tr_reads_cong: "tr_blocks s' = tr_blocks s \<Longrightarrow> tr_reads s' ks = tr_reads s ks"
  by (simp add: tr_reads_def)

lemma tr_reads_fields [simp]:
  "tr_reads (s\<lparr>tr_emitted := n\<rparr>) ks = tr_reads s ks"
  "tr_reads (s\<lparr>tr_retained := n\<rparr>) ks = tr_reads s ks"
  "tr_reads (s\<lparr>tr_pending_finish := f\<rparr>) ks = tr_reads s ks"
  "tr_reads (s\<lparr>tr_pending_usage := u\<rparr>) ks = tr_reads s ks"
  "tr_reads (s\<lparr>tr_reasoning := r\<rparr>) ks = tr_reads s ks"
  "tr_reads (s\<lparr>tr_text := r\<rparr>) ks = tr_reads s ks"
  "tr_reads (s\<lparr>tr_tools := m\<rparr>) ks = tr_reads s ks"
  by (simp_all add: tr_reads_def)

lemma block_at_fields [simp]:
  "block_at (s\<lparr>tr_emitted := n\<rparr>) j k = block_at s j k"
  "block_at (s\<lparr>tr_retained := n\<rparr>) j k = block_at s j k"
  "block_at (s\<lparr>tr_pending_finish := f\<rparr>) j k = block_at s j k"
  "block_at (s\<lparr>tr_pending_usage := u\<rparr>) j k = block_at s j k"
  "block_at (s\<lparr>tr_reasoning := r\<rparr>) j k = block_at s j k"
  "block_at (s\<lparr>tr_text := r\<rparr>) j k = block_at s j k"
  "block_at (s\<lparr>tr_tools := m\<rparr>) j k = block_at s j k"
  by (simp_all add: block_at_def)

lemma tr_owners_fields [simp]:
  "tr_owners (s\<lparr>tr_emitted := n\<rparr>) = tr_owners s"
  "tr_owners (s\<lparr>tr_retained := n\<rparr>) = tr_owners s"
  "tr_owners (s\<lparr>tr_pending_finish := f\<rparr>) = tr_owners s"
  "tr_owners (s\<lparr>tr_pending_usage := u\<rparr>) = tr_owners s"
  by (simp_all add: tr_owners_def)

lemma tr_owners_grow:
  "tr_owners s \<Longrightarrow> (\<And>j k. block_at s j k \<Longrightarrow> block_at s' j k) \<Longrightarrow> tr_reasoning s' = tr_reasoning s
     \<Longrightarrow> tr_text s' = tr_text s \<Longrightarrow> tr_tools s' = tr_tools s \<Longrightarrow> tr_done s' = tr_done s \<Longrightarrow> tr_owners s'"
  by (simp add: tr_owners_def)

lemma tr_emit_Inr: "tr_emit env (s, out) c = Inr t \<Longrightarrow>
    t = (s\<lparr>tr_emitted := tr_emitted s + env_encoded_len env (chunk_raw c)\<rparr>, out @ [c])"
  by (auto simp: tr_emit_def Let_def split: if_splits)

lemma tr_open_good:
  assumes env: "admits_normal env" and good: "tr_good ks (s, out)"
    and run: "tr_open env sp kind (s, out) = Inr ((s', out'), i)"
  shows "tr_good ks (s', out') \<and> block_at s' i kind"
proof -
  let ?n = "length (tr_blocks s)"
  let ?b = "\<lparr>internal_index = of_nat ?n, open_kind = kind, open_text = [], open_call_id = None, open_name = None\<rparr>"
  from run obtain c e where n: "?n \<noteq> MAX_DEEPSEEK_BLOCKS" "i = ?n"
    and c: "chunk_block_start env sp (of_nat ?n) (open_block_type kind) = Inr c"
    and s': "s' = s\<lparr>tr_emitted := e, tr_blocks := tr_blocks s @ [?b]\<rparr>" and out': "out' = out @ [c]"
    by (auto simp: tr_open_def Let_def result_simps dest!: tr_emit_Inr split: if_splits)
  from chunk_block_start_kind [OF env c] have k: "chunk_kind c = BlockStart (of_nat ?n) (open_block_type kind)"
    by (cases kind) simp_all
  have "tr_reads (s\<lparr>tr_blocks := tr_blocks s @ [?b]\<rparr>) (BlockStart (of_nat ?n) (open_block_type kind) # rev (map chunk_kind out) @ ks)"
    using tr_reads_start [of s _ ?b] good n by (simp add: tr_good_def)
  moreover have "tr_reads s' ks' = tr_reads (s\<lparr>tr_blocks := tr_blocks s @ [?b]\<rparr>) ks'" for ks'
    by (rule tr_reads_cong) (simp add: s')
  moreover have "tr_owners s'"
    by (rule tr_owners_grow [of s]) (use good in \<open>auto simp: tr_good_def s' block_at_def nth_append\<close>)
  ultimately show ?thesis
    by (simp add: tr_good_def out' k) (simp add: s' n block_at_def nth_append)
qed

lemma tr_block_good:
  assumes env: "admits_normal env" and good: "tr_good ks (s, out)"
    and found: "\<And>j. found = Some j \<Longrightarrow> block_at s j kind"
    and remember: "\<And>i s ks. tr_reads (remember i s) ks = tr_reads s ks"
      "\<And>i s j k. block_at (remember i s) j k = block_at s j k"
      "\<And>i s. block_at s i kind \<Longrightarrow> tr_owners s \<Longrightarrow> tr_owners (remember i s)"
    and run: "tr_block env sp kind found remember (s, out) = Inr ((s', out'), i)"
  shows "tr_good ks (s', out') \<and> block_at s' i kind"
proof (cases found)
  case None
  with run obtain s1 where "tr_open env sp kind (s, out) = Inr ((s1, out'), i)" and s': "s' = remember i s1"
    by (auto simp: tr_block_def result_simps)
  with tr_open_good [OF env good] have "tr_good ks (s1, out') \<and> block_at s1 i kind" by blast
  with remember show ?thesis by (simp add: tr_good_def s')
next
  case (Some j)
  with run good found show ?thesis by (simp add: tr_block_def)
qed

lemma tr_delta_good:
  assumes good: "tr_good ks (s, out)" and at: "block_at s i kind"
    and build: "\<And>b c. internal_index b = of_nat i \<Longrightarrow> build b = Inr c \<Longrightarrow>
        chunk_kind c = TextDelta (of_nat i) r \<and> kind = OpenText
        \<or> chunk_kind c = ReasoningDelta (of_nat i) r \<and> kind = OpenReasoning
        \<or> (\<exists>d n. chunk_kind c = ToolCallDelta (of_nat i) d n r) \<and> kind = OpenToolCall"
    and run: "tr_delta env i r build (s, out) = Inr t"
  shows "tr_good ks t"
proof -
  let ?f = "\<lambda>b. b\<lparr>open_text := open_text b @ r\<rparr>"
  from run obtain n e c where c: "build (tr_blocks (update_block i ?f s) ! i) = Inr c"
    and t: "t = ((update_block i ?f (s\<lparr>tr_retained := n\<rparr>))\<lparr>tr_emitted := e\<rparr>, out @ [c])"
    by (auto simp: tr_delta_def tr_append_def update_block_def Let_def result_simps dest!: tr_emit_Inr split: if_splits)
  from at have i: "i < length (tr_blocks s)" "open_kind (tr_blocks s ! i) = kind"
    by (simp_all add: block_at_def)
  have "internal_index (tr_blocks (update_block i ?f s) ! i) = of_nat i"
    using good i by (simp add: tr_good_def tr_reads_def update_block_def)
  from build [OF this c] i have "tr_reads (update_block i ?f s) (chunk_kind c # rev (map chunk_kind out) @ ks)"
    using tr_reads_delta [of s _ i "chunk_kind c" r] good by (auto simp: tr_good_def)
  moreover have "tr_owners (update_block i ?f (s\<lparr>tr_retained := n\<rparr>))"
    by (rule tr_owners_grow [of s]) (use good in \<open>auto simp: tr_good_def update_block_def block_at_def nth_update\<close>)
  moreover have "tr_reads (update_block i ?f (s\<lparr>tr_retained := n\<rparr>)) ks' = tr_reads (update_block i ?f s) ks'" for ks'
    by (rule tr_reads_cong) (simp add: update_block_def)
  ultimately show ?thesis by (simp add: t tr_good_def)
qed

lemma tr_reasoning_delta_good:
  assumes env: "admits_normal env" and good: "tr_good ks t" and run: "tr_reasoning_delta env sp fragment t = Inr t'"
  shows "tr_good ks t'"
proof (cases "fragment = None \<or> fragment = Some []")
  case True
  with run good show ?thesis by (auto simp: tr_reasoning_delta_def)
next
  case False
  obtain s out where t: "t = (s, out)" by fastforce
  from False obtain r where r: "fragment = Some r" "r \<noteq> []" by auto
  from run obtain s1 out1 i
    where b: "tr_block env sp OpenReasoning (tr_reasoning s) (\<lambda>i s. s\<lparr>tr_reasoning := Some i\<rparr>) (s, out) = Inr ((s1, out1), i)"
    and d: "tr_delta env i r (\<lambda>b. chunk_reasoning_delta env sp (internal_index b) r) (s1, out1) = Inr t'"
    by (auto simp: tr_reasoning_delta_def t r result_simps)
  have "tr_good ks (s1, out1) \<and> block_at s1 i OpenReasoning"
    by (rule tr_block_good [OF env _ _ _ _ _ b]) (use good in \<open>auto simp: t tr_good_def tr_owners_def\<close>)
  with d show ?thesis
    by (auto intro!: tr_delta_good [OF _ _ _ d] dest!: chunk_reasoning_delta_kind [OF env])
qed

lemma tr_text_delta_good:
  assumes env: "admits_normal env" and good: "tr_good ks t" and run: "tr_text_delta env sp fragment t = Inr t'"
  shows "tr_good ks t'"
proof (cases "fragment = None \<or> fragment = Some []")
  case True
  with run good show ?thesis by (auto simp: tr_text_delta_def)
next
  case False
  obtain s out where t: "t = (s, out)" by fastforce
  from False obtain r where r: "fragment = Some r" "r \<noteq> []" by auto
  from run obtain s1 out1 i
    where b: "tr_block env sp OpenText (tr_text s) (\<lambda>i s. s\<lparr>tr_text := Some i\<rparr>) (s, out) = Inr ((s1, out1), i)"
    and d: "tr_delta env i r (\<lambda>b. chunk_text_delta env sp (internal_index b) r) (s1, out1) = Inr t'"
    by (auto simp: tr_text_delta_def t r result_simps)
  have "tr_good ks (s1, out1) \<and> block_at s1 i OpenText"
    by (rule tr_block_good [OF env _ _ _ _ _ b]) (use good in \<open>auto simp: t tr_good_def tr_owners_def\<close>)
  with d show ?thesis
    by (auto intro!: tr_delta_good [OF _ _ _ d] dest!: chunk_text_delta_kind [OF env])
qed

text \<open>A change of the id or the name of a block.\<close>

lemma tr_good_update:
  assumes "tr_good ks (s, out)" and "block_at s i kind"
    and "\<And>b. internal_index (f b) = internal_index b" "\<And>b. open_kind (f b) = open_kind b" "\<And>b. open_text (f b) = open_text b"
  shows "tr_good ks (update_block i f (s\<lparr>tr_retained := n\<rparr>), out) \<and> block_at (update_block i f (s\<lparr>tr_retained := n\<rparr>)) i kind"
proof -
  have "tr_owners (update_block i f (s\<lparr>tr_retained := n\<rparr>))"
    by (rule tr_owners_grow [of s]) (use assms in \<open>auto simp: tr_good_def update_block_def block_at_def nth_update\<close>)
  with assms show ?thesis
    by (auto simp: tr_good_def block_at_def intro!: tr_reads_keep) (simp add: update_block_def)+
qed

lemma replace_retained_Inr: "replace_retained a b s = Inr s' \<longleftrightarrow>
    a \<le> tr_retained s \<and> tr_retained s - a + b \<le> MAX_DEEPSEEK_OUTPUT_BYTES \<and> s' = s\<lparr>tr_retained := tr_retained s - a + b\<rparr>"
  by (auto simp: replace_retained_def Let_def not_less)

lemma set_call_id_good:
  "tr_good ks (s, out) \<Longrightarrow> block_at s i kind \<Longrightarrow> set_call_id i call s = Inr s' \<Longrightarrow>
     tr_good ks (s', out) \<and> block_at s' i kind"
  by (auto simp: set_call_id_def result_simps replace_retained_Inr tr_good_update split: option.splits)

lemma set_name_good:
  "tr_good ks (s, out) \<Longrightarrow> block_at s i kind \<Longrightarrow> set_name i name s = Inr s' \<Longrightarrow>
     tr_good ks (s', out) \<and> block_at s' i kind"
  by (auto simp: set_name_def result_simps replace_retained_Inr tr_good_update split: option.splits)

lemma tr_tool_call_good:
  assumes env: "admits_normal env" and good: "tr_good ks t" and run: "tr_tool_call env sp t call = Inr t'"
  shows "tr_good ks t'"
proof -
  obtain s out where t: "t = (s, out)" by fastforce
  let ?remember = "\<lambda>i s. s\<lparr>tr_tools := (tr_tools s)(wire_index call \<mapsto> i)\<rparr>"
  from run obtain s1 out1 i s2 s3 r build
    where b: "tr_block env sp OpenToolCall (tr_tools s (wire_index call)) ?remember (s, out) = Inr ((s1, out1), i)"
    and s2: "set_call_id i (wire_id call) s1 = Inr s2"
    and s3: "(case wire_function call of None \<Rightarrow> Ok s2 | Some f \<Rightarrow> set_name i (wire_function_name f) s2) = Inr s3"
    and d: "tr_delta env i r build (s3, out1) = Inr t'"
    and build: "build = (\<lambda>b. chunk_tool_call_delta env sp (internal_index b) (unwrap_or_default (open_call_id b)) (open_name b) r)"
    by (auto simp: tr_tool_call_def t result_simps Let_def)
  have "tr_good ks (s1, out1) \<and> block_at s1 i OpenToolCall"
    by (rule tr_block_good [OF env _ _ _ _ _ b]) (use good in \<open>auto simp: t tr_good_def tr_owners_def\<close>)
  with set_call_id_good [OF _ _ s2] have "tr_good ks (s2, out1) \<and> block_at s2 i OpenToolCall"
    by blast
  with s3 have "tr_good ks (s3, out1) \<and> block_at s3 i OpenToolCall"
    using set_name_good [of ks s2 out1 i OpenToolCall _ s3] by (cases "wire_function call") simp_all
  with d show ?thesis
    by (auto intro!: tr_delta_good [OF _ _ _ d] simp: build dest!: chunk_tool_call_delta_kind [OF env])
qed

text \<open>A choice and a payload; runs keep the reading by \<open>keeps\<close>.\<close>

interpretation calling: keeps "tr_tool_call env sp" "\<lambda>t. admits_normal env \<longrightarrow> tr_good ks t" for env sp ks
  by unfold_locales (blast dest: tr_tool_call_good)

lemma tr_content_good:
  assumes env: "admits_normal env" and good: "tr_good ks t" and run: "tr_content env sp d t = Inr t'"
  shows "tr_good ks t'"
proof -
  from run obtain t1 t2 where "tr_reasoning_delta env sp (wire_reasoning d) t = Inr t1"
    and "tr_text_delta env sp (wire_content d) t1 = Inr t2"
    and calls: "run (tr_tool_call env sp) t2 (case wire_tool_calls d of None \<Rightarrow> [] | Some cs \<Rightarrow> cs) = Inr t'"
    by (auto simp: tr_content_def result_simps Let_def split: if_splits)
  with tr_reasoning_delta_good [OF env good] tr_text_delta_good [OF env] have "tr_good ks t2" by blast
  with calling.run_keeps [OF _ calls] env show ?thesis by blast
qed

lemma tr_choice_good:
  assumes env: "admits_normal env" and good: "tr_good ks t" and run: "tr_choice env sp t c = Inr t'"
  shows "tr_good ks t'"
proof -
  from run obtain s out where c: "(case wire_delta c of None \<Rightarrow> Ok t | Some d \<Rightarrow> tr_content env sp d t) = Inr (s, out)"
    and t': "t' = (case wire_finish c of None \<Rightarrow> s | Some r \<Rightarrow> s\<lparr>tr_pending_finish := Some r\<rparr>, out)"
    by (auto simp: tr_choice_def result_simps)
  have "tr_good ks (s, out)"
    using c good tr_content_good [OF env good] by (auto split: option.splits)
  then show ?thesis by (auto simp: t' tr_good_def split: option.splits)
qed

interpretation choosing: keeps "tr_choice env sp" "\<lambda>t. admits_normal env \<longrightarrow> tr_good ks t" for env sp ks
  by unfold_locales (blast dest: tr_choice_good)

lemma tr_accept_good:
  assumes env: "admits_normal env" and good: "tr_good ks (s, [])" and p: "payload \<noteq> DONE_payload"
    and run: "tr_accept env sp read s payload = Inr (s', chunks)"
  shows "tr_good ks (s', chunks)"
proof -
  have nd: "\<not> tr_done s" using good by (simp add: tr_good_def tr_owners_def)
  obtain wire where w: "read payload = Some wire"
    using run p nd by (cases "read payload") (simp_all add: tr_accept_def)
  let ?choices = "case wire_choices wire of None \<Rightarrow> [] | Some cs \<Rightarrow> cs"
  obtain s1 out1 where c: "run (tr_choice env sp) (s, []) ?choices = Inr (s1, out1)"
    using run p nd w
    by (cases "run (tr_choice env sp) (s, []) ?choices") (auto simp: tr_accept_def Let_def split: if_splits)
  have u: "(case wire_usage wire of None \<Rightarrow> Ok (s1, out1)
      | Some u \<Rightarrow> and_then (map_usage env u) (\<lambda>usage. Ok (s1\<lparr>tr_pending_usage := Some usage\<rparr>, out1))) = Inr (s', chunks)"
    using run p nd w c by (simp add: tr_accept_def Let_def split: if_splits)
  from choosing.run_keeps [OF _ c] env good have "tr_good ks (s1, out1)" by blast
  with u show ?thesis by (auto simp: tr_good_def result_simps split: option.splits)
qed

section \<open>Ending the blocks\<close>

fun block_text :: "ContentBlockKind \<Rightarrow> string" where
  "block_text (Text s) = s"
| "block_text (Reasoning s) = s"
| "block_text (ToolCallBlock _ _ s) = s"
| "block_text _ = []"

definition ends_block :: "OpenBlock \<Rightarrow> StreamChunkKind \<Rightarrow> bool" where
  "ends_block b k \<longleftrightarrow> (\<exists>x. k = BlockEnd (internal_index b) x
     \<and> block_type (block_kind x) = open_block_type (open_kind b) \<and> block_text (block_kind x) = open_text b)"

lemma end_chunk_ends:
  assumes env: "admits_normal env" and run: "end_chunk env sp b = Inr c"
  shows "ends_block b (chunk_kind c)"
proof -
  from run obtain x where x: "block_content env sp b = Inr x" and c: "chunk_block_end env sp (internal_index b) x = Inr c"
    by (auto simp: end_chunk_def result_simps)
  have kinds: "normalize_numbers (block_raw x) = block_raw x \<and> block_kind x = parse_content_block sp (block_raw x)
      \<and> block_type (block_kind x) = open_block_type (open_kind b) \<and> block_text (block_kind x) = open_text b"
    using x by (cases "open_kind b")
      (auto simp: block_content_def parse_content_block_def parse_tool_call_def get_str_def Let_def
        dest!: content_block_text_kind [OF env] content_block_reasoning_kind [OF env] content_block_tool_call_kind [OF env])
  with chunk_block_end_kind [OF env c] show ?thesis
    unfolding ends_block_def by blast
qed

lemma end_chunks_end:
  "admits_normal env \<Longrightarrow> run (\<lambda>cs b. and_then (end_chunk env sp b) (\<lambda>c. Ok (cs @ [c]))) ds bs = Inr cs \<Longrightarrow>
     \<exists>es. cs = ds @ es \<and> list_all2 ends_block bs (map chunk_kind es)"
proof (induction bs arbitrary: ds)
  case Nil
  then show ?case by simp
next
  case (Cons b bs)
  then obtain c where c: "end_chunk env sp b = Inr c"
    and "run (\<lambda>cs b. and_then (end_chunk env sp b) (\<lambda>c. Ok (cs @ [c]))) (ds @ [c]) bs = Inr cs"
    by (auto simp: result_simps)
  with Cons.IH [of "ds @ [c]"] Cons.prems(1) obtain es where
    "cs = ds @ c # es" "list_all2 ends_block bs (map chunk_kind es)" by auto
  with end_chunk_ends [OF Cons.prems(1) c] show ?case by (intro exI [of _ "c # es"]) simp
qed

lemma ends_shape:
  assumes "list_all2 ends_block bs es" and "stream_shape ks" and "\<not> list_ex is_finish ks"
    and "n + length bs \<le> MAX_DEEPSEEK_BLOCKS" and "\<forall>j < length bs. internal_index (bs ! j) = of_nat (n + j)"
    and "\<forall>i. open_after ks i = (if n \<le> unat i \<and> unat i < n + length bs
          then Some (open_block_type (open_kind (bs ! (unat i - n)))) else None)"
  shows "stream_shape (rev es @ ks) \<and> \<not> list_ex is_finish (rev es @ ks) \<and> (\<forall>i. open_after (rev es @ ks) i = None)
    \<and> list_ex is_usage (rev es @ ks) = list_ex is_usage ks \<and> (\<forall>i. delta_text (rev es @ ks) i = delta_text ks i)"
  using assms
proof (induction bs es arbitrary: ks n rule: list_all2_induct)
  case Nil
  then show ?case by simp
next
  case (Cons b bs e es)
  from Cons.hyps(1) obtain x where e: "e = BlockEnd (internal_index b) x"
    and t: "block_type (block_kind x) = open_block_type (open_kind b)"
    by (auto simp: ends_block_def)
  have b: "internal_index b = of_nat n" using Cons.prems(4) by force
  have n: "n \<le> MAX_DEEPSEEK_BLOCKS" using Cons.prems(3) by simp
  note eq = index_of_nat [OF n] index_of_nat_eq [OF n]
  have shape: "stream_shape (e # ks)"
    using Cons.prems by (simp add: e t b eq)
  have "open_after (e # ks) i = (if Suc n \<le> unat i \<and> unat i < Suc n + length bs
      then Some (open_block_type (open_kind (bs ! (unat i - Suc n)))) else None)" for i
    using Cons.prems(5) by (auto simp: e b eq nth_Cons')
  moreover have "\<forall>j < length bs. internal_index (bs ! j) = of_nat (Suc n + j)"
    using Cons.prems(4) by force
  ultimately show ?case
    using Cons.IH [OF shape, of "Suc n"] Cons.prems(2,3) by (simp add: e)
qed

section \<open>Whole streams\<close>

lemma run_tr_emit: "run (tr_emit env) (s, out) cs = Inr (s', out') \<Longrightarrow> out' = out @ cs \<and> tr_done s' = tr_done s"
proof (induction cs arbitrary: s out)
  case Nil
  then show ?case by simp
next
  case (Cons c cs)
  then obtain t where t: "tr_emit env (s, out) c = Inr t" "run (tr_emit env) t cs = Inr (s', out')"
    by (auto simp: result_simps)
  from tr_emit_Inr [OF t(1)] t(2)
    Cons.IH [of "s\<lparr>tr_emitted := tr_emitted s + env_encoded_len env (chunk_raw c)\<rparr>" "out @ [c]"]
  show ?case by simp
qed

lemma tr_candidates_end:
  assumes env: "admits_normal env" and run: "tr_candidates env sp s = Inr cs"
  obtains ends usage c where "cs = ends @ usage @ [c]" and "list_all2 ends_block (tr_blocks s) (map chunk_kind ends)"
    and "usage = [] \<or> (\<exists>u. usage = [u] \<and> is_usage (chunk_kind u))" and "is_finish (chunk_kind c)"
proof -
  from run obtain ends usage reason c where e: "end_chunks env sp (tr_blocks s) = Inr ends"
    and u: "(case tr_pending_usage s of None \<Rightarrow> Ok []
       | Some u \<Rightarrow> model_result (and_then (chunk_usage env sp u) (\<lambda>c. Ok [c]))) = Inr usage"
    and c: "chunk_finish env sp reason None = Inr c" and cs: "cs = ends @ usage @ [c]"
    by (auto simp: tr_candidates_def result_simps)
  have "list_all2 ends_block (tr_blocks s) (map chunk_kind ends)"
    using end_chunks_end [OF env e [unfolded end_chunks_def]] by auto
  moreover have "usage = [] \<or> (\<exists>u. usage = [u] \<and> is_usage (chunk_kind u))"
    using u by (auto simp: result_simps split: option.splits dest: chunk_usage_kind [OF env])
  ultimately show ?thesis using that cs chunk_finish_kind [OF env c] by blast
qed

text \<open>What the deltas of a block add up to is the content of its end.\<close>

definition ends_faithful :: "StreamChunkKind list \<Rightarrow> bool" where
  "ends_faithful ks \<longleftrightarrow> (\<forall>i x. BlockEnd i x \<in> set ks \<longrightarrow> block_text (block_kind x) = delta_text ks i)"

definition tr_ended :: "StreamChunkKind list \<Rightarrow> bool" where
  "tr_ended ks \<longleftrightarrow> stream_shape ks \<and> ks \<noteq> [] \<and> is_finish (hd ks) \<and> ends_faithful ks"

lemma tr_reads_no_ends: "tr_reads s ks \<Longrightarrow> BlockEnd i x \<notin> set ks"
  by (fastforce simp: tr_reads_def list_ex_iff)

lemma tr_reads_faithful: "tr_reads s ks \<Longrightarrow> ends_faithful ks"
  by (simp add: ends_faithful_def tr_reads_no_ends)

lemma ends_block_faithful:
  assumes "list_all2 ends_block (tr_blocks s) es" and "tr_reads s ks" and "BlockEnd i x \<in> set es"
  shows "block_text (block_kind x) = delta_text ks i"
proof -
  from assms(1,3) obtain j where j: "j < length (tr_blocks s)" "ends_block (tr_blocks s ! j) (BlockEnd i x)"
    by (metis in_set_conv_nth list_all2_conv_all_nth)
  with assms(2) have "i = of_nat j" "unat (of_nat j :: u64) = j"
    by (auto simp: ends_block_def tr_reads_def intro!: index_of_nat)
  with assms(2) j show ?thesis by (simp add: tr_reads_def ends_block_def)
qed

lemma tr_finish_ended:
  assumes env: "admits_normal env" and good: "tr_good ks (s, [])" and run: "tr_finish env sp s = Inr (s', out)"
  shows "tr_done s' \<and> tr_ended (rev (map chunk_kind out) @ ks)"
proof -
  have reads: "tr_reads s ks" using good by (simp add: tr_good_def)
  from run obtain cs where cs: "tr_candidates env sp (s\<lparr>tr_done := True\<rparr>) = Inr cs"
    and emit: "run (tr_emit env) (s\<lparr>tr_done := True, tr_pending_usage := None\<rparr>, []) cs = Inr (s', out)"
    by (auto simp: tr_finish_def Let_def result_simps)
  from run_tr_emit [OF emit] have out: "out = cs" "tr_done s'" by simp_all
  from tr_candidates_end [OF env cs] obtain ends usage c where c: "cs = ends @ usage @ [c]"
    and e: "list_all2 ends_block (tr_blocks s) (map chunk_kind ends)"
    and u: "usage = [] \<or> (\<exists>u. usage = [u] \<and> is_usage (chunk_kind u))" and f: "is_finish (chunk_kind c)"
    by (metis DeepSeekTranslator.select_convs(1) DeepSeekTranslator.surjective DeepSeekTranslator.update_convs(9))
  let ?ks = "rev (map chunk_kind ends) @ ks"
  have shape: "stream_shape ?ks" "\<not> list_ex is_finish ?ks" "\<forall>i. open_after ?ks i = None"
      "\<not> list_ex is_usage ?ks" "\<forall>i. delta_text ?ks i = delta_text ks i"
    using ends_shape [OF e, of ks 0] reads by (auto simp: tr_reads_def)
  obtain r st where fin: "chunk_kind c = Finish r st" using f by (cases "chunk_kind c") simp_all
  let ?us = "rev (map chunk_kind usage) @ ?ks"
  have us: "stream_shape ?us" "\<not> list_ex is_finish ?us" "\<forall>i. open_after ?us i = None"
      "\<forall>i. delta_text ?us i = delta_text ks i" "\<And>i x. BlockEnd i x \<in> set ?us \<Longrightarrow> BlockEnd i x \<in> set ?ks"
    using u shape by (auto elim!: is_usage.elims)
  have all: "rev (map chunk_kind out) @ ks = Finish r st # ?us"
    by (simp add: out c fin)
  have "block_text (block_kind x) = delta_text ks i" if "BlockEnd i x \<in> set ?ks" for i x
    using that tr_reads_no_ends [OF reads] ends_block_faithful [OF e reads] by (metis Un_iff set_append set_rev)
  with us have "block_text (block_kind x) = delta_text ?us i" if "BlockEnd i x \<in> set ?us" for i x
    using that by metis
  then have "ends_faithful (Finish r st # ?us)"
    by (simp add: ends_faithful_def del: set_append set_rev set_map)
  with us out(2) show ?thesis by (simp add: all tr_ended_def)
qed

definition translation_ok :: "translation \<Rightarrow> bool" where
  "translation_ok = (\<lambda>(s, out). let ks = rev (map chunk_kind out) in
     if tr_done s then tr_ended ks else tr_reads s ks \<and> tr_owners s)"

lemma translate_payload_ok:
  assumes env: "admits_normal env" and ok: "translation_ok t" and run: "translate_payload env sp read t payload = Inr t'"
  shows "translation_ok t'"
proof -
  obtain s out where t: "t = (s, out)" by fastforce
  from run obtain s' chunks where a: "tr_accept env sp read s payload = Inr (s', chunks)" and t': "t' = (s', out @ chunks)"
    by (auto simp: translate_payload_def t result_simps)
  from a have "\<not> tr_done s" by (auto simp: tr_accept_def)
  with ok have good: "tr_good (rev (map chunk_kind out)) (s, [])"
    by (simp add: translation_ok_def t tr_good_def)
  show ?thesis
  proof (cases "payload = DONE_payload")
    case True
    with a \<open>\<not> tr_done s\<close> have "tr_finish env sp s = Inr (s', chunks)" by (simp add: tr_accept_def)
    from tr_finish_ended [OF env good this] show ?thesis by (simp add: translation_ok_def t')
  next
    case False
    from tr_accept_good [OF env good False a] show ?thesis
      by (simp add: translation_ok_def t' tr_good_def tr_owners_def)
  qed
qed

interpretation translating: keeps "translate_payload env sp read" "\<lambda>t. admits_normal env \<longrightarrow> translation_ok t" for env sp read
  by unfold_locales (blast dest: translate_payload_ok)

lemma translation_ok_default: "translation_ok (translator_default, [])"
  by (simp add: translation_ok_def translator_default_def tr_reads_def tr_owners_def)

lemma translate_ok:
  assumes "admits_normal env" and "translate env sp read payloads = Inr (s, out)"
  shows "translation_ok (s, out)"
  using translating.run_keeps [OF _ assms(2) [unfolded translate_def]] translation_ok_default assms(1) by blast

text \<open>C8
  Every chunk that the DeepSeek translator puts out is accepted by the validator of provider streams,
  whatever payloads the provider sends and however serde reads them, until the limit of 4000 chunks is
  reached; and the stream is complete exactly when the provider has sent its end sentinel.\<close>

theorem translated_stream_accepted:
  assumes "translate (admitting env) sp read payloads = Ok (s, out)"
    and "length out < MAX_PROVIDER_STREAM_CHUNKS \<or> length out = MAX_PROVIDER_STREAM_CHUNKS \<and> tr_done s"
  shows "\<exists>v. run stream_accept stream_default out = Ok v \<and> (stream_complete v = Ok () \<longleftrightarrow> tr_done s)"
proof -
  let ?ks = "rev (map chunk_kind out)"
  have ok: "translation_ok (s, out)"
    using translate_ok [OF admits_normal_admitting assms(1)] .
  then have fin: "list_ex is_finish ?ks \<longleftrightarrow> tr_done s"
    by (cases "tr_done s") (auto simp: translation_ok_def Let_def tr_ended_def tr_reads_def list_ex_iff
        intro!: bexI [of _ "last out"] simp: hd_rev last_map)
  have "stream_shape ?ks"
    using ok by (cases "tr_done s") (simp_all add: translation_ok_def tr_ended_def tr_reads_def Let_def)
  moreover have "tr_done s \<Longrightarrow> is_finish (hd ?ks)"
    using ok by (simp add: translation_ok_def tr_ended_def Let_def)
  ultimately have "stream_grammar ?ks"
    using assms(2) by (auto intro!: stream_shape_grammar)
  then obtain v where v: "run stream_accept stream_default out = Ok v"
    using run_stream_iff [OF validator_reads_default, of out] by auto
  with run_stream_reads [OF validator_reads_default v] fin show ?thesis
    by (simp add: stream_complete_def validator_reads_def)
qed

text \<open>C9
  The content of every block that the translator closes is exactly the concatenation of the deltas that
  it put out for the index of that block, in their order.\<close>

theorem translated_blocks_faithful:
  assumes "translate (admitting env) sp read payloads = Ok (s, out)"
    and "BlockEnd i b \<in> set (map chunk_kind out)"
  shows "block_text (block_kind b) = delta_text (rev (map chunk_kind out)) i"
proof -
  have "translation_ok (s, out)"
    using translate_ok [OF admits_normal_admitting assms(1)] .
  then have "ends_faithful (rev (map chunk_kind out))"
    by (auto simp: translation_ok_def tr_ended_def tr_reads_faithful Let_def split: if_splits)
  with assms(2) show ?thesis by (simp add: ends_faithful_def)
qed

text \<open>A tool call in two parts.\<close>

definition sample_wire_call :: "string option \<Rightarrow> string \<Rightarrow> WireChunk" where
  "sample_wire_call i s = \<lparr>wire_choices = Some [\<lparr>wire_delta = Some \<lparr>wire_content = None, wire_reasoning = None, wire_tool_calls =
     Some [\<lparr>wire_index = 7, wire_id = i, wire_function = Some \<lparr>wire_function_name = None, wire_arguments = Some s\<rparr>\<rparr>]\<rparr>,
     wire_finish = Some ''length''\<rparr>], wire_usage = None\<rparr>"

definition sample_wire_read :: "string \<Rightarrow> WireChunk option" where
  "sample_wire_read p =
     (if p = ''b'' then Some (sample_wire_call (Some ''c1'') ''{'') else if p = ''c'' then Some (sample_wire_call None ''}'') else None)"

definition sample_wire_parts :: serde_parts where
  "sample_wire_parts = \<lparr>de_attachment = (\<lambda>_. None), de_form = (\<lambda>_. None), de_sections = (\<lambda>_. None), admit_json = Some\<rparr>"

abbreviation sample_wire_env :: session_env where
  "sample_wire_env \<equiv> admitting replay_env"

lemma sample_wire_admit:
  "json_nodes v \<le> MAX_JSON_NODES \<Longrightarrow> admissible_at 0 v \<Longrightarrow> env_admit sample_wire_env v = Some (normalize_numbers v)"
  using inspect_json_Ok [of v]
  by (simp add: admitting_def json_value_new_def replay_env_def MAX_JSON_VALUE_BYTES_def Let_def)

lemma sample_wire_json_new:
  "json_nodes v \<le> MAX_JSON_NODES \<Longrightarrow> admissible_at 0 v \<Longrightarrow> json_new sample_wire_env v = Inr (normalize_numbers v)"
  by (simp add: json_new_def sample_wire_admit)

lemmas sample_wire_limits = MAX_JSON_NODES_def MAX_JSON_DEPTH_def MAX_DEEPSEEK_EMITTED_BYTES_def MAX_DEEPSEEK_OUTPUT_BYTES_def
  MAX_DEEPSEEK_BLOCKS_def MAX_WIRE_CHOICES_def MAX_TOOL_DELTAS_PER_CHOICE_def

lemma sample_wire_start: "chunk_block_start sample_wire_env sample_wire_parts 0 TypeToolCall = Inr \<lparr>chunk_kind = BlockStart 0 TypeToolCall,
    chunk_raw = JObj [(''blockType'', JStr ''tool-call''), (''index'', JInt 0), (''type'', JStr ''block-start'')]\<rparr>"
  by (simp add: chunk_block_start_def chunk_reads sample_wire_json_new sample_wire_limits safe_integer_new_def safe_u64_def
      block_type_from_json_def block_type_of_name_def)

lemma sample_tool_delta: "chunk_tool_call_delta sample_wire_env sample_wire_parts 0 ''c1'' None s = Inr \<lparr>chunk_kind = ToolCallDelta 0 ''c1'' None s,
    chunk_raw = JObj [(''argumentsDelta'', JStr s), (''id'', JStr ''c1''), (''index'', JInt 0), (''type'', JStr ''tool-call-delta'')]\<rparr>"
  by (simp add: chunk_tool_call_delta_def chunk_reads sample_wire_json_new sample_wire_limits safe_integer_new_def safe_u64_def)

lemma sample_wire_end: "chunk_block_end sample_wire_env sample_wire_parts 0 \<lparr>block_kind = ToolCallBlock ''c1'' [] ''{}'', block_raw =
      JObj [(''arguments'', JStr ''{}''), (''id'', JStr ''c1''), (''name'', JStr []), (''type'', JStr ''tool-call'')]\<rparr>
    = Inr \<lparr>chunk_kind = BlockEnd 0 \<lparr>block_kind = ToolCallBlock ''c1'' [] ''{}'', block_raw =
        JObj [(''arguments'', JStr ''{}''), (''id'', JStr ''c1''), (''name'', JStr []), (''type'', JStr ''tool-call'')]\<rparr>,
      chunk_raw = JObj [(''block'', JObj [(''arguments'', JStr ''{}''), (''id'', JStr ''c1''), (''name'', JStr []),
        (''type'', JStr ''tool-call'')]), (''index'', JInt 0), (''type'', JStr ''block-end'')]\<rparr>"
  by (simp add: chunk_block_end_def chunk_reads sample_wire_json_new sample_wire_limits safe_integer_new_def safe_u64_def
      content_block_from_value_def sample_wire_admit parse_content_block_def parse_tool_call_def)

lemma sample_tool_content: "content_block_tool_call sample_wire_env sample_wire_parts ''c1'' [] ''{}'' = Inr \<lparr>block_kind = ToolCallBlock ''c1'' [] ''{}'',
    block_raw = JObj [(''arguments'', JStr ''{}''), (''id'', JStr ''c1''), (''name'', JStr []), (''type'', JStr ''tool-call'')]\<rparr>"
  by (simp add: content_block_tool_call_def content_block_from_value_def sample_wire_admit sample_wire_limits parse_content_block_def
      parse_tool_call_def get_str_def)

lemma sample_finish_reason: "map_finish_reason sample_wire_env ''length'' False = Inr \<lparr>finish_kind = FinishMaxTokens, finish_raw = JObj [(''kind'', JStr ''max-tokens'')]\<rparr>"
    "chunk_finish sample_wire_env sample_wire_parts \<lparr>finish_kind = FinishMaxTokens, finish_raw = JObj [(''kind'', JStr ''max-tokens'')]\<rparr> None
     = Inr \<lparr>chunk_kind = Finish \<lparr>finish_kind = FinishMaxTokens, finish_raw = JObj [(''kind'', JStr ''max-tokens'')]\<rparr> None,
         chunk_raw = JObj [(''reason'', JObj [(''kind'', JStr ''max-tokens'')]), (''type'', JStr ''finish'')]\<rparr>"
  by (simp_all add: map_finish_reason_def chunk_finish_def chunk_reads sample_wire_json_new sample_wire_limits finish_reason_plain_def
      finish_reason_from_value_def optional_json_def)

lemma sample_wire_translation:
  "\<exists>s. tr_done s \<and> translate sample_wire_env sample_wire_parts sample_wire_read [''b'', ''c'', DONE_payload] = Ok (s,
     [\<lparr>chunk_kind = BlockStart 0 TypeToolCall,
        chunk_raw = JObj [(''blockType'', JStr ''tool-call''), (''index'', JInt 0), (''type'', JStr ''block-start'')]\<rparr>,
      \<lparr>chunk_kind = ToolCallDelta 0 ''c1'' None ''{'',
        chunk_raw = JObj [(''argumentsDelta'', JStr ''{''), (''id'', JStr ''c1''), (''index'', JInt 0), (''type'', JStr ''tool-call-delta'')]\<rparr>,
      \<lparr>chunk_kind = ToolCallDelta 0 ''c1'' None ''}'',
        chunk_raw = JObj [(''argumentsDelta'', JStr ''}''), (''id'', JStr ''c1''), (''index'', JInt 0), (''type'', JStr ''tool-call-delta'')]\<rparr>,
      \<lparr>chunk_kind = BlockEnd 0 \<lparr>block_kind = ToolCallBlock ''c1'' [] ''{}'', block_raw =
          JObj [(''arguments'', JStr ''{}''), (''id'', JStr ''c1''), (''name'', JStr []), (''type'', JStr ''tool-call'')]\<rparr>,
        chunk_raw = JObj [(''block'', JObj [(''arguments'', JStr ''{}''), (''id'', JStr ''c1''), (''name'', JStr []),
          (''type'', JStr ''tool-call'')]), (''index'', JInt 0), (''type'', JStr ''block-end'')]\<rparr>,
      \<lparr>chunk_kind = Finish \<lparr>finish_kind = FinishMaxTokens, finish_raw = JObj [(''kind'', JStr ''max-tokens'')]\<rparr> None,
        chunk_raw = JObj [(''reason'', JObj [(''kind'', JStr ''max-tokens'')]), (''type'', JStr ''finish'')]\<rparr>])"
proof -
  have len: "env_encoded_len sample_wire_env v = 2" for v by (simp add: admitting_def replay_env_def)
  note defs = tr_accept_def sample_wire_read_def sample_wire_call_def DONE_payload_def tr_choice_def tr_content_def tr_reasoning_delta_def
    tr_text_delta_def tr_tool_call_def tr_block_def tr_open_def tr_emit_def set_call_id_def set_name_def replace_retained_def
    string_length_def unwrap_or_default_def tr_delta_def tr_append_def update_block_def sample_wire_limits len sample_wire_start sample_tool_delta Let_def
  obtain s1 where one: "tr_accept sample_wire_env sample_wire_parts sample_wire_read translator_default ''b'' = Ok (s1,
      [\<lparr>chunk_kind = BlockStart 0 TypeToolCall,
        chunk_raw = JObj [(''blockType'', JStr ''tool-call''), (''index'', JInt 0), (''type'', JStr ''block-start'')]\<rparr>,
      \<lparr>chunk_kind = ToolCallDelta 0 ''c1'' None ''{'',
        chunk_raw = JObj [(''argumentsDelta'', JStr ''{''), (''id'', JStr ''c1''), (''index'', JInt 0), (''type'', JStr ''tool-call-delta'')]\<rparr>])"
    and s1: "s1 = translator_default\<lparr>tr_blocks := [\<lparr>internal_index = 0, open_kind = OpenToolCall, open_text = ''{'',
        open_call_id = Some ''c1'', open_name = None\<rparr>], tr_tools := [7 \<mapsto> 0], tr_pending_finish := Some ''length'',
        tr_retained := 3, tr_emitted := 4\<rparr>"
    by (simp add: defs translator_default_def)
  obtain s2 where two: "tr_accept sample_wire_env sample_wire_parts sample_wire_read s1 ''c'' = Ok (s2,
      [\<lparr>chunk_kind = ToolCallDelta 0 ''c1'' None ''}'',
        chunk_raw = JObj [(''argumentsDelta'', JStr ''}''), (''id'', JStr ''c1''), (''index'', JInt 0), (''type'', JStr ''tool-call-delta'')]\<rparr>])"
    and s2: "s2 = translator_default\<lparr>tr_blocks := [\<lparr>internal_index = 0, open_kind = OpenToolCall, open_text = ''{}'',
        open_call_id = Some ''c1'', open_name = None\<rparr>], tr_tools := [7 \<mapsto> 0], tr_pending_finish := Some ''length'',
        tr_retained := 4, tr_emitted := 6\<rparr>"
    by (simp add: defs translator_default_def s1)
  show ?thesis
    by (simp add: translate_def translate_payload_def one two)
      (simp add: s2 tr_accept_def DONE_payload_def tr_finish_def tr_candidates_def end_chunks_def end_chunk_def block_content_def
        unwrap_or_default_def sample_tool_content sample_wire_end sample_finish_reason tr_emit_def len sample_wire_limits translator_default_def Let_def)
qed

theorem translated_stream_accepted_witness:
  "\<exists>s out v. translate sample_wire_env sample_wire_parts sample_wire_read [''b'', ''c'', DONE_payload] = Ok (s, out)
     \<and> length out = 5 \<and> run stream_accept stream_default out = Ok v \<and> stream_complete v = Ok ()"
proof -
  obtain s out where t: "translate sample_wire_env sample_wire_parts sample_wire_read [''b'', ''c'', DONE_payload] = Ok (s, out)"
    and out: "tr_done s" "length out = 5"
    using sample_wire_translation by fastforce
  with translated_stream_accepted [OF t] show ?thesis by (auto simp: MAX_PROVIDER_STREAM_CHUNKS_def)
qed

theorem translated_blocks_faithful_witness:
  "\<exists>s out b. translate sample_wire_env sample_wire_parts sample_wire_read [''b'', ''c'', DONE_payload] = Ok (s, out)
     \<and> BlockEnd 0 b \<in> set (map chunk_kind out) \<and> block_text (block_kind b) = delta_text (rev (map chunk_kind out)) 0
     \<and> block_text (block_kind b) = ''{}''"
proof -
  obtain s out b where t: "translate sample_wire_env sample_wire_parts sample_wire_read [''b'', ''c'', DONE_payload] = Ok (s, out)"
    and b: "BlockEnd 0 b \<in> set (map chunk_kind out)" and bt: "block_text (block_kind b) = ''{}''"
    using sample_wire_translation by fastforce
  from translated_blocks_faithful [OF t b] t b bt show ?thesis by blast
qed

end
