(* ===== verification/Spec2Isabelle.thy ===== *)
theory Spec2Isabelle
  imports Goal_Correct Plan_Mode Sse Stream Title Replay_Owners Replay_Bracket Durable_Steps
    Live_Correct Recovery_Correct File_Change Json_Store Key_Decoder Translate
begin

text \<open>
  The session core of the harness \<open>deepseek-harness-rs\<close>, translated definition by definition from
  the Rust sources under \<open>src/src\<close> (paths below are relative to it), with the theorems that make it
  correct.

  \<^bold>\<open>The program.\<close> The harness runs a coding agent. Everything that happened in a session is an
  append-only log of events (\<open>session/event.rs\<close>). An event is validated on its own and then folded
  into the session projection (\<open>session/projection.rs\<close>), the state from which the next model
  request is built: the open turn and step, the tool calls of the step, the approvals that are
  pending, provider retries, the model-visible surface of messages, the compaction bracket that may
  replace a prefix of that surface by a summary or prune a tool result, the Goal, the Plan Mode flag
  and the title. Whatever an event cannot be folded into is rejected before it reaches the log, and
  the same fold replays a stored log when a session is resumed. Beside the log live process-local
  runtimes (\<open>goal.rs\<close>, \<open>plan_mode.rs\<close>) that prepare a change, have it journalled and install it
  afterwards. Model output arrives as Server-Sent Events (\<open>provider/deepseek/sse.rs\<close>), is translated
  into a stream of chunks (\<open>provider/deepseek/response.rs\<close>) that has a grammar of its own
  (\<open>model/stream.rs\<close>), and is folded into the provider attempt of the open step
  (\<open>session/attempt_anchor.rs\<close>). One owner per durable session (\<open>session/mod.rs\<close>) decides who may
  append what; when the process dies, the next one scans the journal and appends the rows that bring
  the session to rest (\<open>session/recovery.rs\<close>). Of the tools, \<open>apply_patch\<close> (\<open>tools/patch.rs\<close>) is
  modelled with the diff that the user approves (\<open>agent/approval.rs\<close>), and of the terminal interface
  the decoder of its input (\<open>tui/key_decoder.rs\<close>).

  \<^bold>\<open>Theories.\<close>
  \<^item> \<open>Prelude\<close>: machine integers with their checked and saturating operations, results as sums with
    the \<open>?\<close> operator, UTF-8 strings as byte lists with the \<open>str\<close> operations used, JSON values, and
    the locale \<open>keeps\<close> of a fallible step that keeps an invariant. \<open>Utf8\<close>: well-formed sequences,
    characters and \<open>from_utf8_lossy\<close>.
  \<^item> \<open>Message\<close>, \<open>Llm\<close>: \<open>model/message.rs\<close>, \<open>model/llm.rs\<close>.
  \<^item> \<open>Goal\<close>, \<open>Goal_Runtime\<close>, \<open>Goal_Correct\<close>: \<open>goal.rs\<close>. \<open>Plan_Mode\<close>: \<open>plan_mode.rs\<close>.
    \<open>Journalled\<close>: the prepare, append, install protocol of \<open>agent/mod.rs\<close> as a locale, interpreted on
    both runtimes.
  \<^item> \<open>Sse\<close>: \<open>provider/deepseek/sse.rs\<close>. \<open>Stream\<close>: \<open>model/stream.rs\<close>. \<open>Title\<close>: \<open>session/title.rs\<close>.
  \<^item> \<open>Json_Value\<close>: the admission of JSON in \<open>json_value.rs\<close>; \<open>Json_Store\<close>: that it has the law the
    theorems on recovery assume of the store. \<open>Message_Build\<close>, \<open>Llm_Build\<close>: the parsers and constructors
    of \<open>model/message.rs\<close> and \<open>model/llm.rs\<close>. \<open>Translate\<close>: \<open>provider/deepseek/response.rs\<close>.
  \<^item> \<open>Session_Ids\<close>, \<open>Session_Data\<close>, \<open>Session_Error\<close>, \<open>Session_Check\<close>: identifiers, payloads, errors
    and the validation of one event (\<open>session/event.rs\<close>, \<open>session/compaction.rs\<close>,
    \<open>session/error.rs\<close>).
  \<^item> \<open>Context_Budget\<close>: \<open>session/context_budget.rs\<close>. \<open>Tool_Result_Pruner\<close>:
    \<open>session/tool_result_pruner.rs\<close>.
  \<^item> \<open>Projection_State\<close>, \<open>Projection_Turns\<close>, \<open>Projection_Surface\<close>, \<open>Projection_Compaction\<close>,
    \<open>Projection\<close>: \<open>session/projection.rs\<close>, one theory per part of the fold and the fold itself.
  \<^item> \<open>Projection_Correct\<close>, \<open>Replay_Owners\<close>, \<open>Replay_Surface\<close>, \<open>Replay_Compaction\<close>,
    \<open>Replay_Bracket\<close>, \<open>Durable_Steps\<close>: what a replayed session guarantees.
  \<^item> \<open>Attempt\<close>: \<open>session/attempt_anchor.rs\<close>. \<open>Live_Projection\<close>: the projection with the attempt and the
    token anchor. \<open>Live_Session\<close>: the owner of a durable session in \<open>session/mod.rs\<close>. \<open>Live_Frame\<close>,
    \<open>Live_Rows\<close>, \<open>Attempt_Reopen\<close>, \<open>Live_Reopen\<close>, \<open>Live_Journal\<close>, \<open>Live_Correct\<close>: the journal that a live
    session writes against the scan of it.
  \<^item> \<open>Recovery\<close>: \<open>session/recovery.rs\<close>. \<open>Recovery_State\<close>, \<open>Recovery_Plan\<close>, \<open>Recovery_Step\<close>,
    \<open>Recovery_Correct\<close>: what a scanned journal looks like, the plan as a list, one row of it, and the
    whole recovery.
  \<^item> \<open>File_Patch\<close>, \<open>File_Diff\<close>, \<open>File_Change\<close>: \<open>tools/patch.rs\<close>, in the order check and apply, diff for
    approval, the tool as a whole. \<open>File_Diff_Correct\<close>, \<open>File_Prompt\<close>, \<open>File_Text\<close>: the diff against the
    change, the checks of the prompt, line endings. \<open>Key_Decoder\<close>: \<open>tui/key_decoder.rs\<close>.

  \<^bold>\<open>How the model corresponds to the code.\<close> A struct is a record, an enum a datatype, with the
  source's names as far as HOL leaves them free (fields carry a prefix that says whose they are).
  \<open>u32\<close>, \<open>u64\<close> and \<open>usize\<close> are words of 32, 64 and 64 bits, and \<open>checked_add\<close>, \<open>saturating_add\<close> and the
  like are written out. A wall-clock time is an integer. A finite \<open>f64\<close> is a rational; the double a JSON
  number denotes is the parameter \<open>env_number\<close>. A method that mutates \<open>self\<close> returns the new state;
  a \<open>Result\<close> is a sum whose left side is the error, and each early return is a branch. Locks are not
  modelled: every operation holds its component's lock from start to end. The fields that the projection
  keeps per component are one record, and the operations of a part are polymorphic in its extension.

  \<^bold>\<open>What the lemmas show.\<close>
  \<^item> Goal: live state and replayed state never diverge, whatever storage refuses; a prepared change is
    accepted by the replay; ids are never reused, a complete Goal stays complete, automatic rounds
    are bounded, and preparing is exclusive. Clearing a Goal fails while the clock is behind the last
    update (a defect of the code).
  \<^item> Plan Mode: a pending boundary is never stale, an approved exit takes effect at its boundary, and
    the protocol with the journal is kept.
  \<^item> SSE: any cut of the input into chunks gives the same events; the items and failures are exactly
    those of a reading of the whole response line by line; the decoder's memory is bounded.
  \<^item> Stream: the validator accepts exactly the prefixes of the grammar, and completes exactly those
    that contain the finish; a successful finish leaves no block open.
  \<^item> Translation: whatever the provider sends, the chunks that are put out are accepted by the
    validator up to its limit, the stream is complete exactly when the end sentinel was read, and the
    content of a closed block is what its deltas add up to.
  \<^item> JSON: the walk with its explicit stack is the recursive reading of the limits, and an admitted
    value is its own normal form.
  \<^item> Titles: normalisation is idempotent and canonical, and a fallback title is valid.
  \<^item> Context budget: the cut is the longest that leaves the tokens to retain, splits no tool call
    from its result and respects the maximum.
  \<^item> Pruning: the head and tail of the content are kept, nothing else of the event changes, a
    second pruning finds nothing to do, and every candidate with sane thresholds has an outcome.
  \<^item> Projection: turns and steps are numbered without gaps; approvals and retries have one owner; the
    surface consists of logged messages, its totals are exact and only cited messages disappear;
    what the surface proposes for compaction is exactly what the validator of its start accepts, and a
    strict compaction shrinks the surface; brackets are closed in order; the tool calls of a strict
    session are resolved before their step ends; a rewrite keeps the identity of its target.
  \<^item> Live sessions: whatever order the owner dispatches, seals, closes, prunes, retires and appends in,
    and whatever is refused on the way, the cold scan accepts every row and arrives at the live
    projection, up to what a crash loses of the attempt.
  \<^item> Recovery: every accepted journal can be repaired; the plan is exactly the cancellation, results,
    ends and seed marker that its projection calls for; it is accepted row by row and leaves a
    session at rest; and a recovery that crashes is continued where it stopped.
  \<^item> \<open>apply_patch\<close>: the diff shown for approval is the text of a patch whose application gives exactly
    the bytes that are written; the checks of the prompt accept every diff that was built; a file
    that is read and written back keeps every byte.
  \<^item> Terminal input: however the bytes are split, keys, characters and pastes are decoded to exactly
    their events, and nothing inside a paste is taken for a key.

  \<^bold>\<open>Bounds.\<close> The limits of the code are constants of the model: 4096 source sequence numbers in a
  payload, 64 tool calls in a step, JSON depth 128, a million nodes and 8 MiB, the size limits of SSE
  lines and events, 4000 chunks in a provider stream, 128 blocks, 4 MiB of content and 10 MiB of
  emitted JSON in a translation, a million events in a session, 64 KiB for a prompt and for a paste. A
  recovery writes at most 68 rows: 64 results and four for the approval, the step, the turn and the
  marker. The comparison of JSON values descends by a counter that the depth limit makes sufficient, as
  in the code; otherwise recursion is on lists, on JSON values or by a measure, and there is no fuel.

  \<^bold>\<open>Parameters.\<close> What is not under \<open>src\<close> is an argument of the definitions that use it: the record
  \<open>session_env\<close> collects the JSON number reader and printer of \<open>serde_json\<close>, the length of an encoded
  value, SHA-256, the JSON encoder and the deserialisers of nested payloads; \<open>serde_parts\<close> those of
  message parts; the patch library (\<open>diffy\<close>), the workspace, the cancellation token, the consumer of
  decoded keys and the reader of a provider payload are functions. The provider's clock and the
  identifiers of \<open>uuid\<close> are plain arguments. The theorems hold for all values of them unless they name
  a law; the witnesses instantiate them. The theorems on recovery assume \<open>plain_env\<close>: small plain values
  are admitted unchanged and a digest has 32 bytes. \<open>Json_Store\<close> derives it for the real admission from
  what the encoder documents.

  \<^bold>\<open>Not modelled.\<close> The agent loop and its prompts, the command line and the terminal interface apart
  from the input decoder, the tools apart from \<open>apply_patch\<close>, plugins, language servers, processes and
  the workspace, provider requests, transport and credentials, the codec and the files of the journal,
  search, export, fork and observers: they are input and output, scheduling or rendering around the
  state that is modelled here. Charges for resident memory are left out everywhere, as they depend on
  allocations and can only refuse an operation. Wire parsing and serialisation that serde derives is a
  parameter.
\<close>

end
